(* ===== verification/Prelude.thy ===== *)
theory Prelude
  imports Main "HOL-Library.Word" "HOL-Library.AList"
begin

text \<open>
  The shared ground of the development: identifiers, instants and durations, the error values
  of every package, operations that pass a state and may return an error, Go maps, and the
  fact collections the component theories feed.

  Conventions used by every other theory:
  \<^item> \<open>uuid.UUID\<close> is a 16-byte array, here a \<open>128 word\<close>; \<open>time.Time\<close> is an \<open>int\<close> of nanoseconds since
    the Unix epoch; \<open>time.Duration\<close> and \<open>int64\<close> are \<open>int\<close>s, wrapped by \<open>wrap64\<close> where the code's
    arithmetic can leave 64 bits.
  \<^item> Each reading of the clock and each fresh identifier is an argument of the definition that
    reads it, in the order the code reads them.
  \<^item> A method with an \<open>error\<close> result is an operation \<open>'s \<Rightarrow> (err + 'a) \<times> 's\<close>: \<open>Inl\<close> is a non-nil error.
  \<^item> A Go \<open>map\<close> is an association list; a \<open>range\<close> over it visits the entries in list order. Go leaves
    that order open, so a theorem about every list is a theorem about every order.
\<close>

section \<open>Collections of facts\<close>

named_theorems go_defs "definitions of the model that component proofs unfold"
named_theorems preserves_intros "rules showing that an operation keeps a state predicate"
named_theorems keeps_intros "rules showing that an operation keeps a view of the state"

section \<open>Identifiers, instants, durations\<close>

type_synonym uuid = "128 word"
type_synonym go_time = int
type_synonym duration = int
type_synonym bytes = string

abbreviation millisecond :: duration where "millisecond \<equiv> 1000000"
abbreviation second :: duration where "second \<equiv> 1000000000"
abbreviation minute :: duration where "minute \<equiv> 60 * 1000000000"
abbreviation hour :: duration where "hour \<equiv> 3600 * 1000000000"

text \<open>Two's complement wrap-around of a 64-bit signed result.\<close>

definition wrap64 :: "int \<Rightarrow> int" where
  "wrap64 x = (x + 2 ^ 63) mod 2 ^ 64 - 2 ^ 63"

lemma wrap64_id: "- (2 ^ 63) \<le> x \<Longrightarrow> x < 2 ^ 63 \<Longrightarrow> wrap64 x = x"
  by (simp add: wrap64_def)

lemma wrap64_range: "- (2 ^ 63) \<le> wrap64 x \<and> wrap64 x < 2 ^ 63"
  by (simp add: wrap64_def)

lemma wrap64_cong: "wrap64 x mod 2 ^ 64 = x mod 2 ^ 64"
  by (simp add: wrap64_def mod_diff_left_eq)

text \<open>\<open>Time.Sub\<close> saturates at the ends of the \<open>Duration\<close> range.\<close>

definition time_sub :: "go_time \<Rightarrow> go_time \<Rightarrow> duration" where
  "time_sub t u = max (- (2 ^ 63)) (min (2 ^ 63 - 1) (t - u))"

section \<open>Errors\<close>

text \<open>
  The sentinel errors of the packages (\<open>errors.New\<close> at package level), an error wrapped by
  \<open>fmt.Errorf\<close> with \<open>%w\<close>, and any other error by its text. Several packages declare a sentinel of
  the same name; \<open>pkg\<close> tells them apart.
\<close>

datatype pkg = Uploads | Media | AI | Auth | Projects | Sharing | Reports | Collab

datatype err =
    ErrNotFound pkg
  | ErrForbidden pkg
  | ErrInvalidInput pkg
  | ErrIllegalTransition
  | ErrObjectMissing
  | ErrObjectTooLarge
  | ErrContentTypeMismatch
  | ErrConflict
  | ErrClaimHeld
  | ErrClaimLost
  | ErrInvalidAnalysisResult
  | ErrAnalysisInFlight
  | ErrInvalidEmail
  | ErrInvalidPassword
  | ErrEmailTaken
  | ErrInvalidCredentials
  | ErrUnauthorized
  | ErrInvalidName
  | ErrAlreadyMember
  | ErrInvalidRole
  | ErrLastOwner
  | ErrReportNotReady
  | ErrShareInactive
  | ErrMismatch
  | ErrEmptyFrame
  | ErrFrameTooLarge
  | ErrUnsupportedMediaType
  | ErrPanic string
  | ErrWrap string err
  | ErrSuffix err string
  | ErrOther string

text \<open>\<open>errors.Is(e, target)\<close> follows the chain of wrapped errors.\<close>

fun errors_is :: "err \<Rightarrow> err \<Rightarrow> bool" where
  "errors_is (ErrWrap m e) t = (ErrWrap m e = t \<or> errors_is e t)"
| "errors_is (ErrSuffix e m) t = (ErrSuffix e m = t \<or> errors_is e t)"
| "errors_is e t = (e = t)"

lemma errors_is_refl [simp]: "errors_is e e"
  by (cases e) auto

text \<open>\<open>err.Error()\<close>. A wrapping message stands before (\<open>ErrWrap\<close>) or after (\<open>ErrSuffix\<close>) the text of the
  error it wraps.\<close>

fun err_msg :: "err \<Rightarrow> string" where
  "err_msg (ErrNotFound p) =
     (case p of Uploads \<Rightarrow> ''recording not found'' | Media \<Rightarrow> ''recording not found''
      | AI \<Rightarrow> ''not found'' | Auth \<Rightarrow> ''not found'' | Projects \<Rightarrow> ''project not found''
      | Sharing \<Rightarrow> ''share not found'' | Reports \<Rightarrow> ''report not found'' | Collab \<Rightarrow> ''not found'')"
| "err_msg (ErrForbidden p) = ''forbidden''"
| "err_msg (ErrInvalidInput p) = ''invalid input''"
| "err_msg ErrIllegalTransition = ''illegal status transition''"
| "err_msg ErrObjectMissing = ''uploaded object not found in storage''"
| "err_msg ErrObjectTooLarge = ''uploaded object exceeds size limit''"
| "err_msg ErrContentTypeMismatch = ''uploaded object content type mismatch''"
| "err_msg ErrConflict = ''recording not in expected state''"
| "err_msg ErrClaimHeld = ''recording claimed by another worker''"
| "err_msg ErrClaimLost = ''processing claim lost''"
| "err_msg ErrInvalidAnalysisResult = ''invalid analysis result''"
| "err_msg ErrAnalysisInFlight = ''analysis already in progress''"
| "err_msg ErrInvalidEmail = ''invalid email''"
| "err_msg ErrInvalidPassword = ''password must be at least 8 characters''"
| "err_msg ErrEmailTaken = ''email already registered''"
| "err_msg ErrInvalidCredentials = ''invalid credentials''"
| "err_msg ErrUnauthorized = ''unauthorized''"
| "err_msg ErrInvalidName = ''project name is required''"
| "err_msg ErrAlreadyMember = ''user is already a member''"
| "err_msg ErrInvalidRole = ''invalid role''"
| "err_msg ErrLastOwner = ''cannot remove the last owner''"
| "err_msg ErrReportNotReady = ''report is not ready to share''"
| "err_msg ErrShareInactive = ''share link is expired or revoked''"
| "err_msg ErrMismatch = ''password mismatch''"
| "err_msg ErrEmptyFrame = ''frame is empty''"
| "err_msg ErrFrameTooLarge = ''frame exceeds byte limit''"
| "err_msg ErrUnsupportedMediaType = ''unsupported frame media type''"
| "err_msg (ErrPanic m) = m"
| "err_msg (ErrWrap m e) = m @ err_msg e"
| "err_msg (ErrSuffix e m) = err_msg e @ m"
| "err_msg (ErrOther m) = m"

section \<open>Operations\<close>

type_synonym ('s, 'a) op = "'s \<Rightarrow> (err + 'a) \<times> 's"

definition ret :: "'a \<Rightarrow> ('s, 'a) op" where
  "ret a s = (Inr a, s)"

definition fail :: "err \<Rightarrow> ('s, 'a) op" where
  "fail e s = (Inl e, s)"

text \<open>\<open>x, err := m(); if err != nil \<open>{\<close> return err \<open>}\<close>; f(x)\<close>.\<close>

definition andthen :: "('s, 'a) op \<Rightarrow> ('a \<Rightarrow> ('s, 'b) op) \<Rightarrow> ('s, 'b) op" where
  "andthen m f s = (case m s of (Inl e, s') \<Rightarrow> (Inl e, s') | (Inr a, s') \<Rightarrow> f a s')"

text \<open>\<open>x, err := m()\<close> with the error looked at by the caller, and \<open>_ = m()\<close>.\<close>

definition attempt :: "('s, 'a) op \<Rightarrow> ('s, err + 'a) op" where
  "attempt m s = (Inr (fst (m s)), snd (m s))"

definition ignore :: "('s, 'a) op \<Rightarrow> ('s, unit) op" where
  "ignore m s = (Inr (), snd (m s))"

text \<open>A pure check that may fail, and a pure step of the state.\<close>

definition lift_sum :: "err + 'a \<Rightarrow> ('s, 'a) op" where
  "lift_sum r s = (r, s)"

definition modify :: "('s \<Rightarrow> 's) \<Rightarrow> ('s, unit) op" where
  "modify f s = (Inr (), f s)"

text \<open>\<open>if err != nil \<open>{\<close> return g(err) \<open>}\<close>\<close>.\<close>

definition map_err :: "(err \<Rightarrow> err) \<Rightarrow> ('s, 'a) op \<Rightarrow> ('s, 'a) op" where
  "map_err g m s = (case m s of (Inl e, s') \<Rightarrow> (Inl (g e), s') | (Inr a, s') \<Rightarrow> (Inr a, s'))"

text \<open>\<open>for _, x := range xs\<close> with an early return on error; \<open>acc\<close> is what the body accumulates.\<close>

fun foreach :: "('acc \<Rightarrow> 'x \<Rightarrow> ('s, 'acc) op) \<Rightarrow> 'acc \<Rightarrow> 'x list \<Rightarrow> ('s, 'acc) op" where
  "foreach f acc [] = ret acc"
| "foreach f acc (x # xs) = andthen (f acc x) (\<lambda>acc'. foreach f acc' xs)"

lemmas op_defs = ret_def fail_def andthen_def attempt_def ignore_def lift_sum_def modify_def map_err_def

lemma ret_simp [simp]: "ret a s = (Inr a, s)" by (simp add: ret_def)
lemma fail_simp [simp]: "fail e s = (Inl e, s)" by (simp add: fail_def)
lemma lift_sum_simp [simp]: "lift_sum r s = (r, s)" by (simp add: lift_sum_def)
lemma modify_simp [simp]: "modify f s = (Inr (), f s)" by (simp add: modify_def)

lemma andthen_ret [simp]: "andthen (ret a) f = f a"
  by (rule ext) (simp add: andthen_def)

lemma andthen_fail [simp]: "andthen (fail e) f = fail e"
  by (rule ext) (simp add: andthen_def)

lemma andthen_Inr_step: "m s = (Inr a, s') \<Longrightarrow> andthen m f s = f a s'"
  by (simp add: andthen_def)

lemma andthen_Inl_step: "m s = (Inl e, s') \<Longrightarrow> andthen m f s = (Inl e, s')"
  by (simp add: andthen_def)

lemma andthen_InrD:
  "andthen m f s = (Inr b, s'') \<Longrightarrow> \<exists>a s'. m s = (Inr a, s') \<and> f a s' = (Inr b, s'')"
  by (auto simp: andthen_def split: prod.splits sum.splits)

lemma andthen_cases:
  assumes "andthen m f s = (r, s'')"
  obtains (err) e where "m s = (Inl e, s'')" and "r = Inl e"
  | (ok) a s' where "m s = (Inr a, s')" and "f a s' = (r, s'')"
  using assms by (auto simp: andthen_def split: prod.splits sum.splits)

lemma andthen_InrE:
  assumes "andthen m f s = (Inr b, s'')"
  obtains a s' where "m s = (Inr a, s')" and "f a s' = (Inr b, s'')"
  using andthen_InrD [OF assms] by blast

section \<open>Operations that keep a predicate or a view of the state\<close>

definition preserves :: "('s \<Rightarrow> bool) \<Rightarrow> ('s, 'a) op \<Rightarrow> bool" where
  "preserves P m \<longleftrightarrow> (\<forall>s. P s \<longrightarrow> P (snd (m s)))"

definition keeps :: "('s \<Rightarrow> 'v) \<Rightarrow> ('s, 'a) op \<Rightarrow> bool" where
  "keeps v m \<longleftrightarrow> (\<forall>s. v (snd (m s)) = v s)"

lemma preservesI: "(\<And>s. P s \<Longrightarrow> P (snd (m s))) \<Longrightarrow> preserves P m"
  by (simp add: preserves_def)

lemma preservesD: "preserves P m \<Longrightarrow> m s = (r, s') \<Longrightarrow> P s \<Longrightarrow> P s'"
  by (metis preserves_def snd_conv)

lemma keepsI: "(\<And>s. v (snd (m s)) = v s) \<Longrightarrow> keeps v m"
  by (simp add: keeps_def)

lemma keepsD: "keeps v m \<Longrightarrow> m s = (r, s') \<Longrightarrow> v s' = v s"
  by (metis keeps_def snd_conv)

lemma preserves_ret [preserves_intros, intro!]: "preserves P (ret a)"
  by (simp add: preserves_def)

lemma preserves_fail [preserves_intros, intro!]: "preserves P (fail e)"
  by (simp add: preserves_def)

lemma preserves_lift_sum [preserves_intros, intro!]: "preserves P (lift_sum r)"
  by (simp add: preserves_def)

lemma preserves_andthen [preserves_intros]:
  "preserves P m \<Longrightarrow> (\<And>a. preserves P (f a)) \<Longrightarrow> preserves P (andthen m f)"
  unfolding preserves_def andthen_def
  by (metis (mono_tags, lifting) old.prod.case old.sum.simps(5) old.sum.simps(6) prod.collapse
      snd_conv sum.exhaust)

lemma preserves_attempt [preserves_intros]: "preserves P m \<Longrightarrow> preserves P (attempt m)"
  by (simp add: preserves_def attempt_def)

lemma preserves_ignore [preserves_intros]: "preserves P m \<Longrightarrow> preserves P (ignore m)"
  by (simp add: preserves_def ignore_def)

lemma snd_map_err [simp]: "snd (map_err g m s) = snd (m s)"
  by (simp add: map_err_def split: prod.splits sum.splits)

lemma map_err_InrD: "map_err g m s = (Inr a, s') \<Longrightarrow> m s = (Inr a, s')"
  by (simp add: map_err_def split: prod.splits sum.splits)

lemma map_err_InlD: "map_err g m s = (Inl e, s') \<Longrightarrow> \<exists>e'. m s = (Inl e', s') \<and> e = g e'"
  by (auto simp: map_err_def split: prod.splits sum.splits)

lemma preserves_map_err [preserves_intros]: "preserves P m \<Longrightarrow> preserves P (map_err g m)"
  by (simp add: preserves_def)

lemma preserves_if [preserves_intros]:
  "preserves P m \<Longrightarrow> preserves P m' \<Longrightarrow> preserves P (if b then m else m')"
  by simp

lemma preserves_option [preserves_intros]:
  "preserves P m \<Longrightarrow> (\<And>a. preserves P (f a)) \<Longrightarrow> preserves P (case x of None \<Rightarrow> m | Some a \<Rightarrow> f a)"
  by (cases x) simp_all

lemma preserves_foreach [preserves_intros]:
  "(\<And>acc x. preserves P (f acc x)) \<Longrightarrow> preserves P (foreach f acc xs)"
  by (induction xs arbitrary: acc) (auto intro: preserves_andthen)

lemma keeps_iff_preserves: "keeps v m \<longleftrightarrow> (\<forall>c. preserves (\<lambda>s. v s = c) m)"
  by (auto simp: keeps_def preserves_def)

lemma keeps_ret [keeps_intros, intro!]: "keeps v (ret a)"
  by (simp add: keeps_def)

lemma keeps_fail [keeps_intros, intro!]: "keeps v (fail e)"
  by (simp add: keeps_def)

lemma keeps_lift_sum [keeps_intros, intro!]: "keeps v (lift_sum r)"
  by (simp add: keeps_def)

lemma keeps_andthen [keeps_intros]:
  "keeps v m \<Longrightarrow> (\<And>a. keeps v (f a)) \<Longrightarrow> keeps v (andthen m f)"
  by (auto simp: keeps_iff_preserves intro: preserves_andthen)

lemma keeps_attempt [keeps_intros]: "keeps v m \<Longrightarrow> keeps v (attempt m)"
  by (simp add: keeps_def attempt_def)

lemma keeps_ignore [keeps_intros]: "keeps v m \<Longrightarrow> keeps v (ignore m)"
  by (simp add: keeps_def ignore_def)

lemma keeps_map_err [keeps_intros]: "keeps v m \<Longrightarrow> keeps v (map_err g m)"
  by (simp add: keeps_def)

lemma keeps_if [keeps_intros]:
  "keeps v m \<Longrightarrow> keeps v m' \<Longrightarrow> keeps v (if b then m else m')"
  by simp

lemma keeps_option [keeps_intros]:
  "keeps v m \<Longrightarrow> (\<And>a. keeps v (f a)) \<Longrightarrow> keeps v (case x of None \<Rightarrow> m | Some a \<Rightarrow> f a)"
  by (cases x) simp_all

lemma keeps_foreach [keeps_intros]:
  "(\<And>acc x. keeps v (f acc x)) \<Longrightarrow> keeps v (foreach f acc xs)"
  by (induction xs arbitrary: acc) (auto intro: keeps_andthen)

section \<open>Pre- and postconditions\<close>

text \<open>From a state with \<open>P\<close>, \<open>m\<close> ends in a value and state with \<open>Q\<close>, or in an error and state with \<open>X\<close>.\<close>

definition triple :: "('s \<Rightarrow> bool) \<Rightarrow> ('s, 'a) op \<Rightarrow> ('a \<Rightarrow> 's \<Rightarrow> bool) \<Rightarrow> (err \<Rightarrow> 's \<Rightarrow> bool) \<Rightarrow> bool" where
  "triple P m Q X \<longleftrightarrow> (\<forall>s. P s \<longrightarrow> (case m s of (Inl e, s') \<Rightarrow> X e s' | (Inr a, s') \<Rightarrow> Q a s'))"

named_theorems triple_intros "rules for pre- and postconditions"

lemma tripleI:
  "(\<And>s a s'. P s \<Longrightarrow> m s = (Inr a, s') \<Longrightarrow> Q a s') \<Longrightarrow> (\<And>s e s'. P s \<Longrightarrow> m s = (Inl e, s') \<Longrightarrow> X e s') \<Longrightarrow>
     triple P m Q X"
  by (auto simp: triple_def split: prod.splits sum.splits)

lemma triple_InrD: "triple P m Q X \<Longrightarrow> P s \<Longrightarrow> m s = (Inr a, s') \<Longrightarrow> Q a s'"
  by (fastforce simp: triple_def)

lemma triple_InlD: "triple P m Q X \<Longrightarrow> P s \<Longrightarrow> m s = (Inl e, s') \<Longrightarrow> X e s'"
  by (fastforce simp: triple_def)

lemma triple_cases: "triple P m Q X \<Longrightarrow> P s \<Longrightarrow> m s = (r, s') \<Longrightarrow> case r of Inl e \<Rightarrow> X e s' | Inr a \<Rightarrow> Q a s'"
  by (fastforce simp: triple_def split: sum.splits)

lemma triple_andthen [triple_intros]:
  assumes "triple P m Q X" and "\<And>a. triple (Q a) (f a) Q' X"
  shows "triple P (andthen m f) Q' X"
  unfolding triple_def
proof (intro allI impI)
  fix s assume P: "P s"
  obtain r s1 where one: "m s = (r, s1)" by fastforce
  show "case andthen m f s of (Inl e, s') \<Rightarrow> X e s' | (Inr a, s') \<Rightarrow> Q' a s'"
  proof (cases r)
    case (Inl e)
    then show ?thesis using triple_InlD [OF assms(1) P] one by (simp add: andthen_def)
  next
    case (Inr a)
    then have "Q a s1" using triple_InrD [OF assms(1) P] one by blast
    then show ?thesis using Inr one assms(2) [of a] by (simp add: andthen_def triple_def)
  qed
qed

lemma triple_andthen_val:
  assumes "triple P m (\<lambda>_. P1) X" and "\<And>a s s'. m s = (Inr a, s') \<Longrightarrow> triple P1 (f a) Q X"
  shows "triple P (andthen m f) Q X"
  using assms by (fastforce simp: triple_def andthen_def split: prod.splits sum.splits)

lemma triple_ret: "(\<And>s. P s \<Longrightarrow> Q a s) \<Longrightarrow> triple P (ret a) Q X"
  by (simp add: triple_def)

lemma triple_fail: "(\<And>s. P s \<Longrightarrow> X e s) \<Longrightarrow> triple P (fail e) Q X"
  by (simp add: triple_def)

lemma triple_lift_sum:
  "(\<And>s a. P s \<Longrightarrow> r = Inr a \<Longrightarrow> Q a s) \<Longrightarrow> (\<And>s e. P s \<Longrightarrow> r = Inl e \<Longrightarrow> X e s) \<Longrightarrow> triple P (lift_sum r) Q X"
  by (auto simp: triple_def split: sum.splits)

lemma triple_weaken:
  "triple P m Q X \<Longrightarrow> (\<And>s. P' s \<Longrightarrow> P s) \<Longrightarrow> (\<And>a s. Q a s \<Longrightarrow> Q' a s) \<Longrightarrow> (\<And>e s. X e s \<Longrightarrow> X' e s) \<Longrightarrow>
     triple P' m Q' X'"
  by (fastforce simp: triple_def split: prod.splits sum.splits)

lemma triple_preserves: "preserves P m \<Longrightarrow> triple P m (\<lambda>_. P) (\<lambda>_. P)"
  by (auto simp: triple_def preserves_def split: prod.splits sum.splits)

lemma triple_if [triple_intros]:
  "(b \<Longrightarrow> triple P m Q X) \<Longrightarrow> (\<not> b \<Longrightarrow> triple P m' Q X) \<Longrightarrow> triple P (if b then m else m') Q X"
  by simp

section \<open>Running an operation of a component inside a larger state\<close>

definition on_part :: "('w \<Rightarrow> 's) \<Rightarrow> ('s \<Rightarrow> 'w \<Rightarrow> 'w) \<Rightarrow> ('s, 'a) op \<Rightarrow> ('w, 'a) op" where
  "on_part get put m w = (fst (m (get w)), put (snd (m (get w))) w)"

lemma keeps_on_part:
  "(\<And>x w. v (put x w) = v w) \<Longrightarrow> keeps v (on_part get put m)"
  by (simp add: keeps_def on_part_def)

section \<open>Go maps\<close>

type_synonym ('k, 'v) gomap = "('k \<times> 'v) list"

abbreviation m_get :: "('k, 'v) gomap \<Rightarrow> 'k \<Rightarrow> 'v option" where
  "m_get m k \<equiv> map_of m k"

definition m_set :: "'k \<Rightarrow> 'v \<Rightarrow> ('k, 'v) gomap \<Rightarrow> ('k, 'v) gomap" where
  "m_set k v m = AList.update k v m"

definition m_del :: "'k \<Rightarrow> ('k, 'v) gomap \<Rightarrow> ('k, 'v) gomap" where
  "m_del k m = AList.delete k m"

definition m_vals :: "('k, 'v) gomap \<Rightarrow> 'v list" where
  "m_vals m = map snd m"

definition m_wf :: "('k, 'v) gomap \<Rightarrow> bool" where
  "m_wf m \<longleftrightarrow> distinct (map fst m)"

lemma m_get_set [simp]: "map_of (m_set k v m) = (map_of m)(k \<mapsto> v)"
  by (simp add: m_set_def AList.update_conv')

lemma m_get_del [simp]: "map_of (m_del k m) = (map_of m)(k := None)"
  by (simp add: m_del_def AList.delete_conv')

lemma m_set_simps [code]:
  "m_set k v [] = [(k, v)]"
  "m_set k v ((k', v') # m) = (if k' = k then (k, v) # m else (k', v') # m_set k v m)"
  by (simp_all add: m_set_def)

lemma m_del_simps [code]:
  "m_del k [] = []"
  "m_del k ((k', v') # m) = (if k' = k then m_del k m else (k', v') # m_del k m)"
  by (simp_all add: m_del_def AList.delete_eq)

lemma distinct_map_filter_key:
  assumes "distinct (map fst xs)" "\<And>x y. x \<in> set xs \<Longrightarrow> f x = Some y \<Longrightarrow> g y = fst x"
  shows "distinct (map g (List.map_filter f xs))"
  using assms
proof (induction xs)
  case (Cons x xs)
  then have IH: "distinct (map g (List.map_filter f xs))" by simp
  have "g y \<noteq> fst x" if "y \<in> set (List.map_filter f xs)" for y
    using that Cons.prems by (auto simp: map_filter_def image_iff) (metis fst_conv list.set_intros(2) option.sel)
  then show ?case using IH Cons.prems(2) [of x]
    by (cases "f x") (simp_all add: map_filter_simps image_iff, metis)
qed (simp add: map_filter_simps)

lemma m_wf_Nil [simp]: "m_wf []"
  by (simp add: m_wf_def)

lemma m_wf_single [simp]: "m_wf [(k, v)]"
  by (simp add: m_wf_def)

lemma m_wf_Cons: "m_wf ((k, v) # m) \<longleftrightarrow> k \<notin> fst ` set m \<and> m_wf m"
  by (simp add: m_wf_def)

lemma m_wf_set [simp]: "m_wf m \<Longrightarrow> m_wf (m_set k v m)"
  by (simp add: m_wf_def m_set_def AList.distinct_update)

lemma m_wf_del [simp]: "m_wf m \<Longrightarrow> m_wf (m_del k m)"
  by (simp add: m_wf_def m_del_def AList.distinct_delete)

lemma m_vals_iff: "m_wf m \<Longrightarrow> x \<in> set (m_vals m) \<longleftrightarrow> (\<exists>k. map_of m k = Some x)"
  by (force simp: m_wf_def m_vals_def)

end
