(* ===== verification/Go_Strings.thy ===== *)
theory Go_Strings
  imports Prelude "HOL-Library.Sublist" "HOL-Library.List_Lexorder" "HOL-Library.Char_ord"
begin

text \<open>
  The functions of Go's \<open>strings\<close>, \<open>strconv\<close>, \<open>unicode/utf8\<close> and \<open>path\<close> packages the program calls,
  on byte strings (\<open>string\<close> is a list of bytes), and the record of what the model does not define:
  the Unicode case tables and the third-party packages.
\<close>

section \<open>What the program takes from elsewhere\<close>

text \<open>
  \<open>lower_unicode\<close> is \<open>strings.ToLower\<close> on strings with a byte outside ASCII (Unicode's case table);
  \<open>uuid_string\<close> and \<open>uuid_parse\<close> are \<open>github.com/google/uuid\<close>'s \<open>String\<close> and \<open>Parse\<close>;
  \<open>time_format\<close> and \<open>time_parse\<close> are \<open>Format\<close> and \<open>Parse\<close> with the layout \<open>time.RFC3339Nano\<close>;
  \<open>mail_parse\<close> is \<open>net/mail.ParseAddress\<close>, of which only the error counts;
  \<open>sha256_hex\<close> is \<open>hex.EncodeToString\<close> of \<open>sha256.Sum256\<close>.
\<close>

record golib =
  lower_unicode :: "string \<Rightarrow> string"
  uuid_string :: "uuid \<Rightarrow> string"
  uuid_parse :: "string \<Rightarrow> err + uuid"
  time_format :: "go_time \<Rightarrow> string"
  time_parse :: "string \<Rightarrow> err + go_time"
  mail_parse :: "string \<Rightarrow> err option"
  sha256_hex :: "string \<Rightarrow> string"

section \<open>White space\<close>

text \<open>The UTF-8 encodings of the runes \<open>unicode.IsSpace\<close> accepts.\<close>

definition ws_rune :: "string \<Rightarrow> bool" where
  "ws_rune s = (case map of_char s :: nat list of
     [a] \<Rightarrow> 9 \<le> a \<and> a \<le> 13 \<or> a = 32
   | [a, b] \<Rightarrow> a = 0xC2 \<and> (b = 0x85 \<or> b = 0xA0)
   | [a, b, c] \<Rightarrow>
       a = 0xE1 \<and> b = 0x9A \<and> c = 0x80
     \<or> a = 0xE2 \<and> b = 0x80 \<and> (0x80 \<le> c \<and> c \<le> 0x8A \<or> c = 0xA8 \<or> c = 0xA9 \<or> c = 0xAF)
     \<or> a = 0xE2 \<and> b = 0x81 \<and> c = 0x9F
     \<or> a = 0xE3 \<and> b = 0x80 \<and> c = 0x80
   | _ \<Rightarrow> False)"

text \<open>The number of bytes of the rune accepted by \<open>p\<close> at the front, 0 when there is none.\<close>

definition lead_len :: "(string \<Rightarrow> bool) \<Rightarrow> string \<Rightarrow> nat" where
  "lead_len p s =
     (if 1 \<le> length s \<and> p (take 1 s) then 1
      else if 2 \<le> length s \<and> p (take 2 s) then 2
      else if 3 \<le> length s \<and> p (take 3 s) then 3 else 0)"

lemma lead_len_le: "lead_len p s \<le> length s"
  by (auto simp: lead_len_def)

function strip_front :: "(string \<Rightarrow> bool) \<Rightarrow> string \<Rightarrow> string" where
  "strip_front p s = (if lead_len p s = 0 then s else strip_front p (drop (lead_len p s) s))"
  by pat_completeness auto
termination
proof (relation "measure (\<lambda>(p, s). length s)", goal_cases)
  case (2 p s)
  then show ?case using lead_len_le [of p s] by (cases s) auto
qed simp

declare strip_front.simps [simp del]

definition trim_left_space :: "string \<Rightarrow> string" where
  "trim_left_space s = strip_front ws_rune s"

definition trim_right_space :: "string \<Rightarrow> string" where
  "trim_right_space s = rev (strip_front (\<lambda>r. ws_rune (rev r)) (rev s))"

text \<open>\<open>strings.TrimSpace\<close>: leading runes first, then trailing ones.\<close>

definition trim_space :: "string \<Rightarrow> string" where
  "trim_space s = trim_right_space (trim_left_space s)"

lemma strip_front_done: "lead_len p (strip_front p s) = 0"
  by (induction p s rule: strip_front.induct) (subst strip_front.simps, simp)

lemma strip_front_id: "lead_len p s = 0 \<Longrightarrow> strip_front p s = s"
  by (subst strip_front.simps) simp

lemma strip_front_idem [simp]: "strip_front p (strip_front p s) = strip_front p s"
  by (simp add: strip_front_id strip_front_done)

lemma strip_front_suffix: "suffix (strip_front p s) s"
proof (induction p s rule: strip_front.induct)
  case (1 p s)
  show ?case
  proof (cases "lead_len p s = 0")
    case True
    then show ?thesis by (simp add: strip_front_id)
  next
    case False
    then have "strip_front p s = strip_front p (drop (lead_len p s) s)"
      by (subst strip_front.simps) simp
    with 1 [OF False] show ?thesis
      by (metis suffix_drop suffix_order.trans)
  qed
qed

lemma strip_front_Nil [simp]: "strip_front p [] = []"
  by (simp add: strip_front_id lead_len_def)

lemma lead_len_append: "lead_len p (s @ t) = 0 \<Longrightarrow> lead_len p s = 0"
  by (auto simp: lead_len_def split: if_splits)

lemma trim_right_prefix: "prefix (trim_right_space s) s"
  unfolding trim_right_space_def
  by (metis rev_rev_ident strip_front_suffix suffix_to_prefix)

lemma trim_left_done: "lead_len ws_rune s = 0 \<Longrightarrow> trim_left_space s = s"
  by (simp add: trim_left_space_def strip_front_id)

lemma trim_space_no_lead: "lead_len ws_rune (trim_space s) = 0"
proof -
  obtain t where "trim_left_space s = trim_space s @ t"
    using trim_right_prefix [of "trim_left_space s"] by (auto simp: trim_space_def prefix_def)
  moreover have "lead_len ws_rune (trim_left_space s) = 0"
    by (simp add: trim_left_space_def strip_front_done)
  ultimately show ?thesis by (metis lead_len_append)
qed

lemma trim_space_idem [simp]: "trim_space (trim_space s) = trim_space s"
proof -
  have "trim_left_space (trim_space s) = trim_space s"
    by (simp add: trim_left_done trim_space_no_lead)
  then show ?thesis by (simp add: trim_space_def trim_right_space_def)
qed

lemma trim_space_Nil [simp]: "trim_space [] = []"
  by (simp add: trim_space_def trim_left_space_def trim_right_space_def)

lemma trim_space_length: "length (trim_space s) \<le> length s"
proof -
  have "length (trim_left_space s) \<le> length s"
    by (metis strip_front_suffix suffix_length_le trim_left_space_def)
  moreover have "length (trim_space s) \<le> length (trim_left_space s)"
    by (metis trim_right_prefix prefix_length_le trim_space_def)
  ultimately show ?thesis by simp
qed

section \<open>Case\<close>

definition is_ascii :: "string \<Rightarrow> bool" where
  "is_ascii s = list_all (\<lambda>c. (of_char c :: nat) < 128) s"

definition lower_char :: "char \<Rightarrow> char" where
  "lower_char c = (if 65 \<le> (of_char c :: nat) \<and> (of_char c :: nat) \<le> 90
     then char_of ((of_char c :: nat) + 32) else c)"

definition to_lower :: "('a golib_scheme) \<Rightarrow> string \<Rightarrow> string" where
  "to_lower L s = (if is_ascii s then map lower_char s else lower_unicode L s)"

text \<open>
  \<open>strings.EqualFold\<close> against an ASCII constant none of whose letters has a case variant outside ASCII.
\<close>

definition equal_fold_ascii :: "string \<Rightarrow> string \<Rightarrow> bool" where
  "equal_fold_ascii s t = (map lower_char s = map lower_char t)"

lemma lower_char_idem [simp]: "lower_char (lower_char c) = lower_char c"
  by (simp add: lower_char_def)

lemma is_ascii_lower: "is_ascii s \<Longrightarrow> is_ascii (map lower_char s)"
  by (auto simp: is_ascii_def lower_char_def list_all_iff)

lemma to_lower_ascii: "is_ascii s \<Longrightarrow> to_lower L s = map lower_char s"
  by (simp add: to_lower_def)

lemma to_lower_ascii_idem: "is_ascii s \<Longrightarrow> to_lower L (to_lower L s) = to_lower L s"
  by (simp add: to_lower_def is_ascii_lower comp_def)

section \<open>Searching and splitting\<close>

text \<open>\<open>strings.HasPrefix\<close>, \<open>HasSuffix\<close>, \<open>Contains\<close>.\<close>

fun has_prefix :: "string \<Rightarrow> string \<Rightarrow> bool" where
  "has_prefix s [] = True"
| "has_prefix [] (c # cs) = False"
| "has_prefix (x # xs) (c # cs) = (x = c \<and> has_prefix xs cs)"

definition has_suffix :: "string \<Rightarrow> string \<Rightarrow> bool" where
  "has_suffix s t = has_prefix (rev s) (rev t)"

fun str_contains :: "string \<Rightarrow> string \<Rightarrow> bool" where
  "str_contains [] t = (t = [])"
| "str_contains (c # cs) t = (has_prefix (c # cs) t \<or> str_contains cs t)"

lemma has_prefix_iff: "has_prefix s t \<longleftrightarrow> prefix t s"
  by (induction s t rule: has_prefix.induct) auto

lemma has_prefix_append [simp]: "has_prefix (t @ s) t"
  by (simp add: has_prefix_iff)

text \<open>\<open>s[:i]\<close> for the first \<open>i\<close> with \<open>s[i] = c\<close>, and the text after it, if the byte occurs.\<close>

fun cut_byte :: "char \<Rightarrow> string \<Rightarrow> (string \<times> string) option" where
  "cut_byte c [] = None"
| "cut_byte c (x # xs) = (if x = c then Some ([], xs)
     else map_option (\<lambda>(a, b). (x # a, b)) (cut_byte c xs))"

lemma cut_byte_None: "cut_byte c s = None \<longleftrightarrow> c \<notin> set s"
  by (induction s) auto

lemma cut_byte_Some: "cut_byte c s = Some (a, b) \<Longrightarrow> s = a @ c # b \<and> c \<notin> set a"
  by (induction s arbitrary: a) (auto split: if_splits)

lemma cut_byte_append: "c \<notin> set a \<Longrightarrow> cut_byte c (a @ c # b) = Some (a, b)"
  by (induction a) auto

text \<open>\<open>strings.Split\<close> on one byte.\<close>

fun split_byte :: "char \<Rightarrow> string \<Rightarrow> string list" where
  "split_byte c [] = [[]]"
| "split_byte c (x # xs) = (if x = c then [] # split_byte c xs
     else (case split_byte c xs of [] \<Rightarrow> [[x]] | p # ps \<Rightarrow> (x # p) # ps))"

lemma split_byte_ne [simp]: "split_byte c s \<noteq> []"
  by (induction s) (auto split: list.splits)

text \<open>\<open>path.Ext\<close> and \<open>filepath.Ext\<close>: from the last dot after the last slash.\<close>

fun ext_scan :: "string \<Rightarrow> string \<Rightarrow> string" where
  "ext_scan [] acc = []"
| "ext_scan (c # cs) acc =
     (if c = CHR ''/'' then [] else if c = CHR ''.'' then c # acc else ext_scan cs (c # acc))"

definition path_ext :: "string \<Rightarrow> string" where
  "path_ext p = ext_scan (rev p) []"

text \<open>\<open>strings.Trim(s, cut)\<close> and \<open>strings.TrimRight\<close> with a cutset of one byte.\<close>

definition trim_byte :: "char \<Rightarrow> string \<Rightarrow> string" where
  "trim_byte c s = rev (dropWhile (\<lambda>x. x = c) (rev (dropWhile (\<lambda>x. x = c) s)))"

definition trim_right_byte :: "char \<Rightarrow> string \<Rightarrow> string" where
  "trim_right_byte c s = rev (dropWhile (\<lambda>x. x = c) (rev s))"

text \<open>\<open>strings.TrimPrefix\<close>.\<close>

definition trim_prefix :: "string \<Rightarrow> string \<Rightarrow> string" where
  "trim_prefix s p = (if has_prefix s p then drop (length p) s else s)"

section \<open>Numbers\<close>

definition digit_char :: "nat \<Rightarrow> char" where
  "digit_char d = char_of (if d < 10 then 48 + d else 87 + d)"

fun digits_rev :: "nat \<Rightarrow> nat \<Rightarrow> nat list" where
  "digits_rev b n = (if b < 2 \<or> n < b then [n] else (n mod b) # digits_rev b (n div b))"

declare digits_rev.simps [simp del]

text \<open>\<open>%d\<close> and \<open>%x\<close> on a non-negative number, \<open>%d\<close> on an integer, \<open>%05d\<close>.\<close>

definition show_nat :: "nat \<Rightarrow> string" where
  "show_nat n = map digit_char (rev (digits_rev 10 n))"

definition show_hex :: "nat \<Rightarrow> string" where
  "show_hex n = map digit_char (rev (digits_rev 16 n))"

definition show_int :: "int \<Rightarrow> string" where
  "show_int i = (if i < 0 then CHR ''-'' # show_nat (nat (- i)) else show_nat (nat i))"

definition show_05d :: "nat \<Rightarrow> string" where
  "show_05d n = replicate (5 - length (show_nat n)) (CHR ''0'') @ show_nat n"

definition digit_val :: "char \<Rightarrow> nat option" where
  "digit_val c = (let n = of_char c in if 48 \<le> n \<and> n \<le> 57 then Some (n - 48) else None)"

fun parse_digits :: "nat \<Rightarrow> string \<Rightarrow> nat option" where
  "parse_digits acc [] = Some acc"
| "parse_digits acc (c # cs) =
     (case digit_val c of None \<Rightarrow> None | Some d \<Rightarrow> parse_digits (10 * acc + d) cs)"

text \<open>\<open>strconv.Atoi\<close>: an optional sign, at least one digit, and the result within 64 bits.\<close>

definition atoi :: "string \<Rightarrow> int option" where
  "atoi s =
     (let (neg, ds) = (case s of [] \<Rightarrow> (False, [])
                       | c # cs \<Rightarrow> if c = CHR ''-'' then (True, cs)
                                   else if c = CHR ''+'' then (False, cs) else (False, s))
      in if ds = [] then None
         else case parse_digits 0 ds of
                None \<Rightarrow> None
              | Some n \<Rightarrow> (let i = (if neg then - int n else int n)
                          in if - (2 ^ 63) \<le> i \<and> i < 2 ^ 63 then Some i else None))"

section \<open>UTF-8\<close>

text \<open>The width of the first rune; an invalid byte is a rune of width 1.\<close>

definition rune_width :: "nat list \<Rightarrow> nat" where
  "rune_width s = (case s of [] \<Rightarrow> 0 | a # t \<Rightarrow>
     if 0xC2 \<le> a \<and> a \<le> 0xDF then
       (case t of b # _ \<Rightarrow> if 0x80 \<le> b \<and> b \<le> 0xBF then 2 else 1 | _ \<Rightarrow> 1)
     else if 0xE0 \<le> a \<and> a \<le> 0xEF then
       (case t of b # c # _ \<Rightarrow>
          if (if a = 0xE0 then 0xA0 else 0x80) \<le> b \<and> b \<le> (if a = 0xED then 0x9F else 0xBF)
             \<and> 0x80 \<le> c \<and> c \<le> 0xBF then 3 else 1
        | _ \<Rightarrow> 1)
     else if 0xF0 \<le> a \<and> a \<le> 0xF4 then
       (case t of b # c # d # _ \<Rightarrow>
          if (if a = 0xF0 then 0x90 else 0x80) \<le> b \<and> b \<le> (if a = 0xF4 then 0x8F else 0xBF)
             \<and> 0x80 \<le> c \<and> c \<le> 0xBF \<and> 0x80 \<le> d \<and> d \<le> 0xBF then 4 else 1
        | _ \<Rightarrow> 1)
     else 1)"

lemma rune_width_pos: "s \<noteq> [] \<Longrightarrow> 0 < rune_width s"
  by (auto simp: rune_width_def split: list.splits)

function count_runes :: "nat list \<Rightarrow> nat" where
  "count_runes s = (if s = [] then 0 else Suc (count_runes (drop (rune_width s) s)))"
  by pat_completeness auto
termination
  by (relation "measure length") (auto simp: rune_width_pos)

declare count_runes.simps [simp del]

text \<open>\<open>utf8.RuneCountInString\<close>.\<close>

definition rune_count :: "string \<Rightarrow> nat" where
  "rune_count s = count_runes (map of_char s)"

lemma count_runes_le: "count_runes s \<le> length s"
proof (induction s rule: count_runes.induct)
  case (1 s)
  show ?case
  proof (cases "s = []")
    case True
    then show ?thesis by (subst count_runes.simps) simp
  next
    case False
    with 1 rune_width_pos [OF False] show ?thesis
      by (subst count_runes.simps) (cases s, auto)
  qed
qed

lemma rune_count_le: "rune_count s \<le> length s"
  using count_runes_le [of "map of_char s"] by (simp add: rune_count_def)

end
