(* ===== verification/Base64.thy ===== *)
theory Base64
  imports Go_Strings
begin

text \<open>
  \<open>encoding/base64\<close>, the encodings the program uses: \<open>RawURLEncoding\<close> (cursors, opaque tokens),
  \<open>RawStdEncoding\<close> (password hashes) and the padded \<open>StdEncoding\<close> (image data). The main fact is
  that decoding an encoded byte string gives the byte string back.
\<close>

section \<open>Sextets\<close>

fun to_sextets :: "nat list \<Rightarrow> nat list" where
  "to_sextets [] = []"
| "to_sextets [a] = [a div 4, (a mod 4) * 16]"
| "to_sextets [a, b] = [a div 4, (a mod 4) * 16 + b div 16, (b mod 16) * 4]"
| "to_sextets (a # b # c # xs) =
     a div 4 # ((a mod 4) * 16 + b div 16) # ((b mod 16) * 4 + c div 64) # (c mod 64) # to_sextets xs"

text \<open>A last group of one sextet is an error; the unused low bits of a short group are not checked.\<close>

fun from_sextets :: "nat list \<Rightarrow> nat list option" where
  "from_sextets [] = Some []"
| "from_sextets [p] = None"
| "from_sextets [p, q] = Some [p * 4 + q div 16]"
| "from_sextets [p, q, r] = Some [p * 4 + q div 16, (q mod 16) * 16 + r div 4]"
| "from_sextets (p # q # r # s # xs) =
     map_option (\<lambda>ys. (p * 4 + q div 16) # ((q mod 16) * 16 + r div 4) # ((r mod 4) * 64 + s) # ys)
       (from_sextets xs)"

lemma split_byte_arith:
  fixes a b c :: nat
  assumes "a < 256" "b < 256" "c < 256"
  shows "a div 4 * 4 + ((a mod 4) * 16 + b div 16) div 16 = a"
    and "((a mod 4) * 16 + b div 16) mod 16 * 16 + ((b mod 16) * 4 + c div 64) div 4 = b"
    and "((b mod 16) * 4 + c div 64) mod 4 * 64 + c mod 64 = c"
proof -
  have b16: "b div 16 < 16" and c64: "c div 64 < 4" using assms by auto
  from b16 show "a div 4 * 4 + ((a mod 4) * 16 + b div 16) div 16 = a" by simp
  from b16 c64 show "((a mod 4) * 16 + b div 16) mod 16 * 16 + ((b mod 16) * 4 + c div 64) div 4 = b"
    by simp
  from c64 show "((b mod 16) * 4 + c div 64) mod 4 * 64 + c mod 64 = c" by simp
qed

lemma sextets_roundtrip:
  "\<forall>x\<in>set xs. x < 256 \<Longrightarrow> from_sextets (to_sextets xs) = Some xs"
proof (induction xs rule: to_sextets.induct)
  case (2 a)
  then show ?case by simp
next
  case (3 a b)
  then have ab: "a < 256" "b < 256" by simp_all
  show ?case using split_byte_arith(1) [OF ab, of 0] split_byte_arith(2) [OF ab, of 0] by simp
next
  case (4 a b c xs)
  then have abc: "a < 256" "b < 256" "c < 256" by simp_all
  show ?case using 4 split_byte_arith [OF abc] by simp
qed simp

lemma to_sextets_range: "\<forall>x\<in>set xs. x < 256 \<Longrightarrow> \<forall>y\<in>set (to_sextets xs). y < 64"
proof (induction xs rule: to_sextets.induct)
  case (3 a b)
  then have "b div 16 < 16" by auto
  moreover have "a mod 4 < 4" "b mod 16 < 16" by simp_all
  ultimately show ?case using 3 by (auto simp: less_mult_imp_div_less)
next
  case (4 a b c xs)
  then have "b div 16 < 16" "c div 64 < 4" by auto
  moreover have "a mod 4 < 4" "b mod 16 < 16" by simp_all
  ultimately show ?case using 4 by (auto simp: less_mult_imp_div_less)
qed (auto simp: less_mult_imp_div_less)

section \<open>Alphabets\<close>

definition b64_char :: "bool \<Rightarrow> nat \<Rightarrow> char" where
  "b64_char url v = char_of
     (if v < 26 then 65 + v else if v < 52 then 71 + v else if v < 62 then v - 4
      else if v = 62 then (if url then 45 else 43) else (if url then 95 else 47))"

definition b64_val :: "bool \<Rightarrow> char \<Rightarrow> nat option" where
  "b64_val url ch = (let n = of_char ch in
     if 65 \<le> n \<and> n \<le> 90 then Some (n - 65)
     else if 97 \<le> n \<and> n \<le> 122 then Some (n - 71)
     else if 48 \<le> n \<and> n \<le> 57 then Some (n + 4)
     else if n = (if url then 45 else 43) then Some 62
     else if n = (if url then 95 else 47) then Some 63 else None)"

lemma b64_val_char: "v < 64 \<Longrightarrow> b64_val url (b64_char url v) = Some v"
  by (auto simp: b64_val_def b64_char_def Let_def)

fun all_some :: "'a option list \<Rightarrow> 'a list option" where
  "all_some [] = Some []"
| "all_some (x # xs) =
     (case x of None \<Rightarrow> None | Some y \<Rightarrow> map_option (\<lambda>ys. y # ys) (all_some xs))"

lemma all_some_map: "\<forall>x\<in>set xs. f (g x) = Some x \<Longrightarrow> all_some (map (\<lambda>x. f (g x)) xs) = Some xs"
  by (induction xs) auto

section \<open>Encoding and decoding\<close>

definition b64_encode :: "bool \<Rightarrow> bytes \<Rightarrow> string" where
  "b64_encode url s = map (b64_char url) (to_sextets (map of_char s))"

text \<open>The decoder drops carriage returns and line feeds and rejects any other foreign byte.\<close>

definition b64_decode :: "bool \<Rightarrow> string \<Rightarrow> bytes option" where
  "b64_decode url s =
     (case all_some (map (b64_val url) (filter (\<lambda>c. (of_char c :: nat) \<noteq> 10 \<and> (of_char c :: nat) \<noteq> 13) s)) of
        None \<Rightarrow> None
      | Some vs \<Rightarrow> map_option (map char_of) (from_sextets vs))"

text \<open>\<open>StdEncoding\<close> pads the last group with \<open>=\<close>.\<close>

definition b64_encode_padded :: "bytes \<Rightarrow> string" where
  "b64_encode_padded s =
     b64_encode False s @ replicate ((3 - length s mod 3) mod 3) (CHR ''='')"

lemma b64_char_no_newline: "v < 64 \<Longrightarrow> (of_char (b64_char url v) :: nat) \<notin> {10, 13}"
  by (auto simp: b64_char_def)

theorem b64_roundtrip: "b64_decode url (b64_encode url s) = Some s"
proof -
  let ?bs = "map of_char s :: nat list"
  have bytes: "\<forall>x\<in>set ?bs. x < 256" using nat_of_char_less_256 by auto
  have range: "\<forall>v\<in>set (to_sextets ?bs). v < 64" using to_sextets_range [OF bytes] .
  have "filter (\<lambda>c. (of_char c :: nat) \<noteq> 10 \<and> (of_char c :: nat) \<noteq> 13) (b64_encode url s) = b64_encode url s"
    using b64_char_no_newline range by (fastforce simp: b64_encode_def intro!: filter_True)
  moreover have "all_some (map (b64_val url) (b64_encode url s)) = Some (to_sextets ?bs)"
    using all_some_map [of "to_sextets ?bs" "b64_val url" "b64_char url"] range
    by (simp add: b64_encode_def b64_val_char comp_def)
  ultimately show ?thesis
    by (simp add: b64_decode_def sextets_roundtrip [OF bytes] comp_def)
qed

end
