(* ===== verification/Pagination.thy ===== *)
theory Pagination
  imports Base64 "HOL-Library.Product_Lexorder"
begin

text \<open>
  \<open>internal/platform/pagination/pagination.go\<close>: list windows, opaque cursors, trimming.

  The locale \<open>keyset_listing\<close> is the interface of the list methods of the repositories: a first page
  is the head of the sorted rows, a page with a cursor is the head of the rows after it. Its client
  is a caller that follows \<open>next_cursor\<close>; the lemma \<open>walk_complete\<close> shows that it sees every row once,
  in order. Every repository's list method interprets the locale.
\<close>

section \<open>Windows\<close>

datatype page_order = Desc | Asc

record page =
  pg_Limit :: int
  pg_Cursor :: string
  pg_Order :: page_order

record 'a page_result =
  res_Items :: "'a list"
  res_NextCursor :: string

record limits =
  lim_Default :: int
  lim_Max :: int

definition with_defaults :: "limits \<Rightarrow> limits" where
  "with_defaults l =
     (let d = (if lim_Default l \<le> 0 then 50 else lim_Default l);
          m = (if lim_Max l \<le> 0 then 100 else lim_Max l)
      in \<lparr>lim_Default = (if d > m then m else d), lim_Max = m\<rparr>)"

text \<open>\<open>Parse\<close>, on the values of the query parameters \<open>limit\<close> and \<open>cursor\<close>.\<close>

definition parse_page :: "string \<Rightarrow> string \<Rightarrow> limits \<Rightarrow> page_order \<Rightarrow> page" where
  "parse_page q_limit q_cursor limits0 order =
     (let limits = with_defaults limits0;
          raw = trim_space q_limit;
          limit = (if raw \<noteq> [] then (case atoi raw of Some n \<Rightarrow> n | None \<Rightarrow> lim_Default limits)
                   else lim_Default limits);
          limit = (if limit > lim_Max limits then lim_Max limits else limit);
          limit = (if limit < 1 then 1 else limit)
      in \<lparr>pg_Limit = limit, pg_Cursor = trim_space q_cursor, pg_Order = order\<rparr>)"

lemma with_defaults_bounds:
  "1 \<le> lim_Default (with_defaults l)" "lim_Default (with_defaults l) \<le> lim_Max (with_defaults l)"
  by (auto simp: with_defaults_def Let_def)

lemma parse_page_bounds:
  "1 \<le> pg_Limit (parse_page ql qc l ord)"
  "pg_Limit (parse_page ql qc l ord) \<le> lim_Max (with_defaults l)"
  using with_defaults_bounds [of l]
  by (auto simp: parse_page_def Let_def split: option.splits)

section \<open>Cursors\<close>

definition encode_cursor :: "'z golib_scheme \<Rightarrow> go_time \<Rightarrow> uuid \<Rightarrow> string" where
  "encode_cursor L at ident =
     b64_encode True (time_format L at @ ''|'' @ uuid_string L ident)"

text \<open>\<open>DecodeCursor\<close>; the text of a base64 error is given without the offset of the bad byte.\<close>

definition decode_cursor :: "'z golib_scheme \<Rightarrow> string \<Rightarrow> err + (go_time \<times> uuid)" where
  "decode_cursor L cursor =
     (if cursor = [] then Inl (ErrOther ''empty cursor'')
      else case b64_decode True cursor of
        None \<Rightarrow> Inl (ErrWrap ''cursor decode: '' (ErrOther ''illegal base64 data''))
      | Some b \<Rightarrow>
        (case cut_byte (CHR ''|'') b of
           None \<Rightarrow> Inl (ErrOther ''cursor format'')
         | Some (p0, p1) \<Rightarrow>
           (case time_parse L p0 of
              Inl e \<Rightarrow> Inl (ErrWrap ''cursor time: '' e)
            | Inr at \<Rightarrow>
              (case uuid_parse L p1 of
                 Inl e \<Rightarrow> Inl (ErrWrap ''cursor id: '' e)
               | Inr ident \<Rightarrow> Inr (at, ident)))))"

text \<open>
  What the code relies on: formatted instants of years 0 to 9999 parse back and hold no bar, and
  identifiers parse back from their text.
\<close>

definition time_ok :: "go_time \<Rightarrow> bool" where
  "time_ok t \<longleftrightarrow> - 62167219200 * second \<le> t \<and> t < 253402300800 * second"

definition golib_ok :: "'z golib_scheme \<Rightarrow> bool" where
  "golib_ok L \<longleftrightarrow>
     (\<forall>t. time_ok t \<longrightarrow> time_parse L (time_format L t) = Inr t \<and> CHR ''|'' \<notin> set (time_format L t))
     \<and> (\<forall>u. uuid_parse L (uuid_string L u) = Inr u \<and> CHR ''|'' \<notin> set (uuid_string L u))"

lemma golib_ok_time:
  "golib_ok L \<Longrightarrow> time_ok t \<Longrightarrow> time_parse L (time_format L t) = Inr t"
  "golib_ok L \<Longrightarrow> time_ok t \<Longrightarrow> CHR ''|'' \<notin> set (time_format L t)"
  by (auto simp: golib_ok_def)

lemma golib_ok_uuid: "golib_ok L \<Longrightarrow> uuid_parse L (uuid_string L u) = Inr u"
  by (simp add: golib_ok_def)

lemma golib_ok_uuid_bar: "golib_ok L \<Longrightarrow> CHR ''|'' \<notin> set (uuid_string L u)"
  by (simp add: golib_ok_def)

lemma uuid_string_inject: "golib_ok L \<Longrightarrow> uuid_string L u = uuid_string L v \<longleftrightarrow> u = v"
  by (metis golib_ok_uuid sum.inject(2))

lemma to_sextets_Nil_iff: "to_sextets xs = [] \<longleftrightarrow> xs = []"
  by (cases xs rule: to_sextets.cases) simp_all

lemma encode_cursor_ne: "encode_cursor L at ident \<noteq> []"
  by (simp add: encode_cursor_def b64_encode_def to_sextets_Nil_iff)

lemma cursor_roundtrip:
  "golib_ok L \<Longrightarrow> time_ok at \<Longrightarrow> decode_cursor L (encode_cursor L at ident) = Inr (at, ident)"
  by (simp add: decode_cursor_def encode_cursor_ne encode_cursor_def [symmetric])
     (simp add: encode_cursor_def b64_roundtrip cut_byte_append golib_ok_time golib_ok_uuid)

section \<open>Trimming\<close>

text \<open>A window below 1 makes the code index before the first item: a panic.\<close>

definition trim_page ::
    "'z golib_scheme \<Rightarrow> page \<Rightarrow> 'a list \<Rightarrow> ('a \<Rightarrow> go_time \<times> uuid) \<Rightarrow> err + 'a page_result" where
  "trim_page L p items cursor =
     (if int (length items) \<le> pg_Limit p then Inr \<lparr>res_Items = items, res_NextCursor = []\<rparr>
      else if pg_Limit p < 1 then Inl (ErrPanic ''index out of range'')
      else let items' = take (nat (pg_Limit p)) items; (at, ident) = cursor (last items')
           in Inr \<lparr>res_Items = items', res_NextCursor = encode_cursor L at ident\<rparr>)"

text \<open>Fetching one row more than the window and trimming is trimming all rows.\<close>

lemma trim_page_take:
  "1 \<le> pg_Limit p \<Longrightarrow>
     trim_page L p (take (nat (pg_Limit p + 1)) items) cursor = trim_page L p items cursor"
  by (auto simp: trim_page_def Let_def min_def split: prod.splits)

lemma trim_page_length:
  "trim_page L p items cursor = Inr r \<Longrightarrow> 1 \<le> pg_Limit p \<Longrightarrow> int (length (res_Items r)) \<le> pg_Limit p"
  by (auto simp: trim_page_def Let_def split: if_splits prod.splits)

text \<open>The services turn each row of a page into its DTO.\<close>

definition map_page :: "('a \<Rightarrow> 'b) \<Rightarrow> 'a page_result \<Rightarrow> 'b page_result" where
  "map_page f r = \<lparr>res_Items = map f (res_Items r), res_NextCursor = res_NextCursor r\<rparr>"

lemma trim_page_map:
  assumes "\<And>x. key (f x) = key' x"
  shows "trim_page L p (map f xs) key = map_sum (\<lambda>e. e) (map_page f) (trim_page L p xs key')"
proof (cases "int (length xs) \<le> pg_Limit p \<or> pg_Limit p < 1")
  case True
  then show ?thesis by (auto simp: trim_page_def map_page_def)
next
  case False
  let ?n = "nat (pg_Limit p)"
  have "take ?n xs \<noteq> []" using False by auto
  then have "key (last (map f (take ?n xs))) = key' (last (take ?n xs))"
    by (simp add: last_map assms)
  with False show ?thesis
    by (simp add: trim_page_def map_page_def Let_def take_map split: prod.splits)
qed

section \<open>Following the cursors\<close>

text \<open>
  A caller that asks for pages until \<open>next_cursor\<close> is empty. The first argument bounds the number of
  requests; \<open>None\<close> means the bound was reached.
\<close>

fun walk_pages :: "nat \<Rightarrow> (page \<Rightarrow> err + 'a page_result) \<Rightarrow> page \<Rightarrow> (err + 'a list) option" where
  "walk_pages 0 f p = None"
| "walk_pages (Suc n) f p =
     (case f p of
        Inl e \<Rightarrow> Some (Inl e)
      | Inr r \<Rightarrow>
          if res_NextCursor r = [] then Some (Inr (res_Items r))
          else (case walk_pages n f (p\<lparr>pg_Cursor := res_NextCursor r\<rparr>) of
                  Some (Inr ys) \<Rightarrow> Some (Inr (res_Items r @ ys))
                | x \<Rightarrow> x))"

locale keyset_listing =
  fixes L :: golib
    and key :: "'a \<Rightarrow> go_time \<times> uuid"
    and after :: "go_time \<times> uuid \<Rightarrow> go_time \<times> uuid \<Rightarrow> bool"
    and inv :: "'s \<Rightarrow> bool"
    and items :: "'s \<Rightarrow> 'a list"
    and list_page :: "page \<Rightarrow> 's \<Rightarrow> err + 'a page_result"
  assumes listing_order: "golib_ok L \<Longrightarrow> inv s \<Longrightarrow> sorted_wrt (\<lambda>x y. after (key x) (key y)) (items s)"
    and listing_asym: "golib_ok L \<Longrightarrow> inv s \<Longrightarrow> x \<in> set (items s) \<Longrightarrow> y \<in> set (items s) \<Longrightarrow>
       after (key x) (key y) \<Longrightarrow> \<not> after (key y) (key x)"
    and first_page: "golib_ok L \<Longrightarrow> inv s \<Longrightarrow> 1 \<le> pg_Limit p \<Longrightarrow> pg_Cursor p = [] \<Longrightarrow>
       list_page p s = trim_page L p (items s) key"
    and next_page: "golib_ok L \<Longrightarrow> inv s \<Longrightarrow> 1 \<le> pg_Limit p \<Longrightarrow> x \<in> set (items s) \<Longrightarrow>
       pg_Cursor p = encode_cursor L (fst (key x)) (snd (key x)) \<Longrightarrow>
       list_page p s = trim_page L p (filter (\<lambda>y. after (key x) (key y)) (items s)) key"
begin

lemma after_irrefl:
  "golib_ok L \<Longrightarrow> inv s \<Longrightarrow> x \<in> set (items s) \<Longrightarrow> \<not> after (key x) (key x)"
  using listing_asym by blast

lemma rest_after:
  assumes "golib_ok L" "inv s" "items s = xs @ x # ys"
  shows "filter (\<lambda>y. after (key x) (key y)) (items s) = ys"
proof -
  have "sorted_wrt (\<lambda>x y. after (key x) (key y)) (xs @ x # ys)"
    using listing_order [OF assms(1,2)] assms(3) by simp
  then have "\<forall>y\<in>set ys. after (key x) (key y)" and "\<forall>z\<in>set xs. after (key z) (key x)"
    by (auto simp: sorted_wrt_append)
  moreover have "\<forall>z\<in>set xs. \<not> after (key x) (key z)"
    using listing_asym [OF assms(1,2)] calculation(2) assms(3) by auto
  moreover have "\<not> after (key x) (key x)"
    using after_irrefl [OF assms(1,2)] assms(3) by simp
  ultimately show ?thesis by (simp add: assms(3) filter_empty_conv)
qed

lemma walk_from:
  assumes "golib_ok L" "inv s" "1 \<le> pg_Limit p"
    and "items s = xs @ rest" and "length rest < n"
    and "list_page p s = trim_page L p rest key"
  shows "walk_pages n (\<lambda>q. list_page q s) p = Some (Inr rest)"
  using assms(3-)
proof (induction n arbitrary: p xs rest)
  case 0
  then show ?case by simp
next
  case (Suc n)
  show ?case
  proof (cases "int (length rest) \<le> pg_Limit p")
    case True
    then show ?thesis using Suc.prems by (simp add: trim_page_def)
  next
    case False
    let ?k = "nat (pg_Limit p)"
    define front where "front = take ?k rest"
    define x where "x = last front"
    let ?p = "p\<lparr>pg_Cursor := encode_cursor L (fst (key x)) (snd (key x))\<rparr>"
    have k: "0 < ?k" "?k < length rest" using False Suc.prems(1) by auto
    then have ne: "front \<noteq> []" by (auto simp: front_def)
    have "rest = front @ drop ?k rest" by (simp add: front_def)
    moreover have "front = butlast front @ [x]" using ne by (simp add: x_def)
    ultimately have "rest = (butlast front @ [x]) @ drop ?k rest" by metis
    then have split: "items s = (xs @ butlast front) @ x # drop ?k rest"
      using Suc.prems(2) by simp
    have page: "list_page p s = Inr \<lparr>res_Items = front, res_NextCursor = pg_Cursor ?p\<rparr>"
      using Suc.prems(1,4) False by (simp add: trim_page_def front_def x_def Let_def split: prod.splits)
    have "list_page ?p s = trim_page L ?p (drop ?k rest) key"
      using next_page [OF assms(1,2), of ?p x] rest_after [OF assms(1,2) split] Suc.prems(1) split
      by simp
    then have "walk_pages n (\<lambda>q. list_page q s) ?p = Some (Inr (drop ?k rest))"
      using Suc.IH [of ?p "(xs @ butlast front) @ [x]" "drop ?k rest"] Suc.prems split k by simp
    moreover have "pg_Cursor ?p \<noteq> []" by (simp add: encode_cursor_ne)
    ultimately show ?thesis using page by (simp add: front_def)
  qed
qed

lemma walk_complete:
  assumes "golib_ok L" "inv s" "1 \<le> pg_Limit p" "pg_Cursor p = []" "length (items s) < n"
  shows "walk_pages n (\<lambda>q. list_page q s) p = Some (Inr (items s))"
  using walk_from [OF assms(1-3), where xs = "[]" and rest = "items s" and n = n]
    first_page [OF assms(1-4)] assms(5) by simp

end

section \<open>The two listing orders\<close>

text \<open>
  The rows of a list method sorted by a rank of creation time and identifier, newest or oldest first,
  and the page a cursor asks for. The memory stores rank by the identifier's text, Postgres by its bytes.
\<close>

definition key_text :: "'z golib_scheme \<Rightarrow> go_time \<times> uuid \<Rightarrow> go_time \<times> string" where
  "key_text L k = (fst k, uuid_string L (snd k))"

definition key_bytes :: "go_time \<times> uuid \<Rightarrow> go_time \<times> uuid" where
  "key_bytes k = k"

definition sort_newest :: "('k \<Rightarrow> 'b::linorder) \<Rightarrow> ('a \<Rightarrow> 'k) \<Rightarrow> 'a list \<Rightarrow> 'a list" where
  "sort_newest rank key xs = rev (sort_key (\<lambda>x. rank (key x)) xs)"

definition sort_oldest :: "('k \<Rightarrow> 'b::linorder) \<Rightarrow> ('a \<Rightarrow> 'k) \<Rightarrow> 'a list \<Rightarrow> 'a list" where
  "sort_oldest rank key xs = sort_key (\<lambda>x. rank (key x)) xs"

definition list_desc ::
    "'z golib_scheme \<Rightarrow> (go_time \<times> uuid \<Rightarrow> 'b::linorder) \<Rightarrow> ('a \<Rightarrow> go_time \<times> uuid) \<Rightarrow> page \<Rightarrow> 'a list
       \<Rightarrow> err + 'a page_result" where
  "list_desc L rank key p xs =
     (if pg_Cursor p = [] then trim_page L p (sort_newest rank key xs) key
      else case decode_cursor L (pg_Cursor p) of
        Inl e \<Rightarrow> Inl e
      | Inr c \<Rightarrow> trim_page L p (filter (\<lambda>x. rank (key x) < rank c) (sort_newest rank key xs)) key)"

definition list_asc ::
    "'z golib_scheme \<Rightarrow> (go_time \<times> uuid \<Rightarrow> 'b::linorder) \<Rightarrow> ('a \<Rightarrow> go_time \<times> uuid) \<Rightarrow> page \<Rightarrow> 'a list
       \<Rightarrow> err + 'a page_result" where
  "list_asc L rank key p xs =
     (if pg_Cursor p = [] then trim_page L p (sort_oldest rank key xs) key
      else case decode_cursor L (pg_Cursor p) of
        Inl e \<Rightarrow> Inl e
      | Inr c \<Rightarrow> trim_page L p (filter (\<lambda>x. rank (key x) > rank c) (sort_oldest rank key xs)) key)"

text \<open>\<open>ORDER BY ... LIMIT limit + 1\<close> and \<open>TrimPage\<close>, as the Postgres stores list.\<close>

definition sql_limit :: "page \<Rightarrow> 'a list \<Rightarrow> err + 'a list" where
  "sql_limit p rows =
     (if pg_Limit p + 1 < 0 then Inl (ErrOther ''LIMIT must not be negative'')
      else Inr (take (nat (pg_Limit p + 1)) rows))"

definition sql_list_desc ::
    "'z golib_scheme \<Rightarrow> ('a \<Rightarrow> go_time \<times> uuid) \<Rightarrow> page \<Rightarrow> 'a list \<Rightarrow> err + 'a page_result" where
  "sql_list_desc L key p rows =
     (case (if pg_Cursor p = [] then Inr (sort_newest key_bytes key rows)
            else case decode_cursor L (pg_Cursor p) of
                   Inl e \<Rightarrow> Inl e
                 | Inr c \<Rightarrow> Inr (sort_newest key_bytes key (filter (\<lambda>x. key_bytes (key x) < key_bytes c) rows))) of
        Inl e \<Rightarrow> Inl e
      | Inr found \<Rightarrow> (case sql_limit p found of Inl e \<Rightarrow> Inl e | Inr out \<Rightarrow> trim_page L p out key))"

definition sql_list_asc ::
    "'z golib_scheme \<Rightarrow> ('a \<Rightarrow> go_time \<times> uuid) \<Rightarrow> page \<Rightarrow> 'a list \<Rightarrow> err + 'a page_result" where
  "sql_list_asc L key p rows =
     (case (if pg_Cursor p = [] then Inr (sort_oldest key_bytes key rows)
            else case decode_cursor L (pg_Cursor p) of
                   Inl e \<Rightarrow> Inl e
                 | Inr c \<Rightarrow> Inr (sort_oldest key_bytes key (filter (\<lambda>x. key_bytes (key x) > key_bytes c) rows))) of
        Inl e \<Rightarrow> Inl e
      | Inr found \<Rightarrow> (case sql_limit p found of Inl e \<Rightarrow> Inl e | Inr out \<Rightarrow> trim_page L p out key))"

lemma key_text_inj: "golib_ok L \<Longrightarrow> key_text L a = key_text L b \<longleftrightarrow> a = b"
  by (auto simp: key_text_def uuid_string_inject prod_eq_iff)

lemma key_bytes_inj: "key_bytes a = key_bytes b \<longleftrightarrow> a = b"
  by (simp add: key_bytes_def)

lemma distinct_rank:
  assumes "\<And>a b. rank a = rank b \<Longrightarrow> a = b" "distinct (map key xs)"
  shows "distinct (map (\<lambda>x. rank (key x)) xs)"
  using assms by (auto simp: distinct_map inj_on_def)

lemma sorted_sort_strict:
  fixes f :: "'a \<Rightarrow> 'b::linorder"
  assumes "distinct (map f xs)"
  shows "sorted_wrt (\<lambda>x y. f x < f y) (sort_key f xs)"
proof -
  have "distinct (map f (sort_key f xs))"
    using assms by (simp add: distinct_map)
  then have "sorted_wrt (<) (map f (sort_key f xs))"
    by (simp add: strict_sorted_iff)
  then show ?thesis by (simp add: sorted_wrt_map)
qed

lemma sort_oldest_order:
  assumes "\<And>a b. rank a = rank b \<Longrightarrow> a = b" "distinct (map key xs)"
  shows "sorted_wrt (\<lambda>x y. rank (key x) < rank (key y)) (sort_oldest rank key xs)"
  using sorted_sort_strict [OF distinct_rank [OF assms]] by (simp add: sort_oldest_def)

lemma sort_newest_order:
  assumes "\<And>a b. rank a = rank b \<Longrightarrow> a = b" "distinct (map key xs)"
  shows "sorted_wrt (\<lambda>x y. rank (key y) < rank (key x)) (sort_newest rank key xs)"
  using sorted_sort_strict [OF distinct_rank [OF assms]] by (simp add: sort_newest_def sorted_wrt_rev)

lemma set_sort_newest [simp]: "set (sort_newest rank key xs) = set xs"
  by (simp add: sort_newest_def)

lemma set_sort_oldest [simp]: "set (sort_oldest rank key xs) = set xs"
  by (simp add: sort_oldest_def)

lemma sort_newest_filter: "sort_newest rank key (filter P xs) = filter P (sort_newest rank key xs)"
  by (simp add: sort_newest_def filter_sort flip: rev_filter)

lemma sort_oldest_filter: "sort_oldest rank key (filter P xs) = filter P (sort_oldest rank key xs)"
  by (simp add: sort_oldest_def filter_sort)

lemma sql_list_desc_eq: "1 \<le> pg_Limit p \<Longrightarrow> sql_list_desc L key p rows = list_desc L key_bytes key p rows"
  by (auto simp: sql_list_desc_def list_desc_def sql_limit_def trim_page_take sort_newest_filter
      split: sum.splits)

lemma sql_list_asc_eq: "1 \<le> pg_Limit p \<Longrightarrow> sql_list_asc L key p rows = list_asc L key_bytes key p rows"
  by (auto simp: sql_list_asc_def list_asc_def sql_limit_def trim_page_take sort_oldest_filter
      split: sum.splits)

lemma insort_key_map: "insort_key f (g x) (map g xs) = map g (insort_key (\<lambda>x. f (g x)) x xs)"
  by (induction xs) auto

lemma sort_key_map: "sort_key f (map g xs) = map g (sort_key (\<lambda>x. f (g x)) xs)"
  by (induction xs) (auto simp: insort_key_map)

lemma list_desc_map:
  "(\<And>x. key (f x) = key' x) \<Longrightarrow>
     list_desc L rank key p (map f xs) = map_sum (\<lambda>e. e) (map_page f) (list_desc L rank key' p xs)"
  by (auto simp: list_desc_def sort_newest_def sort_key_map filter_map comp_def trim_page_map rev_map
      split: sum.splits)

lemma list_asc_map:
  "(\<And>x. key (f x) = key' x) \<Longrightarrow>
     list_asc L rank key p (map f xs) = map_sum (\<lambda>e. e) (map_page f) (list_asc L rank key' p xs)"
  by (auto simp: list_asc_def sort_oldest_def sort_key_map filter_map comp_def trim_page_map
      split: sum.splits)

text \<open>Both ways of listing meet the interface, for rows whose keys differ and format.\<close>

lemma list_desc_first:
  "pg_Cursor p = [] \<Longrightarrow> list_desc L rank key p xs = trim_page L p (sort_newest rank key xs) key"
  by (simp add: list_desc_def)

lemma list_asc_first:
  "pg_Cursor p = [] \<Longrightarrow> list_asc L rank key p xs = trim_page L p (sort_oldest rank key xs) key"
  by (simp add: list_asc_def)

lemma list_desc_next:
  "golib_ok L \<Longrightarrow> time_ok (fst k) \<Longrightarrow> pg_Cursor p = encode_cursor L (fst k) (snd k) \<Longrightarrow>
     list_desc L rank key p xs =
       trim_page L p (filter (\<lambda>x. rank (key x) < rank k) (sort_newest rank key xs)) key"
  by (simp add: list_desc_def cursor_roundtrip encode_cursor_ne)

lemma list_asc_next:
  "golib_ok L \<Longrightarrow> time_ok (fst k) \<Longrightarrow> pg_Cursor p = encode_cursor L (fst k) (snd k) \<Longrightarrow>
     list_asc L rank key p xs =
       trim_page L p (filter (\<lambda>x. rank k < rank (key x)) (sort_oldest rank key xs)) key"
  by (simp add: list_asc_def cursor_roundtrip encode_cursor_ne)

lemma keyset_listing_desc:
  fixes L :: golib and rank :: "go_time \<times> uuid \<Rightarrow> 'b::linorder" and inv :: "'s \<Rightarrow> bool"
  assumes "\<And>a b. golib_ok L \<Longrightarrow> rank a = rank b \<Longrightarrow> a = b"
    and "\<And>s. inv s \<Longrightarrow> distinct (map key (rows s)) \<and> (\<forall>x\<in>set (rows s). time_ok (fst (key x)))"
    and "\<And>s p. inv s \<Longrightarrow> 1 \<le> pg_Limit p \<Longrightarrow> list_page p s = list_desc L rank key p (rows s)"
  shows "keyset_listing L key (\<lambda>c k. rank k < rank c) inv (\<lambda>s. sort_newest rank key (rows s)) list_page"
proof
  fix s assume "golib_ok L" "inv s"
  then show "sorted_wrt (\<lambda>x y. rank (key y) < rank (key x)) (sort_newest rank key (rows s))"
    using assms(1,2) by (intro sort_newest_order) auto
qed (use assms(2,3) in \<open>auto simp: list_desc_first list_desc_next\<close>)

lemma keyset_listing_asc:
  fixes L :: golib and rank :: "go_time \<times> uuid \<Rightarrow> 'b::linorder" and inv :: "'s \<Rightarrow> bool"
  assumes "\<And>a b. golib_ok L \<Longrightarrow> rank a = rank b \<Longrightarrow> a = b"
    and "\<And>s. inv s \<Longrightarrow> distinct (map key (rows s)) \<and> (\<forall>x\<in>set (rows s). time_ok (fst (key x)))"
    and "\<And>s p. inv s \<Longrightarrow> 1 \<le> pg_Limit p \<Longrightarrow> list_page p s = list_asc L rank key p (rows s)"
  shows "keyset_listing L key (\<lambda>c k. rank c < rank k) inv (\<lambda>s. sort_oldest rank key (rows s)) list_page"
proof
  fix s assume "golib_ok L" "inv s"
  then show "sorted_wrt (\<lambda>x y. rank (key x) < rank (key y)) (sort_oldest rank key (rows s))"
    using assms(1,2) by (intro sort_oldest_order) auto
qed (use assms(2,3) in \<open>auto simp: list_asc_first list_asc_next\<close>)

end
