(* ===== verification/Projects.thy ===== *)
theory Projects
  imports Pagination
begin

text \<open>
  \<open>internal/projects\<close>: the project and its members (\<open>domain/project.go\<close>), the ports
  (\<open>port/port.go\<close>), the service (\<open>service/service.go\<close>), and the adapter other contexts authorise
  through (\<open>internal/uploads/adapter/access/access.go\<close>).

  The locale \<open>project_store\<close> states what the service needs of its repository; its lemmas show that no
  sequence of service calls leaves a project without an owner, and that a caller without the right
  membership changes nothing. The memory and the Postgres repository interpret it.
\<close>

section \<open>Domain\<close>

datatype role = RoleOwner | RoleMember

definition parse_role :: "'z golib_scheme \<Rightarrow> string \<Rightarrow> err + role" where
  "parse_role L s =
     (let r = to_lower L (trim_space s)
      in if r = ''owner'' then Inr RoleOwner
         else if r = ''member'' then Inr RoleMember
         else Inl ErrInvalidRole)"

definition is_owner :: "role \<Rightarrow> bool" where
  "is_owner r \<longleftrightarrow> r = RoleOwner"

record project =
  prj_ID :: uuid
  prj_Name :: string
  prj_CreatedBy :: uuid
  prj_CreatedAt :: go_time
  prj_UpdatedAt :: go_time

definition new_project :: "string \<Rightarrow> uuid \<Rightarrow> go_time \<Rightarrow> uuid \<Rightarrow> err + project" where
  "new_project name0 createdBy now fresh =
     (let name = trim_space name0
      in if name = [] then Inl ErrInvalidName
         else Inr \<lparr>prj_ID = fresh, prj_Name = name, prj_CreatedBy = createdBy,
                   prj_CreatedAt = now, prj_UpdatedAt = now\<rparr>)"

record member =
  mb_ProjectID :: uuid
  mb_UserID :: uuid
  mb_Role :: role
  mb_CreatedAt :: go_time

section \<open>Ports\<close>

record project_with_role =
  pwr_Project :: project
  pwr_Role :: role

record 's project_repository =
  pr_CreateWithOwner :: "project \<Rightarrow> member \<Rightarrow> ('s, project) op"
  pr_GetByID :: "uuid \<Rightarrow> ('s, project) op"
  pr_ListForUser :: "uuid \<Rightarrow> page \<Rightarrow> ('s, project_with_role page_result) op"
  pr_Update :: "project \<Rightarrow> ('s, project) op"
  pr_Delete :: "uuid \<Rightarrow> ('s, unit) op"
  pr_GetMembership :: "uuid \<Rightarrow> uuid \<Rightarrow> ('s, member) op"
  pr_AddMember :: "member \<Rightarrow> ('s, unit) op"
  pr_RemoveMember :: "uuid \<Rightarrow> uuid \<Rightarrow> ('s, unit) op"
  pr_ListMembers :: "uuid \<Rightarrow> page \<Rightarrow> ('s, member page_result) op"
  pr_CountOwners :: "uuid \<Rightarrow> ('s, int) op"

record 's project_objects =
  po_DeletePrefix :: "string \<Rightarrow> ('s, unit) op"

section \<open>Service\<close>

record list_config =
  lc_DefaultLimit :: int
  lc_MaxLimit :: int

record 's projects_service =
  ps_repo :: "'s project_repository"
  ps_objects :: "'s project_objects option"
  ps_listCfg :: list_config

record project_dto =
  pd_ID :: uuid
  pd_Name :: string
  pd_CreatedBy :: uuid
  pd_Role :: role
  pd_CreatedAt :: go_time
  pd_UpdatedAt :: go_time

record member_dto =
  md_UserID :: uuid
  md_Role :: role
  md_CreatedAt :: go_time

definition project_toDTO :: "project \<Rightarrow> role \<Rightarrow> project_dto" where
  "project_toDTO p r =
     \<lparr>pd_ID = prj_ID p, pd_Name = prj_Name p, pd_CreatedBy = prj_CreatedBy p, pd_Role = r,
      pd_CreatedAt = prj_CreatedAt p, pd_UpdatedAt = prj_UpdatedAt p\<rparr>"

definition member_toDTO :: "member \<Rightarrow> member_dto" where
  "member_toDTO m = \<lparr>md_UserID = mb_UserID m, md_Role = mb_Role m, md_CreatedAt = mb_CreatedAt m\<rparr>"

definition prs_requireMember :: "'s projects_service \<Rightarrow> uuid \<Rightarrow> uuid \<Rightarrow> ('s, member) op" where
  "prs_requireMember S projectID userID =
     map_err (\<lambda>e. if errors_is e (ErrNotFound Projects) then ErrForbidden Projects else e)
       (pr_GetMembership (ps_repo S) projectID userID)"

definition prs_requireOwner :: "'s projects_service \<Rightarrow> uuid \<Rightarrow> uuid \<Rightarrow> ('s, member) op" where
  "prs_requireOwner S projectID userID =
     andthen (prs_requireMember S projectID userID)
       (\<lambda>m. if \<not> is_owner (mb_Role m) then fail (ErrForbidden Projects) else ret m)"

definition prs_Create ::
    "'s projects_service \<Rightarrow> uuid \<Rightarrow> string \<Rightarrow> go_time \<Rightarrow> uuid \<Rightarrow> go_time \<Rightarrow> ('s, project_dto) op" where
  "prs_Create S userID name now fresh now' =
     andthen (lift_sum (new_project name userID now fresh)) (\<lambda>p.
     let owner = \<lparr>mb_ProjectID = prj_ID p, mb_UserID = userID, mb_Role = RoleOwner, mb_CreatedAt = now'\<rparr>
     in andthen (pr_CreateWithOwner (ps_repo S) p owner)
          (\<lambda>created. ret (project_toDTO created RoleOwner)))"

definition prs_List :: "'s projects_service \<Rightarrow> uuid \<Rightarrow> page \<Rightarrow> ('s, project_dto page_result) op" where
  "prs_List S userID p =
     andthen (pr_ListForUser (ps_repo S) userID p) (\<lambda>rows.
       ret (map_page (\<lambda>r. project_toDTO (pwr_Project r) (pwr_Role r)) rows))"

definition prs_ListLimits :: "'s projects_service \<Rightarrow> limits" where
  "prs_ListLimits S = \<lparr>lim_Default = lc_DefaultLimit (ps_listCfg S), lim_Max = lc_MaxLimit (ps_listCfg S)\<rparr>"

definition prs_Get :: "'s projects_service \<Rightarrow> uuid \<Rightarrow> uuid \<Rightarrow> ('s, project_dto) op" where
  "prs_Get S userID projectID =
     andthen (prs_requireMember S projectID userID) (\<lambda>m.
     andthen (pr_GetByID (ps_repo S) projectID) (\<lambda>p.
     ret (project_toDTO p (mb_Role m))))"

definition prs_Update ::
    "'s projects_service \<Rightarrow> uuid \<Rightarrow> uuid \<Rightarrow> string \<Rightarrow> go_time \<Rightarrow> ('s, project_dto) op" where
  "prs_Update S userID projectID name0 now =
     andthen (prs_requireOwner S projectID userID) (\<lambda>_.
     let name = trim_space name0
     in if name = [] then fail ErrInvalidName
        else andthen (pr_GetByID (ps_repo S) projectID) (\<lambda>p.
             andthen (pr_Update (ps_repo S) (p\<lparr>prj_Name := name, prj_UpdatedAt := now\<rparr>)) (\<lambda>updated.
             ret (project_toDTO updated RoleOwner))))"

text \<open>The object clean-up is best effort: its error is logged and dropped.\<close>

definition prs_Delete :: "'z golib_scheme \<Rightarrow> 's projects_service \<Rightarrow> uuid \<Rightarrow> uuid \<Rightarrow> ('s, unit) op" where
  "prs_Delete L S userID projectID =
     andthen (prs_requireOwner S projectID userID) (\<lambda>_.
     andthen (pr_Delete (ps_repo S) projectID) (\<lambda>_.
     case ps_objects S of
       None \<Rightarrow> ret ()
     | Some objects \<Rightarrow>
         ignore (po_DeletePrefix objects (''projects/'' @ uuid_string L projectID @ ''/''))))"

definition prs_AddMember ::
    "'z golib_scheme \<Rightarrow> 's projects_service \<Rightarrow> uuid \<Rightarrow> uuid \<Rightarrow> uuid \<Rightarrow> string \<Rightarrow> go_time
       \<Rightarrow> ('s, member_dto) op" where
  "prs_AddMember L S actorID projectID memberUserID roleStr now =
     andthen (prs_requireOwner S projectID actorID) (\<lambda>_.
     andthen (lift_sum (parse_role L roleStr)) (\<lambda>r.
     let m = \<lparr>mb_ProjectID = projectID, mb_UserID = memberUserID, mb_Role = r, mb_CreatedAt = now\<rparr>
     in andthen (pr_AddMember (ps_repo S) m) (\<lambda>_. ret (member_toDTO m))))"

text \<open>
  \<open>RemoveMember\<close> checks first and removes last; the checks are named, because nothing holds the
  repository between them and the removal.
\<close>

definition prs_RemoveMember_checks :: "'s projects_service \<Rightarrow> uuid \<Rightarrow> uuid \<Rightarrow> uuid \<Rightarrow> ('s, unit) op" where
  "prs_RemoveMember_checks S actorID projectID memberUserID =
     andthen (prs_requireOwner S projectID actorID) (\<lambda>_.
     andthen (pr_GetMembership (ps_repo S) projectID memberUserID) (\<lambda>target.
     if is_owner (mb_Role target) then
       andthen (pr_CountOwners (ps_repo S) projectID)
         (\<lambda>n. if n \<le> 1 then fail ErrLastOwner else ret ())
     else ret ()))"

definition prs_RemoveMember :: "'s projects_service \<Rightarrow> uuid \<Rightarrow> uuid \<Rightarrow> uuid \<Rightarrow> ('s, unit) op" where
  "prs_RemoveMember S actorID projectID memberUserID =
     andthen (prs_RemoveMember_checks S actorID projectID memberUserID)
       (\<lambda>_. pr_RemoveMember (ps_repo S) projectID memberUserID)"

definition prs_ListMembers :: "'s projects_service \<Rightarrow> uuid \<Rightarrow> uuid \<Rightarrow> page \<Rightarrow> ('s, member_dto page_result) op" where
  "prs_ListMembers S userID projectID p =
     andthen (prs_requireMember S projectID userID) (\<lambda>_.
     andthen (pr_ListMembers (ps_repo S) projectID p) (\<lambda>members.
     ret (map_page member_toDTO members)))"

definition prs_EnsureMember :: "'s projects_service \<Rightarrow> uuid \<Rightarrow> uuid \<Rightarrow> ('s, unit) op" where
  "prs_EnsureMember S userID projectID = andthen (prs_requireMember S projectID userID) (\<lambda>_. ret ())"

definition prs_EnsureOwner :: "'s projects_service \<Rightarrow> uuid \<Rightarrow> uuid \<Rightarrow> ('s, unit) op" where
  "prs_EnsureOwner S userID projectID = andthen (prs_requireOwner S projectID userID) (\<lambda>_. ret ())"

section \<open>The adapter other contexts use\<close>

definition access_err :: "err \<Rightarrow> err" where
  "access_err e =
     (if errors_is e (ErrForbidden Projects) \<or> errors_is e (ErrNotFound Projects)
      then ErrForbidden Uploads else e)"

definition access_EnsureMember :: "'s projects_service \<Rightarrow> uuid \<Rightarrow> uuid \<Rightarrow> ('s, unit) op" where
  "access_EnsureMember S userID projectID = map_err access_err (prs_EnsureMember S userID projectID)"

definition access_EnsureOwner :: "'s projects_service \<Rightarrow> uuid \<Rightarrow> uuid \<Rightarrow> ('s, unit) op" where
  "access_EnsureOwner S userID projectID = map_err access_err (prs_EnsureOwner S userID projectID)"

section \<open>The states the service reaches\<close>

text \<open>
  The states that calls of the service lead to, one after the other, whoever makes them and whatever
  they return. A new project takes an identifier no project has.
\<close>

inductive prs_reach :: "'z golib_scheme \<Rightarrow> 's projects_service \<Rightarrow> ('s \<Rightarrow> uuid \<Rightarrow> bool) \<Rightarrow> 's \<Rightarrow> 's \<Rightarrow> bool"
  for L :: "'z golib_scheme" and S :: "'s projects_service" and used :: "'s \<Rightarrow> uuid \<Rightarrow> bool" and s0 :: 's where
  reach_start: "prs_reach L S used s0 s0"
| reach_create: "prs_reach L S used s0 s \<Longrightarrow> \<not> used s fresh \<Longrightarrow>
    prs_reach L S used s0 (snd (prs_Create S userID name now fresh now' s))"
| reach_update: "prs_reach L S used s0 s \<Longrightarrow>
    prs_reach L S used s0 (snd (prs_Update S userID projectID name now s))"
| reach_delete: "prs_reach L S used s0 s \<Longrightarrow>
    prs_reach L S used s0 (snd (prs_Delete L S userID projectID s))"
| reach_add: "prs_reach L S used s0 s \<Longrightarrow>
    prs_reach L S used s0 (snd (prs_AddMember L S actorID projectID memberID roleStr now s))"
| reach_remove: "prs_reach L S used s0 s \<Longrightarrow>
    prs_reach L S used s0 (snd (prs_RemoveMember S actorID projectID memberID s))"

section \<open>What the service relies on, and what it then guarantees\<close>

text \<open>
  A view of the repository: its projects, and its members by project and user. \<open>owned\<close> is the
  invariant of the view: members belong to existing projects, and every project has an owner.
\<close>

type_synonym projects_view = "(uuid \<Rightarrow> project option) \<times> (uuid \<Rightarrow> uuid \<Rightarrow> member option)"

definition owners :: "projects_view \<Rightarrow> uuid \<Rightarrow> uuid set" where
  "owners v p = {u. \<exists>m. snd v p u = Some m \<and> is_owner (mb_Role m)}"

definition owned :: "projects_view \<Rightarrow> bool" where
  "owned v \<longleftrightarrow> (\<forall>p. (fst v p \<noteq> None \<longrightarrow> owners v p \<noteq> {}) \<and> (\<forall>u. snd v p u \<noteq> None \<longrightarrow> fst v p \<noteq> None))"

definition members_upd :: "(uuid \<Rightarrow> uuid \<Rightarrow> member option) \<Rightarrow> uuid \<Rightarrow> uuid \<Rightarrow> member option
    \<Rightarrow> uuid \<Rightarrow> uuid \<Rightarrow> member option" where
  "members_upd M p u x = M(p := (M p)(u := x))"

lemma owned_ex: "owned v \<Longrightarrow> fst v p \<noteq> None \<Longrightarrow> \<exists>w. w \<in> owners v p"
  by (meson owned_def ex_in_conv)

lemma owned_member: "owned v \<Longrightarrow> snd v p u \<noteq> None \<Longrightarrow> fst v p \<noteq> None"
  by (simp add: owned_def) blast

lemma owned_remove:
  assumes "owned v" "\<And>q. fst v q \<noteq> None \<Longrightarrow> owners (fst v, members_upd (snd v) p u None) q \<noteq> {}"
  shows "owned (fst v, members_upd (snd v) p u None)"
proof -
  have "fst v q \<noteq> None" if "members_upd (snd v) p u None q w \<noteq> None" for q w
    using that owned_member [OF assms(1), of q w] by (auto simp: members_upd_def split: if_splits)
  then show ?thesis using assms(2) by (simp add: owned_def)
qed

lemma owners_add:
  "snd v p u = None \<Longrightarrow> owners v q \<subseteq> owners (fst v, members_upd (snd v) p u (Some m)) q"
  by (auto simp: owners_def members_upd_def)

lemma owned_add:
  assumes "owned v" "fst v p \<noteq> None" "snd v p u = None"
  shows "owned (fst v, members_upd (snd v) p u (Some m))"
proof -
  have "fst v q \<noteq> None \<Longrightarrow> owners (fst v, members_upd (snd v) p u (Some m)) q \<noteq> {}" for q
    using owners_add [of v p u q m] owned_ex [OF assms(1), of q] assms(3) by blast
  then show ?thesis using assms(1,2) by (auto simp: owned_def members_upd_def split: if_splits)
qed

locale project_store =
  fixes R :: "'s project_repository"
    and consistent :: "'s \<Rightarrow> bool"
    and view :: "'s \<Rightarrow> projects_view"
  assumes consistent_ops:
    "preserves consistent (pr_CreateWithOwner R q w)" "preserves consistent (pr_Update R q)"
    "preserves consistent (pr_Delete R p)" "preserves consistent (pr_AddMember R w)"
    "preserves consistent (pr_RemoveMember R p u)"
    and reads:
    "keeps (\<lambda>s. (consistent s, view s)) (pr_GetByID R p)"
    "keeps (\<lambda>s. (consistent s, view s)) (pr_ListForUser R u pg)"
    "keeps (\<lambda>s. (consistent s, view s)) (pr_GetMembership R p u)"
    "keeps (\<lambda>s. (consistent s, view s)) (pr_ListMembers R p pg)"
    "keeps (\<lambda>s. (consistent s, view s)) (pr_CountOwners R p)"
    and failures:
    "consistent s \<Longrightarrow> pr_CreateWithOwner R q w s = (Inl e, s') \<Longrightarrow> view s' = view s"
    "consistent s \<Longrightarrow> pr_Update R q s = (Inl e, s') \<Longrightarrow> view s' = view s"
    "consistent s \<Longrightarrow> pr_Delete R p s = (Inl e, s') \<Longrightarrow> view s' = view s"
    "consistent s \<Longrightarrow> pr_AddMember R w s = (Inl e, s') \<Longrightarrow> view s' = view s"
    "consistent s \<Longrightarrow> pr_RemoveMember R p u s = (Inl e, s') \<Longrightarrow> view s' = view s"
    and create_ok:
    "consistent s \<Longrightarrow> fst (view s) (prj_ID q) = None \<Longrightarrow> mb_ProjectID w = prj_ID q \<Longrightarrow>
       pr_CreateWithOwner R q w s = (Inr q', s') \<Longrightarrow>
       prj_ID q' = prj_ID q \<and> (\<exists>w'. mb_Role w' = mb_Role w
         \<and> view s' = ((fst (view s))(prj_ID q \<mapsto> q'), (snd (view s))(prj_ID q := [mb_UserID w \<mapsto> w'])))"
    and update_ok:
    "consistent s \<Longrightarrow> pr_Update R q s = (Inr q', s') \<Longrightarrow>
       fst (view s) (prj_ID q) \<noteq> None \<and> prj_ID q' = prj_ID q
       \<and> view s' = ((fst (view s))(prj_ID q \<mapsto> q'), snd (view s))"
    and delete_ok:
    "consistent s \<Longrightarrow> pr_Delete R p s = (Inr (), s') \<Longrightarrow>
       view s' = ((fst (view s))(p := None), (snd (view s))(p := Map.empty))"
    and get_ok:
    "consistent s \<Longrightarrow> pr_GetByID R p s = (Inr q, s') \<Longrightarrow> fst (view s) p = Some q \<and> prj_ID q = p"
    and membership_ok:
    "consistent s \<Longrightarrow> pr_GetMembership R p u s = (Inr m, s') \<Longrightarrow> snd (view s) p u = Some m"
    "consistent s \<Longrightarrow> pr_GetMembership R p u s = (Inl (ErrNotFound Projects), s') \<Longrightarrow> snd (view s) p u = None"
    and add_ok:
    "consistent s \<Longrightarrow> pr_AddMember R w s = (Inr (), s') \<Longrightarrow>
       fst (view s) (mb_ProjectID w) \<noteq> None \<and> snd (view s) (mb_ProjectID w) (mb_UserID w) = None
       \<and> (\<exists>w'. mb_Role w' = mb_Role w
         \<and> view s' = (fst (view s), members_upd (snd (view s)) (mb_ProjectID w) (mb_UserID w) (Some w')))"
    and remove_ok:
    "consistent s \<Longrightarrow> pr_RemoveMember R p u s = (Inr (), s') \<Longrightarrow>
       view s' = (fst (view s), members_upd (snd (view s)) p u None)"
    and count_ok:
    "consistent s \<Longrightarrow> pr_CountOwners R p s = (Inr n, s') \<Longrightarrow> n = int (card (owners (view s) p))"
begin

lemmas read_steps = reads [THEN keepsD, simplified]
lemmas write_steps = consistent_ops [THEN preservesD]

lemma fail_steps:
  "consistent s \<Longrightarrow> pr_CreateWithOwner R q w s = (Inl e, s') \<Longrightarrow> view s' = view s \<and> consistent s'"
  "consistent s \<Longrightarrow> pr_Update R q s = (Inl e, s') \<Longrightarrow> view s' = view s \<and> consistent s'"
  "consistent s \<Longrightarrow> pr_Delete R p s = (Inl e, s') \<Longrightarrow> view s' = view s \<and> consistent s'"
  "consistent s \<Longrightarrow> pr_AddMember R w s = (Inl e, s') \<Longrightarrow> view s' = view s \<and> consistent s'"
  "consistent s \<Longrightarrow> pr_RemoveMember R p u s = (Inl e, s') \<Longrightarrow> view s' = view s \<and> consistent s'"
  by (simp_all add: failures write_steps)

lemma requireMember_ok:
  "consistent s \<Longrightarrow> ps_repo S = R \<Longrightarrow> prs_requireMember S p u s = (r, s') \<Longrightarrow>
     view s' = view s \<and> consistent s' \<and> (\<forall>m. r = Inr m \<longrightarrow> snd (view s) p u = Some m)"
  using read_steps(3) membership_ok(1)
  by (fastforce simp: prs_requireMember_def map_err_def split: prod.splits sum.splits)

lemma requireOwner_ok:
  assumes "consistent s" "ps_repo S = R" "prs_requireOwner S p u s = (r, s')"
  shows "view s' = view s \<and> consistent s' \<and> (\<forall>m. r = Inr m \<longrightarrow> u \<in> owners (view s) p)"
  using assms(3) unfolding prs_requireOwner_def
proof (cases rule: andthen_cases)
  case (err e)
  then show ?thesis using requireMember_ok [OF assms(1,2)] by blast
next
  case (ok m s1)
  then show ?thesis using requireMember_ok [OF assms(1,2) ok(1)]
    by (auto simp: owners_def split: if_splits)
qed

lemma requireMember_refuses:
  assumes "consistent s" "ps_repo S = R" "snd (view s) p u = None"
  shows "\<exists>e s'. prs_requireMember S p u s = (Inl e, s') \<and> view s' = view s"
  using requireMember_ok [OF assms(1,2), of p u] assms(3)
  by (cases "prs_requireMember S p u s"; cases "fst (prs_requireMember S p u s)") auto

lemma requireOwner_refuses:
  assumes "consistent s" "ps_repo S = R" "u \<notin> owners (view s) p"
  shows "\<exists>e s'. prs_requireOwner S p u s = (Inl e, s') \<and> view s' = view s"
  using requireOwner_ok [OF assms(1,2), of p u] assms(3)
  by (cases "prs_requireOwner S p u s"; cases "fst (prs_requireOwner S p u s)") auto

lemma owners_finite_count:
  "consistent s \<Longrightarrow> pr_CountOwners R p s = (Inr n, s') \<Longrightarrow> 1 < n \<Longrightarrow> \<exists>w. w \<in> owners (view s) p \<and> w \<noteq> u"
  using count_ok [of s p n s']
  by (metis card_le_Suc0_iff_eq card.infinite nat_less_le not_less of_nat_1 of_nat_less_iff One_nat_def less_one)

end

text \<open>
  The service over such a store. Its object store, when there is one, leaves the repository alone.
\<close>

locale project_service = project_store R consistent view
  for R :: "'s project_repository" and consistent :: "'s \<Rightarrow> bool" and view :: "'s \<Rightarrow> projects_view" +
  fixes S :: "'s projects_service"
  assumes repo: "ps_repo S = R"
    and objects: "ps_objects S = Some ob \<Longrightarrow> keeps (\<lambda>s. (consistent s, view s)) (po_DeletePrefix ob pre)"
begin

lemma objects_step:
  "ps_objects S = Some ob \<Longrightarrow> po_DeletePrefix ob pre s = (r, s') \<Longrightarrow> consistent s' = consistent s \<and> view s' = view s"
  using objects [THEN keepsD] by fastforce

lemma Create_owned:
  assumes "consistent s" "owned (view s)" "fst (view s) fresh = None"
    and "prs_Create S userID name now fresh now' s = (r, s')"
  shows "consistent s' \<and> owned (view s')"
    and "r = Inr d \<Longrightarrow> userID \<in> owners (view s') (pd_ID d) \<and> pd_ID d = fresh"
proof -
  from assms(4) have "(consistent s' \<and> owned (view s'))
      \<and> (r = Inr d \<longrightarrow> userID \<in> owners (view s') (pd_ID d) \<and> pd_ID d = fresh)"
  proof (cases "new_project name userID now fresh")
    case (Inl e)
    then show ?thesis using assms by (auto simp: prs_Create_def andthen_def)
  next
    case (Inr p)
    then have p: "prj_ID p = fresh" by (auto simp: new_project_def Let_def split: if_splits)
    let ?o = "\<lparr>mb_ProjectID = prj_ID p, mb_UserID = userID, mb_Role = RoleOwner, mb_CreatedAt = now'\<rparr>"
    obtain x s1 where c: "pr_CreateWithOwner R p ?o s = (x, s1)" by fastforce
    then have cons: "consistent s1" using consistent_ops(1) assms(1) by (blast dest: preservesD)
    show ?thesis
    proof (cases x)
      case (Inl e)
      with c assms Inr cons show ?thesis
        using failures(1) [OF assms(1)] by (auto simp: prs_Create_def andthen_def repo)
    next
      case (Inr q)
      with c obtain o' where v: "view s1 = ((fst (view s))(fresh \<mapsto> q), (snd (view s))(fresh := [userID \<mapsto> o']))"
        and q: "prj_ID q = fresh" and o': "mb_Role o' = RoleOwner"
        using create_ok [OF assms(1), of p ?o] assms(3) p by auto
      have "owned (view s1)" using assms(2) o' by (auto simp: owned_def owners_def v is_owner_def)
      moreover have "userID \<in> owners (view s1) fresh" using o' by (simp add: owners_def v is_owner_def)
      ultimately show ?thesis
        using assms(4) c Inr cons \<open>new_project name userID now fresh = Inr p\<close> p q
        by (auto simp: prs_Create_def andthen_def repo project_toDTO_def)
    qed
  qed
  then show "consistent s' \<and> owned (view s')"
    and "r = Inr d \<Longrightarrow> userID \<in> owners (view s') (pd_ID d) \<and> pd_ID d = fresh" by blast+
qed

text \<open>An owner-gated call by anyone else fails and changes nothing.\<close>

lemma gated_by_owner:
  assumes "consistent s" "u \<notin> owners (view s) p"
  shows "\<exists>e s'. andthen (prs_requireOwner S p u) f s = (Inl e, s') \<and> view s' = view s"
  using requireOwner_refuses [OF assms(1) repo assms(2)] by (auto simp: andthen_def)

lemma owner_then_cases:
  assumes "consistent s" "andthen (prs_requireOwner S p u) f s = (r, s')"
  obtains (refused) e where "r = Inl e" "view s' = view s" "consistent s'"
  | (owner) m s1 where "u \<in> owners (view s) p" "view s1 = view s" "consistent s1" "f m s1 = (r, s')"
  using assms(2)
proof (cases rule: andthen_cases)
  case (err e)
  then show ?thesis using that(1) requireOwner_ok [OF assms(1) repo] by blast
next
  case (ok m s1)
  then show ?thesis using that(2) requireOwner_ok [OF assms(1) repo ok(1)] by blast
qed

lemma Update_owned:
  assumes "consistent s" "owned (view s)" "prs_Update S userID p name now s = (r, s')"
  shows "consistent s' \<and> owned (view s')"
  using assms(1) assms(3) [unfolded prs_Update_def]
proof (cases rule: owner_then_cases)
  case refused
  then show ?thesis using assms(2) by simp
next
  case (owner m s1)
  show ?thesis
  proof (cases "trim_space name = []")
    case True
    then show ?thesis using owner assms(2) by simp
  next
    case False
    from owner(4) False have "andthen (pr_GetByID R p) (\<lambda>q.
        andthen (pr_Update R (q\<lparr>prj_Name := trim_space name, prj_UpdatedAt := now\<rparr>))
          (\<lambda>q'. ret (project_toDTO q' RoleOwner))) s1 = (r, s')"
      by (simp add: Let_def repo)
    then show ?thesis
    proof (cases rule: andthen_cases)
      case (err e)
      then show ?thesis using read_steps(1) owner assms(2) by auto
    next
      case (ok q s2)
      have s2: "consistent s2" "view s2 = view s" using read_steps(1) [OF ok(1)] owner by auto
      from ok(2) show ?thesis
      proof (cases rule: andthen_cases)
        case (err e)
        then show ?thesis
          using fail_steps(2) [OF s2(1)] s2(2) assms(2) by auto
      next
        case upd: (ok q' s3)
        have "fst (view s') = (fst (view s))(prj_ID q \<mapsto> q')" "snd (view s') = snd (view s)"
          and "fst (view s) (prj_ID q) \<noteq> None"
          using update_ok [OF s2(1) upd(1)] upd(2) s2(2) by auto
        moreover have "consistent s'"
          using preservesD [OF consistent_ops(2) upd(1) s2(1)] upd(2) by simp
        ultimately show ?thesis using assms(2) by (auto simp: owned_def owners_def)
      qed
    qed
  qed
qed

lemma Delete_owned:
  assumes "consistent s" "owned (view s)" "prs_Delete L S userID p s = (r, s')"
  shows "consistent s' \<and> owned (view s')"
  using assms(1) assms(3) [unfolded prs_Delete_def]
proof (cases rule: owner_then_cases)
  case refused
  then show ?thesis using assms(2) by simp
next
  case (owner m s1)
  from owner(4) show ?thesis
  proof (cases rule: andthen_cases)
    case (err e)
    then show ?thesis using fail_steps(3) [OF owner(3)] owner(2) assms(2) by (auto simp: repo)
  next
    case (ok x s2)
    then have "view s2 = ((fst (view s))(p := None), (snd (view s))(p := Map.empty))" "consistent s2"
      using delete_ok owner write_steps(3) by (auto simp: repo)
    moreover from this have "owned (view s2)" using assms(2) by (auto simp: owned_def owners_def)
    moreover have "consistent s' = consistent s2 \<and> view s' = view s2"
      using ok(2) by (auto simp: ignore_def split: option.splits dest: objects_step [OF _ prod.collapse [symmetric]])
    ultimately show ?thesis by simp
  qed
qed

lemma AddMember_owned:
  assumes "consistent s" "owned (view s)" "prs_AddMember L S actor p u roleStr now s = (r, s')"
  shows "consistent s' \<and> owned (view s')"
  using assms(1) assms(3) [unfolded prs_AddMember_def]
proof (cases rule: owner_then_cases)
  case refused
  then show ?thesis using assms(2) by simp
next
  case (owner m s1)
  show ?thesis
  proof (cases "parse_role L roleStr")
    case (Inl e)
    then show ?thesis using owner assms(2) by (simp add: andthen_def)
  next
    case (Inr rl)
    let ?m = "\<lparr>mb_ProjectID = p, mb_UserID = u, mb_Role = rl, mb_CreatedAt = now\<rparr>"
    from owner(4) Inr have "andthen (pr_AddMember R ?m) (\<lambda>_. ret (member_toDTO ?m)) s1 = (r, s')"
      by (simp add: andthen_def Let_def repo)
    then show ?thesis
    proof (cases rule: andthen_cases)
      case (err e)
      then show ?thesis using fail_steps(4) [OF owner(3)] owner(2) assms(2) by auto
    next
      case (ok x s2)
      then have "fst (view s) p \<noteq> None" "snd (view s) p u = None" "consistent s'"
        "\<exists>m'. view s' = (fst (view s), members_upd (snd (view s)) p u (Some m'))"
        using add_ok [of s1 ?m s2] owner write_steps(4) [of ?m s1 "Inr x" s2] by auto
      then show ?thesis using owned_add [OF assms(2)] by metis
    qed
  qed
qed

text \<open>The checks pass for an owner only when another owner stays.\<close>

lemma checks_ok:
  assumes "consistent s" "prs_RemoveMember_checks S actor p u s = (Inr x, s')"
  shows "view s' = view s" "consistent s'" "actor \<in> owners (view s) p"
    and "u \<in> owners (view s) p \<Longrightarrow> \<exists>w. w \<in> owners (view s) p \<and> w \<noteq> u"
proof -
  from assms(1) assms(2) [unfolded prs_RemoveMember_checks_def]
  have "view s' = view s \<and> consistent s' \<and> actor \<in> owners (view s) p
    \<and> (u \<in> owners (view s) p \<longrightarrow> (\<exists>w. w \<in> owners (view s) p \<and> w \<noteq> u))"
  proof (cases rule: owner_then_cases)
    case (owner m s1)
    from owner(4) [unfolded repo] obtain t s2 where g: "pr_GetMembership R p u s1 = (Inr t, s2)"
      and rest: "(if is_owner (mb_Role t) then andthen (pr_CountOwners R p)
          (\<lambda>n. if n \<le> 1 then fail ErrLastOwner else ret ()) else ret ()) s2 = (Inr x, s')"
      by (rule andthen_InrE)
    have s2: "consistent s2" "view s2 = view s" using read_steps(3) [OF g] owner by auto
    have t: "snd (view s) p u = Some t" using membership_ok(1) [OF owner(3) g] owner(2) by simp
    show ?thesis
    proof (cases "is_owner (mb_Role t)")
      case True
      with rest obtain n where n: "pr_CountOwners R p s2 = (Inr n, s')" "1 < n"
        by (auto elim!: andthen_InrE split: if_splits)
      then show ?thesis
        using owners_finite_count [OF s2(1) n] read_steps(5) [OF n(1)] s2 owner(1) by auto
    next
      case False
      then show ?thesis using rest s2 owner(1) t by (auto simp: owners_def)
    qed
  qed simp
  then show "view s' = view s" "consistent s'" "actor \<in> owners (view s) p"
    "u \<in> owners (view s) p \<Longrightarrow> \<exists>w. w \<in> owners (view s) p \<and> w \<noteq> u" by blast+
qed

lemma checks_fail:
  assumes "consistent s" "prs_RemoveMember_checks S actor p u s = (Inl e, s')"
  shows "view s' = view s \<and> consistent s'"
  using assms(1) assms(2) [unfolded prs_RemoveMember_checks_def]
proof (cases rule: owner_then_cases)
  case (owner m s1)
  from owner(4) [unfolded repo] show ?thesis
  proof (cases rule: andthen_cases)
    case (err e)
    then show ?thesis using read_steps(3) owner by auto
  next
    case (ok t s2)
    have s2: "consistent s2" "view s2 = view s" using read_steps(3) [OF ok(1)] owner by auto
    with ok(2) show ?thesis
      by (auto simp: split: if_splits elim!: andthen_cases dest: read_steps(5))
  qed
qed simp

lemma RemoveMember_owned:
  assumes "consistent s" "owned (view s)" "prs_RemoveMember S actor p u s = (r, s')"
  shows "consistent s' \<and> owned (view s')"
  using assms(3) unfolding prs_RemoveMember_def repo
proof (cases rule: andthen_cases)
  case (err e)
  then show ?thesis using checks_fail [OF assms(1)] assms(2) by simp
next
  case (ok x s1)
  note c = checks_ok [OF assms(1) ok(1)]
  show ?thesis
  proof (cases r)
    case (Inl e)
    then show ?thesis
      using ok(2) fail_steps(5) [OF c(2)] c(1) assms(2) by auto
  next
    case (Inr y)
    then have "view s' = (fst (view s), members_upd (snd (view s)) p u None)" "consistent s'"
      using ok(2) remove_ok [of s1 p u s'] c write_steps(5) [of p u s1 r s'] by auto
    moreover have "owners (view s') q \<noteq> {}" if ex: "fst (view s) q \<noteq> None" for q
    proof (cases "q = p \<and> u \<in> owners (view s) p")
      case True
      then obtain w where "w \<in> owners (view s) p" "w \<noteq> u" using c(4) by blast
      then have "w \<in> owners (view s') q"
        using True calculation(1) by (auto simp: owners_def members_upd_def)
      then show ?thesis by blast
    next
      case False
      obtain w where w: "w \<in> owners (view s) q" using owned_ex [OF assms(2) ex] by blast
      then have "w \<in> owners (view s') q"
        using False calculation(1) by (auto simp: owners_def members_upd_def)
      then show ?thesis by blast
    qed
    ultimately show ?thesis using owned_remove [OF assms(2), of p u] by simp
  qed
qed

lemma reach_owned:
  "prs_reach L S (\<lambda>s p. fst (view s) p \<noteq> None) s0 s \<Longrightarrow> consistent s0 \<Longrightarrow> owned (view s0) \<Longrightarrow>
     consistent s \<and> owned (view s)"
proof (induction rule: prs_reach.induct)
  case (reach_create s fresh userID name now now')
  then show ?case using Create_owned(1) [OF _ _ _ prod.collapse [symmetric]] by blast
next
  case (reach_update s userID projectID name now)
  then show ?case using Update_owned [OF _ _ prod.collapse [symmetric]] by blast
next
  case (reach_delete s userID projectID)
  then show ?case using Delete_owned [OF _ _ prod.collapse [symmetric]] by blast
next
  case (reach_add s actorID projectID memberID roleStr now)
  then show ?case using AddMember_owned [OF _ _ prod.collapse [symmetric]] by blast
next
  case (reach_remove s actorID projectID memberID)
  then show ?case using RemoveMember_owned [OF _ _ prod.collapse [symmetric]] by blast
qed simp

text \<open>Without ownership, none of the four privileged calls changes the repository.\<close>

lemma non_owner_changes_nothing:
  assumes "consistent s" "u \<notin> owners (view s) p"
  shows "\<exists>e s'. prs_Update S u p name now s = (Inl e, s') \<and> view s' = view s"
    and "\<exists>e s'. prs_Delete L S u p s = (Inl e, s') \<and> view s' = view s"
    and "\<exists>e s'. prs_AddMember L S u p m roleStr now s = (Inl e, s') \<and> view s' = view s"
    and "\<exists>e s'. prs_RemoveMember S u p m s = (Inl e, s') \<and> view s' = view s"
proof -
  note g = gated_by_owner [OF assms]
  show "\<exists>e s'. prs_Update S u p name now s = (Inl e, s') \<and> view s' = view s"
    "\<exists>e s'. prs_Delete L S u p s = (Inl e, s') \<and> view s' = view s"
    "\<exists>e s'. prs_AddMember L S u p m roleStr now s = (Inl e, s') \<and> view s' = view s"
    unfolding prs_Update_def prs_Delete_def prs_AddMember_def by (rule g)+
  have "\<exists>e s'. prs_RemoveMember_checks S u p m s = (Inl e, s') \<and> view s' = view s"
    unfolding prs_RemoveMember_checks_def by (rule g)
  then show "\<exists>e s'. prs_RemoveMember S u p m s = (Inl e, s') \<and> view s' = view s"
    by (auto simp: prs_RemoveMember_def andthen_def)
qed

end

end
