(* ===== verification/Sample_Lib.thy ===== *)
theory Sample_Lib
  imports Pagination
begin

text \<open>
  One concrete instance of the library parameters (decimal texts for instants and identifiers), used
  by the witnesses: the assumptions \<open>golib_ok\<close> makes about the Go library can hold together.
\<close>

lemma digit_val_char: "d < 10 \<Longrightarrow> digit_val (digit_char d) = Some d"
  by (simp add: digit_val_def digit_char_def Let_def)

lemma digit_char_dec: "d < 10 \<Longrightarrow> 48 \<le> (of_char (digit_char d) :: nat) \<and> (of_char (digit_char d) :: nat) \<le> 57"
  by (simp add: digit_char_def)

lemma digits_rev_bound: "2 \<le> b \<Longrightarrow> d \<in> set (digits_rev b n) \<Longrightarrow> d < b"
proof (induction b n rule: digits_rev.induct)
  case (1 b n)
  then show ?case by (subst (asm) digits_rev.simps) (auto split: if_splits)
qed

lemma parse_digits_append:
  "parse_digits acc (xs @ ys) =
     (case parse_digits acc xs of None \<Rightarrow> None | Some a \<Rightarrow> parse_digits a ys)"
  by (induction acc xs rule: parse_digits.induct) (auto split: option.splits)

lemma parse_digits_rev:
  "parse_digits 0 (map digit_char (rev (digits_rev 10 n))) = Some n"
proof (induction "10::nat" n rule: digits_rev.induct)
  case (1 n)
  show ?case
  proof (cases "n < 10")
    case True
    then show ?thesis by (subst digits_rev.simps) (simp add: digit_val_char)
  next
    case False
    then show ?thesis using 1
      by (subst digits_rev.simps) (simp add: parse_digits_append digit_val_char)
  qed
qed

lemma parse_show_nat: "parse_digits 0 (show_nat n) = Some n"
  by (simp add: show_nat_def parse_digits_rev)

lemma show_nat_chars: "c \<in> set (show_nat n) \<Longrightarrow> 48 \<le> (of_char c :: nat) \<and> (of_char c :: nat) \<le> 57"
  using digits_rev_bound [of 10] by (auto simp: show_nat_def digit_char_dec)

lemma show_nat_not: "c \<in> set (show_nat n) \<Longrightarrow> c \<noteq> CHR ''-'' \<and> c \<noteq> CHR ''|''"
  using show_nat_chars by fastforce

definition sample_lib :: golib where
  "sample_lib =
     \<lparr>lower_unicode = (\<lambda>s. s),
      uuid_string = (\<lambda>u. show_nat (unat u)),
      uuid_parse = (\<lambda>s. case parse_digits 0 s of Some n \<Rightarrow> Inr (word_of_nat n)
                        | None \<Rightarrow> Inl (ErrOther ''invalid UUID'')),
      time_format = show_int,
      time_parse = (\<lambda>s. case (case s of c # cs \<Rightarrow> if c = CHR ''-'' then map_option (\<lambda>n. - int n) (parse_digits 0 cs)
                                             else map_option int (parse_digits 0 s)
                              | [] \<Rightarrow> None) of
                        Some t \<Rightarrow> Inr t | None \<Rightarrow> Inl (ErrOther ''parsing time'')),
      mail_parse = (\<lambda>s. if CHR ''@'' \<in> set s then None else Some (ErrOther ''mail: missing @'')),
      sha256_hex = (\<lambda>s. CHR ''h'' # s)\<rparr>"

lemma show_nat_ne: "show_nat n \<noteq> []"
  by (simp add: show_nat_def) (subst digits_rev.simps, simp)

lemma sample_time: "time_parse sample_lib (time_format sample_lib t) = Inr t"
proof (cases "t < 0")
  case True
  then show ?thesis by (simp add: sample_lib_def show_int_def parse_show_nat)
next
  case False
  obtain c cs where c: "show_nat (nat t) = c # cs" using show_nat_ne neq_Nil_conv by metis
  then have "c \<noteq> CHR ''-''" using show_nat_not [of c "nat t"] by simp
  moreover have "parse_digits 0 (c # cs) = Some (nat t)" using parse_show_nat [of "nat t"] c by simp
  ultimately show ?thesis using False c by (simp add: sample_lib_def show_int_def)
qed

lemma sample_lib_ok: "golib_ok sample_lib"
proof -
  have "CHR ''|'' \<notin> set (time_format sample_lib t)" for t
    using show_nat_not by (auto simp: sample_lib_def show_int_def)
  moreover have "uuid_parse sample_lib (uuid_string sample_lib u) = Inr u \<and> CHR ''|'' \<notin> set (uuid_string sample_lib u)" for u
    using show_nat_not by (auto simp: sample_lib_def parse_show_nat)
  ultimately show ?thesis by (simp add: golib_ok_def sample_time)
qed

end
