(* ===== verification/Projects_Memory.thy ===== *)
theory Projects_Memory
  imports Projects Sample_Lib
begin

text \<open>
  The in-memory project repository (\<open>internal/projects/adapter/memory/memory.go\<close>, \<open>list.go\<close>): its two
  maps, its operations, the interpretations of \<open>project_store\<close> and of the listing interface on it, and
  the properties of the project service over it.
\<close>

record pmem =
  pm_projects :: "(uuid, project) gomap"
  pm_members :: "(uuid, (uuid, member) gomap) gomap"

definition pmem_new :: pmem where
  "pmem_new = \<lparr>pm_projects = [], pm_members = []\<rparr>"

definition pmem_CreateWithOwner :: "project \<Rightarrow> member \<Rightarrow> (pmem, project) op" where
  "pmem_CreateWithOwner p owner r =
     (Inr p, r\<lparr>pm_projects := m_set (prj_ID p) p (pm_projects r),
               pm_members := m_set (prj_ID p) [(mb_UserID owner, owner)] (pm_members r)\<rparr>)"

definition pmem_GetByID :: "uuid \<Rightarrow> (pmem, project) op" where
  "pmem_GetByID ident r =
     (case m_get (pm_projects r) ident of None \<Rightarrow> Inl (ErrNotFound Projects) | Some p \<Rightarrow> Inr p, r)"

definition pmem_Update :: "project \<Rightarrow> (pmem, project) op" where
  "pmem_Update p r =
     (if m_get (pm_projects r) (prj_ID p) = None then (Inl (ErrNotFound Projects), r)
      else (Inr p, r\<lparr>pm_projects := m_set (prj_ID p) p (pm_projects r)\<rparr>))"

definition pmem_Delete :: "uuid \<Rightarrow> (pmem, unit) op" where
  "pmem_Delete ident r =
     (if m_get (pm_projects r) ident = None then (Inl (ErrNotFound Projects), r)
      else (Inr (), r\<lparr>pm_projects := m_del ident (pm_projects r), pm_members := m_del ident (pm_members r)\<rparr>))"

definition pmem_GetMembership :: "uuid \<Rightarrow> uuid \<Rightarrow> (pmem, member) op" where
  "pmem_GetMembership projectID userID r =
     (case m_get (pm_members r) projectID of
        None \<Rightarrow> Inl (ErrNotFound Projects)
      | Some ms \<Rightarrow> (case m_get ms userID of None \<Rightarrow> Inl (ErrNotFound Projects) | Some m \<Rightarrow> Inr m), r)"

definition pmem_AddMember :: "member \<Rightarrow> (pmem, unit) op" where
  "pmem_AddMember m r =
     (case m_get (pm_members r) (mb_ProjectID m) of
        None \<Rightarrow> (Inl (ErrNotFound Projects), r)
      | Some ms \<Rightarrow>
          if m_get ms (mb_UserID m) \<noteq> None then (Inl ErrAlreadyMember, r)
          else (Inr (), r\<lparr>pm_members := m_set (mb_ProjectID m) (m_set (mb_UserID m) m ms) (pm_members r)\<rparr>))"

definition pmem_RemoveMember :: "uuid \<Rightarrow> uuid \<Rightarrow> (pmem, unit) op" where
  "pmem_RemoveMember projectID userID r =
     (case m_get (pm_members r) projectID of
        None \<Rightarrow> (Inl (ErrNotFound Projects), r)
      | Some ms \<Rightarrow>
          if m_get ms userID = None then (Inl (ErrNotFound Projects), r)
          else (Inr (), r\<lparr>pm_members := m_set projectID (m_del userID ms) (pm_members r)\<rparr>))"

definition pmem_CountOwners :: "uuid \<Rightarrow> (pmem, int) op" where
  "pmem_CountOwners projectID r =
     (case m_get (pm_members r) projectID of
        None \<Rightarrow> Inl (ErrNotFound Projects)
      | Some ms \<Rightarrow> Inr (int (length (filter (\<lambda>m. mb_Role m = RoleOwner) (m_vals ms)))), r)"

text \<open>A members entry without its project lists Go's zero project.\<close>

definition zero_project :: project where
  "zero_project = \<lparr>prj_ID = 0, prj_Name = [], prj_CreatedBy = 0,
     prj_CreatedAt = - 62135596800 * second, prj_UpdatedAt = - 62135596800 * second\<rparr>"

definition pmem_matches :: "uuid \<Rightarrow> pmem \<Rightarrow> project_with_role list" where
  "pmem_matches userID r =
     List.map_filter (\<lambda>(pid, ms). case m_get ms userID of
         None \<Rightarrow> None
       | Some m \<Rightarrow> Some \<lparr>pwr_Project = (case m_get (pm_projects r) pid of Some p \<Rightarrow> p | None \<Rightarrow> zero_project),
                         pwr_Role = mb_Role m\<rparr>) (pm_members r)"

definition pwr_key :: "project_with_role \<Rightarrow> go_time \<times> uuid" where
  "pwr_key x = (prj_CreatedAt (pwr_Project x), prj_ID (pwr_Project x))"

definition mb_key :: "member \<Rightarrow> go_time \<times> uuid" where
  "mb_key m = (mb_CreatedAt m, mb_UserID m)"

definition pmem_ListForUser ::
    "golib \<Rightarrow> uuid \<Rightarrow> page \<Rightarrow> (pmem, project_with_role page_result) op" where
  "pmem_ListForUser L userID p r = (list_desc L (key_text L) pwr_key p (pmem_matches userID r), r)"

definition pmem_ListMembers :: "golib \<Rightarrow> uuid \<Rightarrow> page \<Rightarrow> (pmem, member page_result) op" where
  "pmem_ListMembers L projectID p r =
     (case m_get (pm_members r) projectID of
        None \<Rightarrow> Inl (ErrNotFound Projects)
      | Some ms \<Rightarrow> list_asc L (key_text L) mb_key p (m_vals ms), r)"

definition pmem_repo :: "golib \<Rightarrow> pmem project_repository" where
  "pmem_repo L =
     \<lparr>pr_CreateWithOwner = pmem_CreateWithOwner, pr_GetByID = pmem_GetByID,
      pr_ListForUser = pmem_ListForUser L, pr_Update = pmem_Update, pr_Delete = pmem_Delete,
      pr_GetMembership = pmem_GetMembership, pr_AddMember = pmem_AddMember,
      pr_RemoveMember = pmem_RemoveMember, pr_ListMembers = pmem_ListMembers L,
      pr_CountOwners = pmem_CountOwners\<rparr>"

lemmas pmem_defs = pmem_CreateWithOwner_def pmem_GetByID_def pmem_Update_def pmem_Delete_def
  pmem_GetMembership_def pmem_AddMember_def pmem_RemoveMember_def pmem_CountOwners_def
  pmem_ListForUser_def pmem_ListMembers_def

section \<open>The store meets its interface\<close>

definition pmem_ok :: "pmem \<Rightarrow> bool" where
  "pmem_ok r \<longleftrightarrow> m_wf (pm_projects r) \<and> m_wf (pm_members r)
     \<and> (\<forall>p q. m_get (pm_projects r) p = Some q \<longrightarrow> prj_ID q = p)
     \<and> (\<forall>p ms. m_get (pm_members r) p = Some ms \<longrightarrow> m_get (pm_projects r) p \<noteq> None \<and> m_wf ms
          \<and> (\<forall>u m. m_get ms u = Some m \<longrightarrow> mb_UserID m = u))"

definition pmem_view :: "pmem \<Rightarrow> projects_view" where
  "pmem_view r = (map_of (pm_projects r),
     \<lambda>p u. case m_get (pm_members r) p of None \<Rightarrow> None | Some ms \<Rightarrow> m_get ms u)"

lemma pmem_ok_Create: "preserves pmem_ok (pmem_CreateWithOwner q w)"
  by (auto simp: preserves_def pmem_ok_def pmem_CreateWithOwner_def)

lemma pmem_ok_Update: "preserves pmem_ok (pmem_Update q)"
  by (auto simp: preserves_def pmem_ok_def pmem_Update_def)

lemma pmem_ok_Delete: "preserves pmem_ok (pmem_Delete p)"
  by (auto simp: preserves_def pmem_ok_def pmem_Delete_def)

lemma pmem_ok_AddMember: "preserves pmem_ok (pmem_AddMember w)"
  by (auto simp: preserves_def pmem_ok_def pmem_AddMember_def split: option.splits if_splits)

lemma pmem_ok_RemoveMember: "preserves pmem_ok (pmem_RemoveMember p u)"
  by (auto simp: preserves_def pmem_ok_def pmem_RemoveMember_def split: option.splits if_splits)

lemma card_owners_list:
  assumes "m_wf ms"
  shows "length (filter (\<lambda>m. mb_Role m = RoleOwner) (m_vals ms))
     = card {u. \<exists>m. map_of ms u = Some m \<and> mb_Role m = RoleOwner}"
proof -
  let ?P = "\<lambda>(u, m). mb_Role m = RoleOwner"
  have "distinct (map fst (filter ?P ms))"
    using assms by (simp add: m_wf_def distinct_map_filter)
  then have "card (fst ` set (filter ?P ms)) = length (filter ?P ms)"
    by (metis distinct_card length_map set_map)
  moreover have "fst ` set (filter ?P ms) = {u. \<exists>m. map_of ms u = Some m \<and> mb_Role m = RoleOwner}"
    using assms by (force simp: m_wf_def)
  moreover have "length (filter (\<lambda>m. mb_Role m = RoleOwner) (m_vals ms)) = length (filter ?P ms)"
    by (simp add: m_vals_def filter_map comp_def case_prod_unfold)
  ultimately show ?thesis by simp
qed

lemma pmem_count:
  "pmem_ok r \<Longrightarrow> pmem_CountOwners p r = (Inr n, r') \<Longrightarrow> n = int (card (owners (pmem_view r) p))"
  by (auto simp: pmem_CountOwners_def pmem_ok_def owners_def pmem_view_def is_owner_def
      card_owners_list split: option.splits)

lemmas pmem_store = pmem_ok_Create pmem_ok_Update pmem_ok_Delete pmem_ok_AddMember
  pmem_ok_RemoveMember pmem_count

interpretation pmem: project_store "pmem_repo L" pmem_ok pmem_view
  by unfold_locales
    (auto simp: pmem_repo_def pmem_store,
     auto simp: pmem_defs keeps_def pmem_view_def members_upd_def pmem_ok_def fun_eq_iff
       split: option.splits if_splits)

section \<open>Listing\<close>

definition pmem_listable :: "pmem \<Rightarrow> bool" where
  "pmem_listable r \<longleftrightarrow> pmem_ok r
     \<and> (\<forall>p q. m_get (pm_projects r) p = Some q \<longrightarrow> time_ok (prj_CreatedAt q))
     \<and> (\<forall>p ms u m. m_get (pm_members r) p = Some ms \<longrightarrow> m_get ms u = Some m \<longrightarrow> time_ok (mb_CreatedAt m))"

definition pd_key :: "project_dto \<Rightarrow> go_time \<times> uuid" where
  "pd_key d = (pd_CreatedAt d, pd_ID d)"

definition pmem_projects_of :: "uuid \<Rightarrow> pmem \<Rightarrow> project_dto list" where
  "pmem_projects_of userID r = map (\<lambda>x. project_toDTO (pwr_Project x) (pwr_Role x)) (pmem_matches userID r)"

lemma pmem_match_project:
  assumes "pmem_ok r" "(pid, ms) \<in> set (pm_members r)"
  shows "\<exists>q. map_of (pm_projects r) pid = Some q \<and> prj_ID q = pid"
proof -
  have "map_of (pm_members r) pid = Some ms" using assms by (simp add: pmem_ok_def m_wf_def)
  then show ?thesis using assms(1) by (fastforce simp: pmem_ok_def)
qed

lemma pmem_matches_rows:
  assumes "pmem_listable r"
  shows "distinct (map pwr_key (pmem_matches userID r)) \<and> (\<forall>x\<in>set (pmem_matches userID r). time_ok (fst (pwr_key x)))"
proof -
  have ok: "pmem_ok r" using assms by (simp add: pmem_listable_def)
  then have "distinct (map fst (pm_members r))" by (simp add: pmem_ok_def m_wf_def)
  then have "distinct (map (\<lambda>x. snd (pwr_key x)) (pmem_matches userID r))"
    unfolding pmem_matches_def
    by (rule distinct_map_filter_key)
      (use pmem_match_project [OF ok] in \<open>fastforce simp: pwr_key_def split: prod.splits option.splits\<close>)
  then have "distinct (map snd (map pwr_key (pmem_matches userID r)))" by (simp add: comp_def)
  then have "distinct (map pwr_key (pmem_matches userID r))" by (simp only: distinct_map)
  moreover have "\<forall>x\<in>set (pmem_matches userID r). time_ok (fst (pwr_key x))"
    using assms pmem_match_project [OF ok]
    by (fastforce simp: pmem_matches_def map_filter_def pwr_key_def pmem_listable_def split: option.splits)
  ultimately show ?thesis by blast
qed

lemma pmem_dto_rows:
  "pmem_listable r \<Longrightarrow> distinct (map pd_key (pmem_projects_of userID r))
     \<and> (\<forall>x\<in>set (pmem_projects_of userID r). time_ok (fst (pd_key x)))"
  using pmem_matches_rows [of r userID]
  by (simp add: pmem_projects_of_def comp_def pd_key_def project_toDTO_def flip: pwr_key_def)
     (simp add: pwr_key_def)

lemma pmem_service_list:
  "ps_repo S = pmem_repo L \<Longrightarrow>
     fst (prs_List S userID p r) = list_desc L (key_text L) pd_key p (pmem_projects_of userID r)"
  unfolding pmem_projects_of_def
  by (subst list_desc_map [where key' = pwr_key])
     (auto simp: pd_key_def pwr_key_def project_toDTO_def prs_List_def pmem_repo_def
        pmem_ListForUser_def andthen_def split: sum.splits)

interpretation user_projects: keyset_listing L pd_key "\<lambda>c k. key_text L k < key_text L c" pmem_listable
    "\<lambda>r. sort_newest (key_text L) pd_key (pmem_projects_of userID r)"
    "\<lambda>p r. fst (prs_List \<lparr>ps_repo = pmem_repo L, ps_objects = ob, ps_listCfg = cfg\<rparr> userID p r)"
  by (rule keyset_listing_desc) (simp_all add: key_text_inj pmem_dto_rows pmem_service_list)

lemma pmem_service:
  assumes "ps_repo S = pmem_repo L"
    and "\<And>ob pre. ps_objects S = Some ob \<Longrightarrow> keeps (\<lambda>r. r) (po_DeletePrefix ob pre)"
  shows "project_service (pmem_repo L) pmem_ok pmem_view S"
  using assms by unfold_locales (auto simp: keeps_def)

interpretation pmem_svc: project_service "pmem_repo L" pmem_ok pmem_view
    "\<lparr>ps_repo = pmem_repo L, ps_objects = None, ps_listCfg = cfg\<rparr>"
  by (rule pmem_service) simp_all

lemma pmem_new_ok: "pmem_ok pmem_new" "owned (pmem_view pmem_new)"
  by (simp_all add: pmem_ok_def pmem_new_def owned_def pmem_view_def)

section \<open>Properties\<close>

text \<open>
  C1: whatever calls users make, in whatever order, every project of the repository has an owner, and
  every member belongs to a project: \<open>Create\<close> makes its caller the owner, and \<open>RemoveMember\<close> refuses
  to remove the last one.
\<close>

theorem projects_keep_an_owner:
  assumes "ps_repo S = pmem_repo L"
    and "\<And>ob pre. ps_objects S = Some ob \<Longrightarrow> keeps (\<lambda>r. r) (po_DeletePrefix ob pre)"
    and "prs_reach L S (\<lambda>r p. m_get (pm_projects r) p \<noteq> None) pmem_new r"
  shows "owned (pmem_view r)"
proof -
  have "prs_reach L S (\<lambda>r p. fst (pmem_view r) p \<noteq> None) pmem_new r"
    using assms(3) by (simp add: pmem_view_def)
  then show ?thesis
    using project_service.reach_owned [OF pmem_service [OF assms(1,2)]] pmem_new_ok by blast
qed

text \<open>The service the witnesses use, and a repository with two owners of one project.\<close>

definition sample_svc :: "pmem projects_service" where
  "sample_svc = \<lparr>ps_repo = pmem_repo sample_lib, ps_objects = None,
     ps_listCfg = \<lparr>lc_DefaultLimit = 50, lc_MaxLimit = 100\<rparr>\<rparr>"

definition two_owners :: pmem where
  "two_owners = snd (prs_AddMember sample_lib sample_svc 1 7 2 ''Owner '' 5
     (snd (prs_Create sample_svc 1 '' demo'' 3 7 4 pmem_new)))"

lemma two_owners_eq:
  "two_owners =
     \<lparr>pm_projects = [(7, \<lparr>prj_ID = 7, prj_Name = ''demo'', prj_CreatedBy = 1, prj_CreatedAt = 3, prj_UpdatedAt = 3\<rparr>)],
      pm_members = [(7, [(1, \<lparr>mb_ProjectID = 7, mb_UserID = 1, mb_Role = RoleOwner, mb_CreatedAt = 4\<rparr>),
                         (2, \<lparr>mb_ProjectID = 7, mb_UserID = 2, mb_Role = RoleOwner, mb_CreatedAt = 5\<rparr>)])]\<rparr>"
  by code_simp

theorem projects_keep_an_owner_witness: "owned (pmem_view two_owners)"
  unfolding two_owners_def
  by (rule projects_keep_an_owner [where S = sample_svc])
     (auto simp: sample_svc_def pmem_new_def intro!: reach_add reach_create reach_start)

text \<open>
  C2: a user who does not own a project cannot change it: \<open>Update\<close>, \<open>Delete\<close>, \<open>AddMember\<close> and
  \<open>RemoveMember\<close> all return an error and leave the repository as it was.
\<close>

theorem non_owner_cannot_change:
  assumes "ps_repo S = pmem_repo L" "ps_objects S = None"
    and "pmem_ok r" "\<forall>m. snd (pmem_view r) p u = Some m \<longrightarrow> mb_Role m \<noteq> RoleOwner"
  shows "(\<exists>e s'. prs_Update S u p name now r = (Inl e, s') \<and> pmem_view s' = pmem_view r)
       \<and> (\<exists>e s'. prs_Delete L S u p r = (Inl e, s') \<and> pmem_view s' = pmem_view r)
       \<and> (\<exists>e s'. prs_AddMember L S u p w roleStr now r = (Inl e, s') \<and> pmem_view s' = pmem_view r)
       \<and> (\<exists>e s'. prs_RemoveMember S u p w r = (Inl e, s') \<and> pmem_view s' = pmem_view r)"
proof -
  have u: "u \<notin> owners (pmem_view r) p" using assms(4) by (auto simp: owners_def is_owner_def)
  have svc: "project_service (pmem_repo L) pmem_ok pmem_view S"
    by (rule pmem_service) (simp_all add: assms)
  show ?thesis
    by (intro conjI project_service.non_owner_changes_nothing [OF svc assms(3) u])
qed

theorem non_owner_cannot_change_witness:
  "\<exists>e s'. prs_RemoveMember sample_svc 3 7 1 two_owners = (Inl e, s') \<and> pmem_view s' = pmem_view two_owners"
proof -
  have "pmem_ok two_owners" by (simp add: two_owners_eq pmem_ok_def m_wf_Cons)
  then show ?thesis
    using non_owner_cannot_change [of sample_svc sample_lib two_owners 7 3]
    by (simp add: sample_svc_def pmem_view_def two_owners_eq)
qed


text \<open>
  C4: a user who follows \<open>next_cursor\<close> from the first page on gets each of their projects once, newest
  first, however many pages that takes.
\<close>

theorem listing_projects_is_complete:
  assumes "golib_ok L" "pmem_listable r" "1 \<le> pg_Limit p" "pg_Cursor p = []"
    and "length (pmem_projects_of userID r) < n"
  shows "walk_pages n (\<lambda>q. fst (prs_List \<lparr>ps_repo = pmem_repo L, ps_objects = ob, ps_listCfg = cfg\<rparr> userID q r)) p
     = Some (Inr (sort_newest (key_text L) pd_key (pmem_projects_of userID r)))"
  using assms by (intro user_projects.walk_complete) (simp_all add: sort_newest_def)

theorem listing_projects_is_complete_witness:
  "walk_pages 3 (\<lambda>q. fst (prs_List sample_svc 1 q two_owners)) \<lparr>pg_Limit = 1, pg_Cursor = [], pg_Order = Desc\<rparr>
     = Some (Inr (sort_newest (key_text sample_lib) pd_key (pmem_projects_of 1 two_owners)))"
  unfolding sample_svc_def
  by (rule listing_projects_is_complete)
    (auto simp: sample_lib_ok pmem_listable_def pmem_ok_def pmem_projects_of_def pmem_matches_def
      map_filter_simps two_owners_eq time_ok_def m_wf_Cons split: if_splits)

end
