(* ===== verification/Recordings.thy ===== *)
theory Recordings
  imports Go_Strings
begin

text \<open>
  \<open>internal/uploads/domain/recording.go\<close>: a recording, its status machine and the event that starts
  the pipeline. The lemmas show that the machine never re-enters \<open>UPLOADING\<close>, that \<open>READY\<close> is final,
  and which statuses a run of legal transitions can reach.
\<close>

section \<open>Status and its legal transitions\<close>

datatype rec_status = UPLOADING | UPLOADED | PROCESSING | READY | FAILED

fun status_text :: "rec_status \<Rightarrow> string" where
  "status_text UPLOADING = ''UPLOADING''"
| "status_text UPLOADED = ''UPLOADED''"
| "status_text PROCESSING = ''PROCESSING''"
| "status_text READY = ''READY''"
| "status_text FAILED = ''FAILED''"

text \<open>The table \<open>allowed\<close>; a status without an entry (\<open>READY\<close>) allows nothing.\<close>

fun allowed :: "rec_status \<Rightarrow> rec_status \<Rightarrow> bool" where
  "allowed UPLOADING UPLOADED = True"
| "allowed UPLOADING FAILED = True"
| "allowed UPLOADED PROCESSING = True"
| "allowed UPLOADED FAILED = True"
| "allowed PROCESSING READY = True"
| "allowed PROCESSING FAILED = True"
| "allowed FAILED PROCESSING = True"
| "allowed _ _ = False"

section \<open>The recording\<close>

record recording =
  rec_ID :: uuid
  rec_ProjectID :: uuid
  rec_CreatedBy :: uuid
  rec_Status :: rec_status
  rec_StorageKey :: string
  rec_ContentType :: string
  rec_ByteSize :: "int option"
  rec_Checksum :: string
  rec_Metadata :: bytes
  rec_CorrelationID :: string
  rec_CreatedAt :: go_time
  rec_UpdatedAt :: go_time

text \<open>\<open>Transition\<close> changes the receiver; on an error it leaves it as it was.\<close>

definition transition :: "rec_status \<Rightarrow> go_time \<Rightarrow> recording \<Rightarrow> err + recording" where
  "transition dest now r =
     (if rec_Status r = dest then Inr r
      else if \<not> allowed (rec_Status r) dest then Inl ErrIllegalTransition
      else Inr (r\<lparr>rec_Status := dest, rec_UpdatedAt := now\<rparr>))"

definition is_uploaded_or_beyond :: "recording \<Rightarrow> bool" where
  "is_uploaded_or_beyond r =
     (case rec_Status r of UPLOADED \<Rightarrow> True | PROCESSING \<Rightarrow> True | READY \<Rightarrow> True | _ \<Rightarrow> False)"

definition TopicRecordingUploaded :: string where
  "TopicRecordingUploaded = ''bugsathi.recording.uploaded''"

record uploaded_event =
  ue_SchemaVersion :: int
  ue_RecordingID :: string
  ue_ProjectID :: string
  ue_ObjectKey :: string
  ue_ContentType :: string
  ue_ByteSize :: int
  ue_Checksum :: string
  ue_Metadata :: bytes
  ue_CorrelationID :: string
  ue_OccurredAt :: go_time

section \<open>Facts about the status machine\<close>

lemma allowed_iff:
  "allowed a b \<longleftrightarrow> (a, b) \<in> {(UPLOADING, UPLOADED), (UPLOADING, FAILED), (UPLOADED, PROCESSING),
     (UPLOADED, FAILED), (PROCESSING, READY), (PROCESSING, FAILED), (FAILED, PROCESSING)}"
  by (cases a; cases b) auto

lemma beyond_not_uploading: "is_uploaded_or_beyond r \<Longrightarrow> rec_Status r \<noteq> UPLOADING"
  by (auto simp: is_uploaded_or_beyond_def)

lemma allowed_irrefl [simp]: "\<not> allowed a a"
  by (cases a) auto

lemma transition_Inr:
  "transition dest now r = Inr r' \<Longrightarrow>
     rec_Status r' = dest \<and> (rec_Status r = dest \<and> r' = r \<or>
       allowed (rec_Status r) dest \<and> r' = r\<lparr>rec_Status := dest, rec_UpdatedAt := now\<rparr>)"
  by (auto simp: transition_def split: if_splits)

lemma transition_Inl:
  "transition dest now r = Inl e \<Longrightarrow>
     e = ErrIllegalTransition \<and> rec_Status r \<noteq> dest \<and> \<not> allowed (rec_Status r) dest"
  by (auto simp: transition_def split: if_splits)

text \<open>Runs of the machine: what a sequence of requested transitions does, stopping at the first error.\<close>

fun run_transitions :: "(rec_status \<times> go_time) list \<Rightarrow> recording \<Rightarrow> err + recording" where
  "run_transitions [] r = Inr r"
| "run_transitions ((dest, now) # ts) r =
     (case transition dest now r of Inl e \<Rightarrow> Inl e | Inr r' \<Rightarrow> run_transitions ts r')"

text \<open>A rank that a legal run never lowers back to an upload in progress.\<close>

definition upload_done :: "rec_status \<Rightarrow> bool" where
  "upload_done st \<longleftrightarrow> st \<noteq> UPLOADING"

lemma transition_upload_done:
  "transition dest now r = Inr r' \<Longrightarrow> upload_done (rec_Status r) \<Longrightarrow> upload_done (rec_Status r')"
  by (auto simp: upload_done_def allowed_iff dest: transition_Inr)

lemma run_upload_done:
  "run_transitions ts r = Inr r' \<Longrightarrow> upload_done (rec_Status r) \<Longrightarrow> upload_done (rec_Status r')"
proof (induction ts r rule: run_transitions.induct)
  case (2 dest now ts r)
  then show ?case by (auto split: sum.splits dest: transition_upload_done)
qed simp

lemma run_ready_stays:
  "run_transitions ts r = Inr r' \<Longrightarrow> rec_Status r = READY \<Longrightarrow> r' = r"
proof (induction ts r rule: run_transitions.induct)
  case (2 dest now ts r)
  then show ?case by (auto simp: transition_def allowed_iff split: sum.splits if_splits)
qed simp

lemma run_keeps_identity:
  "run_transitions ts r = Inr r' \<Longrightarrow>
     r' = r\<lparr>rec_Status := rec_Status r', rec_UpdatedAt := rec_UpdatedAt r'\<rparr>"
proof (induction ts r rule: run_transitions.induct)
  case (2 dest now ts r)
  from "2.prems" obtain m where m: "transition dest now r = Inr m" and run: "run_transitions ts m = Inr r'"
    by (auto split: sum.splits)
  from m have "m = r\<lparr>rec_Status := rec_Status m, rec_UpdatedAt := rec_UpdatedAt m\<rparr>"
    by (auto simp: transition_def split: if_splits)
  moreover from "2.IH" [OF m run]
  have "r' = m\<lparr>rec_Status := rec_Status r', rec_UpdatedAt := rec_UpdatedAt r'\<rparr>" .
  ultimately show ?case by (cases r, cases m, cases r') simp
qed simp

end
