(* ===== verification/Uploads.thy ===== *)
theory Uploads
  imports Recordings Projects
begin

text \<open>
  \<open>internal/uploads\<close>: the ports (\<open>port/port.go\<close>) and the service (\<open>service/service.go\<close>).

  The locale \<open>recording_store\<close> is the service's interface to its repository, \<open>upload_service\<close> adds the
  service and what it needs of storage and authorisation. Its lemmas show that completing an upload
  changes the status and writes the outbox row together and at most once, that the sweep removes only
  abandoned uploads, and that reprocessing adds one event and changes no recording.
\<close>

section \<open>Ports\<close>

record 's recording_repository =
  rr_Create :: "recording \<Rightarrow> ('s, recording) op"
  rr_Get :: "uuid \<Rightarrow> ('s, recording) op"
  rr_Update :: "recording \<Rightarrow> ('s, recording) op"
  rr_CompleteWithOutbox :: "recording \<Rightarrow> string \<Rightarrow> string \<Rightarrow> bytes \<Rightarrow> string \<Rightarrow> ('s, recording) op"
  rr_InsertOutbox :: "string \<Rightarrow> string \<Rightarrow> bytes \<Rightarrow> string \<Rightarrow> ('s, unit) op"
  rr_ListAbandonedUploading :: "go_time \<Rightarrow> int \<Rightarrow> ('s, recording list) op"
  rr_DeleteIfStatus :: "uuid \<Rightarrow> rec_status \<Rightarrow> ('s, unit) op"
  rr_Delete :: "uuid \<Rightarrow> ('s, unit) op"

record outbox_message =
  om_ID :: int
  om_Topic :: string
  om_PartitionKey :: string
  om_Payload :: bytes
  om_CorrelationID :: string
  om_CreatedAt :: go_time

record object_meta =
  om_Size :: int
  om_ContentType :: string
  om_ETag :: string

record 's object_storage =
  os_PresignPut :: "string \<Rightarrow> string \<Rightarrow> duration \<Rightarrow> ('s, string) op"
  os_Stat :: "string \<Rightarrow> ('s, object_meta) op"
  os_Delete :: "string \<Rightarrow> ('s, unit) op"
  os_DeletePrefix :: "string \<Rightarrow> ('s, unit) op"

record 's project_access =
  pa_EnsureMember :: "uuid \<Rightarrow> uuid \<Rightarrow> ('s, unit) op"
  pa_EnsureOwner :: "uuid \<Rightarrow> uuid \<Rightarrow> ('s, unit) op"

section \<open>Service\<close>

text \<open>A nil \<open>storage\<close> is \<open>None\<close>; a call through it panics.\<close>

record 's upload_service =
  us_recordings :: "'s recording_repository"
  us_storage :: "'s object_storage option"
  us_access :: "'s project_access"
  us_presignTTL :: duration
  us_uploadMaxBytes :: int

definition upload_service_new ::
    "'s recording_repository \<Rightarrow> 's object_storage option \<Rightarrow> 's project_access \<Rightarrow> duration \<Rightarrow> 's upload_service" where
  "upload_service_new recordings storage access ttl =
     \<lparr>us_recordings = recordings, us_storage = storage, us_access = access,
      us_presignTTL = (if ttl \<le> 0 then 15 * minute else ttl), us_uploadMaxBytes = 0\<rparr>"

definition with_upload_max_bytes :: "int \<Rightarrow> 's upload_service \<Rightarrow> 's upload_service" where
  "with_upload_max_bytes n S = S\<lparr>us_uploadMaxBytes := n\<rparr>"

record create_input =
  ci_ProjectID :: uuid
  ci_UserID :: uuid
  ci_ContentType :: string
  ci_Filename :: string
  ci_Metadata :: bytes
  ci_CorrelationID :: string

record create_result =
  cr_Recording :: recording
  cr_UploadURL :: string

text \<open>\<open>RecordingDTO\<close> has the fields of \<open>Recording\<close>; \<open>toDTO\<close> copies them one by one.\<close>

type_synonym recording_dto = recording

definition recording_toDTO :: "recording \<Rightarrow> recording_dto" where
  "recording_toDTO r =
     \<lparr>rec_ID = rec_ID r, rec_ProjectID = rec_ProjectID r, rec_CreatedBy = rec_CreatedBy r,
      rec_Status = rec_Status r, rec_StorageKey = rec_StorageKey r, rec_ContentType = rec_ContentType r,
      rec_ByteSize = rec_ByteSize r, rec_Checksum = rec_Checksum r, rec_Metadata = rec_Metadata r,
      rec_CorrelationID = rec_CorrelationID r, rec_CreatedAt = rec_CreatedAt r, rec_UpdatedAt = rec_UpdatedAt r\<rparr>"

lemma recording_toDTO_eq [simp]: "recording_toDTO r = r"
  by (simp add: recording_toDTO_def)

definition allowed_upload_types :: "string \<Rightarrow> bool" where
  "allowed_upload_types ct \<longleftrightarrow> ct \<in> set [''video/webm'', ''video/mp4'', ''video/quicktime'']"

definition normalize_content_type :: "'z golib_scheme \<Rightarrow> string \<Rightarrow> string" where
  "normalize_content_type L ct0 =
     (let ct = to_lower L (trim_space ct0)
      in case cut_byte (CHR '';'') ct of Some (a, b) \<Rightarrow> trim_space a | None \<Rightarrow> ct)"

definition octet_stream :: string where
  "octet_stream = ''application/octet-stream''"

definition extension_for :: "'z golib_scheme \<Rightarrow> string \<Rightarrow> string \<Rightarrow> string" where
  "extension_for L contentType filename0 =
     (let filename = trim_space filename0; ext = path_ext filename
      in if filename \<noteq> [] \<and> ext \<noteq> [] then to_lower L ext
         else if str_contains contentType ''webm'' then ''.webm''
         else if str_contains contentType ''mp4'' then ''.mp4''
         else if str_contains contentType ''quicktime'' then ''.mov''
         else ''.bin'')"

definition recording_prefix :: "'z golib_scheme \<Rightarrow> uuid \<Rightarrow> uuid \<Rightarrow> string" where
  "recording_prefix L projectID ident =
     ''projects/'' @ uuid_string L projectID @ ''/recordings/'' @ uuid_string L ident @ ''/''"

definition nil_call :: "('s, 'a) op" where
  "nil_call = fail (ErrPanic ''invalid memory address or nil pointer dereference'')"

definition ups_new_recording ::
    "'z golib_scheme \<Rightarrow> create_input \<Rightarrow> string \<Rightarrow> uuid \<Rightarrow> go_time \<Rightarrow> string \<Rightarrow> recording" where
  "ups_new_recording L inp ct fresh now ctxCorr =
     (let key = recording_prefix L (ci_ProjectID inp) fresh @ ''source'' @ extension_for L ct (ci_Filename inp);
          corr = ci_CorrelationID inp;
          corr = (if corr = [] then ctxCorr else corr);
          corr = (if corr = [] then uuid_string L fresh else corr);
          meta = (if ci_Metadata inp = [] then ''{}'' else ci_Metadata inp)
      in \<lparr>rec_ID = fresh, rec_ProjectID = ci_ProjectID inp, rec_CreatedBy = ci_UserID inp,
          rec_Status = UPLOADING, rec_StorageKey = key, rec_ContentType = ct, rec_ByteSize = None,
          rec_Checksum = [], rec_Metadata = meta, rec_CorrelationID = corr,
          rec_CreatedAt = now, rec_UpdatedAt = now\<rparr>)"

definition ups_Create ::
    "'z golib_scheme \<Rightarrow> 's upload_service \<Rightarrow> create_input \<Rightarrow> string \<Rightarrow> uuid \<Rightarrow> go_time \<Rightarrow> ('s, create_result) op" where
  "ups_Create L S inp ctxCorr fresh now =
     andthen (pa_EnsureMember (us_access S) (ci_UserID inp) (ci_ProjectID inp)) (\<lambda>_.
     let ct = normalize_content_type L (ci_ContentType inp);
         ct = (if ct = [] then octet_stream else ct)
     in if ct \<noteq> octet_stream \<and> \<not> allowed_upload_types ct then fail (ErrInvalidInput Uploads)
        else let rec = ups_new_recording L inp ct fresh now ctxCorr
        in andthen (rr_Create (us_recordings S) rec) (\<lambda>created.
           case us_storage S of
             None \<Rightarrow> nil_call
           | Some st \<Rightarrow>
               andthen (os_PresignPut st (rec_StorageKey rec) ct (us_presignTTL S)) (\<lambda>url.
               ret \<lparr>cr_Recording = created, cr_UploadURL = url\<rparr>)))"

definition validate_uploaded_content_type :: "'z golib_scheme \<Rightarrow> string \<Rightarrow> string \<Rightarrow> err + unit" where
  "validate_uploaded_content_type L expected0 actual0 =
     (let expected = normalize_content_type L expected0;
          actual = normalize_content_type L actual0
      in if actual = [] \<or> actual = octet_stream then Inr ()
         else if expected = [] \<or> expected = octet_stream then Inr ()
         else if actual \<noteq> expected then Inl ErrContentTypeMismatch
         else Inr ())"

definition uploaded_event_of :: "'z golib_scheme \<Rightarrow> recording \<Rightarrow> int \<Rightarrow> go_time \<Rightarrow> uploaded_event" where
  "uploaded_event_of L r sz now =
     \<lparr>ue_SchemaVersion = 1, ue_RecordingID = uuid_string L (rec_ID r),
      ue_ProjectID = uuid_string L (rec_ProjectID r), ue_ObjectKey = rec_StorageKey r,
      ue_ContentType = rec_ContentType r, ue_ByteSize = sz, ue_Checksum = rec_Checksum r,
      ue_Metadata = rec_Metadata r, ue_CorrelationID = rec_CorrelationID r, ue_OccurredAt = now\<rparr>"

text \<open>Finding a recording of a project, as \<open>Complete\<close>, \<open>Get\<close>, \<open>Reprocess\<close> and \<open>Delete\<close> do.\<close>

definition ups_find :: "'s upload_service \<Rightarrow> uuid \<Rightarrow> uuid \<Rightarrow> ('s, recording) op" where
  "ups_find S projectID recordingID =
     andthen (rr_Get (us_recordings S) recordingID) (\<lambda>rec.
     if rec_ProjectID rec \<noteq> projectID then fail (ErrNotFound Uploads) else ret rec)"

definition ups_Complete ::
    "'z golib_scheme \<Rightarrow> (uploaded_event \<Rightarrow> err + bytes) \<Rightarrow> 's upload_service \<Rightarrow> uuid \<Rightarrow> uuid \<Rightarrow> uuid
       \<Rightarrow> go_time \<Rightarrow> go_time \<Rightarrow> ('s, recording_dto) op" where
  "ups_Complete L enc S userID projectID recordingID now now' =
     andthen (pa_EnsureMember (us_access S) userID projectID) (\<lambda>_.
     andthen (ups_find S projectID recordingID) (\<lambda>rec.
     if is_uploaded_or_beyond rec then ret (recording_toDTO rec)
     else if rec_Status rec \<noteq> UPLOADING then fail ErrIllegalTransition
     else case us_storage S of
       None \<Rightarrow> nil_call
     | Some st \<Rightarrow>
         andthen (map_err (\<lambda>_. ErrObjectMissing) (os_Stat st (rec_StorageKey rec))) (\<lambda>meta.
         if us_uploadMaxBytes S > 0 \<and> om_Size meta > us_uploadMaxBytes S then fail ErrObjectTooLarge
         else andthen (lift_sum (validate_uploaded_content_type L (rec_ContentType rec) (om_ContentType meta))) (\<lambda>_.
         andthen (lift_sum (transition UPLOADED now
             (rec\<lparr>rec_ByteSize := Some (om_Size meta), rec_Checksum := trim_byte (CHR 0x22) (om_ETag meta)\<rparr>))) (\<lambda>rec'.
         andthen (lift_sum (enc (uploaded_event_of L rec' (om_Size meta) now'))) (\<lambda>payload.
         andthen (rr_CompleteWithOutbox (us_recordings S) rec' TopicRecordingUploaded
             (uuid_string L (rec_ID rec')) payload (rec_CorrelationID rec')) (\<lambda>updated.
         ret (recording_toDTO updated))))))))"

definition ups_Get :: "'s upload_service \<Rightarrow> uuid \<Rightarrow> uuid \<Rightarrow> uuid \<Rightarrow> ('s, recording_dto) op" where
  "ups_Get S userID projectID recordingID =
     andthen (pa_EnsureMember (us_access S) userID projectID) (\<lambda>_.
     andthen (ups_find S projectID recordingID) (\<lambda>rec. ret (recording_toDTO rec)))"

definition ups_Reprocess ::
    "'z golib_scheme \<Rightarrow> (uploaded_event \<Rightarrow> err + bytes) \<Rightarrow> 's upload_service \<Rightarrow> uuid \<Rightarrow> uuid \<Rightarrow> uuid
       \<Rightarrow> go_time \<Rightarrow> ('s, recording_dto) op" where
  "ups_Reprocess L enc S userID projectID recordingID now =
     andthen (pa_EnsureOwner (us_access S) userID projectID) (\<lambda>_.
     andthen (ups_find S projectID recordingID) (\<lambda>rec.
     if rec_Status rec \<notin> {FAILED, UPLOADED, PROCESSING, READY} then fail ErrIllegalTransition
     else case rec_ByteSize rec of
       None \<Rightarrow> fail ErrObjectMissing
     | Some sz \<Rightarrow>
         andthen (lift_sum (enc (uploaded_event_of L rec sz now))) (\<lambda>payload.
         andthen (rr_InsertOutbox (us_recordings S) TopicRecordingUploaded
             (uuid_string L (rec_ID rec)) payload (rec_CorrelationID rec)) (\<lambda>_.
         ret (recording_toDTO rec)))))"

text \<open>
  One round of the sweep's loop and the sweep. It returns the number of rows removed and an error at
  the same time, so its result is a pair and the operation itself does not fail.
\<close>

definition sweep_one :: "'s upload_service \<Rightarrow> recording \<Rightarrow> 's \<Rightarrow> (err + bool) \<times> 's" where
  "sweep_one S rec s =
     (case rr_DeleteIfStatus (us_recordings S) (rec_ID rec) UPLOADING s of
        (Inl e, s') \<Rightarrow> (if e = ErrNotFound Uploads then Inr False else Inl e, s')
      | (Inr _, s') \<Rightarrow>
          (Inr True,
           case us_storage S of
             Some st \<Rightarrow> if rec_StorageKey rec \<noteq> [] then snd (os_Delete st (rec_StorageKey rec) s') else s'
           | None \<Rightarrow> s'))"

fun sweep_rows :: "'s upload_service \<Rightarrow> int \<Rightarrow> recording list \<Rightarrow> 's \<Rightarrow> (int \<times> err option) \<times> 's" where
  "sweep_rows S removed [] s = ((removed, None), s)"
| "sweep_rows S removed (rec # rows) s =
     (case sweep_one S rec s of
        (Inl e, s') \<Rightarrow> ((removed, Some e), s')
      | (Inr hit, s') \<Rightarrow> sweep_rows S (if hit then removed + 1 else removed) rows s')"

definition ups_SweepAbandonedUploads ::
    "'s upload_service \<Rightarrow> duration \<Rightarrow> int \<Rightarrow> go_time \<Rightarrow> 's \<Rightarrow> (int \<times> err option) \<times> 's" where
  "ups_SweepAbandonedUploads S olderThan limit0 now s =
     (if olderThan \<le> 0 then ((0, None), s)
      else let limit = (if limit0 \<le> 0 then 50 else limit0)
      in case rr_ListAbandonedUploading (us_recordings S) (now - olderThan) limit s of
           (Inl e, s') \<Rightarrow> ((0, Some e), s')
         | (Inr rows, s') \<Rightarrow> sweep_rows S 0 rows s')"

definition ups_Delete :: "'z golib_scheme \<Rightarrow> 's upload_service \<Rightarrow> uuid \<Rightarrow> uuid \<Rightarrow> uuid \<Rightarrow> ('s, unit) op" where
  "ups_Delete L S userID projectID recordingID =
     andthen (pa_EnsureOwner (us_access S) userID projectID) (\<lambda>_.
     andthen (ups_find S projectID recordingID) (\<lambda>rec.
     andthen (rr_Delete (us_recordings S) recordingID) (\<lambda>_.
     case us_storage S of
       None \<Rightarrow> ret ()
     | Some st \<Rightarrow> ignore (os_DeletePrefix st (recording_prefix L projectID recordingID)))))"

section \<open>The states the service reaches\<close>

text \<open>
  Calls of the service one after the other, whatever they return. A new recording takes an identifier
  never used before, in a row or in an event. \<open>env\<close> is what else happens between calls, such as a client
  putting the bytes of an upload.
\<close>

type_synonym uploads_view = "(uuid \<Rightarrow> recording option) \<times> outbox_message list"

definition fresh_recording :: "'z golib_scheme \<Rightarrow> uploads_view \<Rightarrow> uuid \<Rightarrow> bool" where
  "fresh_recording L v ident \<longleftrightarrow>
     fst v ident = None \<and> (\<forall>m\<in>set (snd v). om_PartitionKey m \<noteq> uuid_string L ident)"

inductive ups_reach :: "'z golib_scheme \<Rightarrow> (uploaded_event \<Rightarrow> err + bytes) \<Rightarrow> 's upload_service
    \<Rightarrow> ('s \<Rightarrow> uploads_view) \<Rightarrow> ('s \<Rightarrow> 's \<Rightarrow> bool) \<Rightarrow> 's \<Rightarrow> 's \<Rightarrow> bool"
  for L :: "'z golib_scheme" and enc :: "uploaded_event \<Rightarrow> err + bytes" and S :: "'s upload_service"
    and view :: "'s \<Rightarrow> uploads_view" and env :: "'s \<Rightarrow> 's \<Rightarrow> bool" and s0 :: 's where
  ups_start: "ups_reach L enc S view env s0 s0"
| ups_env: "ups_reach L enc S view env s0 s \<Longrightarrow> env s s' \<Longrightarrow> ups_reach L enc S view env s0 s'"
| ups_create: "ups_reach L enc S view env s0 s \<Longrightarrow> fresh_recording L (view s) fresh \<Longrightarrow>
    ups_reach L enc S view env s0 (snd (ups_Create L S inp ctxCorr fresh now s))"
| ups_complete: "ups_reach L enc S view env s0 s \<Longrightarrow>
    ups_reach L enc S view env s0 (snd (ups_Complete L enc S userID projectID recordingID now now' s))"
| ups_reprocess: "ups_reach L enc S view env s0 s \<Longrightarrow>
    ups_reach L enc S view env s0 (snd (ups_Reprocess L enc S userID projectID recordingID now s))"
| ups_sweep: "ups_reach L enc S view env s0 s \<Longrightarrow>
    ups_reach L enc S view env s0 (snd (ups_SweepAbandonedUploads S olderThan limit now s))"
| ups_delete: "ups_reach L enc S view env s0 s \<Longrightarrow>
    ups_reach L enc S view env s0 (snd (ups_Delete L S userID projectID recordingID s))"

text \<open>
  The transactional outbox, as an invariant: an upload still in progress has no event, and one that is
  uploaded or beyond has one.
\<close>

definition announces :: "'z golib_scheme \<Rightarrow> uploads_view \<Rightarrow> uuid \<Rightarrow> bool" where
  "announces L v ident \<longleftrightarrow>
     (\<exists>m\<in>set (snd v). om_Topic m = TopicRecordingUploaded \<and> om_PartitionKey m = uuid_string L ident)"

definition outbox_inv :: "'z golib_scheme \<Rightarrow> uploads_view \<Rightarrow> bool" where
  "outbox_inv L v \<longleftrightarrow> (\<forall>ident r. fst v ident = Some r \<longrightarrow>
     (rec_Status r = UPLOADING \<longrightarrow> (\<forall>m\<in>set (snd v). om_PartitionKey m \<noteq> uuid_string L ident))
     \<and> (is_uploaded_or_beyond r \<longrightarrow> announces L v ident))"

text \<open>
  Completing: on an error nothing changed; on success the row is uploaded or beyond, and the outbox
  grew by exactly one event of this recording if and only if the row was still \<open>UPLOADING\<close>.
\<close>

definition completed :: "'z golib_scheme \<Rightarrow> uuid \<Rightarrow> uploads_view \<Rightarrow> uploads_view \<Rightarrow> recording_dto \<Rightarrow> bool" where
  "completed L i v v' d \<longleftrightarrow> fst v' i = Some d \<and> rec_ID d = i \<and> is_uploaded_or_beyond d \<and>
     (\<exists>cur. fst v i = Some cur \<and>
       (if rec_Status cur = UPLOADING
        then rec_Status d = UPLOADED \<and> (\<exists>m. om_Topic m = TopicRecordingUploaded
             \<and> om_PartitionKey m = uuid_string L i \<and> v' = ((fst v)(i \<mapsto> d), snd v @ [m]))
        else v' = v))"

lemma outbox_inv_completed:
  assumes "outbox_inv L v" "completed L i v v' d" "golib_ok L"
  shows "outbox_inv L v'"
proof -
  obtain cur where cur: "fst v i = Some cur" and d: "is_uploaded_or_beyond d" "rec_Status d \<noteq> UPLOADING"
    and v': "if rec_Status cur = UPLOADING
        then rec_Status d = UPLOADED \<and> (\<exists>m. om_Topic m = TopicRecordingUploaded
             \<and> om_PartitionKey m = uuid_string L i \<and> v' = ((fst v)(i \<mapsto> d), snd v @ [m]))
        else v' = v"
    using assms(2) beyond_not_uploading by (fastforce simp: completed_def)
  show ?thesis
  proof (cases "rec_Status cur = UPLOADING")
    case True
    with v' obtain m where m: "om_Topic m = TopicRecordingUploaded" "om_PartitionKey m = uuid_string L i"
      and eq: "v' = ((fst v)(i \<mapsto> d), snd v @ [m])" by auto
    show ?thesis unfolding outbox_inv_def
    proof (intro allI impI)
      fix j r assume "fst v' j = Some r"
      then show "(rec_Status r = UPLOADING \<longrightarrow> (\<forall>m\<in>set (snd v'). om_PartitionKey m \<noteq> uuid_string L j))
          \<and> (is_uploaded_or_beyond r \<longrightarrow> announces L v' j)"
        using assms(1,3) m d eq
        by (cases "j = i") (auto simp: outbox_inv_def announces_def uuid_string_inject)
    qed
  next
    case False
    then show ?thesis using v' assms(1) by simp
  qed
qed

lemma outbox_inv_append:
  assumes "outbox_inv L v" "golib_ok L" "fst v i = Some r" "rec_Status r \<noteq> UPLOADING"
    and "om_PartitionKey m = uuid_string L i"
  shows "outbox_inv L (fst v, snd v @ [m])"
  unfolding outbox_inv_def
proof (intro allI impI)
  fix j q assume "fst (fst v, snd v @ [m]) j = Some q"
  then show "(rec_Status q = UPLOADING \<longrightarrow> (\<forall>n\<in>set (snd (fst v, snd v @ [m])). om_PartitionKey n \<noteq> uuid_string L j))
      \<and> (is_uploaded_or_beyond q \<longrightarrow> announces L (fst v, snd v @ [m]) j)"
    using assms by (cases "j = i") (auto simp: outbox_inv_def announces_def uuid_string_inject)
qed

lemma outbox_inv_remove: "outbox_inv L v \<Longrightarrow> outbox_inv L ((fst v)(i := None), snd v)"
  by (simp add: outbox_inv_def announces_def)

lemma outbox_inv_create:
  assumes "outbox_inv L v" "fresh_recording L v i" "rec_Status out = UPLOADING"
  shows "outbox_inv L ((fst v)(i \<mapsto> out), snd v)"
  unfolding outbox_inv_def
proof (intro allI impI)
  fix j q assume "fst ((fst v)(i \<mapsto> out), snd v) j = Some q"
  then show "(rec_Status q = UPLOADING \<longrightarrow> (\<forall>m\<in>set (snd ((fst v)(i \<mapsto> out), snd v)). om_PartitionKey m \<noteq> uuid_string L j))
      \<and> (is_uploaded_or_beyond q \<longrightarrow> announces L ((fst v)(i \<mapsto> out), snd v) j)"
    using assms beyond_not_uploading
    by (cases "j = i") (auto simp: outbox_inv_def announces_def fresh_recording_def)
qed

text \<open>What a sweep may change: rows still \<open>UPLOADING\<close> and untouched since the cutoff go, nothing else.\<close>

definition swept :: "go_time \<Rightarrow> int \<Rightarrow> uploads_view \<Rightarrow> uploads_view \<Rightarrow> int \<Rightarrow> bool" where
  "swept before limit v v' n \<longleftrightarrow> snd v' = snd v \<and>
     (\<exists>gone. finite gone \<and> int (card gone) = n \<and> n \<le> limit
        \<and> (\<forall>i\<in>gone. \<exists>r. fst v i = Some r \<and> rec_Status r = UPLOADING \<and> rec_UpdatedAt r < before)
        \<and> (\<forall>i. fst v' i = (if i \<in> gone then None else fst v i)))"

section \<open>What the service relies on, and what it then guarantees\<close>

locale recording_store =
  fixes R :: "'s recording_repository"
    and consistent :: "'s \<Rightarrow> bool"
    and view :: "'s \<Rightarrow> uploads_view"
  assumes consistent_ops:
    "preserves consistent (rr_Create R r)" "preserves consistent (rr_Update R r)"
    "preserves consistent (rr_CompleteWithOutbox R r t k pl c)" "preserves consistent (rr_InsertOutbox R t k pl c)"
    "preserves consistent (rr_DeleteIfStatus R i st)" "preserves consistent (rr_Delete R i)"
    and reads:
    "keeps (\<lambda>s. (consistent s, view s)) (rr_Get R i)"
    "keeps (\<lambda>s. (consistent s, view s)) (rr_ListAbandonedUploading R before lim)"
    and failures:
    "consistent s \<Longrightarrow> rr_Create R r s = (Inl e, s') \<Longrightarrow> view s' = view s"
    "consistent s \<Longrightarrow> rr_Update R r s = (Inl e, s') \<Longrightarrow> view s' = view s"
    "consistent s \<Longrightarrow> rr_CompleteWithOutbox R r t k pl c s = (Inl e, s') \<Longrightarrow> view s' = view s"
    "consistent s \<Longrightarrow> rr_InsertOutbox R t k pl c s = (Inl e, s') \<Longrightarrow> view s' = view s"
    "consistent s \<Longrightarrow> rr_DeleteIfStatus R i st s = (Inl e, s') \<Longrightarrow> view s' = view s"
    "consistent s \<Longrightarrow> rr_Delete R i s = (Inl e, s') \<Longrightarrow> view s' = view s"
    and create_ok:
    "consistent s \<Longrightarrow> fst (view s) (rec_ID r) = None \<Longrightarrow> rr_Create R r s = (Inr out, s') \<Longrightarrow>
       rec_ID out = rec_ID r \<and> rec_Status out = rec_Status r
       \<and> view s' = ((fst (view s))(rec_ID r \<mapsto> out), snd (view s))"
    and get_ok:
    "consistent s \<Longrightarrow> rr_Get R i s = (Inr r, s') \<Longrightarrow> fst (view s) i = Some r \<and> rec_ID r = i"
    and get_missing:
    "consistent s \<Longrightarrow> rr_Get R i s = (Inl (ErrNotFound Uploads), s') \<Longrightarrow> fst (view s) i = None"
    and update_ok:
    "consistent s \<Longrightarrow> rr_Update R r s = (Inr out, s') \<Longrightarrow>
       fst (view s) (rec_ID r) \<noteq> None \<and> rec_ID out = rec_ID r \<and> rec_Status out = rec_Status r
       \<and> view s' = ((fst (view s))(rec_ID r \<mapsto> out), snd (view s))"
    and complete_ok:
    "consistent s \<Longrightarrow> rr_CompleteWithOutbox R r t k pl c s = (Inr out, s') \<Longrightarrow>
       \<exists>cur. fst (view s) (rec_ID r) = Some cur \<and>
         (rec_Status cur \<noteq> UPLOADING \<and> out = cur \<and> view s' = view s
          \<or> rec_Status cur = UPLOADING \<and> rec_ID out = rec_ID r \<and> rec_Status out = rec_Status r
            \<and> rec_ByteSize out = rec_ByteSize r \<and> rec_Checksum out = rec_Checksum r
            \<and> (\<exists>m. om_Topic m = t \<and> om_PartitionKey m = k \<and> om_CorrelationID m = c
                 \<and> view s' = ((fst (view s))(rec_ID r \<mapsto> out), snd (view s) @ [m])))"
    and outbox_ok:
    "consistent s \<Longrightarrow> rr_InsertOutbox R t k pl c s = (Inr (), s') \<Longrightarrow>
       \<exists>m. om_Topic m = t \<and> om_PartitionKey m = k \<and> om_CorrelationID m = c
         \<and> view s' = (fst (view s), snd (view s) @ [m])"
    and list_ok:
    "consistent s \<Longrightarrow> rr_ListAbandonedUploading R before lim s = (Inr rs, s') \<Longrightarrow>
       (\<forall>r\<in>set rs. fst (view s) (rec_ID r) = Some r \<and> rec_Status r = UPLOADING \<and> rec_UpdatedAt r < before)
       \<and> (0 < lim \<longrightarrow> int (length rs) \<le> lim)"
    and delete_if_ok:
    "consistent s \<Longrightarrow> rr_DeleteIfStatus R i st s = (Inr (), s') \<Longrightarrow>
       (\<exists>r. fst (view s) i = Some r \<and> rec_Status r = st) \<and> view s' = ((fst (view s))(i := None), snd (view s))"
    and delete_ok:
    "consistent s \<Longrightarrow> rr_Delete R i s = (Inr (), s') \<Longrightarrow>
       fst (view s) i \<noteq> None \<and> view s' = ((fst (view s))(i := None), snd (view s))"
begin

lemmas read_steps = reads [THEN keepsD, simplified]
lemmas write_steps = consistent_ops [THEN preservesD]

lemma fail_steps:
  "consistent s \<Longrightarrow> rr_Create R r s = (Inl e, s') \<Longrightarrow> view s' = view s \<and> consistent s'"
  "consistent s \<Longrightarrow> rr_Update R r s = (Inl e, s') \<Longrightarrow> view s' = view s \<and> consistent s'"
  "consistent s \<Longrightarrow> rr_CompleteWithOutbox R r t k pl c s = (Inl e, s') \<Longrightarrow> view s' = view s \<and> consistent s'"
  "consistent s \<Longrightarrow> rr_InsertOutbox R t k pl c s = (Inl e, s') \<Longrightarrow> view s' = view s \<and> consistent s'"
  "consistent s \<Longrightarrow> rr_DeleteIfStatus R i st s = (Inl e, s') \<Longrightarrow> view s' = view s \<and> consistent s'"
  "consistent s \<Longrightarrow> rr_Delete R i s = (Inl e, s') \<Longrightarrow> view s' = view s \<and> consistent s'"
  by (simp_all add: failures write_steps)

end

text \<open>
  The service over such a repository. Storage and authorisation do not touch it.
\<close>

locale upload_service = recording_store R consistent view
  for R :: "'s recording_repository" and consistent :: "'s \<Rightarrow> bool" and view :: "'s \<Rightarrow> uploads_view" +
  fixes S :: "'s upload_service"
  assumes repo: "us_recordings S = R"
    and access:
    "keeps (\<lambda>s. (consistent s, view s)) (pa_EnsureMember (us_access S) u p)"
    "keeps (\<lambda>s. (consistent s, view s)) (pa_EnsureOwner (us_access S) u p)"
    and storage:
    "us_storage S = Some st \<Longrightarrow> keeps (\<lambda>s. (consistent s, view s)) (os_PresignPut st key ct ttl)"
    "us_storage S = Some st \<Longrightarrow> keeps (\<lambda>s. (consistent s, view s)) (os_Stat st key)"
    "us_storage S = Some st \<Longrightarrow> keeps (\<lambda>s. (consistent s, view s)) (os_Delete st key)"
    "us_storage S = Some st \<Longrightarrow> keeps (\<lambda>s. (consistent s, view s)) (os_DeletePrefix st key)"
begin

lemmas side_steps = access [THEN keepsD, simplified] storage [THEN keepsD, simplified]

lemma storage_snd:
  "us_storage S = Some st \<Longrightarrow> view (snd (os_Delete st key s)) = view s \<and> consistent (snd (os_Delete st key s)) = consistent s"
  "us_storage S = Some st \<Longrightarrow> view (snd (os_DeletePrefix st key s)) = view s \<and> consistent (snd (os_DeletePrefix st key s)) = consistent s"
  using storage(3,4) by (auto simp: keeps_def)

lemma find_ok:
  assumes "consistent s" "ups_find S p i s = (r, s')"
  shows "view s' = view s \<and> consistent s'
    \<and> (\<forall>rec. r = Inr rec \<longrightarrow> fst (view s) i = Some rec \<and> rec_ID rec = i \<and> rec_ProjectID rec = p)"
  using assms(2) [unfolded ups_find_def repo]
proof (cases rule: andthen_cases)
  case (err e)
  then show ?thesis using read_steps(1) assms(1) by blast
next
  case (ok rec s1)
  then show ?thesis using read_steps(1) [OF ok(1)] get_ok [OF assms(1) ok(1)] assms(1)
    by (auto split: if_splits)
qed

lemma Complete_steps:
  assumes s: "consistent s" and run: "ups_Complete L enc S u p i now now' s = (r, s')"
  shows "consistent s' \<and> (case r of Inl e \<Rightarrow> view s' = view s | Inr d \<Rightarrow> completed L i (view s) (view s') d)"
  using run unfolding ups_Complete_def
proof (cases rule: andthen_cases)
  case (err e)
  then show ?thesis using side_steps(1) s by auto
next
  case (ok x s1)
  note s1 = side_steps(1) [OF ok(1)]
  from ok(2) show ?thesis
  proof (cases rule: andthen_cases)
    case (err e)
    then show ?thesis using find_ok [of s1] s1 s by auto
  next
    case found: (ok rec s2)
    have s2: "view s2 = view s" "consistent s2" "fst (view s) i = Some rec" "rec_ID rec = i"
      using find_ok [OF _ found(1)] s1 s by auto
    consider (past) "is_uploaded_or_beyond rec" | (bad) "\<not> is_uploaded_or_beyond rec" "rec_Status rec \<noteq> UPLOADING"
      | (none) "rec_Status rec = UPLOADING" "us_storage S = None"
      | (go) st where "rec_Status rec = UPLOADING" "us_storage S = Some st"
      by (cases "us_storage S") auto
    then show ?thesis
    proof cases
      case past
      then show ?thesis using found(2) s2
        by (auto simp: completed_def is_uploaded_or_beyond_def)
    next
      case bad
      then show ?thesis using found(2) s2 by auto
    next
      case none
      then show ?thesis using found(2) s2 by (auto simp: is_uploaded_or_beyond_def nil_call_def)
    next
      case (go st)
      let ?rec = "\<lambda>meta. rec\<lparr>rec_ByteSize := Some (om_Size meta), rec_Checksum := trim_byte (CHR 0x22) (om_ETag meta)\<rparr>"
      from found(2) [unfolded repo] go have "andthen (map_err (\<lambda>_. ErrObjectMissing) (os_Stat st (rec_StorageKey rec))) (\<lambda>meta.
         if us_uploadMaxBytes S > 0 \<and> om_Size meta > us_uploadMaxBytes S then fail ErrObjectTooLarge
         else andthen (lift_sum (validate_uploaded_content_type L (rec_ContentType rec) (om_ContentType meta))) (\<lambda>_.
         andthen (lift_sum (transition UPLOADED now (?rec meta))) (\<lambda>rec'.
         andthen (lift_sum (enc (uploaded_event_of L rec' (om_Size meta) now'))) (\<lambda>payload.
         andthen (rr_CompleteWithOutbox R rec' TopicRecordingUploaded
             (uuid_string L (rec_ID rec')) payload (rec_CorrelationID rec')) (\<lambda>updated.
         ret (recording_toDTO updated)))))) s2 = (r, s')"
        by (simp add: is_uploaded_or_beyond_def)
      then show ?thesis
      proof (cases rule: andthen_cases)
        case (err e)
        from map_err_InlD [OF err(1)] obtain e' where "os_Stat st (rec_StorageKey rec) s2 = (Inl e', s')"
          by blast
        from side_steps(4) [OF go(2) this] show ?thesis using err(2) s2 by simp
      next
        case stat: (ok meta s3)
        have s3: "view s3 = view s" "consistent s3"
          using side_steps(4) [OF go(2) map_err_InrD [OF stat(1)]] s2 by auto
        show ?thesis
        proof (cases "\<exists>e. r = Inl e \<and> s' = s3")
          case True
          then show ?thesis using s3 by auto
        next
          case False
          define rec' where "rec' = (?rec meta)\<lparr>rec_Status := UPLOADED, rec_UpdatedAt := now\<rparr>"
          have tr: "transition UPLOADED now (?rec meta) = Inr rec'"
            using go(1) by (simp add: transition_def rec'_def)
          have rec': "rec_ID rec' = i" "rec_Status rec' = UPLOADED" using s2(4) by (simp_all add: rec'_def)
          from False stat(2) obtain payload where
            c: "andthen (rr_CompleteWithOutbox R rec' TopicRecordingUploaded
              (uuid_string L (rec_ID rec')) payload (rec_CorrelationID rec')) (\<lambda>updated. ret updated) s3 = (r, s')"
            by (auto simp: tr andthen_def [of "lift_sum x" for x] split: if_splits sum.splits)
          from c show ?thesis
          proof (cases rule: andthen_cases)
            case (err e)
            then show ?thesis using fail_steps(3) s3 by auto
          next
            case upd: (ok out s4)
            then show ?thesis
              using complete_ok [OF s3(2) upd(1)] write_steps(3) [OF upd(1)] s3 rec' s2(3) go(1)
              by (auto simp: completed_def is_uploaded_or_beyond_def)
          qed
        qed
      qed
    qed
  qed
qed

lemma Create_steps:
  assumes s: "consistent s" "fst (view s) fresh = None" and run: "ups_Create L S inp ctxCorr fresh now s = (r, s')"
  shows "consistent s' \<and> (view s' = view s \<or>
    (\<exists>out. rec_ID out = fresh \<and> rec_Status out = UPLOADING \<and> view s' = ((fst (view s))(fresh \<mapsto> out), snd (view s))))"
  using run unfolding ups_Create_def
proof (cases rule: andthen_cases)
  case (err e)
  then show ?thesis using side_steps(1) s by auto
next
  case (ok x s1)
  note s1 = side_steps(1) [OF ok(1)]
  define ct where "ct = (let c = normalize_content_type L (ci_ContentType inp) in if c = [] then octet_stream else c)"
  define rec where "rec = ups_new_recording L inp ct fresh now ctxCorr"
  have rec: "rec_ID rec = fresh" "rec_Status rec = UPLOADING"
    by (simp_all add: rec_def ups_new_recording_def Let_def)
  show ?thesis
  proof (cases "ct \<noteq> octet_stream \<and> \<not> allowed_upload_types ct")
    case True
    then show ?thesis using ok(2) s1 s by (auto simp: ct_def Let_def)
  next
    case False
    with ok(2) have "andthen (rr_Create R rec) (\<lambda>created. case us_storage S of None \<Rightarrow> nil_call
        | Some st \<Rightarrow> andthen (os_PresignPut st (rec_StorageKey rec) ct (us_presignTTL S)) (\<lambda>url.
               ret \<lparr>cr_Recording = created, cr_UploadURL = url\<rparr>)) s1 = (r, s')"
      unfolding repo rec_def ct_def Let_def by (simp split: if_splits)
    then show ?thesis
    proof (cases rule: andthen_cases)
      case (err e)
      then show ?thesis using fail_steps(1) s1 s by auto
    next
      case cr: (ok out s2)
      have s2: "rec_ID out = fresh \<and> rec_Status out = UPLOADING
          \<and> view s2 = ((fst (view s))(fresh \<mapsto> out), snd (view s))" "consistent s2"
        using create_ok [OF _ _ cr(1)] write_steps(1) [OF cr(1)] s1 s rec by auto
      have "view s' = view s2 \<and> consistent s' = consistent s2"
        using cr(2) by (auto simp: nil_call_def split: option.splits dest: side_steps(3) elim!: andthen_cases)
      then show ?thesis using s2 by auto
    qed
  qed
qed

lemma Reprocess_steps:
  assumes s: "consistent s" and run: "ups_Reprocess L enc S u p i now s = (r, s')"
  shows "consistent s' \<and> (case r of Inl e \<Rightarrow> view s' = view s
    | Inr d \<Rightarrow> fst (view s) i = Some d \<and> rec_ProjectID d = p \<and> rec_Status d \<noteq> UPLOADING
        \<and> (\<exists>m. om_Topic m = TopicRecordingUploaded \<and> om_PartitionKey m = uuid_string L i
             \<and> view s' = (fst (view s), snd (view s) @ [m])))"
  using run unfolding ups_Reprocess_def repo
proof (cases rule: andthen_cases)
  case (err e)
  then show ?thesis using side_steps(2) s by auto
next
  case (ok x s1)
  note s1 = side_steps(2) [OF ok(1)]
  from ok(2) show ?thesis
  proof (cases rule: andthen_cases)
    case (err e)
    then show ?thesis using find_ok [of s1] s1 s by auto
  next
    case found: (ok rec s2)
    have s2: "view s2 = view s" "consistent s2" "fst (view s) i = Some rec" "rec_ID rec = i" "rec_ProjectID rec = p"
      using find_ok [OF _ found(1)] s1 s by auto
    show ?thesis
    proof (cases "\<exists>e. r = Inl e \<and> s' = s2")
      case True
      then show ?thesis using s2 by auto
    next
      case False
      with found(2) obtain payload where st: "rec_Status rec \<noteq> UPLOADING"
        and c: "andthen (rr_InsertOutbox R TopicRecordingUploaded (uuid_string L (rec_ID rec)) payload
             (rec_CorrelationID rec)) (\<lambda>_. ret rec) s2 = (r, s')"
        by (auto simp: andthen_def [of "lift_sum x" for x] split: if_splits sum.splits option.splits)
      from c show ?thesis
      proof (cases rule: andthen_cases)
        case (err e)
        then show ?thesis using fail_steps(4) s2 by auto
      next
        case ins: (ok y s3)
        obtain m where "om_Topic m = TopicRecordingUploaded" "om_PartitionKey m = uuid_string L (rec_ID rec)"
          "view s3 = (fst (view s2), snd (view s2) @ [m])"
          using outbox_ok [OF s2(2)] ins(1) by fastforce
        then show ?thesis using write_steps(4) [OF ins(1)] ins(2) s2 st by auto
      qed
    qed
  qed
qed

lemma Delete_steps:
  assumes s: "consistent s" and run: "ups_Delete L S u p i s = (r, s')"
  shows "consistent s' \<and> (view s' = view s \<or> view s' = ((fst (view s))(i := None), snd (view s)))
    \<and> (r = Inr () \<longrightarrow> (\<exists>d. fst (view s) i = Some d \<and> rec_ProjectID d = p) \<and> fst (view s') i = None)"
  using run unfolding ups_Delete_def repo
proof (cases rule: andthen_cases)
  case (err e)
  then show ?thesis using side_steps(2) s by auto
next
  case (ok x s1)
  note s1 = side_steps(2) [OF ok(1)]
  from ok(2) show ?thesis
  proof (cases rule: andthen_cases)
    case (err e)
    then show ?thesis using find_ok [of s1] s1 s by auto
  next
    case found: (ok rec s2)
    have s2: "view s2 = view s" "consistent s2" "fst (view s) i = Some rec" "rec_ProjectID rec = p"
      using find_ok [OF _ found(1)] s1 s by auto
    from found(2) show ?thesis
    proof (cases rule: andthen_cases)
      case (err e)
      then show ?thesis using fail_steps(6) s2 by auto
    next
      case del: (ok y s3)
      have s3: "view s3 = ((fst (view s))(i := None), snd (view s))" "consistent s3"
        using delete_ok [OF s2(2)] write_steps(6) [OF del(1)] del(1) s2 by auto
      have "view s' = view s3 \<and> consistent s' = consistent s3"
        using del(2) by (auto simp: ignore_def storage_snd split: option.splits)
      then show ?thesis using s3 s2 by auto
    qed
  qed
qed

text \<open>The sweep, one row and all rows.\<close>

lemma sweep_one_steps:
  assumes "consistent s" "sweep_one S rec s = (r, s')"
  shows "consistent s' \<and> snd (view s') = snd (view s)
    \<and> (r = Inr True \<longrightarrow> fst (view s) (rec_ID rec) \<noteq> None \<and> fst (view s') = (fst (view s))(rec_ID rec := None))
    \<and> (r \<noteq> Inr True \<longrightarrow> view s' = view s)"
proof (cases "rr_DeleteIfStatus R (rec_ID rec) UPLOADING s")
  case (Pair x s1)
  show ?thesis
  proof (cases x)
    case (Inl e)
    then have "view s1 = view s \<and> consistent s1" using Pair fail_steps(5) [OF assms(1)] by simp
    moreover have "r \<noteq> Inr True \<and> s' = s1"
      using assms(2) Pair Inl by (auto simp: sweep_one_def repo split: if_splits)
    ultimately show ?thesis by simp
  next
    case (Inr y)
    then have s1: "fst (view s) (rec_ID rec) \<noteq> None" "view s1 = ((fst (view s))(rec_ID rec := None), snd (view s))"
        "consistent s1"
      using Pair assms(1) delete_if_ok [OF assms(1)] write_steps(5) by fastforce+
    have "r = Inr True \<and> view s' = view s1 \<and> consistent s' = consistent s1"
      using assms(2) Pair Inr
      by (cases "us_storage S"; cases "rec_StorageKey rec = []") (auto simp: sweep_one_def repo storage_snd)
    then show ?thesis using s1 by simp
  qed
qed

lemma sweep_rows_steps:
  assumes "consistent s" "sweep_rows S n rs s = ((k, e), s')"
  shows "consistent s' \<and> snd (view s') = snd (view s)
    \<and> (\<exists>gone. finite gone \<and> gone \<subseteq> rec_ID ` set rs \<and> int (card gone) = k - n \<and> k - n \<le> int (length rs)
        \<and> (\<forall>i\<in>gone. fst (view s) i \<noteq> None) \<and> (\<forall>i. fst (view s') i = (if i \<in> gone then None else fst (view s) i)))"
  using assms
proof (induction rs arbitrary: n s)
  case Nil
  then show ?case by (auto intro!: exI [of _ "{}"])
next
  case (Cons rec rs)
  obtain r s1 where one: "sweep_one S rec s = (r, s1)" by fastforce
  note o = sweep_one_steps [OF Cons.prems(1) one]
  show ?case
  proof (cases r)
    case (Inl x)
    then show ?thesis using Cons.prems(2) one o by (auto intro!: exI [of _ "{}"])
  next
    case (Inr hit)
    let ?n = "if hit then n + 1 else n"
    have rest: "sweep_rows S ?n rs s1 = ((k, e), s')" using Cons.prems(2) one Inr by simp
    obtain gone where ih: "consistent s'" "snd (view s') = snd (view s1)" "finite gone"
      "gone \<subseteq> rec_ID ` set rs" "int (card gone) = k - ?n" "k - ?n \<le> int (length rs)"
      "\<forall>i\<in>gone. fst (view s1) i \<noteq> None"
      "\<forall>i. fst (view s') i = (if i \<in> gone then None else fst (view s1) i)"
      using Cons.IH [OF _ rest] o by blast
    show ?thesis
    proof (cases hit)
      case True
      then have s1: "fst (view s) (rec_ID rec) \<noteq> None" "fst (view s1) = (fst (view s))(rec_ID rec := None)"
        using o Inr by auto
      then have new: "rec_ID rec \<notin> gone" using ih(7) by auto
      have dom: "\<forall>i\<in>insert (rec_ID rec) gone. fst (view s) i \<noteq> None"
        using ih(7) s1 by (metis fun_upd_apply insert_iff)
      have eq: "\<forall>i. fst (view s') i = (if i \<in> insert (rec_ID rec) gone then None else fst (view s) i)"
        using ih(8) s1(2) by simp
      have "int (card (insert (rec_ID rec) gone)) = k - n" "k - n \<le> int (length (rec # rs))"
        "insert (rec_ID rec) gone \<subseteq> rec_ID ` set (rec # rs)" "finite (insert (rec_ID rec) gone)"
        using ih(3-6) new True by auto
      moreover have "snd (view s') = snd (view s)" using ih(2) o by simp
      ultimately show ?thesis using ih(1) dom eq by blast
    next
      case False
      then show ?thesis using ih o Inr by (intro conjI exI [of _ gone]) auto
    qed
  qed
qed

lemma Sweep_steps:
  assumes "consistent s" "ups_SweepAbandonedUploads S olderThan limit now s = ((n, e), s')"
  shows "consistent s' \<and> swept (now - olderThan) (if limit \<le> 0 then 50 else limit) (view s) (view s') n"
proof (cases "olderThan \<le> 0")
  case True
  then show ?thesis using assms
    by (auto simp: ups_SweepAbandonedUploads_def swept_def intro!: exI [of _ "{}"])
next
  case False
  let ?limit = "if limit \<le> 0 then 50 else limit"
  obtain r s1 where l: "rr_ListAbandonedUploading R (now - olderThan) ?limit s = (r, s1)" by fastforce
  have s1: "view s1 = view s" "consistent s1" using read_steps(2) [OF l] assms(1) by auto
  show ?thesis
  proof (cases r)
    case (Inl x)
    then show ?thesis using assms(2) False l s1
      by (auto simp: ups_SweepAbandonedUploads_def repo swept_def Let_def intro!: exI [of _ "{}"])
  next
    case (Inr rs)
    then have rows: "sweep_rows S 0 rs s1 = ((n, e), s')"
      using assms(2) False l by (simp add: ups_SweepAbandonedUploads_def repo Let_def)
    obtain gone where g: "consistent s'" "snd (view s') = snd (view s1)" "finite gone"
      "gone \<subseteq> rec_ID ` set rs" "int (card gone) = n - 0" "n - 0 \<le> int (length rs)"
      "\<forall>i. fst (view s') i = (if i \<in> gone then None else fst (view s1) i)"
      using sweep_rows_steps [OF s1(2) rows] by blast
    have "\<forall>r\<in>set rs. fst (view s) (rec_ID r) = Some r \<and> rec_Status r = UPLOADING \<and> rec_UpdatedAt r < now - olderThan"
      and "int (length rs) \<le> ?limit"
      using list_ok [OF assms(1), of "now - olderThan" ?limit rs s1] l Inr by auto
    then have "swept (now - olderThan) ?limit (view s) (view s') n"
      unfolding swept_def using g s1(1) by (intro conjI exI [of _ gone]) fastforce+
    then show ?thesis using g(1) by blast
  qed
qed

lemma swept_outbox_inv: "swept before limit v v' n \<Longrightarrow> outbox_inv L v \<Longrightarrow> outbox_inv L v'"
  unfolding swept_def outbox_inv_def announces_def by (metis option.distinct(1))

lemma reach_outbox_inv:
  assumes "ups_reach L enc S view env s0 s" "consistent s0" "outbox_inv L (view s0)" "golib_ok L"
    and env: "\<And>s s'. env s s' \<Longrightarrow> consistent s' = consistent s \<and> view s' = view s"
  shows "consistent s \<and> outbox_inv L (view s)"
  using assms(1)
proof (induction rule: ups_reach.induct)
  case ups_start
  show ?case using assms(2,3) by simp
next
  case (ups_env s s')
  then show ?case using env by auto
next
  case (ups_create s fresh inp ctxCorr now)
  have "view (snd (ups_Create L S inp ctxCorr fresh now s)) = view s \<or>
    (\<exists>out. rec_ID out = fresh \<and> rec_Status out = UPLOADING
      \<and> view (snd (ups_Create L S inp ctxCorr fresh now s)) = ((fst (view s))(fresh \<mapsto> out), snd (view s)))"
    and "consistent (snd (ups_Create L S inp ctxCorr fresh now s))"
    using Create_steps [OF _ _ prod.collapse [symmetric], of s fresh] ups_create
    by (auto simp: fresh_recording_def)
  then show ?case using ups_create outbox_inv_create [of L "view s" fresh] by auto
next
  case (ups_complete s userID projectID recordingID now now')
  note c = Complete_steps [OF _ prod.collapse [symmetric], of s L enc userID projectID recordingID now now']
  show ?case
  proof (cases "fst (ups_Complete L enc S userID projectID recordingID now now' s)")
    case (Inl e)
    then show ?thesis using c ups_complete by auto
  next
    case (Inr d)
    then have "completed L recordingID (view s)
        (view (snd (ups_Complete L enc S userID projectID recordingID now now' s))) d"
      using c ups_complete by simp
    then show ?thesis using c ups_complete outbox_inv_completed [OF _ _ assms(4)] by blast
  qed
next
  case (ups_reprocess s userID projectID recordingID now)
  note c = Reprocess_steps [OF _ prod.collapse [symmetric], of s L enc userID projectID recordingID now]
  show ?case
  proof (cases "fst (ups_Reprocess L enc S userID projectID recordingID now s)")
    case (Inl e)
    then show ?thesis using c ups_reprocess by auto
  next
    case (Inr d)
    then show ?thesis using c ups_reprocess outbox_inv_append [OF _ assms(4)] by fastforce
  qed
next
  case (ups_sweep s olderThan limit now)
  obtain n e s' where run: "ups_SweepAbandonedUploads S olderThan limit now s = ((n, e), s')"
    by (metis prod.exhaust)
  have "consistent s' \<and> outbox_inv L (view s')"
    using Sweep_steps [OF _ run] swept_outbox_inv ups_sweep.IH by blast
  then show ?case using run by simp
next
  case (ups_delete s userID projectID recordingID)
  then show ?case
    using Delete_steps [OF _ prod.collapse [symmetric], of s L userID projectID recordingID]
      outbox_inv_remove [of L "view s" recordingID] by auto
qed

end

end
