(* ===== verification/Uploads_Memory.thy ===== *)
theory Uploads_Memory
  imports Uploads Sample_Lib
begin

text \<open>
  \<open>internal/uploads/adapter/memory/memory.go\<close>: the in-memory recordings, outbox and object storage, one
  record \<open>umem\<close> for the three structs. \<open>um_now\<close> is what \<open>time.Now()\<close> reads. Interprets
  \<open>recording_store\<close> and \<open>upload_service\<close> and states the properties of the upload service over it.
\<close>

record umem =
  um_byID :: "(uuid, recording) gomap"
  um_nextOutbox :: int
  um_msgs :: "outbox_message list"
  um_published :: "(int, bool) gomap"
  um_objs :: "(string, bytes) gomap"
  um_ct :: "(string, string) gomap"
  um_now :: go_time

definition umem_new :: umem where
  "umem_new = \<lparr>um_byID = [], um_nextOutbox = 0, um_msgs = [], um_published = [], um_objs = [], um_ct = [], um_now = 0\<rparr>"

section \<open>Recordings\<close>

definition umem_Create :: "recording \<Rightarrow> (umem, recording) op" where
  "umem_Create rec r = (Inr rec, r\<lparr>um_byID := m_set (rec_ID rec) rec (um_byID r)\<rparr>)"

definition umem_Get :: "uuid \<Rightarrow> (umem, recording) op" where
  "umem_Get ident r = (case m_get (um_byID r) ident of None \<Rightarrow> Inl (ErrNotFound Uploads) | Some rec \<Rightarrow> Inr rec, r)"

definition umem_Update :: "recording \<Rightarrow> (umem, recording) op" where
  "umem_Update rec r =
     (if m_get (um_byID r) (rec_ID rec) = None then (Inl (ErrNotFound Uploads), r)
      else (Inr rec, r\<lparr>um_byID := m_set (rec_ID rec) rec (um_byID r)\<rparr>))"

definition umem_add_outbox :: "string \<Rightarrow> string \<Rightarrow> bytes \<Rightarrow> string \<Rightarrow> umem \<Rightarrow> umem" where
  "umem_add_outbox topic key payload corr r =
     (let ident = um_nextOutbox r + 1
      in r\<lparr>um_nextOutbox := ident,
           um_msgs := um_msgs r @ [\<lparr>om_ID = ident, om_Topic = topic, om_PartitionKey = key,
             om_Payload = payload, om_CorrelationID = corr, om_CreatedAt = um_now r\<rparr>]\<rparr>)"

definition umem_CompleteWithOutbox ::
    "recording \<Rightarrow> string \<Rightarrow> string \<Rightarrow> bytes \<Rightarrow> string \<Rightarrow> (umem, recording) op" where
  "umem_CompleteWithOutbox rec topic key payload corr r =
     (case m_get (um_byID r) (rec_ID rec) of
        None \<Rightarrow> (Inl (ErrNotFound Uploads), r)
      | Some cur \<Rightarrow>
          if rec_Status cur \<noteq> UPLOADING then (Inr cur, r)
          else (Inr rec, umem_add_outbox topic key payload corr
                  (r\<lparr>um_byID := m_set (rec_ID rec) rec (um_byID r)\<rparr>)))"

definition umem_InsertOutbox :: "string \<Rightarrow> string \<Rightarrow> bytes \<Rightarrow> string \<Rightarrow> (umem, unit) op" where
  "umem_InsertOutbox topic key payload corr r = (Inr (), umem_add_outbox topic key payload corr r)"

definition umem_ListAbandonedUploading :: "go_time \<Rightarrow> int \<Rightarrow> (umem, recording list) op" where
  "umem_ListAbandonedUploading cutoff limit0 r =
     (let limit = (if limit0 \<le> 0 then 50 else limit0)
      in (Inr (take (nat limit)
           (filter (\<lambda>rec. rec_Status rec = UPLOADING \<and> rec_UpdatedAt rec < cutoff) (m_vals (um_byID r)))), r))"

definition umem_DeleteIfStatus :: "uuid \<Rightarrow> rec_status \<Rightarrow> (umem, unit) op" where
  "umem_DeleteIfStatus ident st r =
     (case m_get (um_byID r) ident of
        None \<Rightarrow> (Inl (ErrNotFound Uploads), r)
      | Some rec \<Rightarrow>
          if rec_Status rec \<noteq> st then (Inl (ErrNotFound Uploads), r)
          else (Inr (), r\<lparr>um_byID := m_del ident (um_byID r)\<rparr>))"

definition umem_Delete :: "uuid \<Rightarrow> (umem, unit) op" where
  "umem_Delete ident r =
     (if m_get (um_byID r) ident = None then (Inl (ErrNotFound Uploads), r)
      else (Inr (), r\<lparr>um_byID := m_del ident (um_byID r)\<rparr>))"

definition umem_repo :: "umem recording_repository" where
  "umem_repo =
     \<lparr>rr_Create = umem_Create, rr_Get = umem_Get, rr_Update = umem_Update,
      rr_CompleteWithOutbox = umem_CompleteWithOutbox, rr_InsertOutbox = umem_InsertOutbox,
      rr_ListAbandonedUploading = umem_ListAbandonedUploading,
      rr_DeleteIfStatus = umem_DeleteIfStatus, rr_Delete = umem_Delete\<rparr>"

section \<open>Outbox\<close>

text \<open>
  \<open>fn\<close> runs while the mutex is held: it acts on the broker only, the second half of the state.
\<close>

definition umem_pending :: "umem \<Rightarrow> outbox_message list" where
  "umem_pending r = filter (\<lambda>m. m_get (um_published r) (om_ID m) \<noteq> Some True) (um_msgs r)"

definition umem_WithClaimed ::
    "int \<Rightarrow> (outbox_message list \<Rightarrow> ('k, unit) op) \<Rightarrow> (umem \<times> 'k, unit) op" where
  "umem_WithClaimed limit fn w =
     (if limit \<le> 0 then (Inr (), w)
      else let (r, k) = w; claimed = take (nat limit) (umem_pending r)
      in if claimed = [] then (Inr (), w)
         else case fn claimed k of
           (Inl e, k') \<Rightarrow> (Inl e, (r, k'))
         | (Inr _, k') \<Rightarrow>
             (Inr (), (r\<lparr>um_published := fold (\<lambda>m p. m_set (om_ID m) True p) claimed (um_published r)\<rparr>, k')))"

definition umem_Messages :: "umem \<Rightarrow> outbox_message list" where
  "umem_Messages r = um_msgs r"

section \<open>Object storage\<close>

definition umem_PresignPut :: "string \<Rightarrow> string \<Rightarrow> duration \<Rightarrow> (umem, string) op" where
  "umem_PresignPut key ct ttl = ret (''memory://upload/'' @ key @ ''?ct='' @ ct)"

definition umem_Stat :: "string \<Rightarrow> (umem, object_meta) op" where
  "umem_Stat key r =
     (case m_get (um_objs r) key of
        None \<Rightarrow> Inl ErrObjectMissing
      | Some b \<Rightarrow> Inr \<lparr>om_Size = int (length b),
                      om_ContentType = (case m_get (um_ct r) key of Some ct \<Rightarrow> ct | None \<Rightarrow> []),
                      om_ETag = show_hex (length b)\<rparr>, r)"

definition umem_Put :: "string \<Rightarrow> string \<Rightarrow> bytes \<Rightarrow> umem \<Rightarrow> umem" where
  "umem_Put key ct body r = r\<lparr>um_objs := m_set key body (um_objs r), um_ct := m_set key ct (um_ct r)\<rparr>"

definition umem_Has :: "string \<Rightarrow> umem \<Rightarrow> bool" where
  "umem_Has key r \<longleftrightarrow> m_get (um_objs r) key \<noteq> None"

definition umem_Keys :: "umem \<Rightarrow> string list" where
  "umem_Keys r = map fst (um_objs r)"

definition umem_ObjDelete :: "string \<Rightarrow> (umem, unit) op" where
  "umem_ObjDelete key r = (Inr (), r\<lparr>um_objs := m_del key (um_objs r), um_ct := m_del key (um_ct r)\<rparr>)"

definition umem_DeletePrefix :: "string \<Rightarrow> (umem, unit) op" where
  "umem_DeletePrefix pre r =
     (if pre = [] then (Inl (ErrOther ''refusing to delete with empty prefix''), r)
      else let gone = filter (\<lambda>k. has_prefix k pre) (map fst (um_objs r))
           in (Inr (), r\<lparr>um_objs := fold m_del gone (um_objs r), um_ct := fold m_del gone (um_ct r)\<rparr>))"

definition umem_storage :: "umem object_storage" where
  "umem_storage =
     \<lparr>os_PresignPut = umem_PresignPut, os_Stat = umem_Stat, os_Delete = umem_ObjDelete,
      os_DeletePrefix = umem_DeletePrefix\<rparr>"

text \<open>The three authorisation doubles.\<close>

definition access_ok :: "'s project_access" where
  "access_ok = \<lparr>pa_EnsureMember = (\<lambda>_ _. ret ()), pa_EnsureOwner = (\<lambda>_ _. ret ())\<rparr>"

definition access_deny :: "'s project_access" where
  "access_deny =
     \<lparr>pa_EnsureMember = (\<lambda>_ _. fail (ErrForbidden Uploads)), pa_EnsureOwner = (\<lambda>_ _. fail (ErrForbidden Uploads))\<rparr>"

definition access_member_only :: "'s project_access" where
  "access_member_only = \<lparr>pa_EnsureMember = (\<lambda>_ _. ret ()), pa_EnsureOwner = (\<lambda>_ _. fail (ErrForbidden Uploads))\<rparr>"

section \<open>The store meets its interface\<close>

lemmas umem_defs = umem_Create_def umem_Get_def umem_Update_def umem_add_outbox_def
  umem_CompleteWithOutbox_def umem_InsertOutbox_def umem_ListAbandonedUploading_def
  umem_DeleteIfStatus_def umem_Delete_def

definition umem_ok :: "umem \<Rightarrow> bool" where
  "umem_ok r \<longleftrightarrow> m_wf (um_byID r) \<and> (\<forall>i rec. m_get (um_byID r) i = Some rec \<longrightarrow> rec_ID rec = i)
     \<and> distinct (map om_ID (um_msgs r)) \<and> (\<forall>m\<in>set (um_msgs r). om_ID m \<le> um_nextOutbox r)"

definition umem_view :: "umem \<Rightarrow> uploads_view" where
  "umem_view r = (map_of (um_byID r), um_msgs r)"

lemma umem_ok_outbox:
  "umem_ok r \<Longrightarrow> umem_ok (umem_add_outbox t k pl c r)"
  by (force simp: umem_ok_def umem_add_outbox_def Let_def)

lemma umem_ok_rows:
  "umem_ok r \<Longrightarrow> umem_ok (r\<lparr>um_byID := m_set (rec_ID rec) rec (um_byID r)\<rparr>)"
  "umem_ok r \<Longrightarrow> umem_ok (r\<lparr>um_byID := m_del i (um_byID r)\<rparr>)"
  by (auto simp: umem_ok_def)

lemma umem_preserves:
  "preserves umem_ok (umem_Create rec)" "preserves umem_ok (umem_Update rec)"
  "preserves umem_ok (umem_CompleteWithOutbox rec t k pl c)" "preserves umem_ok (umem_InsertOutbox t k pl c)"
  "preserves umem_ok (umem_DeleteIfStatus i st)" "preserves umem_ok (umem_Delete i)"
  by (auto simp: preserves_def umem_Create_def umem_Update_def umem_CompleteWithOutbox_def umem_InsertOutbox_def
      umem_DeleteIfStatus_def umem_Delete_def umem_ok_rows umem_ok_outbox split: option.splits)

lemma umem_list:
  "umem_ok r \<Longrightarrow> rec \<in> set (m_vals (um_byID r)) \<Longrightarrow> map_of (um_byID r) (rec_ID rec) = Some rec"
  by (auto simp: umem_ok_def m_vals_iff)

interpretation umem: recording_store umem_repo umem_ok umem_view
  by unfold_locales
    (simp_all add: umem_repo_def umem_preserves,
     auto simp: umem_defs keeps_def umem_view_def Let_def umem_list dest!: in_set_takeD
       split: option.splits if_splits,
     auto simp: umem_ok_def)

lemma umem_storage_keeps:
  "keeps (\<lambda>s. (umem_ok s, umem_view s)) (os_PresignPut umem_storage key ct ttl)"
  "keeps (\<lambda>s. (umem_ok s, umem_view s)) (os_Stat umem_storage key)"
  "keeps (\<lambda>s. (umem_ok s, umem_view s)) (os_Delete umem_storage key)"
  "keeps (\<lambda>s. (umem_ok s, umem_view s)) (os_DeletePrefix umem_storage key)"
  by (simp_all add: keeps_def umem_storage_def umem_PresignPut_def umem_Stat_def umem_ObjDelete_def
      umem_DeletePrefix_def umem_ok_def umem_view_def Let_def)

text \<open>A service over the memory adapters, with any authorisation that leaves them alone.\<close>

definition umem_uses :: "umem upload_service \<Rightarrow> bool" where
  "umem_uses S \<longleftrightarrow> us_recordings S = umem_repo \<and> (us_storage S = None \<or> us_storage S = Some umem_storage)
     \<and> (\<forall>u p. keeps (\<lambda>r. r) (pa_EnsureMember (us_access S) u p) \<and> keeps (\<lambda>r. r) (pa_EnsureOwner (us_access S) u p))"

lemma umem_service: "umem_uses S \<Longrightarrow> upload_service umem_repo umem_ok umem_view S"
  by unfold_locales (auto simp: umem_uses_def umem_storage_keeps, auto simp: keeps_def)

lemma access_doubles_keep:
  "keeps v (pa_EnsureMember access_ok u p)" "keeps v (pa_EnsureOwner access_ok u p)"
  "keeps v (pa_EnsureMember access_deny u p)" "keeps v (pa_EnsureOwner access_deny u p)"
  "keeps v (pa_EnsureMember access_member_only u p)" "keeps v (pa_EnsureOwner access_member_only u p)"
  by (auto simp: access_ok_def access_deny_def access_member_only_def)

interpretation umem_svc: upload_service umem_repo umem_ok umem_view
    "upload_service_new umem_repo (Some umem_storage) access_ok ttl"
  by (rule umem_service) (simp add: umem_uses_def upload_service_new_def access_doubles_keep)

lemma umem_new_ok: "umem_ok umem_new" "outbox_inv L (umem_view umem_new)"
  by (simp_all add: umem_ok_def umem_new_def outbox_inv_def umem_view_def)

text \<open>Between calls of the service, clients put objects and time passes.\<close>

definition umem_env :: "umem \<Rightarrow> umem \<Rightarrow> bool" where
  "umem_env r r' \<longleftrightarrow> (\<exists>key ct body. r' = umem_Put key ct body r) \<or> (\<exists>t. r' = r\<lparr>um_now := t\<rparr>)"

lemma umem_env_keeps: "umem_env r r' \<Longrightarrow> umem_ok r' = umem_ok r \<and> umem_view r' = umem_view r"
  by (auto simp: umem_env_def umem_Put_def umem_ok_def umem_view_def)

section \<open>Properties\<close>

text \<open>
  whatever calls the upload service gets, in whatever order, a recording that is uploaded or
  further has its upload event in the outbox, and one whose upload is still in progress has none.
\<close>

theorem outbox_follows_the_status:
  assumes "golib_ok L" "umem_uses S" "ups_reach L enc S umem_view umem_env umem_new r"
  shows "outbox_inv L (umem_view r)"
  using upload_service.reach_outbox_inv [OF umem_service [OF assms(2)] assms(3)] umem_new_ok assms(1)
    umem_env_keeps by blast

definition sample_enc :: "uploaded_event \<Rightarrow> err + bytes" where
  "sample_enc e = Inr (ue_RecordingID e @ ''|'' @ ue_ObjectKey e @ ''|'' @ ue_Checksum e)"

definition sample_uploads :: "umem upload_service" where
  "sample_uploads = with_upload_max_bytes 10 (upload_service_new umem_repo (Some umem_storage) access_ok 0)"

definition sample_input :: create_input where
  "sample_input = \<lparr>ci_ProjectID = 7, ci_UserID = 1, ci_ContentType = '' Video/WebM; codecs=vp9'',
     ci_Filename = [], ci_Metadata = [], ci_CorrelationID = []\<rparr>"

text \<open>A recording is created, its bytes arrive, and it is completed.\<close>

definition after_create :: umem where
  "after_create = snd (ups_Create sample_lib sample_uploads sample_input [] 9 100 umem_new)"

definition after_put :: umem where
  "after_put = umem_Put ''projects/7/recordings/9/source.webm'' ''video/webm'' ''abc'' after_create"

definition after_complete :: umem where
  "after_complete = snd (ups_Complete sample_lib sample_enc sample_uploads 1 7 9 200 201 after_put)"

lemma sample_uses: "umem_uses sample_uploads"
  by (simp add: sample_uploads_def with_upload_max_bytes_def umem_uses_def upload_service_new_def access_doubles_keep)

definition sample_rec :: recording where
  "sample_rec = \<lparr>rec_ID = 9, rec_ProjectID = 7, rec_CreatedBy = 1, rec_Status = UPLOADING,
     rec_StorageKey = ''projects/7/recordings/9/source.webm'', rec_ContentType = ''video/webm'', rec_ByteSize = None,
     rec_Checksum = [], rec_Metadata = ''{}'', rec_CorrelationID = ''9'', rec_CreatedAt = 100, rec_UpdatedAt = 100\<rparr>"

lemma after_create_eq: "after_create = umem_new\<lparr>um_byID := [(9, sample_rec)]\<rparr>"
  by code_simp

lemma after_put_eq:
  "after_put = umem_new\<lparr>um_byID := [(9, sample_rec)],
     um_objs := [(''projects/7/recordings/9/source.webm'', ''abc'')],
     um_ct := [(''projects/7/recordings/9/source.webm'', ''video/webm'')]\<rparr>"
  by (simp add: after_put_def after_create_eq umem_Put_def umem_new_def m_set_simps)

theorem outbox_follows_the_status_witness: "outbox_inv sample_lib (umem_view after_complete)"
proof (rule outbox_follows_the_status [OF sample_lib_ok sample_uses])
  have "ups_reach sample_lib sample_enc sample_uploads umem_view umem_env umem_new after_create"
    unfolding after_create_def
    by (intro ups_create ups_start) (simp add: fresh_recording_def umem_view_def umem_new_def)
  then have "ups_reach sample_lib sample_enc sample_uploads umem_view umem_env umem_new after_put"
    by (rule ups_env) (auto simp: umem_env_def after_put_def)
  then show "ups_reach sample_lib sample_enc sample_uploads umem_view umem_env umem_new after_complete"
    unfolding after_complete_def by (rule ups_complete)
qed

text \<open>
  C5: completing an upload is all or nothing and happens once. When \<open>Complete\<close> fails, no row and no
  event changed. When it succeeds, the row is uploaded or further, and its event was added in the same
  step exactly if the upload was still in progress. A second \<open>Complete\<close> adds nothing.
\<close>

theorem complete_is_atomic_and_once:
  assumes "golib_ok L" "umem_uses S" "umem_ok r"
    and "ups_Complete L enc S u p i now now' r = (x, r1)"
    and "ups_Complete L enc S u' p i now1 now1' r1 = (y, r2)"
  shows "(case x of Inl e \<Rightarrow> umem_view r1 = umem_view r | Inr d \<Rightarrow> completed L i (umem_view r) (umem_view r1) d)
     \<and> (\<forall>d. x = Inr d \<longrightarrow> umem_view r2 = umem_view r1)"
proof -
  note steps = upload_service.Complete_steps [OF umem_service [OF assms(2)]]
  have first: "umem_ok r1" "case x of Inl e \<Rightarrow> umem_view r1 = umem_view r
      | Inr d \<Rightarrow> completed L i (umem_view r) (umem_view r1) d"
    using steps [OF assms(3,4)] by auto
  have "umem_view r2 = umem_view r1" if "x = Inr d" for d
  proof -
    have "fst (umem_view r1) i = Some d" "rec_Status d \<noteq> UPLOADING"
      using first(2) that beyond_not_uploading by (auto simp: completed_def)
    then show ?thesis using steps [OF first(1) assms(5)]
      by (cases y) (auto simp: completed_def)
  qed
  with first(2) show ?thesis by blast
qed

theorem complete_is_atomic_and_once_witness:
  "\<exists>d. fst (ups_Complete sample_lib sample_enc sample_uploads 1 7 9 200 201 after_put) = Inr d
     \<and> completed sample_lib 9 (umem_view after_put) (umem_view after_complete) d"
proof -
  have ok: "umem_ok after_put" by (simp add: after_put_eq umem_ok_def umem_new_def sample_rec_def m_wf_Cons)
  have "fst (ups_Complete sample_lib sample_enc sample_uploads 1 7 9 200 201 after_put)
      = Inr (sample_rec\<lparr>rec_Status := UPLOADED, rec_ByteSize := Some 3, rec_Checksum := ''3'', rec_UpdatedAt := 200\<rparr>)"
    unfolding after_put_eq by code_simp
  moreover from this have "ups_Complete sample_lib sample_enc sample_uploads 1 7 9 200 201 after_put
      = (Inr (sample_rec\<lparr>rec_Status := UPLOADED, rec_ByteSize := Some 3, rec_Checksum := ''3'', rec_UpdatedAt := 200\<rparr>),
         after_complete)"
    by (simp add: after_complete_def prod_eq_iff)
  ultimately show ?thesis
    using complete_is_atomic_and_once [OF sample_lib_ok sample_uses ok _ prod.collapse [symmetric]] by fastforce
qed

text \<open>
  a sweep removes only recordings whose upload is still in progress and that were last touched
  before the cutoff, at most \<open>limit\<close> of them, reports their number, and changes nothing else.
\<close>

theorem sweep_removes_only_abandoned:
  assumes "umem_uses S" "umem_ok r" "ups_SweepAbandonedUploads S olderThan limit now r = ((n, e), r')"
  shows "swept (now - olderThan) (if limit \<le> 0 then 50 else limit) (umem_view r) (umem_view r') n"
  using upload_service.Sweep_steps [OF umem_service [OF assms(1)] assms(2,3)] by blast

theorem sweep_removes_only_abandoned_witness:
  "\<exists>n e r'. ups_SweepAbandonedUploads sample_uploads 5 0 200 after_put = ((n, e), r') \<and> n = 1
     \<and> swept 195 50 (umem_view after_put) (umem_view r') n"
proof -
  have ok: "umem_ok after_put" by (simp add: after_put_eq umem_ok_def umem_new_def sample_rec_def m_wf_Cons)
  have "fst (fst (ups_SweepAbandonedUploads sample_uploads 5 0 200 after_put)) = 1"
    unfolding after_put_eq by code_simp
  moreover obtain n e r' where run: "ups_SweepAbandonedUploads sample_uploads 5 0 200 after_put = ((n, e), r')"
    by (metis prod.exhaust)
  ultimately show ?thesis
    using sweep_removes_only_abandoned [OF sample_uses ok run] by simp
qed

text \<open>
  Reprocessing and deleting are for owners: with an authorisation that refuses ownership, both fail
  and neither a recording nor an event changes.
\<close>

theorem reprocess_and_delete_need_an_owner:
  assumes "umem_uses S" "umem_ok r" "fst (pa_EnsureOwner (us_access S) u p r) = Inl e"
  shows "(\<exists>r'. ups_Reprocess L enc S u p i now r = (Inl e, r') \<and> umem_view r' = umem_view r)
       \<and> (\<exists>r'. ups_Delete L S u p i r = (Inl e, r') \<and> umem_view r' = umem_view r)"
proof -
  obtain r1 where own: "pa_EnsureOwner (us_access S) u p r = (Inl e, r1)"
    using assms(3) by (cases "pa_EnsureOwner (us_access S) u p r") simp
  have "keeps (\<lambda>r. r) (pa_EnsureOwner (us_access S) u p)"
    using assms(1) by (simp add: umem_uses_def)
  then have "r1 = r" using own by (rule keepsD)
  then show ?thesis using own
    by (simp add: ups_Reprocess_def ups_Delete_def andthen_def)
qed

theorem reprocess_and_delete_need_an_owner_witness:
  "\<exists>r'. ups_Delete sample_lib (sample_uploads\<lparr>us_access := access_member_only\<rparr>) 1 7 9 after_put
      = (Inl (ErrForbidden Uploads), r') \<and> umem_view r' = umem_view after_put"
proof -
  have "umem_uses (sample_uploads\<lparr>us_access := access_member_only\<rparr>)" "umem_ok after_put"
    using sample_uses by (auto simp: umem_uses_def access_doubles_keep after_put_eq umem_ok_def umem_new_def
        sample_rec_def m_wf_Cons)
  then show ?thesis
    using reprocess_and_delete_need_an_owner [of "sample_uploads\<lparr>us_access := access_member_only\<rparr>" after_put
        1 7 "ErrForbidden Uploads" sample_lib sample_enc 9 0]
    by (simp add: access_member_only_def)
qed

end
