(* ===== verification/Outbox.thy ===== *)
theory Outbox
  imports Uploads_Memory
begin

text \<open>
  The transactional outbox's relay (\<open>internal/uploads/adapter/outbox/relay.go\<close>) and its ports.

  The locale \<open>outbox_store\<close> is what the relay needs of \<open>WithClaimed\<close>; \<open>relay_client\<close> adds a publisher.
  The lemmas show at-least-once delivery: a message stops being pending only after the broker took it,
  and the broker gets nothing that is not in the outbox. The memory outbox interprets the locales here,
  the Postgres outbox in its own theory.
\<close>

section \<open>Ports\<close>

text \<open>\<open>fn\<close> talks to the broker, the second half of the state; the claim itself is on the first.\<close>

type_synonym ('s, 'k) with_claimed =
  "int \<Rightarrow> (outbox_message list \<Rightarrow> ('k, unit) op) \<Rightarrow> ('s \<times> 'k, unit) op"

record 'k publisher =
  pub_Publish :: "string \<Rightarrow> string \<Rightarrow> bytes \<Rightarrow> (string, string) gomap \<Rightarrow> ('k, unit) op"

definition HeaderCorrelationID :: string where "HeaderCorrelationID = ''correlation_id''"
definition HeaderRecordingID :: string where "HeaderRecordingID = ''recording_id''"

section \<open>Relay\<close>

record ('s, 'k) relay =
  rl_repo :: "('s, 'k) with_claimed"
  rl_pub :: "'k publisher"
  rl_interval :: duration
  rl_batch :: int

definition new_relay :: "('s, 'k) with_claimed \<Rightarrow> 'k publisher \<Rightarrow> ('s, 'k) relay" where
  "new_relay repo pub = \<lparr>rl_repo = repo, rl_pub = pub, rl_interval = 500 * millisecond, rl_batch = 50\<rparr>"

definition relay_headers :: "outbox_message \<Rightarrow> (string, string) gomap" where
  "relay_headers m =
     (let h = [];
          h = (if om_CorrelationID m \<noteq> [] then m_set HeaderCorrelationID (om_CorrelationID m) h else h)
      in if om_PartitionKey m \<noteq> [] then m_set HeaderRecordingID (om_PartitionKey m) h else h)"

definition relay_publish :: "'k publisher \<Rightarrow> unit \<Rightarrow> outbox_message \<Rightarrow> ('k, unit) op" where
  "relay_publish pub _ m = pub_Publish pub (om_Topic m) (om_PartitionKey m) (om_Payload m) (relay_headers m)"

definition relay_Flush :: "('s, 'k) relay \<Rightarrow> ('s \<times> 'k, unit) op" where
  "relay_Flush R = rl_repo R (rl_batch R) (\<lambda>msgs. foreach (relay_publish (rl_pub R)) () msgs)"

text \<open>\<open>Run\<close>: a flush before each of \<open>n\<close> ticks, one more, and the final one; errors are logged only.\<close>

fun relay_Run :: "('s, 'k) relay \<Rightarrow> nat \<Rightarrow> 's \<times> 'k \<Rightarrow> 's \<times> 'k" where
  "relay_Run R 0 w = snd (relay_Flush R (snd (relay_Flush R w)))"
| "relay_Run R (Suc n) w = relay_Run R n (snd (relay_Flush R w))"

section \<open>At least once\<close>

type_synonym sent = "string \<times> string \<times> bytes \<times> (string, string) gomap"

definition as_sent :: "outbox_message \<Rightarrow> sent" where
  "as_sent m = (om_Topic m, om_PartitionKey m, om_Payload m, relay_headers m)"

text \<open>
  The claim: either nothing happened, or a part of the pending messages went through \<open>fn\<close>, and they
  are no longer pending only if \<open>fn\<close> succeeded.
\<close>

locale outbox_store =
  fixes wc :: "('s, 'k) with_claimed"
    and ok :: "'s \<Rightarrow> bool"
    and pending :: "'s \<Rightarrow> outbox_message list"
    and stored :: "'s \<Rightarrow> outbox_message list"
  assumes pending_stored: "ok s \<Longrightarrow> set (pending s) \<subseteq> set (stored s)"
    and claim: "ok s \<Longrightarrow> wc lim fn (s, k) = (r, (s', k')) \<Longrightarrow>
      ok s' \<and> stored s' = stored s \<and>
      (pending s' = pending s \<and> k' = k
       \<or> (\<exists>claimed x. set claimed \<subseteq> set (pending s) \<and> fn claimed k = (x, k')
            \<and> (pending s' = pending s
               \<or> x = Inr () \<and> r = Inr () \<and> pending s' = filter (\<lambda>m. m \<notin> set claimed) (pending s))))"

locale relay_client = outbox_store wc ok pending stored
  for wc :: "('s, 'k) with_claimed" and ok :: "'s \<Rightarrow> bool" and pending :: "'s \<Rightarrow> outbox_message list"
    and stored :: "'s \<Rightarrow> outbox_message list" +
  fixes pub :: "'k publisher" and log :: "'k \<Rightarrow> sent list"
  assumes publish: "pub_Publish pub t key pl h k = (r, k') \<Longrightarrow>
      (r = Inr () \<and> log k' = log k @ [(t, key, pl, h)])
      \<or> (\<exists>e. r = Inl e \<and> (log k' = log k \<or> log k' = log k @ [(t, key, pl, h)]))"
begin

lemma publish_all:
  "foreach (relay_publish pub) () msgs k = (r, k') \<Longrightarrow>
     \<exists>more. log k' = log k @ more \<and> set more \<subseteq> as_sent ` set msgs \<and> (r = Inr () \<longrightarrow> more = map as_sent msgs)"
proof (induction msgs arbitrary: k)
  case Nil
  then show ?case by simp
next
  case (Cons m msgs)
  from Cons.prems have "andthen (relay_publish pub () m) (\<lambda>acc. foreach (relay_publish pub) acc msgs) k = (r, k')"
    by simp
  then show ?case
  proof (cases rule: andthen_cases)
    case (err e)
    have "log k' = log k \<or> log k' = log k @ [as_sent m]"
      using publish [OF err(1) [unfolded relay_publish_def]] by (auto simp: as_sent_def)
    then show ?thesis using err(2) by auto
  next
    case (ok a k1)
    have k1: "log k1 = log k @ [as_sent m]"
      using publish [OF ok(1) [unfolded relay_publish_def]] by (auto simp: as_sent_def)
    from ok(2) have "foreach (relay_publish pub) () msgs k1 = (r, k')" by simp
    from Cons.IH [OF this] obtain more where "log k' = log k1 @ more" "set more \<subseteq> as_sent ` set msgs"
      "r = Inr () \<longrightarrow> more = map as_sent msgs" by blast
    then show ?thesis using k1 by (intro exI [of _ "as_sent m # more"]) auto
  qed
qed

lemma Flush_steps:
  assumes "ok s" "rl_repo R = wc" "rl_pub R = pub" "relay_Flush R (s, k) = (r, (s', k'))"
  shows "ok s' \<and> stored s' = stored s \<and> set (pending s') \<subseteq> set (pending s)
    \<and> (\<exists>more. log k' = log k @ more \<and> set more \<subseteq> as_sent ` set (pending s)
         \<and> (\<forall>m. m \<in> set (pending s) - set (pending s') \<longrightarrow> as_sent m \<in> set more))"
proof -
  note c = claim [OF assms(1), of "rl_batch R" "\<lambda>msgs. foreach (relay_publish pub) () msgs" k r s' k']
  have run: "wc (rl_batch R) (\<lambda>msgs. foreach (relay_publish pub) () msgs) (s, k) = (r, (s', k'))"
    using assms(2-4) by (simp add: relay_Flush_def)
  from c [OF run] show ?thesis
  proof (elim conjE disjE exE)
    fix claimed x
    assume a: "ok s'" "stored s' = stored s" "set claimed \<subseteq> set (pending s)"
      "foreach (relay_publish pub) () claimed k = (x, k')"
      and p: "pending s' = pending s"
    obtain more where "log k' = log k @ more" "set more \<subseteq> as_sent ` set claimed"
      using publish_all [OF a(4)] by blast
    then show ?thesis using a p by (intro conjI exI [of _ more]) auto
  next
    fix claimed x
    assume a: "ok s'" "stored s' = stored s" "set claimed \<subseteq> set (pending s)"
      "foreach (relay_publish pub) () claimed k = (x, k')"
      and p: "x = Inr ()" "pending s' = filter (\<lambda>m. m \<notin> set claimed) (pending s)"
    have "log k' = log k @ map as_sent claimed"
      using publish_all [OF a(4)] p(1) by auto
    then show ?thesis using a p by (intro conjI exI [of _ "map as_sent claimed"]) auto
  qed auto
qed

end

section \<open>The memory outbox\<close>

definition umem_outbox_ok :: "umem \<Rightarrow> bool" where
  "umem_outbox_ok r \<longleftrightarrow> distinct (map om_ID (um_msgs r))"

lemma fold_published:
  "map_of (fold (\<lambda>m p. m_set (om_ID m) True p) ms p) i =
     (if i \<in> om_ID ` set ms then Some True else map_of p i)"
  by (induction ms arbitrary: p) auto

lemma claimed_ids:
  "umem_outbox_ok r \<Longrightarrow> set claimed \<subseteq> set (umem_pending r) \<Longrightarrow> m \<in> set (um_msgs r) \<Longrightarrow>
     om_ID m \<in> om_ID ` set claimed \<longleftrightarrow> m \<in> set claimed"
  by (auto simp: umem_outbox_ok_def distinct_map umem_pending_def dest: inj_onD)

lemma umem_claim:
  assumes "umem_outbox_ok r" "umem_WithClaimed lim fn (r, k) = (x, (r', k'))"
  shows "umem_outbox_ok r' \<and> um_msgs r' = um_msgs r \<and>
      (umem_pending r' = umem_pending r \<and> k' = k
       \<or> (\<exists>claimed y. set claimed \<subseteq> set (umem_pending r) \<and> fn claimed k = (y, k')
            \<and> (umem_pending r' = umem_pending r
               \<or> y = Inr () \<and> x = Inr () \<and> umem_pending r' = filter (\<lambda>m. m \<notin> set claimed) (umem_pending r))))"
proof -
  let ?claimed = "take (nat lim) (umem_pending r)"
  show ?thesis
  proof (cases "lim \<le> 0 \<or> ?claimed = []")
    case True
    then have "(x, r', k') = (Inr (), r, k)"
      using assms(2) by (cases "lim \<le> 0") (simp_all add: umem_WithClaimed_def Let_def)
    then show ?thesis using assms(1) by simp
  next
    case False
    obtain y k1 where fn: "fn ?claimed k = (y, k1)" by fastforce
    have sub: "set ?claimed \<subseteq> set (umem_pending r)" by (rule set_take_subset)
    show ?thesis
    proof (cases y)
      case (Inl e)
      then have "r' = r" "k' = k1" using assms(2) False fn by (auto simp: umem_WithClaimed_def)
      then show ?thesis using assms(1) sub fn by blast
    next
      case (Inr u)
      then have r': "x = Inr ()" "k' = k1"
        "r' = r\<lparr>um_published := fold (\<lambda>m p. m_set (om_ID m) True p) ?claimed (um_published r)\<rparr>"
        using assms(2) False fn by (auto simp: umem_WithClaimed_def)
      have "om_ID m \<in> om_ID ` set ?claimed \<longleftrightarrow> m \<in> set ?claimed" if "m \<in> set (um_msgs r)" for m
        by (rule claimed_ids [OF assms(1) sub that])
      then have "umem_pending r' = filter (\<lambda>m. m \<notin> set ?claimed) (umem_pending r)"
        unfolding r'(3) by (auto simp: umem_pending_def fold_published intro!: filter_cong)
      then show ?thesis using assms(1) sub fn r' Inr
        by (auto simp: umem_outbox_ok_def)
    qed
  qed
qed

interpretation umem_outbox: outbox_store umem_WithClaimed umem_outbox_ok umem_pending um_msgs
proof unfold_locales
  show "set (umem_pending r) \<subseteq> set (um_msgs r)" for r by (auto simp: umem_pending_def)
qed (rule umem_claim)

text \<open>
  A broker as the relay sees it: it keeps what it accepted, and refuses when it is down.
\<close>

record broker =
  bk_log :: "sent list"
  bk_down :: bool

definition broker_publisher :: "broker publisher" where
  "broker_publisher = \<lparr>pub_Publish = (\<lambda>t key pl h k.
     if bk_down k then (Inl (ErrOther ''kafka publish''), k) else (Inr (), k\<lparr>bk_log := bk_log k @ [(t, key, pl, h)]\<rparr>))\<rparr>"

interpretation umem_relay: relay_client umem_WithClaimed umem_outbox_ok umem_pending um_msgs broker_publisher bk_log
  by unfold_locales (auto simp: broker_publisher_def split: if_splits)

section \<open>Uploads and relay together\<close>

text \<open>
  What any call of the upload service does to the outbox: it appends messages with fresh numbers and
  leaves the published marks alone.
\<close>

definition outbox_grows :: "umem \<Rightarrow> umem \<Rightarrow> bool" where
  "outbox_grows r0 r \<longleftrightarrow> um_published r = um_published r0 \<and> um_nextOutbox r0 \<le> um_nextOutbox r
     \<and> (\<exists>new. um_msgs r = um_msgs r0 @ new \<and> (\<forall>m\<in>set new. um_nextOutbox r0 < om_ID m))"

lemma grows_refl: "outbox_grows r r"
  by (simp add: outbox_grows_def)

lemma grows_add: "outbox_grows r0 r \<Longrightarrow> outbox_grows r0 (umem_add_outbox t k pl c r)"
  by (force simp: outbox_grows_def umem_add_outbox_def Let_def)

lemma grows_rows: "outbox_grows r0 (r\<lparr>um_byID := b\<rparr>) = outbox_grows r0 r"
  by (simp add: outbox_grows_def)

lemma grows_repo [preserves_intros]:
  "preserves (outbox_grows r0) (rr_Create umem_repo rec)" "preserves (outbox_grows r0) (rr_Get umem_repo i)"
  "preserves (outbox_grows r0) (rr_CompleteWithOutbox umem_repo rec t k pl c)"
  "preserves (outbox_grows r0) (rr_InsertOutbox umem_repo t k pl c)"
  "preserves (outbox_grows r0) (rr_ListAbandonedUploading umem_repo before lim)"
  "preserves (outbox_grows r0) (rr_DeleteIfStatus umem_repo i st)" "preserves (outbox_grows r0) (rr_Delete umem_repo i)"
  by (auto simp: preserves_def umem_repo_def umem_Create_def umem_Get_def umem_CompleteWithOutbox_def
      umem_InsertOutbox_def umem_ListAbandonedUploading_def umem_DeleteIfStatus_def umem_Delete_def
      grows_add grows_rows Let_def split: option.splits)

lemma grows_storage [preserves_intros]:
  "preserves (outbox_grows r0) (os_PresignPut umem_storage key ct ttl)"
  "preserves (outbox_grows r0) (os_Stat umem_storage key)"
  "preserves (outbox_grows r0) (os_Delete umem_storage key)"
  "preserves (outbox_grows r0) (os_DeletePrefix umem_storage key)"
  by (auto simp: preserves_def umem_storage_def umem_PresignPut_def umem_Stat_def umem_ObjDelete_def
      umem_DeletePrefix_def outbox_grows_def Let_def)

lemma grows_access [preserves_intros]:
  assumes "umem_uses S"
  shows "preserves P (pa_EnsureMember (us_access S) u p)" "preserves P (pa_EnsureOwner (us_access S) u p)"
  using assms by (auto simp: umem_uses_def preserves_def keeps_def)

lemma grows_calls:
  assumes "umem_uses S"
  shows "preserves (outbox_grows r0) (ups_Create L S inp ctxCorr fresh now)"
    and "preserves (outbox_grows r0) (ups_Complete L enc S u p i now now')"
    and "preserves (outbox_grows r0) (ups_Reprocess L enc S u p i now)"
    and "preserves (outbox_grows r0) (ups_Delete L S u p i)"
proof -
  consider "us_recordings S = umem_repo" "us_storage S = None"
    | "us_recordings S = umem_repo" "us_storage S = Some umem_storage"
    using assms by (auto simp: umem_uses_def)
  note case_split = this
  show "preserves (outbox_grows r0) (ups_Create L S inp ctxCorr fresh now)"
    by (rule case_split; simp only: ups_Create_def nil_call_def Let_def option.case;
        intro preserves_intros grows_access [OF assms])
  show "preserves (outbox_grows r0) (ups_Complete L enc S u p i now now')"
    by (rule case_split; simp only: ups_Complete_def ups_find_def nil_call_def option.case;
        intro preserves_intros grows_access [OF assms])
  show "preserves (outbox_grows r0) (ups_Reprocess L enc S u p i now)"
    by (rule case_split; simp only: ups_Reprocess_def ups_find_def;
        intro preserves_intros preserves_option grows_access [OF assms])
  show "preserves (outbox_grows r0) (ups_Delete L S u p i)"
    by (rule case_split; simp only: ups_Delete_def ups_find_def option.case;
        intro preserves_intros grows_access [OF assms])
qed

lemma grows_sweep_one:
  assumes "umem_uses S" "outbox_grows r0 r"
  shows "outbox_grows r0 (snd (sweep_one S rec r))"
proof -
  have repo: "us_recordings S = umem_repo" and st: "us_storage S = None \<or> us_storage S = Some umem_storage"
    using assms(1) by (auto simp: umem_uses_def)
  obtain x r1 where d: "rr_DeleteIfStatus umem_repo (rec_ID rec) UPLOADING r = (x, r1)" by fastforce
  then have r1: "outbox_grows r0 r1" using preservesD [OF grows_repo(6)] assms(2) by blast
  have "outbox_grows r0 (snd (os_Delete umem_storage key r1))" for key
    using grows_storage(3) r1 by (simp add: preserves_def)
  then show ?thesis using d r1 st
    by (cases x) (auto simp: sweep_one_def repo)
qed

lemma grows_sweep:
  "umem_uses S \<Longrightarrow> outbox_grows r0 r \<Longrightarrow> outbox_grows r0 (snd (sweep_rows S n rs r))"
proof (induction S n rs r rule: sweep_rows.induct)
  case (2 S removed rec rows s)
  have "outbox_grows r0 (snd (sweep_one S rec s))" using grows_sweep_one 2 by blast
  then show ?case using 2 by (auto split: prod.splits sum.splits)
qed simp

lemma grows_sweep_call:
  assumes "umem_uses S" "outbox_grows r0 r"
  shows "outbox_grows r0 (snd (ups_SweepAbandonedUploads S olderThan limit now r))"
proof -
  have repo: "us_recordings S = umem_repo" using assms(1) by (simp add: umem_uses_def)
  have "snd (rr_ListAbandonedUploading umem_repo before lim r) = r" for before lim
    by (simp add: umem_repo_def umem_ListAbandonedUploading_def Let_def)
  then show ?thesis using grows_sweep [OF assms] assms(2)
    by (auto simp: ups_SweepAbandonedUploads_def repo Let_def split: prod.splits sum.splits) (metis snd_conv)+
qed

lemma reach_grows:
  assumes "ups_reach L enc S umem_view umem_env r0 r" "umem_uses S"
  shows "outbox_grows r0 r"
  using assms(1)
proof (induction rule: ups_reach.induct)
  case ups_start
  show ?case by (rule grows_refl)
next
  case (ups_env s s')
  then show ?case by (auto simp: umem_env_def umem_Put_def outbox_grows_def)
next
  case (ups_sweep s olderThan limit now)
  then show ?case using grows_sweep_call [OF assms(2)] by blast
next
  case (ups_create s fresh inp ctxCorr now)
  then show ?case using preservesD [OF grows_calls(1) [OF assms(2)] prod.collapse [symmetric]] by blast
next
  case (ups_complete s userID projectID recordingID now now')
  then show ?case using preservesD [OF grows_calls(2) [OF assms(2)] prod.collapse [symmetric]] by blast
next
  case (ups_reprocess s userID projectID recordingID now)
  then show ?case using preservesD [OF grows_calls(3) [OF assms(2)] prod.collapse [symmetric]] by blast
next
  case (ups_delete s userID projectID recordingID)
  then show ?case using preservesD [OF grows_calls(4) [OF assms(2)] prod.collapse [symmetric]] by blast
qed

text \<open>
  The upload service, its relay and the broker running together: calls of the service, flushes, and
  outages of the broker in any order.
\<close>

inductive outbox_reach :: "'z golib_scheme \<Rightarrow> (uploaded_event \<Rightarrow> err + bytes) \<Rightarrow> umem upload_service
    \<Rightarrow> umem \<times> broker \<Rightarrow> bool"
  for L :: "'z golib_scheme" and enc :: "uploaded_event \<Rightarrow> err + bytes" and S :: "umem upload_service" where
  ob_start: "outbox_reach L enc S (umem_new, \<lparr>bk_log = [], bk_down = False\<rparr>)"
| ob_service: "outbox_reach L enc S (r, k) \<Longrightarrow> ups_reach L enc S umem_view umem_env r r' \<Longrightarrow> outbox_reach L enc S (r', k)"
| ob_flush: "outbox_reach L enc S w \<Longrightarrow>
    outbox_reach L enc S (snd (relay_Flush (new_relay umem_WithClaimed broker_publisher) w))"
| ob_outage: "outbox_reach L enc S (r, k) \<Longrightarrow> outbox_reach L enc S (r, k\<lparr>bk_down := d\<rparr>)"

definition relay_inv :: "umem \<times> broker \<Rightarrow> bool" where
  "relay_inv w \<longleftrightarrow> (let (r, k) = w in umem_ok r \<and>
     (\<forall>i. m_get (um_published r) i = Some True \<longrightarrow> i \<le> um_nextOutbox r) \<and>
     (\<forall>m\<in>set (um_msgs r). m \<in> set (umem_pending r) \<or> as_sent m \<in> set (bk_log k)) \<and>
     (\<forall>x\<in>set (bk_log k). \<exists>m\<in>set (um_msgs r). x = as_sent m))"

lemma relay_inv_service:
  assumes "relay_inv (r, k)" "outbox_grows r r'" "umem_ok r'"
  shows "relay_inv (r', k)"
proof -
  obtain new where msgs: "um_msgs r' = um_msgs r @ new" and new: "\<forall>m\<in>set new. um_nextOutbox r < om_ID m"
    and eq: "um_published r' = um_published r" and le: "um_nextOutbox r \<le> um_nextOutbox r'"
    using assms(2) by (auto simp: outbox_grows_def)
  have pub: "m_get (um_published r) i = Some True \<Longrightarrow> i \<le> um_nextOutbox r" for i
    using assms(1) by (simp add: relay_inv_def)
  have "m \<in> set (umem_pending r')" if "m \<in> set new" for m
    using that new pub [of "om_ID m"] by (auto simp: umem_pending_def msgs eq)
  moreover have "set (umem_pending r) \<subseteq> set (umem_pending r')"
    by (auto simp: umem_pending_def msgs eq)
  ultimately show ?thesis using assms(1,3) pub le msgs eq
    by (fastforce simp: relay_inv_def)
qed

lemma umem_WithClaimed_frame:
  "umem_WithClaimed lim fn (r, k) = (x, (r', k')) \<Longrightarrow>
     umem_view r' = umem_view r \<and> um_nextOutbox r' = um_nextOutbox r \<and> um_byID r' = um_byID r \<and>
     (\<forall>i. m_get (um_published r') i = Some True \<longrightarrow>
        m_get (um_published r) i = Some True \<or> i \<in> om_ID ` set (um_msgs r))"
  by (auto simp: umem_WithClaimed_def Let_def umem_view_def fold_published umem_pending_def
      split: if_splits sum.splits prod.splits dest!: in_set_takeD)

lemma relay_inv_flush:
  assumes "relay_inv (r, k)" "relay_Flush (new_relay umem_WithClaimed broker_publisher) (r, k) = (x, (r', k'))"
  shows "relay_inv (r', k')"
proof -
  have ok: "umem_ok r" and ook: "umem_outbox_ok r"
    using assms(1) by (simp_all add: relay_inv_def umem_ok_def umem_outbox_ok_def)
  have "umem_WithClaimed 50 (\<lambda>msgs. foreach (relay_publish broker_publisher) () msgs) (r, k) = (x, (r', k'))"
    using assms(2) by (simp add: relay_Flush_def new_relay_def)
  note f = umem_WithClaimed_frame [OF this]
  note s = umem_relay.Flush_steps [OF ook _ _ assms(2)]
  have st: "um_msgs r' = um_msgs r" using s by (simp add: new_relay_def)
  obtain more where more: "bk_log k' = bk_log k @ more" "set more \<subseteq> as_sent ` set (umem_pending r)"
    "\<forall>m. m \<in> set (umem_pending r) - set (umem_pending r') \<longrightarrow> as_sent m \<in> set more"
    using s by (auto simp: new_relay_def)
  have "umem_ok r'" using ok f st by (simp add: umem_ok_def)
  moreover have "\<forall>i. m_get (um_published r') i = Some True \<longrightarrow> i \<le> um_nextOutbox r'"
    using f assms(1) ok by (fastforce simp: relay_inv_def umem_ok_def)
  moreover have "\<forall>m\<in>set (um_msgs r'). m \<in> set (umem_pending r') \<or> as_sent m \<in> set (bk_log k')"
    using assms(1) more st by (fastforce simp: relay_inv_def)
  moreover have "\<forall>x\<in>set (bk_log k'). \<exists>m\<in>set (um_msgs r'). x = as_sent m"
    using assms(1) more st umem_outbox.pending_stored [OF ook] by (fastforce simp: relay_inv_def)
  ultimately show ?thesis by (simp add: relay_inv_def)
qed

lemma reach_relay_inv:
  assumes "outbox_reach L enc S w" "golib_ok L" "umem_uses S"
  shows "relay_inv w \<and> outbox_inv L (umem_view (fst w))"
  using assms(1)
proof (induction rule: outbox_reach.induct)
  case ob_start
  show ?case using umem_new_ok by (simp add: relay_inv_def umem_new_def)
next
  case (ob_service r k r')
  then have "umem_ok r" by (simp add: relay_inv_def)
  then have "umem_ok r' \<and> outbox_inv L (umem_view r')"
    using upload_service.reach_outbox_inv [OF umem_service [OF assms(3)] ob_service(2) _ _ assms(2)]
      umem_env_keeps ob_service by auto
  then show ?case using relay_inv_service reach_grows [OF ob_service(2) assms(3)] ob_service by auto
next
  case (ob_flush w)
  obtain r k where w: "w = (r, k)" by fastforce
  obtain x r' k' where run: "relay_Flush (new_relay umem_WithClaimed broker_publisher) w = (x, (r', k'))"
    by (metis prod.exhaust)
  have "umem_WithClaimed 50 (\<lambda>msgs. foreach (relay_publish broker_publisher) () msgs) (r, k) = (x, (r', k'))"
    using run w by (simp add: relay_Flush_def new_relay_def)
  from umem_WithClaimed_frame [OF this] have "umem_view r' = umem_view r" by simp
  moreover have "relay_inv (r', k')" using relay_inv_flush [of r k x r' k'] run w ob_flush.IH by simp
  ultimately show ?case using run w ob_flush by simp
next
  case (ob_outage r k d)
  then show ?case by (simp add: relay_inv_def)
qed

section \<open>Properties\<close>

text \<open>
  delivery at least once. However calls, flushes and outages of the broker interleave, every
  recording that is uploaded or further has its event either still pending in the outbox or accepted
  by the broker, and the broker never accepts anything that is not an event of the outbox.
\<close>

theorem events_are_never_lost:
  assumes "golib_ok L" "umem_uses S" "outbox_reach L enc S (r, k)"
  shows "(\<forall>i rec. m_get (um_byID r) i = Some rec \<and> is_uploaded_or_beyond rec \<longrightarrow>
       (\<exists>m\<in>set (um_msgs r). om_Topic m = TopicRecordingUploaded \<and> om_PartitionKey m = uuid_string L i
          \<and> (m \<in> set (umem_pending r) \<or> as_sent m \<in> set (bk_log k))))
     \<and> (\<forall>x\<in>set (bk_log k). \<exists>m\<in>set (um_msgs r). x = as_sent m)"
proof -
  have "relay_inv (r, k)" "outbox_inv L (umem_view r)"
    using reach_relay_inv [OF assms(3,1,2)] by simp_all
  then show ?thesis by (fastforce simp: relay_inv_def outbox_inv_def announces_def umem_view_def)
qed

theorem events_are_never_lost_witness:
  "\<exists>m. as_sent m \<in> set (bk_log (snd (snd (relay_Flush (new_relay umem_WithClaimed broker_publisher)
       (after_complete, \<lparr>bk_log = [], bk_down = False\<rparr>)))))"
proof -
  have "outbox_reach sample_lib sample_enc sample_uploads (after_create, \<lparr>bk_log = [], bk_down = False\<rparr>)"
    by (rule ob_service [OF ob_start])
      (auto simp: after_create_def fresh_recording_def umem_view_def umem_new_def intro!: ups_create ups_start)
  then have "outbox_reach sample_lib sample_enc sample_uploads (after_complete, \<lparr>bk_log = [], bk_down = False\<rparr>)"
    unfolding after_complete_def
    by (rule ob_service [OF _ ups_complete [OF ups_env [OF ups_start]]]) (auto simp: after_put_def umem_env_def)
  from ob_flush [OF this] obtain r k where
    w: "snd (relay_Flush (new_relay umem_WithClaimed broker_publisher) (after_complete, \<lparr>bk_log = [], bk_down = False\<rparr>)) = (r, k)"
    and reach: "outbox_reach sample_lib sample_enc sample_uploads (r, k)"
    by (metis prod.exhaust)
  have "umem_pending (fst (snd (relay_Flush (new_relay umem_WithClaimed broker_publisher)
      (after_complete, \<lparr>bk_log = [], bk_down = False\<rparr>)))) = []"
    unfolding after_complete_def after_put_eq by code_simp
  moreover have "case m_get (um_byID (fst (snd (relay_Flush (new_relay umem_WithClaimed broker_publisher)
      (after_complete, \<lparr>bk_log = [], bk_down = False\<rparr>))))) 9 of Some rec \<Rightarrow> is_uploaded_or_beyond rec | None \<Rightarrow> False"
    unfolding after_complete_def after_put_eq by code_simp
  ultimately show ?thesis
    using events_are_never_lost [OF sample_lib_ok sample_uses reach] w
    by (auto split: option.splits)
qed

text \<open>With the broker up, a flush publishes the oldest 50 pending messages, in order.\<close>

lemma publish_all_up:
  "\<not> bk_down k \<Longrightarrow> foreach (relay_publish broker_publisher) () msgs k
     = (Inr (), k\<lparr>bk_log := bk_log k @ map as_sent msgs\<rparr>)"
  by (induction msgs arbitrary: k) (auto simp: andthen_def relay_publish_def broker_publisher_def as_sent_def)

lemma filter_not_take:
  assumes "distinct xs"
  shows "filter (\<lambda>x. x \<notin> set (take n xs)) xs = drop n xs"
proof -
  let ?P = "\<lambda>x. x \<notin> set (take n xs)"
  have "filter ?P (take n xs) = []" by (simp add: filter_empty_conv)
  moreover have "filter ?P (drop n xs) = drop n xs"
    by (rule filter_True) (use set_take_disj_set_drop_if_distinct [OF assms, of n n] in auto)
  ultimately have "filter ?P (take n xs @ drop n xs) = drop n xs" by (simp only: filter_append append_Nil)
  then show ?thesis by (simp only: append_take_drop_id)
qed

lemma flush_up:
  assumes "umem_outbox_ok r" "\<not> bk_down k"
  shows "\<exists>r' k'. relay_Flush (new_relay umem_WithClaimed broker_publisher) (r, k) = (Inr (), (r', k'))
    \<and> umem_outbox_ok r' \<and> \<not> bk_down k' \<and> umem_pending r' = drop 50 (umem_pending r)
    \<and> bk_log k' = bk_log k @ map as_sent (take 50 (umem_pending r))"
proof -
  let ?claimed = "take 50 (umem_pending r)"
  have d: "distinct (umem_pending r)"
    using assms(1) by (auto simp: umem_pending_def umem_outbox_ok_def distinct_map)
  obtain x r' k' where run: "umem_WithClaimed 50 (\<lambda>msgs. foreach (relay_publish broker_publisher) () msgs) (r, k) = (x, (r', k'))"
    by (metis prod.exhaust)
  show ?thesis
  proof (cases "umem_pending r = []")
    case True
    then have "(x, r', k') = (Inr (), r, k)" using run by (simp add: umem_WithClaimed_def)
    then show ?thesis using assms run True by (auto simp: relay_Flush_def new_relay_def)
  next
    case False
    then have eq: "x = Inr ()" "k' = k\<lparr>bk_log := bk_log k @ map as_sent ?claimed\<rparr>"
      "r' = r\<lparr>um_published := fold (\<lambda>m p. m_set (om_ID m) True p) ?claimed (um_published r)\<rparr>"
      using run assms(2) by (auto simp: umem_WithClaimed_def publish_all_up Let_def)
    have "om_ID m \<in> om_ID ` set ?claimed \<longleftrightarrow> m \<in> set ?claimed" if "m \<in> set (um_msgs r)" for m
      by (rule claimed_ids [OF assms(1) set_take_subset that])
    then have "umem_pending r' = filter (\<lambda>m. m \<notin> set ?claimed) (umem_pending r)"
      unfolding eq by (auto simp: umem_pending_def fold_published intro!: filter_cong)
    then show ?thesis using assms run eq filter_not_take [OF d, of 50]
      by (auto simp: relay_Flush_def new_relay_def umem_outbox_ok_def)
  qed
qed

text \<open>
  C6: while the broker is up, the relay empties the outbox: \<open>n\<close> ticks are enough for
  \<open>50 * (n + 2)\<close> pending messages, and the broker receives them in the order of the outbox.
\<close>

theorem relay_drains_the_outbox:
  assumes "umem_outbox_ok r" "\<not> bk_down k" "length (umem_pending r) \<le> 50 * (n + 2)"
  shows "umem_pending (fst (relay_Run (new_relay umem_WithClaimed broker_publisher) n (r, k))) = []
    \<and> bk_log (snd (relay_Run (new_relay umem_WithClaimed broker_publisher) n (r, k)))
        = bk_log k @ map as_sent (umem_pending r)"
  using assms
proof (induction n arbitrary: r k)
  case 0
  obtain r1 k1 where f1: "snd (relay_Flush (new_relay umem_WithClaimed broker_publisher) (r, k)) = (r1, k1)"
    "umem_outbox_ok r1" "\<not> bk_down k1" "umem_pending r1 = drop 50 (umem_pending r)"
    "bk_log k1 = bk_log k @ map as_sent (take 50 (umem_pending r))"
    using flush_up [OF 0(1,2)] by auto
  obtain r2 k2 where "snd (relay_Flush (new_relay umem_WithClaimed broker_publisher) (r1, k1)) = (r2, k2)"
    "umem_pending r2 = drop 50 (umem_pending r1)" "bk_log k2 = bk_log k1 @ map as_sent (take 50 (umem_pending r1))"
    using flush_up [OF f1(2,3)] by auto
  moreover have "take 50 (drop 50 (umem_pending r)) = drop 50 (umem_pending r)" using 0(3) by simp
  ultimately show ?case using f1 0(3) by (simp flip: map_append)
next
  case (Suc n)
  obtain r1 k1 where f1: "snd (relay_Flush (new_relay umem_WithClaimed broker_publisher) (r, k)) = (r1, k1)"
    "umem_outbox_ok r1" "\<not> bk_down k1" "umem_pending r1 = drop 50 (umem_pending r)"
    "bk_log k1 = bk_log k @ map as_sent (take 50 (umem_pending r))"
    using flush_up [OF Suc.prems(1,2)] by auto
  have "length (umem_pending r1) \<le> 50 * (n + 2)" using f1(4) Suc.prems(3) by simp
  from Suc.IH [OF f1(2,3) this] show ?case using f1 by (simp flip: map_append)
qed

theorem relay_drains_the_outbox_witness:
  "umem_pending after_complete \<noteq> [] \<and>
   umem_pending (fst (relay_Run (new_relay umem_WithClaimed broker_publisher) 0
      (after_complete, \<lparr>bk_log = [], bk_down = False\<rparr>))) = []"
proof -
  have "length (umem_pending after_complete) = 1" unfolding after_complete_def after_put_eq by code_simp
  moreover have "length (um_msgs after_complete) = 1" unfolding after_complete_def after_put_eq by code_simp
  moreover have "distinct (map om_ID ms)" if "length ms = 1" for ms
    using that by (cases ms) auto
  ultimately show ?thesis
    using relay_drains_the_outbox [of after_complete "\<lparr>bk_log = [], bk_down = False\<rparr>" 0]
    by (auto simp: umem_outbox_ok_def)
qed

end
