(* ===== verification/Json.thy ===== *)
theory Json
  imports Go_Strings
begin

text \<open>
  The syntax check of \<open>encoding/json\<close>: which byte strings are one JSON value. \<open>json.Unmarshal\<close> refuses
  the others before it looks at the target, and \<open>json.Marshal\<close> refuses a \<open>json.RawMessage\<close> field that
  holds one of them. The scanners return what is left after the value; the first argument of the mutual
  ones is fuel (a call that goes on has consumed a byte since its caller's caller, so two units per byte
  are enough), the second the nesting depth, which Go bounds by 10000.
\<close>

definition is_ws :: "char \<Rightarrow> bool" where
  "is_ws c \<longleftrightarrow> c \<in> set [CHR '' '', CHR 0x09, CHR 0x0A, CHR 0x0D]"

definition skip_ws :: "string \<Rightarrow> string" where
  "skip_ws s = dropWhile is_ws s"

definition is_digit :: "char \<Rightarrow> bool" where
  "is_digit c \<longleftrightarrow> (let n = of_char c :: nat in 48 \<le> n \<and> n \<le> 57)"

definition is_hex :: "char \<Rightarrow> bool" where
  "is_hex c \<longleftrightarrow> (let n = of_char c :: nat in 48 \<le> n \<and> n \<le> 57 \<or> 65 \<le> n \<and> n \<le> 70 \<or> 97 \<le> n \<and> n \<le> 102)"

text \<open>After the opening quote, up to and with the closing one.\<close>

fun scan_string :: "string \<Rightarrow> string option" where
  "scan_string [] = None"
| "scan_string (c # cs) =
     (if c = CHR 0x22 then Some cs
      else if c = CHR 0x5C then
        (case cs of
           [] \<Rightarrow> None
         | d # ds \<Rightarrow>
             if d \<in> set [CHR ''b'', CHR ''f'', CHR ''n'', CHR ''r'', CHR ''t'', CHR 0x5C, CHR ''/'', CHR 0x22]
             then scan_string ds
             else if d = CHR ''u'' then
               (case ds of
                  a # b # x # y # rest \<Rightarrow>
                    if is_hex a \<and> is_hex b \<and> is_hex x \<and> is_hex y then scan_string rest else None
                | _ \<Rightarrow> None)
             else None)
      else if (of_char c :: nat) < 32 then None
      else scan_string cs)"

definition scan_digits :: "string \<Rightarrow> string option" where
  "scan_digits s = (case s of c # cs \<Rightarrow> if is_digit c then Some (dropWhile is_digit cs) else None | [] \<Rightarrow> None)"

definition scan_frac :: "string \<Rightarrow> string option" where
  "scan_frac s = (case s of c # cs \<Rightarrow> if c = CHR ''.'' then scan_digits cs else Some s | [] \<Rightarrow> Some s)"

definition scan_exp :: "string \<Rightarrow> string option" where
  "scan_exp s = (case s of
     c # cs \<Rightarrow> if c = CHR ''e'' \<or> c = CHR ''E''
               then scan_digits (case cs of d # ds \<Rightarrow> if d = CHR ''+'' \<or> d = CHR ''-'' then ds else cs | [] \<Rightarrow> cs)
               else Some s
   | [] \<Rightarrow> Some s)"

definition scan_number :: "string \<Rightarrow> string option" where
  "scan_number s =
     (let t = (case s of c # cs \<Rightarrow> if c = CHR ''-'' then cs else s | [] \<Rightarrow> s)
      in case t of
           [] \<Rightarrow> None
         | c # cs \<Rightarrow>
             (case (if c = CHR ''0'' then Some cs else scan_digits t) of
                None \<Rightarrow> None
              | Some r \<Rightarrow> (case scan_frac r of None \<Rightarrow> None | Some q \<Rightarrow> scan_exp q)))"

definition scan_word :: "string \<Rightarrow> string \<Rightarrow> string option" where
  "scan_word w s = (if has_prefix s w then Some (drop (length w) s) else None)"

fun scan_value :: "nat \<Rightarrow> nat \<Rightarrow> string \<Rightarrow> string option"
and scan_elems :: "nat \<Rightarrow> nat \<Rightarrow> string \<Rightarrow> string option"
and scan_fields :: "nat \<Rightarrow> nat \<Rightarrow> string \<Rightarrow> string option" where
  "scan_value 0 d s = None"
| "scan_value (Suc n) d s0 =
     (case skip_ws s0 of
        [] \<Rightarrow> None
      | c # cs \<Rightarrow>
          if c = CHR 0x22 then scan_string cs
          else if c = CHR ''['' then
            if d \<ge> 10000 then None
            else (case skip_ws cs of e # es \<Rightarrow> if e = CHR '']'' then Some es else scan_elems n (Suc d) cs | [] \<Rightarrow> None)
          else if c = CHR ''{'' then
            if d \<ge> 10000 then None
            else (case skip_ws cs of e # es \<Rightarrow> if e = CHR ''}'' then Some es else scan_fields n (Suc d) cs | [] \<Rightarrow> None)
          else if c = CHR ''t'' then scan_word ''true'' (c # cs)
          else if c = CHR ''f'' then scan_word ''false'' (c # cs)
          else if c = CHR ''n'' then scan_word ''null'' (c # cs)
          else scan_number (c # cs))"
| "scan_elems 0 d s = None"
| "scan_elems (Suc n) d s =
     (case scan_value n d s of
        None \<Rightarrow> None
      | Some r \<Rightarrow>
          (case skip_ws r of
             c # cs \<Rightarrow> if c = CHR '','' then scan_elems n d cs else if c = CHR '']'' then Some cs else None
           | [] \<Rightarrow> None))"
| "scan_fields 0 d s = None"
| "scan_fields (Suc n) d s =
     (case skip_ws s of
        q # qs \<Rightarrow>
          if q \<noteq> CHR 0x22 then None
          else (case scan_string qs of
            None \<Rightarrow> None
          | Some r \<Rightarrow>
              (case skip_ws r of
                 k # ks \<Rightarrow>
                   if k \<noteq> CHR '':'' then None
                   else (case scan_value n d ks of
                     None \<Rightarrow> None
                   | Some v \<Rightarrow>
                       (case skip_ws v of
                          c # cs \<Rightarrow> if c = CHR '','' then scan_fields n d cs else if c = CHR ''}'' then Some cs else None
                        | [] \<Rightarrow> None))
               | [] \<Rightarrow> None))
      | [] \<Rightarrow> None)"

definition json_valid :: "bytes \<Rightarrow> bool" where
  "json_valid s = (case scan_value (Suc (2 * length s)) 0 s of None \<Rightarrow> False | Some r \<Rightarrow> skip_ws r = [])"

text \<open>Spot checks of the scanner.\<close>

lemma json_valid_examples:
  "json_valid ''[1, 2.5e-3, true, null]''"
  "\<not> json_valid ''not json''" "\<not> json_valid []" "\<not> json_valid ''01''" "json_valid ''{ }''" "\<not> json_valid ''[1,]''"
  by code_simp+

end
