(* ===== verification/Kafka.thy ===== *)
theory Kafka
  imports Complex_Main Outbox Json
begin

text \<open>
  \<open>internal/platform/kafka\<close> (headers, publisher, backoff, retries, dead letters, attempt counters) and
  \<open>internal/platform/logging\<close>'s context values.

  The world \<open>'w\<close> of a consumer holds whatever its operations act on. A loop that may not end has fuel:
  \<open>None\<close> means the fuel ran out. The locale \<open>attempt_budget\<close> is what the retry loop needs of an attempt
  counter to end; the memory tracker and the Postgres store with its fallback interpret it.
\<close>

section \<open>Context values\<close>

record log_ctx =
  lx_request_id :: "string option"
  lx_correlation_id :: "string option"
  lx_recording_id :: "string option"

definition ctx_with_request_id :: "string \<Rightarrow> log_ctx \<Rightarrow> log_ctx" where
  "ctx_with_request_id v c = c\<lparr>lx_request_id := Some v\<rparr>"

definition ctx_with_correlation_id :: "string \<Rightarrow> log_ctx \<Rightarrow> log_ctx" where
  "ctx_with_correlation_id v c = c\<lparr>lx_correlation_id := Some v\<rparr>"

definition ctx_with_recording_id :: "string \<Rightarrow> log_ctx \<Rightarrow> log_ctx" where
  "ctx_with_recording_id v c = c\<lparr>lx_recording_id := Some v\<rparr>"

definition request_id_from_ctx :: "log_ctx \<Rightarrow> string" where
  "request_id_from_ctx c = (case lx_request_id c of Some v \<Rightarrow> v | None \<Rightarrow> [])"

definition correlation_id_from_ctx :: "log_ctx \<Rightarrow> string" where
  "correlation_id_from_ctx c = (case lx_correlation_id c of Some v \<Rightarrow> v | None \<Rightarrow> [])"

text \<open>\<open>WithContext\<close>: the attributes it adds to the logger.\<close>

definition log_attrs :: "log_ctx \<Rightarrow> (string \<times> string) list" where
  "log_attrs c =
     (case lx_request_id c of Some v \<Rightarrow> if v \<noteq> [] then [(''request_id'', v)] else [] | None \<Rightarrow> [])
   @ (case lx_correlation_id c of Some v \<Rightarrow> if v \<noteq> [] then [(''correlation_id'', v)] else [] | None \<Rightarrow> [])
   @ (case lx_recording_id c of Some v \<Rightarrow> if v \<noteq> [] then [(''recording_id'', v)] else [] | None \<Rightarrow> [])"

datatype log_level = LevelDebug | LevelInfo | LevelWarn | LevelError

definition log_level_of :: "'z golib_scheme \<Rightarrow> string \<Rightarrow> log_level" where
  "log_level_of L level =
     (let s = to_lower L level
      in if s = ''debug'' then LevelDebug
         else if s = ''warn'' \<or> s = ''warning'' then LevelWarn
         else if s = ''error'' then LevelError
         else LevelInfo)"

section \<open>Messages\<close>

record kafka_message =
  km_Topic :: string
  km_Partition :: int
  km_Offset :: int
  km_Key :: bytes
  km_Value :: bytes
  km_Headers :: "(string \<times> bytes) list"
  km_Time :: go_time

fun header_value_in :: "(string \<times> bytes) list \<Rightarrow> string \<Rightarrow> string" where
  "header_value_in [] key = []"
| "header_value_in ((k, v) # hs) key = (if k = key \<and> 0 < length v then v else header_value_in hs key)"

definition header_value :: "kafka_message \<Rightarrow> string \<Rightarrow> string" where
  "header_value msg key = header_value_in (km_Headers msg) key"

definition correlation_id :: "kafka_message \<Rightarrow> string \<Rightarrow> string" where
  "correlation_id msg fallback =
     (let v = header_value msg HeaderCorrelationID in if v \<noteq> [] then v else fallback)"

definition dialer_client_id :: "string \<Rightarrow> string" where
  "dialer_client_id clientID = (let i = trim_space clientID in if i = [] then ''bugsathi'' else i)"

text \<open>\<open>write\<close> is the writer's \<open>WriteMessages\<close> on one message.\<close>

definition kafka_Publish ::
    "(kafka_message \<Rightarrow> ('w, unit) op) \<Rightarrow> go_time \<Rightarrow> string \<Rightarrow> string \<Rightarrow> bytes \<Rightarrow> (string, string) gomap \<Rightarrow> ('w, unit) op" where
  "kafka_Publish write now topic key payload headers =
     map_err (ErrWrap (''kafka publish '' @ topic @ '': ''))
       (write \<lparr>km_Topic = topic, km_Partition = 0, km_Offset = 0, km_Key = key, km_Value = payload,
               km_Headers = headers, km_Time = now\<rparr>)"

section \<open>Backoff\<close>

record kafka_retry =
  kr_Base :: duration
  kr_Max :: duration
  kr_MaxAttempts :: int

text \<open>
  \<open>jitter\<close> computes in \<open>float64\<close>: \<open>fl\<close> rounds an exact result to the nearest one; \<open>u\<close> is \<open>rand.Float64()\<close>.
\<close>

definition jitter :: "(rat \<Rightarrow> rat) \<Rightarrow> rat \<Rightarrow> duration \<Rightarrow> duration" where
  "jitter fl u d =
     (if d \<le> 0 then 0
      else let frac = fl (3 / 4 + fl (u * (1 / 2))) in floor (fl (fl (of_int d) * frac)))"

fun backoff_loop :: "nat \<Rightarrow> duration \<Rightarrow> duration \<Rightarrow> duration" where
  "backoff_loop 0 d mx = (if d > mx then mx else d)"
| "backoff_loop (Suc n) d mx = (if d \<ge> mx then mx else backoff_loop n (wrap64 (d * 2)) mx)"

definition backoff_base :: "int \<Rightarrow> duration \<Rightarrow> duration \<Rightarrow> duration" where
  "backoff_base attempt0 base0 mx0 =
     (let attempt = (if attempt0 < 1 then 1 else attempt0);
          base = (if base0 \<le> 0 then second else base0);
          mx = (if mx0 \<le> 0 then 30 * second else mx0)
      in backoff_loop (nat (attempt - 1)) base mx)"

definition backoff :: "(rat \<Rightarrow> rat) \<Rightarrow> rat \<Rightarrow> int \<Rightarrow> duration \<Rightarrow> duration \<Rightarrow> duration" where
  "backoff fl u n base mx = jitter fl u (backoff_base n base mx)"

lemma backoff_loop_eq:
  "0 < d \<Longrightarrow> mx \<le> 2 ^ 62 \<Longrightarrow> backoff_loop n d mx = min (d * 2 ^ n) mx"
proof (induction n d mx rule: backoff_loop.induct)
  case (2 n d mx)
  show ?case
  proof (cases "d \<ge> mx")
    case True
    have "d * 1 \<le> d * 2 ^ Suc n" using 2(2) by (intro mult_left_mono one_le_power) simp_all
    then have "mx \<le> d * 2 ^ Suc n" using True by linarith
    then show ?thesis using True by simp
  next
    case False
    then have "wrap64 (d * 2) = d * 2" using 2(2,3) by (intro wrap64_id) auto
    then have "backoff_loop (Suc n) d mx = min (d * 2 * 2 ^ n) mx"
      using False 2 by simp
    then show ?thesis by (simp add: mult.assoc)
  qed
qed (simp add: min_def)

text \<open>What \<open>float64\<close> rounding keeps: the order, and quarters of moderate integers exactly.\<close>

definition float_ok :: "(rat \<Rightarrow> rat) \<Rightarrow> bool" where
  "float_ok fl \<longleftrightarrow> mono fl \<and> (\<forall>n. \<bar>n\<bar> \<le> 2 ^ 53 \<longrightarrow> fl (of_int n / 4) = of_int n / 4)"

lemma jitter_bounds:
  assumes "float_ok fl" "0 \<le> u" "u \<le> 1" "0 < d" "d \<le> 2 ^ 50"
  shows "3 * d div 4 \<le> jitter fl u d" "jitter fl u d \<le> 5 * d div 4"
proof -
  have mono: "mono fl" and ex: "\<And>n. \<bar>n\<bar> \<le> 2 ^ 53 \<Longrightarrow> fl (of_int n / 4) = of_int n / 4"
    using assms(1) by (auto simp: float_ok_def)
  have le: "a \<le> b \<Longrightarrow> fl a \<le> fl b" for a b using mono by (simp add: mono_def)
  let ?h = "fl (u * (1 / 2))" and ?frac = "fl (3 / 4 + fl (u * (1 / 2)))"
  have c: "fl 0 = 0" "fl (1 / 2) = 1 / 2" "fl (3 / 4) = 3 / 4" "fl (5 / 4) = 5 / 4"
    using ex [of 0] ex [of 2] ex [of 3] ex [of 5] by simp_all
  have d: "fl (of_int d) = of_int d" using ex [of "4 * d"] assms(4,5) by simp
  have d3: "fl (of_int (3 * d) / 4) = of_int (3 * d) / 4" "fl (of_int (5 * d) / 4) = of_int (5 * d) / 4"
    by (rule ex, use assms(4,5) in simp)+
  have h: "0 \<le> ?h" "?h \<le> 1 / 2"
    using le [of 0 "u * (1/2)"] le [of "u * (1/2)" "1/2"] c assms(2,3) by auto
  have f: "3 / 4 \<le> ?frac" "?frac \<le> 5 / 4"
    using le [of "3/4" "3/4 + ?h"] le [of "3/4 + ?h" "5/4"] c h by auto
  have "of_int (3 * d) / 4 \<le> (of_int d :: rat) * ?frac" "(of_int d :: rat) * ?frac \<le> of_int (5 * d) / 4"
    using mult_left_mono [OF f(1), of "of_int d"] mult_left_mono [OF f(2), of "of_int d"] assms(4)
    by (auto simp: mult.commute)
  from le [OF this(1)] le [OF this(2)]
  have b: "of_int (3 * d) / 4 \<le> fl (of_int d * ?frac)" "fl (of_int d * ?frac) \<le> of_int (5 * d) / 4"
    using d3 by simp_all
  have j: "jitter fl u d = floor (fl (of_int d * ?frac))"
    using assms(4) d by (simp add: jitter_def Let_def)
  have fd: "floor (of_int n / (4 :: rat)) = n div 4" for n
    using floor_divide_of_int_eq [of n 4, where ?'a = rat] by simp
  show "3 * d div 4 \<le> jitter fl u d" "jitter fl u d \<le> 5 * d div 4"
    unfolding j using floor_mono [OF b(1)] floor_mono [OF b(2)] unfolding fd by this+
qed

section \<open>Attempt counters\<close>

record 'w attempt_counter =
  ac_Inc :: "string \<Rightarrow> int \<Rightarrow> int \<Rightarrow> 'w \<Rightarrow> int \<times> 'w"
  ac_Clear :: "string \<Rightarrow> int \<Rightarrow> int \<Rightarrow> 'w \<Rightarrow> 'w"

definition msg_id :: "string \<Rightarrow> int \<Rightarrow> int \<Rightarrow> string" where
  "msg_id topic part offset = topic @ ''/'' @ show_int part @ ''/'' @ show_int offset"

type_synonym tracker = "(string, int) gomap"

definition tracker_count :: "tracker \<Rightarrow> string \<Rightarrow> int" where
  "tracker_count t i = (case m_get t i of Some n \<Rightarrow> n | None \<Rightarrow> 0)"

definition tracker_Inc :: "string \<Rightarrow> int \<Rightarrow> int \<Rightarrow> tracker \<Rightarrow> int \<times> tracker" where
  "tracker_Inc topic part offset t =
     (let i = msg_id topic part offset; n = tracker_count t i + 1 in (n, m_set i n t))"

definition tracker_Clear :: "string \<Rightarrow> int \<Rightarrow> int \<Rightarrow> tracker \<Rightarrow> tracker" where
  "tracker_Clear topic part offset t = m_del (msg_id topic part offset) t"

text \<open>
  The Postgres store: the table \<open>kafka_retry_attempts\<close>, the memory fallback, and which of the coming
  statements fail (\<open>pas_faults\<close>; none once the list is used up).
\<close>

record pg_attempts =
  pas_rows :: "(string \<times> int \<times> int, int) gomap"
  pas_mem :: tracker
  pas_faults :: "bool list"

definition pas_next :: "pg_attempts \<Rightarrow> bool \<times> pg_attempts" where
  "pas_next s = (case pas_faults s of [] \<Rightarrow> (False, s) | f # fs \<Rightarrow> (f, s\<lparr>pas_faults := fs\<rparr>))"

definition pas_count :: "pg_attempts \<Rightarrow> string \<times> int \<times> int \<Rightarrow> int" where
  "pas_count s key = (case m_get (pas_rows s) key of Some n \<Rightarrow> n | None \<Rightarrow> 0)"

definition pas_Inc :: "string \<Rightarrow> int \<Rightarrow> int \<Rightarrow> pg_attempts \<Rightarrow> int \<times> pg_attempts" where
  "pas_Inc topic part offset s0 =
     (let (failed, s) = pas_next s0; key = (topic, part, offset)
      in if failed then
           let (n, m) = tracker_Inc topic part offset (pas_mem s) in (n, s\<lparr>pas_mem := m\<rparr>)
         else let n = pas_count s key + 1 in (n, s\<lparr>pas_rows := m_set key n (pas_rows s)\<rparr>))"

definition pas_Clear :: "string \<Rightarrow> int \<Rightarrow> int \<Rightarrow> pg_attempts \<Rightarrow> pg_attempts" where
  "pas_Clear topic part offset s0 =
     (let s1 = s0\<lparr>pas_mem := tracker_Clear topic part offset (pas_mem s0)\<rparr>;
          (failed, s) = pas_next s1
      in if failed then s else s\<lparr>pas_rows := m_del (topic, part, offset) (pas_rows s)\<rparr>)"

section \<open>Dead letters\<close>

definition dlq_topic :: "string \<Rightarrow> string" where
  "dlq_topic source = source @ ''.dlq''"

record dead_letter =
  dl_SchemaVersion :: int
  dl_SourceTopic :: string
  dl_SourcePartition :: int
  dl_SourceOffset :: int
  dl_Key :: string
  dl_Attempts :: int
  dl_Error :: string
  dl_Payload :: bytes
  dl_DeadLetteredAt :: go_time

text \<open>
  \<open>json.Marshal\<close> of the envelope: it fails exactly when the raw payload is not valid JSON (an empty one
  is a nil \<open>RawMessage\<close>, printed as \<open>null\<close>) or the time is outside the years 0 to 9999; \<open>text_of\<close> is the
  text otherwise.
\<close>

definition dead_letter_marshal :: "(dead_letter \<Rightarrow> bytes) \<Rightarrow> dead_letter \<Rightarrow> err + bytes" where
  "dead_letter_marshal text_of d =
     (if dl_Payload d \<noteq> [] \<and> \<not> json_valid (dl_Payload d)
      then Inl (ErrOther ''json: error calling MarshalJSON for type json.RawMessage'')
      else if \<not> time_ok (dl_DeadLetteredAt d)
      then Inl (ErrOther ''json: error calling MarshalJSON for type time.Time'')
      else Inr (text_of d))"

definition publish_dead_letter ::
    "(dead_letter \<Rightarrow> bytes) \<Rightarrow> (kafka_message \<Rightarrow> ('w, unit) op) option \<Rightarrow> kafka_message \<Rightarrow> int \<Rightarrow> err
       \<Rightarrow> go_time \<Rightarrow> go_time \<Rightarrow> ('w, unit) op" where
  "publish_dead_letter text_of pub msg n cause now now' =
     (case pub of
        None \<Rightarrow> fail (ErrOther ''dlq publisher is nil'')
      | Some write \<Rightarrow>
          let env = \<lparr>dl_SchemaVersion = 1, dl_SourceTopic = km_Topic msg, dl_SourcePartition = km_Partition msg,
                     dl_SourceOffset = km_Offset msg, dl_Key = km_Key msg, dl_Attempts = n,
                     dl_Error = err_msg cause, dl_Payload = km_Value msg, dl_DeadLetteredAt = now\<rparr>
          in andthen (lift_sum (dead_letter_marshal text_of env)) (\<lambda>body.
             let key = (if km_Key msg = [] then show_int (km_Partition msg) @ ''-'' @ show_int (km_Offset msg)
                        else km_Key msg)
             in kafka_Publish write now' (dlq_topic (km_Topic msg)) key body
                  [(''x-bugsathi-dlq'', ''1''), (''x-bugsathi-source-topic'', km_Topic msg)]))"

section \<open>Retrying a message\<close>

text \<open>What a process gives its loops: the clock, the random numbers, and \<open>SleepCtx\<close>.\<close>

record 'w runtime =
  rt_now :: "'w \<Rightarrow> go_time \<times> 'w"
  rt_rand :: "'w \<Rightarrow> rat \<times> 'w"
  rt_round :: "rat \<Rightarrow> rat"
  rt_timer :: "duration \<Rightarrow> ('w, unit) op"
  rt_ctx_err :: "'w \<Rightarrow> err option"

text \<open>\<open>rt_timer\<close> is the wait on the timer or the context, whichever comes first.\<close>

definition sleep_ctx :: "'w runtime \<Rightarrow> duration \<Rightarrow> ('w, unit) op" where
  "sleep_ctx T d w =
     (if d \<le> 0 then (case rt_ctx_err T w of Some e \<Rightarrow> (Inl e, w) | None \<Rightarrow> (Inr (), w))
      else rt_timer T d w)"

record 'w retry_job =
  rj_handle :: "('w, unit) op"
  rj_commit :: "('w, unit) op"
  rj_attempts :: "'w attempt_counter option"
  rj_dead_letter :: "int \<Rightarrow> err \<Rightarrow> ('w, unit) op"

definition retry_max :: "kafka_retry \<Rightarrow> int" where
  "retry_max retry = (if kr_MaxAttempts retry \<le> 0 then 5 else kr_MaxAttempts retry)"

text \<open>One turn of the loop of \<open>HandleWithRetries\<close>: \<open>Inr\<close> is a return, \<open>Inl\<close> another turn.\<close>

definition retry_turn ::
    "'w runtime \<Rightarrow> 'w retry_job \<Rightarrow> kafka_message \<Rightarrow> kafka_retry \<Rightarrow> 'w \<Rightarrow> (unit + (err + unit)) \<times> 'w" where
  "retry_turn T J msg retry w0 =
     (case rj_handle J w0 of
        (Inr _, w1) \<Rightarrow>
          (case rj_commit J w1 of
             (Inl e, w2) \<Rightarrow> (Inr (Inl (ErrWrap ''commit: '' e)), w2)
           | (Inr _, w2) \<Rightarrow>
               (Inr (Inr ()), case rj_attempts J of
                  Some a \<Rightarrow> ac_Clear a (km_Topic msg) (km_Partition msg) (km_Offset msg) w2
                | None \<Rightarrow> w2))
      | (Inl e, w1) \<Rightarrow>
          let (n, w2) = (case rj_attempts J of
                Some a \<Rightarrow> ac_Inc a (km_Topic msg) (km_Partition msg) (km_Offset msg) w1
              | None \<Rightarrow> (1, w1))
          in if n \<ge> retry_max retry then
               (case rj_dead_letter J n e w2 of
                  (Inl e', w3) \<Rightarrow> (Inr (Inl (ErrWrap ''dead letter: '' e')), w3)
                | (Inr _, w3) \<Rightarrow> (Inr (Inr ()), w3))
             else
               let (u, w3) = rt_rand T w2
               in case sleep_ctx T (backoff (rt_round T) u n (kr_Base retry) (kr_Max retry)) w3 of
                    (Inl e', w4) \<Rightarrow> (Inr (Inl e'), w4)
                  | (Inr _, w4) \<Rightarrow> (Inl (), w4))"

fun handle_with_retries ::
    "nat \<Rightarrow> 'w runtime \<Rightarrow> 'w retry_job \<Rightarrow> kafka_message \<Rightarrow> kafka_retry \<Rightarrow> 'w \<Rightarrow> ((err + unit) \<times> 'w) option" where
  "handle_with_retries 0 T J msg retry w = None"
| "handle_with_retries (Suc n) T J msg retry w =
     (case retry_turn T J msg retry w of
        (Inl _, w') \<Rightarrow> handle_with_retries n T J msg retry w'
      | (Inr r, w') \<Rightarrow> Some (r, w'))"

fun fetch_with_retry ::
    "nat \<Rightarrow> 'w runtime \<Rightarrow> ('w, kafka_message) op \<Rightarrow> kafka_retry \<Rightarrow> int \<Rightarrow> 'w
       \<Rightarrow> ((err + kafka_message) \<times> 'w) option" where
  "fetch_with_retry 0 T fetch retry n w = None"
| "fetch_with_retry (Suc f) T fetch retry n w =
     (case fetch w of
        (Inr msg, w1) \<Rightarrow> Some (Inr msg, w1)
      | (Inl e, w1) \<Rightarrow>
          (case rt_ctx_err T w1 of
             Some c \<Rightarrow> Some (Inl c, w1)
           | None \<Rightarrow>
               let (u, w2) = rt_rand T w1
               in case sleep_ctx T (backoff (rt_round T) u (n + 1) (kr_Base retry) (kr_Max retry)) w2 of
                    (Inl e', w3) \<Rightarrow> Some (Inl e', w3)
                  | (Inr _, w3) \<Rightarrow> fetch_with_retry f T fetch retry (n + 1) w3))"

text \<open>
  An attempt counter with a budget: each failure either reaches the limit or spends some of the budget
  that \<open>left\<close> measures. Clearing does not matter for the loop, which returns after it.
\<close>

locale attempt_budget =
  fixes a :: "'w attempt_counter" and left :: "int \<Rightarrow> string \<times> int \<times> int \<Rightarrow> 'w \<Rightarrow> nat"
  assumes spend: "ac_Inc a t p off w = (n, w') \<Longrightarrow> n \<ge> mx \<or> left mx (t, p, off) w' < left mx (t, p, off) w"
begin

lemma retries_end:
  assumes "rj_attempts J = Some a"
    and frame: "\<And>w. left (retry_max retry) key (snd (rj_handle J w)) \<le> left (retry_max retry) key w"
      "\<And>w. left (retry_max retry) key (snd (rt_rand T w)) \<le> left (retry_max retry) key w"
      "\<And>w d. left (retry_max retry) key (snd (sleep_ctx T d w)) \<le> left (retry_max retry) key w"
    and "key = (km_Topic msg, km_Partition msg, km_Offset msg)"
    and "left (retry_max retry) key w < f"
  shows "\<exists>r. handle_with_retries f T J msg retry w = Some r"
  using assms(6)
proof (induction f arbitrary: w)
  case (Suc f)
  obtain x w' where turn: "retry_turn T J msg retry w = (x, w')" by fastforce
  show ?case
  proof (cases x)
    case (Inr r)
    then show ?thesis using turn by simp
  next
    case (Inl u)
    obtain hr w1 where h: "rj_handle J w = (hr, w1)" by fastforce
    obtain n w2 where inc: "ac_Inc a (km_Topic msg) (km_Partition msg) (km_Offset msg) w1 = (n, w2)" by fastforce
    obtain v w3 where rand: "rt_rand T w2 = (v, w3)" by fastforce
    obtain e where hr: "hr = Inl e" "n < retry_max retry"
      and sl: "w' = snd (sleep_ctx T (backoff (rt_round T) v n (kr_Base retry) (kr_Max retry)) w3)"
      using turn Inl h inc rand assms(1)
      by (auto simp: retry_turn_def Let_def split: sum.splits prod.splits if_splits)
    have "left (retry_max retry) key w2 < left (retry_max retry) key w1"
      using spend [OF inc, of "retry_max retry"] hr(2) assms(5) by auto
    moreover have "left (retry_max retry) key w1 \<le> left (retry_max retry) key w" using frame(1) [of w] h by simp
    moreover have "left (retry_max retry) key w3 \<le> left (retry_max retry) key w2" using frame(2) [of w2] rand by simp
    moreover have "left (retry_max retry) key w' \<le> left (retry_max retry) key w3" using frame(3) sl by simp
    ultimately have "left (retry_max retry) key w' < f" using Suc.prems by linarith
    then show ?thesis using Suc.IH turn Inl by simp
  qed
qed simp

end

section \<open>The counters have budgets\<close>

text \<open>A counter as one half of the world of a consumer.\<close>

definition tracker_counter :: "(tracker \<times> 'r) attempt_counter" where
  "tracker_counter =
     \<lparr>ac_Inc = (\<lambda>t p off (c, r). let (n, c') = tracker_Inc t p off c in (n, (c', r))),
      ac_Clear = (\<lambda>t p off (c, r). (tracker_Clear t p off c, r))\<rparr>"

definition pas_counter :: "(pg_attempts \<times> 'r) attempt_counter" where
  "pas_counter =
     \<lparr>ac_Inc = (\<lambda>t p off (c, r). let (n, c') = pas_Inc t p off c in (n, (c', r))),
      ac_Clear = (\<lambda>t p off (c, r). (pas_Clear t p off c, r))\<rparr>"

definition tracker_left :: "int \<Rightarrow> string \<times> int \<times> int \<Rightarrow> tracker \<times> 'r \<Rightarrow> nat" where
  "tracker_left mx key w = nat (mx - 1 - tracker_count (fst w) (msg_id (fst key) (fst (snd key)) (snd (snd key))))"

definition pas_left :: "int \<Rightarrow> string \<times> int \<times> int \<Rightarrow> pg_attempts \<times> 'r \<Rightarrow> nat" where
  "pas_left mx key w = nat (mx - 1 - pas_count (fst w) key)
     + nat (mx - 1 - tracker_count (pas_mem (fst w)) (msg_id (fst key) (fst (snd key)) (snd (snd key))))"

interpretation tracker: attempt_budget tracker_counter tracker_left
  by unfold_locales (auto simp: tracker_counter_def tracker_left_def tracker_Inc_def tracker_count_def Let_def)

interpretation pas: attempt_budget pas_counter pas_left
  by unfold_locales
    (auto simp: pas_counter_def pas_left_def pas_Inc_def pas_next_def pas_count_def tracker_Inc_def
      tracker_count_def Let_def split: list.splits if_splits)

text \<open>Different messages have different identifiers in the tracker.\<close>

lemma show_int_no_slash: "CHR ''/'' \<notin> set (show_int i)"
proof -
  have "CHR ''/'' \<notin> set (show_nat n)" for n using show_nat_chars [of "CHR ''/''" n] by auto
  then show ?thesis by (simp add: show_int_def)
qed

lemma show_int_inject: "show_int i = show_int j \<Longrightarrow> i = j"
  using sample_time [of i] sample_time [of j] by (simp add: sample_lib_def)

lemma append_sep_inject:
  assumes "c \<notin> set b" "c \<notin> set d" "a @ [c] @ b = x @ [c] @ d"
  shows "a = x \<and> b = d"
proof -
  have "takeWhile (\<lambda>z. z \<noteq> c) (rev (a @ [c] @ b)) = rev b" using assms(1) by (simp add: takeWhile_append)
  moreover have "takeWhile (\<lambda>z. z \<noteq> c) (rev (x @ [c] @ d)) = rev d" using assms(2) by (simp add: takeWhile_append)
  ultimately have "b = d" using arg_cong [OF assms(3), of "\<lambda>z. takeWhile (\<lambda>y. y \<noteq> c) (rev z)"] by simp
  then show ?thesis using assms(3) by simp
qed

lemma msg_id_inject: "msg_id t p i = msg_id t' p' i' \<Longrightarrow> t = t' \<and> p = p' \<and> i = i'"
proof -
  assume eq: "msg_id t p i = msg_id t' p' i'"
  then have "(t @ [CHR ''/''] @ show_int p) @ [CHR ''/''] @ show_int i
      = (t' @ [CHR ''/''] @ show_int p') @ [CHR ''/''] @ show_int i'"
    by (simp add: msg_id_def)
  from append_sep_inject [OF show_int_no_slash show_int_no_slash this]
  have "t @ [CHR ''/''] @ show_int p = t' @ [CHR ''/''] @ show_int p'" "show_int i = show_int i'" by blast+
  then show ?thesis
    using append_sep_inject [OF show_int_no_slash show_int_no_slash] show_int_inject by blast
qed

section \<open>Consumers\<close>

record 'w consumer =
  cs_fetch :: "('w, kafka_message) op"
  cs_commit :: "kafka_message \<Rightarrow> ('w, unit) op"
  cs_pub :: "(kafka_message \<Rightarrow> ('w, unit) op) option"
  cs_retry :: kafka_retry
  cs_attempts :: "'w attempt_counter"
  cs_rt :: "'w runtime"

text \<open>What differs between the consumers: the event's decoder and fields, the service, what to skip.\<close>

record ('w, 'e) pipeline =
  pl_decode :: "bytes \<Rightarrow> err + 'e"
  pl_recording :: "'e \<Rightarrow> string"
  pl_corr :: "'e \<Rightarrow> string"
  pl_set_corr :: "string \<Rightarrow> 'e \<Rightarrow> 'e"
  pl_handle :: "log_ctx \<Rightarrow> 'e \<Rightarrow> ('w, unit) op"
  pl_skip :: "err \<Rightarrow> bool"

definition consumer_dead_letter ::
    "(dead_letter \<Rightarrow> bytes) \<Rightarrow> 'w consumer \<Rightarrow> kafka_message \<Rightarrow> int \<Rightarrow> err \<Rightarrow> ('w, unit) op" where
  "consumer_dead_letter text_of C msg n cause w0 =
     (let (now, w1) = rt_now (cs_rt C) w0; (now', w2) = rt_now (cs_rt C) w1
      in case map_err (ErrWrap ''publish dlq: '') (publish_dead_letter text_of (cs_pub C) msg n cause now now') w2 of
           (Inl e, w3) \<Rightarrow> (Inl e, w3)
         | (Inr _, w3) \<Rightarrow>
             cs_commit C msg (ac_Clear (cs_attempts C) (km_Topic msg) (km_Partition msg) (km_Offset msg) w3))"

definition consumer_ctx :: "('w, 'e) pipeline \<Rightarrow> kafka_message \<Rightarrow> 'e \<Rightarrow> log_ctx" where
  "consumer_ctx P msg evt =
     (let c = ctx_with_correlation_id (correlation_id msg (pl_corr P evt))
                \<lparr>lx_request_id = None, lx_correlation_id = None, lx_recording_id = None\<rparr>;
          rid = header_value msg HeaderRecordingID
      in ctx_with_recording_id (if rid \<noteq> [] then rid else pl_recording P evt) c)"

text \<open>A claim another worker holds counts as success: the delivery is committed.\<close>

definition consumer_handler :: "('w, 'e) pipeline \<Rightarrow> log_ctx \<Rightarrow> 'e \<Rightarrow> ('w, unit) op" where
  "consumer_handler P ctx evt w =
     (case pl_handle P ctx evt w of
        (Inl e, w') \<Rightarrow> (if pl_skip P e then Inr () else Inl e, w')
      | (Inr _, w') \<Rightarrow> (Inr (), w'))"

definition consumer_job ::
    "(dead_letter \<Rightarrow> bytes) \<Rightarrow> 'w consumer \<Rightarrow> ('w, 'e) pipeline \<Rightarrow> kafka_message \<Rightarrow> 'e \<Rightarrow> 'w retry_job" where
  "consumer_job text_of C P msg evt0 =
     (let ctx = consumer_ctx P msg evt0; evt = pl_set_corr P (correlation_id_from_ctx ctx) evt0
      in \<lparr>rj_handle = consumer_handler P ctx evt, rj_commit = cs_commit C msg,
          rj_attempts = Some (cs_attempts C), rj_dead_letter = consumer_dead_letter text_of C msg\<rparr>)"

datatype outcome = Continue | Stop "err option"

text \<open>
  One turn of \<open>Consumer.Run\<close>. \<open>Stop None\<close> is a clean return, \<open>Stop (Some e)\<close> a return with an error, on
  which the worker shuts down.
\<close>

definition consumer_turn ::
    "nat \<Rightarrow> (dead_letter \<Rightarrow> bytes) \<Rightarrow> 'w consumer \<Rightarrow> ('w, 'e) pipeline \<Rightarrow> 'w \<Rightarrow> (outcome \<times> 'w) option" where
  "consumer_turn f text_of C P w =
     (case fetch_with_retry f (cs_rt C) (cs_fetch C) (cs_retry C) 0 w of
        None \<Rightarrow> None
      | Some (Inl e, w1) \<Rightarrow> Some (Stop None, w1)
      | Some (Inr msg, w1) \<Rightarrow>
          (case pl_decode P (km_Value msg) of
             Inl e \<Rightarrow>
               (case consumer_dead_letter text_of C msg 1 e w1 of
                  (Inl e', w2) \<Rightarrow> Some (Stop (Some e'), w2)
                | (Inr _, w2) \<Rightarrow> Some (Continue, w2))
           | Inr evt \<Rightarrow>
               (case handle_with_retries f (cs_rt C) (consumer_job text_of C P msg evt) msg (cs_retry C) w1 of
                  None \<Rightarrow> None
                | Some (Inl e, w2) \<Rightarrow>
                    Some (Stop (if rt_ctx_err (cs_rt C) w2 \<noteq> None then None else Some e), w2)
                | Some (Inr _, w2) \<Rightarrow> Some (Continue, w2))))"

fun consumer_run ::
    "nat \<Rightarrow> nat \<Rightarrow> (dead_letter \<Rightarrow> bytes) \<Rightarrow> 'w consumer \<Rightarrow> ('w, 'e) pipeline \<Rightarrow> 'w \<Rightarrow> (err option \<times> 'w) option" where
  "consumer_run 0 f text_of C P w = None"
| "consumer_run (Suc k) f text_of C P w =
     (case consumer_turn f text_of C P w of
        None \<Rightarrow> None
      | Some (Stop r, w') \<Rightarrow> Some (r, w')
      | Some (Continue, w') \<Rightarrow> consumer_run k f text_of C P w')"

text \<open>How a message can be finished: handled and committed, or dead-lettered.\<close>

lemma retry_finishes:
  "handle_with_retries f T J msg retry w = Some (Inr u, w') \<Longrightarrow>
     (\<exists>w1 w2. rj_handle J w1 = (Inr (), w2) \<and> fst (rj_commit J w2) = Inr ())
     \<or> (\<exists>n e w1. retry_max retry \<le> n \<and> fst (rj_dead_letter J n e w1) = Inr ())"
proof (induction f arbitrary: w)
  case (Suc f)
  obtain x w1 where turn: "retry_turn T J msg retry w = (x, w1)" by fastforce
  show ?case
  proof (cases x)
    case (Inl y)
    then show ?thesis using Suc turn by simp
  next
    case (Inr r)
    then have "r = Inr ()" using Suc.prems turn by simp
    then show ?thesis using turn Inr
      by (auto simp: retry_turn_def Let_def split: sum.splits prod.splits if_splits)
        (metis fst_conv)+
  qed
qed simp

section \<open>Properties\<close>

lemma sleep_ctx_frame:
  "(\<And>d w. fst (snd (rt_timer T d w)) = fst w) \<Longrightarrow> fst (snd (sleep_ctx T d w)) = fst w"
  by (simp add: sleep_ctx_def split: option.splits)

text \<open>
  C7: a message is finished within \<open>MaxAttempts\<close> calls of its handler. With the in-process tracker
  and a fresh count, the retry loop returns after at most \<open>MaxAttempts\<close> turns, and when it returns
  without an error, either the handler succeeded and the message was committed, or it was dead-lettered
  at a count of at least \<open>MaxAttempts\<close>: no message is skipped.
\<close>

theorem retries_end_and_skip_nothing:
  fixes w :: "tracker \<times> 'r"
  assumes "rj_attempts J = Some tracker_counter"
    and "\<And>w. fst (snd (rj_handle J w)) = fst w" "\<And>w. fst (snd (rt_rand T w)) = fst w"
    and "\<And>d w. fst (snd (rt_timer T d w)) = fst w"
    and "tracker_count (fst w) (msg_id (km_Topic msg) (km_Partition msg) (km_Offset msg)) = 0"
  shows "\<exists>r w'. handle_with_retries (nat (retry_max retry)) T J msg retry w = Some (r, w')
     \<and> (r = Inr () \<longrightarrow> (\<exists>w1 w2. rj_handle J w1 = (Inr (), w2) \<and> fst (rj_commit J w2) = Inr ())
          \<or> (\<exists>n e w1. retry_max retry \<le> n \<and> fst (rj_dead_letter J n e w1) = Inr ()))"
proof -
  let ?key = "(km_Topic msg, km_Partition msg, km_Offset msg)"
  have "0 < retry_max retry" by (simp add: retry_max_def)
  then have "tracker_left (retry_max retry) ?key w < nat (retry_max retry)"
    using assms(5) by (simp add: tracker_left_def)
  then obtain r w' where run: "handle_with_retries (nat (retry_max retry)) T J msg retry w = Some (r, w')"
    using tracker.retries_end [OF assms(1), of retry ?key T msg w "nat (retry_max retry)"]
      assms(2,3) sleep_ctx_frame [of T, OF assms(4)] by (fastforce simp: tracker_left_def)
  show ?thesis using run retry_finishes [of _ T J msg retry w "()" w'] by blast
qed

text \<open>A runtime in which time stands still and every wait ends at once.\<close>

definition still :: "'w runtime" where
  "still = \<lparr>rt_now = (\<lambda>w. (0, w)), rt_rand = (\<lambda>w. (0, w)), rt_round = (\<lambda>q. q), rt_timer = (\<lambda>_. ret ()),
     rt_ctx_err = (\<lambda>_. None)\<rparr>"

lemma still_simps [simp]:
  "rt_rand still w = (0, w)" "rt_now still w = (0, w)" "sleep_ctx still d w = (Inr (), w)"
  "rt_timer still d w = (Inr (), w)" "rt_ctx_err still w = None"
  by (simp_all add: still_def sleep_ctx_def)

definition sample_msg :: "bytes \<Rightarrow> kafka_message" where
  "sample_msg v = \<lparr>km_Topic = ''t'', km_Partition = 0, km_Offset = 7, km_Key = ''k'', km_Value = v, km_Headers = [], km_Time = 0\<rparr>"

definition always_failing :: "'w attempt_counter \<Rightarrow> 'w retry_job" where
  "always_failing a = \<lparr>rj_handle = fail (ErrOther ''boom''), rj_commit = ret (), rj_attempts = Some a,
     rj_dead_letter = (\<lambda>_ _. ret ())\<rparr>"

definition two_attempts :: kafka_retry where
  "two_attempts = \<lparr>kr_Base = 1, kr_Max = 1, kr_MaxAttempts = 2\<rparr>"

theorem retries_end_and_skip_nothing_witness:
  "\<exists>r w'. handle_with_retries 2 still (always_failing tracker_counter) (sample_msg ''{}'') two_attempts
     ([] :: tracker, ()) = Some (r, w')"
proof -
  have "nat (retry_max two_attempts) = 2" by (simp add: two_attempts_def retry_max_def)
  then show ?thesis
    using retries_end_and_skip_nothing [of "always_failing tracker_counter" still "([], ())" "sample_msg ''{}''" two_attempts]
    by (simp add: always_failing_def tracker_count_def) blast
qed

text \<open>
  C8: with the Postgres store of attempts, whatever statements fail, the retry loop ends too, after at
  most twice \<open>MaxAttempts\<close> less one turns: the fallback in memory counts apart from the table.
\<close>

theorem durable_retries_end:
  fixes w :: "pg_attempts \<times> 'r"
  assumes "rj_attempts J = Some pas_counter"
    and "\<And>w. fst (snd (rj_handle J w)) = fst w" "\<And>w. fst (snd (rt_rand T w)) = fst w"
    and "\<And>d w. fst (snd (rt_timer T d w)) = fst w"
    and "0 \<le> pas_count (fst w) (km_Topic msg, km_Partition msg, km_Offset msg)"
    and "0 \<le> tracker_count (pas_mem (fst w)) (msg_id (km_Topic msg) (km_Partition msg) (km_Offset msg))"
  shows "\<exists>r w'. handle_with_retries (nat (2 * retry_max retry - 1)) T J msg retry w = Some (r, w')
     \<and> (r = Inr () \<longrightarrow> (\<exists>w1 w2. rj_handle J w1 = (Inr (), w2) \<and> fst (rj_commit J w2) = Inr ())
          \<or> (\<exists>n e w1. retry_max retry \<le> n \<and> fst (rj_dead_letter J n e w1) = Inr ()))"
proof -
  let ?key = "(km_Topic msg, km_Partition msg, km_Offset msg)"
  have "0 < retry_max retry" by (simp add: retry_max_def)
  then have "pas_left (retry_max retry) ?key w < nat (2 * retry_max retry - 1)"
    using assms(5,6) by (simp add: pas_left_def)
  then obtain r w' where run: "handle_with_retries (nat (2 * retry_max retry - 1)) T J msg retry w = Some (r, w')"
    using pas.retries_end [OF assms(1), of retry ?key T msg w "nat (2 * retry_max retry - 1)"]
      assms(2,3) sleep_ctx_frame [of T, OF assms(4)] by (fastforce simp: pas_left_def)
  show ?thesis using run retry_finishes [of _ T J msg retry w "()" w'] by blast
qed

definition flaky_store :: pg_attempts where
  "flaky_store = \<lparr>pas_rows = [], pas_mem = [], pas_faults = [False, True]\<rparr>"

theorem durable_retries_end_witness:
  "\<exists>r w'. handle_with_retries 3 still (always_failing pas_counter) (sample_msg ''{}'') two_attempts
     (flaky_store, ()) = Some (r, w')"
proof -
  have "nat (2 * retry_max two_attempts - 1) = 3" by (simp add: two_attempts_def retry_max_def)
  then show ?thesis
    using durable_retries_end [of "always_failing pas_counter" still "(flaky_store, ())" "sample_msg ''{}''" two_attempts]
    by (simp add: always_failing_def tracker_count_def pas_count_def flaky_store_def) blast
qed

text \<open>
  The bound on attempts is not kept by the Postgres store: with \<open>MaxAttempts = 2\<close> and one failing
  statement, the handler runs a third time before the message is dead-lettered.
\<close>

theorem fallback_allows_an_extra_attempt:
  "handle_with_retries 2 still (always_failing pas_counter) (sample_msg ''{}'') two_attempts (flaky_store, ()) = None
   \<and> (\<exists>w'. handle_with_retries 3 still (always_failing pas_counter) (sample_msg ''{}'') two_attempts (flaky_store, ())
        = Some (Inr (), w'))"
proof -
  let ?turn = "\<lambda>c. retry_turn still (always_failing pas_counter) (sample_msg ''{}'') two_attempts (c, ())"
  let ?key = "(''t'', 0, 7)"
  note d = retry_turn_def always_failing_def pas_counter_def pas_Inc_def pas_next_def pas_count_def tracker_Inc_def
    tracker_count_def two_attempts_def retry_max_def sample_msg_def Let_def
  have "?turn flaky_store = (Inl (), (\<lparr>pas_rows = [(?key, 1)], pas_mem = [], pas_faults = [True]\<rparr>, ()))"
    by (simp add: d flaky_store_def m_set_simps)
  moreover have "?turn \<lparr>pas_rows = [(?key, 1)], pas_mem = [], pas_faults = [True]\<rparr>
      = (Inl (), (\<lparr>pas_rows = [(?key, 1)], pas_mem = [(msg_id ''t'' 0 7, 1)], pas_faults = []\<rparr>, ()))"
    by (simp add: d m_set_simps)
  moreover have last: "fst (?turn \<lparr>pas_rows = [(?key, 1)], pas_mem = [(msg_id ''t'' 0 7, 1)], pas_faults = []\<rparr>) = Inr (Inr ())"
    by (simp add: d)
  moreover obtain w' where "?turn \<lparr>pas_rows = [(?key, 1)], pas_mem = [(msg_id ''t'' 0 7, 1)], pas_faults = []\<rparr>
      = (Inr (Inr ()), w')" using last by (metis prod.collapse)
  ultimately show ?thesis by (cases w') (auto simp: numeral_2_eq_2 numeral_3_eq_3)
qed

text \<open>
  C9: the wait before a retry is the base doubled for each earlier attempt, capped at the maximum,
  give or take a quarter, for caps of up to about thirteen days (\<open>2 ^ 50\<close> nanoseconds).
\<close>

theorem backoff_is_exponential_and_capped:
  assumes "float_ok fl" "0 \<le> u" "u \<le> 1" "1 \<le> n" "0 < base" "0 < mx" "mx \<le> 2 ^ 50"
  shows "3 * min (base * 2 ^ nat (n - 1)) mx div 4 \<le> backoff fl u n base mx
     \<and> backoff fl u n base mx \<le> 5 * min (base * 2 ^ nat (n - 1)) mx div 4"
proof -
  have "backoff_base n base mx = min (base * 2 ^ nat (n - 1)) mx"
    using assms(4-7) backoff_loop_eq [of base mx "nat (n - 1)"] by (simp add: backoff_base_def Let_def)
  moreover have "0 < min (base * 2 ^ nat (n - 1)) mx" "min (base * 2 ^ nat (n - 1)) mx \<le> 2 ^ 50"
    using assms(5-7) by auto
  ultimately show ?thesis using jitter_bounds [OF assms(1-3)] by (simp add: backoff_def)
qed

theorem backoff_is_exponential_and_capped_witness:
  "3 * min (second * 2 ^ nat (3 - 1)) (30 * second) div 4 \<le> backoff (\<lambda>q. q) (1 / 2) 3 second (30 * second)"
  using backoff_is_exponential_and_capped [of "\<lambda>q. q" "1 / 2" 3 second "30 * second"]
  by (simp add: float_ok_def mono_def)


definition sample_pipeline :: "(unit, string) pipeline" where
  "sample_pipeline = \<lparr>pl_decode = (\<lambda>b. if json_valid b then Inr b else Inl (ErrOther ''invalid character'')),
     pl_recording = (\<lambda>e. e), pl_corr = (\<lambda>e. e), pl_set_corr = (\<lambda>_ e. e), pl_handle = (\<lambda>_ _. ret ()), pl_skip = (\<lambda>_. False)\<rparr>"

definition sample_consumer :: "unit consumer" where
  "sample_consumer = \<lparr>cs_fetch = ret (sample_msg ''broken''), cs_commit = (\<lambda>_. ret ()), cs_pub = Some (\<lambda>_. ret ()),
     cs_retry = two_attempts, cs_attempts = \<lparr>ac_Inc = (\<lambda>_ _ _ w. (1, w)), ac_Clear = (\<lambda>_ _ _ w. w)\<rparr>, cs_rt = still\<rparr>"


text \<open>Without a counter (\<open>attempts == nil\<close>) the loop counts 1 for ever and never dead-letters.\<close>

lemma no_counter_never_ends:
  assumes "rj_attempts J = None" "2 \<le> retry_max retry"
    and "\<And>w. fst (rj_handle J w) = Inl e" "\<And>d w. fst (rt_timer T d w) = Inr ()" "\<And>w. rt_ctx_err T w = None"
  shows "handle_with_retries f T J msg retry w = None"
proof (induction f arbitrary: w)
  case (Suc f)
  obtain w1 where h: "rj_handle J w = (Inl e, w1)" using assms(3) by (metis prod.collapse)
  obtain u w2 where r: "rt_rand T w1 = (u, w2)" by fastforce
  have "fst (sleep_ctx T d w2) = Inr ()" for d
    using assms(4,5) by (simp add: sleep_ctx_def)
  then obtain w3 where "sleep_ctx T (backoff (rt_round T) u 1 (kr_Base retry) (kr_Max retry)) w2 = (Inr (), w3)"
    by (metis prod.collapse)
  then show ?case using Suc h r assms(1,2) by (simp add: retry_turn_def)
qed simp

end
