(* ===== verification/Media.thy ===== *)
theory Media
  imports Uploads
begin

text \<open>
  \<open>internal/media\<close>: artifacts and the extraction event (\<open>domain/media.go\<close>), the ports
  (\<open>port/port.go\<close>) and the service (\<open>service/service.go\<close>) that claims an uploaded recording, extracts
  its frames and makes it \<open>READY\<close>.

  A worker's job runs beside its lease heartbeat and other workers. \<open>job_env\<close> says what the job sees of
  them: \<open>je_pause\<close> is whatever happens while the job waits in a call, and \<open>je_cause\<close> is the cause its
  context was cancelled with, if it was. The locale \<open>claim_store\<close> states the lease protocol of a store;
  its lemmas show that a live lease excludes other workers and that a recording becomes ready once.
\<close>

section \<open>Domain\<close>

definition is_claim_conflict :: "err \<Rightarrow> bool" where
  "is_claim_conflict e \<longleftrightarrow> errors_is e ErrClaimHeld \<or> errors_is e ErrClaimLost"

datatype artifact_kind = KindFrame | KindThumb

record artifact =
  art_ID :: uuid
  art_RecordingID :: uuid
  art_Kind :: artifact_kind
  art_StorageKey :: string
  art_Ordinal :: int
  art_ContentType :: string
  art_ByteSize :: "int option"
  art_CreatedAt :: go_time

definition TopicFramesExtracted :: string where
  "TopicFramesExtracted = ''bugsathi.recording.frames-extracted''"

record frames_event =
  fe_SchemaVersion :: int
  fe_RecordingID :: string
  fe_ProjectID :: string
  fe_FrameKeys :: "string list"
  fe_ThumbKey :: string
  fe_DurationMS :: int
  fe_CorrelationID :: string
  fe_OccurredAt :: go_time

section \<open>Ports\<close>

record 's media_store =
  st_Get :: "uuid \<Rightarrow> ('s, recording) op"
  st_ClaimProcessing :: "uuid \<Rightarrow> string \<Rightarrow> go_time \<Rightarrow> go_time \<Rightarrow> ('s, unit) op"
  st_RenewClaim :: "uuid \<Rightarrow> string \<Rightarrow> go_time \<Rightarrow> ('s, unit) op"
  st_MarkFailed :: "uuid \<Rightarrow> string \<Rightarrow> go_time \<Rightarrow> ('s, unit) op"
  st_FinalizeReady :: "uuid \<Rightarrow> string \<Rightarrow> go_time \<Rightarrow> artifact list \<Rightarrow> string \<Rightarrow> string \<Rightarrow> bytes \<Rightarrow> string \<Rightarrow> ('s, unit) op"
  st_InsertOutbox :: "string \<Rightarrow> string \<Rightarrow> bytes \<Rightarrow> string \<Rightarrow> ('s, unit) op"
  st_ListArtifacts :: "uuid \<Rightarrow> ('s, artifact list) op"

text \<open>\<open>Download\<close> writes to, and \<open>Upload\<close> reads from, the file of the given path.\<close>

record 's media_objects =
  mo_Download :: "string \<Rightarrow> string \<Rightarrow> ('s, unit) op"
  mo_Upload :: "string \<Rightarrow> string \<Rightarrow> string \<Rightarrow> int \<Rightarrow> ('s, unit) op"

record extract_result =
  xr_FramePaths :: "string list"
  xr_ThumbPath :: string
  xr_DurationMS :: int

text \<open>The calls of \<open>os\<close> the job makes.\<close>

record 's job_files =
  jf_MkdirTemp :: "string \<Rightarrow> ('s, string) op"
  jf_RemoveAll :: "string \<Rightarrow> 's \<Rightarrow> 's"
  jf_MkdirAll :: "string \<Rightarrow> ('s, unit) op"
  jf_Create :: "string \<Rightarrow> ('s, unit) op"
  jf_OpenSize :: "string \<Rightarrow> ('s, int) op"

record 's job_env =
  je_now :: "'s \<Rightarrow> go_time \<times> 's"
  je_uuid :: "'s \<Rightarrow> uuid \<times> 's"
  je_pause :: "'s \<Rightarrow> 's"
  je_cause :: "'s \<Rightarrow> err option"

section \<open>Service\<close>

record claim_config =
  cc_Owner :: string
  cc_Lease :: duration
  cc_RenewInterval :: duration

text \<open>\<open>host\<close> is the result of \<open>os.Hostname\<close>, \<open>pid\<close> of \<open>os.Getpid\<close>. Go's division truncates.\<close>

definition claim_with_defaults :: "string option \<Rightarrow> int \<Rightarrow> claim_config \<Rightarrow> claim_config" where
  "claim_with_defaults host pid c =
     (let owner = (if cc_Owner c = []
                   then (case host of Some h \<Rightarrow> h | None \<Rightarrow> ''worker'') @ ''-'' @ show_int pid
                   else cc_Owner c);
          lease = (if cc_Lease c \<le> 0 then 2 * minute else cc_Lease c);
          renew = (if cc_RenewInterval c \<le> 0 then 30 * second else cc_RenewInterval c);
          renew = (if renew \<ge> lease then lease div 2 else renew)
      in \<lparr>cc_Owner = owner, cc_Lease = lease, cc_RenewInterval = renew\<rparr>)"

record 's media_service =
  ms_store :: "'s media_store"
  ms_objects :: "'s media_objects"
  ms_extract :: "string \<Rightarrow> string \<Rightarrow> ('s, extract_result) op"
  ms_files :: "'s job_files"
  ms_workdir :: string
  ms_claim :: claim_config

definition first_non_empty :: "string list \<Rightarrow> string" where
  "first_non_empty vals = (case filter (\<lambda>v. v \<noteq> []) vals of v # _ \<Rightarrow> v | [] \<Rightarrow> [])"

definition ext_from_key :: "string \<Rightarrow> string" where
  "ext_from_key key = (let ext = path_ext key in if ext = [] then ''.bin'' else ext)"

definition path_join :: "string \<Rightarrow> string \<Rightarrow> string" where
  "path_join a b = a @ ''/'' @ b"

text \<open>Reading the clock and taking a fresh identifier inside a job.\<close>

definition now_op :: "'s job_env \<Rightarrow> ('s, go_time) op" where
  "now_op E s = (let (t, s') = je_now E s in (Inr t, s'))"

definition uuid_op :: "'s job_env \<Rightarrow> ('s, uuid) op" where
  "uuid_op E s = (let (u, s') = je_uuid E s in (Inr u, s'))"

text \<open>A call with the job's context: it waits, and fails once the context is cancelled.\<close>

definition in_job :: "'s job_env \<Rightarrow> ('s, 'a) op \<Rightarrow> ('s, 'a) op" where
  "in_job E m s =
     (let s' = je_pause E s
      in if je_cause E s' \<noteq> None then (Inl (ErrOther ''context canceled''), s') else m s')"

definition ms_fail :: "'s media_service \<Rightarrow> 's job_env \<Rightarrow> uuid \<Rightarrow> ('s, unit) op" where
  "ms_fail S E ident =
     andthen (now_op E) (\<lambda>now. ignore (st_MarkFailed (ms_store S) ident (cc_Owner (ms_claim S)) now))"

text \<open>\<open>if err := m(); err != nil \<open>{\<close> s.fail(ctx, id); return err \<open>}\<close>\<close>.\<close>

definition or_fail :: "'s media_service \<Rightarrow> 's job_env \<Rightarrow> uuid \<Rightarrow> ('s, 'a) op \<Rightarrow> ('s, 'a) op" where
  "or_fail S E ident m s =
     (case m s of
        (Inl e, s') \<Rightarrow> (Inl e, snd (ms_fail S E ident s'))
      | (Inr a, s') \<Rightarrow> (Inr a, s'))"

definition ms_downloadToFile :: "'s media_service \<Rightarrow> 's job_env \<Rightarrow> string \<Rightarrow> string \<Rightarrow> ('s, unit) op" where
  "ms_downloadToFile S E key p =
     andthen (jf_Create (ms_files S) p) (\<lambda>_. in_job E (mo_Download (ms_objects S) key p))"

definition ms_uploadFile :: "'s media_service \<Rightarrow> 's job_env \<Rightarrow> string \<Rightarrow> string \<Rightarrow> string \<Rightarrow> ('s, int) op" where
  "ms_uploadFile S E key ct p =
     andthen (jf_OpenSize (ms_files S) p) (\<lambda>sz.
     andthen (in_job E (mo_Upload (ms_objects S) key ct p sz)) (\<lambda>_. ret sz))"

definition frame_key :: "string \<Rightarrow> string \<Rightarrow> nat \<Rightarrow> string" where
  "frame_key projectID recordingID i =
     ''projects/'' @ projectID @ ''/recordings/'' @ recordingID @ ''/frames/'' @ show_05d i @ ''.jpg''"

definition thumb_key :: "string \<Rightarrow> string \<Rightarrow> string" where
  "thumb_key projectID recordingID = ''projects/'' @ projectID @ ''/recordings/'' @ recordingID @ ''/thumb.jpg''"

definition ms_store_image ::
    "'s media_service \<Rightarrow> 's job_env \<Rightarrow> uuid \<Rightarrow> artifact_kind \<Rightarrow> string \<Rightarrow> nat \<Rightarrow> string \<Rightarrow> ('s, artifact) op" where
  "ms_store_image S E ident kind key i p =
     andthen (or_fail S E ident (ms_uploadFile S E key ''image/jpeg'' p)) (\<lambda>sz.
     andthen (uuid_op E) (\<lambda>u.
     andthen (now_op E) (\<lambda>t.
     ret \<lparr>art_ID = u, art_RecordingID = ident, art_Kind = kind, art_StorageKey = key,
          art_Ordinal = int i, art_ContentType = ''image/jpeg'', art_ByteSize = Some sz, art_CreatedAt = t\<rparr>)))"

text \<open>The loop over the extracted frames; the position in the list numbers the key.\<close>

fun ms_store_frames ::
    "'s media_service \<Rightarrow> 's job_env \<Rightarrow> uuid \<Rightarrow> uploaded_event \<Rightarrow> nat \<Rightarrow> string list \<Rightarrow> ('s, artifact list) op" where
  "ms_store_frames S E ident evt i [] = ret []"
| "ms_store_frames S E ident evt i (p # ps) =
     andthen (ms_store_image S E ident KindFrame (frame_key (ue_ProjectID evt) (ue_RecordingID evt) i) i p) (\<lambda>a.
     andthen (ms_store_frames S E ident evt (Suc i) ps) (\<lambda>as. ret (a # as)))"

text \<open>The thumbnail, or the first frame's key in its place.\<close>

definition ms_store_thumb ::
    "'s media_service \<Rightarrow> 's job_env \<Rightarrow> uuid \<Rightarrow> uploaded_event \<Rightarrow> string \<Rightarrow> artifact list \<Rightarrow> ('s, string \<times> artifact list) op" where
  "ms_store_thumb S E ident evt thumbPath frames =
     (if thumbPath \<noteq> [] then
        andthen (ms_store_image S E ident KindThumb (thumb_key (ue_ProjectID evt) (ue_RecordingID evt)) 0 thumbPath)
          (\<lambda>a. ret (art_StorageKey a, [a]))
      else ret (case frames of f # _ \<Rightarrow> art_StorageKey f | [] \<Rightarrow> [], []))"

definition ms_finish ::
    "(frames_event \<Rightarrow> err + bytes) \<Rightarrow> 's media_service \<Rightarrow> 's job_env \<Rightarrow> uuid \<Rightarrow> recording \<Rightarrow> uploaded_event
       \<Rightarrow> artifact list \<Rightarrow> int \<Rightarrow> string \<times> artifact list \<Rightarrow> ('s, unit) op" where
  "ms_finish enc S E ident rec evt frames durationMS thumb =
     (let corr = first_non_empty [ue_CorrelationID evt, rec_CorrelationID rec]
      in andthen (now_op E) (\<lambda>t.
         andthen (lift_sum (enc
             \<lparr>fe_SchemaVersion = 1, fe_RecordingID = ue_RecordingID evt, fe_ProjectID = ue_ProjectID evt,
              fe_FrameKeys = map art_StorageKey frames, fe_ThumbKey = fst thumb, fe_DurationMS = durationMS,
              fe_CorrelationID = corr, fe_OccurredAt = t\<rparr>)) (\<lambda>payload.
         andthen (now_op E) (\<lambda>at.
         in_job E (st_FinalizeReady (ms_store S) ident (cc_Owner (ms_claim S)) at (frames @ snd thumb)
           TopicFramesExtracted (ue_RecordingID evt) payload corr)))))"

definition ms_extract_in ::
    "(frames_event \<Rightarrow> err + bytes) \<Rightarrow> 's media_service \<Rightarrow> 's job_env \<Rightarrow> uuid \<Rightarrow> recording \<Rightarrow> uploaded_event
       \<Rightarrow> string \<Rightarrow> ('s, unit) op" where
  "ms_extract_in enc S E ident rec evt jobDir =
     (let srcPath = path_join jobDir (''source'' @ ext_from_key (ue_ObjectKey evt));
          framesDir = path_join jobDir ''frames''
      in andthen (or_fail S E ident (ms_downloadToFile S E (ue_ObjectKey evt) srcPath)) (\<lambda>_.
         andthen (jf_MkdirAll (ms_files S) framesDir) (\<lambda>_.
         andthen (or_fail S E ident (in_job E (ms_extract S srcPath framesDir))) (\<lambda>result.
         if xr_FramePaths result = []
         then andthen (ms_fail S E ident) (\<lambda>_. fail (ErrOther ''no frames extracted''))
         else
         andthen (ms_store_frames S E ident evt 0 (xr_FramePaths result)) (\<lambda>frames.
         andthen (ms_store_thumb S E ident evt (xr_ThumbPath result) frames) (\<lambda>thumb.
         ms_finish enc S E ident rec evt frames (xr_DurationMS result) thumb))))))"

definition ms_extract_job ::
    "(frames_event \<Rightarrow> err + bytes) \<Rightarrow> 's media_service \<Rightarrow> 's job_env \<Rightarrow> uuid \<Rightarrow> recording \<Rightarrow> uploaded_event \<Rightarrow> ('s, unit) op" where
  "ms_extract_job enc S E ident rec evt =
     andthen (jf_MkdirTemp (ms_files S) (ms_workdir S)) (\<lambda>jobDir s.
       (case ms_extract_in enc S E ident rec evt jobDir s of
          (r, s') \<Rightarrow> (r, jf_RemoveAll (ms_files S) jobDir s')))"

text \<open>One tick of the heartbeat: the error it cancels the job with, if any.\<close>

definition ms_renew_tick :: "'s media_service \<Rightarrow> uuid \<Rightarrow> go_time \<Rightarrow> 's \<Rightarrow> err option \<times> 's" where
  "ms_renew_tick S ident now s =
     (case st_RenewClaim (ms_store S) ident (cc_Owner (ms_claim S)) (now + cc_Lease (ms_claim S)) s of
        (Inl e, s') \<Rightarrow> (if errors_is e ErrClaimLost then Some e else None, s')
      | (Inr _, s') \<Rightarrow> (None, s'))"

definition frames_event_of ::
    "'z golib_scheme \<Rightarrow> recording \<Rightarrow> artifact list \<Rightarrow> int \<Rightarrow> string \<Rightarrow> go_time \<Rightarrow> frames_event" where
  "frames_event_of L rec arts durationMS corr now =
     (let frameKeys = map art_StorageKey (filter (\<lambda>a. art_Kind a = KindFrame) arts);
          thumbKey = foldl (\<lambda>k a. if art_Kind a = KindThumb then art_StorageKey a else k) [] arts;
          thumbKey = (if thumbKey = [] \<and> frameKeys \<noteq> [] then hd frameKeys else thumbKey)
      in \<lparr>fe_SchemaVersion = 1, fe_RecordingID = uuid_string L (rec_ID rec), fe_ProjectID = uuid_string L (rec_ProjectID rec),
          fe_FrameKeys = frameKeys, fe_ThumbKey = thumbKey, fe_DurationMS = durationMS,
          fe_CorrelationID = first_non_empty [corr, rec_CorrelationID rec], fe_OccurredAt = now\<rparr>)"

definition ms_publishFramesExtracted ::
    "'z golib_scheme \<Rightarrow> (frames_event \<Rightarrow> err + bytes) \<Rightarrow> 's media_service \<Rightarrow> 's job_env \<Rightarrow> recording \<Rightarrow> artifact list
       \<Rightarrow> int \<Rightarrow> string \<Rightarrow> ('s, unit) op" where
  "ms_publishFramesExtracted L enc S E rec arts durationMS corr =
     andthen (now_op E) (\<lambda>now.
     andthen (lift_sum (enc (frames_event_of L rec arts durationMS corr now))) (\<lambda>payload.
     st_InsertOutbox (ms_store S) TopicFramesExtracted (uuid_string L (rec_ID rec)) payload
       (first_non_empty [corr, rec_CorrelationID rec])))"

definition ms_HandleUploaded ::
    "'z golib_scheme \<Rightarrow> (frames_event \<Rightarrow> err + bytes) \<Rightarrow> 's media_service \<Rightarrow> 's job_env \<Rightarrow> uploaded_event \<Rightarrow> ('s, unit) op" where
  "ms_HandleUploaded L enc S E evt =
     andthen (lift_sum (case uuid_parse L (ue_RecordingID evt) of Inl e \<Rightarrow> Inl (ErrWrap ''recording_id: '' e) | Inr u \<Rightarrow> Inr u)) (\<lambda>ident.
     andthen (st_Get (ms_store S) ident) (\<lambda>rec.
     andthen (st_ListArtifacts (ms_store S) ident) (\<lambda>existing.
     if rec_Status rec = READY then
       if existing \<noteq> [] then ms_publishFramesExtracted L enc S E rec existing 0 (ue_CorrelationID evt)
       else ret ()
     else if rec_Status rec \<notin> {UPLOADED, PROCESSING, FAILED} then fail (ErrSuffix ErrConflict ('': status='' @ status_text (rec_Status rec)))
     else
       andthen (now_op E) (\<lambda>now.
       andthen (st_ClaimProcessing (ms_store S) ident (cc_Owner (ms_claim S)) now (now + cc_Lease (ms_claim S))) (\<lambda>_ s.
       (case ms_extract_job enc S E ident rec evt s of
          (Inl e, s') \<Rightarrow>
            (case je_cause E s' of
               Some c \<Rightarrow> if is_claim_conflict c then (Inl c, s') else (Inl e, s')
             | None \<Rightarrow> (Inl e, s'))
        | (Inr _, s') \<Rightarrow> (Inr (), s')))))))"

section \<open>The lease protocol\<close>

text \<open>What the stores keep of a recording for the workers: its status and its claim.\<close>

type_synonym lease = "string \<times> go_time"
type_synonym event_row = "string \<times> string \<times> bytes \<times> string"

text \<open>The calls workers make of a store, and running them one after the other, in any order.\<close>

datatype claim_call =
    CallClaim uuid string go_time go_time
  | CallRenew uuid string go_time
  | CallFail uuid string go_time
  | CallFinalize uuid string go_time "artifact list" string string bytes string
  | CallRepublish string string bytes string

fun do_claim_call :: "'s media_store \<Rightarrow> claim_call \<Rightarrow> ('s, unit) op" where
  "do_claim_call R (CallClaim i w at e) = st_ClaimProcessing R i w at e"
| "do_claim_call R (CallRenew i w e) = st_RenewClaim R i w e"
| "do_claim_call R (CallFail i w at) = st_MarkFailed R i w at"
| "do_claim_call R (CallFinalize i w at as t k pl c) = st_FinalizeReady R i w at as t k pl c"
| "do_claim_call R (CallRepublish t k pl c) = st_InsertOutbox R t k pl c"

fun run_claim_calls :: "'s media_store \<Rightarrow> claim_call list \<Rightarrow> 's \<Rightarrow> (claim_call \<times> bool) list \<times> 's" where
  "run_claim_calls R [] s = ([], s)"
| "run_claim_calls R (c # cs) s =
     (let (r, s1) = do_claim_call R c s; (rs, s2) = run_claim_calls R cs s1
      in ((c, r = Inr ()) # rs, s2))"

fun finalizes :: "uuid \<Rightarrow> claim_call \<Rightarrow> bool" where
  "finalizes i (CallFinalize j w at as t k pl c) = (i = j)"
| "finalizes i _ = False"

fun claims :: "uuid \<Rightarrow> claim_call \<Rightarrow> bool" where
  "claims i (CallClaim j w at e) = (i = j)"
| "claims i _ = False"

text \<open>The artifacts of one recording, no two of them with the same kind and ordinal.\<close>

definition artifacts_of :: "uuid \<Rightarrow> artifact list \<Rightarrow> bool" where
  "artifacts_of i as \<longleftrightarrow> (\<forall>a\<in>set as. art_RecordingID a = i) \<and> distinct (map (\<lambda>a. (art_Kind a, art_Ordinal a)) as)"

locale claim_store =
  fixes R :: "'s media_store"
    and ok :: "'s \<Rightarrow> bool"
    and row :: "'s \<Rightarrow> uuid \<Rightarrow> (rec_status \<times> lease option) option"
    and arts :: "'s \<Rightarrow> uuid \<Rightarrow> artifact list"
    and ob :: "'s \<Rightarrow> event_row list"
  assumes ok_ops:
    "preserves ok (st_ClaimProcessing R i w at e)" "preserves ok (st_RenewClaim R i w e)"
    "preserves ok (st_MarkFailed R i w at)" "preserves ok (st_FinalizeReady R i w at as t k pl c)"
    "preserves ok (st_InsertOutbox R t k pl c)"
    and ok_claims: "ok s \<Longrightarrow> row s i = Some (st, Some l) \<Longrightarrow> st = PROCESSING"
    and media_reads:
    "keeps (\<lambda>s. (ok s, row s, arts s, ob s)) (st_Get R i)"
    "keeps (\<lambda>s. (ok s, row s, arts s, ob s)) (st_ListArtifacts R i)"
    and media_failures:
    "ok s \<Longrightarrow> st_ClaimProcessing R i w at e s = (Inl x, s') \<Longrightarrow> row s' = row s \<and> arts s' = arts s \<and> ob s' = ob s"
    "ok s \<Longrightarrow> st_RenewClaim R i w e s = (Inl x, s') \<Longrightarrow> row s' = row s \<and> arts s' = arts s \<and> ob s' = ob s"
    "ok s \<Longrightarrow> st_MarkFailed R i w at s = (Inl x, s') \<Longrightarrow> row s' = row s \<and> arts s' = arts s \<and> ob s' = ob s"
    "ok s \<Longrightarrow> st_FinalizeReady R i w at as t k pl c s = (Inl x, s') \<Longrightarrow> row s' = row s \<and> arts s' = arts s \<and> ob s' = ob s"
    "ok s \<Longrightarrow> st_InsertOutbox R t k pl c s = (Inl x, s') \<Longrightarrow> row s' = row s \<and> arts s' = arts s \<and> ob s' = ob s"
    and get_status: "ok s \<Longrightarrow> st_Get R i s = (Inr rec, s') \<Longrightarrow>
       \<exists>cl. row s i = Some (rec_Status rec, cl) \<and> rec_ID rec = i"
    and claim_ok: "ok s \<Longrightarrow> st_ClaimProcessing R i w at e s = (Inr (), s') \<Longrightarrow>
       \<exists>st cl e2. row s i = Some (st, cl) \<and> st \<in> {UPLOADED, FAILED, PROCESSING}
         \<and> (\<forall>w' e'. st = PROCESSING \<and> cl = Some (w', e') \<longrightarrow> w' = w \<or> e' \<le> at) \<and> e2 \<le> e
         \<and> row s' = (row s)(i \<mapsto> (PROCESSING, Some (w, e2))) \<and> arts s' = arts s \<and> ob s' = ob s"
    and claim_held: "ok s \<Longrightarrow> st_ClaimProcessing R i w at e s = (Inl ErrClaimHeld, s') \<Longrightarrow>
       \<exists>w' e'. row s i = Some (PROCESSING, Some (w', e')) \<and> w' \<noteq> w \<and> at < e'"
    and renew_ok: "ok s \<Longrightarrow> st_RenewClaim R i w e s = (Inr (), s') \<Longrightarrow>
       \<exists>e' e2. row s i = Some (PROCESSING, Some (w, e')) \<and> e2 \<le> e
         \<and> row s' = (row s)(i \<mapsto> (PROCESSING, Some (w, e2))) \<and> arts s' = arts s \<and> ob s' = ob s"
    and fail_ok: "ok s \<Longrightarrow> st_MarkFailed R i w at s = (Inr (), s') \<Longrightarrow>
       \<exists>e'. row s i = Some (PROCESSING, Some (w, e')) \<and> row s' = (row s)(i \<mapsto> (FAILED, None))
         \<and> arts s' = arts s \<and> ob s' = ob s"
    and finalize_ok: "ok s \<Longrightarrow> st_FinalizeReady R i w at as t k pl c s = (Inr (), s') \<Longrightarrow>
       \<exists>e'. row s i = Some (PROCESSING, Some (w, e')) \<and> row s' = (row s)(i \<mapsto> (READY, None))
         \<and> (artifacts_of i as \<longrightarrow> (\<forall>j. j \<noteq> i \<longrightarrow> arts s' j = arts s j)
              \<and> (\<forall>a\<in>set as. \<exists>b\<in>set (arts s' i). art_Kind b = art_Kind a \<and> art_StorageKey b = art_StorageKey a))
         \<and> ob s' = ob s @ [(t, k, pl, c)]"
    and republish_ok: "ok s \<Longrightarrow> st_InsertOutbox R t k pl c s = (Inr (), s') \<Longrightarrow>
       row s' = row s \<and> arts s' = arts s \<and> ob s' = ob s @ [(t, k, pl, c)]"
begin

lemmas ok_steps = ok_ops [THEN preservesD]

lemma call_ok: "ok s \<Longrightarrow> do_claim_call R c s = (r, s') \<Longrightarrow> ok s'"
  by (cases c) (simp_all add: ok_steps)

text \<open>A recording that is ready stays ready: no call on it but publishing its event again succeeds.\<close>

lemma ready_final:
  assumes ok: "ok s" and ready: "row s i = Some (READY, cl)" and call: "do_claim_call R c s = (r, s')"
  shows "row s' i = Some (READY, cl) \<and> (finalizes i c \<or> claims i c \<longrightarrow> r \<noteq> Inr ())"
proof (cases r)
  case (Inl x)
  then show ?thesis using assms media_failures by (cases c) auto
next
  case (Inr u)
  then have call: "do_claim_call R c s = (Inr (), s')" using call by simp
  show ?thesis
  proof (cases c)
    case (CallClaim j w at e)
    with call claim_ok [OF ok, of j w at e s'] ready show ?thesis by (cases "j = i") auto
  next
    case (CallRenew j w e)
    with call renew_ok [OF ok, of j w e s'] ready show ?thesis by (cases "j = i") auto
  next
    case (CallFail j w at)
    with call fail_ok [OF ok, of j w at s'] ready show ?thesis by (cases "j = i") auto
  next
    case (CallFinalize j w at as t k pl cc)
    with call finalize_ok [OF ok, of j w at as t k pl cc s'] ready show ?thesis by (cases "j = i") auto
  next
    case (CallRepublish t k pl cc)
    with call republish_ok [OF ok, of t k pl cc s'] ready show ?thesis by auto
  qed
qed

lemma finalize_makes_ready:
  "ok s \<Longrightarrow> finalizes i c \<Longrightarrow> do_claim_call R c s = (Inr (), s') \<Longrightarrow> row s' i = Some (READY, None)"
  by (cases c) (auto dest: finalize_ok)

lemma ready_runs:
  "ok s \<Longrightarrow> row s i = Some (READY, cl) \<Longrightarrow> run_claim_calls R cs s = (rs, s') \<Longrightarrow>
     row s' i = Some (READY, cl) \<and> (\<forall>(c, b)\<in>set rs. finalizes i c \<or> claims i c \<longrightarrow> \<not> b)"
proof (induction cs arbitrary: s rs)
  case (Cons c cs)
  obtain r s1 where one: "do_claim_call R c s = (r, s1)" by fastforce
  obtain rs' where rest: "run_claim_calls R cs s1 = (rs', s')" and rs: "rs = (c, r = Inr ()) # rs'"
    using Cons.prems(3) one by (auto simp: Let_def split: prod.splits)
  from Cons.IH [OF call_ok [OF Cons.prems(1) one] _ rest] ready_final [OF Cons.prems(1,2) one] rs
  show ?case by auto
qed simp

text \<open>So the workers together make a recording ready, and announce its frames, at most once.\<close>

lemma finalized_once:
  "ok s \<Longrightarrow> run_claim_calls R cs s = (rs, s') \<Longrightarrow> length (filter (\<lambda>(c, b). b \<and> finalizes i c) rs) \<le> 1"
proof (induction cs arbitrary: s rs)
  case (Cons c cs)
  obtain r s1 where one: "do_claim_call R c s = (r, s1)" by fastforce
  obtain rs' where rest: "run_claim_calls R cs s1 = (rs', s')" and rs: "rs = (c, r = Inr ()) # rs'"
    using Cons.prems(2) one by (auto simp: Let_def split: prod.splits)
  have ok1: "ok s1" using call_ok [OF Cons.prems(1) one] .
  show ?case
  proof (cases "r = Inr () \<and> finalizes i c")
    case True
    have "row s1 i = Some (READY, None)"
      using finalize_makes_ready [OF Cons.prems(1) conjunct2 [OF True] one [unfolded conjunct1 [OF True]]] .
    from ready_runs [OF ok1 this rest] have "filter (\<lambda>(c, b). b \<and> finalizes i c) rs' = []"
      by (auto simp: filter_empty_conv)
    then show ?thesis using rs by simp
  next
    case False
    then show ?thesis using Cons.IH [OF ok1 rest] rs by auto
  qed
qed simp

lemma final_after:
  "ok s \<Longrightarrow> run_claim_calls R cs s = (rs, s') \<Longrightarrow> rs = before @ (c, True) # after \<Longrightarrow> finalizes i c \<Longrightarrow>
     \<forall>(d, b)\<in>set after. finalizes i d \<or> claims i d \<longrightarrow> \<not> b"
proof (induction before arbitrary: cs s rs)
  case Nil
  then obtain cs' where cs: "cs = c # cs'" by (cases cs) (auto simp: Let_def split: prod.splits)
  obtain r s1 where one: "do_claim_call R c s = (r, s1)" by fastforce
  have r: "r = Inr ()" and rest: "run_claim_calls R cs' s1 = (after, s')"
    using Nil.prems(2,3) one cs by (auto simp: Let_def split: prod.splits)
  have "row s1 i = Some (READY, None)"
    using finalize_makes_ready [OF Nil.prems(1,4) one [unfolded r]] .
  from ready_runs [OF call_ok [OF Nil.prems(1) one] this rest] show ?case by blast
next
  case (Cons x before)
  obtain c' cs' where cs: "cs = c' # cs'" using Cons.prems(2,3) by (cases cs) auto
  obtain r s1 where one: "do_claim_call R c' s = (r, s1)" by fastforce
  have "run_claim_calls R cs' s1 = (before @ (c, True) # after, s')"
    using Cons.prems(2,3) one cs by (auto simp: Let_def split: prod.splits)
  from Cons.IH [OF call_ok [OF Cons.prems(1) one] this refl Cons.prems(4)] show ?case .
qed

text \<open>A claim that succeeds found no live lease of another worker.\<close>

lemma live_lease_excludes:
  "ok s \<Longrightarrow> row s i = Some (PROCESSING, Some (w, e)) \<Longrightarrow> at < e \<Longrightarrow> w' \<noteq> w \<Longrightarrow>
     st_ClaimProcessing R i w' at e' s = (r, s') \<Longrightarrow> r \<noteq> Inr () \<and> row s' = row s"
  using claim_ok media_failures(1) by (cases r) fastforce+

text \<open>A worker whose claim is gone can neither commit nor release nor renew.\<close>

lemma lost_claim_refused:
  assumes "ok s" "\<And>e. row s i \<noteq> Some (PROCESSING, Some (w, e))"
  shows "fst (st_FinalizeReady R i w at as t k pl c s) \<noteq> Inr ()"
    and "fst (st_MarkFailed R i w at s) \<noteq> Inr ()"
    and "fst (st_RenewClaim R i w at s) \<noteq> Inr ()"
proof -
  show "fst (st_FinalizeReady R i w at as t k pl c s) \<noteq> Inr ()"
    using finalize_ok [OF assms(1), of i w at as t k pl c] assms(2)
    by (cases "st_FinalizeReady R i w at as t k pl c s") auto
  show "fst (st_MarkFailed R i w at s) \<noteq> Inr ()"
    using fail_ok [OF assms(1), of i w at] assms(2) by (cases "st_MarkFailed R i w at s") auto
  show "fst (st_RenewClaim R i w at s) \<noteq> Inr ()"
    using renew_ok [OF assms(1), of i w at] assms(2) by (cases "st_RenewClaim R i w at s") auto
qed

end

end
