(* ===== verification/Media_Jobs.thy ===== *)
theory Media_Jobs
  imports Media
begin

text \<open>
  What one run of the media service does over any store that keeps the lease protocol: the locale
  \<open>media_job\<close> adds to \<open>claim_store\<close> the rest of what the service calls. The environment may act while a
  job waits; \<open>calm\<close> says it leaves this recording's rows alone.
\<close>

lemma preserves_or_fail:
  "preserves P m \<Longrightarrow> preserves P (ms_fail S E i) \<Longrightarrow> preserves P (or_fail S E i m)"
  by (simp add: preserves_def or_fail_def split: prod.splits sum.splits) (metis snd_conv)

lemma triple_or_fail:
  assumes "triple P m Q (\<lambda>_. P')" and "preserves P' (ms_fail S E i)"
  shows "triple P (or_fail S E i m) Q (\<lambda>_. P')"
proof (rule tripleI)
  fix s a s' assume "P s" "or_fail S E i m s = (Inr a, s')"
  then show "Q a s'" using triple_InrD [OF assms(1)]
    by (auto simp: or_fail_def split: prod.splits sum.splits)
next
  fix s e s' assume P: "P s" and "or_fail S E i m s = (Inl e, s')"
  then obtain s1 where "m s = (Inl e, s1)" and s': "s' = snd (ms_fail S E i s1)"
    by (auto simp: or_fail_def split: prod.splits sum.splits)
  then have "P' s1" using triple_InlD [OF assms(1) P] by blast
  then show "P' s'" using assms(2) s' by (simp add: preserves_def)
qed

lemma preserves_in_job: "preserves P m \<Longrightarrow> (\<And>s. P s \<Longrightarrow> P (je_pause E s)) \<Longrightarrow> preserves P (in_job E m)"
  by (simp add: preserves_def in_job_def Let_def)

section \<open>The artifacts a job collects\<close>

text \<open>Frames numbered from \<open>n\<close> in order, under the keys of their numbers.\<close>

definition numbered_frames :: "uuid \<Rightarrow> uploaded_event \<Rightarrow> nat \<Rightarrow> nat \<Rightarrow> artifact list \<Rightarrow> bool" where
  "numbered_frames i evt n k as \<longleftrightarrow> length as = k \<and>
     (\<forall>m<k. art_RecordingID (as ! m) = i \<and> art_Kind (as ! m) = KindFrame \<and> art_Ordinal (as ! m) = int (n + m)
        \<and> art_StorageKey (as ! m) = frame_key (ue_ProjectID evt) (ue_RecordingID evt) (n + m))"

lemma numbered_frames_Cons:
  "numbered_frames i evt (Suc n) k as \<Longrightarrow> art_RecordingID a = i \<Longrightarrow> art_Kind a = KindFrame \<Longrightarrow>
     art_Ordinal a = int n \<Longrightarrow> art_StorageKey a = frame_key (ue_ProjectID evt) (ue_RecordingID evt) n \<Longrightarrow>
     numbered_frames i evt n (Suc k) (a # as)"
  unfolding numbered_frames_def by (auto simp: nth_Cons split: nat.splits)

lemma numbered_artifacts: 
  assumes "numbered_frames i evt 0 k as" 
    and "thumbs = [] \<or> (\<exists>t. thumbs = [t] \<and> art_RecordingID t = i \<and> art_Kind t = KindThumb)"
  shows "artifacts_of i (as @ thumbs)"
proof -
  have "distinct (map (\<lambda>a. (art_Kind a, art_Ordinal a)) as)"
    using assms(1) by (auto simp: numbered_frames_def distinct_conv_nth)
  then show ?thesis using assms
    by (fastforce simp: artifacts_of_def numbered_frames_def in_set_conv_nth)
qed

lemma store_image_result:
  "ms_store_image S E i kind key n p s = (Inr a, s') \<Longrightarrow>
     art_RecordingID a = i \<and> art_Kind a = kind \<and> art_Ordinal a = int n \<and> art_StorageKey a = key"
  by (auto simp: ms_store_image_def elim!: andthen_InrE)

lemma store_frames_result:
  "ms_store_frames S E i evt n ps s = (Inr as, s') \<Longrightarrow> numbered_frames i evt n (length ps) as"
proof (induction ps arbitrary: n as s s')
  case Nil
  then show ?case by (simp add: numbered_frames_def)
next
  case (Cons p ps)
  from Cons.prems obtain a s1 bs s2 where
    one: "ms_store_image S E i KindFrame (frame_key (ue_ProjectID evt) (ue_RecordingID evt) n) n p s = (Inr a, s1)"
    and rest: "ms_store_frames S E i evt (Suc n) ps s1 = (Inr bs, s2)" and as: "as = a # bs"
    by (auto elim!: andthen_InrE)
  show ?case using numbered_frames_Cons [OF Cons.IH [OF rest]] store_image_result [OF one] as by simp
qed

lemma numbered_kind: "numbered_frames i evt n k as \<Longrightarrow> a \<in> set as \<Longrightarrow> art_Kind a = KindFrame \<and> art_RecordingID a = i"
  by (auto simp: numbered_frames_def in_set_conv_nth)

lemma store_thumb_result:
  assumes "ms_store_thumb S E i evt p fs s = (Inr thumb, s')" "fs \<noteq> []"
  shows "snd thumb = [] \<and> fst thumb = art_StorageKey (hd fs)
      \<or> (\<exists>t. snd thumb = [t] \<and> art_RecordingID t = i \<and> art_Kind t = KindThumb
             \<and> fst thumb = thumb_key (ue_ProjectID evt) (ue_RecordingID evt))"
proof (cases "p = []")
  case True
  then show ?thesis using assms by (cases fs) (auto simp: ms_store_thumb_def)
next
  case False
  then obtain a s1 where one: "ms_store_image S E i KindThumb (thumb_key (ue_ProjectID evt) (ue_RecordingID evt)) 0 p s = (Inr a, s1)"
    and "thumb = (art_StorageKey a, [a])"
    using assms(1) by (auto simp: ms_store_thumb_def elim!: andthen_InrE)
  then show ?thesis using store_image_result [OF one] by auto
qed

section \<open>Running a job\<close>

text \<open>The event a finished job announces: the frames that are now stored, in their order.\<close>

definition announces_frames ::
    "(frames_event \<Rightarrow> err + bytes) \<Rightarrow> uuid \<Rightarrow> uploaded_event \<Rightarrow> recording \<Rightarrow> artifact list \<Rightarrow> event_row \<Rightarrow> bool" where
  "announces_frames enc i evt rec stored row \<longleftrightarrow>
     (\<exists>ev n frames. n > 0 \<and> numbered_frames i evt 0 n frames \<and> fe_FrameKeys ev = map art_StorageKey frames
        \<and> (\<forall>f\<in>set frames. \<exists>b\<in>set stored. art_Kind b = KindFrame \<and> art_StorageKey b = art_StorageKey f)
        \<and> fe_RecordingID ev = ue_RecordingID evt \<and> fe_ProjectID ev = ue_ProjectID evt
        \<and> fe_ThumbKey ev \<in> {frame_key (ue_ProjectID evt) (ue_RecordingID evt) 0,
                            thumb_key (ue_ProjectID evt) (ue_RecordingID evt)}
        \<and> (\<exists>pl. enc ev = Inr pl
             \<and> row = (TopicFramesExtracted, ue_RecordingID evt, pl, first_non_empty [ue_CorrelationID evt, rec_CorrelationID rec])))"

text \<open>
  What a job that succeeds has done: from a state with \<open>P\<close> in which its worker held the claim, one step
  made the recording ready, stored its frames and announced them.
\<close>

definition finished_job ::
    "string \<Rightarrow> (frames_event \<Rightarrow> err + bytes) \<Rightarrow> uuid \<Rightarrow> uploaded_event \<Rightarrow> recording \<Rightarrow> ('s \<Rightarrow> bool) \<Rightarrow> ('s \<Rightarrow> bool)
       \<Rightarrow> ('s \<Rightarrow> uuid \<Rightarrow> (rec_status \<times> lease option) option) \<Rightarrow> ('s \<Rightarrow> uuid \<Rightarrow> artifact list)
       \<Rightarrow> ('s \<Rightarrow> event_row list) \<Rightarrow> 's \<Rightarrow> bool" where
  "finished_job w enc i evt rec P ok row arts ob s \<longleftrightarrow> ok s \<and>
     (\<exists>s1 er e. P s1 \<and> row s1 i = Some (PROCESSING, Some (w, e)) \<and> row s = (row s1)(i \<mapsto> (READY, None))
        \<and> (\<forall>j. j \<noteq> i \<longrightarrow> arts s j = arts s1 j) \<and> ob s = ob s1 @ [er]
        \<and> announces_frames enc i evt rec (arts s i) er)"

text \<open>
  What a job that failed may have done to the store: this recording, if it changed, is still claimed by its
  worker or given back as failed; no artifact, no event and no other recording changed.
\<close>

definition given_up ::
    "string \<Rightarrow> uuid \<Rightarrow> ('s \<Rightarrow> bool) \<Rightarrow> ('s \<Rightarrow> uuid \<Rightarrow> (rec_status \<times> lease option) option)
       \<Rightarrow> ('s \<Rightarrow> uuid \<Rightarrow> artifact list) \<Rightarrow> ('s \<Rightarrow> event_row list) \<Rightarrow> 's \<Rightarrow> 's \<Rightarrow> bool" where
  "given_up w i ok row arts ob s0 s \<longleftrightarrow> ok s \<and> arts s = arts s0 \<and> ob s = ob s0 \<and> (\<forall>j. j \<noteq> i \<longrightarrow> row s j = row s0 j)
     \<and> (row s i = row s0 i \<or> (\<exists>e. row s i = Some (PROCESSING, Some (w, e))) \<or> row s i = Some (FAILED, None))"

locale media_job = claim_store R ok row arts ob
  for R :: "'s media_store" and ok row arts ob +
  fixes S :: "'s media_service" and E :: "'s job_env"
  assumes store: "ms_store S = R"
    and work_keeps:
    "keeps (\<lambda>s. (ok s, row s, arts s, ob s)) (mo_Download (ms_objects S) key p)"
    "keeps (\<lambda>s. (ok s, row s, arts s, ob s)) (mo_Upload (ms_objects S) key ct p n)"
    "keeps (\<lambda>s. (ok s, row s, arts s, ob s)) (ms_extract S p q)"
    "keeps (\<lambda>s. (ok s, row s, arts s, ob s)) (jf_MkdirTemp (ms_files S) p)"
    "keeps (\<lambda>s. (ok s, row s, arts s, ob s)) (jf_MkdirAll (ms_files S) p)"
    "keeps (\<lambda>s. (ok s, row s, arts s, ob s)) (jf_Create (ms_files S) p)"
    "keeps (\<lambda>s. (ok s, row s, arts s, ob s)) (jf_OpenSize (ms_files S) p)"
    "keeps (\<lambda>s. (ok s, row s, arts s, ob s)) (now_op E)"
    "keeps (\<lambda>s. (ok s, row s, arts s, ob s)) (uuid_op E)"
    and remove_keeps: "ok (jf_RemoveAll (ms_files S) p s) = ok s" "row (jf_RemoveAll (ms_files S) p s) = row s"
    "arts (jf_RemoveAll (ms_files S) p s) = arts s" "ob (jf_RemoveAll (ms_files S) p s) = ob s"
    and pause_ok: "ok s \<Longrightarrow> ok (je_pause E s)"
begin

text \<open>The last step of a job whose frames are stored: it commits, or it changes nothing.\<close>

lemma finish_job:
  assumes P_ok: "\<And>s. P s \<Longrightarrow> ok s"
    and P_failed: "\<And>s s'. ok s' \<Longrightarrow> row s' = row s \<Longrightarrow> arts s' = arts s \<Longrightarrow> ob s' = ob s \<Longrightarrow> P s \<Longrightarrow> P s'"
    and paused: "\<And>s. P s \<Longrightarrow> P (je_pause E s)"
    and frames: "numbered_frames i evt 0 n frames" "0 < n"
    and thumb: "snd thumb = [] \<and> fst thumb = art_StorageKey (hd frames)
      \<or> (\<exists>t. snd thumb = [t] \<and> art_RecordingID t = i \<and> art_Kind t = KindThumb
             \<and> fst thumb = thumb_key (ue_ProjectID evt) (ue_RecordingID evt))"
  shows "triple P (ms_finish enc S E i rec evt frames dur thumb)
     (\<lambda>_ s. finished_job (cc_Owner (ms_claim S)) enc i evt rec P ok row arts ob s) (\<lambda>_. P)"
proof -
  have now: "preserves P (now_op E)"
    using work_keeps(8) P_failed P_ok by (auto simp: keeps_def preserves_def)
  have hd: "art_StorageKey (hd frames) = frame_key (ue_ProjectID evt) (ue_RecordingID evt) 0"
    using frames by (cases frames) (auto simp: numbered_frames_def)
  have arts_of: "artifacts_of i (frames @ snd thumb)"
    using thumb by (intro numbered_artifacts [OF frames(1)]) auto
  let ?w = "cc_Owner (ms_claim S)" and ?as = "frames @ snd thumb" and ?k = "ue_RecordingID evt"
  let ?corr = "first_non_empty [ue_CorrelationID evt, rec_CorrelationID rec]"
  have commit: "triple P (in_job E (st_FinalizeReady R i ?w at ?as TopicFramesExtracted ?k pl ?corr))
     (\<lambda>_ s. finished_job ?w enc i evt rec P ok row arts ob s) (\<lambda>_. P)"
    if pl: "enc ev = Inr pl" "fe_FrameKeys ev = map art_StorageKey frames" "fe_RecordingID ev = ue_RecordingID evt"
      "fe_ProjectID ev = ue_ProjectID evt" "fe_ThumbKey ev = fst thumb" for at ev pl
  proof (rule tripleI)
    fix s u s' assume P: "P s" and run: "in_job E (st_FinalizeReady R i ?w at ?as TopicFramesExtracted ?k pl ?corr) s = (Inr u, s')"
    let ?s1 = "je_pause E s"
    have P1: "P ?s1" and ok1: "ok ?s1" using P paused P_ok by auto
    have fin: "st_FinalizeReady R i ?w at ?as TopicFramesExtracted ?k pl ?corr ?s1 = (Inr (), s')"
      using run by (auto simp: in_job_def Let_def split: if_splits)
    obtain e where e: "row ?s1 i = Some (PROCESSING, Some (?w, e))" "row s' = (row ?s1)(i \<mapsto> (READY, None))"
      "ob s' = ob ?s1 @ [(TopicFramesExtracted, ?k, pl, ?corr)]"
      and as: "\<forall>j. j \<noteq> i \<longrightarrow> arts s' j = arts ?s1 j"
        "\<forall>a\<in>set ?as. \<exists>b\<in>set (arts s' i). art_Kind b = art_Kind a \<and> art_StorageKey b = art_StorageKey a"
      using finalize_ok [OF ok1 fin] arts_of by blast
    have "announces_frames enc i evt rec (arts s' i) (TopicFramesExtracted, ?k, pl, ?corr)"
      unfolding announces_frames_def
    proof (intro exI conjI)
      show "0 < n" "numbered_frames i evt 0 n frames" by (fact frames)+
      show "\<forall>f\<in>set frames. \<exists>b\<in>set (arts s' i). art_Kind b = KindFrame \<and> art_StorageKey b = art_StorageKey f"
      proof
        fix f assume f: "f \<in> set frames"
        then have "art_Kind f = KindFrame" using numbered_kind [OF frames(1)] by blast
        moreover have "f \<in> set ?as" using f by simp
        ultimately show "\<exists>b\<in>set (arts s' i). art_Kind b = KindFrame \<and> art_StorageKey b = art_StorageKey f"
          using as(2) by metis
      qed
    qed (use pl thumb hd in auto)
    then show "finished_job ?w enc i evt rec P ok row arts ob s'"
      unfolding finished_job_def using P1 e as(1) ok_steps(4) [OF fin ok1] by blast
  next
    fix s x s' assume P: "P s" and run: "in_job E (st_FinalizeReady R i ?w at ?as TopicFramesExtracted ?k pl ?corr) s = (Inl x, s')"
    let ?s1 = "je_pause E s"
    have P1: "P ?s1" and ok1: "ok ?s1" using P paused P_ok by auto
    show "P s'"
    proof (cases "je_cause E ?s1 = None")
      case True
      then have fin: "st_FinalizeReady R i ?w at ?as TopicFramesExtracted ?k pl ?corr ?s1 = (Inl x, s')"
        using run by (simp add: in_job_def Let_def)
      from media_failures(4) [OF ok1 fin] show ?thesis
        using P_failed [OF ok_steps(4) [OF fin ok1] _ _ _ P1] by simp
    next
      case False
      then show ?thesis using run P1 by (auto simp: in_job_def Let_def)
    qed
  qed
  define ev where "ev t = \<lparr>fe_SchemaVersion = 1, fe_RecordingID = ue_RecordingID evt, fe_ProjectID = ue_ProjectID evt,
      fe_FrameKeys = map art_StorageKey frames, fe_ThumbKey = fst thumb, fe_DurationMS = dur,
      fe_CorrelationID = ?corr, fe_OccurredAt = t\<rparr>" for t
  have ev: "fe_FrameKeys (ev t) = map art_StorageKey frames" "fe_RecordingID (ev t) = ue_RecordingID evt"
      "fe_ProjectID (ev t) = ue_ProjectID evt" "fe_ThumbKey (ev t) = fst thumb" for t
    by (simp_all add: ev_def)
  show ?thesis
    unfolding ms_finish_def Let_def store ev_def [symmetric]
    by (rule triple_andthen_val [OF triple_preserves [OF now]],
        rule triple_andthen_val [OF triple_preserves [OF preserves_lift_sum]],
        rule triple_andthen_val [OF triple_preserves [OF now]], rule commit [OF _ ev]) simp
qed

text \<open>A whole job, for a predicate that its own calls, its failures and the pauses keep.\<close>

lemma frames_job:
  fixes P :: "'s \<Rightarrow> bool"
  assumes P_ok: "\<And>s. P s \<Longrightarrow> ok s"
    and P_failed: "\<And>s s'. ok s' \<Longrightarrow> row s' = row s \<Longrightarrow> arts s' = arts s \<Longrightarrow> ob s' = ob s \<Longrightarrow> P s \<Longrightarrow> P s'"
    and paused: "\<And>s. P s \<Longrightarrow> P (je_pause E s)"
    and failing: "preserves P (ms_fail S E i)"
  shows "triple P (ms_extract_job enc S E i rec evt)
     (\<lambda>_ s. finished_job (cc_Owner (ms_claim S)) enc i evt rec P ok row arts ob s) (\<lambda>_. P)"
    (is "triple P _ ?done _")
proof -
  have same: "preserves P m" if "keeps (\<lambda>s. (ok s, row s, arts s, ob s)) m" for m :: "('s, 'b) op"
    using that P_ok P_failed by (auto simp: keeps_def preserves_def)
  note works = work_keeps [THEN same]
  have unit: "preserves P (jf_MkdirAll (ms_files S) p)" for p using works(5) .
  note pres = preserves_andthen preserves_in_job works paused preserves_or_fail failing preserves_ret
  have download: "preserves P (or_fail S E i (ms_downloadToFile S E key p))" for key p
    unfolding ms_downloadToFile_def by (intro pres)
  have extracting: "preserves P (or_fail S E i (in_job E (ms_extract S p q)))" for p q
    by (intro pres)
  have image: "preserves P (ms_store_image S E i kind key n p)" for kind key n p
    unfolding ms_store_image_def ms_uploadFile_def by (intro pres)
  have frames: "preserves P (ms_store_frames S E i evt n ps)" for n ps
    by (induction ps arbitrary: n) (auto intro!: pres image)
  have thumbs: "preserves P (ms_store_thumb S E i evt p fs)" for p fs
    unfolding ms_store_thumb_def by (intro preserves_if pres image)
  note steps = triple_andthen_val [OF triple_preserves]
  have inside: "triple P (ms_extract_in enc S E i rec evt jobDir) ?done (\<lambda>_. P)" for jobDir
    unfolding ms_extract_in_def Let_def
  proof (intro steps download unit extracting triple_if triple_fail frames thumbs failing)
    fix result fs thumb s1 s2 s3 s4 
    assume some: "xr_FramePaths result \<noteq> []"
      and fs: "ms_store_frames S E i evt 0 (xr_FramePaths result) s1 = (Inr fs, s2)"
      and thumb: "ms_store_thumb S E i evt (xr_ThumbPath result) fs s3 = (Inr thumb, s4)"
    have len: "length fs = length (xr_FramePaths result)"
      using store_frames_result [OF fs] by (simp add: numbered_frames_def)
    show "triple P (ms_finish enc S E i rec evt fs (xr_DurationMS result) thumb) ?done (\<lambda>_. P)"
    proof (rule finish_job [where P = P, OF P_ok P_failed paused store_frames_result [OF fs]])
      show "snd thumb = [] \<and> fst thumb = art_StorageKey (hd fs)
        \<or> (\<exists>t. snd thumb = [t] \<and> art_RecordingID t = i \<and> art_Kind t = KindThumb
             \<and> fst thumb = thumb_key (ue_ProjectID evt) (ue_RecordingID evt))"
        using store_thumb_result [OF thumb] len some by force
    qed (use some in auto)
  qed
  have removed: "?done u s \<Longrightarrow> ?done u (jf_RemoveAll (ms_files S) p s)" "P s \<Longrightarrow> P (jf_RemoveAll (ms_files S) p s)" for u s p
    using P_failed [of "jf_RemoveAll (ms_files S) p s" s] P_ok by (simp_all add: finished_job_def remove_keeps)
  have "triple P (\<lambda>s. case ms_extract_in enc S E i rec evt jobDir s of (r, s') \<Rightarrow> (r, jf_RemoveAll (ms_files S) jobDir s'))
      ?done (\<lambda>_. P)" for jobDir
  proof (rule tripleI)
    fix s u s'
    assume P: "P s" and "(case ms_extract_in enc S E i rec evt jobDir s of (r, s') \<Rightarrow> (r, jf_RemoveAll (ms_files S) jobDir s')) = (Inr u, s')"
    then obtain s1 where "ms_extract_in enc S E i rec evt jobDir s = (Inr u, s1)" "s' = jf_RemoveAll (ms_files S) jobDir s1"
      by (auto split: prod.splits)
    then show "?done u s'" using triple_InrD [OF inside P] removed(1) by blast
  next
    fix s e s'
    assume P: "P s" and "(case ms_extract_in enc S E i rec evt jobDir s of (r, s') \<Rightarrow> (r, jf_RemoveAll (ms_files S) jobDir s')) = (Inl e, s')"
    then obtain s1 where "ms_extract_in enc S E i rec evt jobDir s = (Inl e, s1)" "s' = jf_RemoveAll (ms_files S) jobDir s1"
      by (auto split: prod.splits)
    then show "P s'" using triple_InlD [OF inside P] removed(2) by blast
  qed
  then show ?thesis
    unfolding ms_extract_job_def by (intro triple_andthen_val [OF triple_preserves [OF works(4)]])
qed

text \<open>The ways \<open>HandleUploaded\<close> can go: stop early, find the recording ready, or claim it and run the job.\<close>

lemma handle_cases:
  assumes ok: "ok s" and parse: "uuid_parse L (ue_RecordingID evt) = Inr i"
    and run: "ms_HandleUploaded L enc S E evt s = (r, s')"
  obtains
    (early) e where "r = Inl e" "ok s'" "row s' = row s" "arts s' = arts s" "ob s' = ob s"
  | (found) cl where "row s i = Some (READY, cl)" "ok s'" "row s' = row s" "arts s' = arts s"
      "r \<noteq> Inr () \<longrightarrow> ob s' = ob s"
  | (job) rec at s1 s2 r' st cl where "ok s1" "row s1 = row s" "arts s1 = arts s" "ob s1 = ob s"
      "row s i = Some (st, cl)" "st \<noteq> READY"
      "st_ClaimProcessing R i (cc_Owner (ms_claim S)) at (at + cc_Lease (ms_claim S)) s1 = (Inr (), s2)"
      "\<exists>s. at = fst (je_now E s)"
      "ms_extract_job enc S E i rec evt s2 = (r', s')" "r = Inr () \<longleftrightarrow> r' = Inr ()"
proof -
  let ?w = "cc_Owner (ms_claim S)"
  have view: "ok b = ok a \<and> row b = row a \<and> arts b = arts a \<and> ob b = ob a"
    if "keeps (\<lambda>s. (ok s, row s, arts s, ob s)) m" "m a = (x, b)" for m :: "('s, 'b) op" and a b x
    using keepsD [OF that] by simp
  obtain g sg where g: "st_Get R i s = (g, sg)" by fastforce
  note vg = view [OF media_reads(1) g]
  show thesis
  proof (cases g)
    case (Inl e)
    then show thesis using run g parse vg ok early
      by (simp add: ms_HandleUploaded_def andthen_def store; blast)
  next
    case (Inr rec)
    then have grec: "st_Get R i s = (Inr rec, sg)" using g by simp
    obtain cl where st: "row s i = Some (rec_Status rec, cl)" using get_status [OF ok grec] by blast
    obtain l sl where l: "st_ListArtifacts R i sg = (l, sl)" by fastforce
    note vl = view [OF media_reads(2) l]
    show thesis
    proof (cases l)
      case (Inl e)
      then show thesis using run grec l parse vg vl ok early
        by (simp add: ms_HandleUploaded_def andthen_def store; blast)
    next
      case (Inr existing)
      note known = run grec l Inr parse
      show thesis
      proof (cases "rec_Status rec = READY")
        case True
        show thesis
        proof (cases "existing = []")
          case True
          then show thesis using known st \<open>rec_Status rec = READY\<close> vg vl ok found
            by (simp add: ms_HandleUploaded_def andthen_def store)
        next
          case False
          then have pub: "ms_publishFramesExtracted L enc S E rec existing 0 (ue_CorrelationID evt) sl = (r, s')"
            using known \<open>rec_Status rec = READY\<close> by (simp add: ms_HandleUploaded_def andthen_def store)
          obtain t sn where n: "now_op E sl = (Inr t, sn)"
            by (cases "je_now E sl") (simp add: now_op_def)
          note vn = view [OF work_keeps(8) n]
          have okn: "ok sn" using vn vl vg ok by simp
          show thesis
          proof (cases "enc (frames_event_of L rec existing 0 (ue_CorrelationID evt) t)")
            case (Inl e)
            then show thesis using pub n vn vl vg ok early
              by (simp add: ms_publishFramesExtracted_def andthen_def; blast)
          next
            case (Inr pl)
            then have "st_InsertOutbox R TopicFramesExtracted (uuid_string L (rec_ID rec)) pl
                (first_non_empty [ue_CorrelationID evt, rec_CorrelationID rec]) sn = (r, s')" (is "?ins = _")
              using pub n by (simp add: ms_publishFramesExtracted_def andthen_def store)
            then show thesis
              using found [of cl] st \<open>rec_Status rec = READY\<close> vn vl vg ok ok_steps(5) [OF _ okn] media_failures(5) [OF okn]
                republish_ok [OF okn] by (cases r) (simp; blast)+
          qed
        qed
      next
        case ready: False
        show thesis
        proof (cases "rec_Status rec \<in> {UPLOADED, PROCESSING, FAILED}")
          case False
          then show thesis using known ready vg vl ok early
            by (simp add: ms_HandleUploaded_def andthen_def store; blast)
        next
          case True
          obtain at sn where n: "je_now E sl = (at, sn)" by fastforce
          have vn: "ok sn \<and> row sn = row s \<and> arts sn = arts s \<and> ob sn = ob s"
            using view [OF work_keeps(8), of sl] n vl vg ok by (simp add: now_op_def)
          obtain c sc where c: "st_ClaimProcessing R i ?w at (at + cc_Lease (ms_claim S)) sn = (c, sc)" by fastforce
          show thesis
          proof (cases c)
            case (Inl e)
            then have "r = Inl e \<and> s' = sc" using known ready True n c
              by (cases "rec_Status rec") (simp_all add: ms_HandleUploaded_def andthen_def store now_op_def)
            moreover have "ok sc" using ok_steps(1) [OF c] vn by blast
            moreover have "row sc = row sn \<and> arts sc = arts sn \<and> ob sc = ob sn"
              using media_failures(1) [of sn i ?w at "at + cc_Lease (ms_claim S)" e sc] vn c Inl by blast
            ultimately show thesis using early vn by simp
          next
            case (Inr u)
            obtain x sx where x: "ms_extract_job enc S E i rec evt sc = (x, sx)" by fastforce
            have "s' = sx \<and> (r = Inr () \<longleftrightarrow> x = Inr ())" using known ready True n c Inr x
              by (cases "rec_Status rec"; cases x)
                (auto simp: ms_HandleUploaded_def andthen_def store now_op_def split: option.splits if_splits)
            then show thesis using job [of sn "rec_Status rec" cl at sc rec x] vn st ready c Inr x n
              by (metis fst_conv old.unit.exhaust)
          qed
        qed
      qed
    qed
  qed
qed

lemma handled_ready:
  assumes ok: "ok s" and parse: "uuid_parse L (ue_RecordingID evt) = Inr i"
    and run: "ms_HandleUploaded L enc S E evt s = (Inr (), s')"
  shows "ok s' \<and> (\<exists>cl. row s' i = Some (READY, cl))
     \<and> ((\<forall>cl. row s i \<noteq> Some (READY, cl)) \<longrightarrow>
          (\<exists>rec er obs. ob s' = obs @ [er] \<and> announces_frames enc i evt rec (arts s' i) er))"
  using ok parse run
proof (cases rule: handle_cases)
  case (job rec at s1 s2 r' st cl)
  have ok2: "ok s2" using ok_steps(1) [OF job(7) job(1)] .
  have "preserves ok (ms_fail S E i)"
  proof -
    have "preserves ok (now_op E)" using work_keeps(8) by (auto simp: keeps_def preserves_def)
    then show ?thesis unfolding ms_fail_def store by (intro preserves_andthen preserves_ignore ok_ops)
  qed
  then have tri: "triple ok (ms_extract_job enc S E i rec evt)
      (\<lambda>_. finished_job (cc_Owner (ms_claim S)) enc i evt rec ok ok row arts ob) (\<lambda>_. ok)"
    by (intro frames_job) (auto simp: pause_ok)
  have "ms_extract_job enc S E i rec evt s2 = (Inr (), s')" using job(9,10) by simp
  from triple_InrD [OF tri ok2 this] have "finished_job (cc_Owner (ms_claim S)) enc i evt rec ok ok row arts ob s'" .
  then show ?thesis unfolding finished_job_def by fastforce
qed auto

lemma handled_error:
  assumes ok: "ok s" and parse: "uuid_parse L (ue_RecordingID evt) = Inr i"
    and calm: "\<And>s. given_up (cc_Owner (ms_claim S)) i ok row arts ob s0 s \<Longrightarrow>
                   given_up (cc_Owner (ms_claim S)) i ok row arts ob s0 (je_pause E s)"
    and s0: "row s0 = row s" "arts s0 = arts s" "ob s0 = ob s"
    and run: "ms_HandleUploaded L enc S E evt s = (Inl e, s')"
  shows "given_up (cc_Owner (ms_claim S)) i ok row arts ob s0 s'"
  using ok parse run
proof (cases rule: handle_cases)
  case (early x)
  then show ?thesis using s0 by (simp add: given_up_def)
next
  case (found cl)
  then show ?thesis using s0 by (simp add: given_up_def)
next
  case (job rec at s1 s2 r' st cl)
  let ?w = "cc_Owner (ms_claim S)" and ?P = "given_up (cc_Owner (ms_claim S)) i ok row arts ob s0"
  have ok2: "ok s2" using ok_steps(1) [OF job(7) job(1)] .
  have P2: "?P s2" using claim_ok [OF job(1,7)] ok2 s0 job(2-4) by (auto simp: given_up_def)
  have same: "?P s'" if "ok s'" "row s' = row s" "arts s' = arts s" "ob s' = ob s" "?P s" for s s'
    using that by (simp add: given_up_def)
  have now: "preserves ?P (now_op E)"
    using work_keeps(8) by (auto simp: keeps_def preserves_def given_up_def)
  have "preserves ?P (st_MarkFailed R i ?w at)" for at
  proof (rule preservesI)
    fix s assume P: "?P s"
    obtain x s1 where x: "st_MarkFailed R i ?w at s = (x, s1)" by fastforce
    have "ok s" using P by (simp add: given_up_def)
    then have "?P s1"
      using P x fail_ok [OF \<open>ok s\<close>, of i ?w at s1] media_failures(3) [OF \<open>ok s\<close>, of i ?w at _ s1] ok_steps(3) [OF x]
      by (cases x) (auto simp: given_up_def)
    then show "?P (snd (st_MarkFailed R i ?w at s))" using x by simp
  qed
  then have "preserves ?P (ms_fail S E i)"
    unfolding ms_fail_def store by (intro preserves_andthen preserves_ignore now)
  then have tri: "triple ?P (ms_extract_job enc S E i rec evt) (\<lambda>_. finished_job ?w enc i evt rec ?P ok row arts ob) (\<lambda>_. ?P)"
    using calm same by (intro frames_job) (auto simp: given_up_def)
  obtain x where "r' = Inl x" using job(10) by (cases r') auto
  then have "ms_extract_job enc S E i rec evt s2 = (Inl x, s')" using job(9) by simp
  from triple_InlD [OF tri P2 this] show ?thesis .
qed

lemma handled_excluded:
  assumes ok: "ok s" and parse: "uuid_parse L (ue_RecordingID evt) = Inr i"
    and held: "row s i = Some (PROCESSING, Some (w, e))" "w \<noteq> cc_Owner (ms_claim S)" "\<And>s. fst (je_now E s) < e"
    and run: "ms_HandleUploaded L enc S E evt s = (r, s')"
  shows "r \<noteq> Inr () \<and> row s' = row s \<and> arts s' = arts s \<and> ob s' = ob s"
  using ok parse run
proof (cases rule: handle_cases)
  case (job rec at s1 s2 r' st cl)
  have "row s1 i = Some (PROCESSING, Some (w, e))" using held job by simp
  then have "e \<le> at" using claim_ok [OF job(1,7)] held(2) by auto
  then show ?thesis using job(8) held(3) by (metis linorder_not_le)
qed (use held in auto)

end

end
