(* ===== verification/Media_Memory.thy ===== *)
theory Media_Memory
  imports Media_Jobs Sample_Lib
begin

text \<open>
  \<open>internal/media/adapter/memory/memory.go\<close>: the in-memory store, objects and extractor, with the files a
  job works on. \<open>mw_script\<close> lists, for each time a job waits, what happens meanwhile: calls of other workers
  and ticks of the job's own heartbeat. Interprets \<open>claim_store\<close> and \<open>media_job\<close> and states the
  properties of the media service over it.
\<close>

datatype pause_step = Other claim_call | Tick go_time

record media_world =
  mw_recs :: "(uuid, recording) gomap"
  mw_claims :: "(uuid, lease) gomap"
  mw_artifacts :: "(uuid, artifact list) gomap"
  mw_outbox :: "event_row list"
  mw_data :: "(string, bytes) gomap"
  mw_files :: "(string, bytes) gomap"
  mw_seq :: nat
  mw_script :: "pause_step list list"
  mw_cause :: "err option"

definition mmem_new :: media_world where
  "mmem_new = \<lparr>mw_recs = [], mw_claims = [], mw_artifacts = [], mw_outbox = [], mw_data = [], mw_files = [],
     mw_seq = 0, mw_script = [], mw_cause = None\<rparr>"

section \<open>Store\<close>

definition mmem_Seed :: "recording \<Rightarrow> media_world \<Rightarrow> media_world" where
  "mmem_Seed rec w = w\<lparr>mw_recs := m_set (rec_ID rec) rec (mw_recs w)\<rparr>"

definition mmem_SeedClaim :: "uuid \<Rightarrow> string \<Rightarrow> go_time \<Rightarrow> media_world \<Rightarrow> media_world" where
  "mmem_SeedClaim i owner expiresAt w = w\<lparr>mw_claims := m_set i (owner, expiresAt) (mw_claims w)\<rparr>"

definition mmem_Get :: "uuid \<Rightarrow> (media_world, recording) op" where
  "mmem_Get i w = (case m_get (mw_recs w) i of None \<Rightarrow> Inl (ErrNotFound Media) | Some r \<Rightarrow> Inr r, w)"

definition mmem_ClaimProcessing :: "uuid \<Rightarrow> string \<Rightarrow> go_time \<Rightarrow> go_time \<Rightarrow> (media_world, unit) op" where
  "mmem_ClaimProcessing i owner at expiresAt w =
     (case m_get (mw_recs w) i of
        None \<Rightarrow> (Inl (ErrNotFound Media), w)
      | Some r \<Rightarrow>
          let claimed = (Inr (), w\<lparr>mw_recs := m_set i (r\<lparr>rec_Status := PROCESSING, rec_UpdatedAt := at\<rparr>) (mw_recs w),
                                   mw_claims := m_set i (owner, expiresAt) (mw_claims w)\<rparr>)
          in case rec_Status r of
               UPLOADED \<Rightarrow> claimed
             | FAILED \<Rightarrow> claimed
             | PROCESSING \<Rightarrow>
                 (case m_get (mw_claims w) i of
                    Some (o', e') \<Rightarrow> if o' \<noteq> owner \<and> at < e' then (Inl ErrClaimHeld, w) else claimed
                  | None \<Rightarrow> claimed)
             | _ \<Rightarrow> (Inl ErrConflict, w))"

definition mmem_holds :: "uuid \<Rightarrow> string \<Rightarrow> media_world \<Rightarrow> bool" where
  "mmem_holds i owner w = (case m_get (mw_claims w) i of Some (o', _) \<Rightarrow> o' = owner | None \<Rightarrow> False)"

definition mmem_RenewClaim :: "uuid \<Rightarrow> string \<Rightarrow> go_time \<Rightarrow> (media_world, unit) op" where
  "mmem_RenewClaim i owner expiresAt w =
     (if \<not> mmem_holds i owner w then (Inl ErrClaimLost, w)
      else (Inr (), w\<lparr>mw_claims := m_set i (owner, expiresAt) (mw_claims w)\<rparr>))"

definition mmem_MarkFailed :: "uuid \<Rightarrow> string \<Rightarrow> go_time \<Rightarrow> (media_world, unit) op" where
  "mmem_MarkFailed i owner at w =
     (case m_get (mw_recs w) i of
        None \<Rightarrow> (Inl (ErrNotFound Media), w)
      | Some r \<Rightarrow>
          if \<not> mmem_holds i owner w then (Inl ErrClaimLost, w)
          else (Inr (), w\<lparr>mw_recs := m_set i (r\<lparr>rec_Status := FAILED, rec_UpdatedAt := at\<rparr>) (mw_recs w),
                          mw_claims := m_del i (mw_claims w)\<rparr>))"

definition mmem_InsertOutbox :: "string \<Rightarrow> string \<Rightarrow> bytes \<Rightarrow> string \<Rightarrow> (media_world, unit) op" where
  "mmem_InsertOutbox topic key payload corr w = (Inr (), w\<lparr>mw_outbox := mw_outbox w @ [(topic, key, payload, corr)]\<rparr>)"

definition mmem_FinalizeReady ::
    "uuid \<Rightarrow> string \<Rightarrow> go_time \<Rightarrow> artifact list \<Rightarrow> string \<Rightarrow> string \<Rightarrow> bytes \<Rightarrow> string \<Rightarrow> (media_world, unit) op" where
  "mmem_FinalizeReady i owner at arts topic key payload corr w =
     (case m_get (mw_recs w) i of
        None \<Rightarrow> (Inl (ErrNotFound Media), w)
      | Some r \<Rightarrow>
          if \<not> mmem_holds i owner w then (Inl ErrClaimLost, w)
          else (Inr (), w\<lparr>mw_recs := m_set i (r\<lparr>rec_Status := READY, rec_UpdatedAt := at\<rparr>) (mw_recs w),
                          mw_claims := m_del i (mw_claims w),
                          mw_artifacts := (if arts \<noteq> [] then m_set i arts (mw_artifacts w) else mw_artifacts w),
                          mw_outbox := mw_outbox w @ [(topic, key, payload, corr)]\<rparr>))"

definition mmem_artifacts :: "media_world \<Rightarrow> uuid \<Rightarrow> artifact list" where
  "mmem_artifacts w i = (case m_get (mw_artifacts w) i of Some as \<Rightarrow> as | None \<Rightarrow> [])"

definition mmem_ListArtifacts :: "uuid \<Rightarrow> (media_world, artifact list) op" where
  "mmem_ListArtifacts i w = (Inr (mmem_artifacts w i), w)"

definition mmem_store :: "media_world media_store" where
  "mmem_store = \<lparr>st_Get = mmem_Get, st_ClaimProcessing = mmem_ClaimProcessing, st_RenewClaim = mmem_RenewClaim,
     st_MarkFailed = mmem_MarkFailed, st_FinalizeReady = mmem_FinalizeReady, st_InsertOutbox = mmem_InsertOutbox,
     st_ListArtifacts = mmem_ListArtifacts\<rparr>"

section \<open>Objects, files and the extractor\<close>

definition mmem_write :: "string \<Rightarrow> bytes \<Rightarrow> media_world \<Rightarrow> media_world" where
  "mmem_write p b w = w\<lparr>mw_files := m_set p b (mw_files w)\<rparr>"

definition mmem_Download :: "string \<Rightarrow> string \<Rightarrow> (media_world, unit) op" where
  "mmem_Download key p w =
     (case m_get (mw_data w) key of
        None \<Rightarrow> (Inl (ErrNotFound Media), w)
      | Some b \<Rightarrow> (Inr (), mmem_write p b w))"

definition mmem_Upload :: "string \<Rightarrow> string \<Rightarrow> string \<Rightarrow> int \<Rightarrow> (media_world, unit) op" where
  "mmem_Upload key ct p n w =
     (case m_get (mw_files w) p of
        None \<Rightarrow> (Inl (ErrOther (''read '' @ p)), w)
      | Some b \<Rightarrow> (Inr (), w\<lparr>mw_data := m_set key b (mw_data w)\<rparr>))"

definition fake_extract :: "string \<Rightarrow> string \<Rightarrow> (media_world, extract_result) op" where
  "fake_extract src outputDir w =
     (let f1 = path_join outputDir ''00001.jpg''; f2 = path_join outputDir ''00002.jpg'';
          thumb = path_join outputDir ''thumb.jpg''
      in (Inr \<lparr>xr_FramePaths = [f1, f2], xr_ThumbPath = thumb, xr_DurationMS = 2000\<rparr>,
          mmem_write thumb ''thumb'' (mmem_write f2 ''jpg2'' (mmem_write f1 ''jpg1'' w))))"

text \<open>A file system without faults: \<open>os.MkdirTemp\<close> numbers its directories, directories are not stored.\<close>

definition mmem_os :: "media_world job_files" where
  "mmem_os =
     \<lparr>jf_MkdirTemp = (\<lambda>dir w. (Inr (path_join dir (''bugsathi-media-'' @ show_nat (mw_seq w))), w\<lparr>mw_seq := Suc (mw_seq w)\<rparr>)),
      jf_RemoveAll = (\<lambda>p w. w\<lparr>mw_files := filter (\<lambda>(q, _). take (length p) q \<noteq> p) (mw_files w)\<rparr>),
      jf_MkdirAll = (\<lambda>p. ret ()),
      jf_Create = (\<lambda>p w. (Inr (), mmem_write p [] w)),
      jf_OpenSize = (\<lambda>p w. (case m_get (mw_files w) p of Some b \<Rightarrow> Inr (int (length b))
                                | None \<Rightarrow> Inl (ErrOther (''open '' @ p)), w))\<rparr>"

definition mmem_service :: "string \<Rightarrow> claim_config \<Rightarrow> media_world media_service" where
  "mmem_service workdir c =
     \<lparr>ms_store = mmem_store, ms_objects = \<lparr>mo_Download = mmem_Download, mo_Upload = mmem_Upload\<rparr>,
      ms_extract = fake_extract, ms_files = mmem_os, ms_workdir = workdir, ms_claim = c\<rparr>"

section \<open>What happens while a job waits\<close>

text \<open>The heartbeat stops after the tick that lost the claim.\<close>

fun mmem_step :: "media_world media_service \<Rightarrow> uuid \<Rightarrow> pause_step \<Rightarrow> media_world \<Rightarrow> media_world" where
  "mmem_step S i (Other c) w = snd (do_claim_call mmem_store c w)"
| "mmem_step S i (Tick t) w =
     (if mw_cause w \<noteq> None then w
      else case ms_renew_tick S i t w of
        (None, w') \<Rightarrow> w'
      | (Some e, w') \<Rightarrow> w'\<lparr>mw_cause := Some e\<rparr>)"

definition mmem_pause :: "media_world media_service \<Rightarrow> uuid \<Rightarrow> media_world \<Rightarrow> media_world" where
  "mmem_pause S i w =
     (case mw_script w of [] \<Rightarrow> w | ps # rest \<Rightarrow> fold (mmem_step S i) ps (w\<lparr>mw_script := rest\<rparr>))"

text \<open>\<open>clock n\<close> is what the \<open>n\<close>-th reading of the clock shows.\<close>

definition mmem_env :: "(nat \<Rightarrow> go_time) \<Rightarrow> media_world media_service \<Rightarrow> uuid \<Rightarrow> media_world job_env" where
  "mmem_env clock S i =
     \<lparr>je_now = (\<lambda>w. (clock (mw_seq w), w\<lparr>mw_seq := Suc (mw_seq w)\<rparr>)),
      je_uuid = (\<lambda>w. (word_of_nat (mw_seq w), w\<lparr>mw_seq := Suc (mw_seq w)\<rparr>)),
      je_pause = mmem_pause S i, je_cause = mw_cause\<rparr>"

text \<open>The same with no other worker: only the heartbeat acts while the job waits.\<close>

definition mmem_beats :: "media_world media_service \<Rightarrow> uuid \<Rightarrow> media_world \<Rightarrow> media_world" where
  "mmem_beats S i w =
     mmem_pause S i (w\<lparr>mw_script := map (filter (\<lambda>p. case p of Tick t \<Rightarrow> True | Other c \<Rightarrow> False)) (mw_script w)\<rparr>)"

definition mmem_alone :: "(nat \<Rightarrow> go_time) \<Rightarrow> media_world media_service \<Rightarrow> uuid \<Rightarrow> media_world job_env" where
  "mmem_alone clock S i = (mmem_env clock S i)\<lparr>je_pause := mmem_beats S i\<rparr>"

section \<open>The store keeps the lease protocol\<close>

definition mmem_ok :: "media_world \<Rightarrow> bool" where
  "mmem_ok w \<longleftrightarrow> (\<forall>i r. m_get (mw_recs w) i = Some r \<longrightarrow> rec_ID r = i)
     \<and> (\<forall>i l. m_get (mw_claims w) i = Some l \<longrightarrow> (\<exists>r. m_get (mw_recs w) i = Some r \<and> rec_Status r = PROCESSING))"

definition mmem_row :: "media_world \<Rightarrow> uuid \<Rightarrow> (rec_status \<times> lease option) option" where
  "mmem_row w i = map_option (\<lambda>r. (rec_Status r, m_get (mw_claims w) i)) (m_get (mw_recs w) i)"

lemmas mmem_defs = mmem_store_def mmem_Get_def mmem_ClaimProcessing_def mmem_RenewClaim_def mmem_MarkFailed_def
  mmem_FinalizeReady_def mmem_InsertOutbox_def mmem_ListArtifacts_def mmem_artifacts_def

lemma mmem_row_Some: "mmem_row w i = Some (st, cl) \<longleftrightarrow>
    (\<exists>r. m_get (mw_recs w) i = Some r \<and> rec_Status r = st) \<and> cl = m_get (mw_claims w) i"
  by (auto simp: mmem_row_def)

text \<open>A call that fails leaves the store as it was; what a call that succeeds found and did.\<close>

lemma mmem_failed:
  "mmem_ClaimProcessing i w at e s = (Inl x, s') \<Longrightarrow> s' = s"
  "mmem_RenewClaim i w e s = (Inl x, s') \<Longrightarrow> s' = s"
  "mmem_MarkFailed i w at s = (Inl x, s') \<Longrightarrow> s' = s"
  "mmem_FinalizeReady i w at as t k pl c s = (Inl x, s') \<Longrightarrow> s' = s"
  by (auto simp: mmem_defs Let_def split: option.splits rec_status.splits if_splits prod.splits)

lemma mmem_ClaimProcessing_ok:
  assumes "mmem_ClaimProcessing i w at e s = (Inr (), s')"
  shows "\<exists>st cl. mmem_row s i = Some (st, cl) \<and> st \<in> {UPLOADED, FAILED, PROCESSING}
     \<and> (\<forall>w' e'. st = PROCESSING \<and> cl = Some (w', e') \<longrightarrow> w' = w \<or> e' \<le> at)
     \<and> mmem_row s' = (mmem_row s)(i \<mapsto> (PROCESSING, Some (w, e)))
     \<and> mmem_artifacts s' = mmem_artifacts s \<and> mw_outbox s' = mw_outbox s"
  using assms
  by (auto simp: mmem_ClaimProcessing_def mmem_row_def mmem_artifacts_def Let_def fun_eq_iff
      split: option.splits rec_status.splits if_splits)

lemma mmem_ClaimProcessing_held:
  "mmem_ClaimProcessing i w at e s = (Inl ErrClaimHeld, s') \<Longrightarrow>
     \<exists>w' e'. mmem_row s i = Some (PROCESSING, Some (w', e')) \<and> w' \<noteq> w \<and> at < e'"
  by (auto simp: mmem_ClaimProcessing_def mmem_row_def Let_def split: option.splits rec_status.splits if_splits)

lemma mmem_holds_row:
  "mmem_ok s \<Longrightarrow> mmem_holds i w s \<longleftrightarrow> (\<exists>e. mmem_row s i = Some (PROCESSING, Some (w, e)))"
  by (auto simp: mmem_holds_def mmem_row_Some mmem_ok_def split: option.splits)

lemma mmem_RenewClaim_ok:
  assumes "mmem_ok s" "mmem_RenewClaim i w e s = (Inr (), s')"
  shows "\<exists>e'. mmem_row s i = Some (PROCESSING, Some (w, e'))
     \<and> mmem_row s' = (mmem_row s)(i \<mapsto> (PROCESSING, Some (w, e)))
     \<and> mmem_artifacts s' = mmem_artifacts s \<and> mw_outbox s' = mw_outbox s"
proof -
  have h: "mmem_holds i w s" and s': "s' = s\<lparr>mw_claims := m_set i (w, e) (mw_claims s)\<rparr>"
    using assms(2) by (auto simp: mmem_RenewClaim_def split: if_splits)
  then obtain e' where e': "mmem_row s i = Some (PROCESSING, Some (w, e'))" using mmem_holds_row [OF assms(1)] by blast
  then have "mmem_row s' = (mmem_row s)(i \<mapsto> (PROCESSING, Some (w, e)))"
    using s' by (auto simp: mmem_row_def fun_eq_iff)
  then show ?thesis using e' s' by (simp add: mmem_artifacts_def fun_eq_iff)
qed

lemma mmem_MarkFailed_ok:
  assumes "mmem_ok s" "mmem_MarkFailed i w at s = (Inr (), s')"
  shows "\<exists>e'. mmem_row s i = Some (PROCESSING, Some (w, e')) \<and> mmem_row s' = (mmem_row s)(i \<mapsto> (FAILED, None))
     \<and> mmem_artifacts s' = mmem_artifacts s \<and> mw_outbox s' = mw_outbox s"
proof -
  have "mmem_holds i w s" using assms(2) by (auto simp: mmem_MarkFailed_def split: if_splits option.splits)
  then obtain e' where "mmem_row s i = Some (PROCESSING, Some (w, e'))" using mmem_holds_row [OF assms(1)] by blast
  then show ?thesis using assms(2)
    by (auto simp: mmem_MarkFailed_def mmem_row_def mmem_artifacts_def fun_eq_iff split: if_splits option.splits)
qed

lemma mmem_FinalizeReady_ok:
  assumes "mmem_ok s" "mmem_FinalizeReady i w at as t k pl c s = (Inr (), s')"
  shows "\<exists>e'. mmem_row s i = Some (PROCESSING, Some (w, e')) \<and> mmem_row s' = (mmem_row s)(i \<mapsto> (READY, None))
     \<and> (\<forall>j. j \<noteq> i \<longrightarrow> mmem_artifacts s' j = mmem_artifacts s j) \<and> (as \<noteq> [] \<longrightarrow> mmem_artifacts s' i = as)
     \<and> mw_outbox s' = mw_outbox s @ [(t, k, pl, c)]"
proof -
  have "mmem_holds i w s" using assms(2) by (auto simp: mmem_FinalizeReady_def split: if_splits option.splits)
  then obtain e' where "mmem_row s i = Some (PROCESSING, Some (w, e'))" using mmem_holds_row [OF assms(1)] by blast
  then show ?thesis using assms(2)
    by (auto simp: mmem_FinalizeReady_def mmem_row_def mmem_artifacts_def fun_eq_iff split: if_splits option.splits)
qed

interpretation mmem: claim_store mmem_store mmem_ok mmem_row mmem_artifacts mw_outbox
proof
  fix i w at e as t k pl c
  show "preserves mmem_ok (st_ClaimProcessing mmem_store i w at e)"
    by (rule preservesI) (auto simp: mmem_defs mmem_ok_def Let_def split: option.splits rec_status.splits)
  show "preserves mmem_ok (st_RenewClaim mmem_store i w e)"
    by (rule preservesI) (fastforce simp: mmem_defs mmem_ok_def mmem_holds_def split: option.splits if_splits)
  show "preserves mmem_ok (st_MarkFailed mmem_store i w at)"
    by (rule preservesI) (auto simp: mmem_defs mmem_ok_def mmem_holds_def split: option.splits if_splits)
  show "preserves mmem_ok (st_FinalizeReady mmem_store i w at as t k pl c)"
    by (rule preservesI) (auto simp: mmem_defs mmem_ok_def mmem_holds_def split: option.splits if_splits)
  show "preserves mmem_ok (st_InsertOutbox mmem_store t k pl c)"
    by (rule preservesI) (auto simp: mmem_defs mmem_ok_def)
next
  fix s i st l assume "mmem_ok s" "mmem_row s i = Some (st, Some l)"
  then obtain r where r: "m_get (mw_recs s) i = Some r" "rec_Status r = st" and l: "m_get (mw_claims s) i = Some l"
    by (auto simp: mmem_row_Some)
  have "\<exists>r. m_get (mw_recs s) i = Some r \<and> rec_Status r = PROCESSING"
    using \<open>mmem_ok s\<close> l unfolding mmem_ok_def by blast
  then show "st = PROCESSING" using r by simp
next
  fix i
  show "keeps (\<lambda>s. (mmem_ok s, mmem_row s, mmem_artifacts s, mw_outbox s)) (st_Get mmem_store i)"
    "keeps (\<lambda>s. (mmem_ok s, mmem_row s, mmem_artifacts s, mw_outbox s)) (st_ListArtifacts mmem_store i)"
    by (simp_all add: keeps_def mmem_store_def mmem_Get_def mmem_ListArtifacts_def)
next
  fix s i rec s' assume "mmem_ok s" "st_Get mmem_store i s = (Inr rec, s')"
  then show "\<exists>cl. mmem_row s i = Some (rec_Status rec, cl) \<and> rec_ID rec = i"
    by (auto simp: mmem_store_def mmem_Get_def mmem_row_def mmem_ok_def split: option.splits)
next
  fix s i w at e s' assume "st_ClaimProcessing mmem_store i w at e s = (Inr (), s')"
  then show "\<exists>st cl e2. mmem_row s i = Some (st, cl) \<and> st \<in> {UPLOADED, FAILED, PROCESSING}
     \<and> (\<forall>w' e'. st = PROCESSING \<and> cl = Some (w', e') \<longrightarrow> w' = w \<or> e' \<le> at) \<and> e2 \<le> e
     \<and> mmem_row s' = (mmem_row s)(i \<mapsto> (PROCESSING, Some (w, e2)))
     \<and> mmem_artifacts s' = mmem_artifacts s \<and> mw_outbox s' = mw_outbox s"
    using mmem_ClaimProcessing_ok [of i w at e s s'] by (auto simp: mmem_store_def)
next
  fix s i w at as t k pl c s' assume "mmem_ok s" "st_FinalizeReady mmem_store i w at as t k pl c s = (Inr (), s')"
  then show "\<exists>e'. mmem_row s i = Some (PROCESSING, Some (w, e')) \<and> mmem_row s' = (mmem_row s)(i \<mapsto> (READY, None))
     \<and> (artifacts_of i as \<longrightarrow> (\<forall>j. j \<noteq> i \<longrightarrow> mmem_artifacts s' j = mmem_artifacts s j)
       \<and> (\<forall>a\<in>set as. \<exists>b\<in>set (mmem_artifacts s' i). art_Kind b = art_Kind a \<and> art_StorageKey b = art_StorageKey a))
     \<and> mw_outbox s' = mw_outbox s @ [(t, k, pl, c)]"
    using mmem_FinalizeReady_ok [of s i w at as t k pl c s'] by (cases as) (auto simp: mmem_store_def)
next
  fix s i w e s' assume "mmem_ok s" "st_RenewClaim mmem_store i w e s = (Inr (), s')"
  then show "\<exists>e' e2. mmem_row s i = Some (PROCESSING, Some (w, e')) \<and> e2 \<le> e
     \<and> mmem_row s' = (mmem_row s)(i \<mapsto> (PROCESSING, Some (w, e2)))
     \<and> mmem_artifacts s' = mmem_artifacts s \<and> mw_outbox s' = mw_outbox s"
    using mmem_RenewClaim_ok [of s i w e s'] by (auto simp: mmem_store_def)
next
  fix s i w at e x s' assume "st_ClaimProcessing mmem_store i w at e s = (Inl x, s')"
  then show "mmem_row s' = mmem_row s \<and> mmem_artifacts s' = mmem_artifacts s \<and> mw_outbox s' = mw_outbox s"
    using mmem_failed(1) by (simp add: mmem_store_def) blast
next
  fix s i w e x s' assume "st_RenewClaim mmem_store i w e s = (Inl x, s')"
  then show "mmem_row s' = mmem_row s \<and> mmem_artifacts s' = mmem_artifacts s \<and> mw_outbox s' = mw_outbox s"
    using mmem_failed(2) by (simp add: mmem_store_def) blast
next
  fix s i w at x s' assume "st_MarkFailed mmem_store i w at s = (Inl x, s')"
  then show "mmem_row s' = mmem_row s \<and> mmem_artifacts s' = mmem_artifacts s \<and> mw_outbox s' = mw_outbox s"
    using mmem_failed(3) by (simp add: mmem_store_def) blast
next
  fix s i w at as t k pl c x s' assume "st_FinalizeReady mmem_store i w at as t k pl c s = (Inl x, s')"
  then show "mmem_row s' = mmem_row s \<and> mmem_artifacts s' = mmem_artifacts s \<and> mw_outbox s' = mw_outbox s"
    using mmem_failed(4) by (simp add: mmem_store_def) blast
next
  fix s i w at e s' assume "st_ClaimProcessing mmem_store i w at e s = (Inl ErrClaimHeld, s')"
  then show "\<exists>w' e'. mmem_row s i = Some (PROCESSING, Some (w', e')) \<and> w' \<noteq> w \<and> at < e'"
    using mmem_ClaimProcessing_held by (simp add: mmem_store_def)
next
  fix s i w at s' assume "mmem_ok s" "st_MarkFailed mmem_store i w at s = (Inr (), s')"
  then show "\<exists>e'. mmem_row s i = Some (PROCESSING, Some (w, e')) \<and> mmem_row s' = (mmem_row s)(i \<mapsto> (FAILED, None))
     \<and> mmem_artifacts s' = mmem_artifacts s \<and> mw_outbox s' = mw_outbox s"
    using mmem_MarkFailed_ok by (simp add: mmem_store_def)
qed (auto simp: mmem_store_def mmem_InsertOutbox_def mmem_row_def mmem_artifacts_def)

section \<open>Jobs over the store\<close>

lemma mmem_service_store [simp]: "ms_store (mmem_service wd c) = mmem_store" "ms_claim (mmem_service wd c) = c"
  by (simp_all add: mmem_service_def)

text \<open>Fields of the world the protocol does not look at.\<close>

lemma mmem_view_updates [simp]:
  "mmem_ok (w\<lparr>mw_files := x\<rparr>) = mmem_ok w" "mmem_row (w\<lparr>mw_files := x\<rparr>) = mmem_row w"
  "mmem_artifacts (w\<lparr>mw_files := x\<rparr>) = mmem_artifacts w"
  "mmem_ok (w\<lparr>mw_data := y\<rparr>) = mmem_ok w" "mmem_row (w\<lparr>mw_data := y\<rparr>) = mmem_row w"
  "mmem_artifacts (w\<lparr>mw_data := y\<rparr>) = mmem_artifacts w"
  "mmem_ok (w\<lparr>mw_seq := n\<rparr>) = mmem_ok w" "mmem_row (w\<lparr>mw_seq := n\<rparr>) = mmem_row w"
  "mmem_artifacts (w\<lparr>mw_seq := n\<rparr>) = mmem_artifacts w"
  "mmem_ok (w\<lparr>mw_script := z\<rparr>) = mmem_ok w" "mmem_row (w\<lparr>mw_script := z\<rparr>) = mmem_row w"
  "mmem_artifacts (w\<lparr>mw_script := z\<rparr>) = mmem_artifacts w"
  "mmem_ok (w\<lparr>mw_cause := e\<rparr>) = mmem_ok w" "mmem_row (w\<lparr>mw_cause := e\<rparr>) = mmem_row w"
  "mmem_artifacts (w\<lparr>mw_cause := e\<rparr>) = mmem_artifacts w"
  by (simp_all add: mmem_ok_def mmem_row_def mmem_artifacts_def fun_eq_iff)

lemma renew_tick_ok: "mmem_ok w \<Longrightarrow> ms_renew_tick (mmem_service wd c) i t w = (r, w') \<Longrightarrow> mmem_ok w'"
  using mmem.ok_steps(2) by (fastforce simp: ms_renew_tick_def split: prod.splits sum.splits)

lemma mmem_step_ok: "mmem_ok w \<Longrightarrow> mmem_ok (mmem_step (mmem_service wd c) i p w)"
proof (cases p)
  case (Other call)
  assume "mmem_ok w"
  then show ?thesis using Other mmem.call_ok by (cases "do_claim_call mmem_store call w") auto
next
  case (Tick t)
  assume "mmem_ok w"
  then show ?thesis using Tick renew_tick_ok
    by (cases "ms_renew_tick (mmem_service wd c) i t w") (auto split: option.splits)
qed

lemma mmem_fold_ok: "mmem_ok w \<Longrightarrow> mmem_ok (fold (mmem_step (mmem_service wd c) i) ps w)"
  by (induction ps arbitrary: w) (auto simp: mmem_step_ok)

interpretation mmem_job: media_job mmem_store mmem_ok mmem_row mmem_artifacts mw_outbox
    "mmem_service wd c" "mmem_env clock (mmem_service wd c) i" for wd c clock i
proof
  fix s assume "mmem_ok s"
  then show "mmem_ok (je_pause (mmem_env clock (mmem_service wd c) i) s)"
    by (auto simp: mmem_env_def mmem_pause_def mmem_fold_ok split: list.splits)
qed (auto simp: keeps_def mmem_service_def mmem_Download_def mmem_Upload_def mmem_write_def fake_extract_def Let_def
    mmem_os_def mmem_env_def now_op_def uuid_op_def split: option.splits)

section \<open>A recording to process\<close>

definition sample_upload :: recording where
  "sample_upload = \<lparr>rec_ID = 9, rec_ProjectID = 7, rec_CreatedBy = 1, rec_Status = UPLOADED, rec_StorageKey = ''k.webm'',
     rec_ContentType = ''video/webm'', rec_ByteSize = Some 3, rec_Checksum = [], rec_Metadata = ''{}'',
     rec_CorrelationID = ''c'', rec_CreatedAt = 100, rec_UpdatedAt = 100\<rparr>"

definition sample_event :: uploaded_event where
  "sample_event = \<lparr>ue_SchemaVersion = 1, ue_RecordingID = ''9'', ue_ProjectID = ''7'', ue_ObjectKey = ''k.webm'',
     ue_ContentType = ''video/webm'', ue_ByteSize = 3, ue_Checksum = [], ue_Metadata = ''{}'',
     ue_CorrelationID = [], ue_OccurredAt = 100\<rparr>"

definition sample_frames_enc :: "frames_event \<Rightarrow> err + bytes" where
  "sample_frames_enc ev = Inr (concat (map (\<lambda>k. k @ '','') (fe_FrameKeys ev)) @ fe_ThumbKey ev)"

definition sample_claim :: claim_config where
  "sample_claim = claim_with_defaults (Some ''host'') 1 \<lparr>cc_Owner = [], cc_Lease = 0, cc_RenewInterval = 0\<rparr>"

text \<open>While the object is downloaded the heartbeat ticks and another worker tries to claim.\<close>

definition sample_world :: media_world where
  "sample_world = (mmem_Seed sample_upload mmem_new)
     \<lparr>mw_data := [(''k.webm'', ''abc'')], mw_script := [[Tick 150, Other (CallClaim 9 ''w2'' 160 900)]]\<rparr>"

definition sample_service :: "media_world media_service" where
  "sample_service = mmem_service ''/tmp'' sample_claim"

lemma sample_world_ok: "mmem_ok sample_world"
  by (simp add: sample_world_def mmem_ok_def mmem_Seed_def mmem_new_def sample_upload_def m_set_simps)

lemma sample_parse: "uuid_parse sample_lib ''9'' = Inr 9"
  by code_simp

lemma claim_defaults: "sample_claim = \<lparr>cc_Owner = ''host-1'', cc_Lease = 120000000000, cc_RenewInterval = 30000000000\<rparr>"
  by code_simp

section \<open>Properties\<close>

text \<open>
  whatever calls whatever workers make of the store, in whatever order, at most one of them makes a
  recording ready and announces its frames, and no worker claims or finalizes it after that.
\<close>

theorem frames_announced_once:
  assumes "mmem_ok w" "run_claim_calls mmem_store cs w = (rs, w')"
  shows "length (filter (\<lambda>(c, ok). ok \<and> finalizes i c) rs) \<le> 1
     \<and> (\<forall>before c after. rs = before @ (c, True) # after \<and> finalizes i c \<longrightarrow>
          (\<forall>(d, ok)\<in>set after. finalizes i d \<or> claims i d \<longrightarrow> \<not> ok))"
  using mmem.finalized_once [OF assms] mmem.final_after [OF assms] by blast

theorem frames_announced_once_witness:
  "\<exists>rs w'. run_claim_calls mmem_store [CallClaim 9 ''w1'' 0 10, CallFinalize 9 ''w1'' 5 [] ''t'' ''k'' ''p'' [],
       CallClaim 9 ''w2'' 20 30] sample_world = (rs, w')
     \<and> map snd rs = [True, True, False] \<and> length (filter (\<lambda>(c, ok). ok \<and> finalizes 9 c) rs) \<le> 1"
proof -
  let ?run = "run_claim_calls mmem_store [CallClaim 9 ''w1'' 0 10, CallFinalize 9 ''w1'' 5 [] ''t'' ''k'' ''p'' [],
       CallClaim 9 ''w2'' 20 30] sample_world"
  have "map snd (fst ?run) = [True, True, False]" by code_simp
  moreover obtain rs w' where run: "?run = (rs, w')" by fastforce
  ultimately show ?thesis using frames_announced_once [OF sample_world_ok run, of 9] by simp
qed



lemma given_up_tick:
  assumes "given_up (cc_Owner c) i mmem_ok mmem_row mmem_artifacts mw_outbox w0 w"
  shows "given_up (cc_Owner c) i mmem_ok mmem_row mmem_artifacts mw_outbox w0 (mmem_step (mmem_service wd c) i (Tick t) w)"
proof (cases "mw_cause w")
  case None
  obtain x w1 where x: "mmem_RenewClaim i (cc_Owner c) (t + cc_Lease c) w = (x, w1)" by fastforce
  have ok: "mmem_ok w" using assms by (simp add: given_up_def)
  show ?thesis
  proof (cases x)
    case (Inl e)
    then have "w1 = w" using x mmem_failed(2) by blast
    then show ?thesis using assms x Inl None
      by (auto simp: ms_renew_tick_def mmem_store_def given_up_def)
  next
    case (Inr u)
    then have r: "mmem_RenewClaim i (cc_Owner c) (t + cc_Lease c) w = (Inr (), w1)" using x by simp
    then have "mmem_ok w1" using mmem.ok_steps(2) [of i "cc_Owner c" "t + cc_Lease c" w "Inr ()" w1] ok
      by (simp add: mmem_store_def)
    then show ?thesis using assms r mmem_RenewClaim_ok [OF ok r] None
      by (auto simp: ms_renew_tick_def mmem_store_def given_up_def)
  qed
qed (use assms in simp)

lemma given_up_beats:
  assumes "given_up (cc_Owner c) i mmem_ok mmem_row mmem_artifacts mw_outbox w0 w"
  shows "given_up (cc_Owner c) i mmem_ok mmem_row mmem_artifacts mw_outbox w0 (mmem_beats (mmem_service wd c) i w)"
proof -
  have fold: "given_up (cc_Owner c) i mmem_ok mmem_row mmem_artifacts mw_outbox w0 (fold (mmem_step (mmem_service wd c) i) ps w)"
    if "given_up (cc_Owner c) i mmem_ok mmem_row mmem_artifacts mw_outbox w0 w" "\<forall>p\<in>set ps. \<exists>t. p = Tick t" for ps w
    using that
  proof (induction ps arbitrary: w)
    case (Cons p ps)
    then obtain t where "p = Tick t" by auto
    then show ?case using Cons.IH [OF given_up_tick [OF Cons.prems(1)]] Cons.prems(2) by simp
  qed simp
  show ?thesis
  proof (cases "mw_script w")
    case Nil
    then show ?thesis using assms by (simp add: mmem_beats_def mmem_pause_def given_up_def)
  next
    case (Cons ps rest)
    have "given_up (cc_Owner c) i mmem_ok mmem_row mmem_artifacts mw_outbox w0 (w\<lparr>mw_script := z\<rparr>)" for z
      using assms by (simp add: given_up_def)
    from fold [OF this] Cons show ?thesis
      by (auto simp: mmem_beats_def mmem_pause_def split: pause_step.splits)
  qed
qed

lemma mmem_alone_job: "media_job mmem_store mmem_ok mmem_row mmem_artifacts mw_outbox
    (mmem_service wd c) (mmem_alone clock (mmem_service wd c) i)"
proof -
  have ok: "mmem_ok (mmem_beats (mmem_service wd c) i s)" if "mmem_ok s" for s
  proof -
    let ?s = "s\<lparr>mw_script := map (filter (\<lambda>p. case p of Tick t \<Rightarrow> True | Other c \<Rightarrow> False)) (mw_script s)\<rparr>"
    have "mmem_ok ?s" using that by simp
    then show ?thesis by (auto simp: mmem_beats_def mmem_pause_def mmem_fold_ok split: list.splits)
  qed
  show ?thesis
    by unfold_locales (use ok in \<open>auto simp: keeps_def mmem_alone_def mmem_service_def mmem_Download_def mmem_Upload_def
      mmem_write_def fake_extract_def Let_def mmem_os_def mmem_env_def now_op_def uuid_op_def split: option.splits\<close>)
qed

text \<open>
  C13: a failed run announces nothing. If nobody but the heartbeat acts while the job waits and
  \<open>HandleUploaded\<close> returns an error, then no event and no artifact was added, no other recording changed, and
  this one is as before, or still claimed by the worker, or \<open>FAILED\<close> and free to be claimed.
\<close>

theorem failed_job_announces_nothing:
  assumes "mmem_ok w" "uuid_parse L (ue_RecordingID evt) = Inr i"
    and "ms_HandleUploaded L enc (mmem_service wd c) (mmem_alone clock (mmem_service wd c) i) evt w = (Inl e, w')"
  shows "given_up (cc_Owner c) i mmem_ok mmem_row mmem_artifacts mw_outbox w w'"
proof -
  have calm: "given_up (cc_Owner (ms_claim (mmem_service wd c))) i mmem_ok mmem_row mmem_artifacts mw_outbox w
      (je_pause (mmem_alone clock (mmem_service wd c) i) s)"
    if "given_up (cc_Owner (ms_claim (mmem_service wd c))) i mmem_ok mmem_row mmem_artifacts mw_outbox w s" for s
    using given_up_beats that by (simp add: mmem_alone_def)
  from media_job.handled_error [OF mmem_alone_job assms(1,2) calm refl refl refl assms(3)]
  show ?thesis by simp
qed

theorem failed_job_announces_nothing_witness:
  "\<exists>e w'. ms_HandleUploaded sample_lib sample_frames_enc sample_service (mmem_alone int sample_service 9) sample_event
       (sample_world\<lparr>mw_data := []\<rparr>) = (Inl e, w')
     \<and> mw_outbox w' = [] \<and> mmem_row w' 9 = Some (FAILED, None)"
proof -
  let ?run = "ms_HandleUploaded sample_lib sample_frames_enc sample_service (mmem_alone int sample_service 9) sample_event
      (sample_world\<lparr>mw_data := []\<rparr>)"
  have e: "fst ?run = Inl (ErrNotFound Media)" and row: "mmem_row (snd ?run) 9 = Some (FAILED, None)"
    by code_simp+
  obtain w' where run: "?run = (Inl (ErrNotFound Media), w')" using e by (metis prod.collapse)
  have "uuid_parse sample_lib (ue_RecordingID sample_event) = Inr 9" using sample_parse by (simp add: sample_event_def)
  moreover have "mmem_ok (sample_world\<lparr>mw_data := []\<rparr>)" using sample_world_ok by (simp only: mmem_view_updates)
  ultimately have "given_up (cc_Owner sample_claim) 9 mmem_ok mmem_row mmem_artifacts mw_outbox (sample_world\<lparr>mw_data := []\<rparr>) w'"
    using failed_job_announces_nothing run unfolding sample_service_def by blast
  then have "mw_outbox w' = []"
    unfolding given_up_def by (simp add: sample_world_def mmem_Seed_def mmem_new_def)
  then show ?thesis using run row by simp
qed

text \<open>
  a live lease excludes other workers. While another worker holds the claim and its lease has not run out
  by any reading of the clock, \<open>HandleUploaded\<close> fails, and recording, claim, artifacts and events stay.
\<close>

theorem live_lease_excludes_others:
  assumes "mmem_ok w" "uuid_parse L (ue_RecordingID evt) = Inr i"
    and "mmem_row w i = Some (PROCESSING, Some (other, e))" "other \<noteq> cc_Owner c" "\<forall>n. clock n < e"
    and "ms_HandleUploaded L enc (mmem_service wd c) (mmem_env clock (mmem_service wd c) i) evt w = (r, w')"
  shows "r \<noteq> Inr () \<and> mmem_row w' = mmem_row w \<and> mmem_artifacts w' = mmem_artifacts w \<and> mw_outbox w' = mw_outbox w"
proof -
  have "fst (je_now (mmem_env clock (mmem_service wd c) i) s) < e" for s
    using assms(5) by (simp add: mmem_env_def)
  from mmem_job.handled_excluded [OF assms(1,2,3) _ this assms(6)] assms(4) show ?thesis by simp
qed

theorem live_lease_excludes_others_witness:
  "\<exists>r w'. ms_HandleUploaded sample_lib sample_frames_enc sample_service (mmem_env (\<lambda>n. 5) sample_service 9) sample_event
       (snd (mmem_ClaimProcessing 9 ''w2'' 0 900 sample_world)) = (r, w')
     \<and> r = Inl ErrClaimHeld \<and> mw_outbox w' = []"
proof -
  let ?w = "snd (mmem_ClaimProcessing 9 ''w2'' 0 900 sample_world)"
  let ?run = "ms_HandleUploaded sample_lib sample_frames_enc sample_service (mmem_env (\<lambda>n. 5) sample_service 9) sample_event ?w"
  have e: "fst ?run = Inl ErrClaimHeld" and row: "mmem_row ?w 9 = Some (PROCESSING, Some (''w2'', 900))"
    and none: "mw_outbox ?w = []" and own: "''w2'' \<noteq> cc_Owner sample_claim"
    by code_simp+
  obtain r w' where run: "?run = (r, w')" by fastforce
  have parse: "uuid_parse sample_lib (ue_RecordingID sample_event) = Inr 9" using sample_parse by (simp add: sample_event_def)
  have ok: "mmem_ok ?w"
    using mmem.ok_steps(1) [of 9 "''w2''" 0 900 sample_world] sample_world_ok
    by (cases "mmem_ClaimProcessing 9 ''w2'' 0 900 sample_world") (simp add: mmem_store_def)
  have "mw_outbox w' = mw_outbox ?w"
    using live_lease_excludes_others [OF ok parse row own _ run [unfolded sample_service_def]] by simp
  then show ?thesis using run e none by simp
qed

end
