(* ===== verification/AI.thy ===== *)
theory AI
  imports Media
begin

text \<open>
  \<open>internal/ai\<close>: analyses and reports (\<open>domain/analysis.go\<close>), the choice of key frames
  (\<open>keyframes/select.go\<close>), the ports (\<open>port/port.go\<close>) and the service (\<open>service/service.go\<close>) that claims
  an analysis, loads frames, asks the analyzer and completes report and events.

  As for media jobs, \<open>ae_pause\<close> is what happens while the job waits: the heartbeat
  (\<open>renewLease\<close>, \<open>ai_renew_tick\<close>) and other workers.
\<close>

section \<open>Domain\<close>

definition is_in_flight :: "err \<Rightarrow> bool" where
  "is_in_flight e = errors_is e ErrAnalysisInFlight"

definition PromptVersion :: string where
  "PromptVersion = ''prompt_v2''"

definition TopicAnalysisStarted :: string where
  "TopicAnalysisStarted = ''bugsathi.analysis.started''"

definition TopicAnalysisCompleted :: string where
  "TopicAnalysisCompleted = ''bugsathi.analysis.completed''"

definition TopicReportGenerated :: string where
  "TopicReportGenerated = ''bugsathi.report.generated''"

datatype analysis_status = AnalysisPending | AnalysisRunning | AnalysisCompleted | AnalysisFailed

fun analysis_status_text :: "analysis_status \<Rightarrow> string" where
  "analysis_status_text AnalysisPending = ''pending''"
| "analysis_status_text AnalysisRunning = ''running''"
| "analysis_status_text AnalysisCompleted = ''completed''"
| "analysis_status_text AnalysisFailed = ''failed''"

datatype report_status = ReportPending | ReportGenerating | ReportReady | ReportFailed

record analysis =
  an_ID :: uuid
  an_RecordingID :: uuid
  an_ProjectID :: uuid
  an_PromptVersion :: string
  an_Status :: analysis_status
  an_Title :: string
  an_Summary :: string
  an_Steps :: bytes
  an_Provider :: string
  an_Model :: string
  an_ErrorMessage :: string
  an_CreatedAt :: go_time
  an_UpdatedAt :: go_time

record ai_report =
  ar_ID :: uuid
  ar_RecordingID :: uuid
  ar_ProjectID :: uuid
  ar_Status :: report_status
  ar_Title :: string
  ar_Summary :: string
  ar_Steps :: bytes
  ar_AIStatus :: string
  ar_PromptVersion :: string
  ar_CreatedAt :: go_time
  ar_UpdatedAt :: go_time

record frame_input =
  fi_StorageKey :: string
  fi_MediaType :: string
  fi_Data :: bytes

record analysis_input =
  ai_RecordingID :: string
  ai_ProjectID :: string
  ai_FrameKeys :: "string list"
  ai_Frames :: "frame_input list"
  ai_MetadataJSON :: bytes
  ai_PromptVersion :: string

record analysis_result =
  res_Title :: string
  res_Summary :: string
  res_Steps :: "string list"
  res_Provider :: string
  res_Model :: string

text \<open>The steps that are not blank, trimmed.\<close>

definition trimmed_steps :: "string list \<Rightarrow> string list" where
  "trimmed_steps steps = filter (\<lambda>s. s \<noteq> []) (map trim_space steps)"

definition validate_analysis_result :: "analysis_result \<Rightarrow> err option" where
  "validate_analysis_result r =
     (if trim_space (res_Title r) = [] \<or> trim_space (res_Summary r) = [] then Some ErrInvalidAnalysisResult
      else if trimmed_steps (res_Steps r) = [] then Some ErrInvalidAnalysisResult
      else None)"

text \<open>
  \<open>NormalizeAnalysisResult\<close> as it runs: \<open>out.Steps\<close> starts as \<open>r.Steps[:0]\<close>, so each \<open>append\<close> writes into
  the array the loop is still reading. \<open>buf\<close> is that array, \<open>k\<close> the length of \<open>out.Steps\<close>; the list holds the
  positions the loop still visits.
\<close>

fun normalize_in_place :: "nat \<Rightarrow> string list \<Rightarrow> nat list \<Rightarrow> nat \<times> string list" where
  "normalize_in_place k buf [] = (k, buf)"
| "normalize_in_place k buf (i # is) =
     (if trim_space (buf ! i) \<noteq> [] then normalize_in_place (Suc k) (buf[k := trim_space (buf ! i)]) is
      else normalize_in_place k buf is)"

definition normalized_steps :: "string list \<Rightarrow> string list" where
  "normalized_steps steps = (let (k, buf) = normalize_in_place 0 steps [0..<length steps] in take k buf)"

definition normalize_analysis_result :: "analysis_result \<Rightarrow> analysis_result" where
  "normalize_analysis_result r =
     r\<lparr>res_Title := trim_space (res_Title r), res_Summary := trim_space (res_Summary r),
       res_Steps := normalized_steps (res_Steps r)\<rparr>"

record started_event =
  se_SchemaVersion :: int
  se_RecordingID :: string
  se_ProjectID :: string
  se_ReportID :: string
  se_PromptVersion :: string
  se_CorrelationID :: string
  se_OccurredAt :: go_time

record completed_event =
  ce_SchemaVersion :: int
  ce_RecordingID :: string
  ce_ReportID :: string
  ce_PromptVersion :: string
  ce_CorrelationID :: string
  ce_OccurredAt :: go_time

record report_event =
  re_SchemaVersion :: int
  re_ReportID :: string
  re_RecordingID :: string
  re_ProjectID :: string
  re_CorrelationID :: string
  re_OccurredAt :: go_time

section \<open>Key frames\<close>

text \<open>The loop of \<open>Select\<close> over \<open>i < max\<close>; \<open>seen\<close> holds the positions taken so far.\<close>

fun select_loop :: "'a list \<Rightarrow> int \<Rightarrow> nat \<Rightarrow> nat list \<Rightarrow> nat list \<Rightarrow> 'a list" where
  "select_loop keys m n seen [] = []"
| "select_loop keys m n seen (i # is) =
     (let idx = i * (n - 1) div (nat m - 1)
      in if idx \<in> set seen then select_loop keys m n seen is
         else keys ! idx # select_loop keys m n (idx # seen) is)"

definition select_frames :: "'a list \<Rightarrow> int \<Rightarrow> 'a list" where
  "select_frames keys m =
     (let n = length keys
      in if n = 0 \<or> m \<le> 0 then []
         else if int n \<le> m then keys
         else if m = 1 then [keys ! 0]
         else select_loop keys m n [] [0..<nat m])"

section \<open>Ports\<close>

record outbox_event =
  oe_Topic :: string
  oe_PartitionKey :: string
  oe_Payload :: bytes
  oe_CorrelationID :: string

record 's analysis_store =
  as_GetAnalysis :: "uuid \<Rightarrow> string \<Rightarrow> ('s, analysis) op"
  as_TryClaimRunning :: "uuid \<Rightarrow> uuid \<Rightarrow> string \<Rightarrow> go_time \<Rightarrow> go_time \<Rightarrow> ('s, analysis) op"
  as_TouchRunning :: "uuid \<Rightarrow> string \<Rightarrow> go_time \<Rightarrow> ('s, unit) op"
  as_MarkGenerating :: "uuid \<Rightarrow> uuid \<Rightarrow> string \<Rightarrow> go_time \<Rightarrow> ('s, ai_report) op"
  as_CompleteAnalysis :: "analysis \<Rightarrow> ai_report \<Rightarrow> outbox_event list \<Rightarrow> go_time \<Rightarrow> ('s, unit) op"
  as_FailAnalysis :: "uuid \<Rightarrow> string \<Rightarrow> string \<Rightarrow> go_time \<Rightarrow> ('s, unit) op"
  as_GetReportByRecording :: "uuid \<Rightarrow> ('s, ai_report) op"
  as_GetRecordingMeta :: "uuid \<Rightarrow> ('s, uuid \<times> bytes) op"

text \<open>What \<open>encoding/json\<close> makes of the events and of the list of steps, and \<open>%q\<close> of a string.\<close>

record ai_codec =
  cd_started :: "started_event \<Rightarrow> err + bytes"
  cd_completed :: "completed_event \<Rightarrow> err + bytes"
  cd_report :: "report_event \<Rightarrow> err + bytes"
  cd_steps :: "string list \<Rightarrow> err + bytes"
  cd_quote :: "string \<Rightarrow> string"

text \<open>\<open>payload, _ := json.Marshal(v)\<close>.\<close>

definition or_nothing :: "err + bytes \<Rightarrow> bytes" where
  "or_nothing r = (case r of Inl _ \<Rightarrow> [] | Inr b \<Rightarrow> b)"

record 's ai_env =
  ae_now :: "'s \<Rightarrow> go_time \<times> 's"
  ae_uuid :: "'s \<Rightarrow> uuid \<times> 's"
  ae_pause :: "'s \<Rightarrow> 's"

section \<open>Service\<close>

record 's ai_service =
  as_store :: "'s analysis_store"
  as_analyzer :: "analysis_input \<Rightarrow> ('s, analysis_result) op"
  as_frames :: "(string \<Rightarrow> int \<Rightarrow> ('s, frame_input) op) option"
  as_maxFrames :: int
  as_frameBytes :: int
  as_claimLease :: duration
  as_claimRenew :: duration
  as_cache :: "(uuid \<Rightarrow> 's \<Rightarrow> 's) option"

definition ai_claim_renew :: "duration \<Rightarrow> duration \<Rightarrow> duration" where
  "ai_claim_renew lease renew =
     (if renew \<le> 0 \<or> renew \<ge> lease then (let q = lease div 4 in if q < second then second else q) else renew)"

definition ai_service_new ::
    "'s analysis_store \<Rightarrow> (analysis_input \<Rightarrow> ('s, analysis_result) op) \<Rightarrow> int \<Rightarrow> duration \<Rightarrow> duration \<Rightarrow> 's ai_service" where
  "ai_service_new st an maxFrames lease0 renew =
     (let lease = (if lease0 \<le> 0 then 2 * minute else lease0)
      in \<lparr>as_store = st, as_analyzer = an, as_frames = None, as_maxFrames = (if maxFrames \<le> 0 then 5 else maxFrames),
          as_frameBytes = 5 * 2 ^ 20, as_claimLease = lease, as_claimRenew = ai_claim_renew lease renew, as_cache = None\<rparr>)"

definition with_frame_reader :: "(string \<Rightarrow> int \<Rightarrow> ('s, frame_input) op) option \<Rightarrow> int \<Rightarrow> 's ai_service \<Rightarrow> 's ai_service" where
  "with_frame_reader r n S = S\<lparr>as_frames := r, as_frameBytes := (if n > 0 then n else as_frameBytes S)\<rparr>"

definition with_cache_invalidator :: "(uuid \<Rightarrow> 's \<Rightarrow> 's) option \<Rightarrow> 's ai_service \<Rightarrow> 's ai_service" where
  "with_cache_invalidator c S = S\<lparr>as_cache := c\<rparr>"

definition ai_now :: "'s ai_env \<Rightarrow> ('s, go_time) op" where
  "ai_now E s = (let (t, s') = ae_now E s in (Inr t, s'))"

definition ai_uuid :: "'s ai_env \<Rightarrow> ('s, uuid) op" where
  "ai_uuid E s = (let (u, s') = ae_uuid E s in (Inr u, s'))"

text \<open>A call made while the heartbeat runs.\<close>

definition while_working :: "'s ai_env \<Rightarrow> ('s, 'a) op \<Rightarrow> ('s, 'a) op" where
  "while_working E m s = m (ae_pause E s)"

definition ai_invalidateID :: "'s ai_service \<Rightarrow> uuid \<Rightarrow> ('s, unit) op" where
  "ai_invalidateID S u = (case as_cache S of None \<Rightarrow> ret () | Some f \<Rightarrow> modify (f u))"

definition ai_invalidate_report_of :: "'s ai_service \<Rightarrow> uuid \<Rightarrow> ('s, unit) op" where
  "ai_invalidate_report_of S recordingID =
     andthen (attempt (as_GetReportByRecording (as_store S) recordingID)) (\<lambda>r.
       case r of Inr rep \<Rightarrow> ai_invalidateID S (ar_ID rep) | Inl _ \<Rightarrow> ret ())"

definition ai_invalidateReport :: "'s ai_service \<Rightarrow> uuid \<Rightarrow> ('s, unit) op" where
  "ai_invalidateReport S recordingID =
     (if as_cache S = None then ret () else ai_invalidate_report_of S recordingID)"

definition build_outbox_events ::
    "'z golib_scheme \<Rightarrow> ai_codec \<Rightarrow> ai_report \<Rightarrow> string \<Rightarrow> string \<Rightarrow> string \<Rightarrow> go_time \<Rightarrow> outbox_event list" where
  "build_outbox_events L J rep recordingID projectID corr at =
     [\<lparr>oe_Topic = TopicAnalysisCompleted, oe_PartitionKey = recordingID,
       oe_Payload = or_nothing (cd_completed J
         \<lparr>ce_SchemaVersion = 1, ce_RecordingID = recordingID, ce_ReportID = uuid_string L (ar_ID rep),
          ce_PromptVersion = PromptVersion, ce_CorrelationID = corr, ce_OccurredAt = at\<rparr>),
       oe_CorrelationID = corr\<rparr>,
      \<lparr>oe_Topic = TopicReportGenerated, oe_PartitionKey = recordingID,
       oe_Payload = or_nothing (cd_report J
         \<lparr>re_SchemaVersion = 1, re_ReportID = uuid_string L (ar_ID rep), re_RecordingID = recordingID,
          re_ProjectID = projectID, re_CorrelationID = corr, re_OccurredAt = at\<rparr>),
       oe_CorrelationID = corr\<rparr>]"

definition ai_emitCompletedEvents ::
    "'z golib_scheme \<Rightarrow> ai_codec \<Rightarrow> 's ai_service \<Rightarrow> 's ai_env \<Rightarrow> analysis \<Rightarrow> string \<Rightarrow> ('s, unit) op" where
  "ai_emitCompletedEvents L J S E existing corr =
     andthen (as_GetReportByRecording (as_store S) (an_RecordingID existing)) (\<lambda>rep.
     andthen (ai_now E) (\<lambda>now.
     as_CompleteAnalysis (as_store S) existing rep
       (build_outbox_events L J rep (uuid_string L (an_RecordingID existing)) (uuid_string L (an_ProjectID existing)) corr now)
       now))"

text \<open>\<open>loadFrames\<close>: one frame after the other, the first error ends it.\<close>

fun load_each :: "ai_codec \<Rightarrow> 's ai_env \<Rightarrow> (string \<Rightarrow> int \<Rightarrow> ('s, frame_input) op) \<Rightarrow> int \<Rightarrow> string list \<Rightarrow> ('s, frame_input list) op" where
  "load_each J E rd n [] = ret []"
| "load_each J E rd n (key # keys) =
     andthen (map_err (ErrWrap (''load frame '' @ cd_quote J key @ '': '')) (while_working E (rd key n))) (\<lambda>f.
     andthen (load_each J E rd n keys) (\<lambda>fs. ret (f # fs)))"

definition ai_loadFrames :: "ai_codec \<Rightarrow> 's ai_service \<Rightarrow> 's ai_env \<Rightarrow> string list \<Rightarrow> ('s, frame_input list) op" where
  "ai_loadFrames J S E keys = (case as_frames S of None \<Rightarrow> ret [] | Some rd \<Rightarrow> load_each J E rd (as_frameBytes S) keys)"

text \<open>\<open>_ = s.store.FailAnalysis(...); s.invalidateReport(...); return err\<close>.\<close>

definition ai_give_up :: "'s ai_service \<Rightarrow> 's ai_env \<Rightarrow> uuid \<Rightarrow> err \<Rightarrow> ('s, 'a) op" where
  "ai_give_up S E recordingID e =
     andthen (ai_now E) (\<lambda>now.
     andthen (ignore (while_working E (as_FailAnalysis (as_store S) recordingID PromptVersion (err_msg e) now))) (\<lambda>_.
     andthen (ai_invalidateReport S recordingID) (\<lambda>_. fail e)))"

definition or_give_up :: "'s ai_service \<Rightarrow> 's ai_env \<Rightarrow> uuid \<Rightarrow> ('s, 'a) op \<Rightarrow> ('s, 'a) op" where
  "or_give_up S E recordingID m s =
     (case m s of
        (Inl e, s') \<Rightarrow> ai_give_up S E recordingID e s'
      | (Inr a, s') \<Rightarrow> (Inr a, s'))"

text \<open>The normalized result, if it is valid.\<close>

definition checked_result :: "analysis_result \<Rightarrow> err + analysis_result" where
  "checked_result r =
     (let n = normalize_analysis_result r
      in case validate_analysis_result n of Some e \<Rightarrow> Inl e | None \<Rightarrow> Inr n)"

text \<open>From the result to the committed report.\<close>

definition ai_report_id :: "'s ai_service \<Rightarrow> 's ai_env \<Rightarrow> uuid \<Rightarrow> ('s, uuid) op" where
  "ai_report_id S E recordingID =
     andthen (ai_uuid E) (\<lambda>fresh.
     andthen (attempt (while_working E (as_GetReportByRecording (as_store S) recordingID))) (\<lambda>r.
     ret (case r of Inr existing \<Rightarrow> ar_ID existing | Inl _ \<Rightarrow> fresh)))"

definition completed_analysis ::
    "uuid \<Rightarrow> uuid \<Rightarrow> uuid \<Rightarrow> analysis_result \<Rightarrow> bytes \<Rightarrow> go_time \<Rightarrow> analysis" where
  "completed_analysis u recordingID projectID result stepsJSON now =
     \<lparr>an_ID = u, an_RecordingID = recordingID, an_ProjectID = projectID, an_PromptVersion = PromptVersion,
      an_Status = AnalysisCompleted, an_Title = res_Title result, an_Summary = res_Summary result, an_Steps = stepsJSON,
      an_Provider = res_Provider result, an_Model = res_Model result, an_ErrorMessage = [],
      an_CreatedAt = now, an_UpdatedAt = now\<rparr>"

definition ready_report :: "uuid \<Rightarrow> uuid \<Rightarrow> uuid \<Rightarrow> analysis_result \<Rightarrow> bytes \<Rightarrow> go_time \<Rightarrow> ai_report" where
  "ready_report reportID recordingID projectID result stepsJSON now =
     \<lparr>ar_ID = reportID, ar_RecordingID = recordingID, ar_ProjectID = projectID, ar_Status = ReportReady,
      ar_Title = res_Title result, ar_Summary = res_Summary result, ar_Steps = stepsJSON,
      ar_AIStatus = analysis_status_text AnalysisCompleted, ar_PromptVersion = PromptVersion,
      ar_CreatedAt = now, ar_UpdatedAt = now\<rparr>"

definition ai_publish ::
    "'z golib_scheme \<Rightarrow> ai_codec \<Rightarrow> 's ai_service \<Rightarrow> 's ai_env \<Rightarrow> uuid \<Rightarrow> uuid \<Rightarrow> frames_event \<Rightarrow> analysis_result
       \<Rightarrow> ('s, unit) op" where
  "ai_publish L J S E recordingID projectID evt result =
     andthen (lift_sum (cd_steps J (res_Steps result))) (\<lambda>stepsJSON.
     andthen (ai_now E) (\<lambda>now.
     andthen (ai_report_id S E recordingID) (\<lambda>reportID.
     andthen (ai_uuid E) (\<lambda>u.
     let rep = ready_report reportID recordingID projectID result stepsJSON now
     in andthen (while_working E (as_CompleteAnalysis (as_store S)
                  (completed_analysis u recordingID projectID result stepsJSON now) rep
                  (build_outbox_events L J rep (fe_RecordingID evt) (fe_ProjectID evt) (fe_CorrelationID evt) now) now)) (\<lambda>_.
        andthen (attempt (while_working E (as_GetReportByRecording (as_store S) recordingID))) (\<lambda>r.
        case r of Inr rep' \<Rightarrow> ai_invalidateID S (ar_ID rep') | Inl _ \<Rightarrow> ret ()))))))"

definition ai_analyze ::
    "'z golib_scheme \<Rightarrow> ai_codec \<Rightarrow> 's ai_service \<Rightarrow> 's ai_env \<Rightarrow> uuid \<Rightarrow> uuid \<Rightarrow> frames_event \<Rightarrow> bytes
       \<Rightarrow> ('s, unit) op" where
  "ai_analyze L J S E recordingID projectID evt meta =
     (let frameKeys = select_frames (fe_FrameKeys evt) (as_maxFrames S)
      in andthen (or_give_up S E recordingID (ai_loadFrames J S E frameKeys)) (\<lambda>frames.
         andthen (or_give_up S E recordingID (while_working E (as_analyzer S
             \<lparr>ai_RecordingID = fe_RecordingID evt, ai_ProjectID = fe_ProjectID evt, ai_FrameKeys = frameKeys,
              ai_Frames = frames, ai_MetadataJSON = meta, ai_PromptVersion = PromptVersion\<rparr>))) (\<lambda>result.
         andthen (or_give_up S E recordingID (lift_sum (checked_result result))) (\<lambda>result.
         ai_publish L J S E recordingID projectID evt result))))"

text \<open>What the service makes of a claim that was refused.\<close>

definition ai_claim_refused ::
    "'z golib_scheme \<Rightarrow> ai_codec \<Rightarrow> 's ai_service \<Rightarrow> 's ai_env \<Rightarrow> uuid \<Rightarrow> string \<Rightarrow> err \<Rightarrow> ('s, unit) op" where
  "ai_claim_refused L J S E recordingID corr e =
     (if errors_is e ErrAnalysisInFlight then fail e
      else if errors_is e (ErrNotFound AI) then
        andthen (attempt (as_GetAnalysis (as_store S) recordingID PromptVersion)) (\<lambda>r.
          case r of
            Inr existing \<Rightarrow>
              if an_Status existing = AnalysisCompleted then ai_emitCompletedEvents L J S E existing corr
              else if an_Status existing = AnalysisRunning then fail ErrAnalysisInFlight
              else fail e
          | Inl _ \<Rightarrow> fail e)
      else fail e)"

definition ai_claim_and_analyze ::
    "'z golib_scheme \<Rightarrow> ai_codec \<Rightarrow> 's ai_service \<Rightarrow> 's ai_env \<Rightarrow> uuid \<Rightarrow> uuid \<Rightarrow> frames_event \<Rightarrow> ('s, unit) op" where
  "ai_claim_and_analyze L J S E recordingID projectID evt =
     andthen (as_GetRecordingMeta (as_store S) recordingID) (\<lambda>(_, meta).
     andthen (ai_now E) (\<lambda>now.
     andthen (attempt (as_TryClaimRunning (as_store S) recordingID projectID PromptVersion now (now - as_claimLease S))) (\<lambda>claim.
     case claim of
       Inl e \<Rightarrow> ai_claim_refused L J S E recordingID (fe_CorrelationID evt) e
     | Inr _ \<Rightarrow>
         andthen (as_MarkGenerating (as_store S) recordingID projectID (fe_CorrelationID evt) now) (\<lambda>_.
         ai_analyze L J S E recordingID projectID evt meta))))"

definition ai_HandleFramesExtracted ::
    "'z golib_scheme \<Rightarrow> ai_codec \<Rightarrow> 's ai_service \<Rightarrow> 's ai_env \<Rightarrow> frames_event \<Rightarrow> ('s, unit) op" where
  "ai_HandleFramesExtracted L J S E evt =
     andthen (lift_sum (case uuid_parse L (fe_RecordingID evt) of Inl e \<Rightarrow> Inl (ErrWrap ''recording_id: '' e) | Inr u \<Rightarrow> Inr u)) (\<lambda>recordingID.
     andthen (lift_sum (case uuid_parse L (fe_ProjectID evt) of Inl e \<Rightarrow> Inl (ErrWrap ''project_id: '' e) | Inr u \<Rightarrow> Inr u)) (\<lambda>projectID.
     andthen (attempt (as_GetAnalysis (as_store S) recordingID PromptVersion)) (\<lambda>found.
     case found of
       Inl e \<Rightarrow>
         if errors_is e (ErrNotFound AI) then ai_claim_and_analyze L J S E recordingID projectID evt
         else fail e
     | Inr existing \<Rightarrow>
         if an_Status existing = AnalysisCompleted then ai_emitCompletedEvents L J S E existing (fe_CorrelationID evt)
         else ai_claim_and_analyze L J S E recordingID projectID evt)))"

text \<open>One tick of \<open>renewLease\<close>; its errors are dropped.\<close>

definition ai_renew_tick :: "'s ai_service \<Rightarrow> uuid \<Rightarrow> go_time \<Rightarrow> 's \<Rightarrow> 's" where
  "ai_renew_tick S recordingID now s = snd (as_TouchRunning (as_store S) recordingID PromptVersion now s)"

section \<open>Facts about the domain\<close>

lemma normalize_in_place_eq:
  "k \<le> i \<Longrightarrow> i \<le> length buf \<Longrightarrow>
     (let (k', buf') = normalize_in_place k buf [i..<length buf]
      in k' \<le> length buf \<and> length buf' = length buf \<and> take k' buf' = take k buf @ trimmed_steps (drop i buf))"
proof (induction "length buf - i" arbitrary: i k buf)
  case 0
  then show ?case by (simp add: trimmed_steps_def)
next
  case (Suc d)
  then have lt: "i < length buf" by simp
  then have d: "drop i buf = buf ! i # drop (Suc i) buf" by (simp add: Cons_nth_drop_Suc)
  show ?case
  proof (cases "trim_space (buf ! i) = []")
    case True
    from Suc.hyps(1) [of buf "Suc i" k] Suc.hyps(2) Suc.prems(1) lt True d show ?thesis
      by (simp add: upt_conv_Cons trimmed_steps_def)
  next
    case False
    let ?b = "buf[k := trim_space (buf ! i)]"
    have "take (Suc k) ?b = take k buf @ [trim_space (buf ! i)]" "drop (Suc i) ?b = drop (Suc i) buf"
      using lt Suc.prems(1) by (simp_all add: take_Suc_conv_app_nth)
    then show ?thesis using Suc.hyps(1) [of ?b "Suc i" "Suc k"] Suc.hyps(2) Suc.prems(1) lt False d
      by (auto simp: upt_conv_Cons trimmed_steps_def Let_def split: prod.splits)
  qed
qed

text \<open>Writing into the array while reading it gives what a copy would.\<close>

lemma normalized_steps_eq [code]: "normalized_steps steps = trimmed_steps steps"
  using normalize_in_place_eq [of 0 0 steps] by (auto simp: normalized_steps_def Let_def split: prod.splits)

lemma trimmed_steps_idem: "trimmed_steps (trimmed_steps steps) = trimmed_steps steps"
proof -
  have "map trim_space (trimmed_steps steps) = trimmed_steps steps"
    by (rule map_idI) (auto simp: trimmed_steps_def)
  then show ?thesis by (simp add: trimmed_steps_def)
qed

text \<open>What may be stored: a title, a summary and steps, none of them blank.\<close>

definition valid_result :: "analysis_result \<Rightarrow> bool" where
  "valid_result r \<longleftrightarrow> trim_space (res_Title r) = res_Title r \<and> res_Title r \<noteq> []
     \<and> trim_space (res_Summary r) = res_Summary r \<and> res_Summary r \<noteq> []
     \<and> res_Steps r \<noteq> [] \<and> (\<forall>s\<in>set (res_Steps r). trim_space s = s \<and> s \<noteq> [])"

text \<open>For evaluation: nothing is computed before the answer is known.\<close>

lemma checked_result_code [code]:
  "checked_result \<lparr>res_Title = t, res_Summary = s, res_Steps = ss, res_Provider = p, res_Model = m\<rparr> =
     (let n = normalize_analysis_result \<lparr>res_Title = t, res_Summary = s, res_Steps = ss, res_Provider = p, res_Model = m\<rparr>
      in case validate_analysis_result n of Some e \<Rightarrow> Inl e | None \<Rightarrow> Inr n)"
  by (simp add: checked_result_def)

lemma checked_result_valid: "checked_result r = Inr n \<Longrightarrow> valid_result n"
  by (auto simp: checked_result_def validate_analysis_result_def normalize_analysis_result_def valid_result_def Let_def
      normalized_steps_eq trimmed_steps_idem trimmed_steps_def split: option.splits if_splits)

lemma checked_result_refuses:
  "checked_result r = Inl e \<longleftrightarrow> e = ErrInvalidAnalysisResult \<and>
     (trim_space (res_Title r) = [] \<or> trim_space (res_Summary r) = [] \<or> (\<forall>s\<in>set (res_Steps r). trim_space s = []))"
  by (auto simp: checked_result_def validate_analysis_result_def normalize_analysis_result_def Let_def
      normalized_steps_eq trimmed_steps_idem split: option.splits if_splits)
    (auto simp: trimmed_steps_def filter_empty_conv)

end
