(* ===== verification/AI_Jobs.thy ===== *)
theory AI_Jobs
  imports AI
begin

text \<open>
  What the AI service guarantees over any store with the contract \<open>analysis_contract\<close>: the key frames it
  selects, who may run an analysis, what a completed one leaves behind, and that only valid results are
  ever stored.
\<close>

section \<open>Key frames\<close>

text \<open>With fewer places than frames the positions grow strictly, so none is ever skipped as seen.\<close>

lemma frame_index_step:
  fixes n m i :: nat
  assumes "2 \<le> m" "m < n"
  shows "i * (n - 1) div (m - 1) < Suc i * (n - 1) div (m - 1)"
proof -
  have "i * (n - 1) div (m - 1) + 1 = (i * (n - 1) + (m - 1)) div (m - 1)"
    using assms div_add_self2 [of "m - 1" "i * (n - 1)"] by linarith
  also have "\<dots> \<le> (i * (n - 1) + (n - 1)) div (m - 1)"
    using assms by (intro div_le_mono) simp
  also have "i * (n - 1) + (n - 1) = Suc i * (n - 1)" by simp
  finally show ?thesis by simp
qed

lemma frame_index_mono:
  fixes n m i j :: nat
  assumes "2 \<le> m" "m < n" "i < j"
  shows "i * (n - 1) div (m - 1) < j * (n - 1) div (m - 1)"
  using assms(3)
proof (induction j)
  case (Suc j)
  then show ?case using frame_index_step [OF assms(1,2), of j] by (cases "i = j") auto
qed simp

lemma select_loop_eq:
  assumes "2 \<le> m" "m < n" "\<forall>x\<in>set seen. x < i * (n - 1) div (m - 1)" "i \<le> m"
  shows "select_loop keys (int m) n seen [i..<m] = map (\<lambda>j. keys ! (j * (n - 1) div (m - 1))) [i..<m]"
  using assms(3,4)
proof (induction "m - i" arbitrary: i seen)
  case (Suc d)
  then have lt: "i < m" by simp
  have "\<forall>x\<in>set (i * (n - 1) div (m - 1) # seen). x < Suc i * (n - 1) div (m - 1)"
    using Suc.prems(1) frame_index_step [OF assms(1,2), of i] by auto
  from Suc.hyps(1) [OF _ this] Suc.hyps(2) lt
  have "select_loop keys (int m) n (i * (n - 1) div (m - 1) # seen) [Suc i..<m]
      = map (\<lambda>j. keys ! (j * (n - 1) div (m - 1))) [Suc i..<m]" by simp
  moreover have "i * (n - 1) div (m - 1) \<notin> set seen" using Suc.prems(1) by auto
  ultimately show ?case using lt by (simp add: upt_conv_Cons Let_def)
qed simp

lemma select_frames_eq:
  assumes "2 \<le> m" "m < length keys"
  shows "select_frames keys (int m) = map (\<lambda>j. keys ! (j * (length keys - 1) div (m - 1))) [0..<m]"
  using assms select_loop_eq [OF assms, of "[]" 0 keys] by (auto simp: select_frames_def Let_def)

lemma select_frames_few: "int (length keys) \<le> m \<Longrightarrow> select_frames keys m = keys"
  by (cases keys) (auto simp: select_frames_def Let_def)

lemma select_frames_length: "0 \<le> m \<Longrightarrow> length (select_frames keys m) = min (nat m) (length keys)"
proof -
  assume m: "0 \<le> m"
  show ?thesis
  proof (cases "2 \<le> m \<and> m < int (length keys)")
    case True
    then have "2 \<le> nat m" "nat m < length keys" "m = int (nat m)" by auto
    then show ?thesis using select_frames_eq [of "nat m" keys] by simp
  next
    case False
    then show ?thesis using m by (auto simp: select_frames_def Let_def min_def)
  qed
qed

section \<open>What the service relies on\<close>

type_synonym analyses = "uuid \<times> string \<Rightarrow> analysis option"

text \<open>Every completed analysis holds a valid result, its steps as the codec writes them.\<close>

definition stored_valid :: "ai_codec \<Rightarrow> analyses \<Rightarrow> bool" where
  "stored_valid J an \<longleftrightarrow> (\<forall>k a. an k = Some a \<and> an_Status a = AnalysisCompleted \<longrightarrow>
     (\<exists>r. valid_result r \<and> an_Title a = res_Title r \<and> an_Summary a = res_Summary r \<and> cd_steps J (res_Steps r) = Inr (an_Steps a)))"

text \<open>The same for a store that gives a JSON text back as \<open>jtext\<close> of it.\<close>

definition result_as :: "(bytes \<Rightarrow> bytes) \<Rightarrow> ai_codec \<Rightarrow> analysis \<Rightarrow> bool" where
  "result_as jtext J a \<longleftrightarrow> (\<exists>r steps. valid_result r \<and> an_Title a = res_Title r \<and> an_Summary a = res_Summary r
     \<and> cd_steps J (res_Steps r) = Inr steps \<and> jtext (an_Steps a) = jtext steps)"

definition stored_as :: "(bytes \<Rightarrow> bytes) \<Rightarrow> ai_codec \<Rightarrow> analyses \<Rightarrow> bool" where
  "stored_as jtext J an \<longleftrightarrow> (\<forall>k a. an k = Some a \<and> an_Status a = AnalysisCompleted \<longrightarrow> result_as jtext J a)"

lemma stored_as_is [simp]: "stored_as (\<lambda>b. b) J an = stored_valid J an"
  by (simp add: stored_as_def stored_valid_def result_as_def)

lemma stored_as_upd: "stored_as jtext J an \<Longrightarrow> result_as jtext J a \<Longrightarrow> stored_as jtext J (an(k \<mapsto> a))"
  unfolding stored_as_def by (auto simp del: split_paired_All)

text \<open>What the store gives back for an analysis, whatever the identifiers and times.\<close>

definition same_contents :: "(bytes \<Rightarrow> bytes) \<Rightarrow> analysis \<Rightarrow> analysis \<Rightarrow> bool" where
  "same_contents jtext a b \<longleftrightarrow> an_Title a = an_Title b \<and> an_Summary a = an_Summary b \<and> an_Steps a = jtext (an_Steps b)"

locale analysis_contract =
  fixes R :: "'s analysis_store"
    and ok :: "'s \<Rightarrow> bool"
    and an :: "'s \<Rightarrow> analyses"
    and rp :: "'s \<Rightarrow> uuid \<Rightarrow> ai_report option"
    and ob :: "'s \<Rightarrow> outbox_event list"
    and jtext :: "bytes \<Rightarrow> bytes"
  assumes ok_ops:
    "preserves ok (as_TryClaimRunning R r p v at before)" "preserves ok (as_TouchRunning R r v at)"
    "preserves ok (as_MarkGenerating R r p c at)" "preserves ok (as_CompleteAnalysis R a rep evs at)"
    "preserves ok (as_FailAnalysis R r v m at)"
    and analysis_reads:
    "keeps (\<lambda>s. (ok s, an s, rp s, ob s)) (as_GetAnalysis R r v)"
    "keeps (\<lambda>s. (ok s, an s, rp s, ob s)) (as_GetReportByRecording R r)"
    "keeps (\<lambda>s. (ok s, an s, rp s, ob s)) (as_GetRecordingMeta R r)"
    and analysis_failures:
    "ok s \<Longrightarrow> as_TryClaimRunning R r p v at before s = (Inl e, s') \<Longrightarrow> an s' = an s \<and> rp s' = rp s \<and> ob s' = ob s"
    "ok s \<Longrightarrow> as_MarkGenerating R r p c at s = (Inl e, s') \<Longrightarrow> an s' = an s \<and> rp s' = rp s \<and> ob s' = ob s"
    "ok s \<Longrightarrow> as_CompleteAnalysis R a rep evs at s = (Inl e, s') \<Longrightarrow> an s' = an s \<and> rp s' = rp s \<and> ob s' = ob s"
    and get_analysis_ok: "ok s \<Longrightarrow> as_GetAnalysis R r v s = (Inr a, s') \<Longrightarrow> an s (r, v) = Some a"
    and get_analysis_missing: "ok s \<Longrightarrow> as_GetAnalysis R r v s = (Inl (ErrNotFound AI), s') \<Longrightarrow> an s (r, v) = None"
    and completed_key: "ok s \<Longrightarrow> an s (r, v) = Some a \<Longrightarrow> an_Status a = AnalysisCompleted \<Longrightarrow>
       an_RecordingID a = r \<and> an_PromptVersion a = v"
    and get_report_ok: "ok s \<Longrightarrow> as_GetReportByRecording R r s = (Inr rep, s') \<Longrightarrow>
       rp s r = Some rep \<and> ar_RecordingID rep = r"
    and claim_ok: "ok s \<Longrightarrow> as_TryClaimRunning R r p v at before s = (Inr a, s') \<Longrightarrow>
       an s' = (an s)((r, v) \<mapsto> a) \<and> an_Status a = AnalysisRunning \<and> rp s' = rp s \<and> ob s' = ob s
       \<and> (\<forall>b. an s (r, v) = Some b \<longrightarrow> an_Status b \<noteq> AnalysisCompleted
              \<and> (an_Status b = AnalysisRunning \<longrightarrow> an_UpdatedAt b < before))"
    and touch_any: "ok s \<Longrightarrow> as_TouchRunning R r v at s = (x, s') \<Longrightarrow> rp s' = rp s \<and> ob s' = ob s
       \<and> (an s' = an s \<or> (\<exists>b c. an s (r, v) = Some b \<and> an_Status b = AnalysisRunning \<and> an_Status c = AnalysisRunning
              \<and> an s' = (an s)((r, v) \<mapsto> c)))"
    and mark_ok: "ok s \<Longrightarrow> as_MarkGenerating R r p c at s = (Inr rep, s') \<Longrightarrow>
       an s' = an s \<and> rp s' = (rp s)(r \<mapsto> rep) \<and> ar_Status rep = ReportGenerating
       \<and> (\<exists>e. oe_Topic e = TopicAnalysisStarted \<and> ob s' = ob s @ [e])"
    and complete_ok: "ok s \<Longrightarrow> as_CompleteAnalysis R a rep evs at s = (Inr (), s') \<Longrightarrow>
       ob s' = ob s @ evs
       \<and> (\<exists>b. an s' = (an s)((an_RecordingID a, an_PromptVersion a) \<mapsto> b) \<and> an_Status b = AnalysisCompleted \<and> same_contents jtext b a)
       \<and> (\<exists>q. rp s' = (rp s)(ar_RecordingID rep \<mapsto> q) \<and> ar_Title q = ar_Title rep \<and> ar_Summary q = ar_Summary rep
              \<and> ar_Steps q = jtext (ar_Steps rep) \<and> (ar_Status rep = ReportReady \<longrightarrow> ar_Status q = ReportReady))"
    and fail_any: "ok s \<Longrightarrow> as_FailAnalysis R r v m at s = (x, s') \<Longrightarrow> ob s' = ob s
       \<and> (\<forall>k. k \<noteq> (r, v) \<longrightarrow> an s' k = an s k) \<and> (\<forall>q. q \<noteq> r \<longrightarrow> rp s' q = rp s q)
       \<and> (an s' (r, v) = an s (r, v) \<or> (\<exists>a. an s' (r, v) = Some a \<and> an_Status a = AnalysisFailed))"
    and jtext_again: "jtext (jtext b) = jtext b"
begin

lemmas ok_steps = ok_ops [THEN preservesD]

text \<open>No operation but completing stores a result.\<close>

lemma valid_steps:
  assumes "ok s" "stored_as jtext J (an s)"
  shows "as_TryClaimRunning R r p v at before s = (x1, s') \<Longrightarrow> stored_as jtext J (an s')"
    and "as_TouchRunning R r v at s = (x2, s') \<Longrightarrow> stored_as jtext J (an s')"
    and "as_MarkGenerating R r p c at s = (x3, s') \<Longrightarrow> stored_as jtext J (an s')"
    and "as_FailAnalysis R r v m at s = (x4, s') \<Longrightarrow> stored_as jtext J (an s')"
proof -
  have upd: "stored_as jtext J ((an s)(k \<mapsto> a))" if "an_Status a \<noteq> AnalysisCompleted" for k a
    using assms(2) that by (auto simp: stored_as_def)
  show "stored_as jtext J (an s')" if "as_TryClaimRunning R r p v at before s = (x1, s')"
    using that analysis_failures(1) [OF assms(1)] claim_ok [OF assms(1)] assms(2) upd
    by (cases x1) (metis analysis_status.distinct(7))+
  show "stored_as jtext J (an s')" if "as_TouchRunning R r v at s = (x2, s')"
    using touch_any [OF assms(1) that] assms(2) upd by (metis analysis_status.distinct(7))
  show "stored_as jtext J (an s')" if "as_MarkGenerating R r p c at s = (x3, s')"
    using that analysis_failures(2) [OF assms(1)] mark_ok [OF assms(1)] assms(2) by (cases x3) metis+
  show "stored_as jtext J (an s')" if run: "as_FailAnalysis R r v m at s = (x4, s')"
  proof (cases "an s' (r, v) = an s (r, v)")
    case True
    then have "an s' = an s" using fail_any [OF assms(1) run] by (auto simp: fun_eq_iff)
    then show ?thesis using assms(2) by simp
  next
    case False
    then obtain a where "an s' (r, v) = Some a" "an_Status a = AnalysisFailed" "\<forall>k. k \<noteq> (r, v) \<longrightarrow> an s' k = an s k"
      using fail_any [OF assms(1) run] by auto
    then have "an s' = (an s)((r, v) \<mapsto> a)" by (auto simp: fun_eq_iff)
    then show ?thesis using upd \<open>an_Status a = AnalysisFailed\<close> by simp
  qed
qed

lemma valid_complete:
  assumes "ok s" "stored_as jtext J (an s)" "as_CompleteAnalysis R a rep evs at s = (x, s')"
    and "result_as jtext J a"
  shows "stored_as jtext J (an s')"
proof (cases x)
  case (Inl e)
  then show ?thesis using assms analysis_failures(3) [OF assms(1)] by metis
next
  case (Inr u)
  then have "as_CompleteAnalysis R a rep evs at s = (Inr (), s')" using assms(3) by simp
  from complete_ok [OF assms(1) this]
  obtain b where "an s' = (an s)((an_RecordingID a, an_PromptVersion a) \<mapsto> b)" "same_contents jtext b a" by blast
  moreover from this(2) have "result_as jtext J b" using assms(4) by (simp add: result_as_def same_contents_def jtext_again)
  ultimately show ?thesis using stored_as_upd [OF assms(2)] by simp
qed

end

section \<open>Running an analysis\<close>

text \<open>
  What a run that succeeds has committed: from a state with \<open>P\<close>, one step stored a completed analysis and a
  ready report with the same, valid contents, and appended the two events.
\<close>

definition committed_report ::
    "(bytes \<Rightarrow> bytes) \<Rightarrow> 'z golib_scheme \<Rightarrow> ai_codec \<Rightarrow> ('s \<Rightarrow> bool) \<Rightarrow> ('s \<Rightarrow> bool) \<Rightarrow> ('s \<Rightarrow> analyses) \<Rightarrow> ('s \<Rightarrow> uuid \<Rightarrow> ai_report option)
       \<Rightarrow> ('s \<Rightarrow> outbox_event list) \<Rightarrow> uuid \<Rightarrow> frames_event \<Rightarrow> 's \<Rightarrow> bool" where
  "committed_report jtext L J P ok an rp ob r evt s \<longleftrightarrow> ok s \<and>
     (\<exists>s1 a q res steps rep at. P s1 \<and> valid_result res \<and> cd_steps J (res_Steps res) = Inr steps
        \<and> an s = (an s1)((r, PromptVersion) \<mapsto> a) \<and> rp s = (rp s1)(r \<mapsto> q)
        \<and> an_Status a = AnalysisCompleted \<and> an_Title a = res_Title res \<and> an_Summary a = res_Summary res \<and> an_Steps a = jtext steps
        \<and> ar_Status q = ReportReady \<and> ar_Title q = res_Title res \<and> ar_Summary q = res_Summary res \<and> ar_Steps q = jtext steps
        \<and> ob s = ob s1 @ build_outbox_events L J rep (fe_RecordingID evt) (fe_ProjectID evt) (fe_CorrelationID evt) at)"

text \<open>
  A predicate on what the store holds that survives what others do meanwhile and giving up the analysis of \<open>r\<close>.
\<close>

definition steady ::
    "'s analysis_store \<Rightarrow> 's ai_env \<Rightarrow> ('s \<Rightarrow> bool) \<Rightarrow> ('s \<Rightarrow> analyses) \<Rightarrow> ('s \<Rightarrow> uuid \<Rightarrow> ai_report option)
       \<Rightarrow> ('s \<Rightarrow> outbox_event list) \<Rightarrow> uuid \<Rightarrow> ('s \<Rightarrow> bool) \<Rightarrow> bool" where
  "steady R E ok an rp ob r P \<longleftrightarrow> (\<forall>s. P s \<longrightarrow> ok s)
     \<and> (\<forall>s s'. ok s' \<and> an s' = an s \<and> rp s' = rp s \<and> ob s' = ob s \<and> P s \<longrightarrow> P s')
     \<and> (\<forall>s. P s \<longrightarrow> P (ae_pause E s)) \<and> (\<forall>m at. preserves P (as_FailAnalysis R r PromptVersion m at))"

lemma steadyD:
  assumes "steady R E ok an rp ob r P"
  shows "P s \<Longrightarrow> ok s" "ok s' \<Longrightarrow> an s' = an s \<Longrightarrow> rp s' = rp s \<Longrightarrow> ob s' = ob s \<Longrightarrow> P s \<Longrightarrow> P s'"
    "P s \<Longrightarrow> P (ae_pause E s)" "preserves P (as_FailAnalysis R r PromptVersion m at)"
  using assms unfolding steady_def by blast+

locale ai_job = analysis_contract R ok an rp ob jtext
  for R :: "'s analysis_store" and ok an rp ob jtext +
  fixes S :: "'s ai_service" and E :: "'s ai_env" and L :: "'z golib_scheme" and J :: ai_codec
  assumes store: "as_store S = R"
    and ai_keeps:
    "keeps (\<lambda>s. (ok s, an s, rp s, ob s)) (as_analyzer S inp)"
    "as_frames S = Some rd \<Longrightarrow> keeps (\<lambda>s. (ok s, an s, rp s, ob s)) (rd key n)"
    "keeps (\<lambda>s. (ok s, an s, rp s, ob s)) (ai_now E)"
    "keeps (\<lambda>s. (ok s, an s, rp s, ob s)) (ai_uuid E)"
    "keeps (\<lambda>s. (ok s, an s, rp s, ob s)) (ai_invalidateID S u)"
begin

lemma view_eq:
  assumes "keeps (\<lambda>s. (ok s, an s, rp s, ob s)) m" "m s = (x, s')"
  shows "ok s' = ok s \<and> an s' = an s \<and> rp s' = rp s \<and> ob s' = ob s"
proof -
  have "(ok s', an s', rp s', ob s') = (ok s, an s, rp s, ob s)" by (rule keepsD [OF assms])
  then show ?thesis by blast
qed

lemma steady_kept:
  assumes "steady R E ok an rp ob r P" "keeps (\<lambda>s. (ok s, an s, rp s, ob s)) m"
  shows "preserves P m"
proof (rule preservesI)
  fix s assume P: "P s"
  have "ok s" using steadyD(1) [OF assms(1) P] .
  obtain x s' where m: "m s = (x, s')" by fastforce
  note v = view_eq [OF assms(2) m]
  have "P s'" by (rule steadyD(2) [OF assms(1) _ _ _ _ P]) (use v \<open>ok s\<close> in simp_all)
  then show "P (snd (m s))" using m by simp
qed

lemma steady_working:
  assumes "steady R E ok an rp ob r P" "preserves P m"
  shows "preserves P (while_working E m)"
proof (rule preservesI)
  fix s assume "P s"
  from steadyD(3) [OF assms(1) this] show "P (snd (while_working E m s))"
    using assms(2) by (simp add: preserves_def while_working_def)
qed

lemma keeps_invalidate: "keeps (\<lambda>s. (ok s, an s, rp s, ob s)) (ai_invalidateReport S r)"
proof -
  have "keeps (\<lambda>s. (ok s, an s, rp s, ob s)) (case x of Inl e \<Rightarrow> ret () | Inr rep \<Rightarrow> ai_invalidateID S (ar_ID rep))" for x :: "err + ai_report"
    by (cases x) (auto intro: ai_keeps)
  then show ?thesis
    unfolding ai_invalidateReport_def ai_invalidate_report_of_def store
    by (intro keeps_if keeps_ret keeps_andthen keeps_attempt analysis_reads)
qed

lemma steady_give_up:
  assumes "steady R E ok an rp ob r P"
  shows "preserves P (ai_give_up S E r e)"
  unfolding ai_give_up_def store
  by (intro preserves_andthen preserves_ignore preserves_fail steady_working [OF assms] steadyD(4) [OF assms]
      steady_kept [OF assms] ai_keeps keeps_invalidate)

lemma give_up_fails: "ai_give_up S E r e s \<noteq> (Inr x, s')"
  by (auto simp: ai_give_up_def andthen_def split: prod.splits sum.splits)

lemma or_give_up_InrD: "or_give_up S E r m s = (Inr a, s') \<Longrightarrow> m s = (Inr a, s')"
  by (auto simp: or_give_up_def dest: give_up_fails [THEN notE] split: prod.splits sum.splits)

lemma steady_or_give_up:
  assumes "steady R E ok an rp ob r P" "preserves P m"
  shows "preserves P (or_give_up S E r m)"
proof (rule preservesI)
  fix s assume "P s"
  then have "P (snd (m s))" using assms(2) by (simp add: preserves_def)
  then show "P (snd (or_give_up S E r m s))"
    using steady_give_up [OF assms(1)] by (cases "m s") (auto simp: preserves_def or_give_up_def split: sum.splits)
qed

lemma steady_load:
  assumes "steady R E ok an rp ob r P"
  shows "preserves P (ai_loadFrames J S E keys)"
proof (cases "as_frames S")
  case None
  then show ?thesis by (simp add: ai_loadFrames_def preserves_ret)
next
  case (Some rd)
  have "preserves P (load_each J E rd n keys)" for n
  proof (induction keys)
    case (Cons key keys)
    then show ?case unfolding load_each.simps
      by (intro preserves_andthen preserves_map_err preserves_ret Cons.IH steady_working [OF assms] steady_kept [OF assms] ai_keeps(2) [OF Some])
  qed (simp add: preserves_def)
  then show ?thesis using Some by (simp add: ai_loadFrames_def)
qed

text \<open>Completing: the report takes the identifier of the one there is.\<close>

lemma publish_job:
  assumes P: "steady R E ok an rp ob r P" and valid: "valid_result res"
  shows "triple P (ai_publish L J S E r p evt res)
    (\<lambda>_ s. \<exists>s2. committed_report jtext L J P ok an rp ob r evt s2 \<and> (\<exists>s3. s3 = ae_pause E s2 \<and> ok s = ok s3 \<and> an s = an s3 \<and> rp s = rp s3 \<and> ob s = ob s3))
    (\<lambda>_. P)"
proof -
  note kept = steady_kept [OF P] and working = steady_working [OF P]
  note P_ok = steadyD(1) [OF P]
  have rid: "preserves P (ai_report_id S E r)"
    unfolding ai_report_id_def store
    by (intro preserves_andthen preserves_attempt working kept ai_keeps analysis_reads preserves_ret)
  show ?thesis
    unfolding ai_publish_def store
  proof (rule triple_andthen_val [OF triple_preserves [OF preserves_lift_sum]],
         rule triple_andthen_val [OF triple_preserves [OF kept [OF ai_keeps(3)]]],
         rule triple_andthen_val [OF triple_preserves [OF rid]],
         rule triple_andthen_val [OF triple_preserves [OF kept [OF ai_keeps(4)]]], unfold Let_def)
    fix steps now rid u s0 s1
    assume "lift_sum (cd_steps J (res_Steps res)) s0 = (Inr steps, s1)"
    then have steps: "cd_steps J (res_Steps res) = Inr steps" by simp
    let ?a = "completed_analysis u r p res steps now" and ?rep = "ready_report rid r p res steps now"
    let ?evs = "build_outbox_events L J ?rep (fe_RecordingID evt) (fe_ProjectID evt) (fe_CorrelationID evt) now"
    have commit: "triple P (while_working E (as_CompleteAnalysis R ?a ?rep ?evs now))
        (\<lambda>_. committed_report jtext L J P ok an rp ob r evt) (\<lambda>_. P)"
    proof (rule tripleI)
      fix s x s' assume Ps: "P s" and run: "while_working E (as_CompleteAnalysis R ?a ?rep ?evs now) s = (Inr x, s')"
      let ?s = "ae_pause E s"
      have P1: "P ?s" using steadyD(3) [OF P Ps] .
      have go: "as_CompleteAnalysis R ?a ?rep ?evs now ?s = (Inr (), s')" using run by (simp add: while_working_def)
      from complete_ok [OF P_ok [OF P1] go] obtain b q where
        "ob s' = ob ?s @ ?evs" "an s' = (an ?s)((r, PromptVersion) \<mapsto> b)" "an_Status b = AnalysisCompleted" "same_contents jtext b ?a"
        "rp s' = (rp ?s)(r \<mapsto> q)" "ar_Title q = res_Title res" "ar_Summary q = res_Summary res" "ar_Steps q = jtext steps"
        "ar_Status q = ReportReady"
        by (auto simp: completed_analysis_def ready_report_def)
      moreover have "ok s'" using ok_steps(4) [OF go P_ok [OF P1]] .
      ultimately show "committed_report jtext L J P ok an rp ob r evt s'"
        unfolding committed_report_def same_contents_def
        by (intro conjI exI) (assumption | rule refl P1 valid steps | simp add: completed_analysis_def)+
    next
      fix s e s' assume Ps: "P s" and run: "while_working E (as_CompleteAnalysis R ?a ?rep ?evs now) s = (Inl e, s')"
      let ?s = "ae_pause E s"
      have P1: "P ?s" using steadyD(3) [OF P Ps] .
      have go: "as_CompleteAnalysis R ?a ?rep ?evs now ?s = (Inl e, s')" using run by (simp add: while_working_def)
      from analysis_failures(3) [OF P_ok [OF P1] go] steadyD(2) [OF P ok_steps(4) [OF go P_ok [OF P1]] _ _ _ P1]
      show "P s'" by simp
    qed
    show "triple P (andthen (while_working E (as_CompleteAnalysis R ?a ?rep ?evs now)) (\<lambda>_.
        andthen (attempt (while_working E (as_GetReportByRecording R r))) (\<lambda>x.
        case x of Inl _ \<Rightarrow> ret () | Inr rep' \<Rightarrow> ai_invalidateID S (ar_ID rep'))))
      (\<lambda>_ s. \<exists>s2. committed_report jtext L J P ok an rp ob r evt s2 \<and> (\<exists>s3. s3 = ae_pause E s2 \<and> ok s = ok s3 \<and> an s = an s3 \<and> rp s = rp s3 \<and> ob s = ob s3))
      (\<lambda>_. P)"
    proof (rule triple_andthen [OF commit], rule tripleI)
      fix a s x s'
      assume C: "committed_report jtext L J P ok an rp ob r evt s"
        and run: "andthen (attempt (while_working E (as_GetReportByRecording R r))) (\<lambda>x.
          case x of Inl _ \<Rightarrow> ret () | Inr rep' \<Rightarrow> ai_invalidateID S (ar_ID rep')) s = (Inr x, s')"
      obtain y sy where y: "as_GetReportByRecording R r (ae_pause E s) = (y, sy)" by fastforce
      note vy = view_eq [OF analysis_reads(2) y]
      have "ok s' = ok sy \<and> an s' = an sy \<and> rp s' = rp sy \<and> ob s' = ob sy"
      proof (cases y)
        case (Inl e)
        then show ?thesis using run y by (auto simp: andthen_def attempt_def while_working_def)
      next
        case (Inr rep')
        then have "ai_invalidateID S (ar_ID rep') sy = (Inr x, s')"
          using run y by (auto simp: andthen_def attempt_def while_working_def)
        from view_eq [OF ai_keeps(5) this] show ?thesis by simp
      qed
      then show "\<exists>s2. committed_report jtext L J P ok an rp ob r evt s2 \<and> (\<exists>s3. s3 = ae_pause E s2 \<and> ok s' = ok s3 \<and> an s' = an s3 \<and> rp s' = rp s3 \<and> ob s' = ob s3)"
        using C vy by auto
    next
      fix a s e s'
      assume "andthen (attempt (while_working E (as_GetReportByRecording R r))) (\<lambda>x.
          case x of Inl _ \<Rightarrow> ret () | Inr rep' \<Rightarrow> ai_invalidateID S (ar_ID rep')) s = (Inl e, s')"
      then show "P s'"
        by (auto simp: andthen_def attempt_def ai_invalidateID_def split: sum.splits option.splits)
    qed
  qed
qed

lemma analyze_job:
  assumes P: "steady R E ok an rp ob r P"
  shows "triple P (ai_analyze L J S E r p evt meta)
    (\<lambda>_ s. \<exists>s2. committed_report jtext L J P ok an rp ob r evt s2 \<and> (\<exists>s3. s3 = ae_pause E s2 \<and> ok s = ok s3 \<and> an s = an s3 \<and> rp s = rp s3 \<and> ob s = ob s3))
    (\<lambda>_. P)"
  unfolding ai_analyze_def Let_def
proof (rule triple_andthen_val [OF triple_preserves [OF steady_or_give_up [OF P steady_load [OF P]]]],
       rule triple_andthen_val [OF triple_preserves [OF steady_or_give_up [OF P steady_working [OF P steady_kept [OF P ai_keeps(1)]]]]],
       rule triple_andthen_val [OF triple_preserves [OF steady_or_give_up [OF P preserves_lift_sum]]])
  fix result n s s' assume "or_give_up S E r (lift_sum (checked_result result)) s = (Inr n, s')"
  then have "valid_result n" using or_give_up_InrD checked_result_valid by fastforce
  from publish_job [OF P this] show "triple P (ai_publish L J S E r p evt n)
    (\<lambda>_ s. \<exists>s2. committed_report jtext L J P ok an rp ob r evt s2 \<and> (\<exists>s3. s3 = ae_pause E s2 \<and> ok s = ok s3 \<and> an s = an s3 \<and> rp s = rp s3 \<and> ob s = ob s3))
    (\<lambda>_. P)" .
qed

text \<open>The ways \<open>HandleFramesExtracted\<close> can go: stop with an error, publish again, or claim and analyze.\<close>

lemma frames_cases:
  assumes ok: "ok s" and parse: "uuid_parse L (fe_RecordingID evt) = Inr r"
    and run: "ai_HandleFramesExtracted L J S E evt s = (x, s')"
  obtains
    (early) e where "x = Inl e" "ok s'" "an s' = an s" "rp s' = rp s" "ob s' = ob s"
  | (again) a rep s1 k p at where "ok s1" "an s1 = an s" "rp s1 = rp s" "ob s1 = ob s"
      "an s (r, PromptVersion) = Some a" "an_Status a = AnalysisCompleted" "rp s (an_RecordingID a) = Some rep"
      "as_CompleteAnalysis R a rep (build_outbox_events L J rep k p (fe_CorrelationID evt) at) at s1 = (x, s')"
  | (claimed) p at a s1 s2 e where "ok s1" "an s1 = an s" "rp s1 = rp s" "ob s1 = ob s" "\<exists>s. at = fst (ae_now E s)"
      "as_TryClaimRunning R r p PromptVersion at (at - as_claimLease S) s1 = (Inr a, s2)"
      "as_MarkGenerating R r p (fe_CorrelationID evt) at s2 = (Inl e, s')" "x = Inl e"
  | (job) p at a meta rep s1 s2 s3 where "ok s1" "an s1 = an s" "rp s1 = rp s" "ob s1 = ob s" "\<exists>s. at = fst (ae_now E s)"
      "as_TryClaimRunning R r p PromptVersion at (at - as_claimLease S) s1 = (Inr a, s2)"
      "as_MarkGenerating R r p (fe_CorrelationID evt) at s2 = (Inr rep, s3)"
      "ai_analyze L J S E r p evt meta s3 = (x, s')"
proof -
  have emit: thesis
    if s1: "ok s1" "an s1 = an s" "rp s1 = rp s" "ob s1 = ob s"
      and a: "an s (r, PromptVersion) = Some a" "an_Status a = AnalysisCompleted"
      and go: "ai_emitCompletedEvents L J S E a (fe_CorrelationID evt) s1 = (x, s')" for s1 a
  proof -
    obtain g sg where g: "as_GetReportByRecording R (an_RecordingID a) s1 = (g, sg)" by fastforce
    note vg = view_eq [OF analysis_reads(2) g]
    show thesis
    proof (cases g)
      case (Inl e)
      then show thesis using go g vg s1 early by (simp add: ai_emitCompletedEvents_def andthen_def store; blast)
    next
      case (Inr rep)
      obtain at sn where n: "ai_now E sg = (Inr at, sn)" by (cases "ae_now E sg") (simp add: ai_now_def)
      note vn = view_eq [OF ai_keeps(3) n]
      have "rp s (an_RecordingID a) = Some rep" using get_report_ok [OF s1(1)] g Inr s1 by metis
      moreover have "as_CompleteAnalysis R a rep (build_outbox_events L J rep (uuid_string L (an_RecordingID a))
          (uuid_string L (an_ProjectID a)) (fe_CorrelationID evt) at) at sn = (x, s')"
        using go g Inr n by (simp add: ai_emitCompletedEvents_def andthen_def store)
      ultimately show thesis using again [of sn a rep] vn vg s1 a by simp
    qed
  qed
  have claim: thesis
    if s0: "ok s0" "an s0 = an s" "rp s0 = rp s" "ob s0 = ob s"
      and go: "ai_claim_and_analyze L J S E r p evt s0 = (x, s')" for s0 p
  proof -
    obtain m sm where m: "as_GetRecordingMeta R r s0 = (m, sm)" by fastforce
    note vm = view_eq [OF analysis_reads(3) m]
    show thesis
    proof (cases m)
      case (Inl e)
      then show thesis using go m vm s0 early by (simp add: ai_claim_and_analyze_def andthen_def store; blast)
    next
      case (Inr pm)
      obtain q meta where pm: "pm = (q, meta)" by fastforce
      obtain at sn where n: "ae_now E sm = (at, sn)" by fastforce
      have vn: "ok sn \<and> an sn = an s \<and> rp sn = rp s \<and> ob sn = ob s"
        using view_eq [OF ai_keeps(3), of sm] n vm s0 by (simp add: ai_now_def)
      obtain c sc where c: "as_TryClaimRunning R r p PromptVersion at (at - as_claimLease S) sn = (c, sc)" by fastforce
      show thesis
      proof (cases c)
        case (Inl e)
        have sc: "ok sc \<and> an sc = an s \<and> rp sc = rp s \<and> ob sc = ob s"
          using c Inl vn analysis_failures(1) [of sn] ok_steps(1) [OF c] by metis
        have refused: "ai_claim_refused L J S E r (fe_CorrelationID evt) e sc = (x, s')"
          using go m Inr pm n c Inl by (simp add: ai_claim_and_analyze_def andthen_def attempt_def store ai_now_def)
        obtain g sg where g: "as_GetAnalysis R r PromptVersion sc = (g, sg)" by fastforce
        note vg = view_eq [OF analysis_reads(1) g]
        show thesis
        proof (cases "\<exists>a. g = Inr a \<and> an_Status a = AnalysisCompleted \<and> errors_is e (ErrNotFound AI) \<and> \<not> errors_is e ErrAnalysisInFlight")
          case True
          then obtain a where a: "g = Inr a" "an_Status a = AnalysisCompleted" "errors_is e (ErrNotFound AI)"
            "\<not> errors_is e ErrAnalysisInFlight" by blast
          then have "ai_emitCompletedEvents L J S E a (fe_CorrelationID evt) sg = (x, s')"
            using refused g by (simp add: ai_claim_refused_def andthen_def attempt_def store)
          moreover have "an s (r, PromptVersion) = Some a" using get_analysis_ok g a(1) sc by metis
          ultimately show thesis using emit [of sg a] vg sc a(2) by simp
        next
          case False
          then have "x \<noteq> Inr () \<and> (s' = sc \<or> s' = sg)"
            using refused g by (auto simp: ai_claim_refused_def andthen_def attempt_def store split: if_splits sum.splits)
          then show thesis using early vg sc by (cases x) auto
        qed
      next
        case (Inr a)
        obtain k sk where k: "as_MarkGenerating R r p (fe_CorrelationID evt) at sc = (k, sk)" by fastforce
        have at: "\<exists>s. at = fst (ae_now E s)" using n by (metis fst_conv)
        have cl: "as_TryClaimRunning R r p PromptVersion at (at - as_claimLease S) sn = (Inr a, sc)" using c Inr by simp
        show thesis
        proof (cases k)
          case (Inl e)
          then have "x = Inl e \<and> s' = sk"
            using go m \<open>m = Inr pm\<close> pm n c Inr k by (simp add: ai_claim_and_analyze_def andthen_def attempt_def store ai_now_def)
          then show thesis using claimed [OF _ _ _ _ at cl] k Inl vn by blast
        next
          case mk: (Inr rep)
          then have "ai_analyze L J S E r p evt meta sk = (x, s')"
            using go m \<open>m = Inr pm\<close> pm n c Inr k by (simp add: ai_claim_and_analyze_def andthen_def attempt_def store ai_now_def)
          then show thesis using job [OF _ _ _ _ at cl] k mk vn by blast
        qed
      qed
    qed
  qed
  show thesis
  proof (cases "uuid_parse L (fe_ProjectID evt)")
    case (Inl e)
    then show thesis using run parse ok early by (simp add: ai_HandleFramesExtracted_def andthen_def; blast)
  next
    case (Inr p)
    obtain g sg where g: "as_GetAnalysis R r PromptVersion s = (g, sg)" by fastforce
    note vg = view_eq [OF analysis_reads(1) g]
    show thesis
    proof (cases g)
      case (Inl e)
      show thesis
      proof (cases "errors_is e (ErrNotFound AI)")
        case True
        then have "ai_claim_and_analyze L J S E r p evt sg = (x, s')"
          using run parse \<open>uuid_parse L (fe_ProjectID evt) = Inr p\<close> g Inl
          by (simp add: ai_HandleFramesExtracted_def andthen_def attempt_def store)
        then show thesis using claim vg ok by blast
      next
        case False
        then show thesis using run parse \<open>uuid_parse L (fe_ProjectID evt) = Inr p\<close> g Inl vg ok early
          by (simp add: ai_HandleFramesExtracted_def andthen_def attempt_def store; blast)
      qed
    next
      case found: (Inr a)
      then have a: "an s (r, PromptVersion) = Some a" using get_analysis_ok [OF ok] g by blast
      show thesis
      proof (cases "an_Status a = AnalysisCompleted")
        case True
        then have "ai_emitCompletedEvents L J S E a (fe_CorrelationID evt) sg = (x, s')"
          using run parse \<open>uuid_parse L (fe_ProjectID evt) = Inr p\<close> g found
          by (simp add: ai_HandleFramesExtracted_def andthen_def attempt_def store)
        then show thesis using emit [OF _ _ _ _ a True] vg ok by blast
      next
        case False
        then have "ai_claim_and_analyze L J S E r p evt sg = (x, s')"
          using run parse \<open>uuid_parse L (fe_ProjectID evt) = Inr p\<close> g found
          by (simp add: ai_HandleFramesExtracted_def andthen_def attempt_def store)
        then show thesis using claim vg ok by blast
      qed
    qed
  qed
qed

text \<open>Only valid results are ever stored, whatever others do meanwhile.\<close>

lemma steady_valid:
  assumes "\<And>s. ok s \<Longrightarrow> stored_as jtext J (an s) \<Longrightarrow> ok (ae_pause E s) \<and> stored_as jtext J (an (ae_pause E s))"
  shows "steady R E ok an rp ob r (\<lambda>s. ok s \<and> stored_as jtext J (an s))"
proof -
  have "preserves (\<lambda>s. ok s \<and> stored_as jtext J (an s)) (as_FailAnalysis R r PromptVersion m at)" for m at
  proof (rule preservesI)
    fix s assume P: "ok s \<and> stored_as jtext J (an s)"
    obtain x s' where run: "as_FailAnalysis R r PromptVersion m at s = (x, s')" by fastforce
    show "ok (snd (as_FailAnalysis R r PromptVersion m at s)) \<and> stored_as jtext J (an (snd (as_FailAnalysis R r PromptVersion m at s)))"
      using valid_steps(4) [OF conjunct1 [OF P] conjunct2 [OF P] run] ok_steps(5) [OF run conjunct1 [OF P]] run by simp
  qed
  then show ?thesis unfolding steady_def using assms by simp
qed

lemma committed_valid:
  "committed_report jtext L J (\<lambda>s. ok s \<and> stored_as jtext J (an s)) ok an rp ob r evt s \<Longrightarrow> ok s \<and> stored_as jtext J (an s)"
proof -
  assume "committed_report jtext L J (\<lambda>s. ok s \<and> stored_as jtext J (an s)) ok an rp ob r evt s"
  then obtain s1 a res steps where "ok s" "stored_as jtext J (an s1)" "an s = (an s1)((r, PromptVersion) \<mapsto> a)" "valid_result res"
      "cd_steps J (res_Steps res) = Inr steps" "an_Title a = res_Title res" "an_Summary a = res_Summary res" "an_Steps a = jtext steps"
    unfolding committed_report_def by blast
  moreover from this have "result_as jtext J a" by (auto simp: result_as_def jtext_again)
  ultimately show ?thesis by (simp add: stored_as_upd)
qed

lemma handled_valid:
  assumes pause: "\<And>s. ok s \<Longrightarrow> stored_as jtext J (an s) \<Longrightarrow> ok (ae_pause E s) \<and> stored_as jtext J (an (ae_pause E s))"
    and ok: "ok s" and valid: "stored_as jtext J (an s)" and parse: "uuid_parse L (fe_RecordingID evt) = Inr r"
    and run: "ai_HandleFramesExtracted L J S E evt s = (x, s')"
  shows "ok s' \<and> stored_as jtext J (an s')"
  using ok parse run
proof (cases rule: frames_cases)
  case (early e)
  then show ?thesis using valid by simp
next
  case (again a rep s1 k p at)
  have "result_as jtext J a" using valid again(5,6) unfolding stored_as_def by blast
  then show ?thesis using valid_complete [OF again(1) _ again(8)] ok_steps(4) [OF again(8,1)] again(2) valid by simp
next
  case (claimed p at a s1 s2 e)
  have "stored_as jtext J (an s2)" using valid_steps(1) [OF claimed(1) _ claimed(6)] claimed(2) valid by simp
  from valid_steps(3) [OF ok_steps(1) [OF claimed(6,1)] this claimed(7)] ok_steps(3) [OF claimed(7) ok_steps(1) [OF claimed(6,1)]]
  show ?thesis by blast
next
  case (job p at a meta rep s1 s2 s3)
  let ?P = "\<lambda>s. ok s \<and> stored_as jtext J (an s)"
  have v2: "stored_as jtext J (an s2)" using valid_steps(1) [OF job(1) _ job(6)] job(2) valid by simp
  have ok2: "ok s2" using ok_steps(1) [OF job(6,1)] .
  have P3: "?P s3" using valid_steps(3) [OF ok2 v2 job(7)] ok_steps(3) [OF job(7) ok2] by blast
  note steady = steady_valid [OF pause]
  show ?thesis
  proof (cases x)
    case (Inl e)
    then have go: "ai_analyze L J S E r p evt meta s3 = (Inl e, s')" using job(8) by simp
    from triple_InlD [OF analyze_job [OF steady] P3 go] show ?thesis by blast
  next
    case (Inr u)
    then have go: "ai_analyze L J S E r p evt meta s3 = (Inr u, s')" using job(8) by simp
    from triple_InrD [OF analyze_job [OF steady] P3 go]
    obtain s4 where "committed_report jtext L J ?P ok an rp ob r evt s4" "ok s' = ok (ae_pause E s4)" "an s' = an (ae_pause E s4)" by blast
    then show ?thesis using committed_valid pause by metis
  qed
qed

text \<open>
  With only the heartbeat beside it, a run that succeeds leaves the analysis completed, the report ready with
  the same contents, and both events published.
\<close>

lemma handled_report:
  assumes pause: "\<And>s. ok s \<Longrightarrow> ok (ae_pause E s) \<and> rp (ae_pause E s) = rp s \<and> ob (ae_pause E s) = ob s
      \<and> (\<forall>k a. an s k = Some a \<and> an_Status a = AnalysisCompleted \<longrightarrow> an (ae_pause E s) k = Some a)"
    and ok: "ok s" and parse: "uuid_parse L (fe_RecordingID evt) = Inr r"
    and run: "ai_HandleFramesExtracted L J S E evt s = (Inr (), s')"
  shows "(\<exists>obs rep k p at. ob s' = obs @ build_outbox_events L J rep k p (fe_CorrelationID evt) at)
     \<and> ((\<forall>a. an s (r, PromptVersion) = Some a \<longrightarrow> an_Status a \<noteq> AnalysisCompleted) \<longrightarrow>
          (\<exists>a q res. an s' (r, PromptVersion) = Some a \<and> an_Status a = AnalysisCompleted
             \<and> rp s' r = Some q \<and> ar_Status q = ReportReady \<and> valid_result res
             \<and> an_Title a = res_Title res \<and> ar_Title q = res_Title res \<and> an_Summary a = res_Summary res \<and> ar_Summary q = res_Summary res
             \<and> (\<exists>steps. cd_steps J (res_Steps res) = Inr steps \<and> an_Steps a = jtext steps) \<and> ar_Steps q = an_Steps a))"
  using ok parse run
proof (cases rule: frames_cases)
  case (again a rep s1 k p at)
  then show ?thesis using complete_ok [OF again(1,8)] by (intro conjI) (blast | simp)+
next
  case (job p at a meta rep s1 s2 s3)
  have "steady R E ok an rp ob r ok" unfolding steady_def using pause ok_ops(5) by simp
  note tri = analyze_job [OF this, of p evt meta]
  have ok3: "ok s3" using ok_steps(3) [OF job(7) ok_steps(1) [OF job(6,1)]] .
  from triple_InrD [OF tri ok3 job(8)] obtain s4
    where c: "committed_report jtext L J ok ok an rp ob r evt s4" and s': "an s' = an (ae_pause E s4)" "rp s' = rp (ae_pause E s4)" "ob s' = ob (ae_pause E s4)"
    by blast
  from c obtain s5 b q res steps rep' at' where
    ok4: "ok s4" and b: "an s4 = (an s5)((r, PromptVersion) \<mapsto> b)" "rp s4 = (rp s5)(r \<mapsto> q)" "an_Status b = AnalysisCompleted"
      "ar_Status q = ReportReady" "valid_result res" "an_Title b = res_Title res" "an_Summary b = res_Summary res" "an_Steps b = jtext steps"
      "ar_Title q = res_Title res" "ar_Summary q = res_Summary res" "ar_Steps q = jtext steps" "cd_steps J (res_Steps res) = Inr steps"
      "ob s4 = ob s5 @ build_outbox_events L J rep' (fe_RecordingID evt) (fe_ProjectID evt) (fe_CorrelationID evt) at'"
    unfolding committed_report_def by blast
  have "an s' (r, PromptVersion) = Some b" using pause [OF ok4] b(1,3) s'(1) by simp
  moreover have "rp s' r = Some q" using pause [OF ok4] b(2) s' by simp
  moreover have "ob s' = ob s5 @ build_outbox_events L J rep' (fe_RecordingID evt) (fe_ProjectID evt) (fe_CorrelationID evt) at'"
    using pause [OF ok4] b(13) s' by simp
  moreover have "\<exists>steps. cd_steps J (res_Steps res) = Inr steps \<and> an_Steps b = jtext steps" "ar_Steps q = an_Steps b"
    using b(8,11,12) by simp_all
  ultimately show ?thesis using b(3-7,9,10) by blast
qed auto

text \<open>A fresh lease excludes everybody, its own worker included.\<close>

lemma handled_in_flight:
  assumes ok: "ok s" and parse: "uuid_parse L (fe_RecordingID evt) = Inr r"
    and held: "an s (r, PromptVersion) = Some a" "an_Status a = AnalysisRunning"
      "\<And>s. fst (ae_now E s) - as_claimLease S \<le> an_UpdatedAt a"
    and run: "ai_HandleFramesExtracted L J S E evt s = (x, s')"
  shows "x \<noteq> Inr () \<and> an s' = an s \<and> rp s' = rp s \<and> ob s' = ob s"
  using ok parse run
proof (cases rule: frames_cases)
  case (again b rep s1 k p at)
  then show ?thesis using held by simp
next
  case (claimed p at b s1 s2 e)
  have "an_UpdatedAt a < at - as_claimLease S" using claim_ok [OF claimed(1,6)] claimed(2) held by simp
  then show ?thesis using claimed(5) held(3) by (metis linorder_not_le)
next
  case (job p at b meta rep s1 s2 s3)
  have "an_UpdatedAt a < at - as_claimLease S" using claim_ok [OF job(1,6)] job(2) held by simp
  then show ?thesis using job(5) held(3) by (metis linorder_not_le)
qed auto

end

end
