(* ===== verification/AI_Memory.thy ===== *)
theory AI_Memory
  imports AI_Jobs Sample_Lib
begin

text \<open>
  \<open>internal/ai/adapter/memory/memory.go\<close>: the in-memory analyses, reports and events. \<open>aw_seq\<close> numbers the
  readings of the clock and the fresh identifiers, \<open>aw_script\<close> lists what happens each time a job waits, and
  \<open>aw_invalidated\<close> collects the reports dropped from the cache. Interprets \<open>analysis_contract\<close> and \<open>ai_job\<close>
  and states the properties of the AI service over it.
\<close>

datatype ai_step =
    StepClaim uuid uuid go_time go_time
  | StepTouch uuid go_time
  | StepMark uuid uuid string go_time
  | StepPublish uuid uuid analysis_result go_time
  | StepFail uuid string go_time

record ai_world =
  aw_analyses :: "(string, analysis) gomap"
  aw_reports :: "(uuid, ai_report) gomap"
  aw_meta :: "(uuid, uuid \<times> bytes) gomap"
  aw_outbox :: "outbox_event list"
  aw_seq :: nat
  aw_script :: "ai_step list list"
  aw_invalidated :: "uuid list"

definition amem_new :: ai_world where
  "amem_new = \<lparr>aw_analyses = [], aw_reports = [], aw_meta = [], aw_outbox = [], aw_seq = 0, aw_script = [], aw_invalidated = []\<rparr>"

section \<open>Store\<close>

definition amem_key :: "'z golib_scheme \<Rightarrow> uuid \<Rightarrow> string \<Rightarrow> string" where
  "amem_key L recordingID prompt = uuid_string L recordingID @ ''|'' @ prompt"

definition amem_SeedMeta :: "uuid \<Rightarrow> uuid \<Rightarrow> bytes \<Rightarrow> ai_world \<Rightarrow> ai_world" where
  "amem_SeedMeta recordingID projectID md w = w\<lparr>aw_meta := m_set recordingID (projectID, md) (aw_meta w)\<rparr>"

definition fresh_uuid :: "(ai_world, uuid) op" where
  "fresh_uuid w = (Inr (word_of_nat (aw_seq w)), w\<lparr>aw_seq := Suc (aw_seq w)\<rparr>)"

definition amem_GetAnalysis :: "'z golib_scheme \<Rightarrow> uuid \<Rightarrow> string \<Rightarrow> (ai_world, analysis) op" where
  "amem_GetAnalysis L r v w =
     (case m_get (aw_analyses w) (amem_key L r v) of None \<Rightarrow> Inl (ErrNotFound AI) | Some a \<Rightarrow> Inr a, w)"

text \<open>A Go struct with every field at its zero value.\<close>

definition zero_analysis :: analysis where
  "zero_analysis = \<lparr>an_ID = 0, an_RecordingID = 0, an_ProjectID = 0, an_PromptVersion = [], an_Status = AnalysisPending,
     an_Title = [], an_Summary = [], an_Steps = [], an_Provider = [], an_Model = [], an_ErrorMessage = [],
     an_CreatedAt = 0, an_UpdatedAt = 0\<rparr>"

definition zero_report :: ai_report where
  "zero_report = \<lparr>ar_ID = 0, ar_RecordingID = 0, ar_ProjectID = 0, ar_Status = ReportPending, ar_Title = [], ar_Summary = [],
     ar_Steps = [], ar_AIStatus = [], ar_PromptVersion = [], ar_CreatedAt = 0, ar_UpdatedAt = 0\<rparr>"

definition amem_running :: "uuid \<Rightarrow> uuid \<Rightarrow> uuid \<Rightarrow> string \<Rightarrow> go_time \<Rightarrow> analysis option \<Rightarrow> analysis" where
  "amem_running u r p v at old =
     (let a = zero_analysis\<lparr>an_ID := u, an_RecordingID := r, an_ProjectID := p, an_PromptVersion := v,
                an_Status := AnalysisRunning, an_CreatedAt := at, an_UpdatedAt := at\<rparr>
      in case old of None \<Rightarrow> a | Some b \<Rightarrow> a\<lparr>an_ID := an_ID b, an_CreatedAt := an_CreatedAt b\<rparr>)"

definition amem_TryClaimRunning ::
    "'z golib_scheme \<Rightarrow> uuid \<Rightarrow> uuid \<Rightarrow> string \<Rightarrow> go_time \<Rightarrow> go_time \<Rightarrow> (ai_world, analysis) op" where
  "amem_TryClaimRunning L r p v at leaseCutoff w =
     (let old = m_get (aw_analyses w) (amem_key L r v)
      in case (case old of
                 None \<Rightarrow> None
               | Some b \<Rightarrow> (case an_Status b of
                    AnalysisCompleted \<Rightarrow> Some (ErrNotFound AI)
                  | AnalysisRunning \<Rightarrow> if an_UpdatedAt b < leaseCutoff then None else Some ErrAnalysisInFlight
                  | _ \<Rightarrow> None)) of
           Some e \<Rightarrow> (Inl e, w)
         | None \<Rightarrow>
             andthen fresh_uuid (\<lambda>u w'.
               let a = amem_running u r p v at old
               in (Inr a, w'\<lparr>aw_analyses := m_set (amem_key L r v) a (aw_analyses w')\<rparr>)) w)"

definition amem_MarkGenerating ::
    "'z golib_scheme \<Rightarrow> ai_codec \<Rightarrow> uuid \<Rightarrow> uuid \<Rightarrow> string \<Rightarrow> go_time \<Rightarrow> (ai_world, ai_report) op" where
  "amem_MarkGenerating L J r p corr at =
     andthen fresh_uuid (\<lambda>u w.
       let base = (case m_get (aw_reports w) r of
                     None \<Rightarrow> zero_report\<lparr>ar_ID := u, ar_RecordingID := r, ar_ProjectID := p, ar_CreatedAt := at\<rparr>
                   | Some old \<Rightarrow> old);
           rep = base\<lparr>ar_Status := ReportGenerating, ar_AIStatus := analysis_status_text AnalysisRunning,
                      ar_PromptVersion := PromptVersion, ar_UpdatedAt := at\<rparr>;
           payload = or_nothing (cd_started J
             \<lparr>se_SchemaVersion = 1, se_RecordingID = uuid_string L r, se_ProjectID = uuid_string L p,
              se_ReportID = uuid_string L (ar_ID rep), se_PromptVersion = PromptVersion,
              se_CorrelationID = corr, se_OccurredAt = at\<rparr>)
       in (Inr rep, w\<lparr>aw_reports := m_set r rep (aw_reports w),
                      aw_outbox := aw_outbox w @ [\<lparr>oe_Topic = TopicAnalysisStarted, oe_PartitionKey = uuid_string L r,
                        oe_Payload = payload, oe_CorrelationID = corr\<rparr>]\<rparr>))"

definition amem_TouchRunning :: "'z golib_scheme \<Rightarrow> uuid \<Rightarrow> string \<Rightarrow> go_time \<Rightarrow> (ai_world, unit) op" where
  "amem_TouchRunning L r v at w =
     (case m_get (aw_analyses w) (amem_key L r v) of
        None \<Rightarrow> (Inr (), w)
      | Some a \<Rightarrow>
          if an_Status a \<noteq> AnalysisRunning then (Inr (), w)
          else (Inr (), w\<lparr>aw_analyses := m_set (amem_key L r v) (a\<lparr>an_UpdatedAt := at\<rparr>) (aw_analyses w)\<rparr>))"

definition amem_GetReportByRecording :: "uuid \<Rightarrow> (ai_world, ai_report) op" where
  "amem_GetReportByRecording r w = (case m_get (aw_reports w) r of None \<Rightarrow> Inl (ErrNotFound AI) | Some q \<Rightarrow> Inr q, w)"

definition amem_CompleteAnalysis ::
    "'z golib_scheme \<Rightarrow> analysis \<Rightarrow> ai_report \<Rightarrow> outbox_event list \<Rightarrow> go_time \<Rightarrow> (ai_world, unit) op" where
  "amem_CompleteAnalysis L a rep events at w =
     (let rep = (case m_get (aw_reports w) (ar_RecordingID rep) of
                   None \<Rightarrow> rep
                 | Some old \<Rightarrow> rep\<lparr>ar_ID := ar_ID old, ar_CreatedAt := ar_CreatedAt old\<rparr>)
      in (Inr (), w\<lparr>aw_analyses := m_set (amem_key L (an_RecordingID a) (an_PromptVersion a))
                       (a\<lparr>an_Status := AnalysisCompleted, an_UpdatedAt := at\<rparr>) (aw_analyses w),
                    aw_reports := m_set (ar_RecordingID rep) (rep\<lparr>ar_UpdatedAt := at\<rparr>) (aw_reports w),
                    aw_outbox := aw_outbox w @ events\<rparr>))"

text \<open>A missing row is read as the zero value, as Go's map index does.\<close>

definition amem_FailAnalysis :: "'z golib_scheme \<Rightarrow> uuid \<Rightarrow> string \<Rightarrow> string \<Rightarrow> go_time \<Rightarrow> (ai_world, unit) op" where
  "amem_FailAnalysis L r v msg at =
     andthen fresh_uuid (\<lambda>u w.
       let a = (case m_get (aw_analyses w) (amem_key L r v) of None \<Rightarrow> zero_analysis | Some a \<Rightarrow> a);
           w = w\<lparr>aw_analyses := m_set (amem_key L r v)
                   (a\<lparr>an_Status := AnalysisFailed, an_ErrorMessage := msg, an_UpdatedAt := at\<rparr>) (aw_analyses w)\<rparr>
       in case m_get (aw_meta w) r of
            None \<Rightarrow> (Inr (), w)
          | Some (p, _) \<Rightarrow>
              let base = (case m_get (aw_reports w) r of
                            None \<Rightarrow> zero_report\<lparr>ar_ID := u, ar_RecordingID := r, ar_ProjectID := p, ar_CreatedAt := at\<rparr>
                          | Some q \<Rightarrow> q);
                  rep = base\<lparr>ar_Status := ReportFailed, ar_AIStatus := analysis_status_text AnalysisFailed,
                             ar_PromptVersion := v, ar_UpdatedAt := at\<rparr>
              in (Inr (), w\<lparr>aw_reports := m_set r rep (aw_reports w)\<rparr>))"

definition amem_GetRecordingMeta :: "uuid \<Rightarrow> (ai_world, uuid \<times> bytes) op" where
  "amem_GetRecordingMeta r w = (case m_get (aw_meta w) r of None \<Rightarrow> Inl (ErrNotFound AI) | Some m \<Rightarrow> Inr m, w)"

definition amem_SeedRunning :: "'z golib_scheme \<Rightarrow> uuid \<Rightarrow> uuid \<Rightarrow> string \<Rightarrow> go_time \<Rightarrow> ai_world \<Rightarrow> ai_world" where
  "amem_SeedRunning L r p v at w =
     w\<lparr>aw_analyses := m_set (amem_key L r v) (amem_running (word_of_nat (aw_seq w)) r p v at None) (aw_analyses w),
       aw_seq := Suc (aw_seq w)\<rparr>"

definition amem_store :: "'z golib_scheme \<Rightarrow> ai_codec \<Rightarrow> ai_world analysis_store" where
  "amem_store L J =
     \<lparr>as_GetAnalysis = amem_GetAnalysis L, as_TryClaimRunning = amem_TryClaimRunning L, as_TouchRunning = amem_TouchRunning L,
      as_MarkGenerating = amem_MarkGenerating L J, as_CompleteAnalysis = amem_CompleteAnalysis L,
      as_FailAnalysis = amem_FailAnalysis L, as_GetReportByRecording = amem_GetReportByRecording,
      as_GetRecordingMeta = amem_GetRecordingMeta\<rparr>"

section \<open>The contract\<close>

definition amem_an :: "'z golib_scheme \<Rightarrow> ai_world \<Rightarrow> analyses" where
  "amem_an L w = (\<lambda>(r, v). m_get (aw_analyses w) (amem_key L r v))"

definition amem_rp :: "ai_world \<Rightarrow> uuid \<Rightarrow> ai_report option" where
  "amem_rp w = m_get (aw_reports w)"

text \<open>Reports are kept under their recording, completed analyses under the key of their own fields.\<close>

definition reports_keyed :: "(uuid, ai_report) gomap \<Rightarrow> bool" where
  "reports_keyed q \<longleftrightarrow> (\<forall>r x. m_get q r = Some x \<longrightarrow> ar_RecordingID x = r)"

definition analyses_keyed :: "'z golib_scheme \<Rightarrow> (string, analysis) gomap \<Rightarrow> bool" where
  "analyses_keyed L an \<longleftrightarrow> (\<forall>r v a. m_get an (amem_key L r v) = Some a \<and> an_Status a = AnalysisCompleted \<longrightarrow>
     an_RecordingID a = r \<and> an_PromptVersion a = v)"

definition amem_ok :: "'z golib_scheme \<Rightarrow> ai_world \<Rightarrow> bool" where
  "amem_ok L w \<longleftrightarrow> golib_ok L \<and> reports_keyed (aw_reports w) \<and> analyses_keyed L (aw_analyses w)"

lemmas amem_ok_defs = amem_ok_def reports_keyed_def analyses_keyed_def

lemma amem_key_inject: "golib_ok L \<Longrightarrow> amem_key L r v = amem_key L r' v' \<longleftrightarrow> r = r' \<and> v = v'"
  using cut_byte_append [of "CHR ''|''" "uuid_string L r" v] cut_byte_append [of "CHR ''|''" "uuid_string L r'" v']
    golib_ok_uuid_bar [of L] uuid_string_inject [of L r r']
  by (auto simp: amem_key_def)

lemma amem_an_set:
  "golib_ok L \<Longrightarrow> amem_an L (w\<lparr>aw_analyses := m_set (amem_key L r v) a (aw_analyses w)\<rparr>) = (amem_an L w)((r, v) \<mapsto> a)"
  by (auto simp: amem_an_def fun_eq_iff amem_key_inject)

lemma amem_view_updates [simp]:
  "amem_an L (w\<lparr>aw_seq := n\<rparr>) = amem_an L w" "amem_rp (w\<lparr>aw_seq := n\<rparr>) = amem_rp w" "amem_ok L (w\<lparr>aw_seq := n\<rparr>) = amem_ok L w"
  "amem_an L (w\<lparr>aw_reports := q\<rparr>) = amem_an L w" "amem_an L (w\<lparr>aw_outbox := o'\<rparr>) = amem_an L w"
  "amem_rp (w\<lparr>aw_analyses := x\<rparr>) = amem_rp w" "amem_rp (w\<lparr>aw_outbox := o'\<rparr>) = amem_rp w"
  "amem_ok L (w\<lparr>aw_outbox := o'\<rparr>) = amem_ok L w"
  "amem_an L (w\<lparr>aw_script := z\<rparr>) = amem_an L w" "amem_rp (w\<lparr>aw_script := z\<rparr>) = amem_rp w"
  "amem_ok L (w\<lparr>aw_script := z\<rparr>) = amem_ok L w"
  "amem_an L (w\<lparr>aw_invalidated := i\<rparr>) = amem_an L w" "amem_rp (w\<lparr>aw_invalidated := i\<rparr>) = amem_rp w"
  "amem_ok L (w\<lparr>aw_invalidated := i\<rparr>) = amem_ok L w"
  by (simp_all add: amem_an_def amem_rp_def amem_ok_defs)

lemma amem_TryClaim_cases:
  "amem_TryClaimRunning L r p v at before w = (x, w') \<Longrightarrow>
     (case x of
        Inl e \<Rightarrow> w' = w
      | Inr a \<Rightarrow> a = amem_running (word_of_nat (aw_seq w)) r p v at (m_get (aw_analyses w) (amem_key L r v))
          \<and> w' = w\<lparr>aw_seq := Suc (aw_seq w), aw_analyses := m_set (amem_key L r v) a (aw_analyses w)\<rparr>
          \<and> (\<forall>b. m_get (aw_analyses w) (amem_key L r v) = Some b \<longrightarrow> an_Status b \<noteq> AnalysisCompleted
                 \<and> (an_Status b = AnalysisRunning \<longrightarrow> an_UpdatedAt b < before)))"
  by (auto simp: amem_TryClaimRunning_def fresh_uuid_def andthen_def Let_def
      split: option.splits analysis_status.splits if_splits)

lemma amem_running_status [simp]:
  "an_Status (amem_running u r p v at old) = AnalysisRunning" "an_UpdatedAt (amem_running u r p v at old) = at"
  by (simp_all add: amem_running_def Let_def split: option.splits)

lemma amem_ok_set:
  assumes "amem_ok L w" "an_Status a = AnalysisCompleted \<Longrightarrow> an_RecordingID a = r \<and> an_PromptVersion a = v"
  shows "amem_ok L (w\<lparr>aw_analyses := m_set (amem_key L r v) a (aw_analyses w)\<rparr>)"
  using assms amem_key_inject [of L] by (auto simp: amem_ok_defs split: if_splits)

lemma amem_ok_report:
  assumes "amem_ok L w" "ar_RecordingID q = r"
  shows "amem_ok L (w\<lparr>aw_reports := m_set r q (aw_reports w)\<rparr>)"
  using assms by (auto simp: amem_ok_defs split: if_splits)

lemmas amem_store_simps = amem_store_def analysis_store.simps

text \<open>What a failed analysis writes.\<close>

lemma amem_Fail_shape:
  assumes "amem_FailAnalysis L r v m at w = (x, w')"
  shows "aw_analyses w' = m_set (amem_key L r v)
      ((case m_get (aw_analyses w) (amem_key L r v) of None \<Rightarrow> zero_analysis | Some a \<Rightarrow> a)
         \<lparr>an_Status := AnalysisFailed, an_ErrorMessage := m, an_UpdatedAt := at\<rparr>) (aw_analyses w)"
    and "aw_outbox w' = aw_outbox w"
    and "aw_reports w' = aw_reports w \<or> (\<exists>q. aw_reports w' = m_set r q (aw_reports w) \<and> ar_Status q = ReportFailed
           \<and> ar_RecordingID q = (case m_get (aw_reports w) r of None \<Rightarrow> r | Some old \<Rightarrow> ar_RecordingID old))"
    and "m_get (aw_meta w) r \<noteq> None \<Longrightarrow> \<exists>q. m_get (aw_reports w') r = Some q \<and> ar_Status q = ReportFailed"
proof -
  define u where "u = (word_of_nat (aw_seq w) :: uuid)"
  define q where "q p = (case m_get (aw_reports w) r of
        None \<Rightarrow> zero_report\<lparr>ar_ID := u, ar_RecordingID := r, ar_ProjectID := p, ar_CreatedAt := at\<rparr> | Some q \<Rightarrow> q)
     \<lparr>ar_Status := ReportFailed, ar_AIStatus := analysis_status_text AnalysisFailed, ar_PromptVersion := v, ar_UpdatedAt := at\<rparr>" for p
  have q: "ar_RecordingID (q p) = (case m_get (aw_reports w) r of None \<Rightarrow> r | Some old \<Rightarrow> ar_RecordingID old)"
    "ar_Status (q p) = ReportFailed" for p
    by (simp_all add: q_def split: option.splits)
  show "aw_analyses w' = m_set (amem_key L r v)
      ((case m_get (aw_analyses w) (amem_key L r v) of None \<Rightarrow> zero_analysis | Some a \<Rightarrow> a)
         \<lparr>an_Status := AnalysisFailed, an_ErrorMessage := m, an_UpdatedAt := at\<rparr>) (aw_analyses w)"
    and "aw_outbox w' = aw_outbox w"
    using assms by (auto simp: amem_FailAnalysis_def fresh_uuid_def andthen_def Let_def split: option.splits)
  have "aw_reports w' = (case m_get (aw_meta w) r of None \<Rightarrow> aw_reports w | Some (p, _) \<Rightarrow> m_set r (q p) (aw_reports w))"
    using assms by (auto simp: amem_FailAnalysis_def fresh_uuid_def andthen_def Let_def q_def u_def split: option.splits)
  then show "aw_reports w' = aw_reports w \<or> (\<exists>q. aw_reports w' = m_set r q (aw_reports w) \<and> ar_Status q = ReportFailed
           \<and> ar_RecordingID q = (case m_get (aw_reports w) r of None \<Rightarrow> r | Some old \<Rightarrow> ar_RecordingID old))"
    and "m_get (aw_meta w) r \<noteq> None \<Longrightarrow> \<exists>q. m_get (aw_reports w') r = Some q \<and> ar_Status q = ReportFailed"
    using q by (cases "m_get (aw_meta w) r"; force)+
qed

lemma amem_ok_ops:
  "preserves (amem_ok L) (amem_TryClaimRunning L r p v at before)"
  "preserves (amem_ok L) (amem_TouchRunning L r v at)"
  "preserves (amem_ok L) (amem_MarkGenerating L J r p c at)"
  "preserves (amem_ok L) (amem_CompleteAnalysis L a rep evs at)"
  "preserves (amem_ok L) (amem_FailAnalysis L r v m at)"
proof -
  show "preserves (amem_ok L) (amem_TryClaimRunning L r p v at before)"
  proof (rule preservesI)
    fix w assume ok: "amem_ok L w"
    obtain x w' where run: "amem_TryClaimRunning L r p v at before w = (x, w')" by fastforce
    show "amem_ok L (snd (amem_TryClaimRunning L r p v at before w))"
    proof (cases x)
      case (Inl e)
      then show ?thesis using amem_TryClaim_cases [OF run] ok run by simp
    next
      case (Inr a)
      have "amem_ok L (w\<lparr>aw_seq := Suc (aw_seq w)\<rparr>)" using ok by simp
      from amem_ok_set [OF this, of a r v] amem_TryClaim_cases [OF run] Inr run show ?thesis by fastforce
    qed
  qed
  show "preserves (amem_ok L) (amem_TouchRunning L r v at)"
    by (rule preservesI) (auto simp: amem_TouchRunning_def intro!: amem_ok_set split: option.splits)
  show "preserves (amem_ok L) (amem_MarkGenerating L J r p c at)"
  proof (rule preservesI)
    fix w assume ok: "amem_ok L w"
    have old: "ar_RecordingID q = r" if "m_get (aw_reports w) r = Some q" for q
      using ok that by (auto simp: amem_ok_defs)
    obtain rep w' where run: "amem_MarkGenerating L J r p c at w = (Inr rep, w')"
      by (simp add: amem_MarkGenerating_def fresh_uuid_def andthen_def Let_def)
    have "ar_RecordingID rep = r" "aw_reports w' = m_set r rep (aw_reports w)" "aw_analyses w' = aw_analyses w"
      using run old by (auto simp: amem_MarkGenerating_def fresh_uuid_def andthen_def Let_def zero_report_def split: option.splits)
    then show "amem_ok L (snd (amem_MarkGenerating L J r p c at w))"
      using ok run unfolding amem_ok_defs by (auto split: if_splits)
  qed
  show "preserves (amem_ok L) (amem_CompleteAnalysis L a rep evs at)"
  proof (rule preservesI)
    fix w assume ok: "amem_ok L w"
    let ?w = "w\<lparr>aw_analyses := m_set (amem_key L (an_RecordingID a) (an_PromptVersion a))
                       (a\<lparr>an_Status := AnalysisCompleted, an_UpdatedAt := at\<rparr>) (aw_analyses w)\<rparr>"
    have w1: "amem_ok L ?w" by (rule amem_ok_set [OF ok]) simp
    define q where "q = (case m_get (aw_reports w) (ar_RecordingID rep) of None \<Rightarrow> rep
       | Some old \<Rightarrow> rep\<lparr>ar_ID := ar_ID old, ar_CreatedAt := ar_CreatedAt old\<rparr>)\<lparr>ar_UpdatedAt := at\<rparr>"
    have q: "ar_RecordingID q = ar_RecordingID rep" by (simp add: q_def split: option.splits)
    have "snd (amem_CompleteAnalysis L a rep evs at w)
        = (?w\<lparr>aw_reports := m_set (ar_RecordingID rep) q (aw_reports ?w)\<rparr>)\<lparr>aw_outbox := aw_outbox w @ evs\<rparr>"
      by (simp add: amem_CompleteAnalysis_def Let_def q_def split: option.splits)
    then show "amem_ok L (snd (amem_CompleteAnalysis L a rep evs at w))"
      using amem_ok_report [OF w1 q] by (simp only: amem_view_updates)
  qed
  show "preserves (amem_ok L) (amem_FailAnalysis L r v m at)"
  proof (rule preservesI)
    fix w assume ok: "amem_ok L w"
    obtain x w' where run: "amem_FailAnalysis L r v m at w = (x, w')" by fastforce
    let ?a = "(case m_get (aw_analyses w) (amem_key L r v) of None \<Rightarrow> zero_analysis | Some a \<Rightarrow> a)
        \<lparr>an_Status := AnalysisFailed, an_ErrorMessage := m, an_UpdatedAt := at\<rparr>"
    have w1: "amem_ok L (w\<lparr>aw_analyses := m_set (amem_key L r v) ?a (aw_analyses w)\<rparr>)" by (rule amem_ok_set [OF ok]) simp
    have "reports_keyed (aw_reports w')"
      using amem_Fail_shape(3) [OF run] ok by (auto simp: amem_ok_defs split: option.splits if_splits)
    moreover have "analyses_keyed L (aw_analyses w')"
      using w1 unfolding amem_Fail_shape(1) [OF run] by (simp add: amem_ok_def)
    ultimately show "amem_ok L (snd (amem_FailAnalysis L r v m at w))"
      using ok run by (simp add: amem_ok_def)
  qed
qed

section \<open>The store keeps the contract\<close>

lemma amem_an_at: "m_get (aw_analyses w) (amem_key L r v) = amem_an L w (r, v)"
  by (simp add: amem_an_def)

lemma amem_claim_ok:
  assumes "amem_ok L w" "amem_TryClaimRunning L r p v at before w = (Inr a, w')"
  shows "amem_an L w' = (amem_an L w)((r, v) \<mapsto> a) \<and> an_Status a = AnalysisRunning \<and> an_UpdatedAt a = at
     \<and> amem_rp w' = amem_rp w \<and> aw_outbox w' = aw_outbox w
     \<and> (\<forall>b. amem_an L w (r, v) = Some b \<longrightarrow> an_Status b \<noteq> AnalysisCompleted
            \<and> (an_Status b = AnalysisRunning \<longrightarrow> an_UpdatedAt b < before))"
proof -
  have L: "golib_ok L" using assms(1) by (simp add: amem_ok_defs)
  from amem_TryClaim_cases [OF assms(2)] have w': "w' = (w\<lparr>aw_seq := Suc (aw_seq w)\<rparr>)
      \<lparr>aw_analyses := m_set (amem_key L r v) a (aw_analyses (w\<lparr>aw_seq := Suc (aw_seq w)\<rparr>))\<rparr>"
    and "an_Status a = AnalysisRunning" "an_UpdatedAt a = at"
    and "\<forall>b. amem_an L w (r, v) = Some b \<longrightarrow> an_Status b \<noteq> AnalysisCompleted
            \<and> (an_Status b = AnalysisRunning \<longrightarrow> an_UpdatedAt b < before)"
    by (simp_all add: amem_an_at)
  then show ?thesis using amem_an_set [OF L, of r v a "w\<lparr>aw_seq := Suc (aw_seq w)\<rparr>"] by (simp add: amem_rp_def)
qed

lemma amem_touch_any:
  assumes "amem_ok L w" "amem_TouchRunning L r v at w = (x, w')"
  shows "amem_rp w' = amem_rp w \<and> aw_outbox w' = aw_outbox w
     \<and> (amem_an L w' = amem_an L w \<or> (\<exists>b c. amem_an L w (r, v) = Some b \<and> an_Status b = AnalysisRunning
            \<and> an_Status c = AnalysisRunning \<and> amem_an L w' = (amem_an L w)((r, v) \<mapsto> c)))"
proof (cases "\<exists>a. amem_an L w (r, v) = Some a \<and> an_Status a = AnalysisRunning")
  case True
  then obtain a where a: "amem_an L w (r, v) = Some a" "an_Status a = AnalysisRunning" by blast
  then have "w' = w\<lparr>aw_analyses := m_set (amem_key L r v) (a\<lparr>an_UpdatedAt := at\<rparr>) (aw_analyses w)\<rparr>"
    using assms(2) by (auto simp: amem_TouchRunning_def amem_an_at split: if_splits)
  moreover have "golib_ok L" using assms(1) by (simp add: amem_ok_defs)
  ultimately have "amem_an L w' = (amem_an L w)((r, v) \<mapsto> a\<lparr>an_UpdatedAt := at\<rparr>)" "amem_rp w' = amem_rp w" "aw_outbox w' = aw_outbox w"
    by (simp_all add: amem_an_set amem_rp_def)
  then show ?thesis using a by (auto intro: exI [of _ "a\<lparr>an_UpdatedAt := at\<rparr>"])
next
  case False
  then have "w' = w" using assms(2) by (auto simp: amem_TouchRunning_def amem_an_at split: option.splits if_splits)
  then show ?thesis by simp
qed

lemma amem_mark_ok:
  "amem_MarkGenerating L J r p c at w = (Inr rep, w') \<Longrightarrow>
     amem_an L w' = amem_an L w \<and> amem_rp w' = (amem_rp w)(r \<mapsto> rep) \<and> ar_Status rep = ReportGenerating
     \<and> (\<exists>e. oe_Topic e = TopicAnalysisStarted \<and> aw_outbox w' = aw_outbox w @ [e])"
  by (auto simp: amem_MarkGenerating_def fresh_uuid_def andthen_def Let_def amem_an_def amem_rp_def)

lemma amem_complete_ok:
  assumes "amem_ok L w" "amem_CompleteAnalysis L a rep evs at w = (Inr (), w')"
  shows "aw_outbox w' = aw_outbox w @ evs
     \<and> (\<exists>b. amem_an L w' = (amem_an L w)((an_RecordingID a, an_PromptVersion a) \<mapsto> b) \<and> an_Status b = AnalysisCompleted \<and> same_contents (\<lambda>b. b) b a)
     \<and> (\<exists>q. amem_rp w' = (amem_rp w)(ar_RecordingID rep \<mapsto> q) \<and> ar_Title q = ar_Title rep \<and> ar_Summary q = ar_Summary rep
            \<and> ar_Steps q = ar_Steps rep \<and> (ar_Status rep = ReportReady \<longrightarrow> ar_Status q = ReportReady))"
proof -
  let ?b = "a\<lparr>an_Status := AnalysisCompleted, an_UpdatedAt := at\<rparr>"
  define q where "q = (case m_get (aw_reports w) (ar_RecordingID rep) of None \<Rightarrow> rep
     | Some old \<Rightarrow> rep\<lparr>ar_ID := ar_ID old, ar_CreatedAt := ar_CreatedAt old\<rparr>)\<lparr>ar_UpdatedAt := at\<rparr>"
  have q: "ar_RecordingID q = ar_RecordingID rep" "ar_Title q = ar_Title rep" "ar_Summary q = ar_Summary rep"
    "ar_Steps q = ar_Steps rep" "ar_Status q = ar_Status rep"
    by (simp_all add: q_def split: option.splits)
  have w': "w' = w\<lparr>aw_analyses := m_set (amem_key L (an_RecordingID a) (an_PromptVersion a)) ?b (aw_analyses w),
      aw_reports := m_set (ar_RecordingID rep) q (aw_reports w), aw_outbox := aw_outbox w @ evs\<rparr>"
    using assms(2) by (auto simp: amem_CompleteAnalysis_def Let_def q_def split: option.splits)
  have "golib_ok L" using assms(1) by (simp add: amem_ok_defs)
  from amem_an_set [OF this, of "an_RecordingID a" "an_PromptVersion a" ?b w]
  have an: "amem_an L w' = (amem_an L w)((an_RecordingID a, an_PromptVersion a) \<mapsto> ?b)"
    unfolding w' by (simp only: amem_view_updates)
  have rp: "amem_rp w' = (amem_rp w)(ar_RecordingID rep \<mapsto> q)" by (simp add: w' amem_rp_def fun_eq_iff)
  have ob: "aw_outbox w' = aw_outbox w @ evs" by (simp add: w')
  show ?thesis
  proof (intro conjI)
    show "\<exists>b. amem_an L w' = (amem_an L w)((an_RecordingID a, an_PromptVersion a) \<mapsto> b) \<and> an_Status b = AnalysisCompleted \<and> same_contents (\<lambda>b. b) b a"
      by (rule exI [of _ ?b]) (simp add: an same_contents_def)
    show "\<exists>q. amem_rp w' = (amem_rp w)(ar_RecordingID rep \<mapsto> q) \<and> ar_Title q = ar_Title rep \<and> ar_Summary q = ar_Summary rep
            \<and> ar_Steps q = ar_Steps rep \<and> (ar_Status rep = ReportReady \<longrightarrow> ar_Status q = ReportReady)"
      by (rule exI [of _ q]) (simp add: rp q)
  qed (rule ob)
qed

lemma amem_fail_any:
  assumes "amem_ok L w" "amem_FailAnalysis L r v m at w = (x, w')"
  shows "aw_outbox w' = aw_outbox w \<and> (\<forall>k. k \<noteq> (r, v) \<longrightarrow> amem_an L w' k = amem_an L w k)
     \<and> (\<forall>q. q \<noteq> r \<longrightarrow> amem_rp w' q = amem_rp w q)
     \<and> (\<exists>a. amem_an L w' (r, v) = Some a \<and> an_Status a = AnalysisFailed)"
proof -
  let ?a = "(case m_get (aw_analyses w) (amem_key L r v) of None \<Rightarrow> zero_analysis | Some a \<Rightarrow> a)
      \<lparr>an_Status := AnalysisFailed, an_ErrorMessage := m, an_UpdatedAt := at\<rparr>"
  have L: "golib_ok L" using assms(1) by (simp add: amem_ok_defs)
  have "amem_an L w' = (amem_an L w)((r, v) \<mapsto> ?a)"
    using amem_an_set [OF L, of r v ?a w] amem_Fail_shape(1) [OF assms(2)] by (simp add: amem_an_def)
  moreover have "\<forall>q. q \<noteq> r \<longrightarrow> amem_rp w' q = amem_rp w q"
    using amem_Fail_shape(3) [OF assms(2)] by (auto simp: amem_rp_def)
  ultimately show ?thesis using amem_Fail_shape(2) [OF assms(2)] by simp
qed

interpretation amem: analysis_contract "amem_store L J" "amem_ok L" "amem_an L" amem_rp aw_outbox "\<lambda>b. b" for L J
proof
  fix r p v at before c a rep evs m
  show "preserves (amem_ok L) (as_TryClaimRunning (amem_store L J) r p v at before)"
    "preserves (amem_ok L) (as_TouchRunning (amem_store L J) r v at)"
    "preserves (amem_ok L) (as_MarkGenerating (amem_store L J) r p c at)"
    "preserves (amem_ok L) (as_CompleteAnalysis (amem_store L J) a rep evs at)"
    "preserves (amem_ok L) (as_FailAnalysis (amem_store L J) r v m at)"
    by (simp_all add: amem_store_def amem_ok_ops)
next
  fix r v
  show "keeps (\<lambda>s. (amem_ok L s, amem_an L s, amem_rp s, aw_outbox s)) (as_GetAnalysis (amem_store L J) r v)"
    "keeps (\<lambda>s. (amem_ok L s, amem_an L s, amem_rp s, aw_outbox s)) (as_GetReportByRecording (amem_store L J) r)"
    "keeps (\<lambda>s. (amem_ok L s, amem_an L s, amem_rp s, aw_outbox s)) (as_GetRecordingMeta (amem_store L J) r)"
    by (simp_all add: keeps_def amem_store_def amem_GetAnalysis_def amem_GetReportByRecording_def amem_GetRecordingMeta_def)
next
  fix s r p v at before e s' assume "as_TryClaimRunning (amem_store L J) r p v at before s = (Inl e, s')"
  then show "amem_an L s' = amem_an L s \<and> amem_rp s' = amem_rp s \<and> aw_outbox s' = aw_outbox s"
    using amem_TryClaim_cases [of L r p v at before s "Inl e" s'] by (simp add: amem_store_def)
next
  fix s r p c at e s' assume "as_MarkGenerating (amem_store L J) r p c at s = (Inl e, s')"
  then show "amem_an L s' = amem_an L s \<and> amem_rp s' = amem_rp s \<and> aw_outbox s' = aw_outbox s"
    by (simp add: amem_store_def amem_MarkGenerating_def fresh_uuid_def andthen_def Let_def)
next
  fix s a rep evs at e s' assume "as_CompleteAnalysis (amem_store L J) a rep evs at s = (Inl e, s')"
  then show "amem_an L s' = amem_an L s \<and> amem_rp s' = amem_rp s \<and> aw_outbox s' = aw_outbox s"
    by (simp add: amem_store_def amem_CompleteAnalysis_def Let_def)
next
  fix s r v a s' assume "as_GetAnalysis (amem_store L J) r v s = (Inr a, s')"
  then show "amem_an L s (r, v) = Some a"
    by (simp add: amem_store_def amem_GetAnalysis_def amem_an_def split: option.splits)
next
  fix s r v s' assume "as_GetAnalysis (amem_store L J) r v s = (Inl (ErrNotFound AI), s')"
  then show "amem_an L s (r, v) = None"
    by (simp add: amem_store_def amem_GetAnalysis_def amem_an_def split: option.splits)
next
  fix s r v a assume "amem_ok L s" "amem_an L s (r, v) = Some a" "an_Status a = AnalysisCompleted"
  then show "an_RecordingID a = r \<and> an_PromptVersion a = v" by (auto simp: amem_ok_defs amem_an_def)
next
  fix s r rep s' assume "amem_ok L s" "as_GetReportByRecording (amem_store L J) r s = (Inr rep, s')"
  then show "amem_rp s r = Some rep \<and> ar_RecordingID rep = r"
    by (auto simp: amem_store_def amem_GetReportByRecording_def amem_rp_def amem_ok_defs split: option.splits)
next
  fix s r p v at before a s' assume "amem_ok L s" "as_TryClaimRunning (amem_store L J) r p v at before s = (Inr a, s')"
  then show "amem_an L s' = (amem_an L s)((r, v) \<mapsto> a) \<and> an_Status a = AnalysisRunning \<and> amem_rp s' = amem_rp s
     \<and> aw_outbox s' = aw_outbox s \<and> (\<forall>b. amem_an L s (r, v) = Some b \<longrightarrow> an_Status b \<noteq> AnalysisCompleted
            \<and> (an_Status b = AnalysisRunning \<longrightarrow> an_UpdatedAt b < before))"
    using amem_claim_ok [of L s r p v at before a s'] by (simp add: amem_store_def)
next
  fix s r v at x s' assume "amem_ok L s" "as_TouchRunning (amem_store L J) r v at s = (x, s')"
  then show "amem_rp s' = amem_rp s \<and> aw_outbox s' = aw_outbox s
     \<and> (amem_an L s' = amem_an L s \<or> (\<exists>b c. amem_an L s (r, v) = Some b \<and> an_Status b = AnalysisRunning
            \<and> an_Status c = AnalysisRunning \<and> amem_an L s' = (amem_an L s)((r, v) \<mapsto> c)))"
    using amem_touch_any by (simp add: amem_store_def)
next
  fix s r p c at rep s' assume "as_MarkGenerating (amem_store L J) r p c at s = (Inr rep, s')"
  then show "amem_an L s' = amem_an L s \<and> amem_rp s' = (amem_rp s)(r \<mapsto> rep) \<and> ar_Status rep = ReportGenerating
     \<and> (\<exists>e. oe_Topic e = TopicAnalysisStarted \<and> aw_outbox s' = aw_outbox s @ [e])"
    using amem_mark_ok by (simp add: amem_store_def)
next
  fix s a rep evs at s' assume "amem_ok L s" "as_CompleteAnalysis (amem_store L J) a rep evs at s = (Inr (), s')"
  then show "aw_outbox s' = aw_outbox s @ evs
     \<and> (\<exists>b. amem_an L s' = (amem_an L s)((an_RecordingID a, an_PromptVersion a) \<mapsto> b) \<and> an_Status b = AnalysisCompleted \<and> same_contents (\<lambda>b. b) b a)
     \<and> (\<exists>q. amem_rp s' = (amem_rp s)(ar_RecordingID rep \<mapsto> q) \<and> ar_Title q = ar_Title rep \<and> ar_Summary q = ar_Summary rep
            \<and> ar_Steps q = ar_Steps rep \<and> (ar_Status rep = ReportReady \<longrightarrow> ar_Status q = ReportReady))"
    using amem_complete_ok [of L s a rep evs at s'] by (simp add: amem_store_def)
next
  fix s r v m at x s' assume "amem_ok L s" "as_FailAnalysis (amem_store L J) r v m at s = (x, s')"
  then show "aw_outbox s' = aw_outbox s \<and> (\<forall>k. k \<noteq> (r, v) \<longrightarrow> amem_an L s' k = amem_an L s k)
     \<and> (\<forall>q. q \<noteq> r \<longrightarrow> amem_rp s' q = amem_rp s q)
     \<and> (amem_an L s' (r, v) = amem_an L s (r, v) \<or> (\<exists>a. amem_an L s' (r, v) = Some a \<and> an_Status a = AnalysisFailed))"
    using amem_fail_any [of L s r v m at x s'] by (simp add: amem_store_def)
qed (rule refl)

section \<open>Workers\<close>

text \<open>
  What others do while a job waits: claim, keep their lease, mark, publish a checked result, or give up.
\<close>

fun amem_step :: "'z golib_scheme \<Rightarrow> ai_codec \<Rightarrow> ai_step \<Rightarrow> ai_world \<Rightarrow> ai_world" where
  "amem_step L J (StepClaim r p at cut_off) w = snd (amem_TryClaimRunning L r p PromptVersion at cut_off w)"
| "amem_step L J (StepTouch r at) w = snd (amem_TouchRunning L r PromptVersion at w)"
| "amem_step L J (StepMark r p c at) w = snd (amem_MarkGenerating L J r p c at w)"
| "amem_step L J (StepPublish r p raw at) w =
     (case checked_result raw of
        Inl e \<Rightarrow> w
      | Inr res \<Rightarrow>
          (case cd_steps J (res_Steps res) of
             Inl e \<Rightarrow> w
           | Inr st \<Rightarrow>
               let u = word_of_nat (aw_seq w); rep = ready_report u r p res st at
               in snd (amem_CompleteAnalysis L (completed_analysis u r p res st at) rep
                    (build_outbox_events L J rep (uuid_string L r) (uuid_string L p) [] at) at w)))"
| "amem_step L J (StepFail r m at) w = snd (amem_FailAnalysis L r PromptVersion m at w)"

definition amem_pause :: "'z golib_scheme \<Rightarrow> ai_codec \<Rightarrow> (ai_step \<Rightarrow> bool) \<Rightarrow> ai_world \<Rightarrow> ai_world" where
  "amem_pause L J who w =
     (case aw_script w of
        [] \<Rightarrow> w
      | ps # rest \<Rightarrow> fold (amem_step L J) (filter who ps) (w\<lparr>aw_script := rest\<rparr>))"

text \<open>\<open>clock n\<close> is what the \<open>n\<close>-th reading shows; \<open>who\<close> selects the steps of the script that happen.\<close>

definition amem_env :: "'z golib_scheme \<Rightarrow> ai_codec \<Rightarrow> (nat \<Rightarrow> go_time) \<Rightarrow> (ai_step \<Rightarrow> bool) \<Rightarrow> ai_world ai_env" where
  "amem_env L J clock who =
     \<lparr>ae_now = (\<lambda>w. (clock (aw_seq w), w\<lparr>aw_seq := Suc (aw_seq w)\<rparr>)),
      ae_uuid = (\<lambda>w. (word_of_nat (aw_seq w), w\<lparr>aw_seq := Suc (aw_seq w)\<rparr>)),
      ae_pause = amem_pause L J who\<rparr>"

definition heartbeats :: "ai_step \<Rightarrow> bool" where
  "heartbeats p = (case p of StepTouch r at \<Rightarrow> True | _ \<Rightarrow> False)"

definition anybody :: "ai_step \<Rightarrow> bool" where
  "anybody p = True"

text \<open>The service over this store, with an analyzer and a frame reader that only read.\<close>

definition amem_service ::
    "'z golib_scheme \<Rightarrow> ai_codec \<Rightarrow> (analysis_input \<Rightarrow> err + analysis_result) \<Rightarrow> (string \<Rightarrow> int \<Rightarrow> err + frame_input) option
       \<Rightarrow> int \<Rightarrow> duration \<Rightarrow> duration \<Rightarrow> ai_world ai_service" where
  "amem_service L J analyze read maxFrames lease renew =
     with_cache_invalidator (Some (\<lambda>u w. w\<lparr>aw_invalidated := u # aw_invalidated w\<rparr>))
       (with_frame_reader (map_option (\<lambda>g key n. lift_sum (g key n)) read) 0
         (ai_service_new (amem_store L J) (\<lambda>inp. lift_sum (analyze inp)) maxFrames lease renew))"

lemma amem_service_simps [simp]:
  "as_store (amem_service L J an rd m lease renew) = amem_store L J"
  "as_analyzer (amem_service L J an rd m lease renew) = (\<lambda>inp. lift_sum (an inp))"
  "as_frames (amem_service L J an rd m lease renew) = map_option (\<lambda>g key n. lift_sum (g key n)) rd"
  "as_cache (amem_service L J an rd m lease renew) = Some (\<lambda>u w. w\<lparr>aw_invalidated := u # aw_invalidated w\<rparr>)"
  by (simp_all add: amem_service_def with_cache_invalidator_def with_frame_reader_def ai_service_new_def Let_def)

interpretation amem_job: ai_job "amem_store L J" "amem_ok L" "amem_an L" amem_rp aw_outbox "\<lambda>b. b"
    "amem_service L J an rd m lease renew" "amem_env L J clock who" L J
  for L J an rd m lease renew clock who
proof
  fix u
  show "keeps (\<lambda>s. (amem_ok L s, amem_an L s, amem_rp s, aw_outbox s)) (ai_now (amem_env L J clock who))"
    "keeps (\<lambda>s. (amem_ok L s, amem_an L s, amem_rp s, aw_outbox s)) (ai_uuid (amem_env L J clock who))"
    "keeps (\<lambda>s. (amem_ok L s, amem_an L s, amem_rp s, aw_outbox s)) (ai_invalidateID (amem_service L J an rd m lease renew) u)"
    by (simp_all add: keeps_def amem_env_def ai_now_def ai_uuid_def ai_invalidateID_def)
qed (auto simp: keeps_def)

lemma amem_step_ok: "amem_ok L w \<Longrightarrow> amem_ok L (amem_step L J p w)"
  using amem_ok_ops [of L] by (cases p) (auto simp: preserves_def Let_def split: sum.splits)

lemma amem_step_valid:
  assumes "amem_ok L w" "stored_valid J (amem_an L w)"
  shows "stored_valid J (amem_an L (amem_step L J p w))"
proof (cases p)
  case (StepClaim r q at before)
  show ?thesis using amem.valid_steps(1) [OF assms(1), unfolded stored_as_is, OF assms(2), of J r q PromptVersion at before] StepClaim
    by (simp add: amem_store_def prod.collapse) (metis prod.collapse)
next
  case (StepTouch r at)
  show ?thesis using amem.valid_steps(2) [OF assms(1), unfolded stored_as_is, OF assms(2), of J r PromptVersion at] StepTouch
    by (simp add: amem_store_def) (metis prod.collapse)
next
  case (StepMark r q c at)
  show ?thesis using amem.valid_steps(3) [OF assms(1), unfolded stored_as_is, OF assms(2), of J r q c at] StepMark
    by (simp add: amem_store_def) (metis prod.collapse)
next
  case (StepFail r m at)
  show ?thesis using amem.valid_steps(4) [OF assms(1), unfolded stored_as_is, OF assms(2), of J r PromptVersion m at] StepFail
    by (simp add: amem_store_def) (metis prod.collapse)
next
  case (StepPublish r q raw at)
  show ?thesis
  proof (cases "\<exists>res st. checked_result raw = Inr res \<and> cd_steps J (res_Steps res) = Inr st")
    case True
    then obtain res st where res: "checked_result raw = Inr res" "cd_steps J (res_Steps res) = Inr st" by blast
    let ?a = "completed_analysis (word_of_nat (aw_seq w)) r q res st at"
    have "result_as (\<lambda>b. b) J ?a"
      using checked_result_valid [OF res(1)] res(2) by (auto simp: result_as_def completed_analysis_def)
    note published = amem.valid_complete [OF assms(1) _ prod.collapse [symmetric] this, of J, unfolded stored_as_is, OF assms(2)]
    show ?thesis using published StepPublish res by (simp add: amem_store_def Let_def)
  next
    case False
    then show ?thesis using StepPublish assms(2) by (auto split: sum.splits)
  qed
qed

lemma amem_pause_valid:
  assumes "amem_ok L w" "stored_valid J (amem_an L w)"
  shows "amem_ok L (amem_pause L J who w) \<and> stored_valid J (amem_an L (amem_pause L J who w))"
proof -
  have "amem_ok L (fold (amem_step L J) ps w) \<and> stored_valid J (amem_an L (fold (amem_step L J) ps w))"
    if "amem_ok L w" "stored_valid J (amem_an L w)" for ps w
    using that by (induction ps arbitrary: w) (auto simp: amem_step_ok amem_step_valid)
  then show ?thesis using assms by (auto simp: amem_pause_def split: list.splits)
qed

lemma amem_beats:
  assumes "amem_ok L w"
  shows "amem_ok L (amem_pause L J heartbeats w) \<and> amem_rp (amem_pause L J heartbeats w) = amem_rp w
     \<and> aw_outbox (amem_pause L J heartbeats w) = aw_outbox w
     \<and> (\<forall>k a. amem_an L w k = Some a \<and> an_Status a = AnalysisCompleted \<longrightarrow> amem_an L (amem_pause L J heartbeats w) k = Some a)"
proof -
  have fold: "amem_ok L (fold (amem_step L J) ps w) \<and> amem_rp (fold (amem_step L J) ps w) = amem_rp w
     \<and> aw_outbox (fold (amem_step L J) ps w) = aw_outbox w
     \<and> (\<forall>k a. amem_an L w k = Some a \<and> an_Status a = AnalysisCompleted \<longrightarrow> amem_an L (fold (amem_step L J) ps w) k = Some a)"
    if "amem_ok L w" "\<forall>p\<in>set ps. heartbeats p" for ps w
    using that
  proof (induction ps arbitrary: w)
    case (Cons p ps)
    then obtain r at where p: "p = StepTouch r at" by (auto simp: heartbeats_def split: ai_step.splits)
    obtain x w1 where t: "amem_TouchRunning L r PromptVersion at w = (x, w1)" by fastforce
    have ok1: "amem_ok L w1" using amem_step_ok [OF Cons.prems(1), of J p] p t by simp
    note tt = amem_touch_any [OF Cons.prems(1) t]
    have "\<forall>k a. amem_an L w k = Some a \<and> an_Status a = AnalysisCompleted \<longrightarrow> amem_an L w1 k = Some a"
      using tt by (auto split: if_splits)
    then show ?case using Cons.IH [OF ok1] Cons.prems(2) p t tt by simp
  qed simp
  show ?thesis
  proof (cases "aw_script w")
    case Nil
    then show ?thesis using assms by (simp add: amem_pause_def)
  next
    case (Cons ps rest)
    have "amem_ok L (w\<lparr>aw_script := rest\<rparr>)" using assms by simp
    from fold [OF this, of "filter heartbeats ps"] Cons show ?thesis by (simp add: amem_pause_def)
  qed
qed

lemma handle_bad_id:
  "uuid_parse L (fe_RecordingID evt) = Inl e \<Longrightarrow>
     ai_HandleFramesExtracted L J S E evt w = (Inl (ErrWrap ''recording_id: '' e), w)"
  by (simp add: ai_HandleFramesExtracted_def andthen_def)

text \<open>A delivery that finds the recording and nothing else, and gets a valid answer, succeeds.\<close>

lemma succeeds_andthen:
  "\<exists>a. fst (m w) = Inr a \<Longrightarrow> (\<And>a w'. m w = (Inr a, w') \<Longrightarrow> fst (f a w') = Inr b) \<Longrightarrow> fst (andthen m f w) = Inr b"
  by (cases "m w") (auto simp: andthen_def)

lemma amem_never_fails:
  "\<exists>a. fst (ai_now E w) = Inr a" "\<exists>a. fst (ai_uuid E w) = Inr a" "\<exists>a. fst (attempt m w) = Inr a"
  "\<exists>a. fst (while_working E (as_CompleteAnalysis (amem_store L J) an rep evs at) w) = Inr a"
  "\<exists>a. fst (as_MarkGenerating (amem_store L J) r p c at w) = Inr a"
  "\<exists>a. fst (ai_report_id S E r w) = Inr a"
proof -
  show "\<exists>a. fst (ai_now E w) = Inr a" "\<exists>a. fst (ai_uuid E w) = Inr a" "\<exists>a. fst (attempt m w) = Inr a"
    by (simp_all add: ai_now_def ai_uuid_def attempt_def split: prod.splits)
  show "\<exists>a. fst (while_working E (as_CompleteAnalysis (amem_store L J) an rep evs at) w) = Inr a"
    by (simp add: while_working_def amem_store_def amem_CompleteAnalysis_def Let_def)
  show "\<exists>a. fst (as_MarkGenerating (amem_store L J) r p c at w) = Inr a"
    by (simp add: amem_store_def amem_MarkGenerating_def fresh_uuid_def andthen_def Let_def)
  show "\<exists>a. fst (ai_report_id S E r w) = Inr a"
    by (simp add: ai_report_id_def andthen_def attempt_def ai_uuid_def split: prod.splits)
qed

lemma amem_publishes:
  assumes "cd_steps J (res_Steps res) = Inr st"
  shows "fst (ai_publish L J (amem_service L J an rd m lease renew) E r p evt res w) = Inr ()"
proof -
  have tail: "fst ((case x of Inl e \<Rightarrow> ret () | Inr rep' \<Rightarrow> ai_invalidateID (amem_service L J an rd m lease renew) (ar_ID rep')) w) = Inr ()"
    for x :: "err + ai_report" and w
    by (cases x) (simp_all add: ai_invalidateID_def)
  show ?thesis
    unfolding ai_publish_def amem_service_simps Let_def
    by (intro succeeds_andthen amem_never_fails tail) (simp add: assms)
qed

lemma amem_handles:
  assumes ids: "uuid_parse L (fe_RecordingID evt) = Inr r" "uuid_parse L (fe_ProjectID evt) = Inr p"
    and found: "m_get (aw_meta w) r \<noteq> None" "amem_an L w (r, PromptVersion) = None"
    and answer: "\<And>inp. an inp = Inr raw" "checked_result raw = Inr res" "cd_steps J (res_Steps res) = Inr st"
  shows "fst (ai_HandleFramesExtracted L J (amem_service L J an None m lease renew) (amem_env L J clock who) evt w) = Inr ()"
proof -
  let ?S = "amem_service L J an None m lease renew" and ?E = "amem_env L J clock who"
  have analyze: "fst (ai_analyze L J ?S ?E r p evt md w) = Inr ()" for md w
    unfolding ai_analyze_def Let_def
    by (intro succeeds_andthen amem_publishes)
      (auto simp: or_give_up_def ai_loadFrames_def while_working_def answer)
  obtain q md where pm: "m_get (aw_meta w) r = Some (q, md)" using found(1) by auto
  have get: "amem_GetAnalysis L r PromptVersion w = (Inl (ErrNotFound AI), w)"
    using found(2) by (simp add: amem_GetAnalysis_def amem_an_def)
  have claim: "\<exists>a. fst (amem_TryClaimRunning L r p PromptVersion at before (w\<lparr>aw_seq := n\<rparr>)) = Inr a" for at before n
    using found(2) by (simp add: amem_TryClaimRunning_def fresh_uuid_def andthen_def amem_an_def Let_def)
  have marked: "fst (andthen (as_MarkGenerating (amem_store L J) r p c at) (\<lambda>_. ai_analyze L J ?S ?E r p evt md) w) = Inr ()" for c at w
    by (intro succeeds_andthen amem_never_fails analyze)
  have "fst (ai_claim_and_analyze L J ?S ?E r p evt w) = Inr ()"
  proof -
    obtain a w' where a: "amem_TryClaimRunning L r p PromptVersion (clock (aw_seq w)) (clock (aw_seq w) - as_claimLease ?S)
        (w\<lparr>aw_seq := Suc (aw_seq w)\<rparr>) = (Inr a, w')"
      using claim by (metis prod.collapse)
    then show ?thesis using pm marked
      by (simp add: ai_claim_and_analyze_def andthen_Inr_step attempt_def amem_store_def amem_GetRecordingMeta_def ai_now_def amem_env_def)
  qed
  then show ?thesis
    by (simp add: ai_HandleFramesExtracted_def andthen_Inr_step attempt_def amem_store_def get ids)
qed

section \<open>A recording to analyze\<close>

definition sample_codec :: ai_codec where
  "sample_codec = \<lparr>cd_started = (\<lambda>e. Inr ''started''), cd_completed = (\<lambda>e. Inr (''completed '' @ ce_ReportID e)),
     cd_report = (\<lambda>e. Inr (''report '' @ re_ReportID e)), cd_steps = (\<lambda>ss. Inr (concat (map (\<lambda>s. s @ '','') ss))),
     cd_quote = (\<lambda>s. s)\<rparr>"

definition sample_frames :: frames_event where
  "sample_frames = \<lparr>fe_SchemaVersion = 1, fe_RecordingID = ''9'', fe_ProjectID = ''7'', fe_FrameKeys = [''f0'', ''f1'', ''f2''],
     fe_ThumbKey = ''f0'', fe_DurationMS = 2000, fe_CorrelationID = ''c'', fe_OccurredAt = 100\<rparr>"

definition sample_answer :: analysis_result where
  "sample_answer = \<lparr>res_Title = '' Crash '', res_Summary = ''It crashes'', res_Steps = [''open'', '' '', ''click''],
     res_Provider = ''mock'', res_Model = ''m''\<rparr>"

definition sample_ai :: "ai_world ai_service" where
  "sample_ai = amem_service sample_lib sample_codec (\<lambda>inp. Inr sample_answer) None 5 1000 100"

definition sample_store :: ai_world where
  "sample_store = amem_new\<lparr>aw_meta := [(9, (7, ''{}''))], aw_script := [[StepTouch 9 150]]\<rparr>"

lemma sample_store_ok: "amem_ok sample_lib sample_store"
  using sample_lib_ok by (simp add: sample_store_def amem_new_def amem_ok_defs)

lemma sample_frames_id: "uuid_parse sample_lib (fe_RecordingID sample_frames) = Inr 9"
  by code_simp

lemma sample_answer_checked: "\<exists>res. checked_result sample_answer = Inr res"
proof -
  have "(case checked_result sample_answer of Inr r \<Rightarrow> True | Inl e \<Rightarrow> False)" by code_simp
  then show ?thesis by (cases "checked_result sample_answer") auto
qed

section \<open>Properties\<close>

text \<open>
  only valid results are ever stored. From an empty store, after any deliveries and whatever other workers
  do while each job waits, every completed analysis has a title, a summary and at least one step, none of them
  blank or padded, whatever the analyzer answered.
\<close>

theorem only_valid_results_are_stored:
  assumes "golib_ok L"
  shows "stored_valid J (amem_an L (fold (\<lambda>evt w. snd (ai_HandleFramesExtracted L J (amem_service L J an rd m lease renew)
      (amem_env L J clock anybody) evt w)) evts (amem_new\<lparr>aw_meta := metas, aw_script := script\<rparr>)))"
proof -
  let ?h = "\<lambda>evt w. ai_HandleFramesExtracted L J (amem_service L J an rd m lease renew) (amem_env L J clock anybody) evt w"
  have pause: "amem_ok L w \<Longrightarrow> stored_valid J (amem_an L w) \<Longrightarrow>
      amem_ok L (ae_pause (amem_env L J clock anybody) w) \<and> stored_valid J (amem_an L (ae_pause (amem_env L J clock anybody) w))" for w
    using amem_pause_valid by (simp add: amem_env_def)
  have step: "amem_ok L (snd (?h evt w)) \<and> stored_valid J (amem_an L (snd (?h evt w)))"
    if w: "amem_ok L w" "stored_valid J (amem_an L w)" for evt w
  proof (cases "uuid_parse L (fe_RecordingID evt)")
    case (Inl e)
    then show ?thesis using w by (simp add: handle_bad_id)
  next
    case (Inr r)
    obtain x w' where run: "?h evt w = (x, w')" by fastforce
    show ?thesis using amem_job.handled_valid [unfolded stored_as_is, OF pause w Inr run] run by simp
  qed
  have "amem_ok L (fold (\<lambda>evt w. snd (?h evt w)) evts w) \<and> stored_valid J (amem_an L (fold (\<lambda>evt w. snd (?h evt w)) evts w))"
    if "amem_ok L w" "stored_valid J (amem_an L w)" for w
    using that by (induction evts arbitrary: w) (auto simp: step)
  moreover have "amem_ok L (amem_new\<lparr>aw_meta := metas, aw_script := script\<rparr>)"
    "stored_valid J (amem_an L (amem_new\<lparr>aw_meta := metas, aw_script := script\<rparr>))"
    using assms by (simp_all add: amem_new_def amem_ok_defs stored_valid_def amem_an_def)
  ultimately show ?thesis by blast
qed

theorem only_valid_results_are_stored_witness:
  "stored_valid sample_codec (amem_an sample_lib (fold (\<lambda>evt w. snd (ai_HandleFramesExtracted sample_lib sample_codec
      (amem_service sample_lib sample_codec (\<lambda>inp. Inr sample_answer) None 5 1000 100)
      (amem_env sample_lib sample_codec int anybody) evt w)) [sample_frames, sample_frames]
      (amem_new\<lparr>aw_meta := [(9, (7, ''{}''))], aw_script := []\<rparr>)))"
  by (rule only_valid_results_are_stored [OF sample_lib_ok])



text \<open>
  an analysis lease excludes other workers. While a running analysis was touched less than a lease ago by
  every reading of the clock, \<open>HandleFramesExtracted\<close> fails and changes no analysis, report or event.
\<close>

theorem running_analysis_excludes_others:
  assumes "amem_ok L w" "uuid_parse L (fe_RecordingID evt) = Inr r"
    and "amem_an L w (r, PromptVersion) = Some a" "an_Status a = AnalysisRunning"
    and "\<forall>n. clock n - as_claimLease (amem_service L J an rd m lease renew) \<le> an_UpdatedAt a"
    and "ai_HandleFramesExtracted L J (amem_service L J an rd m lease renew) (amem_env L J clock anybody) evt w = (x, w')"
  shows "x \<noteq> Inr () \<and> amem_an L w' = amem_an L w \<and> amem_rp w' = amem_rp w \<and> aw_outbox w' = aw_outbox w"
  by (rule amem_job.handled_in_flight [OF assms(1-4) _ assms(6)]) (use assms(5) in \<open>simp add: amem_env_def\<close>)

theorem running_analysis_excludes_others_witness:
  "\<exists>w'. ai_HandleFramesExtracted sample_lib sample_codec sample_ai (amem_env sample_lib sample_codec (\<lambda>n. 600) anybody)
       sample_frames (amem_SeedRunning sample_lib 9 7 PromptVersion 500 sample_store) = (Inl ErrAnalysisInFlight, w')
     \<and> amem_rp w' = amem_rp (amem_SeedRunning sample_lib 9 7 PromptVersion 500 sample_store)"
proof -
  let ?w = "amem_SeedRunning sample_lib 9 7 PromptVersion 500 sample_store"
  let ?run = "ai_HandleFramesExtracted sample_lib sample_codec sample_ai (amem_env sample_lib sample_codec (\<lambda>n. 600) anybody)
       sample_frames ?w"
  have e: "fst ?run = Inl ErrAnalysisInFlight" by code_simp
  then obtain w' where run: "?run = (Inl ErrAnalysisInFlight, w')" by (metis prod.collapse)
  have ok: "amem_ok sample_lib ?w"
    using amem_ok_set [OF sample_store_ok, of "amem_running (word_of_nat (aw_seq sample_store)) 9 7 PromptVersion 500 None" 9 PromptVersion]
    unfolding amem_SeedRunning_def by (simp add: amem_ok_def)
  obtain a where a: "amem_an sample_lib ?w (9, PromptVersion) = Some a" "an_Status a = AnalysisRunning" "an_UpdatedAt a = 500"
    by (simp add: amem_an_def amem_SeedRunning_def)
  have "as_claimLease sample_ai = 1000" by code_simp
  then have "\<forall>n :: nat. 600 - as_claimLease (amem_service sample_lib sample_codec (\<lambda>inp. Inr sample_answer) None 5 1000 100) \<le> an_UpdatedAt a"
    using a(3) by (simp add: sample_ai_def)
  from running_analysis_excludes_others [OF ok sample_frames_id a(1,2) this run [unfolded sample_ai_def]] run
  show ?thesis by blast
qed



text \<open>
  giving up is not tied to the claim. A worker that gives up, however late, leaves the analysis \<open>failed\<close>
  and the report \<open>FAILED\<close>, also when another worker has completed both and published its events meanwhile.
\<close>

theorem late_failure_overwrites_completed:
  assumes "amem_ok L w" "m_get (aw_meta w) r \<noteq> None"
    and "amem_FailAnalysis L r PromptVersion (err_msg e) at w = (x, w')"
  shows "(\<exists>a. amem_an L w' (r, PromptVersion) = Some a \<and> an_Status a = AnalysisFailed)
     \<and> (\<exists>q. amem_rp w' r = Some q \<and> ar_Status q = ReportFailed) \<and> aw_outbox w' = aw_outbox w"
  using amem_fail_any [OF assms(1,3)] amem_Fail_shape(4) [OF assms(3,2)] by (simp add: amem_rp_def)

text \<open>One worker's analyzer fails after its lease ran out and another worker published.\<close>

definition overtaken :: ai_world where
  "overtaken = amem_step sample_lib sample_codec (StepPublish 9 7 sample_answer 900) sample_store"

theorem late_failure_overwrites_completed_witness:
  "\<exists>x w'. amem_FailAnalysis sample_lib 9 PromptVersion (err_msg (ErrOther ''timeout'')) 950 overtaken = (x, w')
     \<and> (\<exists>a. amem_an sample_lib overtaken (9, PromptVersion) = Some a \<and> an_Status a = AnalysisCompleted)
     \<and> (\<exists>q. amem_rp w' 9 = Some q \<and> ar_Status q = ReportFailed) \<and> length (aw_outbox w') = 2"
proof -
  obtain x w' where run: "amem_FailAnalysis sample_lib 9 PromptVersion (err_msg (ErrOther ''timeout'')) 950 overtaken = (x, w')"
    by fastforce
  have ok: "amem_ok sample_lib overtaken" unfolding overtaken_def by (rule amem_step_ok [OF sample_store_ok])
  have meta: "m_get (aw_meta overtaken) 9 \<noteq> None" by code_simp
  have "map_option an_Status (amem_an sample_lib overtaken (9, PromptVersion)) = Some AnalysisCompleted"
    "length (aw_outbox overtaken) = 2" by code_simp+
  then show ?thesis using late_failure_overwrites_completed [OF ok meta run] run by auto
qed

text \<open>
  C17: \<open>keyframes.Select\<close> takes as many frames as fit, in order and evenly spread: \<open>j\<close> of \<open>m\<close> is the frame at
  \<open>j * (n - 1) div (m - 1)\<close>; the first and the last frame are among them, and no position is taken twice, so
  the set of positions seen never rejects one.
\<close>

theorem key_frames_are_spread:
  assumes "2 \<le> m" "m < length keys"
  shows "select_frames keys (int m) = map (\<lambda>j. keys ! (j * (length keys - 1) div (m - 1))) [0..<m]
     \<and> length (select_frames keys (int m)) = m \<and> hd (select_frames keys (int m)) = hd keys
     \<and> last (select_frames keys (int m)) = last keys
     \<and> (\<forall>i j. i < j \<longrightarrow> i * (length keys - 1) div (m - 1) < j * (length keys - 1) div (m - 1))"
proof -
  have ne: "keys \<noteq> []" "[0..<m] \<noteq> []" using assms by auto
  have "hd (map (\<lambda>j. keys ! (j * (length keys - 1) div (m - 1))) [0..<m]) = hd keys"
    using ne assms by (simp add: hd_map hd_conv_nth)
  moreover have "last (map (\<lambda>j. keys ! (j * (length keys - 1) div (m - 1))) [0..<m]) = last keys"
    using ne assms by (simp add: last_map last_conv_nth)
  ultimately show ?thesis
    using select_frames_eq [OF assms] frame_index_mono [OF assms] select_frames_length [of "int m" keys] assms by simp
qed

theorem key_frames_are_spread_witness:
  "select_frames [10, 11, 12, 13, 14, 15 :: int] 3 = [10, 12, 15]
     \<and> last (select_frames [10, 11, 12, 13, 14, 15 :: int] (int 3)) = 15"
  using key_frames_are_spread [of 3 "[10, 11, 12, 13, 14, 15 :: int]"] by (simp add: upt_rec)

text \<open>
  C19: dropping blank steps in place is sound: although each kept step is written into the array the loop is
  still reading, the result is the trimmed steps that are not blank, in order, as a copying loop would give.
\<close>

theorem normalizing_in_place_is_filtering:
  "normalized_steps steps = filter (\<lambda>s. s \<noteq> []) (map trim_space steps)"
  using normalized_steps_eq by (simp add: trimmed_steps_def)

end
