(* ===== verification/Credentials.thy ===== *)
theory Credentials
  imports Go_Strings Base64
begin

text \<open>
  How \<open>internal/auth\<close> checks who someone is: salted password hashes
  (\<open>adapter/password/argon2id.go\<close>) and signed access tokens (\<open>adapter/jwtmgr/jwt.go\<close>).
  The key derivation \<open>argon2.IDKey\<close> and the library \<open>golang-jwt\<close> are parameters.
\<close>

section \<open>Passwords\<close>

text \<open>\<open>argon2.IDKey(password, salt, time, memory, threads, keyLen)\<close>; \<open>Inl\<close> is a panic on parameters out of range.\<close>

type_synonym argon = "bytes \<Rightarrow> bytes \<Rightarrow> nat \<Rightarrow> nat \<Rightarrow> nat \<Rightarrow> nat \<Rightarrow> err + bytes"

text \<open>\<open>salt\<close> is what \<open>rand.Read\<close> gives for 16 bytes; \<open>argon2.Version\<close> is 19.\<close>

definition encode_hash :: "bytes \<Rightarrow> bytes \<Rightarrow> string" where
  "encode_hash salt hash =
     ''argon2id$v=19$m=65536,t=1,p=4$'' @ b64_encode False salt @ ''$'' @ b64_encode False hash"

definition argon_Hash :: "argon \<Rightarrow> err + bytes \<Rightarrow> string \<Rightarrow> err + string" where
  "argon_Hash A salt password =
     (case salt of Inl e \<Rightarrow> Inl e
      | Inr salt \<Rightarrow> (case A password salt 1 65536 4 32 of Inl e \<Rightarrow> Inl e
                    | Inr hash \<Rightarrow> Inr (encode_hash salt hash)))"

text \<open>
  \<open>fmt.Sscanf\<close>: a literal text, and \<open>%d\<close> into an unsigned integer of some bits, which skips blanks and
  rejects what does not fit. What follows the last verb is not looked at.
\<close>

definition scan_text :: "string \<Rightarrow> string \<Rightarrow> string option" where
  "scan_text t s = (if has_prefix s t then Some (drop (length t) s) else None)"

definition scan_uint :: "nat \<Rightarrow> string \<Rightarrow> (nat \<times> string) option" where
  "scan_uint bits s =
     (let s = strip_front (\<lambda>r. ws_rune r \<and> r \<noteq> [CHR 0x0A]) s;
          ds = takeWhile (\<lambda>c. digit_val c \<noteq> None) s
      in if ds = [] then None
         else case parse_digits 0 ds of
           Some n \<Rightarrow> if n < 2 ^ bits then Some (n, drop (length ds) s) else None
         | None \<Rightarrow> None)"

definition scan_field :: "string \<Rightarrow> nat \<Rightarrow> string \<Rightarrow> (nat \<times> string) option" where
  "scan_field t bits s = (case scan_text t s of None \<Rightarrow> None | Some s' \<Rightarrow> scan_uint bits s')"

definition scan_params :: "string \<Rightarrow> (nat \<times> nat \<times> nat) option" where
  "scan_params s =
     (case scan_field ''m='' 32 s of None \<Rightarrow> None
      | Some (memory, s1) \<Rightarrow> (case scan_field '',t='' 32 s1 of None \<Rightarrow> None
      | Some (timeCost, s2) \<Rightarrow> (case scan_field '',p='' 8 s2 of None \<Rightarrow> None
      | Some (threads, s3) \<Rightarrow> Some (memory, timeCost, threads))))"

definition argon_Compare :: "argon \<Rightarrow> string \<Rightarrow> string \<Rightarrow> err + unit" where
  "argon_Compare A encoded password =
     (case split_byte (CHR ''$'') encoded of
        [p0, p1, p2, p3, p4] \<Rightarrow>
          if p0 \<noteq> ''argon2id'' then Inl ErrMismatch
          else (case scan_params p2 of None \<Rightarrow> Inl ErrMismatch
          | Some (memory, timeCost, threads) \<Rightarrow>
             (case b64_decode False p3 of None \<Rightarrow> Inl ErrMismatch
              | Some salt \<Rightarrow>
                (case b64_decode False p4 of None \<Rightarrow> Inl ErrMismatch
                 | Some want \<Rightarrow>
                   (case A password salt timeCost memory threads (length want) of
                      Inl e \<Rightarrow> Inl e
                    | Inr got \<Rightarrow> if got = want then Inr () else Inl ErrMismatch))))
      | _ \<Rightarrow> Inl ErrMismatch)"

text \<open>What the encoder writes, the comparison reads back.\<close>

lemma split_byte_free: "c \<notin> set s \<Longrightarrow> split_byte c s = [s]"
  by (induction s) auto

lemma split_byte_append: "c \<notin> set a \<Longrightarrow> split_byte c (a @ c # b) = a # split_byte c b"
  by (induction a) (auto split: list.splits)

lemma b64_char_dollar: "v < 64 \<Longrightarrow> b64_char False v \<noteq> CHR ''$''"
proof -
  assume "v < 64"
  then have "b64_val False (b64_char False v) = Some v" by (rule b64_val_char)
  moreover have "b64_val False (CHR ''$'') = None" by code_simp
  ultimately show ?thesis by auto
qed

lemma b64_encode_dollar: "CHR ''$'' \<notin> set (b64_encode False s)"
proof -
  have "\<forall>x\<in>set (map of_char s). x < (256::nat)" using nat_of_char_less_256 by auto
  from to_sextets_range [OF this] show ?thesis
    using b64_char_dollar by (fastforce simp: b64_encode_def)
qed

lemma split_encode_hash:
  "split_byte (CHR ''$'') (encode_hash salt hash)
     = [''argon2id'', ''v=19'', ''m=65536,t=1,p=4'', b64_encode False salt, b64_encode False hash]"
proof -
  have e: "encode_hash salt hash = ''argon2id'' @ CHR ''$'' # (''v=19'' @ CHR ''$'' # (''m=65536,t=1,p=4'' @ CHR ''$'' #
     (b64_encode False salt @ CHR ''$'' # b64_encode False hash)))"
    by (simp add: encode_hash_def)
  have "CHR ''$'' \<notin> set ''argon2id''" "CHR ''$'' \<notin> set ''v=19''" "CHR ''$'' \<notin> set ''m=65536,t=1,p=4''" by code_simp+
  then show ?thesis unfolding e
    by (simp only: split_byte_append b64_encode_dollar split_byte_free not_False_eq_True)
qed

lemma scan_uint_digits:
  assumes "ds \<noteq> []" "\<forall>c\<in>set ds. digit_val c \<noteq> None" "rest = [] \<or> digit_val (hd rest) = None"
    and "parse_digits 0 ds = Some n" "n < 2 ^ bits"
  shows "scan_uint bits (ds @ rest) = Some (n, rest)"
proof -
  obtain d ds' where ds: "ds = d # ds'" using assms(1) by (cases ds) auto
  have "48 \<le> (of_char d :: nat) \<and> (of_char d :: nat) \<le> 57"
    using assms(2) ds by (auto simp: digit_val_def Let_def split: if_splits)
  then have "lead_len (\<lambda>r. ws_rune r \<and> r \<noteq> [CHR 0x0A]) (d # x) = 0" for x
    by (cases x; cases "tl x") (auto simp: lead_len_def ws_rune_def split: list.splits)
  then have "strip_front (\<lambda>r. ws_rune r \<and> r \<noteq> [CHR 0x0A]) (ds @ rest) = ds @ rest"
    using ds by (intro strip_front_id) simp
  moreover have "takeWhile (\<lambda>c. digit_val c \<noteq> None) (ds @ rest) = ds"
    using assms(2,3) by (cases rest) (auto simp: takeWhile_append)
  ultimately show ?thesis using assms(1,4,5) by (simp add: scan_uint_def)
qed

lemma scan_written_params: "scan_params ''m=65536,t=1,p=4'' = Some (65536, 1, 4)"
proof -
  have "scan_uint 32 (''65536'' @ '',t=1,p=4'') = Some (65536, '',t=1,p=4'')"
    "scan_uint 32 (''1'' @ '',p=4'') = Some (1, '',p=4'')" "scan_uint 8 (''4'' @ []) = Some (4, [])"
    by (rule scan_uint_digits; simp add: digit_val_def)+
  then show ?thesis by (simp add: scan_params_def scan_field_def scan_text_def)
qed

lemma argon_Compare_encode:
  "argon_Compare A (encode_hash salt hash) password =
     (case A password salt 1 65536 4 (length hash) of
        Inl e \<Rightarrow> Inl e | Inr got \<Rightarrow> if got = hash then Inr () else Inl ErrMismatch)"
  by (simp add: argon_Compare_def split_encode_hash scan_written_params b64_roundtrip)

section \<open>Access tokens\<close>

record jwt_claims =
  jc_Email :: string
  jc_Subject :: string
  jc_IssuedAt :: go_time
  jc_ExpiresAt :: go_time
  jc_Issuer :: string

text \<open>
  \<open>jl_sign\<close> is \<open>SignedString\<close> of a token with method \<open>HS256\<close>. \<open>jl_parse now key token\<close> is
  \<open>ParseWithClaims\<close>: it asks \<open>key\<close> for the key of the token's method (\<open>jl_alg\<close>, if the header names one)
  and says whether the token is valid at \<open>now\<close>.
\<close>

record jwt_lib =
  jl_sign :: "bytes \<Rightarrow> jwt_claims \<Rightarrow> err + string"
  jl_alg :: "string \<Rightarrow> string option"
  jl_parse :: "go_time \<Rightarrow> (string \<Rightarrow> err + bytes) \<Rightarrow> string \<Rightarrow> err + (jwt_claims \<times> bool)"

record jwt_manager =
  jm_secret :: bytes
  jm_ttl :: duration

definition jwt_new :: "string \<Rightarrow> duration \<Rightarrow> err + jwt_manager" where
  "jwt_new secret ttl =
     (if length secret < 32 then Inl (ErrOther ''JWT_SECRET must be at least 32 characters'')
      else Inr \<lparr>jm_secret = secret, jm_ttl = ttl\<rparr>)"

text \<open>\<open>jwt.NewNumericDate\<close> drops the fraction of a second.\<close>

definition numeric_date :: "go_time \<Rightarrow> go_time" where
  "numeric_date t = t - t mod second"

definition jwt_claims_for :: "'z golib_scheme \<Rightarrow> uuid \<Rightarrow> string \<Rightarrow> go_time \<Rightarrow> go_time \<Rightarrow> jwt_claims" where
  "jwt_claims_for L userID email now exp =
     \<lparr>jc_Email = email, jc_Subject = uuid_string L userID, jc_IssuedAt = numeric_date now,
      jc_ExpiresAt = numeric_date exp, jc_Issuer = ''bugsathi''\<rparr>"

definition jwt_IssueAccessToken ::
    "'z golib_scheme \<Rightarrow> jwt_lib \<Rightarrow> jwt_manager \<Rightarrow> go_time \<Rightarrow> uuid \<Rightarrow> string \<Rightarrow> err + (string \<times> go_time)" where
  "jwt_IssueAccessToken L J m now userID email =
     (let exp = now + jm_ttl m
      in case jl_sign J (jm_secret m) (jwt_claims_for L userID email now exp) of
           Inl e \<Rightarrow> Inl e | Inr tok \<Rightarrow> Inr (tok, exp))"

definition jwt_key :: "jwt_manager \<Rightarrow> string \<Rightarrow> err + bytes" where
  "jwt_key m alg = (if alg \<noteq> ''HS256'' then Inl ErrUnauthorized else Inr (jm_secret m))"

definition jwt_ParseAccessToken ::
    "'z golib_scheme \<Rightarrow> jwt_lib \<Rightarrow> jwt_manager \<Rightarrow> go_time \<Rightarrow> string \<Rightarrow> err + (uuid \<times> string)" where
  "jwt_ParseAccessToken L J m now token =
     (case jl_parse J now (jwt_key m) token of
        Inl e \<Rightarrow> Inl ErrUnauthorized
      | Inr (c, valid) \<Rightarrow>
          if \<not> valid then Inl ErrUnauthorized
          else if jc_Subject c = [] then Inl ErrUnauthorized
          else (case uuid_parse L (jc_Subject c) of
                  Inl e \<Rightarrow> Inl ErrUnauthorized
                | Inr userID \<Rightarrow> Inr (userID, jc_Email c)))"

text \<open>
  What the library documents: a token signed with the key of its method is valid until it expires and
  carries its claims (stated for ASCII text), and no token passes whose method the key function refuses.
\<close>

definition jwt_lib_ok :: "jwt_lib \<Rightarrow> bool" where
  "jwt_lib_ok J \<longleftrightarrow>
     (\<forall>secret c token. jl_sign J secret c = Inr token \<and> is_ascii (jc_Email c) \<longrightarrow>
        (\<forall>now key. key ''HS256'' = Inr secret \<and> now < jc_ExpiresAt c \<longrightarrow> jl_parse J now key token = Inr (c, True)))
     \<and> (\<forall>now key token c. jl_parse J now key token = Inr (c, True) \<longrightarrow>
        (\<exists>alg k. jl_alg J token = Some alg \<and> key alg = Inr k))"

lemma jwt_lib_accepts:
  "jwt_lib_ok J \<Longrightarrow> jl_sign J secret c = Inr token \<Longrightarrow> is_ascii (jc_Email c) \<Longrightarrow> key ''HS256'' = Inr secret \<Longrightarrow>
     now < jc_ExpiresAt c \<Longrightarrow> jl_parse J now key token = Inr (c, True)"
  by (simp add: jwt_lib_ok_def)

lemma jwt_lib_method:
  "jwt_lib_ok J \<Longrightarrow> jl_parse J now key token = Inr (c, True) \<Longrightarrow> \<exists>alg k. jl_alg J token = Some alg \<and> key alg = Inr k"
  unfolding jwt_lib_ok_def by blast

lemma jwt_Parse_ok:
  assumes "jwt_lib_ok J" "jwt_ParseAccessToken L J m now token = Inr (userID, email)"
  shows "jl_alg J token = Some ''HS256''"
proof -
  obtain c where "jl_parse J now (jwt_key m) token = Inr (c, True)"
    using assms(2) by (auto simp: jwt_ParseAccessToken_def split: sum.splits prod.splits if_splits)
  from jwt_lib_method [OF assms(1) this] show ?thesis by (auto simp: jwt_key_def split: if_splits)
qed

end
