(* ===== verification/Auth.thy ===== *)
theory Auth
  imports Credentials Pagination
begin

text \<open>
  \<open>internal/auth\<close>: users and refresh tokens (\<open>domain/user.go\<close>), the ports (\<open>port/port.go\<close>) and the service
  (\<open>service/service.go\<close>): register, log in, refresh, log out. The locale \<open>auth_store\<close> states what the
  service needs of its repositories, whatever of their calls fail; its lemmas show that a refresh token is
  redeemed at most once and that its reuse ends the user's sessions.
\<close>

section \<open>Domain\<close>

record user =
  usr_ID :: uuid
  usr_Email :: string
  usr_PasswordHash :: string
  usr_Name :: string
  usr_CreatedAt :: go_time
  usr_UpdatedAt :: go_time

definition normalize_email :: "'z golib_scheme \<Rightarrow> string \<Rightarrow> err + string" where
  "normalize_email L email0 =
     (let email = trim_space (to_lower L email0)
      in if email = [] then Inl ErrInvalidEmail
         else if mail_parse L email \<noteq> None then Inl ErrInvalidEmail
         else Inr email)"

definition validate_password :: "string \<Rightarrow> err + unit" where
  "validate_password password = (if length password < 8 then Inl ErrInvalidPassword else Inr ())"

record refresh_token =
  rft_ID :: uuid
  rft_UserID :: uuid
  rft_TokenHash :: string
  rft_ExpiresAt :: go_time
  rft_RevokedAt :: "go_time option"
  rft_CreatedAt :: go_time

definition rft_active :: "refresh_token \<Rightarrow> go_time \<Rightarrow> bool" where
  "rft_active t now \<longleftrightarrow> rft_RevokedAt t = None \<and> now < rft_ExpiresAt t"

section \<open>Ports\<close>

record 's user_repository =
  ur_Create :: "user \<Rightarrow> ('s, user) op"
  ur_FindByEmail :: "string \<Rightarrow> ('s, user) op"
  ur_FindByID :: "uuid \<Rightarrow> ('s, user) op"

record 's refresh_repository =
  rf_Create :: "refresh_token \<Rightarrow> ('s, refresh_token) op"
  rf_FindByHash :: "string \<Rightarrow> ('s, refresh_token) op"
  rf_Revoke :: "uuid \<Rightarrow> go_time \<Rightarrow> ('s, unit) op"
  rf_RevokeAllForUser :: "uuid \<Rightarrow> go_time \<Rightarrow> ('s, unit) op"
  rf_Rotate :: "string \<Rightarrow> go_time \<Rightarrow> refresh_token \<Rightarrow> ('s, refresh_token) op"

text \<open>The random salt and the readings of the managers' own clocks are arguments.\<close>

record password_hasher =
  ph_Hash :: "err + bytes \<Rightarrow> string \<Rightarrow> err + string"
  ph_Compare :: "string \<Rightarrow> string \<Rightarrow> err + unit"

record token_manager =
  tm_Issue :: "go_time \<Rightarrow> uuid \<Rightarrow> string \<Rightarrow> err + (string \<times> go_time)"
  tm_Parse :: "go_time \<Rightarrow> string \<Rightarrow> err + (uuid \<times> string)"

section \<open>Service\<close>

record 's auth_service =
  ah_users :: "'s user_repository"
  ah_refresh :: "'s refresh_repository"
  ah_hasher :: password_hasher
  ah_tokens :: token_manager
  ah_refreshTTL :: duration
  ah_reuseGrace :: duration

definition auth_service_new ::
    "'s user_repository \<Rightarrow> 's refresh_repository \<Rightarrow> password_hasher \<Rightarrow> token_manager \<Rightarrow> duration \<Rightarrow> 's auth_service" where
  "auth_service_new users refresh hasher tokens refreshTTL =
     \<lparr>ah_users = users, ah_refresh = refresh, ah_hasher = hasher, ah_tokens = tokens,
      ah_refreshTTL = refreshTTL, ah_reuseGrace = 10 * second\<rparr>"

definition with_reuse_grace :: "duration \<Rightarrow> 's auth_service \<Rightarrow> 's auth_service" where
  "with_reuse_grace d S = S\<lparr>ah_reuseGrace := d\<rparr>"

record token_pair =
  tp_AccessToken :: string
  tp_AccessExpiresAt :: go_time
  tp_RefreshToken :: string
  tp_RefreshExpiresAt :: go_time
  tp_TokenType :: string

record user_dto =
  ud_ID :: uuid
  ud_Email :: string
  ud_Name :: string
  ud_CreatedAt :: go_time

definition user_toDTO :: "user \<Rightarrow> user_dto" where
  "user_toDTO u = \<lparr>ud_ID = usr_ID u, ud_Email = usr_Email u, ud_Name = usr_Name u, ud_CreatedAt = usr_CreatedAt u\<rparr>"

definition hash_token :: "'z golib_scheme \<Rightarrow> string \<Rightarrow> string" where
  "hash_token L raw = sha256_hex L raw"

definition new_opaque_token :: "err + bytes \<Rightarrow> err + string" where
  "new_opaque_token random = (case random of Inl e \<Rightarrow> Inl e | Inr b \<Rightarrow> Inr (b64_encode True b))"

text \<open>What issuing a pair reads: the token manager's clock, 32 random bytes, the service's clock, an identifier.\<close>

record draws =
  dr_issued :: go_time
  dr_random :: "err + bytes"
  dr_now :: go_time
  dr_id :: uuid

definition aus_issuePair :: "'z golib_scheme \<Rightarrow> 's auth_service \<Rightarrow> draws \<Rightarrow> user \<Rightarrow> ('s, token_pair) op" where
  "aus_issuePair L S d u =
     andthen (lift_sum (tm_Issue (ah_tokens S) (dr_issued d) (usr_ID u) (usr_Email u))) (\<lambda>(access, accessExp).
     andthen (lift_sum (new_opaque_token (dr_random d))) (\<lambda>raw.
     let exp = dr_now d + ah_refreshTTL S
     in andthen (rf_Create (ah_refresh S)
          \<lparr>rft_ID = dr_id d, rft_UserID = usr_ID u, rft_TokenHash = hash_token L raw, rft_ExpiresAt = exp,
           rft_RevokedAt = None, rft_CreatedAt = dr_now d\<rparr>) (\<lambda>_.
        ret \<lparr>tp_AccessToken = access, tp_AccessExpiresAt = accessExp, tp_RefreshToken = raw,
             tp_RefreshExpiresAt = exp, tp_TokenType = ''Bearer''\<rparr>)))"

definition aus_Register ::
    "'z golib_scheme \<Rightarrow> 's auth_service \<Rightarrow> err + bytes \<Rightarrow> go_time \<Rightarrow> uuid \<Rightarrow> draws \<Rightarrow> string \<Rightarrow> string \<Rightarrow> string
       \<Rightarrow> ('s, user_dto \<times> token_pair) op" where
  "aus_Register L S salt now u d email0 password name =
     andthen (lift_sum (normalize_email L email0)) (\<lambda>email.
     andthen (lift_sum (validate_password password)) (\<lambda>_.
     andthen (attempt (ur_FindByEmail (ah_users S) email)) (\<lambda>found.
     case found of
       Inr _ \<Rightarrow> fail ErrEmailTaken
     | Inl e \<Rightarrow>
         if \<not> errors_is e (ErrNotFound Auth) then fail e
         else
         andthen (lift_sum (ph_Hash (ah_hasher S) salt password)) (\<lambda>hash.
         andthen (ur_Create (ah_users S)
             \<lparr>usr_ID = u, usr_Email = email, usr_PasswordHash = hash, usr_Name = name,
              usr_CreatedAt = now, usr_UpdatedAt = now\<rparr>) (\<lambda>created.
         andthen (aus_issuePair L S d created) (\<lambda>pair. ret (user_toDTO created, pair)))))))"

text \<open>A panic of the hasher is not an error the code can look at.\<close>

definition checked_password :: "err + unit \<Rightarrow> err + unit" where
  "checked_password r =
     (case r of Inr _ \<Rightarrow> Inr () | Inl (ErrPanic m) \<Rightarrow> Inl (ErrPanic m) | Inl _ \<Rightarrow> Inl ErrInvalidCredentials)"

definition aus_Login ::
    "'z golib_scheme \<Rightarrow> 's auth_service \<Rightarrow> draws \<Rightarrow> string \<Rightarrow> string \<Rightarrow> ('s, user_dto \<times> token_pair) op" where
  "aus_Login L S d email0 password =
     andthen (map_err (\<lambda>_. ErrInvalidCredentials) (lift_sum (normalize_email L email0))) (\<lambda>email.
     andthen (map_err (\<lambda>_. ErrInvalidCredentials) (ur_FindByEmail (ah_users S) email)) (\<lambda>u.
     andthen (lift_sum (checked_password (ph_Compare (ah_hasher S) (usr_PasswordHash u) password))) (\<lambda>_.
     andthen (aus_issuePair L S d u) (\<lambda>pair. ret (user_toDTO u, pair)))))"

definition aus_revokeFamilyOnReuse :: "'s auth_service \<Rightarrow> string \<Rightarrow> go_time \<Rightarrow> ('s, unit) op" where
  "aus_revokeFamilyOnReuse S hash now =
     andthen (attempt (rf_FindByHash (ah_refresh S) hash)) (\<lambda>found.
     case found of
       Inl _ \<Rightarrow> ret ()
     | Inr rec \<Rightarrow>
         (case rft_RevokedAt rec of
            None \<Rightarrow> ret ()
          | Some at \<Rightarrow>
              if time_sub now at \<le> ah_reuseGrace S then ret ()
              else ignore (rf_RevokeAllForUser (ah_refresh S) (rft_UserID rec) now)))"

lemma revokeFamily_quiet: "\<exists>s'. aus_revokeFamilyOnReuse S hash now s = (Inr (), s')"
  by (auto simp: aus_revokeFamilyOnReuse_def andthen_def attempt_def ignore_def split: sum.splits option.splits)

text \<open>\<open>dr_issued\<close> is read last here.\<close>

definition aus_Refresh :: "'z golib_scheme \<Rightarrow> 's auth_service \<Rightarrow> draws \<Rightarrow> string \<Rightarrow> ('s, token_pair) op" where
  "aus_Refresh L S d rawRefresh =
     (if rawRefresh = [] then fail ErrUnauthorized
      else
      andthen (lift_sum (new_opaque_token (dr_random d))) (\<lambda>rawNew.
      let now = dr_now d; exp = now + ah_refreshTTL S; hash = hash_token L rawRefresh
      in
      andthen (attempt (rf_Rotate (ah_refresh S) hash now
         \<lparr>rft_ID = dr_id d, rft_UserID = 0, rft_TokenHash = hash_token L rawNew, rft_ExpiresAt = exp,
          rft_RevokedAt = None, rft_CreatedAt = now\<rparr>)) (\<lambda>rotated.
      case rotated of
        Inl e \<Rightarrow> andthen (aus_revokeFamilyOnReuse S hash now) (\<lambda>_. fail e)
      | Inr consumed \<Rightarrow>
          andthen (map_err (\<lambda>_. ErrUnauthorized) (ur_FindByID (ah_users S) (rft_UserID consumed))) (\<lambda>u.
          andthen (lift_sum (tm_Issue (ah_tokens S) (dr_issued d) (usr_ID u) (usr_Email u))) (\<lambda>(access, accessExp).
          ret \<lparr>tp_AccessToken = access, tp_AccessExpiresAt = accessExp, tp_RefreshToken = rawNew,
               tp_RefreshExpiresAt = exp, tp_TokenType = ''Bearer''\<rparr>)))))"

definition aus_lookupRefresh :: "'z golib_scheme \<Rightarrow> 's auth_service \<Rightarrow> go_time \<Rightarrow> string \<Rightarrow> ('s, refresh_token) op" where
  "aus_lookupRefresh L S now raw =
     (if raw = [] then fail ErrUnauthorized
      else
      andthen (map_err (\<lambda>_. ErrUnauthorized) (rf_FindByHash (ah_refresh S) (hash_token L raw))) (\<lambda>rec.
      if \<not> rft_active rec now then fail ErrUnauthorized else ret rec))"

definition aus_Logout :: "'z golib_scheme \<Rightarrow> 's auth_service \<Rightarrow> go_time \<Rightarrow> go_time \<Rightarrow> string \<Rightarrow> ('s, unit) op" where
  "aus_Logout L S now now' rawRefresh =
     andthen (attempt (aus_lookupRefresh L S now rawRefresh)) (\<lambda>found.
     case found of
       Inl _ \<Rightarrow> ret ()
     | Inr rec \<Rightarrow>
         andthen (attempt (rf_Revoke (ah_refresh S) (rft_ID rec) now')) (\<lambda>revoked.
         case revoked of
           Inl e \<Rightarrow> if errors_is e (ErrNotFound Auth) then ret () else fail e
         | Inr _ \<Rightarrow> ret ()))"

definition aus_Me :: "'s auth_service \<Rightarrow> uuid \<Rightarrow> ('s, user_dto) op" where
  "aus_Me S userID = andthen (ur_FindByID (ah_users S) userID) (\<lambda>u. ret (user_toDTO u))"

definition aus_ParseAccess :: "'s auth_service \<Rightarrow> go_time \<Rightarrow> string \<Rightarrow> err + (uuid \<times> string)" where
  "aus_ParseAccess S now token = tm_Parse (ah_tokens S) now token"

section \<open>What the service needs of its repositories\<close>

type_synonym users = "uuid \<Rightarrow> user option"
type_synonym tokens = "string \<Rightarrow> refresh_token option"

text \<open>Tokens are seen by their hashes; a token is spent once it is revoked.\<close>

definition fresh_token :: "tokens \<Rightarrow> string \<Rightarrow> uuid \<Rightarrow> bool" where
  "fresh_token tk h i \<longleftrightarrow> tk h = None \<and> (\<forall>g r. tk g = Some r \<longrightarrow> rft_ID r \<noteq> i)"

definition spent :: "tokens \<Rightarrow> string \<Rightarrow> bool" where
  "spent tk h \<longleftrightarrow> (\<exists>r. tk h = Some r \<and> rft_RevokedAt r \<noteq> None)"

definition revoke_all :: "uuid \<Rightarrow> go_time \<Rightarrow> tokens \<Rightarrow> tokens" where
  "revoke_all u at tk = (\<lambda>h. map_option
     (\<lambda>r. if rft_UserID r = u \<and> rft_RevokedAt r = None then r\<lparr>rft_RevokedAt := Some at\<rparr> else r) (tk h))"

text \<open>
  \<open>us\<close> and \<open>tk\<close> are the users and tokens of a state; \<open>stamp\<close> is the instant the store keeps for one it is
  given. Any call may fail, and then changes nothing.
\<close>

locale auth_store =
  fixes U :: "'s user_repository" and R :: "'s refresh_repository" and ok :: "'s \<Rightarrow> bool"
    and us :: "'s \<Rightarrow> users" and tk :: "'s \<Rightarrow> tokens" and stamp :: "go_time \<Rightarrow> go_time"
  assumes emails: "ok s \<Longrightarrow> us s i = Some u \<Longrightarrow> us s j = Some v \<Longrightarrow> usr_Email u = usr_Email v \<Longrightarrow> i = j"
    and find_email:
    "keeps (\<lambda>s. (ok s, us s, tk s)) (ur_FindByEmail U e)"
    "ok s \<Longrightarrow> ur_FindByEmail U e s = (Inr u, s') \<Longrightarrow> us s (usr_ID u) = Some u \<and> usr_Email u = e"
    "ok s \<Longrightarrow> ur_FindByEmail U e s = (Inl (ErrNotFound Auth), s') \<Longrightarrow> us s i = Some v \<Longrightarrow> usr_Email v \<noteq> e"
    and find_id:
    "keeps (\<lambda>s. (ok s, us s, tk s)) (ur_FindByID U i)"
    "ok s \<Longrightarrow> ur_FindByID U i s = (Inr u, s') \<Longrightarrow> us s i = Some u \<and> usr_ID u = i"
    and user_create:
    "ok s \<Longrightarrow> us s (usr_ID u) = None \<Longrightarrow> ur_Create U u s = (x, s') \<Longrightarrow> ok s' \<and> tk s' = tk s
       \<and> (case x of Inl e \<Rightarrow> us s' = us s
          | Inr v \<Rightarrow> v = u\<lparr>usr_CreatedAt := stamp (usr_CreatedAt u), usr_UpdatedAt := stamp (usr_UpdatedAt u)\<rparr>
              \<and> us s' = (us s)(usr_ID u \<mapsto> v))"
    and token_create:
    "ok s \<Longrightarrow> fresh_token (tk s) (rft_TokenHash t) (rft_ID t) \<Longrightarrow> rft_RevokedAt t = None \<Longrightarrow> rf_Create R t s = (y, s') \<Longrightarrow> ok s' \<and> us s' = us s
       \<and> (case y of Inl e \<Rightarrow> tk s' = tk s
          | Inr v \<Rightarrow> tk s' = (tk s)(rft_TokenHash t \<mapsto>
              t\<lparr>rft_ExpiresAt := stamp (rft_ExpiresAt t), rft_CreatedAt := stamp (rft_CreatedAt t)\<rparr>))"
    and find_hash:
    "keeps (\<lambda>s. (ok s, us s, tk s)) (rf_FindByHash R h)"
    "ok s \<Longrightarrow> rf_FindByHash R h s = (Inr r, s') \<Longrightarrow> tk s h = Some r"
    and rotate:
    "ok s \<Longrightarrow> fresh_token (tk s) (rft_TokenHash t) (rft_ID t) \<Longrightarrow> rft_RevokedAt t = None \<Longrightarrow> rf_Rotate R h at t s = (y, s') \<Longrightarrow> ok s' \<and> us s' = us s
       \<and> (case y of Inl e \<Rightarrow> tk s' = tk s
          | Inr c \<Rightarrow> \<exists>r. tk s h = Some r \<and> rft_RevokedAt r = None \<and> stamp at < rft_ExpiresAt r \<and> rft_UserID c = rft_UserID r
              \<and> tk s' = (tk s)(h \<mapsto> r\<lparr>rft_RevokedAt := Some (stamp at)\<rparr>, rft_TokenHash t \<mapsto>
                  t\<lparr>rft_UserID := rft_UserID r, rft_ExpiresAt := stamp (rft_ExpiresAt t), rft_CreatedAt := stamp (rft_CreatedAt t)\<rparr>))"
    and revoke:
    "ok s \<Longrightarrow> rf_Revoke R i at s = (z, s') \<Longrightarrow> ok s' \<and> us s' = us s
       \<and> (case z of Inl e \<Rightarrow> tk s' = tk s
          | Inr _ \<Rightarrow> \<exists>g r. tk s g = Some r \<and> rft_ID r = i \<and> rft_RevokedAt r = None
              \<and> tk s' = (tk s)(g \<mapsto> r\<lparr>rft_RevokedAt := Some (stamp at)\<rparr>))"
    and revoke_family:
    "ok s \<Longrightarrow> rf_RevokeAllForUser R i at s = (z, s') \<Longrightarrow> ok s' \<and> us s' = us s
       \<and> (case z of Inl e \<Rightarrow> tk s' = tk s | Inr _ \<Rightarrow> tk s' = revoke_all i (stamp at) (tk s))"

section \<open>Calls of the service\<close>

datatype auth_call =
    CallRegister "err + bytes" go_time uuid draws string string string
  | CallLogin draws string string
  | CallRefresh draws string
  | CallLogout go_time go_time string
  | CallMe uuid

fun do_auth_call :: "'z golib_scheme \<Rightarrow> 's auth_service \<Rightarrow> auth_call \<Rightarrow> 's \<Rightarrow> bool \<times> 's" where
  "do_auth_call L S (CallRegister salt now u d email password name) s =
     (let (r, s') = aus_Register L S salt now u d email password name s in (\<not> isl r, s'))"
| "do_auth_call L S (CallLogin d email password) s = (let (r, s') = aus_Login L S d email password s in (\<not> isl r, s'))"
| "do_auth_call L S (CallRefresh d raw) s = (let (r, s') = aus_Refresh L S d raw s in (\<not> isl r, s'))"
| "do_auth_call L S (CallLogout now now' raw) s = (let (r, s') = aus_Logout L S now now' raw s in (\<not> isl r, s'))"
| "do_auth_call L S (CallMe u) s = (let (r, s') = aus_Me S u s in (\<not> isl r, s'))"

fun run_auth_calls :: "'z golib_scheme \<Rightarrow> 's auth_service \<Rightarrow> auth_call list \<Rightarrow> 's \<Rightarrow> (auth_call \<times> bool) list \<times> 's" where
  "run_auth_calls L S [] s = ([], s)"
| "run_auth_calls L S (c # cs) s =
     (let (done', s1) = do_auth_call L S c s; (rs, s2) = run_auth_calls L S cs s1 in ((c, done') # rs, s2))"

text \<open>What a call draws is new: the identifiers are free and no token has the hash of the one it makes.\<close>

definition fresh_draws :: "'z golib_scheme \<Rightarrow> tokens \<Rightarrow> draws \<Rightarrow> bool" where
  "fresh_draws L tk d \<longleftrightarrow>
     (\<forall>raw. new_opaque_token (dr_random d) = Inr raw \<longrightarrow> fresh_token tk (hash_token L raw) (dr_id d))"

fun fresh_call :: "'z golib_scheme \<Rightarrow> users \<Rightarrow> tokens \<Rightarrow> auth_call \<Rightarrow> bool" where
  "fresh_call L us tk (CallRegister salt now u d email password name) \<longleftrightarrow> us u = None \<and> fresh_draws L tk d"
| "fresh_call L us tk (CallLogin d email password) \<longleftrightarrow> fresh_draws L tk d"
| "fresh_call L us tk (CallRefresh d raw) \<longleftrightarrow> fresh_draws L tk d"
| "fresh_call L us tk c \<longleftrightarrow> True"

fun fresh_calls :: "'z golib_scheme \<Rightarrow> 's auth_service \<Rightarrow> ('s \<Rightarrow> users) \<Rightarrow> ('s \<Rightarrow> tokens) \<Rightarrow> auth_call list \<Rightarrow> 's \<Rightarrow> bool" where
  "fresh_calls L S us tk [] s \<longleftrightarrow> True"
| "fresh_calls L S us tk (c # cs) s \<longleftrightarrow>
     fresh_call L (us s) (tk s) c \<and> fresh_calls L S us tk cs (snd (do_auth_call L S c s))"

fun redeems :: "string \<Rightarrow> auth_call \<Rightarrow> bool" where
  "redeems raw (CallRefresh d raw') \<longleftrightarrow> raw' = raw"
| "redeems raw c \<longleftrightarrow> False"

section \<open>What calls keep\<close>

text \<open>Users stay as they are, and a spent token stays spent.\<close>

definition auth_moves :: "('s \<Rightarrow> bool) \<Rightarrow> ('s \<Rightarrow> users) \<Rightarrow> ('s \<Rightarrow> tokens) \<Rightarrow> 's \<Rightarrow> 's \<Rightarrow> bool" where
  "auth_moves ok us tk s s' \<longleftrightarrow> ok s' \<and> map_le (us s) (us s') \<and> (\<forall>h. spent (tk s) h \<longrightarrow> spent (tk s') h)"

lemma auth_moves_refl: "ok s \<Longrightarrow> auth_moves ok us tk s s"
  by (simp add: auth_moves_def)

lemma auth_moves_trans: "auth_moves ok us tk s s1 \<Longrightarrow> auth_moves ok us tk s1 s2 \<Longrightarrow> auth_moves ok us tk s s2"
  unfolding auth_moves_def by (meson map_le_trans)

lemma auth_moves_same: "ok s' \<Longrightarrow> us s' = us s \<Longrightarrow> tk s' = tk s \<Longrightarrow> auth_moves ok us tk s s'"
  by (simp add: auth_moves_def)

lemma spent_revoke_all: "spent tk h \<Longrightarrow> spent (revoke_all u at tk) h"
proof -
  assume "spent tk h"
  then obtain r at' where "tk h = Some r" "rft_RevokedAt r = Some at'" by (auto simp: spent_def)
  then have "revoke_all u at tk h = Some r" by (simp add: revoke_all_def)
  then show ?thesis using \<open>rft_RevokedAt r = Some at'\<close> by (simp add: spent_def)
qed

lemma revoke_all_revokes: "revoke_all u at tk h = Some q \<Longrightarrow> rft_UserID q = u \<Longrightarrow> rft_RevokedAt q \<noteq> None"
proof -
  assume q: "revoke_all u at tk h = Some q" "rft_UserID q = u"
  then obtain r where "tk h = Some r" "q = (if rft_UserID r = u \<and> rft_RevokedAt r = None then r\<lparr>rft_RevokedAt := Some at\<rparr> else r)"
    by (auto simp: revoke_all_def)
  then show ?thesis using q(2) by (cases "rft_UserID r = u \<and> rft_RevokedAt r = None") auto
qed

lemma spent_upd: "spent tk h \<Longrightarrow> tk g = Some r \<Longrightarrow> spent (tk(g \<mapsto> r\<lparr>rft_RevokedAt := Some at\<rparr>)) h"
  by (auto simp: spent_def)

lemma spent_new: "spent tk h \<Longrightarrow> tk g = None \<Longrightarrow> spent (tk(g \<mapsto> r)) h"
  by (auto simp: spent_def)

locale auth_client = auth_store U R ok us tk stamp
  for U :: "'s user_repository" and R :: "'s refresh_repository" and ok :: "'s \<Rightarrow> bool"
    and us :: "'s \<Rightarrow> users" and tk :: "'s \<Rightarrow> tokens" and stamp :: "go_time \<Rightarrow> go_time" +
  fixes S :: "'s auth_service"
  assumes repos: "ah_users S = U" "ah_refresh S = R"
begin

lemmas read_steps = find_email(1) [THEN keepsD, simplified] find_id(1) [THEN keepsD, simplified]
  find_hash(1) [THEN keepsD, simplified]

lemma issuePair_step:
  assumes "ok s" "fresh_draws L (tk s) d" "aus_issuePair L S d u s = (x, s')"
  shows "auth_moves ok us tk s s' \<and> us s' = us s"
proof (cases "tm_Issue (ah_tokens S) (dr_issued d) (usr_ID u) (usr_Email u)")
  case (Inl e)
  then show ?thesis using assms auth_moves_refl by (auto simp: aus_issuePair_def andthen_def)
next
  case (Inr a)
  show ?thesis
  proof (cases "new_opaque_token (dr_random d)")
    case (Inl e)
    then show ?thesis using assms Inr auth_moves_refl by (auto simp: aus_issuePair_def andthen_def split: prod.splits)
  next
    case (Inr raw)
    let ?t = "\<lparr>rft_ID = dr_id d, rft_UserID = usr_ID u, rft_TokenHash = hash_token L raw,
      rft_ExpiresAt = dr_now d + ah_refreshTTL S, rft_RevokedAt = None, rft_CreatedAt = dr_now d\<rparr>"
    obtain y where y: "rf_Create R ?t s = (y, s')"
      using assms(3) \<open>_ = Inr a\<close> Inr repos by (auto simp: aus_issuePair_def andthen_def Let_def split: prod.splits sum.splits)
    have fresh: "fresh_token (tk s) (rft_TokenHash ?t) (rft_ID ?t)" using assms(2) Inr by (simp add: fresh_draws_def)
    from token_create [OF assms(1) fresh _ y] show ?thesis
      using fresh by (auto simp: auth_moves_def fresh_token_def intro: spent_new split: sum.splits)
  qed
qed

lemma revokeFamily_step:
  assumes "ok s" "aus_revokeFamilyOnReuse S h now s = (x, s')"
  shows "auth_moves ok us tk s s' \<and> us s' = us s"
proof -
  obtain f s1 where f: "rf_FindByHash R h s = (f, s1)" by fastforce
  note r = read_steps(3) [OF f]
  show ?thesis
  proof (cases "\<exists>rec at. f = Inr rec \<and> rft_RevokedAt rec = Some at \<and> \<not> time_sub now at \<le> ah_reuseGrace S")
    case True
    then obtain rec where "f = Inr rec" by blast
    obtain z s2 where z: "rf_RevokeAllForUser R (rft_UserID rec) now s1 = (z, s2)" by fastforce
    then have "s' = s2" using True assms(2) f \<open>f = Inr rec\<close> repos
      by (auto simp: aus_revokeFamilyOnReuse_def andthen_def attempt_def ignore_def)
    moreover have "ok s1" using r assms(1) by simp
    ultimately show ?thesis using revoke_family [OF _ z] r
      by (auto simp: auth_moves_def intro: spent_revoke_all split: sum.splits)
  next
    case False
    then have "s' = s1" using assms(2) f repos
      by (auto simp: aus_revokeFamilyOnReuse_def andthen_def attempt_def split: sum.splits option.splits if_splits)
    then show ?thesis using r assms(1) by (simp add: auth_moves_same)
  qed
qed

text \<open>A refresh either rotates the token it was given, which then is spent, or fails there and perhaps ends the family.\<close>

lemma Refresh_step:
  assumes s: "ok s" and fresh: "fresh_draws L (tk s) d" and run: "aus_Refresh L S d raw s = (x, s')"
  shows "auth_moves ok us tk s s' \<and> us s' = us s
     \<and> (\<forall>pair. x = Inr pair \<longrightarrow> \<not> spent (tk s) (hash_token L raw) \<and> spent (tk s') (hash_token L raw))"
proof (cases "raw = [] \<or> isl (new_opaque_token (dr_random d))")
  case True
  then show ?thesis using run s by (cases "new_opaque_token (dr_random d)") (auto simp: aus_Refresh_def andthen_def auth_moves_refl split: if_splits)
next
  case False
  then obtain new where raw: "raw \<noteq> []" and new: "new_opaque_token (dr_random d) = Inr new" by (auto simp: isl_def split: sum.splits) (metis sum.exhaust)
  let ?h = "hash_token L raw"
  let ?t = "\<lparr>rft_ID = dr_id d, rft_UserID = 0, rft_TokenHash = hash_token L new,
      rft_ExpiresAt = dr_now d + ah_refreshTTL S, rft_RevokedAt = None, rft_CreatedAt = dr_now d\<rparr>"
  obtain y s1 where y: "rf_Rotate R ?h (dr_now d) ?t s = (y, s1)" by fastforce
  have ft: "fresh_token (tk s) (rft_TokenHash ?t) (rft_ID ?t)" using fresh new by (simp add: fresh_draws_def)
  have rot_new: "rft_RevokedAt ?t = None" by simp
  note rot = rotate [OF s ft rot_new y]
  show ?thesis
  proof (cases y)
    case (Inl e)
    then obtain z s2 where f: "aus_revokeFamilyOnReuse S ?h (dr_now d) s1 = (z, s2)" by fastforce
    have "s' = s2 \<and> isl x" using run y Inl f repos raw new
      by (auto simp: aus_Refresh_def andthen_def attempt_def Let_def split: sum.splits)
    moreover have "ok s1" "us s1 = us s" "tk s1 = tk s" using rot Inl by auto
    ultimately show ?thesis using revokeFamily_step [OF _ f] by (auto simp: auth_moves_def)
  next
    case (Inr c)
    then obtain r where r: "tk s ?h = Some r" "rft_RevokedAt r = None" "ok s1" "us s1 = us s"
      "tk s1 = (tk s)(?h \<mapsto> r\<lparr>rft_RevokedAt := Some (stamp (dr_now d))\<rparr>, hash_token L new \<mapsto>
         ?t\<lparr>rft_UserID := rft_UserID r, rft_ExpiresAt := stamp (rft_ExpiresAt ?t), rft_CreatedAt := stamp (rft_CreatedAt ?t)\<rparr>)"
      using rot by auto
    have ne: "hash_token L new \<noteq> ?h" using ft r(1) by (auto simp: fresh_token_def)
    obtain v s2 where v: "ur_FindByID U (rft_UserID c) s1 = (v, s2)" by fastforce
    have "s' = s2" using run y Inr v repos raw new
      by (auto simp: aus_Refresh_def andthen_def attempt_def map_err_def Let_def split: sum.splits prod.splits)
    moreover have "ok s2" "us s2 = us s1" "tk s2 = tk s1" using read_steps(2) [OF v] r(3) by auto
    moreover have "spent (tk s1) g" if "spent (tk s) g" for g
      using that r(5) ft by (auto simp: spent_def fresh_token_def)
    moreover have "\<not> spent (tk s) ?h" "spent (tk s1) ?h" using r ne by (auto simp: spent_def)
    ultimately show ?thesis using r(4) by (auto simp: auth_moves_def)
  qed
qed

lemma Logout_step:
  assumes s: "ok s" and run: "aus_Logout L S now now' raw s = (x, s')"
  shows "auth_moves ok us tk s s' \<and> us s' = us s"
proof -
  obtain f s1 where f: "aus_lookupRefresh L S now raw s = (f, s1)" by fastforce
  have s1: "ok s1" "us s1 = us s" "tk s1 = tk s"
  proof -
    obtain g s2 where g: "rf_FindByHash R (hash_token L raw) s = (g, s2)" by fastforce
    have "s1 = s \<or> s1 = s2" using f g repos
      by (auto simp: aus_lookupRefresh_def andthen_def map_err_def split: if_splits sum.splits)
    then show "ok s1" "us s1 = us s" "tk s1 = tk s" using read_steps(3) [OF g] s by auto
  qed
  show ?thesis
  proof (cases f)
    case (Inl e)
    then show ?thesis using run f s1 by (auto simp: aus_Logout_def andthen_def attempt_def auth_moves_same)
  next
    case (Inr rec)
    obtain z s2 where z: "rf_Revoke R (rft_ID rec) now' s1 = (z, s2)" by fastforce
    have "s' = s2" using run f Inr z repos
      by (auto simp: aus_Logout_def andthen_def attempt_def split: sum.splits if_splits)
    then show ?thesis using revoke [OF s1(1) z] s1
      by (auto simp: auth_moves_def intro: spent_upd split: sum.splits)
  qed
qed

lemma Login_cases:
  assumes s: "ok s" and run: "aus_Login L S d e0 p s = (x, s')"
  obtains (refused) "x = Inl ErrInvalidCredentials \<or> (\<exists>m. x = Inl (ErrPanic m))" "ok s'" "us s' = us s" "tk s' = tk s"
  | (in_) e u s1 y where "normalize_email L e0 = Inr e" "us s (usr_ID u) = Some u" "usr_Email u = e"
      "ph_Compare (ah_hasher S) (usr_PasswordHash u) p = Inr ()" "ok s1" "us s1 = us s" "tk s1 = tk s"
      "aus_issuePair L S d u s1 = (y, s')" "x = map_sum id (\<lambda>pair. (user_toDTO u, pair)) y"
proof (cases "normalize_email L e0")
  case (Inl m)
  then show ?thesis using run s refused by (auto simp: aus_Login_def andthen_def map_err_def)
next
  case e: (Inr e)
  obtain f s1 where f: "ur_FindByEmail U e s = (f, s1)" by fastforce
  note s1 = read_steps(1) [OF f]
  show ?thesis
  proof (cases f)
    case (Inl m)
    then show ?thesis using run s s1 e f repos refused by (auto simp: aus_Login_def andthen_def map_err_def)
  next
    case u: (Inr u)
    show ?thesis
    proof (cases "checked_password (ph_Compare (ah_hasher S) (usr_PasswordHash u) p)")
      case (Inl m)
      then have "m = ErrInvalidCredentials \<or> (\<exists>t. m = ErrPanic t)"
        by (auto simp: checked_password_def split: sum.splits err.splits)
      then show ?thesis using run s s1 e f u repos refused Inl by (auto simp: aus_Login_def andthen_def map_err_def)
    next
      case (Inr _)
      then have "ph_Compare (ah_hasher S) (usr_PasswordHash u) p = Inr ()"
        by (auto simp: checked_password_def split: sum.splits err.splits)
      moreover obtain y s2 where y: "aus_issuePair L S d u s1 = (y, s2)" by fastforce
      moreover have "s' = s2 \<and> x = map_sum id (\<lambda>pair. (user_toDTO u, pair)) y"
        using run e f u repos Inr y by (auto simp: aus_Login_def andthen_def map_err_def split: sum.splits)
      ultimately show ?thesis using in_ [OF e, of u s1 y] find_email(2) [OF s f [unfolded u]] s1 s by simp
    qed
  qed
qed

lemma Login_step:
  assumes "ok s" "fresh_draws L (tk s) d" "aus_Login L S d e p s = (x, s')"
  shows "auth_moves ok us tk s s' \<and> us s' = us s"
  using assms(1,3)
proof (cases rule: Login_cases)
  case refused
  then show ?thesis by (simp add: auth_moves_same)
next
  case (in_ e u s1 y)
  then show ?thesis using issuePair_step [OF in_(5) _ in_(8)] assms(2) by (simp add: auth_moves_def)
qed

lemma Register_cases:
  assumes s: "ok s" and free: "us s i = None" and run: "aus_Register L S salt now i d e0 p name s = (x, s')"
  obtains (refused) m where "x = Inl m" "ok s'" "us s' = us s" "tk s' = tk s"
  | (made) e hash u s1 y where "normalize_email L e0 = Inr e" "validate_password p = Inr ()"
      "ph_Hash (ah_hasher S) salt p = Inr hash" "usr_ID u = i" "usr_Email u = e" "usr_PasswordHash u = hash" "usr_Name u = name"
      "ok s1" "us s1 = (us s)(i \<mapsto> u)" "tk s1 = tk s"
      "aus_issuePair L S d u s1 = (y, s')" "x = map_sum id (\<lambda>pair. (user_toDTO u, pair)) y"
proof (cases "isl (normalize_email L e0) \<or> isl (validate_password p)")
  case True
  then show ?thesis using run s refused by (auto simp: aus_Register_def andthen_def isl_def split: sum.splits)
next
  case False
  then obtain e where e: "normalize_email L e0 = Inr e" and p: "validate_password p = Inr ()"
    by (auto simp: isl_def) (metis old.unit.exhaust sum.exhaust)
  obtain f s1 where f: "ur_FindByEmail U e s = (f, s1)" by fastforce
  have s1: "ok s1" "us s1 = us s" "tk s1 = tk s" using read_steps(1) [OF f] s by auto
  show ?thesis
  proof (cases "(\<exists>m. f = Inl m \<and> errors_is m (ErrNotFound Auth)) \<and> \<not> isl (ph_Hash (ah_hasher S) salt p)")
    case False
    then show ?thesis using run s1 e f p repos refused
      by (auto simp: aus_Register_def andthen_def attempt_def isl_def split: sum.splits if_splits)
  next
    case True
    then obtain m hash where m: "f = Inl m" "errors_is m (ErrNotFound Auth)" and h: "ph_Hash (ah_hasher S) salt p = Inr hash"
      by (auto simp: isl_def) (metis sum.exhaust)
    let ?u = "\<lparr>usr_ID = i, usr_Email = e, usr_PasswordHash = hash, usr_Name = name, usr_CreatedAt = now, usr_UpdatedAt = now\<rparr>"
    obtain c s2 where c: "ur_Create U ?u s1 = (c, s2)" by fastforce
    have free1: "us s1 (usr_ID ?u) = None" using free s1 by simp
    note created = user_create [OF s1(1) free1 c]
    show ?thesis
    proof (cases c)
      case (Inl q)
      then show ?thesis using run s1 e f p m h c repos refused created
        by (auto simp: aus_Register_def andthen_def attempt_def)
    next
      case (Inr u)
      obtain y s3 where y: "aus_issuePair L S d u s2 = (y, s3)" by fastforce
      have "s' = s3 \<and> x = map_sum id (\<lambda>pair. (user_toDTO u, pair)) y"
        using run e f p m h c repos Inr y by (auto simp: aus_Register_def andthen_def attempt_def split: sum.splits)
      then show ?thesis using made [OF e p h, of u s2 y] created Inr s1 y by auto
    qed
  qed
qed

lemma Register_step:
  assumes "ok s" "us s i = None" "fresh_draws L (tk s) d" "aus_Register L S salt now i d e p name s = (x, s')"
  shows "auth_moves ok us tk s s'"
  using assms(1,2,4)
proof (cases rule: Register_cases)
  case refused
  then show ?thesis by (simp add: auth_moves_same)
next
  case (made e hash u s1 y)
  have "fresh_draws L (tk s1) d" using assms(3) made(10) by simp
  then have "auth_moves ok us tk s1 s'" using issuePair_step [OF made(8) _ made(11)] by blast
  moreover have "auth_moves ok us tk s s1"
    using made(8,9,10) assms(2) unfolding auth_moves_def map_le_def by auto
  ultimately show ?thesis by (rule auth_moves_trans [rotated])
qed

text \<open>One call, and any sequence of calls.\<close>

lemma call_step:
  assumes "ok s" "fresh_call L (us s) (tk s) c" "do_auth_call L S c s = (b, s')"
  shows "auth_moves ok us tk s s'
     \<and> (b \<and> redeems raw c \<longrightarrow> \<not> spent (tk s) (hash_token L raw) \<and> spent (tk s') (hash_token L raw))"
proof (cases c)
  case (CallRegister salt now u d e p n)
  obtain x where "aus_Register L S salt now u d e p n s = (x, s')" using assms(3) CallRegister by (auto split: prod.splits)
  from Register_step [OF assms(1) _ _ this] show ?thesis using assms(2) CallRegister by simp
next
  case (CallLogin d e p)
  obtain x where "aus_Login L S d e p s = (x, s')" using assms(3) CallLogin by (auto split: prod.splits)
  from Login_step [OF assms(1) _ this] show ?thesis using assms(2) CallLogin by simp
next
  case (CallRefresh d raw')
  obtain x where x: "aus_Refresh L S d raw' s = (x, s')" and b: "b = (\<not> isl x)"
    using assms(3) CallRefresh by (auto split: prod.splits)
  have "fresh_draws L (tk s) d" using assms(2) CallRefresh by simp
  from Refresh_step [OF assms(1) this x] show ?thesis using b CallRefresh by (cases x) auto
next
  case (CallLogout now now' raw')
  obtain x where "aus_Logout L S now now' raw' s = (x, s')" using assms(3) CallLogout by (auto split: prod.splits)
  from Logout_step [OF assms(1) this] show ?thesis using CallLogout by simp
next
  case (CallMe u)
  obtain x where x: "aus_Me S u s = (x, s')" using assms(3) CallMe by (auto split: prod.splits)
  obtain v s1 where v: "ur_FindByID U u s = (v, s1)" by fastforce
  have "s' = s1" using x v repos by (auto simp: aus_Me_def andthen_def split: sum.splits)
  then show ?thesis using read_steps(2) [OF v] assms(1) CallMe by (simp add: auth_moves_same)
qed

lemma redeemed_once:
  assumes "ok s" "fresh_calls L S us tk cs s" "run_auth_calls L S cs s = (rs, s')"
  shows "auth_moves ok us tk s s'
     \<and> length (filter (\<lambda>(c, b). b \<and> redeems raw c) rs) \<le> (if spent (tk s) (hash_token L raw) then 0 else 1)"
  using assms
proof (induction cs arbitrary: s rs)
  case Nil
  then show ?case by (simp add: auth_moves_refl)
next
  case (Cons c cs)
  obtain b s1 rs' where c: "do_auth_call L S c s = (b, s1)" and cs: "run_auth_calls L S cs s1 = (rs', s')"
    and rs: "rs = (c, b) # rs'" using Cons.prems(3) by (auto simp: Let_def split: prod.splits)
  note st = call_step [OF Cons.prems(1) _ c]
  have fresh: "fresh_call L (us s) (tk s) c" "fresh_calls L S us tk cs s1" using Cons.prems(2) c by auto
  have "ok s1" using st fresh by (simp add: auth_moves_def)
  note IH = Cons.IH [OF this fresh(2) cs]
  have "auth_moves ok us tk s s1" "auth_moves ok us tk s1 s'" using st fresh(1) IH by simp_all
  then have "auth_moves ok us tk s s'" by (rule auth_moves_trans)
  moreover have "spent (tk s) (hash_token L raw) \<Longrightarrow> spent (tk s1) (hash_token L raw)"
    using st fresh by (simp add: auth_moves_def)
  ultimately show ?case using st fresh IH rs by (auto split: if_splits)
qed

text \<open>Reuse of a token revoked longer than the grace ago.\<close>

lemma reuse:
  assumes s: "ok s" and r: "tk s (hash_token L raw) = Some r" "rft_RevokedAt r = Some t"
    and late: "ah_reuseGrace S < time_sub (dr_now d) t" and raw: "raw \<noteq> []"
    and new: "new_opaque_token (dr_random d) = Inr new" and fresh: "fresh_draws L (tk s) d"
    and answers: "\<And>s1. tk s1 (hash_token L raw) \<noteq> None \<Longrightarrow> \<exists>rec s2. rf_FindByHash R (hash_token L raw) s1 = (Inr rec, s2)"
      "\<And>i at s1. \<exists>s2. rf_RevokeAllForUser R i at s1 = (Inr (), s2)"
    and run: "aus_Refresh L S d raw s = (x, s')"
  shows "(\<exists>e. x = Inl e) \<and> ok s' \<and> us s' = us s \<and> tk s' = revoke_all (rft_UserID r) (stamp (dr_now d)) (tk s)"
proof -
  let ?h = "hash_token L raw"
  let ?t = "\<lparr>rft_ID = dr_id d, rft_UserID = 0, rft_TokenHash = hash_token L new,
      rft_ExpiresAt = dr_now d + ah_refreshTTL S, rft_RevokedAt = None, rft_CreatedAt = dr_now d\<rparr>"
  obtain y s1 where y: "rf_Rotate R ?h (dr_now d) ?t s = (y, s1)" by fastforce
  have ft: "fresh_token (tk s) (rft_TokenHash ?t) (rft_ID ?t)" using fresh new by (simp add: fresh_draws_def)
  from rotate [OF s ft _ y] obtain e where e: "y = Inl e" and s1: "ok s1" "us s1 = us s" "tk s1 = tk s"
    using r by (cases y) auto
  obtain rec s2 where f: "rf_FindByHash R ?h s1 = (Inr rec, s2)" using answers(1) [of s1] s1 r by auto
  have rec: "rec = r" using find_hash(2) [OF s1(1) f] s1 r by simp
  have s2: "ok s2" "us s2 = us s" "tk s2 = tk s" using read_steps(3) [OF f] s1 by auto
  obtain s3 where z: "rf_RevokeAllForUser R (rft_UserID r) (dr_now d) s2 = (Inr (), s3)" using answers(2) by blast
  have "x = Inl e \<and> s' = s3" using run y e f z rec r late raw new repos
    by (auto simp: aus_Refresh_def aus_revokeFamilyOnReuse_def andthen_def attempt_def ignore_def Let_def)
  then show ?thesis using revoke_family [OF s2(1) z] s2 by auto
qed

text \<open>A registered user stays, with the password and the email they registered.\<close>

lemma registered_then_login:
  assumes s: "ok s" and reg: "us s i = None" "fresh_draws L (tk s) d" "aus_Register L S salt now i d e p name s = (Inr (dto, pair), s1)"
    and calls: "fresh_calls L S us tk cs s1" "run_auth_calls L S cs s1 = (rs, s2)"
    and same: "normalize_email L e' = normalize_email L e" and log: "aus_Login L S d' e' q s2 = (x, s3)"
    and answers: "\<And>v. ok s2 \<Longrightarrow> us s2 i = Some v \<Longrightarrow> \<exists>u s4. ur_FindByEmail U (usr_Email v) s2 = (Inr u, s4)"
  shows "\<exists>hash. ph_Hash (ah_hasher S) salt p = Inr hash
     \<and> (\<forall>dto' pair'. x = Inr (dto', pair') \<longrightarrow> dto' = dto \<and> ph_Compare (ah_hasher S) hash q = Inr ())
     \<and> (ph_Compare (ah_hasher S) hash q = Inr () \<longrightarrow> (\<exists>u s4 y s5. aus_issuePair L S d' u s4 = (y, s5) \<and> ok s4 \<and> tk s4 = tk s2
           \<and> user_toDTO u = dto \<and> x = map_sum id (\<lambda>pair. (dto, pair)) y))
     \<and> (ph_Compare (ah_hasher S) hash q = Inl ErrMismatch \<longrightarrow> x = Inl ErrInvalidCredentials)"
  using s reg(1,3)
proof (cases rule: Register_cases)
  case refused
  then show ?thesis by simp
next
  case (made em hash u sa y)
  have dto: "dto = user_toDTO u" using made(12) by (cases y) auto
  have "fresh_draws L (tk sa) d" using reg(2) made(10) by simp
  then have s1: "ok s1" "us s1 = us sa" using issuePair_step [OF made(8) _ made(11)] by (auto simp: auth_moves_def)
  have s2: "ok s2" "us s2 i = Some u" using redeemed_once [OF s1(1) calls] made(9) s1(2)
    by (auto simp: auth_moves_def map_le_def)
  obtain v s4 where f: "ur_FindByEmail U em s2 = (Inr v, s4)" using answers [OF s2] made(5) by auto
  have "us s2 (usr_ID v) = Some v" "usr_Email v = em" using find_email(2) [OF s2(1) f] by auto
  then have v: "v = u" using emails [OF s2(1), of "usr_ID v" v i u] s2(2) made(5) by simp
  have s4: "ok s4" "tk s4 = tk s2" using read_steps(1) [OF f] s2(1) by auto
  obtain y' s5 where y': "aus_issuePair L S d' u s4 = (y', s5)" by fastforce
  have em: "normalize_email L e' = Inr em" using same made(1) by simp
  have x: "x = (case checked_password (ph_Compare (ah_hasher S) hash q) of Inl m \<Rightarrow> Inl m | Inr _ \<Rightarrow> map_sum id (\<lambda>pair. (dto, pair)) y')"
    using log em f v made(6) y' repos dto
    by (auto simp: aus_Login_def andthen_def map_err_def split: sum.splits)
  have "dto' = dto" if "map_sum id (\<lambda>pair. (dto, pair)) y' = Inr (dto', pair')" for dto' pair'
    using that by (cases y') auto
  then show ?thesis using made(3) y' s4 dto x
    by (auto simp: checked_password_def split: sum.splits err.splits intro!: exI [of _ u])
qed

end

end
