(* ===== verification/Indexed.thy ===== *)
theory Indexed
  imports Prelude
begin

text \<open>
  A Go map by identifier kept together with an index by another key, as several memory stores have it
  (users by email, tokens and share links by hash): \<open>indexed\<close> says the two agree, \<open>look\<close> is what is found
  under a key.
\<close>

definition indexed :: "('v \<Rightarrow> uuid) \<Rightarrow> ('v \<Rightarrow> string) \<Rightarrow> (uuid, 'v) gomap \<Rightarrow> (string, uuid) gomap \<Rightarrow> bool" where
  "indexed ident key m idx \<longleftrightarrow>
     (\<forall>h i. m_get idx h = Some i \<longrightarrow> (\<exists>t. m_get m i = Some t \<and> key t = h))
     \<and> (\<forall>i t. m_get m i = Some t \<longrightarrow> ident t = i \<and> m_get idx (key t) = Some i)"

lemma indexedD:
  "indexed ident key m idx \<Longrightarrow> m_get idx h = Some i \<Longrightarrow> \<exists>t. m_get m i = Some t \<and> key t = h \<and> ident t = i"
  "indexed ident key m idx \<Longrightarrow> m_get m i = Some t \<Longrightarrow> ident t = i \<and> m_get idx (key t) = Some i"
  by (fastforce simp: indexed_def)+

lemma indexedI:
  assumes "\<And>h i. m_get idx h = Some i \<Longrightarrow> \<exists>t. m_get m i = Some t \<and> key t = h"
    and "\<And>i t. m_get m i = Some t \<Longrightarrow> ident t = i \<and> m_get idx (key t) = Some i"
  shows "indexed ident key m idx"
  using assms by (auto simp: indexed_def)

lemma indexed_insert:
  assumes I: "indexed ident key m idx" and i: "m_get m (ident t) = None" and k: "m_get idx (key t) = None"
  shows "indexed ident key (m_set (ident t) t m) (m_set (key t) (ident t) idx)"
proof (rule indexedI)
  fix h j assume "m_get (m_set (key t) (ident t) idx) h = Some j"
  then show "\<exists>t'. m_get (m_set (ident t) t m) j = Some t' \<and> key t' = h"
    using indexedD(1) [OF I, of h j] i by (auto split: if_splits)
next
  fix j t' assume "m_get (m_set (ident t) t m) j = Some t'"
  then show "ident t' = j \<and> m_get (m_set (key t) (ident t) idx) (key t') = Some j"
    using indexedD(2) [OF I, of j t'] k by (auto split: if_splits)
qed

lemma indexed_change:
  assumes I: "indexed ident key m idx" and t: "m_get m i = Some t" and same: "ident t' = ident t" "key t' = key t"
  shows "indexed ident key (m_set i t' m) idx"
proof (rule indexedI)
  fix h j assume "m_get idx h = Some j"
  then show "\<exists>t''. m_get (m_set i t' m) j = Some t'' \<and> key t'' = h"
    using indexedD(1) [OF I, of h j] t same by auto
next
  fix j t'' assume "m_get (m_set i t' m) j = Some t''"
  then show "ident t'' = j \<and> m_get idx (key t'') = Some j"
    using indexedD(2) [OF I, of j] t same by (auto split: if_splits)
qed

text \<open>What is found under a key.\<close>

definition look :: "(uuid, 'v) gomap \<Rightarrow> (string, uuid) gomap \<Rightarrow> string \<Rightarrow> 'v option" where
  "look m idx h = (case m_get idx h of None \<Rightarrow> None | Some i \<Rightarrow> m_get m i)"

lemma look_insert:
  assumes "indexed ident key m idx" "m_get m (ident t) = None"
  shows "look (m_set (ident t) t m) (m_set (key t) (ident t) idx) = (look m idx)(key t \<mapsto> t)"
proof
  fix h show "look (m_set (ident t) t m) (m_set (key t) (ident t) idx) h = ((look m idx)(key t \<mapsto> t)) h"
    using indexedD(1) [OF assms(1), of h] assms(2) by (auto simp: look_def split: option.splits)
qed

lemma look_change:
  assumes I: "indexed ident key m idx" and t: "m_get m i = Some t"
  shows "look (m_set i t' m) idx = (look m idx)(key t \<mapsto> t')"
proof
  fix h show "look (m_set i t' m) idx h = ((look m idx)(key t \<mapsto> t')) h"
    using indexedD(1) [OF I, of h] indexedD(2) [OF I t] t by (auto simp: look_def split: option.splits)
qed

text \<open>The entries of such a map have different identifiers.\<close>

lemma m_vals_distinct:
  assumes "m_wf m" "\<And>i v. m_get m i = Some v \<Longrightarrow> ident v = i"
  shows "distinct (map ident (m_vals m))"
proof -
  have "map ident (m_vals m) = map fst m"
    using assms by (auto simp: m_vals_def m_wf_def)
  then show ?thesis using assms(1) by (simp add: m_wf_def)
qed

lemma m_vals_distinct_key:
  assumes "m_wf m" "\<And>i v. m_get m i = Some v \<Longrightarrow> ident v = i" "\<And>v. snd (key v) = ident v"
  shows "distinct (map key (filter P (m_vals m)))"
proof -
  have "distinct (map (\<lambda>v. snd (key v)) (filter P (m_vals m)))"
    using m_vals_distinct [OF assms(1,2)] assms(3) by (simp add: distinct_map_filter)
  then show ?thesis by (auto simp: distinct_map inj_on_def)
qed

end
