(* ===== verification/Auth_Memory.thy ===== *)
theory Auth_Memory
  imports Auth Indexed Sample_Lib
begin

text \<open>
  \<open>internal/auth/adapter/memory/memory.go\<close>: the in-memory users and refresh tokens, one record \<open>auth_mem\<close>
  for the two structs. Interprets \<open>auth_store\<close> and \<open>auth_client\<close> with the argon2id hasher and the JWT
  manager, and states the properties of the service over them.
\<close>

record auth_mem =
  aum_users :: "(uuid, user) gomap"
  aum_emails :: "(string, uuid) gomap"
  aum_tokens :: "(uuid, refresh_token) gomap"
  aum_hashes :: "(string, uuid) gomap"

definition aum_new :: auth_mem where
  "aum_new = \<lparr>aum_users = [], aum_emails = [], aum_tokens = [], aum_hashes = []\<rparr>"

section \<open>Users\<close>

definition aum_Create :: "user \<Rightarrow> (auth_mem, user) op" where
  "aum_Create u r =
     (if m_get (aum_emails r) (usr_Email u) \<noteq> None then (Inl ErrEmailTaken, r)
      else (Inr u, r\<lparr>aum_users := m_set (usr_ID u) u (aum_users r), aum_emails := m_set (usr_Email u) (usr_ID u) (aum_emails r)\<rparr>))"

definition zero_user :: user where
  "zero_user = \<lparr>usr_ID = 0, usr_Email = [], usr_PasswordHash = [], usr_Name = [], usr_CreatedAt = 0, usr_UpdatedAt = 0\<rparr>"

definition aum_FindByEmail :: "string \<Rightarrow> (auth_mem, user) op" where
  "aum_FindByEmail email r =
     (case m_get (aum_emails r) email of
        None \<Rightarrow> Inl (ErrNotFound Auth)
      | Some i \<Rightarrow> Inr (case m_get (aum_users r) i of Some u \<Rightarrow> u | None \<Rightarrow> zero_user), r)"

definition aum_FindByID :: "uuid \<Rightarrow> (auth_mem, user) op" where
  "aum_FindByID i r = (case m_get (aum_users r) i of None \<Rightarrow> Inl (ErrNotFound Auth) | Some u \<Rightarrow> Inr u, r)"

definition aum_user_repo :: "auth_mem user_repository" where
  "aum_user_repo = \<lparr>ur_Create = aum_Create, ur_FindByEmail = aum_FindByEmail, ur_FindByID = aum_FindByID\<rparr>"

section \<open>Refresh tokens\<close>

definition aum_CreateToken :: "refresh_token \<Rightarrow> (auth_mem, refresh_token) op" where
  "aum_CreateToken t r =
     (Inr t, r\<lparr>aum_tokens := m_set (rft_ID t) t (aum_tokens r), aum_hashes := m_set (rft_TokenHash t) (rft_ID t) (aum_hashes r)\<rparr>)"

definition zero_token :: refresh_token where
  "zero_token = \<lparr>rft_ID = 0, rft_UserID = 0, rft_TokenHash = [], rft_ExpiresAt = 0, rft_RevokedAt = None, rft_CreatedAt = 0\<rparr>"

definition aum_token :: "uuid \<Rightarrow> auth_mem \<Rightarrow> refresh_token" where
  "aum_token i r = (case m_get (aum_tokens r) i of Some t \<Rightarrow> t | None \<Rightarrow> zero_token)"

definition aum_FindByHash :: "string \<Rightarrow> (auth_mem, refresh_token) op" where
  "aum_FindByHash h r =
     (case m_get (aum_hashes r) h of None \<Rightarrow> Inl (ErrNotFound Auth) | Some i \<Rightarrow> Inr (aum_token i r), r)"

definition aum_Rotate :: "string \<Rightarrow> go_time \<Rightarrow> refresh_token \<Rightarrow> (auth_mem, refresh_token) op" where
  "aum_Rotate h at replacement0 r =
     (case m_get (aum_hashes r) h of
        None \<Rightarrow> (Inl ErrUnauthorized, r)
      | Some i \<Rightarrow>
          if \<not> rft_active (aum_token i r) at then (Inl ErrUnauthorized, r)
          else let consumed = (aum_token i r)\<lparr>rft_RevokedAt := Some at\<rparr>;
                   replacement = replacement0\<lparr>rft_UserID := rft_UserID consumed\<rparr>
          in (Inr consumed,
              r\<lparr>aum_tokens := m_set (rft_ID replacement) replacement (m_set i consumed (aum_tokens r)),
                aum_hashes := m_set (rft_TokenHash replacement) (rft_ID replacement) (aum_hashes r)\<rparr>))"

definition aum_Revoke :: "uuid \<Rightarrow> go_time \<Rightarrow> (auth_mem, unit) op" where
  "aum_Revoke i at r =
     (case m_get (aum_tokens r) i of
        None \<Rightarrow> (Inl (ErrNotFound Auth), r)
      | Some t \<Rightarrow>
          if rft_RevokedAt t \<noteq> None then (Inl (ErrNotFound Auth), r)
          else (Inr (), r\<lparr>aum_tokens := m_set i (t\<lparr>rft_RevokedAt := Some at\<rparr>) (aum_tokens r)\<rparr>))"

definition aum_revoked :: "uuid \<Rightarrow> go_time \<Rightarrow> refresh_token \<Rightarrow> refresh_token" where
  "aum_revoked u at t =
     (if rft_UserID t = u \<and> rft_RevokedAt t = None then t\<lparr>rft_RevokedAt := Some at\<rparr> else t)"

definition aum_RevokeAllForUser :: "uuid \<Rightarrow> go_time \<Rightarrow> (auth_mem, unit) op" where
  "aum_RevokeAllForUser u at r = (Inr (), r\<lparr>aum_tokens := map (\<lambda>(i, t). (i, aum_revoked u at t)) (aum_tokens r)\<rparr>)"

definition aum_refresh_repo :: "auth_mem refresh_repository" where
  "aum_refresh_repo =
     \<lparr>rf_Create = aum_CreateToken, rf_FindByHash = aum_FindByHash, rf_Revoke = aum_Revoke,
      rf_RevokeAllForUser = aum_RevokeAllForUser, rf_Rotate = aum_Rotate\<rparr>"

text \<open>The service over these repositories, with a reuse grace of \<open>g\<close> (10 seconds unless a test sets it).\<close>

definition aum_service :: "'z golib_scheme \<Rightarrow> argon \<Rightarrow> jwt_lib \<Rightarrow> jwt_manager \<Rightarrow> duration \<Rightarrow> duration \<Rightarrow> auth_mem auth_service" where
  "aum_service L A J m ttl g =
     with_reuse_grace g (auth_service_new aum_user_repo aum_refresh_repo \<lparr>ph_Hash = argon_Hash A, ph_Compare = argon_Compare A\<rparr>
       \<lparr>tm_Issue = jwt_IssueAccessToken L J m, tm_Parse = jwt_ParseAccessToken L J m\<rparr> ttl)"

lemma aum_service_simps [simp]:
  "ah_users (aum_service L A J m ttl g) = aum_user_repo" "ah_refresh (aum_service L A J m ttl g) = aum_refresh_repo"
  "ah_hasher (aum_service L A J m ttl g) = \<lparr>ph_Hash = argon_Hash A, ph_Compare = argon_Compare A\<rparr>"
  "ah_tokens (aum_service L A J m ttl g) = \<lparr>tm_Issue = jwt_IssueAccessToken L J m, tm_Parse = jwt_ParseAccessToken L J m\<rparr>"
  "ah_refreshTTL (aum_service L A J m ttl g) = ttl" "ah_reuseGrace (aum_service L A J m ttl g) = g"
  by (simp_all add: aum_service_def with_reuse_grace_def auth_service_new_def)

section \<open>The repositories meet the contract\<close>

definition aum_ok :: "auth_mem \<Rightarrow> bool" where
  "aum_ok r \<longleftrightarrow> indexed usr_ID usr_Email (aum_users r) (aum_emails r) \<and> indexed rft_ID rft_TokenHash (aum_tokens r) (aum_hashes r)"

definition aum_us :: "auth_mem \<Rightarrow> users" where
  "aum_us r = m_get (aum_users r)"

definition aum_tk :: "auth_mem \<Rightarrow> tokens" where
  "aum_tk r = look (aum_tokens r) (aum_hashes r)"

lemmas aum_defs = aum_user_repo_def aum_refresh_repo_def aum_Create_def aum_FindByEmail_def aum_FindByID_def
  aum_CreateToken_def aum_FindByHash_def aum_Rotate_def aum_Revoke_def aum_RevokeAllForUser_def

lemma aum_new_ok: "aum_ok aum_new"
  by (simp add: aum_ok_def aum_new_def indexed_def)

lemma aum_tk_at:
  "aum_ok r \<Longrightarrow> m_get (aum_hashes r) h = Some i \<Longrightarrow>
     aum_tk r h = Some (aum_token i r) \<and> m_get (aum_tokens r) i = Some (aum_token i r) \<and> rft_TokenHash (aum_token i r) = h
     \<and> rft_ID (aum_token i r) = i"
  by (auto simp: aum_ok_def aum_tk_def look_def aum_token_def dest: indexedD(1))

lemma aum_fresh:
  assumes "aum_ok r" "fresh_token (aum_tk r) h i"
  shows "m_get (aum_hashes r) h = None \<and> m_get (aum_tokens r) i = None"
proof -
  have I: "indexed rft_ID rft_TokenHash (aum_tokens r) (aum_hashes r)" using assms(1) by (simp add: aum_ok_def)
  have "m_get (aum_hashes r) h = None"
    using assms(2) indexedD(1) [OF I, of h] by (auto simp: fresh_token_def aum_tk_def look_def split: option.splits)
  moreover have "m_get (aum_tokens r) i = None"
  proof (rule ccontr)
    assume "m_get (aum_tokens r) i \<noteq> None"
    then obtain t where t: "m_get (aum_tokens r) i = Some t" by auto
    then have "look (aum_tokens r) (aum_hashes r) (rft_TokenHash t) = Some t" "rft_ID t = i"
      using indexedD(2) [OF I t] by (auto simp: look_def)
    then show False using assms(2) by (simp add: fresh_token_def aum_tk_def)
  qed
  ultimately show ?thesis by simp
qed

lemma aum_insert:
  assumes "aum_ok r" "m_get (aum_tokens r) (rft_ID t) = None" "m_get (aum_hashes r) (rft_TokenHash t) = None"
  shows "aum_ok (r\<lparr>aum_tokens := m_set (rft_ID t) t (aum_tokens r), aum_hashes := m_set (rft_TokenHash t) (rft_ID t) (aum_hashes r)\<rparr>)"
    and "aum_tk (r\<lparr>aum_tokens := m_set (rft_ID t) t (aum_tokens r), aum_hashes := m_set (rft_TokenHash t) (rft_ID t) (aum_hashes r)\<rparr>)
      = (aum_tk r)(rft_TokenHash t \<mapsto> t)"
  using assms indexed_insert look_insert by (auto simp: aum_ok_def aum_tk_def)

lemma aum_change:
  assumes "aum_ok r" "m_get (aum_tokens r) i = Some t"
  shows "aum_ok (r\<lparr>aum_tokens := m_set i (t\<lparr>rft_RevokedAt := a\<rparr>) (aum_tokens r)\<rparr>)"
    and "aum_tk (r\<lparr>aum_tokens := m_set i (t\<lparr>rft_RevokedAt := a\<rparr>) (aum_tokens r)\<rparr>) = (aum_tk r)(rft_TokenHash t \<mapsto> t\<lparr>rft_RevokedAt := a\<rparr>)"
  using assms indexed_change [of rft_ID rft_TokenHash "aum_tokens r" "aum_hashes r" i t "t\<lparr>rft_RevokedAt := a\<rparr>"]
    look_change [of rft_ID rft_TokenHash "aum_tokens r" "aum_hashes r" i t]
  by (simp_all add: aum_ok_def aum_tk_def)

lemma map_of_mapped: "map_of (map (\<lambda>(i, t). (i, f t)) m) k = map_option f (map_of m k)"
  by (induction m) auto

lemma aum_revoked_same [simp]:
  "rft_ID (aum_revoked u at t) = rft_ID t" "rft_TokenHash (aum_revoked u at t) = rft_TokenHash t"
  by (simp_all add: aum_revoked_def)

lemma aum_RevokeAll_shape:
  assumes "aum_ok r"
  shows "aum_ok (snd (aum_RevokeAllForUser u at r))" "aum_tk (snd (aum_RevokeAllForUser u at r)) = revoke_all u at (aum_tk r)"
proof -
  have I: "indexed rft_ID rft_TokenHash (aum_tokens r) (aum_hashes r)" using assms by (simp add: aum_ok_def)
  have "indexed rft_ID rft_TokenHash (map (\<lambda>(i, t). (i, aum_revoked u at t)) (aum_tokens r)) (aum_hashes r)"
    using indexedD [OF I] by (intro indexedI) (fastforce simp: map_of_mapped)+
  then show "aum_ok (snd (aum_RevokeAllForUser u at r))" using assms by (simp add: aum_ok_def aum_RevokeAllForUser_def)
  show "aum_tk (snd (aum_RevokeAllForUser u at r)) = revoke_all u at (aum_tk r)"
    by (rule ext) (simp add: aum_tk_def look_def aum_RevokeAllForUser_def revoke_all_def map_of_mapped aum_revoked_def split: option.splits)
qed

lemma aum_Rotate_shape:
  assumes ok: "aum_ok s" and fresh: "fresh_token (aum_tk s) (rft_TokenHash t) (rft_ID t)" and run: "aum_Rotate h at t s = (Inr c, s')"
  shows "aum_ok s' \<and> aum_us s' = aum_us s \<and> (\<exists>r. aum_tk s h = Some r \<and> rft_RevokedAt r = None \<and> at < rft_ExpiresAt r \<and> rft_UserID c = rft_UserID r
     \<and> aum_tk s' = (aum_tk s)(h \<mapsto> r\<lparr>rft_RevokedAt := Some at\<rparr>, rft_TokenHash t \<mapsto> t\<lparr>rft_UserID := rft_UserID r\<rparr>))"
proof -
  obtain i where i: "m_get (aum_hashes s) h = Some i" and act: "rft_active (aum_token i s) at"
    using run by (auto simp: aum_Rotate_def Let_def split: option.splits if_splits)
  let ?r = "aum_token i s"
  let ?s1 = "s\<lparr>aum_tokens := m_set i (?r\<lparr>rft_RevokedAt := Some at\<rparr>) (aum_tokens s)\<rparr>"
  let ?t = "t\<lparr>rft_UserID := rft_UserID ?r\<rparr>"
  note r = aum_tk_at [OF ok i]
  have new: "m_get (aum_hashes s) (rft_TokenHash t) = None" "m_get (aum_tokens s) (rft_ID t) = None" "rft_ID t \<noteq> i"
    using aum_fresh [OF ok fresh] r by auto
  note s1 = aum_change [OF ok, of i ?r "Some at"]
  have "aum_ok (?s1\<lparr>aum_tokens := m_set (rft_ID ?t) ?t (aum_tokens ?s1), aum_hashes := m_set (rft_TokenHash ?t) (rft_ID ?t) (aum_hashes ?s1)\<rparr>)"
    "aum_tk (?s1\<lparr>aum_tokens := m_set (rft_ID ?t) ?t (aum_tokens ?s1), aum_hashes := m_set (rft_TokenHash ?t) (rft_ID ?t) (aum_hashes ?s1)\<rparr>)
       = (aum_tk s)(h \<mapsto> ?r\<lparr>rft_RevokedAt := Some at\<rparr>, rft_TokenHash t \<mapsto> ?t)"
    using aum_insert [of ?s1 ?t] s1 r new by auto
  moreover have "s' = ?s1\<lparr>aum_tokens := m_set (rft_ID ?t) ?t (aum_tokens ?s1), aum_hashes := m_set (rft_TokenHash ?t) (rft_ID ?t) (aum_hashes ?s1)\<rparr>"
    "rft_UserID c = rft_UserID ?r"
    using run i act by (auto simp: aum_Rotate_def Let_def)
  ultimately show ?thesis using r act by (auto simp: rft_active_def aum_us_def)
qed

interpretation aum: auth_store aum_user_repo aum_refresh_repo aum_ok aum_us aum_tk "\<lambda>t. t"
proof (unfold_locales, goal_cases)
  case (1 s i u j v)
  then have I: "indexed usr_ID usr_Email (aum_users s) (aum_emails s)" by (simp add: aum_ok_def)
  from 1 show ?case using indexedD(2) [OF I, of i u] indexedD(2) [OF I, of j v] by (simp add: aum_us_def)
next
  case (2 e)
  show ?case by (rule keepsI) (simp add: aum_defs)
next
  case (3 s e u s')
  then show ?case using indexedD(1) [of usr_ID usr_Email "aum_users s" "aum_emails s" e]
    by (auto simp: aum_ok_def aum_us_def aum_defs split: option.splits)
next
  case (4 s e s' i v)
  then show ?case using indexedD(2) [of usr_ID usr_Email "aum_users s" "aum_emails s" i v]
    by (auto simp: aum_ok_def aum_us_def aum_defs split: option.splits)
next
  case (5 i)
  show ?case by (rule keepsI) (simp add: aum_defs)
next
  case (6 s i u s')
  then show ?case using indexedD(2) [of usr_ID usr_Email "aum_users s" "aum_emails s" i u]
    by (auto simp: aum_ok_def aum_us_def aum_defs split: option.splits)
next
  case (7 s u x s')
  then show ?case using indexed_insert [of usr_ID usr_Email "aum_users s" "aum_emails s" u]
    by (auto simp: aum_ok_def aum_us_def aum_tk_def aum_defs fun_eq_iff split: if_splits)
next
  case (8 s t y s')
  then show ?case using aum_fresh [OF 8(1,2)] aum_insert [OF 8(1), of t]
    by (auto simp: aum_refresh_repo_def aum_CreateToken_def aum_us_def)
next
  case (9 h)
  show ?case by (rule keepsI) (simp add: aum_defs)
next
  case (10 s h r s')
  then show ?case using aum_tk_at [of s h] by (auto simp: aum_defs split: option.splits)
next
  case (11 s t h at y s')
  show ?case
  proof (cases y)
    case (Inl e)
    then show ?thesis using 11 by (auto simp: aum_refresh_repo_def aum_Rotate_def Let_def split: option.splits if_splits)
  next
    case (Inr c)
    then show ?thesis using 11 aum_Rotate_shape [OF 11(1,2), of h at c s'] by (auto simp: aum_refresh_repo_def)
  qed
next
  case (12 s i at z s')
  show ?case
  proof (cases z)
    case (Inl e)
    then show ?thesis using 12 by (auto simp: aum_refresh_repo_def aum_Revoke_def split: option.splits if_splits)
  next
    case (Inr x)
    then obtain t where t: "m_get (aum_tokens s) i = Some t" "rft_RevokedAt t = None"
      "s' = s\<lparr>aum_tokens := m_set i (t\<lparr>rft_RevokedAt := Some at\<rparr>) (aum_tokens s)\<rparr>"
      using 12 by (auto simp: aum_refresh_repo_def aum_Revoke_def split: option.splits if_splits)
    have "rft_ID t = i \<and> aum_tk s (rft_TokenHash t) = Some t" using t(1) 12(1)
      by (auto simp: aum_ok_def aum_tk_def look_def dest!: indexedD(2))
    then show ?thesis using aum_change [OF 12(1) t(1), of "Some at"] t Inr by (auto simp: aum_us_def)
  qed
next
  case (13 s i at z s')
  then show ?case using aum_RevokeAll_shape [OF 13(1), of i at]
    by (auto simp: aum_refresh_repo_def aum_RevokeAllForUser_def aum_us_def)
qed

interpretation aumc: auth_client aum_user_repo aum_refresh_repo aum_ok aum_us aum_tk "\<lambda>t. t" "aum_service L A J m ttl g"
  by unfold_locales simp_all

section \<open>Properties\<close>

text \<open>
  C20: a refresh token is redeemed at most once. From an empty store, whatever calls users make in whatever
  order, as long as the identifiers and random tokens the service draws are new, at most one of the
  \<open>Refresh\<close> calls with the same token succeeds.
\<close>

theorem refresh_token_redeemed_once:
  assumes "fresh_calls L (aum_service L A J m ttl g) aum_us aum_tk cs aum_new"
    and "run_auth_calls L (aum_service L A J m ttl g) cs aum_new = (rs, s')"
  shows "length (filter (\<lambda>(c, b). b \<and> redeems raw c) rs) \<le> 1"
proof -
  have "length (filter (\<lambda>(c, b). b \<and> redeems raw c) rs) \<le> (if spent (aum_tk aum_new) (hash_token L raw) then 0 else 1)"
    using aumc.redeemed_once [OF aum_new_ok assms] by blast
  then show ?thesis by (simp split: if_splits)
qed

definition sample_argon :: argon where
  "sample_argon pw salt t mem p n = Inr (take n (pw @ salt @ replicate n (CHR ''k'')))"

text \<open>Tokens that spell out method, key and claims, separated by bars.\<close>

definition bar_free :: "string \<Rightarrow> bool" where
  "bar_free s \<longleftrightarrow> CHR ''|'' \<notin> set s"

definition sample_jwt :: jwt_lib where
  "sample_jwt =
     \<lparr>jl_sign = (\<lambda>k c.
        if bar_free k \<and> bar_free (jc_Email c) \<and> bar_free (jc_Subject c) \<and> bar_free (jc_Issuer c)
        then Inr (''HS256|'' @ k @ ''|'' @ jc_Email c @ ''|'' @ jc_Subject c @ ''|'' @ time_format sample_lib (jc_IssuedAt c)
               @ ''|'' @ time_format sample_lib (jc_ExpiresAt c) @ ''|'' @ jc_Issuer c)
        else Inl (ErrOther ''token cannot be signed'')),
      jl_alg = (\<lambda>token. case split_byte (CHR ''|'') token of alg # _ # _ \<Rightarrow> Some alg | _ \<Rightarrow> None),
      jl_parse = (\<lambda>now key token.
        case split_byte (CHR ''|'') token of
          [alg, k, email, sub, iat, exp, iss] \<Rightarrow>
            (case (key alg, time_parse sample_lib iat, time_parse sample_lib exp) of
               (Inr k', Inr iat, Inr exp) \<Rightarrow>
                  if k' \<noteq> k \<or> exp \<le> now then Inl (ErrOther ''token is invalid'')
                  else Inr (\<lparr>jc_Email = email, jc_Subject = sub, jc_IssuedAt = iat, jc_ExpiresAt = exp, jc_Issuer = iss\<rparr>, True)
             | _ \<Rightarrow> Inl (ErrOther ''token is malformed''))
        | _ \<Rightarrow> Inl (ErrOther ''token is malformed''))\<rparr>"

lemma split_bar: "bar_free a \<Longrightarrow> split_byte (CHR ''|'') (a @ ''|'' @ b) = a # split_byte (CHR ''|'') b"
  by (simp add: bar_free_def split_byte_append)

lemma bar_free_time: "bar_free (time_format sample_lib t)"
  using show_nat_not by (auto simp: bar_free_def sample_lib_def show_int_def)

lemma sample_jwt_ok: "jwt_lib_ok sample_jwt"
proof -
  have split: "split_byte (CHR ''|'') token = [''HS256'', k, jc_Email c, jc_Subject c, time_format sample_lib (jc_IssuedAt c),
      time_format sample_lib (jc_ExpiresAt c), jc_Issuer c]"
    if "jl_sign sample_jwt k c = Inr token" for k c token
  proof -
    have free: "bar_free k" "bar_free (jc_Email c)" "bar_free (jc_Subject c)" "bar_free (jc_Issuer c)"
      and token: "token = ''HS256'' @ ''|'' @ k @ ''|'' @ jc_Email c @ ''|'' @ jc_Subject c @ ''|'' @ time_format sample_lib (jc_IssuedAt c)
               @ ''|'' @ time_format sample_lib (jc_ExpiresAt c) @ ''|'' @ jc_Issuer c"
      using that by (auto simp: sample_jwt_def split: if_splits)
    have "bar_free ''HS256''" by code_simp
    with free bar_free_time show ?thesis unfolding token
      by (simp only: split_bar) (simp add: split_byte_free bar_free_def)
  qed
  have "jl_parse sample_jwt now key token = Inr (c, True)"
    if "jl_sign sample_jwt k c = Inr token" "key ''HS256'' = Inr k" "now < jc_ExpiresAt c" for k c token now key
    using split [OF that(1)] that(2,3) by (simp add: sample_jwt_def sample_time)
  moreover have "\<exists>alg k. jl_alg sample_jwt token = Some alg \<and> key alg = Inr k"
    if "jl_parse sample_jwt now key token = Inr (c, True)" for now key token c
    using that by (auto simp: sample_jwt_def split: list.splits sum.splits)
  ultimately show ?thesis unfolding jwt_lib_ok_def by blast
qed

definition sample_auth :: "auth_mem auth_service" where
  "sample_auth = aum_service sample_lib sample_argon sample_jwt \<lparr>jm_secret = ''key'', jm_ttl = 50\<rparr> 100 10"

definition draw :: "string \<Rightarrow> uuid \<Rightarrow> go_time \<Rightarrow> draws" where
  "draw b i now = \<lparr>dr_issued = now, dr_random = Inr b, dr_now = now, dr_id = i\<rparr>"

text \<open>Registration makes the token \<open>YTE\<close>; it is redeemed, and redeemed again.\<close>

definition sample_calls :: "auth_call list" where
  "sample_calls =
     [CallRegister (Inr ''salt'') 1 7 (draw ''a1'' 1 2) ''ann@x.org'' ''password'' ''Ann'',
      CallRefresh (draw ''a2'' 2 3) (b64_encode True ''a1''), CallRefresh (draw ''a3'' 3 4) (b64_encode True ''a1'')]"

text \<open>Freshness as a check of the tables.\<close>

definition unused :: "auth_mem \<Rightarrow> string \<Rightarrow> uuid \<Rightarrow> bool" where
  "unused r h i \<longleftrightarrow> m_get (aum_hashes r) h = None \<and> list_all (\<lambda>(j, t). rft_ID t \<noteq> i) (aum_tokens r)"

lemma unused_fresh: "unused r h i \<Longrightarrow> fresh_token (aum_tk r) h i"
  by (fastforce simp: unused_def fresh_token_def aum_tk_def look_def list_all_iff dest: map_of_SomeD split: option.splits)

definition unused_draws :: "'z golib_scheme \<Rightarrow> auth_mem \<Rightarrow> draws \<Rightarrow> bool" where
  "unused_draws L r d = (case new_opaque_token (dr_random d) of Inl e \<Rightarrow> True | Inr raw \<Rightarrow> unused r (hash_token L raw) (dr_id d))"

lemma unused_draws_fresh: "unused_draws L r d \<Longrightarrow> fresh_draws L (aum_tk r) d"
  by (auto simp: unused_draws_def fresh_draws_def intro: unused_fresh)

fun unused_call :: "'z golib_scheme \<Rightarrow> auth_mem \<Rightarrow> auth_call \<Rightarrow> bool" where
  "unused_call L r (CallRegister salt now u d e p n) \<longleftrightarrow> m_get (aum_users r) u = None \<and> unused_draws L r d"
| "unused_call L r (CallLogin d e p) \<longleftrightarrow> unused_draws L r d"
| "unused_call L r (CallRefresh d raw) \<longleftrightarrow> unused_draws L r d"
| "unused_call L r c \<longleftrightarrow> True"

fun unused_calls :: "'z golib_scheme \<Rightarrow> auth_mem auth_service \<Rightarrow> auth_call list \<Rightarrow> auth_mem \<Rightarrow> bool" where
  "unused_calls L S [] r \<longleftrightarrow> True"
| "unused_calls L S (c # cs) r \<longleftrightarrow> unused_call L r c \<and> unused_calls L S cs (snd (do_auth_call L S c r))"

lemma unused_calls_fresh: "unused_calls L S cs r \<Longrightarrow> fresh_calls L S aum_us aum_tk cs r"
proof (induction cs arbitrary: r)
  case (Cons c cs)
  then have "fresh_call L (aum_us r) (aum_tk r) c" by (cases c) (auto simp: aum_us_def unused_draws_fresh)
  then show ?case using Cons by simp
qed simp

lemma sample_drawn:
  "new_opaque_token (Inr ''a1'') = Inr ''YTE''" "new_opaque_token (Inr ''a2'') = Inr ''YTI''"
  "new_opaque_token (Inr ''a3'') = Inr ''YTM''" "b64_encode True ''a1'' = ''YTE''"
  by code_simp+

lemma sample_email: "normalize_email sample_lib ''ann@x.org'' = Inr ''ann@x.org''"
  by code_simp

lemma sample_issue:
  "\<exists>tok. jwt_IssueAccessToken sample_lib sample_jwt \<lparr>jm_secret = ''key'', jm_ttl = 50\<rparr> now 7 ''ann@x.org'' = Inr (tok, now + 50)"
proof -
  have "bar_free ''key''" "bar_free ''ann@x.org''" "bar_free ''bugsathi''" by code_simp+
  moreover have "bar_free (uuid_string sample_lib u)" for u using golib_ok_uuid_bar [OF sample_lib_ok] by (simp add: bar_free_def)
  ultimately show ?thesis by (simp add: jwt_IssueAccessToken_def jwt_claims_for_def sample_jwt_def Let_def)
qed

lemma sample_hash: "hash_token sample_lib s = CHR ''h'' # s"
  by (simp add: hash_token_def sample_lib_def)

lemma sample_service:
  "ah_users sample_auth = aum_user_repo" "ah_refresh sample_auth = aum_refresh_repo" "ah_refreshTTL sample_auth = 100"
  "ah_reuseGrace sample_auth = 10"
  "ah_hasher sample_auth = \<lparr>ph_Hash = argon_Hash sample_argon, ph_Compare = argon_Compare sample_argon\<rparr>"
  "ah_tokens sample_auth = \<lparr>tm_Issue = jwt_IssueAccessToken sample_lib sample_jwt \<lparr>jm_secret = ''key'', jm_ttl = 50\<rparr>,
     tm_Parse = jwt_ParseAccessToken sample_lib sample_jwt \<lparr>jm_secret = ''key'', jm_ttl = 50\<rparr>\<rparr>"
  by (simp_all add: sample_auth_def)

definition sample_user :: user where
  "sample_user = \<lparr>usr_ID = 7, usr_Email = ''ann@x.org'',
     usr_PasswordHash = encode_hash ''salt'' (take 32 (''password'' @ ''salt'' @ replicate 32 (CHR ''k''))),
     usr_Name = ''Ann'', usr_CreatedAt = 1, usr_UpdatedAt = 1\<rparr>"

definition registered :: auth_mem where
  "registered = \<lparr>aum_users = [(7, sample_user)], aum_emails = [(''ann@x.org'', 7)],
     aum_tokens = [(1, \<lparr>rft_ID = 1, rft_UserID = 7, rft_TokenHash = ''hYTE'', rft_ExpiresAt = 102, rft_RevokedAt = None, rft_CreatedAt = 2\<rparr>)],
     aum_hashes = [(''hYTE'', 1)]\<rparr>"

definition rotated :: auth_mem where
  "rotated = \<lparr>aum_users = [(7, sample_user)], aum_emails = [(''ann@x.org'', 7)],
     aum_tokens = [(1, \<lparr>rft_ID = 1, rft_UserID = 7, rft_TokenHash = ''hYTE'', rft_ExpiresAt = 102, rft_RevokedAt = Some 3, rft_CreatedAt = 2\<rparr>),
        (2, \<lparr>rft_ID = 2, rft_UserID = 7, rft_TokenHash = ''hYTI'', rft_ExpiresAt = 103, rft_RevokedAt = None, rft_CreatedAt = 3\<rparr>)],
     aum_hashes = [(''hYTE'', 1), (''hYTI'', 2)]\<rparr>"

lemma sample_register:
  "\<exists>dto pair. aus_Register sample_lib sample_auth (Inr ''salt'') 1 7 (draw ''a1'' 1 2) ''ann@x.org'' ''password'' ''Ann'' aum_new
     = (Inr (dto, pair), registered)"
proof -
  obtain tok where "jwt_IssueAccessToken sample_lib sample_jwt \<lparr>jm_secret = ''key'', jm_ttl = 50\<rparr> 2 7 ''ann@x.org'' = Inr (tok, 2 + 50)"
    using sample_issue by blast
  then show ?thesis
    by (simp add: aus_Register_def aus_issuePair_def andthen_def attempt_def sample_email validate_password_def sample_service
        aum_defs aum_new_def argon_Hash_def sample_argon_def draw_def sample_drawn sample_hash registered_def sample_user_def m_set_simps)
qed

lemma sample_refresh:
  "\<exists>pair. aus_Refresh sample_lib sample_auth (draw ''a2'' 2 3) ''YTE'' registered = (Inr pair, rotated)"
proof -
  obtain tok where "jwt_IssueAccessToken sample_lib sample_jwt \<lparr>jm_secret = ''key'', jm_ttl = 50\<rparr> 3 7 ''ann@x.org'' = Inr (tok, 3 + 50)"
    using sample_issue by blast
  then show ?thesis
    by (simp add: aus_Refresh_def andthen_def attempt_def map_err_def sample_service Let_def aum_defs aum_token_def rft_active_def
        draw_def sample_drawn sample_hash registered_def rotated_def sample_user_def m_set_simps)
qed

lemma sample_calls_unused: "unused_calls sample_lib sample_auth sample_calls aum_new"
proof -
  obtain dto pair pair' where
    "aus_Register sample_lib sample_auth (Inr ''salt'') 1 7 (draw ''a1'' 1 2) ''ann@x.org'' ''password'' ''Ann'' aum_new = (Inr (dto, pair), registered)"
    "aus_Refresh sample_lib sample_auth (draw ''a2'' 2 3) ''YTE'' registered = (Inr pair', rotated)"
    using sample_register sample_refresh by blast
  then show ?thesis
    by (simp add: sample_calls_def sample_drawn unused_draws_def unused_def draw_def sample_hash aum_new_def
        registered_def rotated_def)
qed

theorem refresh_token_redeemed_once_witness:
  "\<exists>rs s'. run_auth_calls sample_lib sample_auth sample_calls aum_new = (rs, s')
     \<and> length (filter (\<lambda>(c, b). b \<and> redeems (b64_encode True ''a1'') c) rs) \<le> 1"
proof -
  obtain rs s' where run: "run_auth_calls sample_lib sample_auth sample_calls aum_new = (rs, s')" by fastforce
  from refresh_token_redeemed_once [OF unused_calls_fresh [OF sample_calls_unused [unfolded sample_auth_def]] run [unfolded sample_auth_def]]
  show ?thesis using run by blast
qed

text \<open>
  C21: reuse of a refresh token ends the family. When a token that was revoked longer than the grace ago is
  presented again, the call fails and every token of its user is revoked, while other users keep theirs.
\<close>

theorem reuse_revokes_the_family:
  assumes "aum_ok s" "aum_tk s (hash_token L raw) = Some r" "rft_RevokedAt r = Some t" "raw \<noteq> []"
    and "g < time_sub (dr_now d) t" "dr_random d = Inr b" "fresh_draws L (aum_tk s) d"
    and "aus_Refresh L (aum_service L A J m ttl g) d raw s = (x, s')"
  shows "x = Inl ErrUnauthorized \<and> aum_tk s' = revoke_all (rft_UserID r) (dr_now d) (aum_tk s)
     \<and> (\<forall>h q. aum_tk s' h = Some q \<longrightarrow> rft_UserID q = rft_UserID r \<longrightarrow> \<not> rft_active q now)
     \<and> (\<forall>h q. aum_tk s h = Some q \<longrightarrow> rft_UserID q \<noteq> rft_UserID r \<longrightarrow> aum_tk s' h = Some q)"
proof -
  let ?S = "aum_service L A J m ttl g"
  have grace: "ah_reuseGrace ?S = g" "ah_refresh ?S = aum_refresh_repo"
    by simp_all
  have found: "\<exists>rec s2. rf_FindByHash aum_refresh_repo (hash_token L raw) s1 = (Inr rec, s2)" if "aum_tk s1 (hash_token L raw) \<noteq> None" for s1
    using that by (auto simp: aum_refresh_repo_def aum_FindByHash_def aum_tk_def look_def split: option.splits)
  have ans: "\<exists>s2. rf_RevokeAllForUser aum_refresh_repo i at s1 = (Inr (), s2)" for i at s1
    by (simp add: aum_refresh_repo_def aum_RevokeAllForUser_def)
  have new: "new_opaque_token (dr_random d) = Inr (b64_encode True b)" using assms(6) by (simp add: new_opaque_token_def)
  have late: "ah_reuseGrace ?S < time_sub (dr_now d) t" using assms(5) grace(1) by simp
  obtain e where e: "x = Inl e" and s': "aum_tk s' = revoke_all (rft_UserID r) (dr_now d) (aum_tk s)"
    using aumc.reuse [OF assms(1-3) late assms(4) new assms(7) found ans assms(8)] by blast
  obtain i where "m_get (aum_hashes s) (hash_token L raw) = Some i"
    using assms(2) by (auto simp: aum_tk_def look_def split: option.splits)
  then have "\<not> rft_active (aum_token i s) (dr_now d)" "m_get (aum_hashes s) (hash_token L raw) = Some i"
    using aum_tk_at [OF assms(1)] assms(2,3) by (auto simp: rft_active_def)
  then have rot: "rf_Rotate aum_refresh_repo (hash_token L raw) (dr_now d) t' s = (Inl ErrUnauthorized, s)" for t'
    by (simp add: aum_refresh_repo_def aum_Rotate_def)
  obtain s2 where "aus_revokeFamilyOnReuse ?S (hash_token L raw) (dr_now d) s = (Inr (), s2)" using revokeFamily_quiet [of ?S "hash_token L raw" "dr_now d" s] by auto
  then have "x = Inl ErrUnauthorized" using assms(8) assms(4) new rot grace(2)
    by (simp add: aus_Refresh_def andthen_def attempt_def Let_def)
  then show ?thesis using e s' revoke_all_revokes [of "rft_UserID r" "dr_now d" "aum_tk s"]
    by (auto simp: rft_active_def) (auto simp: revoke_all_def)
qed

lemma rotated_ok: "aum_ok rotated" "aum_ok registered"
  by (auto simp: aum_ok_def indexed_def rotated_def registered_def sample_user_def split: if_splits)

theorem reuse_revokes_the_family_witness:
  "\<exists>x s'. aus_Refresh sample_lib sample_auth (draw ''a3'' 3 20) ''YTE'' rotated = (x, s') \<and> x = Inl ErrUnauthorized
     \<and> (\<exists>q. aum_tk rotated ''hYTI'' = Some q \<and> rft_active q 20 \<and> aum_tk s' ''hYTI'' = Some (q\<lparr>rft_RevokedAt := Some 20\<rparr>))"
proof -
  obtain x s' where run: "aus_Refresh sample_lib sample_auth (draw ''a3'' 3 20) ''YTE'' rotated = (x, s')" by fastforce
  let ?r = "\<lparr>rft_ID = 1, rft_UserID = 7, rft_TokenHash = ''hYTE'', rft_ExpiresAt = 102, rft_RevokedAt = Some 3, rft_CreatedAt = 2\<rparr>"
  let ?q = "\<lparr>rft_ID = 2, rft_UserID = 7, rft_TokenHash = ''hYTI'', rft_ExpiresAt = 103, rft_RevokedAt = None, rft_CreatedAt = 3\<rparr>"
  have r: "aum_tk rotated (hash_token sample_lib ''YTE'') = Some ?r" "aum_tk rotated ''hYTI'' = Some ?q"
    by (simp_all add: aum_tk_def look_def rotated_def sample_hash)
  have late: "10 < time_sub (dr_now (draw ''a3'' 3 20)) 3" by (simp add: draw_def time_sub_def)
  have "unused_draws sample_lib rotated (draw ''a3'' 3 20)"
    by (simp add: unused_draws_def unused_def draw_def sample_drawn sample_hash rotated_def)
  from reuse_revokes_the_family [OF rotated_ok(1) r(1) _ _ late _ unused_draws_fresh [OF this] run [unfolded sample_auth_def]]
  have "x = Inl ErrUnauthorized" "aum_tk s' = revoke_all 7 20 (aum_tk rotated)" by (simp_all add: draw_def)
  then show ?thesis using run r(2) by (simp add: revoke_all_def rft_active_def)
qed

text \<open>
  C22: who has registered can log in. Whatever calls come after a registration, logging in with any spelling of
  the email that normalizes to the same succeeds, as that user, with exactly the passwords whose derived key is
  that of the registered one, provided a token pair can be issued.
\<close>

theorem registered_user_can_log_in:
  assumes "aum_ok s" "aum_us s i = None" "fresh_draws L (aum_tk s) d"
    and "aus_Register L (aum_service L A J m ttl g) salt now i d e p name s = (Inr (dto, pair), s1)"
    and "fresh_calls L (aum_service L A J m ttl g) aum_us aum_tk cs s1" "run_auth_calls L (aum_service L A J m ttl g) cs s1 = (rs, s2)"
    and "normalize_email L e' = normalize_email L e" "aus_Login L (aum_service L A J m ttl g) d' e' q s2 = (x, s3)"
  shows "\<exists>sa key. salt = Inr sa \<and> A p sa 1 65536 4 32 = Inr key
     \<and> (\<forall>dto' pair'. x = Inr (dto', pair') \<longrightarrow> dto' = dto \<and> A q sa 1 65536 4 (length key) = Inr key)
     \<and> (A q sa 1 65536 4 (length key) = Inr key \<longrightarrow>
          (\<exists>u s4 y s5. aus_issuePair L (aum_service L A J m ttl g) d' u s4 = (y, s5) \<and> user_toDTO u = dto
             \<and> x = map_sum id (\<lambda>pair. (dto, pair)) y))
     \<and> (\<forall>key'. A q sa 1 65536 4 (length key) = Inr key' \<and> key' \<noteq> key \<longrightarrow> x = Inl ErrInvalidCredentials)"
proof -
  let ?S = "aum_service L A J m ttl g"
  have found: "\<exists>u s4. ur_FindByEmail aum_user_repo (usr_Email v) s2 = (Inr u, s4)" if "aum_ok s2" "aum_us s2 i = Some v" for v
    using that by (auto simp: aum_user_repo_def aum_FindByEmail_def aum_us_def aum_ok_def dest!: indexedD(2))
  obtain hash where hash: "ph_Hash (ah_hasher ?S) salt p = Inr hash"
    and a: "\<forall>dto' pair'. x = Inr (dto', pair') \<longrightarrow> dto' = dto \<and> ph_Compare (ah_hasher ?S) hash q = Inr ()"
    and b: "ph_Compare (ah_hasher ?S) hash q = Inr () \<longrightarrow> (\<exists>u s4 y s5. aus_issuePair L ?S d' u s4 = (y, s5) \<and> aum_ok s4 \<and> aum_tk s4 = aum_tk s2
           \<and> user_toDTO u = dto \<and> x = map_sum id (\<lambda>pair. (dto, pair)) y)"
    and c: "ph_Compare (ah_hasher ?S) hash q = Inl ErrMismatch \<longrightarrow> x = Inl ErrInvalidCredentials"
    using aumc.registered_then_login [OF assms(1-8) found] by blast
  obtain sa key where key: "salt = Inr sa" "A p sa 1 65536 4 32 = Inr key" "hash = encode_hash sa key"
    using hash by (auto simp: argon_Hash_def split: sum.splits)
  have cmp: "ph_Compare (ah_hasher ?S) hash q = (case A q sa 1 65536 4 (length key) of
        Inl e \<Rightarrow> Inl e | Inr got \<Rightarrow> if got = key then Inr () else Inl ErrMismatch)"
    by (simp add: key(3) argon_Compare_encode)
  have "A q sa 1 65536 4 (length key) = Inr key" if "ph_Compare (ah_hasher ?S) hash q = Inr ()"
    using that cmp by (auto split: sum.splits if_splits)
  moreover have "ph_Compare (ah_hasher ?S) hash q = Inr ()" if "A q sa 1 65536 4 (length key) = Inr key"
    using that cmp by simp
  moreover have "ph_Compare (ah_hasher ?S) hash q = Inl ErrMismatch"
    if "A q sa 1 65536 4 (length key) = Inr key'" "key' \<noteq> key" for key'
    using that cmp by simp
  ultimately show ?thesis using key(1,2) a b c by blast
qed

lemma sample_spelling: "normalize_email sample_lib ''  Ann@X.org '' = Inr ''ann@x.org''"
  by code_simp

theorem registered_user_can_log_in_witness:
  "\<exists>dto x s3. aus_Login sample_lib sample_auth (draw ''a2'' 2 3) ''  Ann@X.org '' ''password'' registered = (x, s3)
     \<and> (\<forall>dto' pair'. x = Inr (dto', pair') \<longrightarrow> dto' = dto) \<and> \<not> isl x"
proof -
  let ?A = "sample_argon" and ?J = "sample_jwt" and ?m = "\<lparr>jm_secret = ''key'', jm_ttl = 50\<rparr>"
  obtain dto pair where reg: "aus_Register sample_lib sample_auth (Inr ''salt'') 1 7 (draw ''a1'' 1 2) ''ann@x.org'' ''password'' ''Ann'' aum_new
     = (Inr (dto, pair), registered)" using sample_register by blast
  obtain x s3 where log: "aus_Login sample_lib sample_auth (draw ''a2'' 2 3) ''  Ann@X.org '' ''password'' registered = (x, s3)" by fastforce
  have "unused_draws sample_lib aum_new (draw ''a1'' 1 2)"
    by (simp add: unused_draws_def unused_def draw_def sample_drawn aum_new_def)
  note fresh = unused_draws_fresh [OF this]
  have none: "aum_us aum_new 7 = None" by (simp add: aum_us_def aum_new_def)
  have same: "normalize_email sample_lib ''  Ann@X.org '' = normalize_email sample_lib ''ann@x.org''"
    by (simp add: sample_spelling sample_email)
  have none_after: "fresh_calls sample_lib sample_auth aum_us aum_tk [] registered"
    "run_auth_calls sample_lib sample_auth [] registered = ([], registered)" by simp_all
  obtain sa key where k: "Inr ''salt'' = (Inr sa :: err + bytes)" "?A ''password'' sa 1 65536 4 32 = Inr key"
    and a: "\<forall>dto' pair'. x = Inr (dto', pair') \<longrightarrow> dto' = dto \<and> ?A ''password'' sa 1 65536 4 (length key) = Inr key"
    and b: "?A ''password'' sa 1 65536 4 (length key) = Inr key \<longrightarrow>
          (\<exists>u s4 y s5. aus_issuePair sample_lib sample_auth (draw ''a2'' 2 3) u s4 = (y, s5) \<and> user_toDTO u = dto
             \<and> x = map_sum id (\<lambda>pair. (dto, pair)) y)"
    using registered_user_can_log_in [OF aum_new_ok none fresh reg [unfolded sample_auth_def]
      none_after [unfolded sample_auth_def] same log [unfolded sample_auth_def], folded sample_auth_def] by blast
  have "length key = 32" using k by (auto simp: sample_argon_def)
  with b k obtain u s4 y s5 where y: "aus_issuePair sample_lib sample_auth (draw ''a2'' 2 3) u s4 = (y, s5)"
    and u: "user_toDTO u = dto" and x: "x = map_sum id (\<lambda>pair. (dto, pair)) y" by auto
  have dto: "dto = user_toDTO sample_user"
    using reg by (auto simp: user_toDTO_def sample_user_def aus_Register_def andthen_def attempt_def sample_email validate_password_def sample_service
        aum_defs aum_new_def argon_Hash_def sample_argon_def split: sum.splits prod.splits)
  then have "usr_ID u = 7" "usr_Email u = ''ann@x.org''" using u by (simp_all add: user_toDTO_def sample_user_def)
  moreover obtain tok where "jwt_IssueAccessToken sample_lib ?J ?m 3 7 ''ann@x.org'' = Inr (tok, 3 + 50)" using sample_issue by blast
  ultimately have "\<not> isl y" using y
    by (auto simp: aus_issuePair_def andthen_def sample_service draw_def sample_drawn aum_defs)
  then have "\<not> isl x" using x by (cases y) auto
  then show ?thesis using log a by blast
qed

text \<open>
  C23: what \<open>Hash\<close> writes, \<open>Compare\<close> reads back. The hash of a password accepts it, and it accepts another password
  exactly if argon2id derives the same key for it with the salt and the parameters written in the hash.
\<close>

theorem password_check_is_exact:
  assumes "\<And>pw sa k. A pw sa 1 65536 4 32 = Inr k \<Longrightarrow> length k = 32" "argon_Hash A salt p = Inr encoded"
  shows "argon_Compare A encoded p = Inr ()
     \<and> (\<exists>sa. salt = Inr sa \<and> (argon_Compare A encoded q = Inr () \<longleftrightarrow> A q sa 1 65536 4 32 = A p sa 1 65536 4 32))"
proof -
  obtain sa key where key: "salt = Inr sa" "A p sa 1 65536 4 32 = Inr key" "encoded = encode_hash sa key"
    using assms(2) by (auto simp: argon_Hash_def split: sum.splits)
  then show ?thesis using assms(1) by (auto simp: argon_Compare_encode split: sum.splits)
qed

theorem password_check_is_exact_witness:
  "\<exists>encoded. argon_Hash sample_argon (Inr ''salt'') ''password'' = Inr encoded \<and> argon_Compare sample_argon encoded ''password'' = Inr ()
     \<and> argon_Compare sample_argon encoded ''passwort'' \<noteq> Inr ()"
proof -
  obtain encoded where h: "argon_Hash sample_argon (Inr ''salt'') ''password'' = Inr encoded"
    by (simp add: argon_Hash_def sample_argon_def)
  have len: "length k = 32" if "sample_argon pw sa 1 65536 4 32 = Inr k" for pw sa k
    using that by (auto simp: sample_argon_def)
  have "sample_argon ''passwort'' ''salt'' 1 65536 4 32 \<noteq> sample_argon ''password'' ''salt'' 1 65536 4 32"
    by (simp add: sample_argon_def)
  then show ?thesis using password_check_is_exact [OF len h, where q = "''passwort''"] h by auto
qed

text \<open>
  C24: an access token names the user it was issued to. Until the second in which it expires, parsing it gives
  back identifier and email; and whatever text is parsed, an accepted one was signed with HS256, and a refused
  one gives \<open>ErrUnauthorized\<close>.
\<close>

theorem access_token_names_its_user:
  assumes "golib_ok L" "jwt_lib_ok J" "is_ascii email" "uuid_string L u \<noteq> []"
    and "jwt_IssueAccessToken L J m now u email = Inr (tok, exp)" "t < numeric_date exp"
  shows "jwt_ParseAccessToken L J m t tok = Inr (u, email)
     \<and> (case jwt_ParseAccessToken L J m t' tok' of Inr _ \<Rightarrow> jl_alg J tok' = Some ''HS256'' | Inl e \<Rightarrow> e = ErrUnauthorized)"
proof -
  let ?c = "jwt_claims_for L u email now (now + jm_ttl m)"
  have tok: "jl_sign J (jm_secret m) ?c = Inr tok" "exp = now + jm_ttl m"
    using assms(5) by (auto simp: jwt_IssueAccessToken_def Let_def split: sum.splits)
  have "jl_parse J t (jwt_key m) tok = Inr (?c, True)"
    by (rule jwt_lib_accepts [OF assms(2) tok(1)]) (use assms(3,6) tok(2) in \<open>simp_all add: jwt_claims_for_def jwt_key_def\<close>)
  then have "jwt_ParseAccessToken L J m t tok = Inr (u, email)"
    using assms(1,4) by (simp add: jwt_ParseAccessToken_def jwt_claims_for_def golib_ok_uuid)
  moreover have "x = ErrUnauthorized" if "jwt_ParseAccessToken L J m t' tok' = Inl x" for x
    using that by (auto simp: jwt_ParseAccessToken_def split: sum.splits prod.splits if_splits)
  ultimately show ?thesis using jwt_Parse_ok [OF assms(2), of L m t' tok'] by (auto split: sum.splits)
qed

theorem access_token_names_its_user_witness:
  "\<exists>tok. jwt_IssueAccessToken sample_lib sample_jwt \<lparr>jm_secret = ''key'', jm_ttl = 5 * second\<rparr> 1 7 ''ann@x.org'' = Inr (tok, 5 * second + 1)
     \<and> jwt_ParseAccessToken sample_lib sample_jwt \<lparr>jm_secret = ''key'', jm_ttl = 5 * second\<rparr> second tok = Inr (7, ''ann@x.org'')"
proof -
  have "bar_free ''key''" "bar_free ''ann@x.org''" "bar_free ''bugsathi''" by code_simp+
  moreover have "bar_free (uuid_string sample_lib u)" for u using golib_ok_uuid_bar [OF sample_lib_ok] by (simp add: bar_free_def)
  ultimately obtain tok where
    tok: "jwt_IssueAccessToken sample_lib sample_jwt \<lparr>jm_secret = ''key'', jm_ttl = 5 * second\<rparr> 1 7 ''ann@x.org'' = Inr (tok, 5 * second + 1)"
    by (simp add: jwt_IssueAccessToken_def jwt_claims_for_def sample_jwt_def Let_def)
  have "is_ascii ''ann@x.org''" by code_simp
  moreover have "uuid_string sample_lib 7 \<noteq> []" by (simp add: sample_lib_def show_nat_ne)
  moreover have "second < numeric_date (5 * second + 1)" by (simp add: numeric_date_def)
  ultimately show ?thesis using access_token_names_its_user [OF sample_lib_ok sample_jwt_ok _ _ tok] tok by blast
qed

end
