(* ===== verification/Sharing.thy ===== *)
theory Sharing
  imports Projects
begin

text \<open>
  \<open>internal/sharing\<close>: share links (\<open>domain/share.go\<close>), the ports (\<open>port/port.go\<close>), the service
  (\<open>service/service.go\<close>) and the part of the handler (\<open>adapter/httpapi/handler.go\<close>) that reads the wanted
  lifetime. The locale \<open>share_store\<close> states what the service needs of its repository; its lemmas say whom a
  public token lets in, and until when.
\<close>

section \<open>Domain\<close>

definition TopicShareCreated :: string where
  "TopicShareCreated = ''bugsathi.share.created''"

record share_link =
  sl_ID :: uuid
  sl_ReportID :: uuid
  sl_ProjectID :: uuid
  sl_Token :: string
  sl_ExpiresAt :: "go_time option"
  sl_RevokedAt :: "go_time option"
  sl_CreatedBy :: uuid
  sl_CreatedAt :: go_time

definition share_active :: "share_link \<Rightarrow> go_time \<Rightarrow> bool" where
  "share_active l now \<longleftrightarrow>
     sl_RevokedAt l = None \<and> (case sl_ExpiresAt l of None \<Rightarrow> True | Some e \<Rightarrow> now < e)"

definition share_new_token :: "err + bytes \<Rightarrow> err + string" where
  "share_new_token random = (case random of Inl e \<Rightarrow> Inl e | Inr b \<Rightarrow> Inr (b64_encode True b))"

definition share_hash_token :: "'z golib_scheme \<Rightarrow> string \<Rightarrow> string" where
  "share_hash_token L raw = sha256_hex L raw"

record share_event =
  se_SchemaVersion :: int
  se_ShareID :: string
  se_ReportID :: string
  se_ExpiresAt :: "go_time option"
  se_CorrelationID :: string
  se_OccurredAt :: go_time

section \<open>Ports\<close>

record 's share_repository =
  sr_Create :: "share_link \<Rightarrow> string \<Rightarrow> string \<Rightarrow> bytes \<Rightarrow> string \<Rightarrow> ('s, share_link) op"
  sr_ListByReport :: "uuid \<Rightarrow> uuid \<Rightarrow> page \<Rightarrow> ('s, share_link page_result) op"
  sr_GetByID :: "uuid \<Rightarrow> uuid \<Rightarrow> ('s, share_link) op"
  sr_Revoke :: "uuid \<Rightarrow> uuid \<Rightarrow> go_time \<Rightarrow> ('s, unit) op"
  sr_GetByToken :: "string \<Rightarrow> ('s, share_link) op"

record 's share_access =
  sa_EnsureMember :: "uuid \<Rightarrow> uuid \<Rightarrow> ('s, unit) op"
  sa_EnsureOwner :: "uuid \<Rightarrow> uuid \<Rightarrow> ('s, unit) op"

record public_frame =
  pf_Ordinal :: int
  pf_StorageKey :: string
  pf_ContentType :: string

record public_report =
  pub_ReportID :: uuid
  pub_ProjectID :: uuid
  pub_Status :: string
  pub_Title :: string
  pub_Summary :: string
  pub_Steps :: bytes
  pub_Frames :: "public_frame list"
  pub_ThumbKey :: string

type_synonym 's url_signer = "string \<Rightarrow> duration \<Rightarrow> ('s, string) op"

section \<open>Service\<close>

record sharing_config =
  sc_DefaultTTL :: duration
  sc_MaxTTL :: duration
  sc_HashTokens :: bool

record 's sharing_service =
  sh_repo :: "'s share_repository"
  sh_access :: "'s share_access"
  sh_reports :: "uuid \<Rightarrow> uuid \<Rightarrow> ('s, public_report) op"
  sh_signer :: "'s url_signer option"
  sh_shareCfg :: sharing_config
  sh_listCfg :: list_config
  sh_urlTTL :: duration

definition sharing_service_new ::
    "'s share_repository \<Rightarrow> 's share_access \<Rightarrow> (uuid \<Rightarrow> uuid \<Rightarrow> ('s, public_report) op) \<Rightarrow> 's url_signer option
       \<Rightarrow> sharing_config \<Rightarrow> list_config \<Rightarrow> 's sharing_service" where
  "sharing_service_new repo acc reports signer shareCfg listCfg =
     \<lparr>sh_repo = repo, sh_access = acc, sh_reports = reports, sh_signer = signer, sh_shareCfg = shareCfg,
      sh_listCfg = listCfg, sh_urlTTL = 15 * minute\<rparr>"

record share_dto =
  sd_ID :: uuid
  sd_ReportID :: uuid
  sd_ProjectID :: uuid
  sd_Token :: string
  sd_URLPath :: string
  sd_ExpiresAt :: "go_time option"
  sd_RevokedAt :: "go_time option"
  sd_CreatedAt :: go_time

record view_frame =
  vf_Ordinal :: int
  vf_ContentType :: string
  vf_URL :: string

record public_view =
  pv_Title :: string
  pv_Summary :: string
  pv_Steps :: bytes
  pv_Status :: string
  pv_Frames :: "view_frame list"
  pv_ThumbURL :: string

definition share_toCreateDTO :: "share_link \<Rightarrow> string \<Rightarrow> share_dto" where
  "share_toCreateDTO l rawToken =
     \<lparr>sd_ID = sl_ID l, sd_ReportID = sl_ReportID l, sd_ProjectID = sl_ProjectID l, sd_Token = rawToken,
      sd_URLPath = ''/s/'' @ rawToken, sd_ExpiresAt = sl_ExpiresAt l, sd_RevokedAt = sl_RevokedAt l,
      sd_CreatedAt = sl_CreatedAt l\<rparr>"

definition share_toListDTO :: "share_link \<Rightarrow> share_dto" where
  "share_toListDTO l =
     \<lparr>sd_ID = sl_ID l, sd_ReportID = sl_ReportID l, sd_ProjectID = sl_ProjectID l, sd_Token = [],
      sd_URLPath = [], sd_ExpiresAt = sl_ExpiresAt l, sd_RevokedAt = sl_RevokedAt l,
      sd_CreatedAt = sl_CreatedAt l\<rparr>"

definition shs_resolveExpiry :: "'s sharing_service \<Rightarrow> go_time \<Rightarrow> duration option \<Rightarrow> err + go_time" where
  "shs_resolveExpiry S now expiresIn =
     (if (case expiresIn of Some d \<Rightarrow> d \<le> 0 | None \<Rightarrow> False) then Inl (ErrInvalidInput Sharing)
      else let ttl = (case expiresIn of Some d \<Rightarrow> d | None \<Rightarrow> sc_DefaultTTL (sh_shareCfg S))
      in if ttl \<le> 0 then Inl (ErrInvalidInput Sharing)
         else if sc_MaxTTL (sh_shareCfg S) > 0 \<and> ttl > sc_MaxTTL (sh_shareCfg S) then Inl (ErrInvalidInput Sharing)
         else Inr (now + ttl))"

text \<open>How a raw token is looked up.\<close>

definition shs_stored :: "'z golib_scheme \<Rightarrow> 's sharing_service \<Rightarrow> string \<Rightarrow> string" where
  "shs_stored L S rawToken = (if sc_HashTokens (sh_shareCfg S) then share_hash_token L rawToken else rawToken)"

text \<open>\<open>random\<close> is what \<open>rand.Read\<close> gives, \<open>now\<close> and \<open>now'\<close> the readings of the clock, \<open>i\<close> the fresh identifier.\<close>

definition shs_Create ::
    "'z golib_scheme \<Rightarrow> (share_event \<Rightarrow> err + bytes) \<Rightarrow> 's sharing_service \<Rightarrow> err + bytes \<Rightarrow> go_time \<Rightarrow> go_time \<Rightarrow> uuid
       \<Rightarrow> uuid \<Rightarrow> uuid \<Rightarrow> uuid \<Rightarrow> duration option \<Rightarrow> ('s, share_dto) op" where
  "shs_Create L enc S random now now' i userID projectID reportID expiresIn =
     andthen (map_err (\<lambda>_. ErrForbidden Sharing) (sa_EnsureOwner (sh_access S) userID projectID)) (\<lambda>_.
     andthen (sh_reports S projectID reportID) (\<lambda>_.
     andthen (lift_sum (share_new_token random)) (\<lambda>rawToken.
     andthen (lift_sum (shs_resolveExpiry S now expiresIn)) (\<lambda>exp.
     let link = \<lparr>sl_ID = i, sl_ReportID = reportID, sl_ProjectID = projectID, sl_Token = shs_stored L S rawToken,
                 sl_ExpiresAt = Some exp, sl_RevokedAt = None, sl_CreatedBy = userID, sl_CreatedAt = now'\<rparr>;
         payload = (case enc \<lparr>se_SchemaVersion = 1, se_ShareID = uuid_string L i, se_ReportID = uuid_string L reportID,
                     se_ExpiresAt = Some exp, se_CorrelationID = [], se_OccurredAt = now'\<rparr> of Inr b \<Rightarrow> b | Inl _ \<Rightarrow> [])
     in andthen (sr_Create (sh_repo S) link TopicShareCreated (uuid_string L reportID) payload []) (\<lambda>created.
        ret (share_toCreateDTO created rawToken))))))"

definition shs_List :: "'s sharing_service \<Rightarrow> uuid \<Rightarrow> uuid \<Rightarrow> uuid \<Rightarrow> page \<Rightarrow> ('s, share_dto page_result) op" where
  "shs_List S userID projectID reportID p =
     andthen (map_err (\<lambda>_. ErrForbidden Sharing) (sa_EnsureMember (sh_access S) userID projectID)) (\<lambda>_.
     andthen (sr_ListByReport (sh_repo S) projectID reportID p) (\<lambda>rows.
     ret (map_page share_toListDTO rows)))"

definition shs_Revoke :: "'s sharing_service \<Rightarrow> go_time \<Rightarrow> uuid \<Rightarrow> uuid \<Rightarrow> uuid \<Rightarrow> ('s, unit) op" where
  "shs_Revoke S now userID projectID shareID =
     andthen (map_err (\<lambda>_. ErrForbidden Sharing) (sa_EnsureOwner (sh_access S) userID projectID)) (\<lambda>_.
     sr_Revoke (sh_repo S) projectID shareID now)"

text \<open>A URL if there is a signer and it gives one.\<close>

definition signed_url :: "'s url_signer option \<Rightarrow> duration \<Rightarrow> string \<Rightarrow> ('s, string) op" where
  "signed_url signer ttl key =
     (case signer of None \<Rightarrow> ret []
      | Some sign \<Rightarrow> andthen (attempt (sign key ttl)) (\<lambda>r. ret (case r of Inr u \<Rightarrow> u | Inl _ \<Rightarrow> [])))"

fun sign_frames :: "'s url_signer option \<Rightarrow> duration \<Rightarrow> public_frame list \<Rightarrow> ('s, view_frame list) op" where
  "sign_frames signer ttl [] = ret []"
| "sign_frames signer ttl (f # fs) =
     andthen (signed_url signer ttl (pf_StorageKey f)) (\<lambda>u.
     andthen (sign_frames signer ttl fs) (\<lambda>vs.
     ret (\<lparr>vf_Ordinal = pf_Ordinal f, vf_ContentType = pf_ContentType f, vf_URL = u\<rparr> # vs)))"

definition shs_view :: "'s sharing_service \<Rightarrow> public_report \<Rightarrow> ('s, public_view) op" where
  "shs_view S payload =
     andthen (sign_frames (sh_signer S) (sh_urlTTL S) (pub_Frames payload)) (\<lambda>frames.
     andthen (if pub_ThumbKey payload = [] then ret [] else signed_url (sh_signer S) (sh_urlTTL S) (pub_ThumbKey payload)) (\<lambda>thumb.
     ret \<lparr>pv_Title = pub_Title payload, pv_Summary = pub_Summary payload, pv_Steps = pub_Steps payload,
          pv_Status = pub_Status payload, pv_Frames = frames, pv_ThumbURL = thumb\<rparr>))"

definition shs_PublicGet :: "'z golib_scheme \<Rightarrow> 's sharing_service \<Rightarrow> go_time \<Rightarrow> string \<Rightarrow> ('s, public_view) op" where
  "shs_PublicGet L S now token =
     (if token = [] then fail (ErrInvalidInput Sharing)
      else
      andthen (sr_GetByToken (sh_repo S) (shs_stored L S token)) (\<lambda>link.
      if \<not> share_active link now then fail ErrShareInactive
      else
      andthen (sh_reports S (sl_ProjectID link) (sl_ReportID link)) (\<lambda>payload. shs_view S payload)))"

definition shs_ListLimits :: "'s sharing_service \<Rightarrow> limits" where
  "shs_ListLimits S = \<lparr>lim_Default = lc_DefaultLimit (sh_listCfg S), lim_Max = lc_MaxLimit (sh_listCfg S)\<rparr>"

text \<open>
  What the handler makes of \<open>expires_in_seconds\<close>: nothing unless it is positive; the product is a 64-bit one.
\<close>

definition handler_expiry :: "int option \<Rightarrow> duration option" where
  "handler_expiry seconds =
     (case seconds of None \<Rightarrow> None | Some n \<Rightarrow> if n > 0 then Some (wrap64 (n * second)) else None)"

section \<open>What the service needs of its repository\<close>

type_synonym links = "uuid \<Rightarrow> share_link option"

definition fresh_link :: "links \<Rightarrow> uuid \<Rightarrow> string \<Rightarrow> bool" where
  "fresh_link ls i token \<longleftrightarrow> ls i = None \<and> (\<forall>j l. ls j = Some l \<longrightarrow> sl_Token l \<noteq> token)"

text \<open>Any call may fail, and then changes nothing; \<open>stamp\<close> is the instant the store keeps.\<close>

locale share_store =
  fixes R :: "'s share_repository" and ok :: "'s \<Rightarrow> bool" and links :: "'s \<Rightarrow> links" and stamp :: "go_time \<Rightarrow> go_time"
  assumes tokens: "ok s \<Longrightarrow> links s i = Some l \<Longrightarrow> links s j = Some k \<Longrightarrow> sl_Token l = sl_Token k \<Longrightarrow> i = j"
    and create:
    "ok s \<Longrightarrow> fresh_link (links s) (sl_ID l) (sl_Token l) \<Longrightarrow> sl_RevokedAt l = None \<Longrightarrow> sr_Create R l topic key payload corr s = (x, s') \<Longrightarrow> ok s'
       \<and> (case x of Inl e \<Rightarrow> links s' = links s
          | Inr v \<Rightarrow> v = l\<lparr>sl_ExpiresAt := map_option stamp (sl_ExpiresAt l), sl_CreatedAt := stamp (sl_CreatedAt l)\<rparr>
              \<and> links s' = (links s)(sl_ID l \<mapsto> v))"
    and revoke:
    "ok s \<Longrightarrow> sr_Revoke R p i at s = (y, s') \<Longrightarrow> ok s'
       \<and> (case y of Inl e \<Rightarrow> links s' = links s
          | Inr _ \<Rightarrow> \<exists>l. links s i = Some l \<and> sl_ProjectID l = p \<and> links s' = (links s)(i \<mapsto> l\<lparr>sl_RevokedAt := Some (stamp at)\<rparr>))"
    and list: "keeps (\<lambda>s. (ok s, links s)) (sr_ListByReport R p r pg)"
    and by_token:
    "keeps (\<lambda>s. (ok s, links s)) (sr_GetByToken R tok)"
    "ok s \<Longrightarrow> sr_GetByToken R tok s = (Inr l, s') \<Longrightarrow> links s (sl_ID l) = Some l \<and> sl_Token l = tok"

section \<open>Calls of the service\<close>

definition fresh_share :: "'z golib_scheme \<Rightarrow> 's sharing_service \<Rightarrow> links \<Rightarrow> err + bytes \<Rightarrow> uuid \<Rightarrow> bool" where
  "fresh_share L S ls random i \<longleftrightarrow>
     (\<forall>raw. share_new_token random = Inr raw \<longrightarrow> fresh_link ls i (shs_stored L S raw))"

text \<open>The states calls lead to from \<open>s0\<close>, as long as the identifiers and tokens drawn are new.\<close>

inductive share_steps ::
    "'z golib_scheme \<Rightarrow> (share_event \<Rightarrow> err + bytes) \<Rightarrow> 's sharing_service \<Rightarrow> ('s \<Rightarrow> links) \<Rightarrow> 's \<Rightarrow> 's \<Rightarrow> bool"
  for L enc S ls s0 where
  start: "share_steps L enc S ls s0 s0"
| create: "share_steps L enc S ls s0 s \<Longrightarrow> fresh_share L S (ls s) random i \<Longrightarrow>
    shs_Create L enc S random now now' i u p r e s = (x, s') \<Longrightarrow> share_steps L enc S ls s0 s'"
| revoke: "share_steps L enc S ls s0 s \<Longrightarrow> shs_Revoke S now u p i s = (y, s') \<Longrightarrow> share_steps L enc S ls s0 s'"
| list: "share_steps L enc S ls s0 s \<Longrightarrow> shs_List S u p r pg s = (z, s') \<Longrightarrow> share_steps L enc S ls s0 s'"
| public: "share_steps L enc S ls s0 s \<Longrightarrow> shs_PublicGet L S now token s = (v, s') \<Longrightarrow> share_steps L enc S ls s0 s'"

text \<open>A link stays as it is, but for being revoked.\<close>

definition links_kept :: "links \<Rightarrow> links \<Rightarrow> bool" where
  "links_kept ls ls' \<longleftrightarrow>
     (\<forall>i l. ls i = Some l \<longrightarrow> (\<exists>a. ls' i = Some (l\<lparr>sl_RevokedAt := a\<rparr>) \<and> (sl_RevokedAt l \<noteq> None \<longrightarrow> a \<noteq> None)))"

lemma links_kept_refl: "links_kept ls ls"
  unfolding links_kept_def by (metis share_link.surjective share_link.update_convs(6))

lemma links_kept_trans: "links_kept a b \<Longrightarrow> links_kept b c \<Longrightarrow> links_kept a c"
  unfolding links_kept_def by (fastforce simp: share_link.defs)

lemma links_keptD: "links_kept ls ls' \<Longrightarrow> ls i = Some l \<Longrightarrow>
    \<exists>a. ls' i = Some (l\<lparr>sl_RevokedAt := a\<rparr>) \<and> (sl_RevokedAt l \<noteq> None \<longrightarrow> a \<noteq> None)"
  by (simp add: links_kept_def)

lemma links_kept_upd: "links_kept (ls(i := v)) ls' \<Longrightarrow> ls i = None \<Longrightarrow> links_kept ls ls'"
  unfolding links_kept_def by (metis fun_upd_apply option.distinct(1))

lemma links_kept_new: "ls i = None \<Longrightarrow> links_kept ls (ls(i \<mapsto> l))"
  using links_kept_upd [OF links_kept_refl] by blast

lemma links_kept_revoke: "ls i = Some l \<Longrightarrow> links_kept ls (ls(i \<mapsto> l\<lparr>sl_RevokedAt := Some t\<rparr>))"
  using links_kept_refl [of ls] unfolding links_kept_def by auto

locale share_client = share_store R ok links stamp
  for R :: "'s share_repository" and ok :: "'s \<Rightarrow> bool" and links :: "'s \<Rightarrow> links" and stamp :: "go_time \<Rightarrow> go_time" +
  fixes S :: "'s sharing_service"
  assumes repo: "sh_repo S = R"
    and others:
    "keeps (\<lambda>s. (ok s, links s)) (sa_EnsureMember (sh_access S) u p)"
    "keeps (\<lambda>s. (ok s, links s)) (sa_EnsureOwner (sh_access S) u p)"
    "keeps (\<lambda>s. (ok s, links s)) (sh_reports S p r)"
    "sh_signer S = Some sign \<Longrightarrow> keeps (\<lambda>s. (ok s, links s)) (sign key ttl)"
begin

lemma keeps_signed_url: "keeps (\<lambda>s. (ok s, links s)) (signed_url (sh_signer S) ttl key)"
proof (cases "sh_signer S")
  case None
  then show ?thesis by (simp add: signed_url_def keeps_def)
next
  case (Some sign)
  then show ?thesis using keeps_andthen [OF keeps_attempt [OF others(4) [OF Some]] keeps_ret] by (simp add: signed_url_def)
qed

lemma keeps_sign_frames: "keeps (\<lambda>s. (ok s, links s)) (sign_frames (sh_signer S) ttl fs)"
proof (induction fs)
  case Nil
  show ?case by (simp only: sign_frames.simps keeps_ret)
next
  case (Cons f fs)
  show ?case unfolding sign_frames.simps by (intro keeps_andthen keeps_signed_url Cons keeps_ret)
qed

lemma keeps_view: "keeps (\<lambda>s. (ok s, links s)) (shs_view S payload)"
  unfolding shs_view_def by (intro keeps_andthen keeps_sign_frames keeps_if keeps_signed_url keeps_ret)

lemma keeps_PublicGet: "keeps (\<lambda>s. (ok s, links s)) (shs_PublicGet L S now token)"
  unfolding shs_PublicGet_def repo
  by (intro keeps_if keeps_fail keeps_andthen by_token(1) others(3) keeps_view)

lemma keeps_List: "keeps (\<lambda>s. (ok s, links s)) (shs_List S u p r pg)"
  unfolding shs_List_def repo by (intro keeps_andthen keeps_map_err others(1) list keeps_ret)

lemma Revoke_step:
  assumes s: "ok s" and run: "shs_Revoke S now u p i s = (y, s')"
  shows "ok s' \<and> links_kept (links s) (links s')
     \<and> (y = Inr () \<longrightarrow> (\<exists>l. links s i = Some l \<and> sl_ProjectID l = p \<and> links s' i = Some (l\<lparr>sl_RevokedAt := Some (stamp now)\<rparr>)))"
  using run unfolding shs_Revoke_def repo
proof (cases rule: andthen_cases)
  case (err e)
  then show ?thesis using keepsD [OF keeps_map_err [OF others(2)] err(1)] s links_kept_refl by auto
next
  case (ok a s1)
  have s1: "ok s1" "links s1 = links s" using keepsD [OF keeps_map_err [OF others(2)] ok(1)] s by auto
  show ?thesis using revoke [OF s1(1) ok(2)] s1(2) links_kept_refl links_kept_revoke
    by (auto split: sum.splits)
qed

lemma Create_step:
  assumes s: "ok s" and fresh: "fresh_share L S (links s) random i"
    and run: "shs_Create L enc S random now now' i u p r e s = (x, s')"
  shows "ok s' \<and> links_kept (links s) (links s')
     \<and> (\<forall>dto. x = Inr dto \<longrightarrow> (\<exists>raw exp l. share_new_token random = Inr raw \<and> shs_resolveExpiry S now e = Inr exp
           \<and> links s' i = Some l \<and> sl_ID l = i \<and> sl_Token l = shs_stored L S raw \<and> sl_ExpiresAt l = Some (stamp exp)
           \<and> sl_RevokedAt l = None \<and> sl_ProjectID l = p \<and> sl_ReportID l = r
           \<and> dto = share_toCreateDTO l raw))"
  using run unfolding shs_Create_def repo
proof (cases rule: andthen_cases)
  case (err m)
  then show ?thesis using keepsD [OF keeps_map_err [OF others(2)] err(1)] s links_kept_refl by auto
next
  case (ok a s1)
  have s1: "ok s1" "links s1 = links s" using keepsD [OF keeps_map_err [OF others(2)] ok(1)] s by auto
  from ok(2) show ?thesis
  proof (cases rule: andthen_cases)
    case (err m)
    then show ?thesis using keepsD [OF others(3) err(1)] s1 links_kept_refl by auto
  next
    case (ok rep s2)
    have s2: "ok s2" "links s2 = links s" using keepsD [OF others(3) ok(1)] s1 by auto
    show ?thesis
    proof (cases "share_new_token random")
      case (Inl m)
      then show ?thesis using ok(2) s2 links_kept_refl by (auto simp: andthen_def)
    next
      case raw: (Inr raw)
      show ?thesis
      proof (cases "shs_resolveExpiry S now e")
        case (Inl m)
        then show ?thesis using ok(2) s2 links_kept_refl raw by (auto simp: andthen_def)
      next
        case (Inr exp)
        let ?l = "\<lparr>sl_ID = i, sl_ReportID = r, sl_ProjectID = p, sl_Token = shs_stored L S raw,
                 sl_ExpiresAt = Some exp, sl_RevokedAt = None, sl_CreatedBy = u, sl_CreatedAt = now'\<rparr>"
        obtain payload v where v: "sr_Create R ?l TopicShareCreated (uuid_string L r) payload [] s2 = (v, s')"
          and x: "x = map_sum id (\<lambda>c. share_toCreateDTO c raw) v"
          using ok(2) raw Inr by (auto simp: andthen_def Let_def split: prod.splits sum.splits)
        have fl: "fresh_link (links s2) (sl_ID ?l) (sl_Token ?l)" using fresh raw s2 by (simp add: fresh_share_def)
        have "sl_RevokedAt ?l = None" by simp
        from create [OF s2(1) fl this v] show ?thesis
          using raw Inr s2 x fl links_kept_refl by (cases v) (auto simp: fresh_link_def intro: links_kept_new)
      qed
    qed
  qed
qed

lemma steps_keep:
  "share_steps L enc S links s0 s \<Longrightarrow> ok s0 \<Longrightarrow> ok s \<and> links_kept (links s0) (links s)"
proof (induction rule: share_steps.induct)
  case start
  then show ?case by (simp add: links_kept_refl)
next
  case (create s random i now now' u p r e x s')
  then have s: "ok s" "links_kept (links s0) (links s)" by auto
  from Create_step [OF s(1) create.hyps(2,3)] show ?case using links_kept_trans [OF s(2)] by blast
next
  case (revoke s now u p i y s')
  then have s: "ok s" "links_kept (links s0) (links s)" by auto
  from Revoke_step [OF s(1) revoke.hyps(2)] show ?case using links_kept_trans [OF s(2)] by blast
next
  case (list s u p r pg z s')
  then show ?case using keepsD [OF keeps_List list.hyps(2)] by auto
next
  case (public s now token v s')
  then show ?case using keepsD [OF keeps_PublicGet public.hyps(2)] by auto
qed

text \<open>What a token opens.\<close>

lemma PublicGet_link:
  assumes s: "ok s" and l: "links s i = Some l" "sl_ID l = i" "sl_Token l = shs_stored L S raw" "raw \<noteq> []"
    and found: "sr_GetByToken R (shs_stored L S raw) s = (Inr k, s1)"
  shows "shs_PublicGet L S now raw s =
     (if \<not> share_active l now then (Inl ErrShareInactive, s1)
      else andthen (sh_reports S (sl_ProjectID l) (sl_ReportID l)) (shs_view S) s1)"
proof -
  have "links s (sl_ID k) = Some k" "sl_Token k = sl_Token l" using by_token(2) [OF s found] l(3) by auto
  then have "k = l" using tokens [OF s, of "sl_ID k" k i l] l(1) by simp
  then show ?thesis using l(4) found repo by (auto simp: shs_PublicGet_def andthen_def)
qed

end

end
