(* ===== verification/Sharing_Memory.thy ===== *)
theory Sharing_Memory
  imports Sharing Indexed Sample_Lib
begin

text \<open>
  \<open>internal/sharing/adapter/memory\<close> (\<open>memory.go\<close>, \<open>list.go\<close>): the in-memory share links and the doubles for
  authorisation, reports and signing. Interprets \<open>share_store\<close>, \<open>share_client\<close> and \<open>keyset_listing\<close> and
  states the properties of the sharing service over them.
\<close>

record share_mem =
  smem_byID :: "(uuid, share_link) gomap"
  smem_token :: "(string, uuid) gomap"

definition smem_new :: share_mem where
  "smem_new = \<lparr>smem_byID = [], smem_token = []\<rparr>"

definition smem_Create :: "share_link \<Rightarrow> string \<Rightarrow> string \<Rightarrow> bytes \<Rightarrow> string \<Rightarrow> (share_mem, share_link) op" where
  "smem_Create l topic key payload corr r =
     (Inr l, r\<lparr>smem_byID := m_set (sl_ID l) l (smem_byID r), smem_token := m_set (sl_Token l) (sl_ID l) (smem_token r)\<rparr>)"

definition smem_GetByID :: "uuid \<Rightarrow> uuid \<Rightarrow> (share_mem, share_link) op" where
  "smem_GetByID projectID shareID r =
     (case m_get (smem_byID r) shareID of
        None \<Rightarrow> Inl (ErrNotFound Sharing)
      | Some l \<Rightarrow> if sl_ProjectID l \<noteq> projectID then Inl (ErrNotFound Sharing) else Inr l, r)"

definition smem_Revoke :: "uuid \<Rightarrow> uuid \<Rightarrow> go_time \<Rightarrow> (share_mem, unit) op" where
  "smem_Revoke projectID shareID at r =
     (case m_get (smem_byID r) shareID of
        None \<Rightarrow> (Inl (ErrNotFound Sharing), r)
      | Some l \<Rightarrow>
          if sl_ProjectID l \<noteq> projectID then (Inl (ErrNotFound Sharing), r)
          else (Inr (), r\<lparr>smem_byID := m_set shareID (l\<lparr>sl_RevokedAt := Some at\<rparr>) (smem_byID r)\<rparr>))"

definition zero_link :: share_link where
  "zero_link = \<lparr>sl_ID = 0, sl_ReportID = 0, sl_ProjectID = 0, sl_Token = [], sl_ExpiresAt = None,
     sl_RevokedAt = None, sl_CreatedBy = 0, sl_CreatedAt = 0\<rparr>"

definition smem_GetByToken :: "string \<Rightarrow> (share_mem, share_link) op" where
  "smem_GetByToken token r =
     (case m_get (smem_token r) token of
        None \<Rightarrow> Inl (ErrNotFound Sharing)
      | Some i \<Rightarrow> Inr (case m_get (smem_byID r) i of Some l \<Rightarrow> l | None \<Rightarrow> zero_link), r)"

definition sl_key :: "share_link \<Rightarrow> go_time \<times> uuid" where
  "sl_key l = (sl_CreatedAt l, sl_ID l)"

definition smem_matches :: "uuid \<Rightarrow> uuid \<Rightarrow> share_mem \<Rightarrow> share_link list" where
  "smem_matches projectID reportID r =
     filter (\<lambda>l. sl_ProjectID l = projectID \<and> sl_ReportID l = reportID) (m_vals (smem_byID r))"

definition smem_ListByReport :: "'z golib_scheme \<Rightarrow> uuid \<Rightarrow> uuid \<Rightarrow> page \<Rightarrow> (share_mem, share_link page_result) op" where
  "smem_ListByReport L projectID reportID p r =
     (list_desc L (key_text L) sl_key p (smem_matches projectID reportID r), r)"

definition smem_repo :: "'z golib_scheme \<Rightarrow> share_mem share_repository" where
  "smem_repo L =
     \<lparr>sr_Create = smem_Create, sr_ListByReport = smem_ListByReport L, sr_GetByID = smem_GetByID,
      sr_Revoke = smem_Revoke, sr_GetByToken = smem_GetByToken\<rparr>"

text \<open>The doubles.\<close>

definition share_access_ok :: "'s share_access" where
  "share_access_ok = \<lparr>sa_EnsureMember = (\<lambda>_ _. ret ()), sa_EnsureOwner = (\<lambda>_ _. ret ())\<rparr>"

definition share_access_member_only :: "'s share_access" where
  "share_access_member_only = \<lparr>sa_EnsureMember = (\<lambda>_ _. ret ()), sa_EnsureOwner = (\<lambda>_ _. fail (ErrForbidden Sharing))\<rparr>"

definition reports_double :: "public_report \<Rightarrow> err option \<Rightarrow> uuid \<Rightarrow> uuid \<Rightarrow> ('s, public_report) op" where
  "reports_double payload e projectID reportID = (case e of Some m \<Rightarrow> fail m | None \<Rightarrow> ret payload)"

definition share_signer_double :: "'s url_signer" where
  "share_signer_double key ttl = ret (''https://cdn.test/'' @ key)"

section \<open>The repository meets the contract\<close>

definition smem_ok :: "share_mem \<Rightarrow> bool" where
  "smem_ok r \<longleftrightarrow> m_wf (smem_byID r) \<and> indexed sl_ID sl_Token (smem_byID r) (smem_token r)"

definition smem_links :: "share_mem \<Rightarrow> links" where
  "smem_links r = m_get (smem_byID r)"

lemmas smem_defs = smem_repo_def smem_Create_def smem_GetByID_def smem_Revoke_def smem_GetByToken_def smem_ListByReport_def

lemma smem_new_ok: "smem_ok smem_new"
  by (simp add: smem_ok_def smem_new_def indexed_def)

lemma smem_fresh:
  assumes "smem_ok r" "fresh_link (smem_links r) i token"
  shows "m_get (smem_byID r) i = None \<and> m_get (smem_token r) token = None"
proof -
  have I: "indexed sl_ID sl_Token (smem_byID r) (smem_token r)" using assms(1) by (simp add: smem_ok_def)
  have "m_get (smem_token r) token \<noteq> Some j" for j
    using indexedD(1) [OF I, of token j] assms(2) by (auto simp: fresh_link_def smem_links_def)
  then show ?thesis using assms(2) by (auto simp: fresh_link_def smem_links_def)
qed

interpretation smem: share_store "smem_repo L" smem_ok smem_links "\<lambda>t. t"
proof (unfold_locales, goal_cases)
  case (1 s i l j k)
  then have I: "indexed sl_ID sl_Token (smem_byID s) (smem_token s)" by (simp add: smem_ok_def)
  from 1 show ?case using indexedD(2) [OF I, of i l] indexedD(2) [OF I, of j k] by (simp add: smem_links_def)
next
  case (2 s l topic key payload corr x s')
  then have I: "indexed sl_ID sl_Token (smem_byID s) (smem_token s)" by (simp add: smem_ok_def)
  from 2 show ?case using smem_fresh [OF 2(1,2)] indexed_insert [OF I, of l]
    by (auto simp: smem_ok_def smem_links_def smem_defs fun_eq_iff option.map_ident)
next
  case (3 s p i at y s')
  then have I: "indexed sl_ID sl_Token (smem_byID s) (smem_token s)" by (simp add: smem_ok_def)
  show ?case
  proof (cases y)
    case (Inl e)
    then show ?thesis using 3 by (auto simp: smem_defs split: option.splits if_splits)
  next
    case (Inr u)
    then obtain l where l: "m_get (smem_byID s) i = Some l" "sl_ProjectID l = p"
      "s' = s\<lparr>smem_byID := m_set i (l\<lparr>sl_RevokedAt := Some at\<rparr>) (smem_byID s)\<rparr>"
      using 3 by (auto simp: smem_defs split: option.splits if_splits)
    then show ?thesis using indexed_change [OF I l(1), of "l\<lparr>sl_RevokedAt := Some at\<rparr>"] 3(1) Inr
      by (auto simp: smem_ok_def smem_links_def fun_eq_iff)
  qed
next
  case (4 p r pg)
  show ?case by (rule keepsI) (simp add: smem_defs)
next
  case (5 tok)
  show ?case by (rule keepsI) (simp add: smem_defs)
next
  case (6 s tok l s')
  then have I: "indexed sl_ID sl_Token (smem_byID s) (smem_token s)" by (simp add: smem_ok_def)
  from 6 show ?case using indexedD(1) [OF I, of tok] by (auto simp: smem_links_def smem_defs split: option.splits)
qed

text \<open>A service over this repository whose other ports leave the links alone.\<close>

definition smem_uses :: "'z golib_scheme \<Rightarrow> share_mem sharing_service \<Rightarrow> bool" where
  "smem_uses L S \<longleftrightarrow> sh_repo S = smem_repo L
     \<and> (\<forall>u p. keeps (\<lambda>s. s) (sa_EnsureMember (sh_access S) u p)) \<and> (\<forall>u p. keeps (\<lambda>s. s) (sa_EnsureOwner (sh_access S) u p))
     \<and> (\<forall>p r. keeps (\<lambda>s. s) (sh_reports S p r)) \<and> (\<forall>sign key ttl. sh_signer S = Some sign \<longrightarrow> keeps (\<lambda>s. s) (sign key ttl))"

lemma keeps_id: "keeps (\<lambda>s. s) m \<Longrightarrow> keeps v m"
  by (simp add: keeps_def)

lemma smem_client: "smem_uses L S \<Longrightarrow> share_client (smem_repo L) smem_ok smem_links (\<lambda>t. t) S"
  by unfold_locales (auto simp: smem_uses_def intro: keeps_id)

interpretation smem_svc: share_client "smem_repo L" smem_ok smem_links "\<lambda>t. t"
    "sharing_service_new (smem_repo L) share_access_ok (reports_double payload e) (Some share_signer_double) cfg lcfg"
proof (rule smem_client)
  have r: "snd (reports_double payload e p r s) = s" for p r and s :: share_mem by (cases e) (simp_all add: reports_double_def)
  show "smem_uses L (sharing_service_new (smem_repo L) share_access_ok (reports_double payload e) (Some share_signer_double) cfg lcfg)"
    by (simp add: smem_uses_def sharing_service_new_def share_access_ok_def share_signer_double_def keeps_def r)
qed

definition smem_listable :: "share_mem \<Rightarrow> bool" where
  "smem_listable r \<longleftrightarrow> smem_ok r \<and> (\<forall>i l. m_get (smem_byID r) i = Some l \<longrightarrow> time_ok (sl_CreatedAt l))"

lemma smem_rows:
  assumes "smem_listable r"
  shows "distinct (map sl_key (smem_matches p rep r)) \<and> (\<forall>l\<in>set (smem_matches p rep r). time_ok (fst (sl_key l)))"
proof -
  have wf: "m_wf (smem_byID r)" and I: "indexed sl_ID sl_Token (smem_byID r) (smem_token r)"
    using assms by (auto simp: smem_listable_def smem_ok_def)
  have "distinct (map sl_key (smem_matches p rep r))" unfolding smem_matches_def
    by (rule m_vals_distinct_key [where ident = sl_ID, OF wf]) (use indexedD(2) [OF I] in \<open>auto simp: sl_key_def\<close>)
  moreover have "time_ok (sl_CreatedAt l)" if "l \<in> set (smem_matches p rep r)" for l
    using that assms m_vals_iff [OF wf] by (auto simp: smem_matches_def smem_listable_def)
  ultimately show ?thesis by (simp add: sl_key_def)
qed

interpretation report_shares: keyset_listing L sl_key "\<lambda>c k. key_text L k < key_text L c" smem_listable
    "\<lambda>r. sort_newest (key_text L) sl_key (smem_matches projectID reportID r)"
    "\<lambda>p r. fst (smem_ListByReport L projectID reportID p r)"
  by (rule keyset_listing_desc) (simp_all add: key_text_inj smem_rows smem_ListByReport_def)

section \<open>Properties\<close>

lemma smem_found:
  assumes "smem_ok s" "smem_links s i = Some l"
  shows "sl_ID l = i \<and> sr_GetByToken (smem_repo L) (sl_Token l) s = (Inr l, s)"
  using assms indexedD(2) [of sl_ID sl_Token "smem_byID s" "smem_token s" i l]
  by (simp add: smem_ok_def smem_links_def smem_defs)

text \<open>
  C25: a share link opens its report until it ends. After \<open>Create\<close> succeeded and whatever calls follow, the link
  is still there with the expiry promised, and its token gives the report's payload at every instant before the
  expiry unless the link was revoked; else \<open>ErrShareInactive\<close>.
\<close>

theorem share_opens_until_it_ends:
  assumes "smem_uses L S" "smem_ok s0" "fresh_share L S (smem_links s0) (Inr b) i" "b \<noteq> []"
    and "shs_Create L enc S (Inr b) now now' i u p r e s0 = (Inr dto, s1)" "share_steps L enc S smem_links s1 s2"
  shows "\<exists>l exp. smem_links s2 i = Some l \<and> sl_ExpiresAt l = Some exp \<and> sd_ExpiresAt dto = Some exp \<and> sd_ID dto = i
     \<and> shs_PublicGet L S t (sd_Token dto) s2 =
         (if sl_RevokedAt l \<noteq> None \<or> exp \<le> t then (Inl ErrShareInactive, s2) else andthen (sh_reports S p r) (shs_view S) s2)"
proof -
  note C = smem_client [OF assms(1)]
  obtain l where s1: "smem_ok s1" "smem_links s1 i = Some l" and l: "sl_ID l = i" "sl_Token l = shs_stored L S (b64_encode True b)"
      "sl_RevokedAt l = None" "sl_ProjectID l = p" "sl_ReportID l = r" "dto = share_toCreateDTO l (b64_encode True b)"
      "sl_ExpiresAt l \<noteq> None"
    using share_client.Create_step [OF C assms(2,3,5)] by (auto simp: share_new_token_def)
  obtain a where l2: "smem_links s2 i = Some (l\<lparr>sl_RevokedAt := a\<rparr>)" and s2: "smem_ok s2"
    using share_client.steps_keep [OF C assms(6) s1(1)] s1(2) by (auto dest: links_keptD)
  obtain exp where exp: "sl_ExpiresAt l = Some exp" using l(7) by blast
  have "b64_encode True b \<noteq> []" using assms(4) by (simp add: b64_encode_def to_sextets_Nil_iff)
  moreover have "sr_GetByToken (smem_repo L) (shs_stored L S (b64_encode True b)) s2 = (Inr (l\<lparr>sl_RevokedAt := a\<rparr>), s2)"
    using smem_found [OF s2 l2, of L] l(2) by simp
  ultimately have "shs_PublicGet L S t (b64_encode True b) s2 =
     (if \<not> share_active (l\<lparr>sl_RevokedAt := a\<rparr>) t then (Inl ErrShareInactive, s2) else andthen (sh_reports S p r) (shs_view S) s2)"
    using share_client.PublicGet_link [OF C s2 l2, of L "b64_encode True b" "l\<lparr>sl_RevokedAt := a\<rparr>" s2 t] l by auto
  then show ?thesis using l2 exp l by (auto simp: share_active_def share_toCreateDTO_def)
qed

definition sample_share :: "share_mem sharing_service" where
  "sample_share = sharing_service_new (smem_repo sample_lib) share_access_ok
     (reports_double \<lparr>pub_ReportID = 5, pub_ProjectID = 4, pub_Status = ''READY'', pub_Title = ''Crash'', pub_Summary = ''It crashes'',
        pub_Steps = ''[]'', pub_Frames = [\<lparr>pf_Ordinal = 0, pf_StorageKey = ''f0'', pf_ContentType = ''image/jpeg''\<rparr>], pub_ThumbKey = []\<rparr> None)
     (Some share_signer_double) \<lparr>sc_DefaultTTL = 100, sc_MaxTTL = 500, sc_HashTokens = True\<rparr> \<lparr>lc_DefaultLimit = 50, lc_MaxLimit = 100\<rparr>"

definition sample_enc_share :: "share_event \<Rightarrow> err + bytes" where
  "sample_enc_share e = Inr (se_ShareID e)"

definition shared :: share_mem where
  "shared = snd (shs_Create sample_lib sample_enc_share sample_share (Inr ''a1'') 10 11 1 7 4 5 (Some 50) smem_new)"

lemma sample_share_uses: "smem_uses sample_lib sample_share"
  by (simp add: smem_uses_def sample_share_def sharing_service_new_def share_access_ok_def share_signer_double_def
      reports_double_def keeps_def)

lemma shared_eq:
  "\<exists>dto. shs_Create sample_lib sample_enc_share sample_share (Inr ''a1'') 10 11 1 7 4 5 (Some 50) smem_new = (Inr dto, shared)
     \<and> sd_Token dto = ''YTE''"
  "shared = \<lparr>smem_byID = [(1, \<lparr>sl_ID = 1, sl_ReportID = 5, sl_ProjectID = 4, sl_Token = ''hYTE'', sl_ExpiresAt = Some 60,
      sl_RevokedAt = None, sl_CreatedBy = 7, sl_CreatedAt = 11\<rparr>)], smem_token = [(''hYTE'', 1)]\<rparr>"
proof -
  have b: "b64_encode True ''a1'' = ''YTE''" by code_simp
  have h: "sha256_hex sample_lib s = CHR ''h'' # s" for s by (simp add: sample_lib_def)
  note defs = shs_Create_def sample_share_def sharing_service_new_def share_access_ok_def reports_double_def share_new_token_def
      shs_resolveExpiry_def shs_stored_def share_hash_token_def smem_defs smem_new_def andthen_def map_err_def share_toCreateDTO_def Let_def
  show "\<exists>dto. shs_Create sample_lib sample_enc_share sample_share (Inr ''a1'') 10 11 1 7 4 5 (Some 50) smem_new = (Inr dto, shared)
     \<and> sd_Token dto = ''YTE''"
    by (simp add: shared_def defs b)
  show "shared = \<lparr>smem_byID = [(1, \<lparr>sl_ID = 1, sl_ReportID = 5, sl_ProjectID = 4, sl_Token = ''hYTE'', sl_ExpiresAt = Some 60,
      sl_RevokedAt = None, sl_CreatedBy = 7, sl_CreatedAt = 11\<rparr>)], smem_token = [(''hYTE'', 1)]\<rparr>"
    by (simp add: shared_def defs b h m_set_simps)
qed

lemma fresh_share_new: "fresh_share L S (smem_links smem_new) random i"
  by (simp add: fresh_share_def fresh_link_def smem_links_def smem_new_def)

theorem share_opens_until_it_ends_witness:
  "\<exists>v. shs_PublicGet sample_lib sample_share 59 ''YTE'' shared = (Inr v, shared) \<and> pv_Title v = ''Crash''
     \<and> shs_PublicGet sample_lib sample_share 60 ''YTE'' shared = (Inl ErrShareInactive, shared)"
proof -
  obtain dto where c: "shs_Create sample_lib sample_enc_share sample_share (Inr ''a1'') 10 11 1 7 4 5 (Some 50) smem_new = (Inr dto, shared)"
    and t: "sd_Token dto = ''YTE''" using shared_eq(1) by blast
  have ne: "''a1'' \<noteq> []" by simp
  have get: "\<exists>l exp. smem_links shared 1 = Some l \<and> sl_ExpiresAt l = Some exp
     \<and> shs_PublicGet sample_lib sample_share t ''YTE'' shared = (if sl_RevokedAt l \<noteq> None \<or> exp \<le> t then (Inl ErrShareInactive, shared)
          else andthen (sh_reports sample_share 4 5) (shs_view sample_share) shared)" for t
    using share_opens_until_it_ends [OF sample_share_uses smem_new_ok fresh_share_new ne c share_steps.start, where t = t] t by auto
  have eq: "shs_PublicGet sample_lib sample_share t ''YTE'' shared = (if 60 \<le> t then (Inl ErrShareInactive, shared)
          else andthen (sh_reports sample_share 4 5) (shs_view sample_share) shared)" for t
    using get [of t] by (auto simp: smem_links_def shared_eq(2))
  have "\<exists>v. andthen (sh_reports sample_share 4 5) (shs_view sample_share) shared = (Inr v, shared) \<and> pv_Title v = ''Crash''"
    by (simp add: sample_share_def sharing_service_new_def reports_double_def shs_view_def andthen_def signed_url_def share_signer_double_def attempt_def)
  then show ?thesis by (simp add: eq)
qed

text \<open>
  C26: a revoked link stays closed. Once an owner has revoked it, its token gives \<open>ErrShareInactive\<close>, whatever
  calls follow and whatever the clock shows.
\<close>

theorem revoked_share_stays_closed:
  assumes "smem_uses L S" "smem_ok s0" "smem_links s0 i = Some l" "sl_Token l = shs_stored L S raw" "raw \<noteq> []"
    and "shs_Revoke S now u p i s0 = (Inr (), s1)" "share_steps L enc S smem_links s1 s2"
  shows "shs_PublicGet L S t raw s2 = (Inl ErrShareInactive, s2)"
proof -
  note C = smem_client [OF assms(1)]
  have s1: "smem_ok s1" "smem_links s1 i = Some (l\<lparr>sl_RevokedAt := Some now\<rparr>)"
    using share_client.Revoke_step [OF C assms(2,6)] assms(3) by auto
  obtain a where l2: "smem_links s2 i = Some (l\<lparr>sl_RevokedAt := Some a\<rparr>)" and s2: "smem_ok s2"
    using share_client.steps_keep [OF C assms(7) s1(1)] s1(2) by (fastforce dest: links_keptD)
  have "sr_GetByToken (smem_repo L) (shs_stored L S raw) s2 = (Inr (l\<lparr>sl_RevokedAt := Some a\<rparr>), s2)" "sl_ID l = i"
    using smem_found [OF s2 l2, of L] assms(4) by simp_all
  then show ?thesis
    using share_client.PublicGet_link [OF C s2 l2, of L raw "l\<lparr>sl_RevokedAt := Some a\<rparr>" s2 t] assms(4,5)
    by (simp add: share_active_def)
qed

theorem revoked_share_stays_closed_witness:
  "\<exists>s1. shs_Revoke sample_share 20 7 4 1 shared = (Inr (), s1)
     \<and> shs_PublicGet sample_lib sample_share 30 ''YTE'' s1 = (Inl ErrShareInactive, s1)"
proof -
  have "\<exists>s1. shs_Revoke sample_share 20 7 4 1 shared = (Inr (), s1)"
    by (simp add: shs_Revoke_def sample_share_def sharing_service_new_def share_access_ok_def andthen_def map_err_def smem_defs shared_eq(2))
  then obtain s1 where s1: "shs_Revoke sample_share 20 7 4 1 shared = (Inr (), s1)" by blast
  let ?l = "\<lparr>sl_ID = 1, sl_ReportID = 5, sl_ProjectID = 4, sl_Token = ''hYTE'', sl_ExpiresAt = Some 60,
      sl_RevokedAt = None, sl_CreatedBy = 7, sl_CreatedAt = 11\<rparr>"
  have ok: "smem_ok shared" by (auto simp: smem_ok_def indexed_def shared_eq(2) m_wf_Cons split: if_splits)
  have l: "smem_links shared 1 = Some ?l" by (simp add: smem_links_def shared_eq(2))
  have t: "sl_Token ?l = shs_stored sample_lib sample_share ''YTE''"
    by (simp add: shs_stored_def sample_share_def sharing_service_new_def share_hash_token_def sample_lib_def)
  have ne: "''YTE'' \<noteq> []" by simp
  show ?thesis using revoked_share_stays_closed [where t = 30, OF sample_share_uses ok l t ne s1 share_steps.start] s1 by blast
qed



text \<open>
  A wish beyond 292 years wraps around. Under the default configuration (at most 90 days), 18446744074 seconds
  are not refused: the link is made and lives for less than a third of a second.
\<close>

theorem huge_expiry_wraps_to_a_short_one:
  "shs_resolveExpiry (S\<lparr>sh_shareCfg := \<lparr>sc_DefaultTTL = 720 * hour, sc_MaxTTL = 2160 * hour, sc_HashTokens = True\<rparr>\<rparr>) now
     (handler_expiry (Some 18446744074)) = Inr (now + 290448384)"
  by (simp add: shs_resolveExpiry_def handler_expiry_def wrap64_def)

end
