(* ===== verification/Reports.thy ===== *)
theory Reports
  imports Sharing
begin

text \<open>
  \<open>internal/reports\<close>: reports and their details (\<open>domain/report.go\<close>), the ports (\<open>port/port.go\<close>), the service
  (\<open>service/service.go\<close>), the process-local cache of details (\<open>adapter/cache/cache.go\<close>) and the shared one
  (\<open>adapter/cache/redis.go\<close>) over the commands of Redis.
\<close>

section \<open>Domain\<close>

text \<open>\<open>Status\<close> is a string; the rows of the database may hold any.\<close>

definition StatusPending :: string where "StatusPending = ''PENDING''"
definition StatusGenerating :: string where "StatusGenerating = ''GENERATING''"
definition StatusReady :: string where "StatusReady = ''READY''"
definition StatusFailed :: string where "StatusFailed = ''FAILED''"

record report =
  rp_ID :: uuid
  rp_RecordingID :: uuid
  rp_ProjectID :: uuid
  rp_Status :: string
  rp_Title :: string
  rp_Summary :: string
  rp_Steps :: bytes
  rp_AIStatus :: string
  rp_PromptVersion :: string
  rp_CreatedAt :: go_time
  rp_UpdatedAt :: go_time

record frame =
  fr_Ordinal :: int
  fr_StorageKey :: string
  fr_ContentType :: string
  fr_ByteSize :: "int option"
  fr_URL :: string

record detail =
  dt_Report :: report
  dt_RecordingStatus :: string
  dt_Metadata :: bytes
  dt_Frames :: "frame list"
  dt_ThumbURL :: string

section \<open>Ports\<close>

record 's report_repository =
  rpr_ListByProject :: "uuid \<Rightarrow> page \<Rightarrow> ('s, report page_result) op"
  rpr_GetByID :: "uuid \<Rightarrow> uuid \<Rightarrow> ('s, detail) op"
  rpr_GetByRecordingID :: "uuid \<Rightarrow> uuid \<Rightarrow> ('s, detail) op"

text \<open>The cache reads its clock: the reading is the first argument.\<close>

record 's detail_cache =
  dc_Enabled :: bool
  dc_Get :: "go_time \<Rightarrow> uuid \<Rightarrow> 's \<Rightarrow> detail option \<times> 's"
  dc_Set :: "go_time \<Rightarrow> uuid \<Rightarrow> detail \<Rightarrow> 's \<Rightarrow> 's"

section \<open>Service\<close>

record 's reports_service =
  rs_repo :: "'s report_repository"
  rs_EnsureMember :: "uuid \<Rightarrow> uuid \<Rightarrow> ('s, unit) op"
  rs_signer :: "'s url_signer option"
  rs_urlTTL :: duration
  rs_cache :: "'s detail_cache option"
  rs_listCfg :: list_config

definition reports_service_new ::
    "'s report_repository \<Rightarrow> (uuid \<Rightarrow> uuid \<Rightarrow> ('s, unit) op) \<Rightarrow> 's url_signer option \<Rightarrow> 's detail_cache option
       \<Rightarrow> list_config \<Rightarrow> 's reports_service" where
  "reports_service_new repo acc signer cache listCfg =
     \<lparr>rs_repo = repo, rs_EnsureMember = acc, rs_signer = signer, rs_urlTTL = 15 * minute, rs_cache = cache, rs_listCfg = listCfg\<rparr>"

record report_dto =
  rd_ID :: uuid
  rd_RecordingID :: uuid
  rd_ProjectID :: uuid
  rd_Status :: string
  rd_Title :: string
  rd_Summary :: string
  rd_Steps :: bytes
  rd_AIStatus :: string
  rd_PromptVersion :: string
  rd_CreatedAt :: go_time
  rd_UpdatedAt :: go_time

record frame_dto =
  fd_Ordinal :: int
  fd_StorageKey :: string
  fd_ContentType :: string
  fd_ByteSize :: "int option"
  fd_URL :: string

record detail_dto =
  dd_Report :: report_dto
  dd_RecordingStatus :: string
  dd_Metadata :: bytes
  dd_Frames :: "frame_dto list"
  dd_ThumbURL :: string

definition toReportDTO :: "report \<Rightarrow> report_dto" where
  "toReportDTO r =
     \<lparr>rd_ID = rp_ID r, rd_RecordingID = rp_RecordingID r, rd_ProjectID = rp_ProjectID r, rd_Status = rp_Status r,
      rd_Title = rp_Title r, rd_Summary = rp_Summary r, rd_Steps = rp_Steps r, rd_AIStatus = rp_AIStatus r,
      rd_PromptVersion = rp_PromptVersion r, rd_CreatedAt = rp_CreatedAt r, rd_UpdatedAt = rp_UpdatedAt r\<rparr>"

definition rps_mapAccess :: "err \<Rightarrow> err" where
  "rps_mapAccess e = ErrForbidden Reports"

definition rps_List :: "'s reports_service \<Rightarrow> uuid \<Rightarrow> uuid \<Rightarrow> page \<Rightarrow> ('s, report_dto page_result) op" where
  "rps_List S userID projectID p =
     andthen (map_err rps_mapAccess (rs_EnsureMember S userID projectID)) (\<lambda>_.
     andthen (rpr_ListByProject (rs_repo S) projectID p) (\<lambda>rows.
     ret (map_page toReportDTO rows)))"

definition rps_ListLimits :: "'s reports_service \<Rightarrow> limits" where
  "rps_ListLimits S = \<lparr>lim_Default = lc_DefaultLimit (rs_listCfg S), lim_Max = lc_MaxLimit (rs_listCfg S)\<rparr>"

fun rps_frames :: "'s reports_service \<Rightarrow> frame list \<Rightarrow> ('s, frame_dto list) op" where
  "rps_frames S [] = ret []"
| "rps_frames S (f # fs) =
     andthen (if fr_StorageKey f \<noteq> [] then signed_url (rs_signer S) (rs_urlTTL S) (fr_StorageKey f) else ret []) (\<lambda>u.
     andthen (rps_frames S fs) (\<lambda>ds.
     ret (\<lparr>fd_Ordinal = fr_Ordinal f, fd_StorageKey = fr_StorageKey f, fd_ContentType = fr_ContentType f,
           fd_ByteSize = fr_ByteSize f, fd_URL = u\<rparr> # ds)))"

definition rps_withURLs :: "'s reports_service \<Rightarrow> detail \<Rightarrow> ('s, detail_dto) op" where
  "rps_withURLs S d =
     andthen (rps_frames S (dt_Frames d)) (\<lambda>frames.
     andthen (if dt_ThumbURL d \<noteq> [] then signed_url (rs_signer S) (rs_urlTTL S) (dt_ThumbURL d) else ret []) (\<lambda>thumb.
     ret \<lparr>dd_Report = toReportDTO (dt_Report d), dd_RecordingStatus = dt_RecordingStatus d, dd_Metadata = dt_Metadata d,
          dd_Frames = frames, dd_ThumbURL = thumb\<rparr>))"

text \<open>A hit counts only for a report of the project asked for.\<close>

definition rps_cached :: "'s reports_service \<Rightarrow> go_time \<Rightarrow> uuid \<Rightarrow> uuid \<Rightarrow> ('s, detail option) op" where
  "rps_cached S now projectID reportID s =
     (case rs_cache S of
        None \<Rightarrow> (Inr None, s)
      | Some c \<Rightarrow>
          if \<not> dc_Enabled c then (Inr None, s)
          else (case dc_Get c now reportID s of
                  (Some d, s') \<Rightarrow> (Inr (if rp_ProjectID (dt_Report d) = projectID then Some d else None), s')
                | (None, s') \<Rightarrow> (Inr None, s')))"

lemma rps_cached_total: "\<exists>hit s'. rps_cached S now p i s = (Inr hit, s')"
  by (simp add: rps_cached_def split: option.splits prod.splits)

definition rps_store :: "'s reports_service \<Rightarrow> go_time \<Rightarrow> uuid \<Rightarrow> detail \<Rightarrow> ('s, unit) op" where
  "rps_store S now i d = (case rs_cache S of None \<Rightarrow> ret () | Some c \<Rightarrow> modify (dc_Set c now i d))"

definition rps_Get :: "'s reports_service \<Rightarrow> go_time \<Rightarrow> go_time \<Rightarrow> uuid \<Rightarrow> uuid \<Rightarrow> uuid \<Rightarrow> ('s, detail_dto) op" where
  "rps_Get S now now' userID projectID reportID =
     andthen (map_err rps_mapAccess (rs_EnsureMember S userID projectID)) (\<lambda>_.
     andthen (rps_cached S now projectID reportID) (\<lambda>hit.
     case hit of
       Some d \<Rightarrow> rps_withURLs S d
     | None \<Rightarrow>
         andthen (rpr_GetByID (rs_repo S) projectID reportID) (\<lambda>d.
         andthen (rps_store S now' reportID d) (\<lambda>_.
         rps_withURLs S d))))"

definition rps_GetByRecording :: "'s reports_service \<Rightarrow> go_time \<Rightarrow> uuid \<Rightarrow> uuid \<Rightarrow> uuid \<Rightarrow> ('s, detail_dto) op" where
  "rps_GetByRecording S now userID projectID recordingID =
     andthen (map_err rps_mapAccess (rs_EnsureMember S userID projectID)) (\<lambda>_.
     andthen (rpr_GetByRecordingID (rs_repo S) projectID recordingID) (\<lambda>d.
     andthen (rps_store S now (rp_ID (dt_Report d)) d) (\<lambda>_.
     rps_withURLs S d)))"

section \<open>The caches\<close>

text \<open>\<open>ReportCache\<close>: a map of details with their expiry. Get and Set read the clock as \<open>now\<close>.\<close>

type_synonym cache_map = "(uuid, detail \<times> go_time) gomap"

definition rc_Enabled :: "duration \<Rightarrow> bool" where
  "rc_Enabled ttl \<longleftrightarrow> ttl > 0"

definition rc_Get :: "duration \<Rightarrow> go_time \<Rightarrow> uuid \<Rightarrow> cache_map \<Rightarrow> detail option \<times> cache_map" where
  "rc_Get ttl now i m =
     (if \<not> rc_Enabled ttl then (None, m)
      else case m_get m i of
        None \<Rightarrow> (None, m)
      | Some (d, exp) \<Rightarrow> if exp < now then (None, m_del i m) else (Some d, m))"

definition rc_Set :: "duration \<Rightarrow> go_time \<Rightarrow> uuid \<Rightarrow> detail \<Rightarrow> cache_map \<Rightarrow> cache_map" where
  "rc_Set ttl now i d m = (if \<not> rc_Enabled ttl then m else m_set i (d, now + ttl) m)"

definition rc_Invalidate :: "uuid \<Rightarrow> cache_map \<Rightarrow> cache_map" where
  "rc_Invalidate i m = m_del i m"

text \<open>The commands of Redis the program uses, and the shared cache over them.\<close>

record 's redis =
  redis_Get :: "string \<Rightarrow> ('s, bytes) op"
  redis_Set :: "string \<Rightarrow> bytes \<Rightarrow> duration \<Rightarrow> ('s, unit) op"
  redis_Del :: "string \<Rightarrow> ('s, unit) op"
  redis_Incr :: "string \<Rightarrow> ('s, int) op"
  redis_Expire :: "string \<Rightarrow> duration \<Rightarrow> ('s, unit) op"
  redis_Publish :: "string \<Rightarrow> bytes \<Rightarrow> ('s, unit) op"

record 's redis_cache =
  rrc_rdb :: "'s redis option"
  rrc_ttl :: duration

definition detailKeyPrefix :: string where
  "detailKeyPrefix = ''bugsathi:report:detail:''"

definition rrc_Enabled :: "'s redis_cache \<Rightarrow> bool" where
  "rrc_Enabled c \<longleftrightarrow> rrc_rdb c \<noteq> None \<and> rrc_ttl c > 0"

definition rrc_Get ::
    "'z golib_scheme \<Rightarrow> (bytes \<Rightarrow> err + detail) \<Rightarrow> 's redis_cache \<Rightarrow> uuid \<Rightarrow> 's \<Rightarrow> detail option \<times> 's" where
  "rrc_Get L dec c i s =
     (if \<not> rrc_Enabled c then (None, s)
      else case redis_Get (the (rrc_rdb c)) (detailKeyPrefix @ uuid_string L i) s of
        (Inl e, s') \<Rightarrow> (None, s')
      | (Inr raw, s') \<Rightarrow> (case dec raw of Inl e \<Rightarrow> None | Inr d \<Rightarrow> Some d, s'))"

definition rrc_Set ::
    "'z golib_scheme \<Rightarrow> (detail \<Rightarrow> err + bytes) \<Rightarrow> 's redis_cache \<Rightarrow> uuid \<Rightarrow> detail \<Rightarrow> 's \<Rightarrow> 's" where
  "rrc_Set L enc c i d s =
     (if \<not> rrc_Enabled c then s
      else case enc d of
        Inl e \<Rightarrow> s
      | Inr raw \<Rightarrow> snd (redis_Set (the (rrc_rdb c)) (detailKeyPrefix @ uuid_string L i) raw (rrc_ttl c) s))"

definition rrc_Invalidate :: "'z golib_scheme \<Rightarrow> 's redis_cache \<Rightarrow> uuid \<Rightarrow> 's \<Rightarrow> 's" where
  "rrc_Invalidate L c i s =
     (if \<not> rrc_Enabled c then s
      else snd (redis_Del (the (rrc_rdb c)) (detailKeyPrefix @ uuid_string L i) s))"

section \<open>What the service needs of its cache and repository\<close>

text \<open>
  A cache gives back only what was put in under the same identifier: \<open>P\<close> is a property of the details put in.
\<close>

locale report_source =
  fixes R :: "'s report_repository" and C :: "'s detail_cache option" and ok :: "'s \<Rightarrow> bool"
    and P :: "uuid \<Rightarrow> detail \<Rightarrow> bool"
  assumes by_id: "preserves ok (rpr_GetByID R p i)"
    "ok s \<Longrightarrow> rpr_GetByID R p i s = (Inr d, s') \<Longrightarrow> P i d \<and> rp_ID (dt_Report d) = i \<and> rp_ProjectID (dt_Report d) = p"
    and by_recording: "preserves ok (rpr_GetByRecordingID R p r)"
    "ok s \<Longrightarrow> rpr_GetByRecordingID R p r s = (Inr d, s') \<Longrightarrow>
       P (rp_ID (dt_Report d)) d \<and> rp_ProjectID (dt_Report d) = p \<and> rp_RecordingID (dt_Report d) = r"
    and cache_get: "C = Some c \<Longrightarrow> ok s \<Longrightarrow> dc_Get c now i s = (x, s') \<Longrightarrow> ok s' \<and> (\<forall>d. x = Some d \<longrightarrow> P i d)"
    and cache_set: "C = Some c \<Longrightarrow> ok s \<Longrightarrow> P i d \<Longrightarrow> ok (dc_Set c now i d s)"

locale report_client = report_source R C ok P
  for R :: "'s report_repository" and C :: "'s detail_cache option" and ok :: "'s \<Rightarrow> bool" and P :: "uuid \<Rightarrow> detail \<Rightarrow> bool" +
  fixes S :: "'s reports_service"
  assumes parts: "rs_repo S = R" "rs_cache S = C"
    and others: "preserves ok (rs_EnsureMember S u p)" "rs_signer S = Some sign \<Longrightarrow> preserves ok (sign key ttl)"
begin

lemma signed_url_ok: "preserves ok (signed_url (rs_signer S) ttl key)"
proof (cases "rs_signer S")
  case None
  then show ?thesis by (simp add: signed_url_def preserves_def)
next
  case (Some sign)
  then show ?thesis using preserves_andthen [OF preserves_attempt [OF others(2) [OF Some]] preserves_ret]
    by (simp add: signed_url_def)
qed

lemma frames_ok: "preserves ok (rps_frames S fs)"
proof (induction fs)
  case Nil
  show ?case by (simp only: rps_frames.simps preserves_ret)
next
  case (Cons f fs)
  show ?case unfolding rps_frames.simps by (intro preserves_andthen preserves_if signed_url_ok Cons preserves_ret)
qed

lemma withURLs_ok: "preserves ok (rps_withURLs S d)"
  unfolding rps_withURLs_def by (intro preserves_andthen preserves_if signed_url_ok frames_ok preserves_ret)

lemma withURLs_report: "rps_withURLs S d s = (Inr x, s') \<Longrightarrow> dd_Report x = toReportDTO (dt_Report d)"
  by (auto simp: rps_withURLs_def andthen_def split: sum.splits prod.splits)

text \<open>A detail served is one the repository gave for that report, and of the project asked for.\<close>

lemma Get_served:
  assumes s: "ok s" and run: "rps_Get S now now' u p i s = (x, s')"
  shows "ok s' \<and> (\<forall>y. x = Inr y \<longrightarrow> (\<exists>d. P i d \<and> dd_Report y = toReportDTO (dt_Report d) \<and> rp_ProjectID (dt_Report d) = p))"
  using run unfolding rps_Get_def
proof (cases rule: andthen_cases)
  case (err e)
  then show ?thesis using preservesD [OF preserves_map_err [OF others(1)] err(1)] s by simp
next
  case (ok a s1)
  have s1: "ok s1" using preservesD [OF preserves_map_err [OF others(1)] ok(1)] s by simp
  obtain hit s2 where hit: "rps_cached S now p i s1 = (Inr hit, s2)"
    using rps_cached_total [of S now p i s1] by blast
  have s2: "ok s2 \<and> (\<forall>d. hit = Some d \<longrightarrow> P i d \<and> rp_ProjectID (dt_Report d) = p)"
    using hit s1 cache_get parts(2)
    by (fastforce simp: rps_cached_def split: option.splits prod.splits if_splits)
  show ?thesis
  proof (cases hit)
    case (Some d)
    then have "rps_withURLs S d s2 = (x, s')" using ok(2) hit by (simp add: andthen_def)
    then show ?thesis using s2 Some preservesD [OF withURLs_ok] withURLs_report by blast
  next
    case None
    with ok(2) hit have "andthen (rpr_GetByID R p i) (\<lambda>d. andthen (rps_store S now' i d) (\<lambda>_. rps_withURLs S d)) s2 = (x, s')"
      by (simp add: andthen_def parts)
    then show ?thesis
    proof (cases rule: andthen_cases)
      case (err e)
      then show ?thesis using preservesD [OF by_id(1) err(1)] s2 by simp
    next
      case (ok d s3)
      have d: "P i d" "rp_ProjectID (dt_Report d) = p" "ok s3"
        using by_id(2) [OF _ ok(1)] preservesD [OF by_id(1) ok(1)] s2 by auto
      obtain s4 where s4: "rps_store S now' i d s3 = (Inr (), s4)" "ok s4"
        using d cache_set parts(2) by (cases "rs_cache S") (auto simp: rps_store_def)
      then have "rps_withURLs S d s4 = (x, s')" using ok(2) by (simp add: andthen_def)
      then show ?thesis using d s4 preservesD [OF withURLs_ok] withURLs_report by blast
    qed
  qed
qed

lemma GetByRecording_served:
  assumes s: "ok s" and run: "rps_GetByRecording S now u p r s = (x, s')"
  shows "ok s' \<and> (\<forall>y. x = Inr y \<longrightarrow> (\<exists>d. P (rp_ID (dt_Report d)) d \<and> dd_Report y = toReportDTO (dt_Report d)
     \<and> rp_ProjectID (dt_Report d) = p \<and> rp_RecordingID (dt_Report d) = r))"
  using run unfolding rps_GetByRecording_def parts
proof (cases rule: andthen_cases)
  case (err e)
  then show ?thesis using preservesD [OF preserves_map_err [OF others(1)] err(1)] s by simp
next
  case (ok a s1)
  have s1: "ok s1" using preservesD [OF preserves_map_err [OF others(1)] ok(1)] s by simp
  from ok(2) show ?thesis
  proof (cases rule: andthen_cases)
    case (err e)
    then show ?thesis using preservesD [OF by_recording(1) err(1)] s1 by simp
  next
    case (ok d s3)
    have d: "P (rp_ID (dt_Report d)) d" "rp_ProjectID (dt_Report d) = p" "rp_RecordingID (dt_Report d) = r" "ok s3"
      using by_recording(2) [OF s1 ok(1)] preservesD [OF by_recording(1) ok(1)] s1 by auto
    obtain s4 where s4: "rps_store S now (rp_ID (dt_Report d)) d s3 = (Inr (), s4)" "ok s4"
      using d cache_set parts(2) by (cases "rs_cache S") (auto simp: rps_store_def)
    then have "rps_withURLs S d s4 = (x, s')" using ok(2) by (simp add: andthen_def)
    then show ?thesis using d s4 preservesD [OF withURLs_ok] withURLs_report by blast
  qed
qed

end

end
