(* ===== verification/Reports_Memory.thy ===== *)
theory Reports_Memory
  imports Reports Indexed Sample_Lib
begin

text \<open>
  \<open>internal/reports/adapter/memory\<close> (\<open>memory.go\<close>, \<open>list.go\<close>): the in-memory reports, with the process-local
  cache in front of them. A request that misses the cache reads the report and stores it in two steps;
  \<open>detail_steps\<close> lets workers write and invalidate in between. States the properties of the report service.
\<close>

section \<open>Repository\<close>

text \<open>\<open>rw_pending\<close> are the details requests have read and not yet stored.\<close>

record report_world =
  rw_reports :: "(uuid, detail) gomap"
  rw_cache :: cache_map
  rw_pending :: "(uuid \<times> detail) list"
  rw_now :: go_time

definition rmem_new :: report_world where
  "rmem_new = \<lparr>rw_reports = [], rw_cache = [], rw_pending = [], rw_now = 0\<rparr>"

definition rmem_Seed :: "detail \<Rightarrow> report_world \<Rightarrow> report_world" where
  "rmem_Seed d w = w\<lparr>rw_reports := m_set (rp_ID (dt_Report d)) d (rw_reports w)\<rparr>"

definition rmem_GetByID :: "uuid \<Rightarrow> uuid \<Rightarrow> (report_world, detail) op" where
  "rmem_GetByID projectID reportID w =
     (case m_get (rw_reports w) reportID of
        None \<Rightarrow> Inl (ErrNotFound Reports)
      | Some d \<Rightarrow> if rp_ProjectID (dt_Report d) \<noteq> projectID then Inl (ErrNotFound Reports) else Inr d, w)"

definition rmem_GetByRecordingID :: "uuid \<Rightarrow> uuid \<Rightarrow> (report_world, detail) op" where
  "rmem_GetByRecordingID projectID recordingID w =
     (case filter (\<lambda>d. rp_ProjectID (dt_Report d) = projectID \<and> rp_RecordingID (dt_Report d) = recordingID) (m_vals (rw_reports w)) of
        d # _ \<Rightarrow> Inr d | [] \<Rightarrow> Inl (ErrNotFound Reports), w)"

definition rp_key :: "report \<Rightarrow> go_time \<times> uuid" where
  "rp_key r = (rp_CreatedAt r, rp_ID r)"

definition rmem_matches :: "uuid \<Rightarrow> report_world \<Rightarrow> report list" where
  "rmem_matches projectID w =
     map dt_Report (filter (\<lambda>d. rp_ProjectID (dt_Report d) = projectID) (m_vals (rw_reports w)))"

definition rmem_ListByProject :: "'z golib_scheme \<Rightarrow> uuid \<Rightarrow> page \<Rightarrow> (report_world, report page_result) op" where
  "rmem_ListByProject L projectID p w = (list_desc L (key_text L) rp_key p (rmem_matches projectID w), w)"

definition rmem_repo :: "'z golib_scheme \<Rightarrow> report_world report_repository" where
  "rmem_repo L = \<lparr>rpr_ListByProject = rmem_ListByProject L, rpr_GetByID = rmem_GetByID, rpr_GetByRecordingID = rmem_GetByRecordingID\<rparr>"

text \<open>The doubles.\<close>

definition report_access_ok :: "uuid \<Rightarrow> uuid \<Rightarrow> ('s, unit) op" where
  "report_access_ok u p = ret ()"

definition report_access_deny :: "uuid \<Rightarrow> uuid \<Rightarrow> ('s, unit) op" where
  "report_access_deny u p = fail (ErrForbidden Reports)"

definition report_signer_double :: "'s url_signer" where
  "report_signer_double key ttl = ret (''https://example.test/'' @ key)"

text \<open>The process-local cache as the service sees it.\<close>

definition local_cache :: "duration \<Rightarrow> report_world detail_cache" where
  "local_cache ttl =
     \<lparr>dc_Enabled = rc_Enabled ttl,
      dc_Get = (\<lambda>now i w. let (x, m) = rc_Get ttl now i (rw_cache w) in (x, w\<lparr>rw_cache := m\<rparr>)),
      dc_Set = (\<lambda>now i d w. w\<lparr>rw_cache := rc_Set ttl now i d (rw_cache w)\<rparr>)\<rparr>"

definition rmem_service :: "'z golib_scheme \<Rightarrow> duration \<Rightarrow> list_config \<Rightarrow> report_world reports_service" where
  "rmem_service L ttl cfg =
     reports_service_new (rmem_repo L) report_access_ok (Some report_signer_double) (Some (local_cache ttl)) cfg"

section \<open>The contracts\<close>

definition rmem_ok :: "report_world \<Rightarrow> bool" where
  "rmem_ok w \<longleftrightarrow> m_wf (rw_reports w) \<and> (\<forall>i d. m_get (rw_reports w) i = Some d \<longrightarrow> rp_ID (dt_Report d) = i)
     \<and> (\<forall>i d exp. m_get (rw_cache w) i = Some (d, exp) \<longrightarrow> rp_ID (dt_Report d) = i)"

lemma rmem_new_ok: "rmem_ok rmem_new"
  by (simp add: rmem_ok_def rmem_new_def)

lemma rc_Get_cases:
  "rc_Get ttl now i m = (x, m') \<Longrightarrow>
     (case x of None \<Rightarrow> m' = m \<or> m' = m_del i m | Some d \<Rightarrow> m' = m \<and> (\<exists>exp. m_get m i = Some (d, exp) \<and> now \<le> exp))"
  by (auto simp: rc_Get_def split: if_splits option.splits)

interpretation rmem: report_source "rmem_repo L" "Some (local_cache ttl)" rmem_ok "\<lambda>i d. rp_ID (dt_Report d) = i"
proof (unfold_locales, goal_cases)
  case (1 p i)
  show ?case by (rule preservesI) (simp add: rmem_repo_def rmem_GetByID_def)
next
  case (2 s p i d s')
  then show ?case by (auto simp: rmem_repo_def rmem_GetByID_def rmem_ok_def split: option.splits if_splits)
next
  case (3 p r)
  show ?case by (rule preservesI) (simp add: rmem_repo_def rmem_GetByRecordingID_def)
next
  case (4 s p r d s')
  then obtain ds where ds: "filter (\<lambda>d. rp_ProjectID (dt_Report d) = p \<and> rp_RecordingID (dt_Report d) = r) (m_vals (rw_reports s)) = d # ds"
    by (auto simp: rmem_repo_def rmem_GetByRecordingID_def split: list.splits)
  have "d \<in> set (filter (\<lambda>d. rp_ProjectID (dt_Report d) = p \<and> rp_RecordingID (dt_Report d) = r) (m_vals (rw_reports s)))"
    unfolding ds by simp
  then show ?case by simp
next
  case (5 c s now i x s')
  obtain m where m: "rc_Get ttl now i (rw_cache s) = (x, m)" "s' = s\<lparr>rw_cache := m\<rparr>"
    using 5 by (auto simp: local_cache_def Let_def split: prod.splits)
  then show ?case using rc_Get_cases [OF m(1)] 5(2) by (auto simp: rmem_ok_def split: option.splits if_splits)
next
  case (6 c s i d now)
  then show ?case by (auto simp: local_cache_def rc_Set_def rmem_ok_def split: if_splits)
qed

interpretation rmem_svc: report_client "rmem_repo L" "Some (local_cache ttl)" rmem_ok "\<lambda>i d. rp_ID (dt_Report d) = i" "rmem_service L ttl cfg"
  by unfold_locales
    (auto simp: rmem_service_def reports_service_new_def report_access_ok_def report_signer_double_def preserves_def)

definition rmem_listable :: "report_world \<Rightarrow> bool" where
  "rmem_listable w \<longleftrightarrow> rmem_ok w \<and> (\<forall>i d. m_get (rw_reports w) i = Some d \<longrightarrow> time_ok (rp_CreatedAt (dt_Report d)))"

lemma rmem_rows:
  assumes "rmem_listable w"
  shows "distinct (map rp_key (rmem_matches p w)) \<and> (\<forall>r\<in>set (rmem_matches p w). time_ok (fst (rp_key r)))"
proof -
  have wf: "m_wf (rw_reports w)" using assms by (simp add: rmem_listable_def rmem_ok_def)
  have "distinct (map (\<lambda>d. rp_key (dt_Report d)) (filter (\<lambda>d. rp_ProjectID (dt_Report d) = p) (m_vals (rw_reports w))))"
    by (rule m_vals_distinct_key [where ident = "\<lambda>d. rp_ID (dt_Report d)", OF wf])
      (use assms in \<open>auto simp: rmem_listable_def rmem_ok_def rp_key_def\<close>)
  moreover have "time_ok (rp_CreatedAt r)" if "r \<in> set (rmem_matches p w)" for r
    using that assms m_vals_iff [OF wf] by (auto simp: rmem_matches_def rmem_listable_def)
  ultimately show ?thesis by (simp add: rp_key_def rmem_matches_def comp_def)
qed

interpretation project_reports: keyset_listing L rp_key "\<lambda>c k. key_text L k < key_text L c" rmem_listable
    "\<lambda>w. sort_newest (key_text L) rp_key (rmem_matches projectID w)"
    "\<lambda>p w. fst (rmem_ListByProject L projectID p w)"
  by (rule keyset_listing_desc) (simp_all add: key_text_inj rmem_rows rmem_ListByProject_def)

section \<open>Requests and workers interleaved\<close>

text \<open>
  \<open>Get\<close> that misses is \<open>read\<close> and then \<open>store\<close>; a worker's commit is \<open>write\<close>, followed by \<open>invalidate\<close>. No
  step here writes the report \<open>i\<close>.
\<close>

inductive detail_steps :: "duration \<Rightarrow> uuid \<Rightarrow> report_world \<Rightarrow> report_world \<Rightarrow> bool" for ttl i w0 where
  start: "detail_steps ttl i w0 w0"
| advance: "detail_steps ttl i w0 w \<Longrightarrow> rw_now w \<le> t \<Longrightarrow> detail_steps ttl i w0 (w\<lparr>rw_now := t\<rparr>)"
| wrote: "detail_steps ttl i w0 w \<Longrightarrow> j \<noteq> i \<Longrightarrow> detail_steps ttl i w0 (w\<lparr>rw_reports := m_set j d (rw_reports w)\<rparr>)"
| invalidate: "detail_steps ttl i w0 w \<Longrightarrow> detail_steps ttl i w0 (w\<lparr>rw_cache := rc_Invalidate j (rw_cache w)\<rparr>)"
| hit: "detail_steps ttl i w0 w \<Longrightarrow> rc_Get ttl (rw_now w) j (rw_cache w) = (x, m) \<Longrightarrow> detail_steps ttl i w0 (w\<lparr>rw_cache := m\<rparr>)"
| read: "detail_steps ttl i w0 w \<Longrightarrow> rmem_GetByID p j w = (Inr d, w') \<Longrightarrow>
    detail_steps ttl i w0 (w'\<lparr>rw_pending := (j, d) # rw_pending w'\<rparr>)"
| store: "detail_steps ttl i w0 w \<Longrightarrow> (j, d) \<in> set (rw_pending w) \<Longrightarrow>
    detail_steps ttl i w0 (w\<lparr>rw_cache := rc_Set ttl (rw_now w) j d (rw_cache w), rw_pending := remove1 (j, d) (rw_pending w)\<rparr>)"

text \<open>Every detail of \<open>i\<close> that is not \<open>d\<close> was cached before, and what was read and not stored is \<open>d\<close>.\<close>

definition current_but :: "uuid \<Rightarrow> detail \<Rightarrow> report_world \<Rightarrow> report_world \<Rightarrow> bool" where
  "current_but i d w0 w \<longleftrightarrow> rw_now w0 \<le> rw_now w \<and> m_get (rw_reports w) i = Some d
     \<and> (\<forall>d'. (i, d') \<in> set (rw_pending w) \<longrightarrow> d' = d)
     \<and> (\<forall>d' exp. m_get (rw_cache w) i = Some (d', exp) \<longrightarrow> d' = d \<or> m_get (rw_cache w0) i = Some (d', exp))"

lemma detail_steps_current:
  assumes "detail_steps ttl i w0 w" "m_get (rw_reports w0) i = Some d" "\<forall>d'. (i, d') \<in> set (rw_pending w0) \<longrightarrow> d' = d"
  shows "current_but i d w0 w"
  using assms(1)
proof (induction rule: detail_steps.induct)
  case start
  then show ?case using assms(2,3) by (simp add: current_but_def)
next
  case (hit w j x m)
  have "m = rw_cache w \<or> m = m_del j (rw_cache w)"
    using rc_Get_cases [OF hit.hyps(2)] by (auto split: option.splits)
  then show ?case using hit.IH by (auto simp: current_but_def split: if_splits)
next
  case (read w p j d' w')
  have "w' = w \<and> m_get (rw_reports w) j = Some d'"
    using read.hyps(2) by (auto simp: rmem_GetByID_def split: option.splits if_splits)
  then show ?case using read.IH by (auto simp: current_but_def)
next
  case (store w j d')
  have "j = i \<Longrightarrow> d' = d" using store.hyps(2) store.IH by (auto simp: current_but_def)
  moreover have "(i, e) \<in> set (remove1 (j, d') (rw_pending w)) \<Longrightarrow> (i, e) \<in> set (rw_pending w)" for e
    using set_remove1_subset [of "(j, d')" "rw_pending w"] by blast
  ultimately show ?case using store.IH by (auto simp: current_but_def rc_Set_def split: if_splits)
qed (auto simp: current_but_def rc_Invalidate_def split: if_splits)

section \<open>Properties\<close>

text \<open>
  C28: a report is served only to its project. Although the cache is keyed by the report alone, a successful
  \<open>Get\<close> gives the report asked for, of the project asked for, and so does \<open>GetByRecording\<close>.
\<close>

theorem report_stays_in_its_project:
  assumes "rmem_ok w"
    and "rps_Get (rmem_service L ttl cfg) now now' u p i w = (Inr y, w')"
    and "rps_GetByRecording (rmem_service L ttl cfg) t u' q r w' = (Inr z, w'')"
  shows "rd_ID (dd_Report y) = i \<and> rd_ProjectID (dd_Report y) = p \<and> rd_RecordingID (dd_Report z) = r \<and> rd_ProjectID (dd_Report z) = q"
proof -
  note y = rmem_svc.Get_served [OF assms(1,2)]
  from y obtain d :: detail where d: "rp_ID (dt_Report d) = i" "dd_Report y = toReportDTO (dt_Report d)" "rp_ProjectID (dt_Report d) = p"
    by auto
  from rmem_svc.GetByRecording_served [OF conjunct1 [OF y] assms(3)]
  obtain e :: detail where e: "dd_Report z = toReportDTO (dt_Report e)" "rp_ProjectID (dt_Report e) = q" "rp_RecordingID (dt_Report e) = r"
    by auto
  show ?thesis by (simp add: d e toReportDTO_def)
qed

definition sample_detail :: "string \<Rightarrow> detail" where
  "sample_detail st = \<lparr>dt_Report = \<lparr>rp_ID = 5, rp_RecordingID = 6, rp_ProjectID = 4, rp_Status = st, rp_Title = ''Crash'',
     rp_Summary = ''It crashes'', rp_Steps = ''[]'', rp_AIStatus = ''running'', rp_PromptVersion = ''prompt_v2'',
     rp_CreatedAt = 1, rp_UpdatedAt = 1\<rparr>, dt_RecordingStatus = ''READY'', dt_Metadata = ''{}'', dt_Frames = [], dt_ThumbURL = []\<rparr>"

theorem report_stays_in_its_project_witness:
  "\<exists>y w' z w''. rps_Get (rmem_service sample_lib 30 \<lparr>lc_DefaultLimit = 50, lc_MaxLimit = 100\<rparr>) 2 2 7 4 5 (rmem_Seed (sample_detail StatusReady) rmem_new) = (Inr y, w')
     \<and> rps_GetByRecording (rmem_service sample_lib 30 \<lparr>lc_DefaultLimit = 50, lc_MaxLimit = 100\<rparr>) 3 7 4 6 w' = (Inr z, w'')
     \<and> rd_ProjectID (dd_Report y) = 4 \<and> rd_RecordingID (dd_Report z) = 6"
proof -
  let ?S = "rmem_service sample_lib 30 \<lparr>lc_DefaultLimit = 50, lc_MaxLimit = 100\<rparr>"
  let ?w = "rmem_Seed (sample_detail StatusReady) rmem_new"
  have ok: "rmem_ok ?w" by (simp add: rmem_ok_def rmem_Seed_def rmem_new_def sample_detail_def m_set_simps)
  have "\<exists>y w' z w''. rps_Get ?S 2 2 7 4 5 ?w = (Inr y, w') \<and> rps_GetByRecording ?S 3 7 4 6 w' = (Inr z, w'')"
    by (simp add: rps_Get_def rps_GetByRecording_def rps_cached_def rps_store_def rps_withURLs_def rmem_service_def reports_service_new_def
        report_access_ok_def local_cache_def rc_Enabled_def rc_Get_def rc_Set_def rmem_repo_def rmem_GetByID_def rmem_GetByRecordingID_def
        rmem_Seed_def rmem_new_def sample_detail_def m_set_simps m_vals_def andthen_def map_err_def Let_def)
  then obtain y w' z w'' where get: "rps_Get ?S 2 2 7 4 5 ?w = (Inr y, w')" "rps_GetByRecording ?S 3 7 4 6 w' = (Inr z, w'')" by blast
  from report_stays_in_its_project [OF ok this] show ?thesis using get by blast
qed

text \<open>
  C29: an outdated detail is served for at most the TTL. From the moment a report has its value and no request holds
  an older one, every hit of the cache gives that value, or else a detail that was cached before that moment, and
  then no later than \<open>ttl\<close> after it; if the entry was invalidated at that moment, the value is served at once.
\<close>

theorem cached_details_are_current:
  assumes "detail_steps ttl i w0 w" "m_get (rw_reports w0) i = Some d" "\<forall>d'. (i, d') \<in> set (rw_pending w0) \<longrightarrow> d' = d"
    and "\<forall>d' exp. m_get (rw_cache w0) i = Some (d', exp) \<longrightarrow> exp \<le> rw_now w0 + ttl"
    and "rc_Get ttl (rw_now w) i (rw_cache w) = (Some d', m)"
  shows "d' = d \<or> (rw_now w \<le> rw_now w0 + ttl \<and> m_get (rw_cache w0) i \<noteq> None)"
proof -
  have c: "current_but i d w0 w" by (rule detail_steps_current [OF assms(1-3)])
  obtain exp where "m_get (rw_cache w) i = Some (d', exp)" "rw_now w \<le> exp"
    using rc_Get_cases [OF assms(5)] by auto
  then show ?thesis using c assms(4) by (fastforce simp: current_but_def)
qed

definition was_generating :: report_world where
  "was_generating = \<lparr>rw_reports = [(5, sample_detail StatusGenerating)], rw_cache = [], rw_pending = [], rw_now = 10\<rparr>"

theorem cached_details_are_current_witness:
  "\<exists>m. rc_Get 30 50 5 [(5, sample_detail StatusReady, 75)] = (Some (sample_detail StatusReady), m)
     \<and> detail_steps 30 5 \<lparr>rw_reports = [(5, sample_detail StatusReady)], rw_cache = [], rw_pending = [], rw_now = 45\<rparr>
         \<lparr>rw_reports = [(5, sample_detail StatusReady)], rw_cache = [(5, sample_detail StatusReady, 75)], rw_pending = [], rw_now = 50\<rparr>
     \<and> (sample_detail StatusReady = sample_detail StatusReady \<or> ((50::int) \<le> 45 + 30 \<and> m_get ([] :: cache_map) 5 \<noteq> None))"
proof -
  let ?d = "sample_detail StatusReady"
  let ?w0 = "\<lparr>rw_reports = [(5, ?d)], rw_cache = [], rw_pending = [], rw_now = 45\<rparr>"
  have proj: "rp_ProjectID (dt_Report ?d) = 4" by (simp add: sample_detail_def)
  have "rmem_GetByID 4 5 ?w0 = (Inr ?d, ?w0)" by (simp add: rmem_GetByID_def proj)
  from detail_steps.read [OF detail_steps.start this]
  have "detail_steps 30 5 ?w0 (?w0\<lparr>rw_pending := [(5, ?d)]\<rparr>)" by simp
  from detail_steps.store [OF this, of 5 ?d] have "detail_steps 30 5 ?w0 (?w0\<lparr>rw_cache := [(5, ?d, 75)]\<rparr>)"
    by (simp add: rc_Set_def rc_Enabled_def m_set_simps)
  from detail_steps.advance [OF this, of 50]
  have st: "detail_steps 30 5 ?w0 \<lparr>rw_reports = [(5, ?d)], rw_cache = [(5, ?d, 75)], rw_pending = [], rw_now = 50\<rparr>" by simp
  have get: "rc_Get 30 50 5 [(5, ?d, 75)] = (Some ?d, [(5, ?d, 75)])" by (simp add: rc_Get_def rc_Enabled_def)
  from cached_details_are_current [OF st, of ?d ?d] get
  have "?d = ?d \<or> ((50::int) \<le> 45 + 30 \<and> m_get ([] :: cache_map) 5 \<noteq> None)" by simp
  then show ?thesis using st get by blast
qed

text \<open>
  Invalidation can come too early. A request reads a report that is still generating; the worker commits the
  finished one and invalidates the cache; then the request stores what it read. For the TTL the cache serves the
  report as still generating, though the invalidation was meant to end that.
\<close>

theorem late_store_outlives_invalidation:
  "\<exists>w w1 w2. rmem_GetByID 4 5 was_generating = (Inr (sample_detail StatusGenerating), w)
     \<and> w1 = (rmem_Seed (sample_detail StatusReady) w)\<lparr>rw_cache := rc_Invalidate 5 (rw_cache w)\<rparr>
     \<and> w2 = dc_Set (local_cache (30 * second)) 11 5 (sample_detail StatusGenerating) w1
     \<and> fst (rmem_GetByID 4 5 w2) = Inr (sample_detail StatusReady)
     \<and> (\<forall>now. fst (dc_Get (local_cache (30 * second)) now 5 w2)
          = (if now \<le> 11 + 30 * second then Some (sample_detail StatusGenerating) else None))"
  by (simp add: rmem_GetByID_def was_generating_def sample_detail_def rmem_Seed_def rc_Invalidate_def local_cache_def
      rc_Set_def rc_Enabled_def rc_Get_def m_set_simps Let_def)

end
