(* ===== verification/Collab.thy ===== *)
theory Collab
  imports Projects
begin

text \<open>
  \<open>internal/collab\<close>: comments on reports (\<open>domain/comment.go\<close>), the ports (\<open>port/port.go\<close>) and the service
  (\<open>service/service.go\<close>). The locales state what the service needs of its comment store and of the hub that
  carries events to the open streams, and what a call of \<open>CreateComment\<close> does through them.
\<close>

section \<open>Domain\<close>

definition MaxBodyLen :: nat where "MaxBodyLen = 4000"

record comment =
  cm_ID :: uuid
  cm_ReportID :: uuid
  cm_ProjectID :: uuid
  cm_AuthorID :: uuid
  cm_Body :: string
  cm_CreatedAt :: go_time

definition NormalizeBody :: "string \<Rightarrow> err + string" where
  "NormalizeBody body =
     (let b = trim_space body
      in if b = [] then Inl (ErrInvalidInput Collab)
         else if rune_count b > MaxBodyLen then Inl (ErrInvalidInput Collab)
         else Inr b)"

definition EventCommentCreated :: string where "EventCommentCreated = ''comment.created''"
definition EventPresenceUpdated :: string where "EventPresenceUpdated = ''presence.updated''"
definition EventHeartbeat :: string where "EventHeartbeat = ''heartbeat''"
definition TopicCommentCreated :: string where "TopicCommentCreated = ''bugsathi.comment.created''"

record comment_created_event =
  ce_SchemaVersion :: int
  ce_CommentID :: string
  ce_ReportID :: string
  ce_ProjectID :: string
  ce_AuthorID :: string
  ce_OccurredAt :: go_time

text \<open>A body that was normalized is normalized: storing it again would not change it.\<close>

lemma NormalizeBody_Inr:
  "NormalizeBody body = Inr b \<longleftrightarrow> b = trim_space body \<and> b \<noteq> [] \<and> rune_count b \<le> MaxBodyLen"
  by (auto simp: NormalizeBody_def Let_def)

lemma NormalizeBody_idem: "NormalizeBody body = Inr b \<Longrightarrow> NormalizeBody b = Inr b"
  by (auto simp: NormalizeBody_Inr)

section \<open>Ports\<close>

record comment_dto =
  cd_ID :: uuid
  cd_ReportID :: uuid
  cd_ProjectID :: uuid
  cd_AuthorID :: uuid
  cd_AuthorName :: string
  cd_Body :: string
  cd_CreatedAt :: go_time

record 's comment_repository =
  cr_Create :: "comment \<Rightarrow> string \<Rightarrow> string \<Rightarrow> bytes \<Rightarrow> string \<Rightarrow> ('s, comment) op"
  cr_ListByReport :: "uuid \<Rightarrow> uuid \<Rightarrow> page \<Rightarrow> ('s, comment page_result) op"

record presence_user =
  pu_UserID :: uuid
  pu_Name :: string

text \<open>
  The payload of an event is a value of any type: the program sends a comment or the users present, and an event
  that came through Redis carries decoded JSON.
\<close>

datatype event_data = CommentData comment_dto | UsersData "presence_user list" | JsonData bytes

record stream_event =
  sev_Type :: string
  sev_Data :: event_data

text \<open>A channel is known by the number of its allocation. \<open>Subscribe\<close> returns it with a closure, here \<open>eh_Unsubscribe\<close>.\<close>

type_synonym chan = nat

record 's event_hub =
  eh_Subscribe :: "uuid \<Rightarrow> uuid \<Rightarrow> string \<Rightarrow> ('s, chan) op"
  eh_Unsubscribe :: "uuid \<Rightarrow> chan \<Rightarrow> ('s, unit) op"
  eh_Publish :: "uuid \<Rightarrow> stream_event \<Rightarrow> ('s, unit) op"
  eh_Presence :: "uuid \<Rightarrow> ('s, presence_user list) op"

section \<open>Service\<close>

record 's collab_service =
  co_repo :: "'s comment_repository"
  co_EnsureMember :: "uuid \<Rightarrow> uuid \<Rightarrow> ('s, unit) op"
  co_EnsureInProject :: "uuid \<Rightarrow> uuid \<Rightarrow> ('s, unit) op"
  co_DisplayName :: "uuid \<Rightarrow> ('s, string) op"
  co_hub :: "'s event_hub"
  co_listCfg :: list_config

definition comment_toDTO :: "comment \<Rightarrow> string \<Rightarrow> comment_dto" where
  "comment_toDTO c name =
     \<lparr>cd_ID = cm_ID c, cd_ReportID = cm_ReportID c, cd_ProjectID = cm_ProjectID c, cd_AuthorID = cm_AuthorID c,
      cd_AuthorName = name, cd_Body = cm_Body c, cd_CreatedAt = cm_CreatedAt c\<rparr>"

text \<open>Both checks in front of every operation.\<close>

definition cos_guard :: "'s collab_service \<Rightarrow> uuid \<Rightarrow> uuid \<Rightarrow> uuid \<Rightarrow> ('s, unit) op" where
  "cos_guard S userID projectID reportID =
     andthen (map_err (\<lambda>_. ErrForbidden Collab) (co_EnsureMember S userID projectID)) (\<lambda>_.
     co_EnsureInProject S projectID reportID)"

text \<open>\<open>enc\<close> is \<open>json.Marshal\<close>, whose error the code drops.\<close>

definition cos_CreateComment ::
    "'z golib_scheme \<Rightarrow> (comment_created_event \<Rightarrow> bytes) \<Rightarrow> 's collab_service \<Rightarrow> go_time \<Rightarrow> uuid \<Rightarrow> uuid \<Rightarrow> uuid \<Rightarrow> uuid
       \<Rightarrow> string \<Rightarrow> ('s, comment_dto) op" where
  "cos_CreateComment L enc S now fresh userID projectID reportID body =
     andthen (cos_guard S userID projectID reportID) (\<lambda>_.
     andthen (lift_sum (NormalizeBody body)) (\<lambda>norm.
     andthen (co_DisplayName S userID) (\<lambda>name.
       (let c = \<lparr>cm_ID = fresh, cm_ReportID = reportID, cm_ProjectID = projectID, cm_AuthorID = userID, cm_Body = norm, cm_CreatedAt = now\<rparr>;
            payload = enc \<lparr>ce_SchemaVersion = 1, ce_CommentID = uuid_string L fresh, ce_ReportID = uuid_string L reportID,
              ce_ProjectID = uuid_string L projectID, ce_AuthorID = uuid_string L userID, ce_OccurredAt = now\<rparr>
        in andthen (cr_Create (co_repo S) c TopicCommentCreated (uuid_string L reportID) payload []) (\<lambda>created.
           andthen (eh_Publish (co_hub S) reportID
              \<lparr>sev_Type = EventCommentCreated, sev_Data = CommentData (comment_toDTO created name)\<rparr>) (\<lambda>_.
           ret (comment_toDTO created name)))))))"

text \<open>The name of an author that cannot be looked up is empty.\<close>

fun cos_named :: "'s collab_service \<Rightarrow> comment list \<Rightarrow> ('s, comment_dto list) op" where
  "cos_named S [] = ret []"
| "cos_named S (c # cs) =
     andthen (attempt (co_DisplayName S (cm_AuthorID c))) (\<lambda>name.
     andthen (cos_named S cs) (\<lambda>ds.
     ret (comment_toDTO c (case name of Inl e \<Rightarrow> [] | Inr n \<Rightarrow> n) # ds)))"

definition cos_ListComments :: "'s collab_service \<Rightarrow> uuid \<Rightarrow> uuid \<Rightarrow> uuid \<Rightarrow> page \<Rightarrow> ('s, comment_dto page_result) op" where
  "cos_ListComments S userID projectID reportID p =
     andthen (cos_guard S userID projectID reportID) (\<lambda>_.
     andthen (cr_ListByReport (co_repo S) projectID reportID p) (\<lambda>rows.
     andthen (cos_named S (res_Items rows)) (\<lambda>out.
     ret \<lparr>res_Items = out, res_NextCursor = res_NextCursor rows\<rparr>)))"

definition cos_ListLimits :: "'s collab_service \<Rightarrow> limits" where
  "cos_ListLimits S = \<lparr>lim_Default = lc_DefaultLimit (co_listCfg S), lim_Max = lc_MaxLimit (co_listCfg S)\<rparr>"

definition cos_Subscribe :: "'s collab_service \<Rightarrow> uuid \<Rightarrow> uuid \<Rightarrow> uuid \<Rightarrow> ('s, chan) op" where
  "cos_Subscribe S userID projectID reportID =
     andthen (cos_guard S userID projectID reportID) (\<lambda>_.
     andthen (co_DisplayName S userID) (\<lambda>name.
     eh_Subscribe (co_hub S) reportID userID name))"

section \<open>What the service needs of its store and hub\<close>

text \<open>
  \<open>comments\<close> are the stored comments, \<open>stamp\<close> is the instant the store keeps for one it is given, \<open>streams\<close> the report and the waiting events of every open stream. A stream that
  has no room loses the event.
\<close>

type_synonym streams = "chan \<Rightarrow> (uuid \<times> stream_event list) option"

definition offered :: "nat \<Rightarrow> uuid \<Rightarrow> stream_event \<Rightarrow> streams \<Rightarrow> streams" where
  "offered room r ev feed c =
     (case feed c of None \<Rightarrow> None
      | Some (r', evs) \<Rightarrow> Some (r', if r' = r \<and> length evs < room then evs @ [ev] else evs))"

locale comment_store =
  fixes R :: "'s comment_repository" and ok :: "'s \<Rightarrow> bool" and comments :: "'s \<Rightarrow> comment list" and feed :: "'s \<Rightarrow> streams"
    and stamp :: "go_time \<Rightarrow> go_time"
  assumes create_Inr: "ok s \<Longrightarrow> cr_Create R c topic key payload corr s = (Inr c', s') \<Longrightarrow>
      c' = c\<lparr>cm_CreatedAt := stamp (cm_CreatedAt c)\<rparr> \<and> ok s' \<and> comments s' = comments s @ [c'] \<and> feed s' = feed s"
    and create_Inl: "ok s \<Longrightarrow> cr_Create R c topic key payload corr s = (Inl e, s') \<Longrightarrow>
      ok s' \<and> comments s' = comments s \<and> feed s' = feed s"

locale event_fanout =
  fixes H :: "'s event_hub" and ok :: "'s \<Rightarrow> bool" and comments :: "'s \<Rightarrow> comment list" and feed :: "'s \<Rightarrow> streams" and room :: nat
  assumes publish: "ok s \<Longrightarrow> \<exists>s'. eh_Publish H r ev s = (Inr (), s') \<and> ok s' \<and> comments s' = comments s
      \<and> feed s' = offered room r ev (feed s)"

locale collab_client = comment_store R ok comments feed stamp + event_fanout H ok comments feed room
  for R :: "'s comment_repository" and ok :: "'s \<Rightarrow> bool" and comments :: "'s \<Rightarrow> comment list" and feed :: "'s \<Rightarrow> streams"
    and stamp :: "go_time \<Rightarrow> go_time" and H :: "'s event_hub" and room :: nat +
  fixes S :: "'s collab_service"
  assumes parts: "co_repo S = R" "co_hub S = H"
    and lookups: "keeps (\<lambda>s. (ok s, comments s, feed s)) (co_EnsureMember S u p)"
      "keeps (\<lambda>s. (ok s, comments s, feed s)) (co_EnsureInProject S p r)"
      "keeps (\<lambda>s. (ok s, comments s, feed s)) (co_DisplayName S u)"
begin

lemma guard_keeps: "keeps (\<lambda>s. (ok s, comments s, feed s)) (cos_guard S u p r)"
  unfolding cos_guard_def by (intro keeps_andthen keeps_map_err lookups)

text \<open>A comment is stored first and told then; a refused one is neither.\<close>

lemma CreateComment_effect:
  assumes s: "ok s" and run: "cos_CreateComment L enc S now i u p r body s = (x, s')"
  shows "ok s' \<and> (case x of
      Inl e \<Rightarrow> comments s' = comments s \<and> feed s' = feed s
    | Inr d \<Rightarrow> \<exists>b. NormalizeBody body = Inr b \<and> cd_Body d = b \<and> cd_AuthorID d = u \<and> cd_ReportID d = r
        \<and> comments s' = comments s @ [\<lparr>cm_ID = i, cm_ReportID = r, cm_ProjectID = p, cm_AuthorID = u, cm_Body = b, cm_CreatedAt = stamp now\<rparr>]
        \<and> feed s' = offered room r \<lparr>sev_Type = EventCommentCreated, sev_Data = CommentData d\<rparr> (feed s))"
  using run unfolding cos_CreateComment_def
proof (cases rule: andthen_cases)
  case (err e)
  then show ?thesis using keepsD [OF guard_keeps err(1)] s by simp
next
  case (ok a s1)
  note s1 = keepsD [OF guard_keeps ok(1)]
  show ?thesis
  proof (cases "NormalizeBody body")
    case (Inl e)
    then show ?thesis using ok(2) s s1 by (auto simp: andthen_def)
  next
    case (Inr b)
    then have "andthen (co_DisplayName S u) (\<lambda>name.
       (let c = \<lparr>cm_ID = i, cm_ReportID = r, cm_ProjectID = p, cm_AuthorID = u, cm_Body = b, cm_CreatedAt = now\<rparr>;
            payload = enc \<lparr>ce_SchemaVersion = 1, ce_CommentID = uuid_string L i, ce_ReportID = uuid_string L r,
              ce_ProjectID = uuid_string L p, ce_AuthorID = uuid_string L u, ce_OccurredAt = now\<rparr>
        in andthen (cr_Create R c TopicCommentCreated (uuid_string L r) payload []) (\<lambda>created.
           andthen (eh_Publish H r \<lparr>sev_Type = EventCommentCreated, sev_Data = CommentData (comment_toDTO created name)\<rparr>) (\<lambda>_.
           ret (comment_toDTO created name))))) s1 = (x, s')"
      using ok(2) by (simp add: andthen_def parts)
    then show ?thesis
    proof (cases rule: andthen_cases)
      case (err e)
      then show ?thesis using keepsD [OF lookups(3) err(1)] s s1 by simp
    next
      case (ok name s2)
      note s2 = keepsD [OF lookups(3) ok(1)]
      have s2_ok: "ok s2" using s s1 s2 by simp
      from ok(2) [unfolded Let_def] show ?thesis
      proof (cases rule: andthen_cases)
        case (err e)
        then show ?thesis using create_Inl [OF s2_ok err(1)] s1 s2 by simp
      next
        case (ok c s3)
        note s3 = create_Inr [OF s2_ok ok(1)]
        obtain s4 where s4: "eh_Publish H r \<lparr>sev_Type = EventCommentCreated, sev_Data = CommentData (comment_toDTO c name)\<rparr> s3 = (Inr (), s4)"
          "ok s4" "comments s4 = comments s3"
          "feed s4 = offered room r \<lparr>sev_Type = EventCommentCreated, sev_Data = CommentData (comment_toDTO c name)\<rparr> (feed s3)"
          using publish s3 by blast
        have "x = Inr (comment_toDTO c name)" "s' = s4" using ok(2) s4(1) by (simp_all add: andthen_def)
        then show ?thesis using s1 s2 s3 s4 Inr by (simp add: comment_toDTO_def)
      qed
    qed
  qed
qed

end

end
