(* ===== verification/Collab_Hub.thy ===== *)
theory Collab_Hub
  imports Collab
begin

text \<open>
  \<open>internal/collab/adapter/hub\<close>: the hub that fans events out to the open streams of a report, process-local
  (\<open>hub.go\<close>) and over Redis (\<open>redis.go\<close>). Channels are buffers with a capacity that may be closed; sending on a
  closed channel and closing one twice panic. Each critical section of the hub is one step, so \<open>hub_reach\<close> holds the
  states any interleaving of subscribers, publishers and readers can produce.
\<close>

section \<open>Channels\<close>

record go_chan =
  ch_buf :: "stream_event list"
  ch_closed :: bool

definition hub_cap :: nat where "hub_cap = 16"

text \<open>\<open>select \<open>{\<close> case ch <- ev: default: \<open>}\<close>\<close>.\<close>

definition chan_offer :: "stream_event \<Rightarrow> go_chan \<Rightarrow> err + go_chan" where
  "chan_offer ev c =
     (if ch_closed c then Inl (ErrPanic ''send on closed channel'')
      else if length (ch_buf c) < hub_cap then Inr (c\<lparr>ch_buf := ch_buf c @ [ev]\<rparr>)
      else Inr c)"

definition chan_close :: "go_chan \<Rightarrow> err + go_chan" where
  "chan_close c = (if ch_closed c then Inl (ErrPanic ''close of closed channel'') else Inr (c\<lparr>ch_closed := True\<rparr>))"

section \<open>The process-local hub\<close>

record subscriber =
  sub_ch :: chan
  sub_userID :: uuid
  sub_name :: string

text \<open>\<open>hb_chans\<close> is the heap of channels, \<open>hb_next\<close> the next allocation.\<close>

record hub_state =
  hb_rooms :: "(uuid, (chan, subscriber) gomap) gomap"
  hb_chans :: "(chan, go_chan) gomap"
  hb_next :: chan

definition mhub_New :: hub_state where
  "mhub_New = \<lparr>hb_rooms = [], hb_chans = [], hb_next = 0\<rparr>"

definition hb_room :: "hub_state \<Rightarrow> uuid \<Rightarrow> (chan, subscriber) gomap" where
  "hb_room h r = (case m_get (hb_rooms h) r of None \<Rightarrow> [] | Some room \<Rightarrow> room)"

text \<open>The critical section of \<open>Subscribe\<close>.\<close>

definition mhub_register :: "uuid \<Rightarrow> uuid \<Rightarrow> string \<Rightarrow> (hub_state, chan) op" where
  "mhub_register reportID userID name h =
     (let ch = hb_next h;
          room = hb_room h reportID
      in (Inr ch, h\<lparr>hb_rooms := m_set reportID (m_set ch \<lparr>sub_ch = ch, sub_userID = userID, sub_name = name\<rparr> room) (hb_rooms h),
                    hb_chans := m_set ch \<lparr>ch_buf = [], ch_closed = False\<rparr> (hb_chans h),
                    hb_next := Suc ch\<rparr>))"

text \<open>The critical section of the closure \<open>Subscribe\<close> returns.\<close>

definition mhub_remove :: "uuid \<Rightarrow> chan \<Rightarrow> (hub_state, unit) op" where
  "mhub_remove reportID ch h =
     (case m_get (hb_rooms h) reportID of
        None \<Rightarrow> (Inr (), h)
      | Some room \<Rightarrow>
          if m_get room ch = None then (Inr (), h)
          else (let room' = m_del ch room
                in case chan_close (the (m_get (hb_chans h) ch)) of
                     Inl e \<Rightarrow> (Inl e, h\<lparr>hb_rooms := m_set reportID room' (hb_rooms h)\<rparr>)
                   | Inr c \<Rightarrow>
                       (Inr (), h\<lparr>hb_chans := m_set ch c (hb_chans h),
                                  hb_rooms := (if room' = [] then m_del reportID (hb_rooms h)
                                               else m_set reportID room' (hb_rooms h))\<rparr>)))"

definition mhub_offer :: "stream_event \<Rightarrow> chan \<Rightarrow> (hub_state, unit) op" where
  "mhub_offer ev ch h =
     (case chan_offer ev (the (m_get (hb_chans h) ch)) of
        Inl e \<Rightarrow> (Inl e, h)
      | Inr c \<Rightarrow> (Inr (), h\<lparr>hb_chans := m_set ch c (hb_chans h)\<rparr>))"

definition mhub_Publish :: "uuid \<Rightarrow> stream_event \<Rightarrow> (hub_state, unit) op" where
  "mhub_Publish reportID ev h = foreach (\<lambda>_. mhub_offer ev) () (map fst (hb_room h reportID)) h"

fun presence_loop :: "uuid list \<Rightarrow> subscriber list \<Rightarrow> presence_user list" where
  "presence_loop seen [] = []"
| "presence_loop seen (s # ss) =
     (if sub_userID s \<in> set seen then presence_loop seen ss
      else \<lparr>pu_UserID = sub_userID s, pu_Name = sub_name s\<rparr> # presence_loop (sub_userID s # seen) ss)"

definition presenceLocked :: "(chan, subscriber) gomap \<Rightarrow> presence_user list" where
  "presenceLocked room = presence_loop [] (m_vals room)"

definition mhub_Presence :: "uuid \<Rightarrow> (hub_state, presence_user list) op" where
  "mhub_Presence reportID h = (Inr (presenceLocked (hb_room h reportID)), h)"

definition presence_event :: "presence_user list \<Rightarrow> stream_event" where
  "presence_event users = \<lparr>sev_Type = EventPresenceUpdated, sev_Data = UsersData users\<rparr>"

definition mhub_broadcastPresence :: "uuid \<Rightarrow> (hub_state, unit) op" where
  "mhub_broadcastPresence reportID =
     andthen (mhub_Presence reportID) (\<lambda>users. mhub_Publish reportID (presence_event users))"

definition mhub_Subscribe :: "uuid \<Rightarrow> uuid \<Rightarrow> string \<Rightarrow> (hub_state, chan) op" where
  "mhub_Subscribe reportID userID name =
     andthen (mhub_register reportID userID name) (\<lambda>ch.
     andthen (mhub_broadcastPresence reportID) (\<lambda>_.
     ret ch))"

definition mhub_Unsubscribe :: "uuid \<Rightarrow> chan \<Rightarrow> (hub_state, unit) op" where
  "mhub_Unsubscribe reportID ch =
     andthen (mhub_remove reportID ch) (\<lambda>_. mhub_broadcastPresence reportID)"

text \<open>A receive: \<open>None\<close> when nothing waits, \<open>Some None\<close> on a closed and drained channel.\<close>

definition chan_recv :: "chan \<Rightarrow> hub_state \<Rightarrow> stream_event option option \<times> hub_state" where
  "chan_recv ch h =
     (case m_get (hb_chans h) ch of
        None \<Rightarrow> (None, h)
      | Some c \<Rightarrow>
          (case ch_buf c of
             ev # evs \<Rightarrow> (Some (Some ev), h\<lparr>hb_chans := m_set ch (c\<lparr>ch_buf := evs\<rparr>) (hb_chans h)\<rparr>)
           | [] \<Rightarrow> (if ch_closed c then Some None else None, h)))"

section \<open>Presence lists each user once\<close>

lemma presence_loop_ids:
  "set (map pu_UserID (presence_loop seen ss)) = sub_userID ` set ss - set seen \<and> distinct (map pu_UserID (presence_loop seen ss))"
  by (induction ss arbitrary: seen) auto

lemma presence_ids:
  "set (map pu_UserID (presenceLocked room)) = sub_userID ` set (m_vals room) \<and> distinct (map pu_UserID (presenceLocked room))"
  using presence_loop_ids [of "[]"] by (simp add: presenceLocked_def)

section \<open>Invariant\<close>

text \<open>
  A channel is open exactly while it is in a room, it is in one room only, no room is empty, and no channel holds
  more events than its capacity.
\<close>

definition hub_ok :: "hub_state \<Rightarrow> bool" where
  "hub_ok h \<longleftrightarrow>
     (\<forall>r room. m_get (hb_rooms h) r = Some room \<longrightarrow> room \<noteq> [] \<and> m_wf room)
     \<and> (\<forall>c. (\<exists>r. m_get (hb_room h r) c \<noteq> None) \<longleftrightarrow> (\<exists>ch. m_get (hb_chans h) c = Some ch \<and> \<not> ch_closed ch))
     \<and> (\<forall>r r' c. m_get (hb_room h r) c \<noteq> None \<longrightarrow> m_get (hb_room h r') c \<noteq> None \<longrightarrow> r = r')
     \<and> (\<forall>c ch. m_get (hb_chans h) c = Some ch \<longrightarrow> c < hb_next h \<and> length (ch_buf ch) \<le> hub_cap)"

lemma hub_okD:
  assumes "hub_ok h"
  shows "m_wf (hb_room h r)"
    and "m_get (hb_room h r) c \<noteq> None \<Longrightarrow> \<exists>ch. m_get (hb_chans h) c = Some ch \<and> \<not> ch_closed ch"
    and "m_get (hb_room h r) c \<noteq> None \<Longrightarrow> m_get (hb_room h r') c \<noteq> None \<Longrightarrow> r = r'"
    and "m_get (hb_chans h) c = Some ch \<Longrightarrow> c < hb_next h \<and> length (ch_buf ch) \<le> hub_cap"
    and "m_get (hb_chans h) c = Some ch \<Longrightarrow> \<not> ch_closed ch \<Longrightarrow> \<exists>r. m_get (hb_room h r) c \<noteq> None"
proof -
  show "m_wf (hb_room h r)" using assms by (auto simp: hub_ok_def hb_room_def split: option.splits)
qed (use assms in \<open>auto simp: hub_ok_def\<close>)

lemma mhub_New_ok: "hub_ok mhub_New"
  by (simp add: hub_ok_def mhub_New_def hb_room_def)

lemma hb_room_set [simp]: "hb_room (h\<lparr>hb_rooms := m_set r room (hb_rooms h)\<rparr>) r' = (if r' = r then room else hb_room h r')"
  by (simp add: hb_room_def)

lemma hb_room_del [simp]: "hb_room (h\<lparr>hb_rooms := m_del r (hb_rooms h)\<rparr>) r' = (if r' = r then [] else hb_room h r')"
  by (simp add: hb_room_def)

lemma hb_room_other [simp]: "hb_room (hb_chans_update f h) r = hb_room h r" "hb_room (hb_next_update g h) r = hb_room h r"
  by (simp_all add: hb_room_def)

lemma mhub_register_ok:
  assumes h: "hub_ok h" and run: "mhub_register r u n h = (x, h')"
  shows "hub_ok h' \<and> x = Inr (hb_next h)
     \<and> (\<forall>q. hb_room h' q = (if q = r then m_set (hb_next h) \<lparr>sub_ch = hb_next h, sub_userID = u, sub_name = n\<rparr> (hb_room h r) else hb_room h q))
     \<and> hb_chans h' = m_set (hb_next h) \<lparr>ch_buf = [], ch_closed = False\<rparr> (hb_chans h) \<and> m_get (hb_chans h) (hb_next h) = None"
proof -
  let ?c = "hb_next h"
  have new: "m_get (hb_chans h) ?c = None" using hub_okD(4) [OF h] by (cases "m_get (hb_chans h) ?c") auto
  have out: "m_get (hb_room h q) ?c = None" for q
    using hub_okD(2) [OF h, of q ?c] new by (cases "m_get (hb_room h q) ?c") auto
  define room where "room = m_set ?c \<lparr>sub_ch = ?c, sub_userID = u, sub_name = n\<rparr> (hb_room h r)"
  define h2 where "h2 = h\<lparr>hb_rooms := m_set r room (hb_rooms h), hb_chans := m_set ?c \<lparr>ch_buf = [], ch_closed = False\<rparr> (hb_chans h), hb_next := Suc ?c\<rparr>"
  have h': "h' = h2" "x = Inr ?c" using run by (simp_all add: mhub_register_def h2_def room_def Let_def)
  have rooms: "hb_room h2 q = (if q = r then room else hb_room h q)" for q by (simp add: h2_def hb_room_def)
  have inside: "m_get (hb_room h2 q) d = (if q = r \<and> d = ?c then Some \<lparr>sub_ch = ?c, sub_userID = u, sub_name = n\<rparr> else m_get (hb_room h q) d)" for q d
    by (simp add: rooms room_def)
  have wf: "room \<noteq> [] \<and> m_wf room" using hub_okD(1) [OF h, of r] map_of_SomeD [of room ?c] by (force simp: room_def)
  have "hub_ok h2"
    unfolding hub_ok_def
  proof (intro conjI allI)
    fix q room' show "m_get (hb_rooms h2) q = Some room' \<longrightarrow> room' \<noteq> [] \<and> m_wf room'"
      using h wf by (auto simp: h2_def hub_ok_def)
  next
    fix d show "(\<exists>q. m_get (hb_room h2 q) d \<noteq> None) = (\<exists>x. m_get (hb_chans h2) d = Some x \<and> \<not> ch_closed x)"
    proof (cases "d = ?c")
      case True
      then show ?thesis using inside [of r ?c] by (auto simp: h2_def)
    next
      case False
      then show ?thesis using h by (simp add: inside hub_ok_def) (simp add: h2_def)
    qed
  next
    fix q q' d show "m_get (hb_room h2 q) d \<noteq> None \<longrightarrow> m_get (hb_room h2 q') d \<noteq> None \<longrightarrow> q = q'"
      using hub_okD(3) [OF h, of q d q'] out by (auto simp: inside)
  next
    fix d x show "m_get (hb_chans h2) d = Some x \<longrightarrow> d < hb_next h2 \<and> length (ch_buf x) \<le> hub_cap"
      using hub_okD(4) [OF h, of d] by (auto simp: h2_def)
  qed
  then show ?thesis using h' new rooms by (simp add: h2_def room_def)
qed

lemma mhub_remove_ok:
  assumes h: "hub_ok h" and run: "mhub_remove r c h = (x, h')"
  shows "hub_ok h' \<and> x = Inr () \<and> (m_get (hb_room h r) c = None \<longrightarrow> h' = h)
     \<and> (m_get (hb_room h r) c \<noteq> None \<longrightarrow> hb_room h' r = m_del c (hb_room h r)
          \<and> (\<forall>ch. m_get (hb_chans h) c = Some ch \<longrightarrow> hb_chans h' = m_set c (ch\<lparr>ch_closed := True\<rparr>) (hb_chans h)))
     \<and> (\<forall>r'. r' \<noteq> r \<longrightarrow> hb_room h' r' = hb_room h r')"
proof (cases "m_get (hb_room h r) c")
  case None
  then show ?thesis using run h by (auto simp: mhub_remove_def hb_room_def split: option.splits)
next
  case (Some sub)
  then obtain room where room: "m_get (hb_rooms h) r = Some room" "hb_room h r = room"
    by (auto simp: hb_room_def split: option.splits)
  obtain ch where ch: "m_get (hb_chans h) c = Some ch" "\<not> ch_closed ch" using hub_okD(2) [OF h, of r c] Some by auto
  define rooms' where "rooms' = (if m_del c room = [] then m_del r (hb_rooms h) else m_set r (m_del c room) (hb_rooms h))"
  define h2 where "h2 = h\<lparr>hb_chans := m_set c (ch\<lparr>ch_closed := True\<rparr>) (hb_chans h), hb_rooms := rooms'\<rparr>"
  have h': "h' = h2" "x = Inr ()"
    using run Some room ch by (simp_all add: mhub_remove_def chan_close_def Let_def h2_def rooms'_def)
  have rooms: "hb_room h2 r' = (if r' = r then m_del c room else hb_room h r')" for r'
    by (simp add: h2_def rooms'_def hb_room_def)
  have fewer: "m_get (hb_room h2 q) d \<noteq> None \<Longrightarrow> m_get (hb_room h q) d \<noteq> None" for q d
    using room(2) by (cases "d = c"; cases "q = r") (simp_all add: rooms)
  have others: "m_get (hb_room h r') c = None" if "r' \<noteq> r" for r'
    using hub_okD(3) [OF h, of r c r'] Some that by (cases "m_get (hb_room h r') c") auto
  have wf: "m_wf (m_del c room)" using hub_okD(1) [OF h, of r] room by (simp add: m_wf_del)
  have "hub_ok h2"
    unfolding hub_ok_def
  proof (intro conjI allI)
    fix q room' show "m_get (hb_rooms h2) q = Some room' \<longrightarrow> room' \<noteq> [] \<and> m_wf room'"
      using h wf by (auto simp: h2_def rooms'_def hub_ok_def)
  next
    fix d show "(\<exists>q. m_get (hb_room h2 q) d \<noteq> None) = (\<exists>x. m_get (hb_chans h2) d = Some x \<and> \<not> ch_closed x)"
    proof (cases "d = c")
      case True
      have "m_get (hb_room h2 q) c = None" for q using others by (simp add: rooms)
      moreover have "\<not> (\<exists>x. m_get (hb_chans h2) c = Some x \<and> \<not> ch_closed x)" by (simp add: h2_def)
      ultimately show ?thesis using True by simp
    next
      case False
      then have "(\<exists>q. m_get (hb_room h2 q) d \<noteq> None) = (\<exists>q. m_get (hb_room h q) d \<noteq> None)"
        using room by (auto simp: rooms)
      then show ?thesis using False h by (simp add: h2_def hub_ok_def)
    qed
  next
    fix q q' d show "m_get (hb_room h2 q) d \<noteq> None \<longrightarrow> m_get (hb_room h2 q') d \<noteq> None \<longrightarrow> q = q'"
      using hub_okD(3) [OF h, of q d q'] fewer by blast
  next
    fix d x show "m_get (hb_chans h2) d = Some x \<longrightarrow> d < hb_next h2 \<and> length (ch_buf x) \<le> hub_cap"
      using hub_okD(4) [OF h, of d] hub_okD(4) [OF h ch(1)] by (auto simp: h2_def)
  qed
  then show ?thesis using h' Some room ch rooms by (simp add: h2_def)
qed

text \<open>Publishing reaches the streams of one report and only adds to their buffers.\<close>

definition offer_to :: "stream_event \<Rightarrow> go_chan \<Rightarrow> go_chan" where
  "offer_to ev c = (if length (ch_buf c) < hub_cap then c\<lparr>ch_buf := ch_buf c @ [ev]\<rparr> else c)"

lemma offer_to_closed [simp]: "ch_closed (offer_to ev c) = ch_closed c"
  by (simp add: offer_to_def)

lemma offers_all:
  assumes "distinct cs" "\<forall>c\<in>set cs. \<exists>ch. m_get (hb_chans h) c = Some ch \<and> \<not> ch_closed ch"
  shows "\<exists>h'. foreach (\<lambda>_. mhub_offer ev) () cs h = (Inr (), h') \<and> hb_rooms h' = hb_rooms h \<and> hb_next h' = hb_next h
     \<and> (\<forall>c. m_get (hb_chans h') c = (if c \<in> set cs then map_option (offer_to ev) (m_get (hb_chans h) c) else m_get (hb_chans h) c))"
  using assms
proof (induction cs arbitrary: h)
  case Nil
  then show ?case by simp
next
  case (Cons c cs)
  obtain ch where ch: "m_get (hb_chans h) c = Some ch" "\<not> ch_closed ch" using Cons.prems(2) by auto
  define h1 where "h1 = h\<lparr>hb_chans := m_set c (offer_to ev ch) (hb_chans h)\<rparr>"
  have step: "mhub_offer ev c h = (Inr (), h1)" using ch by (simp add: mhub_offer_def chan_offer_def offer_to_def h1_def)
  have "\<forall>d\<in>set cs. \<exists>ch. m_get (hb_chans h1) d = Some ch \<and> \<not> ch_closed ch"
    using Cons.prems by (auto simp: h1_def)
  with Cons.IH [of h1] Cons.prems(1) obtain h' where
    "foreach (\<lambda>_. mhub_offer ev) () cs h1 = (Inr (), h')" "hb_rooms h' = hb_rooms h1" "hb_next h' = hb_next h1"
    "\<forall>d. m_get (hb_chans h') d = (if d \<in> set cs then map_option (offer_to ev) (m_get (hb_chans h1) d) else m_get (hb_chans h1) d)"
    by auto
  then show ?case using step ch Cons.prems(1) by (auto simp: andthen_def h1_def)
qed

lemma m_wf_keys: "m_wf m \<Longrightarrow> distinct (map fst m) \<and> (k \<in> set (map fst m) \<longleftrightarrow> m_get m k \<noteq> None)"
  by (auto simp: m_wf_def map_of_eq_None_iff)

lemma mhub_Publish_effect:
  assumes h: "hub_ok h"
  shows "\<exists>h'. mhub_Publish r ev h = (Inr (), h') \<and> hub_ok h' \<and> hb_rooms h' = hb_rooms h
     \<and> (\<forall>c. m_get (hb_chans h') c =
          (if m_get (hb_room h r) c \<noteq> None then map_option (offer_to ev) (m_get (hb_chans h) c) else m_get (hb_chans h) c))"
proof -
  note keys = m_wf_keys [OF hub_okD(1) [OF h, of r]]
  have "\<forall>c\<in>set (map fst (hb_room h r)). \<exists>ch. m_get (hb_chans h) c = Some ch \<and> \<not> ch_closed ch"
    using hub_okD(2) [OF h, of r] keys by auto
  from offers_all [OF conjunct1 [OF keys] this] obtain h' where h':
    "foreach (\<lambda>_. mhub_offer ev) () (map fst (hb_room h r)) h = (Inr (), h')" "hb_rooms h' = hb_rooms h" "hb_next h' = hb_next h"
    "\<forall>c. m_get (hb_chans h') c =
       (if c \<in> set (map fst (hb_room h r)) then map_option (offer_to ev) (m_get (hb_chans h) c) else m_get (hb_chans h) c)"
    by blast
  have chans: "m_get (hb_chans h') c =
       (if m_get (hb_room h r) c \<noteq> None then map_option (offer_to ev) (m_get (hb_chans h) c) else m_get (hb_chans h) c)" for c
    using h'(4) keys by simp
  have rooms: "hb_room h' q = hb_room h q" for q using h'(2) by (simp add: hb_room_def)
  have "(\<exists>x. m_get (hb_chans h') c = Some x \<and> \<not> ch_closed x) = (\<exists>x. m_get (hb_chans h) c = Some x \<and> \<not> ch_closed x)" for c
    by (cases "m_get (hb_chans h) c") (simp_all add: chans)
  moreover have "c < hb_next h' \<and> length (ch_buf x) \<le> hub_cap" if "m_get (hb_chans h') c = Some x" for c x
    using that hub_okD(4) [OF h, of c] h'(3) by (auto simp: chans offer_to_def split: if_splits)
  ultimately have "hub_ok h'" using h h'(2) by (simp add: hub_ok_def rooms)
  then show ?thesis using h' chans by (auto simp: mhub_Publish_def)
qed

section \<open>Every interleaving\<close>

text \<open>
  The critical sections of all goroutines, in any order. \<open>pend\<close> are the presence lists taken and not yet sent:
  \<open>broadcastPresence\<close> reads the users in one critical section and publishes them in another.
\<close>

type_synonym hub_world = "hub_state \<times> (uuid \<times> presence_user list) list"

inductive hub_reach :: "hub_world \<Rightarrow> hub_world \<Rightarrow> bool" for w0 where
  hub_start: "hub_reach w0 w0"
| hub_register: "hub_reach w0 (h, pend) \<Longrightarrow> mhub_register r u n h = (x, h') \<Longrightarrow> hub_reach w0 (h', pend)"
| hub_remove: "hub_reach w0 (h, pend) \<Longrightarrow> mhub_remove r c h = (y, h') \<Longrightarrow> hub_reach w0 (h', pend)"
| hub_snapshot: "hub_reach w0 (h, pend) \<Longrightarrow> hub_reach w0 (h, (r, presenceLocked (hb_room h r)) # pend)"
| hub_announce: "hub_reach w0 (h, pend) \<Longrightarrow> (r, users) \<in> set pend \<Longrightarrow> mhub_Publish r (presence_event users) h = (y, h') \<Longrightarrow>
    hub_reach w0 (h', remove1 (r, users) pend)"
| hub_publish: "hub_reach w0 (h, pend) \<Longrightarrow> mhub_Publish r ev h = (y, h') \<Longrightarrow> hub_reach w0 (h', pend)"
| hub_receive: "hub_reach w0 (h, pend) \<Longrightarrow> chan_recv c h = (z, h') \<Longrightarrow> hub_reach w0 (h', pend)"

lemma chan_recv_ok:
  assumes "hub_ok h" "chan_recv c h = (z, h')"
  shows "hub_ok h' \<and> hb_rooms h' = hb_rooms h"
proof -
  consider "h' = h" | ch ev evs where "m_get (hb_chans h) c = Some ch" "ch_buf ch = ev # evs"
      "h' = h\<lparr>hb_chans := m_set c (ch\<lparr>ch_buf := evs\<rparr>) (hb_chans h)\<rparr>"
    using assms(2) by (auto simp: chan_recv_def split: option.splits list.splits)
  then show ?thesis
  proof cases
    case 2
    have "(\<exists>x. m_get (hb_chans h') d = Some x \<and> \<not> ch_closed x) = (\<exists>x. m_get (hb_chans h) d = Some x \<and> \<not> ch_closed x)" for d
      using 2 by auto
    moreover have "d < hb_next h' \<and> length (ch_buf x) \<le> hub_cap" if "m_get (hb_chans h') d = Some x" for d x
      using that hub_okD(4) [OF assms(1), of d] hub_okD(4) [OF assms(1) 2(1)] 2 by (auto split: if_splits)
    moreover have "hb_room h' q = hb_room h q" "hb_rooms h' = hb_rooms h" for q using 2(3) by simp_all
    ultimately show ?thesis using assms(1) by (simp add: hub_ok_def)
  qed (use assms(1) in simp)
qed

lemma hub_reach_ok:
  assumes "hub_reach w0 w" "hub_ok (fst w0)"
  shows "hub_ok (fst w)"
  using assms
proof (induction rule: hub_reach.induct)
  case (hub_announce h pend r users y h')
  then show ?case using mhub_Publish_effect [of h r "presence_event users"] by auto
next
  case (hub_publish h pend r ev y h')
  then show ?case using mhub_Publish_effect [of h r ev] by auto
next
  case hub_start
  then show ?case by simp
next
  case (hub_register h pend r u n x h')
  then show ?case using mhub_register_ok [of h r u n x h'] by simp
next
  case (hub_remove h pend r c y h')
  then show ?case using mhub_remove_ok [of h r c y h'] by simp
next
  case (hub_snapshot h pend r)
  then show ?case by simp
next
  case (hub_receive h pend c z h')
  then show ?case using chan_recv_ok [of h c z h'] by simp
qed

text \<open>The methods are runs of those sections, so what holds in every reachable state holds around every call.\<close>

lemma broadcast_reach:
  assumes "hub_reach w0 (h, pend)" "mhub_broadcastPresence r h = (x, h')"
  shows "hub_reach w0 (h', pend)"
  using hub_announce [OF hub_snapshot [OF assms(1), of r], of r "presenceLocked (hb_room h r)" x h'] assms(2)
  by (simp add: mhub_broadcastPresence_def mhub_Presence_def andthen_def)

lemma Subscribe_reach:
  assumes "hub_reach w0 (h, pend)" "mhub_Subscribe r u n h = (x, h')"
  shows "hub_reach w0 (h', pend)"
  using assms(2) unfolding mhub_Subscribe_def
proof (cases rule: andthen_cases)
  case (err e)
  then show ?thesis using hub_register [OF assms(1) err(1)] by simp
next
  case (ok c h1)
  have reach: "hub_reach w0 (h1, pend)" by (rule hub_register [OF assms(1) ok(1)])
  obtain y h2 where "mhub_broadcastPresence r h1 = (y, h2)" by fastforce
  with ok(2) broadcast_reach [OF reach this] show ?thesis by (auto simp: andthen_def split: sum.splits)
qed

lemma Unsubscribe_reach:
  assumes "hub_reach w0 (h, pend)" "mhub_Unsubscribe r c h = (x, h')"
  shows "hub_reach w0 (h', pend)"
  using assms(2) unfolding mhub_Unsubscribe_def
proof (cases rule: andthen_cases)
  case (err e)
  then show ?thesis using hub_remove [OF assms(1) err(1)] by simp
next
  case (ok y h1)
  then show ?thesis using broadcast_reach [OF hub_remove [OF assms(1) ok(1)]] by simp
qed

section \<open>The hub over Redis\<close>

text \<open>
  \<open>RedisHub\<close> publishes an envelope on a Redis channel; every instance, this one too, receives it and publishes it
  locally. \<open>enc\<close> and \<open>dec\<close> are the JSON of the envelope. With no Redis client the local hub does it.
\<close>

definition reportFanoutChannel :: string where
  "reportFanoutChannel = ''bugsathi:report-events''"

record redis_envelope =
  en_ReportID :: string
  en_Event :: stream_event

record 's redis_hub =
  rh_local :: "'s event_hub"
  rh_publish :: "(string \<Rightarrow> bytes \<Rightarrow> ('s, unit) op) option"

definition rhub_Subscribe :: "'s redis_hub \<Rightarrow> uuid \<Rightarrow> uuid \<Rightarrow> string \<Rightarrow> ('s, chan) op" where
  "rhub_Subscribe H = eh_Subscribe (rh_local H)"

definition rhub_Publish ::
    "'z golib_scheme \<Rightarrow> (redis_envelope \<Rightarrow> err + bytes) \<Rightarrow> 's redis_hub \<Rightarrow> uuid \<Rightarrow> stream_event \<Rightarrow> ('s, unit) op" where
  "rhub_Publish L enc H reportID ev =
     (case rh_publish H of
        None \<Rightarrow> eh_Publish (rh_local H) reportID ev
      | Some pub \<Rightarrow>
          (case enc \<lparr>en_ReportID = uuid_string L reportID, en_Event = ev\<rparr> of
             Inl e \<Rightarrow> ret ()
           | Inr payload \<Rightarrow> ignore (pub reportFanoutChannel payload)))"

definition rhub_Presence :: "'s redis_hub \<Rightarrow> uuid \<Rightarrow> ('s, presence_user list) op" where
  "rhub_Presence H = eh_Presence (rh_local H)"

text \<open>One message of the loop in \<open>forward\<close>.\<close>

definition rhub_forward ::
    "'z golib_scheme \<Rightarrow> (bytes \<Rightarrow> err + redis_envelope) \<Rightarrow> 's redis_hub \<Rightarrow> bytes \<Rightarrow> ('s, unit) op" where
  "rhub_forward L dec H payload =
     (case dec payload of
        Inl e \<Rightarrow> ret ()
      | Inr env \<Rightarrow>
          (case uuid_parse L (en_ReportID env) of
             Inl e \<Rightarrow> ret ()
           | Inr reportID \<Rightarrow> eh_Publish (rh_local H) reportID (en_Event env)))"

definition redis_event_hub ::
    "'z golib_scheme \<Rightarrow> (redis_envelope \<Rightarrow> err + bytes) \<Rightarrow> 's redis_hub \<Rightarrow> 's event_hub" where
  "redis_event_hub L enc H =
     \<lparr>eh_Subscribe = rhub_Subscribe H, eh_Unsubscribe = eh_Unsubscribe (rh_local H),
      eh_Publish = rhub_Publish L enc H, eh_Presence = rhub_Presence H\<rparr>"

text \<open>A message that Redis hands on is published as the local hub would have published it.\<close>

lemma forward_of_publish:
  assumes "golib_ok L" "enc \<lparr>en_ReportID = uuid_string L r, en_Event = ev\<rparr> = Inr payload"
    and "dec payload = Inr \<lparr>en_ReportID = uuid_string L r, en_Event = ev'\<rparr>"
  shows "rhub_forward L dec H payload = eh_Publish (rh_local H) r ev'"
  using assms by (simp add: rhub_forward_def golib_ok_uuid)

end
