(* ===== verification/Collab_Memory.thy ===== *)
theory Collab_Memory
  imports Collab_Hub Sample_Lib
begin

text \<open>
  \<open>internal/collab/adapter/memory\<close> (\<open>memory.go\<close>, \<open>list.go\<close>): the in-memory comments and the doubles for authorisation,
  reports and names, put together with the process-local hub. Interprets the contracts of \<open>Collab\<close> and
  \<open>keyset_listing\<close> and states the properties of the collaboration service.
\<close>

section \<open>Repository and doubles\<close>

record collab_world =
  cw_comments :: "comment list"
  cw_hub :: hub_state

definition com_new :: collab_world where
  "com_new = \<lparr>cw_comments = [], cw_hub = mhub_New\<rparr>"

definition com_Create :: "comment \<Rightarrow> string \<Rightarrow> string \<Rightarrow> bytes \<Rightarrow> string \<Rightarrow> (collab_world, comment) op" where
  "com_Create c topic key payload corr w = (Inr c, w\<lparr>cw_comments := cw_comments w @ [c]\<rparr>)"

definition cm_key :: "comment \<Rightarrow> go_time \<times> uuid" where
  "cm_key c = (cm_CreatedAt c, cm_ID c)"

definition com_matches :: "uuid \<Rightarrow> uuid \<Rightarrow> collab_world \<Rightarrow> comment list" where
  "com_matches projectID reportID w =
     filter (\<lambda>c. cm_ProjectID c = projectID \<and> cm_ReportID c = reportID) (cw_comments w)"

definition com_ListByReport :: "'z golib_scheme \<Rightarrow> uuid \<Rightarrow> uuid \<Rightarrow> page \<Rightarrow> (collab_world, comment page_result) op" where
  "com_ListByReport L projectID reportID p w = (list_asc L (key_text L) cm_key p (com_matches projectID reportID w), w)"

definition com_repo :: "'z golib_scheme \<Rightarrow> collab_world comment_repository" where
  "com_repo L = \<lparr>cr_Create = com_Create, cr_ListByReport = com_ListByReport L\<rparr>"

definition collab_access_ok :: "uuid \<Rightarrow> uuid \<Rightarrow> ('s, unit) op" where
  "collab_access_ok u p = ret ()"

definition collab_access_deny :: "uuid \<Rightarrow> uuid \<Rightarrow> ('s, unit) op" where
  "collab_access_deny u p = fail (ErrForbidden Collab)"

definition collab_report_ok :: "uuid \<Rightarrow> uuid \<Rightarrow> ('s, unit) op" where
  "collab_report_ok p r = ret ()"

definition collab_authors :: "(uuid, string) gomap \<Rightarrow> uuid \<Rightarrow> ('s, string) op" where
  "collab_authors a u = ret (case m_get a u of Some n \<Rightarrow> n | None \<Rightarrow> ''unknown'')"

text \<open>The process-local hub as the service sees it.\<close>

definition on_hub :: "(hub_state, 'a) op \<Rightarrow> (collab_world, 'a) op" where
  "on_hub = on_part cw_hub (\<lambda>h w. w\<lparr>cw_hub := h\<rparr>)"

definition com_hub :: "collab_world event_hub" where
  "com_hub = \<lparr>eh_Subscribe = \<lambda>r u n. on_hub (mhub_Subscribe r u n), eh_Unsubscribe = \<lambda>r c. on_hub (mhub_Unsubscribe r c),
     eh_Publish = \<lambda>r ev. on_hub (mhub_Publish r ev), eh_Presence = \<lambda>r. on_hub (mhub_Presence r)\<rparr>"

definition com_service ::
    "'z golib_scheme \<Rightarrow> collab_world event_hub \<Rightarrow> (uuid, string) gomap \<Rightarrow> list_config \<Rightarrow> collab_world collab_service" where
  "com_service L hub authors cfg =
     \<lparr>co_repo = com_repo L, co_EnsureMember = collab_access_ok, co_EnsureInProject = collab_report_ok,
      co_DisplayName = collab_authors authors, co_hub = hub, co_listCfg = cfg\<rparr>"

text \<open>The Redis hub without a Redis client.\<close>

definition com_redis_hub :: "'z golib_scheme \<Rightarrow> (redis_envelope \<Rightarrow> err + bytes) \<Rightarrow> collab_world event_hub" where
  "com_redis_hub L enc = redis_event_hub L enc \<lparr>rh_local = com_hub, rh_publish = None\<rparr>"

section \<open>The contracts\<close>

text \<open>The report of an open stream and what waits in it.\<close>

definition hub_feed :: "hub_state \<Rightarrow> streams" where
  "hub_feed h c =
     (case find (\<lambda>r. m_get (hb_room h r) c \<noteq> None) (map fst (hb_rooms h)) of
        None \<Rightarrow> None
      | Some r \<Rightarrow> (case m_get (hb_chans h) c of None \<Rightarrow> None | Some ch \<Rightarrow> Some (r, ch_buf ch)))"

lemma hub_feed_iff:
  assumes "hub_ok h"
  shows "hub_feed h c = Some (r, evs) \<longleftrightarrow>
    m_get (hb_room h r) c \<noteq> None \<and> (\<exists>ch. m_get (hb_chans h) c = Some ch \<and> evs = ch_buf ch)"
proof -
  have key: "r \<in> set (map fst (hb_rooms h))" if "m_get (hb_room h r) c \<noteq> None" for r
    using that map_of_SomeD [of "hb_rooms h" r] by (force simp: hb_room_def split: option.splits)
  show ?thesis
  proof (cases "find (\<lambda>r. m_get (hb_room h r) c \<noteq> None) (map fst (hb_rooms h))")
    case None
    then have "hub_feed h c = None" by (simp only: hub_feed_def option.case)
    moreover have "m_get (hb_room h r) c = None" for r
      using None key [of r] unfolding find_None_iff by (cases "m_get (hb_room h r) c") auto
    ultimately show ?thesis by simp
  next
    case (Some q)
    then have q: "m_get (hb_room h q) c \<noteq> None" by (auto simp: find_Some_iff)
    then obtain ch where ch: "m_get (hb_chans h) c = Some ch" using hub_okD(2) [OF assms, of q c] by auto
    with Some have "hub_feed h c = Some (q, ch_buf ch)" by (simp only: hub_feed_def option.case)
    then show ?thesis using hub_okD(3) [OF assms q, of r] q ch by auto
  qed
qed

lemma hub_feed_None:
  assumes "hub_ok h"
  shows "hub_feed h c = None \<longleftrightarrow> (\<forall>r. m_get (hb_room h r) c = None)"
  using hub_feed_iff [OF assms, of c] hub_okD(2) [OF assms, of _ c] by (cases "hub_feed h c") fastforce+

lemma hub_feed_publish:
  assumes h: "hub_ok h" and pub: "mhub_Publish r ev h = (x, h')"
  shows "x = Inr () \<and> hub_ok h' \<and> hub_feed h' = offered hub_cap r ev (hub_feed h)"
proof -
  from mhub_Publish_effect [OF h, of r ev] pub
  have h': "x = Inr ()" "hub_ok h'" "hb_rooms h' = hb_rooms h"
    and chans: "\<And>c. m_get (hb_chans h') c =
       (if m_get (hb_room h r) c \<noteq> None then map_option (offer_to ev) (m_get (hb_chans h) c) else m_get (hb_chans h) c)"
    by auto
  have rooms: "hb_room h' q = hb_room h q" for q using h'(3) by (simp add: hb_room_def)
  have "hub_feed h' c = offered hub_cap r ev (hub_feed h) c" for c
  proof (cases "hub_feed h c")
    case None
    then show ?thesis using hub_feed_None [OF h, of c] hub_feed_None [OF h'(2), of c] by (simp add: rooms offered_def)
  next
    case (Some qe)
    obtain q evs where qe: "qe = (q, evs)" by fastforce
    with Some obtain ch where ch: "m_get (hb_room h q) c \<noteq> None" "m_get (hb_chans h) c = Some ch" "evs = ch_buf ch"
      using hub_feed_iff [OF h, of c q evs] by auto
    have "m_get (hb_room h r) c \<noteq> None \<longleftrightarrow> q = r" using hub_okD(3) [OF h ch(1), of r] ch(1) by auto
    then have "hub_feed h' c = Some (q, if q = r \<and> length evs < hub_cap then evs @ [ev] else evs)"
      using ch by (simp add: hub_feed_iff [OF h'(2)] rooms chans offer_to_def)
    then show ?thesis using Some qe by (simp add: offered_def)
  qed
  then show ?thesis using h' by auto
qed

abbreviation com_ok :: "collab_world \<Rightarrow> bool" where "com_ok w \<equiv> hub_ok (cw_hub w)"
abbreviation com_feed :: "collab_world \<Rightarrow> streams" where "com_feed w \<equiv> hub_feed (cw_hub w)"

lemma com_publish:
  assumes "com_ok w"
  shows "\<exists>w'. on_hub (mhub_Publish r ev) w = (Inr (), w') \<and> com_ok w' \<and> cw_comments w' = cw_comments w
     \<and> com_feed w' = offered hub_cap r ev (com_feed w)"
proof -
  obtain x h' where p: "mhub_Publish r ev (cw_hub w) = (x, h')" by fastforce
  then show ?thesis using hub_feed_publish [OF assms p] by (simp add: on_hub_def on_part_def)
qed

interpretation com: comment_store "com_repo L" com_ok cw_comments com_feed "\<lambda>t. t"
  by unfold_locales (auto simp: com_repo_def com_Create_def)

interpretation com_fan: event_fanout com_hub com_ok cw_comments com_feed hub_cap
  by unfold_locales (simp add: com_hub_def com_publish)

interpretation com_redis_fan: event_fanout "com_redis_hub L enc" com_ok cw_comments com_feed hub_cap
  by unfold_locales (simp add: com_redis_hub_def redis_event_hub_def rhub_Publish_def com_hub_def com_publish)

lemma collab_doubles_keep:
  "keeps v (collab_access_ok u p)" "keeps v (collab_report_ok p r)" "keeps v (collab_authors a u)"
  by (simp_all only: collab_access_ok_def collab_report_ok_def collab_authors_def keeps_ret)

interpretation com_svc: collab_client "com_repo L" com_ok cw_comments com_feed "\<lambda>t. t" com_hub hub_cap "com_service L com_hub authors cfg"
  by unfold_locales (simp_all add: com_service_def collab_doubles_keep)

interpretation com_redis_svc: collab_client "com_repo L" com_ok cw_comments com_feed "\<lambda>t. t" "com_redis_hub L enc" hub_cap
    "com_service L (com_redis_hub L enc) authors cfg"
  by unfold_locales (simp_all add: com_service_def collab_doubles_keep)

text \<open>Comments are listed oldest first.\<close>

definition com_listable :: "collab_world \<Rightarrow> bool" where
  "com_listable w \<longleftrightarrow> distinct (map cm_ID (cw_comments w)) \<and> (\<forall>c\<in>set (cw_comments w). time_ok (cm_CreatedAt c))"

lemma com_rows:
  assumes "com_listable w"
  shows "distinct (map cm_key (com_matches p r w)) \<and> (\<forall>c\<in>set (com_matches p r w). time_ok (fst (cm_key c)))"
proof -
  have "distinct (map cm_ID (com_matches p r w))" using assms by (simp add: com_listable_def com_matches_def distinct_map_filter)
  then have "distinct (map cm_key (com_matches p r w))" by (auto simp: distinct_map inj_on_def cm_key_def)
  then show ?thesis using assms by (auto simp: com_listable_def com_matches_def cm_key_def)
qed

interpretation report_comments: keyset_listing L cm_key "\<lambda>c k. key_text L c < key_text L k" com_listable
    "\<lambda>w. sort_oldest (key_text L) cm_key (com_matches projectID reportID w)"
    "\<lambda>p w. fst (com_ListByReport L projectID reportID p w)"
  by (rule keyset_listing_asc) (simp_all add: key_text_inj com_rows com_ListByReport_def)

section \<open>Properties\<close>

text \<open>
  C30: the hub never panics. In every state any interleaving of subscriptions, ends of subscriptions (repeated ones
  too), publications and receipts leads to, publishing and unsubscribing return normally: nothing is sent on a closed
  channel and none is closed twice. A stream never holds more than 16 events, it is closed exactly when it has left
  its room, and the presence list names each user with an open stream of the report exactly once.
\<close>

theorem hub_never_panics:
  assumes "hub_reach (mhub_New, []) (h, pend)"
  shows "fst (mhub_Publish r ev h) = Inr () \<and> fst (mhub_Unsubscribe r c h) = Inr ()
    \<and> (\<forall>ch. m_get (hb_chans h) c = Some ch \<longrightarrow> length (ch_buf ch) \<le> 16 \<and> (ch_closed ch \<longleftrightarrow> hub_feed h c = None))
    \<and> distinct (map pu_UserID (presenceLocked (hb_room h r)))
    \<and> set (map pu_UserID (presenceLocked (hb_room h r))) = {sub_userID s |s c. m_get (hb_room h r) c = Some s}"
proof -
  have h: "hub_ok h" using hub_reach_ok [OF assms] mhub_New_ok by simp
  have "fst (mhub_Unsubscribe r c h) = Inr ()"
  proof -
    obtain x h1 where rm: "mhub_remove r c h = (x, h1)" by fastforce
    have rm: "mhub_remove r c h = (Inr (), h1)" "hub_ok h1" using mhub_remove_ok [OF h rm] rm by blast+
    obtain y h2 where pub: "mhub_Publish r (presence_event (presenceLocked (hb_room h1 r))) h1 = (y, h2)" by fastforce
    then have "y = Inr ()" using hub_feed_publish [OF rm(2) pub] by simp
    then show ?thesis using rm(1) pub
      by (simp add: mhub_Unsubscribe_def mhub_broadcastPresence_def mhub_Presence_def andthen_def)
  qed
  moreover have "fst (mhub_Publish r ev h) = Inr ()" using mhub_Publish_effect [OF h, of r ev] by auto
  moreover have "ch_closed ch \<longleftrightarrow> hub_feed h c = None" if "m_get (hb_chans h) c = Some ch" for ch
    using that hub_feed_None [OF h, of c] hub_okD(2) [OF h, of _ c] hub_okD(5) [OF h that] by fastforce
  moreover have "sub_userID ` set (m_vals (hb_room h r)) = {sub_userID s |s c. m_get (hb_room h r) c = Some s}"
    using m_vals_iff [OF hub_okD(1) [OF h, of r]] by auto
  ultimately show ?thesis using presence_ids [of "hb_room h r"] hub_okD(4) [OF h, of c] by (simp add: hub_cap_def)
qed

theorem hub_never_panics_witness:
  "\<exists>h1 h2. mhub_register 5 7 ''Dev'' mhub_New = (Inr 0, h1) \<and> mhub_remove 5 0 h1 = (Inr (), h2)
     \<and> fst (mhub_Publish 5 (presence_event []) h2) = Inr () \<and> fst (mhub_Unsubscribe 5 0 h2) = Inr ()"
proof -
  let ?h1 = "snd (mhub_register 5 7 ''Dev'' mhub_New)"
  let ?h2 = "snd (mhub_remove 5 0 ?h1)"
  have a: "mhub_register 5 7 ''Dev'' mhub_New = (Inr 0, ?h1)" by (simp add: mhub_register_def mhub_New_def Let_def)
  have b: "mhub_remove 5 0 ?h1 = (Inr (), ?h2)"
    by (simp add: mhub_register_def mhub_remove_def mhub_New_def hb_room_def chan_close_def Let_def m_set_simps)
  have "hub_reach (mhub_New, []) (?h2, [])" by (rule hub_remove [OF hub_register [OF hub_start a] b])
  from hub_never_panics [OF this, of 5 "presence_event []" 0] show ?thesis using a b by blast
qed

text \<open>
  C31: a comment reaches the open streams. A call of \<open>CreateComment\<close> that succeeds stores the trimmed body, at most 4000
  characters of it, under the author, and the event goes to the end of every open stream of the report that has room
  and to no other; a refused one changes nothing that is stored or waiting.
\<close>

theorem comment_reaches_open_streams:
  assumes "hub_reach (mhub_New, []) (cw_hub w, pend)"
    and "cos_CreateComment L enc (com_service L com_hub authors cfg) now i u p r body w = (x, w')"
  shows "case x of
      Inl e \<Rightarrow> cw_comments w' = cw_comments w \<and> hub_feed (cw_hub w') = hub_feed (cw_hub w)
    | Inr d \<Rightarrow> cd_Body d = trim_space body \<and> cd_Body d \<noteq> [] \<and> rune_count (cd_Body d) \<le> 4000
        \<and> cw_comments w' = cw_comments w @
            [\<lparr>cm_ID = i, cm_ReportID = r, cm_ProjectID = p, cm_AuthorID = u, cm_Body = cd_Body d, cm_CreatedAt = now\<rparr>]
        \<and> (\<forall>c. hub_feed (cw_hub w') c =
             (case hub_feed (cw_hub w) c of None \<Rightarrow> None
              | Some (q, evs) \<Rightarrow> Some (q, if q = r \<and> length evs < 16
                  then evs @ [\<lparr>sev_Type = EventCommentCreated, sev_Data = CommentData d\<rparr>] else evs)))"
proof -
  have "com_ok w" using hub_reach_ok [OF assms(1)] mhub_New_ok by simp
  from com_svc.CreateComment_effect [OF this assms(2)] show ?thesis
    by (auto simp: NormalizeBody_Inr MaxBodyLen_def offered_def hub_cap_def split: sum.splits)
qed

theorem comment_reaches_open_streams_witness:
  "\<exists>d w'. cos_CreateComment sample_lib (\<lambda>_. []) (com_service sample_lib com_hub [(7, ''Dev'')] \<lparr>lc_DefaultLimit = 50, lc_MaxLimit = 100\<rparr>)
       9 3 7 4 5 '' looks broken '' (com_new\<lparr>cw_hub := snd (mhub_register 5 7 ''Dev'' mhub_New)\<rparr>) = (Inr d, w')
     \<and> cd_Body d = ''looks broken'' \<and> hub_feed (cw_hub w') 0 = Some (5, [\<lparr>sev_Type = EventCommentCreated, sev_Data = CommentData d\<rparr>])"
proof -
  let ?S = "com_service sample_lib com_hub [(7, ''Dev'')] \<lparr>lc_DefaultLimit = 50, lc_MaxLimit = 100\<rparr>"
  let ?h = "snd (mhub_register 5 7 ''Dev'' mhub_New)"
  have a: "mhub_register 5 7 ''Dev'' mhub_New = (Inr 0, ?h)" by (simp add: mhub_register_def mhub_New_def Let_def)
  have reach: "hub_reach (mhub_New, []) (cw_hub (com_new\<lparr>cw_hub := ?h\<rparr>), [])" using hub_register [OF hub_start a] by simp
  have trim: "trim_space '' looks broken '' = ''looks broken''" by code_simp
  have count: "rune_count ''looks broken'' \<le> 4000" using rune_count_le [of "''looks broken''"] by simp
  obtain d w' where run: "cos_CreateComment sample_lib (\<lambda>_. []) ?S 9 3 7 4 5 '' looks broken '' (com_new\<lparr>cw_hub := ?h\<rparr>) = (Inr d, w')"
    using trim count
    by (simp add: cos_CreateComment_def cos_guard_def com_service_def collab_access_ok_def collab_report_ok_def collab_authors_def
        NormalizeBody_def MaxBodyLen_def com_repo_def com_Create_def com_hub_def on_hub_def on_part_def andthen_def map_err_def Let_def
        mhub_Publish_def mhub_register_def mhub_New_def hb_room_def mhub_offer_def chan_offer_def hub_cap_def m_set_simps com_new_def)
  have feed: "hub_feed ?h 0 = Some (5, [])"
    by (simp add: hub_feed_def mhub_register_def mhub_New_def hb_room_def Let_def m_set_simps)
  from comment_reaches_open_streams [OF reach run] have
    "cd_Body d = ''looks broken'' \<and> hub_feed (cw_hub w') 0 = Some (5, [\<lparr>sev_Type = EventCommentCreated, sev_Data = CommentData d\<rparr>])"
    using feed by (simp add: trim)
  then show ?thesis using run by blast
qed

text \<open>
  The presence a stream was told last can be wrong for good. Two users join a report; each takes the list of users
  and sends it in two critical sections. When the first takes its list before the second joins and sends it last, both
  streams end with a list that lacks the second user, although both are present.
\<close>

theorem presence_can_stay_stale:
  "\<exists>h0 h1 h2 h3. mhub_register 5 7 ''Ann'' mhub_New = (Inr 0, h0)
     \<and> mhub_register 5 8 ''Bob'' h0 = (Inr 1, h1)
     \<and> mhub_Publish 5 (presence_event (presenceLocked (hb_room h1 5))) h1 = (Inr (), h2)
     \<and> mhub_Publish 5 (presence_event (presenceLocked (hb_room h0 5))) h2 = (Inr (), h3)
     \<and> hub_reach (mhub_New, []) (h3, [])
     \<and> map_option (\<lambda>(r, evs). last evs) (hub_feed h3 0) = Some (presence_event [\<lparr>pu_UserID = 7, pu_Name = ''Ann''\<rparr>])
     \<and> map_option (\<lambda>(r, evs). last evs) (hub_feed h3 1) = Some (presence_event [\<lparr>pu_UserID = 7, pu_Name = ''Ann''\<rparr>])
     \<and> map pu_UserID (presenceLocked (hb_room h3 5)) = [7, 8]"
proof -
  let ?h0 = "snd (mhub_register 5 7 ''Ann'' mhub_New)"
  let ?h1 = "snd (mhub_register 5 8 ''Bob'' ?h0)"
  let ?p0 = "presenceLocked (hb_room ?h0 5)"
  let ?p1 = "presenceLocked (hb_room ?h1 5)"
  let ?h2 = "snd (mhub_Publish 5 (presence_event ?p1) ?h1)"
  let ?h3 = "snd (mhub_Publish 5 (presence_event ?p0) ?h2)"
  note defs = mhub_register_def mhub_New_def mhub_Publish_def mhub_offer_def chan_offer_def hub_cap_def hb_room_def Let_def
    m_set_simps andthen_def presenceLocked_def m_vals_def
  have run: "mhub_register 5 7 ''Ann'' mhub_New = (Inr 0, ?h0)" "mhub_register 5 8 ''Bob'' ?h0 = (Inr 1, ?h1)"
    "mhub_Publish 5 (presence_event ?p1) ?h1 = (Inr (), ?h2)" "mhub_Publish 5 (presence_event ?p0) ?h2 = (Inr (), ?h3)"
    by (simp_all add: defs)
  have "hub_reach (mhub_New, []) (?h0, [(5, ?p0)])" by (rule hub_snapshot [OF hub_register [OF hub_start run(1)]])
  from hub_snapshot [OF hub_register [OF this run(2)], of 5]
  have "hub_reach (mhub_New, []) (?h1, [(5, ?p1), (5, ?p0)])" .
  from hub_announce [OF this _ run(3)] have "hub_reach (mhub_New, []) (?h2, [(5, ?p0)])" by simp
  from hub_announce [OF this _ run(4)] have last: "hub_reach (mhub_New, []) (?h3, [])" by simp
  have told: "map_option (\<lambda>(r, evs). last evs) (hub_feed ?h3 0) = Some (presence_event [\<lparr>pu_UserID = 7, pu_Name = ''Ann''\<rparr>])"
    "map_option (\<lambda>(r, evs). last evs) (hub_feed ?h3 1) = Some (presence_event [\<lparr>pu_UserID = 7, pu_Name = ''Ann''\<rparr>])"
    "map pu_UserID (presenceLocked (hb_room ?h3 5)) = [7, 8]"
    by (simp_all add: defs hub_feed_def)
  show ?thesis
    by (rule exI [of _ ?h0], rule exI [of _ ?h1], rule exI [of _ ?h2], rule exI [of _ ?h3]) (intro conjI run last told)
qed

end
