(* ===== verification/Go_Net.thy ===== *)
theory Go_Net
  imports Go_Strings
begin

text \<open>
  What the middleware uses of Go's \<open>net\<close>: addresses, their text, networks, and host and port. An address is its
  16-byte form, an IPv4 address the mapped one (\<open>::ffff:a.b.c.d\<close>), so \<open>IP.Equal\<close> is equality.
\<close>

type_synonym ip = "128 word"

definition v4_mapped :: "ip \<Rightarrow> bool" where
  "v4_mapped a \<longleftrightarrow> drop_bit 32 a = 0xFFFF"

definition of_v4 :: "nat list \<Rightarrow> ip" where
  "of_v4 fs = word_of_int (foldl (\<lambda>n f. 256 * n + int f) 0xFFFF fs)"

definition of_groups :: "int list \<Rightarrow> ip" where
  "of_groups gs = word_of_int (foldl (\<lambda>n g. 65536 * n + g) 0 gs)"

section \<open>Reading addresses\<close>

text \<open>A field of a dotted address: digits without a leading zero, at most 255.\<close>

definition v4_field :: "string \<Rightarrow> nat option" where
  "v4_field s =
     (if s = [] \<or> (1 < length s \<and> hd s = CHR ''0'') then None
      else case parse_digits 0 s of None \<Rightarrow> None | Some n \<Rightarrow> if n \<le> 255 then Some n else None)"

definition parse_v4 :: "string \<Rightarrow> nat list option" where
  "parse_v4 s =
     (let fs = map v4_field (split_byte (CHR ''.'') s)
      in if length fs = 4 \<and> None \<notin> set fs then Some (map the fs) else None)"

definition hex_val :: "char \<Rightarrow> nat option" where
  "hex_val c = (let n = of_char c in
     if 48 \<le> n \<and> n \<le> 57 then Some (n - 48) else if 97 \<le> n \<and> n \<le> 102 then Some (n - 87)
     else if 65 \<le> n \<and> n \<le> 70 then Some (n - 55) else None)"

definition is_hex :: "char \<Rightarrow> bool" where
  "is_hex c \<longleftrightarrow> hex_val c \<noteq> None"

definition hex_group :: "string \<Rightarrow> int" where
  "hex_group s = foldl (\<lambda>n c. 16 * n + int (the (hex_val c))) 0 s"

text \<open>
  The groups of an IPv6 address: those read so far, where the \<open>::\<close> was among them, and the rest of the text. A group
  followed by a dot is the start of a dotted address, which makes two groups and ends the text.
\<close>

fun v6_groups :: "nat \<Rightarrow> int list \<Rightarrow> nat option \<Rightarrow> string \<Rightarrow> (int list \<times> nat option) option" where
  "v6_groups 0 gs ell s = (if s = [] then Some (gs, ell) else None)"
| "v6_groups (Suc k) gs ell s =
     (let h = takeWhile is_hex s; t = dropWhile is_hex s
      in if h = [] \<or> 4 < length h then None
         else if t \<noteq> [] \<and> hd t = CHR ''.'' then
           (if (ell = None \<and> length gs \<noteq> 6) \<or> 6 < length gs then None
            else case parse_v4 s of
              Some [a, b, c, d] \<Rightarrow> Some (gs @ [256 * int a + int b, 256 * int c + int d], ell)
            | _ \<Rightarrow> None)
         else if t = [] then Some (gs @ [hex_group h], ell)
         else if hd t \<noteq> CHR '':'' \<or> length t = 1 then None
         else if hd (tl t) = CHR '':'' then
           (if ell \<noteq> None then None
            else if length t = 2 then Some (gs @ [hex_group h], Some (length gs + 1))
            else v6_groups k (gs @ [hex_group h]) (Some (length gs + 1)) (drop 2 t))
         else v6_groups k (gs @ [hex_group h]) ell (tl t))"

definition parse_v6 :: "string \<Rightarrow> ip option" where
  "parse_v6 s =
     (let lead = (take 2 s = ''::'');
          found = (if s = ''::'' then Some ([], Some 0)
                   else v6_groups 8 [] (if lead then Some 0 else None) (if lead then drop 2 s else s))
      in case found of
           None \<Rightarrow> None
         | Some (gs, None) \<Rightarrow> if length gs = 8 then Some (of_groups gs) else None
         | Some (gs, Some i) \<Rightarrow>
             if length gs < 8 then Some (of_groups (take i gs @ replicate (8 - length gs) 0 @ drop i gs)) else None)"

text \<open>The first dot or colon decides; an address with a zone is not accepted.\<close>

definition parse_ip :: "string \<Rightarrow> ip option" where
  "parse_ip s =
     (case dropWhile (\<lambda>c. c \<notin> set ''.:%'') s of
        [] \<Rightarrow> None
      | c # _ \<Rightarrow>
          if c = CHR ''.'' then map_option of_v4 (parse_v4 s)
          else if c = CHR '':'' \<and> CHR ''%'' \<notin> set s then parse_v6 s
          else None)"

section \<open>Writing addresses\<close>

definition ip_field :: "ip \<Rightarrow> nat \<Rightarrow> nat" where
  "ip_field a i = unat (take_bit 8 (drop_bit (8 * i) a))"

definition ip_group :: "ip \<Rightarrow> nat \<Rightarrow> nat" where
  "ip_group a i = unat (take_bit 16 (drop_bit (16 * (7 - i)) a))"

definition zero_run :: "ip \<Rightarrow> nat \<Rightarrow> nat" where
  "zero_run a i = length (takeWhile (\<lambda>j. ip_group a j = 0) [i..<8])"

text \<open>The first of the longest runs of at least two zero groups: its start and end.\<close>

definition zero_span :: "ip \<Rightarrow> (nat \<times> nat) option" where
  "zero_span a = foldl (\<lambda>best i.
       let l = zero_run a i
       in if 2 \<le> l \<and> (case best of None \<Rightarrow> True | Some (x, y) \<Rightarrow> y - x < l) then Some (i, i + l) else best) None [0..<8]"

definition joined :: "string \<Rightarrow> string list \<Rightarrow> string" where
  "joined sep ss = concat (map (\<lambda>(i, s). (if i = 0 then [] else sep) @ s) (enumerate 0 ss))"

definition ip_string :: "ip \<Rightarrow> string" where
  "ip_string a =
     (if v4_mapped a then joined ''.'' (map (\<lambda>i. show_nat (ip_field a i)) [3, 2, 1, 0])
      else case zero_span a of
        None \<Rightarrow> joined '':'' (map (\<lambda>i. show_hex (ip_group a i)) [0..<8])
      | Some (x, y) \<Rightarrow> joined '':'' (map (\<lambda>i. show_hex (ip_group a i)) [0..<x]) @ ''::''
          @ joined '':'' (map (\<lambda>i. show_hex (ip_group a i)) [y..<8]))"

section \<open>Networks\<close>

text \<open>A network: its number and the length of its prefix, counted in the 16-byte form.\<close>

type_synonym ip_net = "ip \<times> nat"

definition net_mask :: "nat \<Rightarrow> ip \<Rightarrow> ip" where
  "net_mask n a = push_bit (128 - n) (drop_bit (128 - n) a)"

definition parse_cidr :: "string \<Rightarrow> ip_net option" where
  "parse_cidr s =
     (case cut_byte (CHR ''/'') s of
        None \<Rightarrow> None
      | Some (addr, m) \<Rightarrow>
          (case (parse_ip addr, if m = [] then None else parse_digits 0 m) of
             (Some a, Some n) \<Rightarrow>
               (let off = (if CHR '':'' \<in> set addr then 0 else 96)
                in if off + n \<le> 128 then Some (net_mask (off + n) a, off + n) else None)
           | _ \<Rightarrow> None))"

text \<open>A network of IPv4 addresses contains no other address, and the converse.\<close>

definition net_contains :: "ip_net \<Rightarrow> ip \<Rightarrow> bool" where
  "net_contains N a \<longleftrightarrow>
     v4_mapped (fst N) = v4_mapped a \<and> drop_bit (128 - snd N) (fst N) = drop_bit (128 - snd N) a"

section \<open>Host and port\<close>

definition split_host_port :: "string \<Rightarrow> string option" where
  "split_host_port s =
     (let after = takeWhile (\<lambda>c. c \<noteq> CHR '':'') (rev s);
          front = take (length s - length after - 1) s
      in if CHR '':'' \<notin> set s then None
         else if hd s = CHR ''['' then
           (let host = takeWhile (\<lambda>c. c \<noteq> CHR '']'') (tl s)
            in if CHR '']'' \<notin> set s then None
               else if length host + 2 \<noteq> length front then None
               else if CHR ''['' \<in> set (tl s) \<or> CHR '']'' \<in> set (drop (length host + 2) s) then None
               else Some host)
         else if CHR '':'' \<in> set front \<or> CHR ''['' \<in> set s \<or> CHR '']'' \<in> set s then None
         else Some front)"

text \<open>Some texts the code may meet.\<close>

lemma go_net_examples:
  "parse_ip ''10.1.2.3'' = Some 0xFFFF0A010203" "parse_ip ''::1'' = Some 1" "parse_ip ''::ffff:10.1.2.3'' = Some 0xFFFF0A010203"
  "parse_ip ''1.2.3.04'' = None" "parse_ip ''1::2::3'' = None" "parse_ip ''fe80::1%eth0'' = None"
  "ip_string 1 = ''::1''" "ip_string 0xFFFF0A010203 = ''10.1.2.3''"
  "parse_cidr ''10.0.0.0/8'' = Some (0xFFFF0A000000, 104)" "parse_cidr ''10.0.0.0/33'' = None"
  "net_contains (0xFFFF0A000000, 104) 0xFFFF0A010203" "\<not> net_contains (0, 0) 0xFFFF0A010203"
  "split_host_port ''10.1.2.3:80'' = Some ''10.1.2.3''" "split_host_port ''[::1]:80'' = Some ''::1''" "split_host_port ''::1'' = None"
  by code_simp+

end
