(* ===== verification/Config.thy ===== *)
theory Config
  imports Sharing Kafka
begin

text \<open>
  \<open>internal/platform/config/config.go\<close>: what \<open>Load\<close> makes of the environment and what it refuses, in particular in
  production, and the choices \<open>cmd/worker/main.go\<close> derives from it. The environment is a function, empty for what is not
  set. 64-bit floats and their operations are a record of parameters; \<open>time.ParseDuration\<close> is defined here, but for
  the product of floats it takes for a fraction.
\<close>

section \<open>Reading values\<close>

type_synonym environment = "string \<Rightarrow> string"

text \<open>
  \<open>fl_parse\<close> is \<open>strconv.ParseFloat\<close>, \<open>fl_nat\<close> a constant, \<open>fl_pos\<close> is \<open>x > 0\<close>, \<open>fl_window\<close> is
  \<open>int(math.Ceil(x * window.Seconds()))\<close>, \<open>fl_seconds\<close> is \<open>int(d.Seconds())\<close> and \<open>fl_frac f unit scale\<close> is \<open>uint64(float64(f) * (float64(unit) / scale))\<close>.
\<close>

record 'f floats =
  fl_parse :: "string \<Rightarrow> 'f option"
  fl_nat :: "nat \<Rightarrow> 'f"
  fl_pos :: "'f \<Rightarrow> bool"
  fl_window :: "'f \<Rightarrow> duration \<Rightarrow> int"
  fl_seconds :: "duration \<Rightarrow> int"
  fl_frac :: "nat \<Rightarrow> nat \<Rightarrow> nat \<Rightarrow> nat"

definition parse_bool :: "string \<Rightarrow> bool option" where
  "parse_bool s =
     (if s \<in> set [''1'', ''t'', ''T'', ''TRUE'', ''true'', ''True''] then Some True
      else if s \<in> set [''0'', ''f'', ''F'', ''FALSE'', ''false'', ''False''] then Some False
      else None)"

text \<open>The leading digits of a duration; \<open>None\<close> when they pass \<open>2 ^ 63\<close>.\<close>

fun leading_int :: "nat \<Rightarrow> string \<Rightarrow> (nat \<times> string) option" where
  "leading_int x [] = Some (x, [])"
| "leading_int x (c # cs) =
     (case digit_val c of
        None \<Rightarrow> Some (x, c # cs)
      | Some d \<Rightarrow> if x > 2 ^ 63 div 10 then None
                 else if 10 * x + d > 2 ^ 63 then None
                 else leading_int (10 * x + d) cs)"

fun leading_fraction :: "nat \<Rightarrow> nat \<Rightarrow> bool \<Rightarrow> string \<Rightarrow> nat \<times> nat \<times> string" where
  "leading_fraction x scale over [] = (x, scale, [])"
| "leading_fraction x scale over (c # cs) =
     (case digit_val c of
        None \<Rightarrow> (x, scale, c # cs)
      | Some d \<Rightarrow> if over then leading_fraction x scale over cs
                 else if x > (2 ^ 63 - 1) div 10 then leading_fraction x scale True cs
                 else if 10 * x + d > 2 ^ 63 then leading_fraction x scale True cs
                 else leading_fraction (10 * x + d) (10 * scale) False cs)"

definition duration_unit :: "string \<Rightarrow> nat option" where
  "duration_unit u = map_of
     [(''ns'', 1), (''us'', 1000), ([CHR 0xC2, CHR 0xB5, CHR ''s''], 1000), ([CHR 0xCE, CHR 0xBC, CHR ''s''], 1000),
      (''ms'', 1000000), (''s'', 1000000000), (''m'', 60000000000), (''h'', 3600000000000)] u"

definition unit_char :: "char \<Rightarrow> bool" where
  "unit_char c \<longleftrightarrow> c \<noteq> CHR ''.'' \<and> digit_val c = None"

text \<open>One number with its unit: its nanoseconds and what follows it.\<close>

definition duration_part :: "'f floats \<Rightarrow> string \<Rightarrow> (nat \<times> string) option" where
  "duration_part F s =
     (case leading_int 0 s of
        None \<Rightarrow> None
      | Some (v, s1) \<Rightarrow>
          (let pre = (length s1 \<noteq> length s);
               (f, scale, s2) = (case s1 of [] \<Rightarrow> (0, 1, s1) | c # cs \<Rightarrow> if c = CHR ''.'' then leading_fraction 0 1 False cs else (0, 1, s1));
               post = (case s1 of [] \<Rightarrow> False | c # cs \<Rightarrow> c = CHR ''.'' \<and> length s2 \<noteq> length cs);
               u = takeWhile unit_char s2
           in if \<not> pre \<and> \<not> post then None
              else if u = [] then None
              else case duration_unit u of
                None \<Rightarrow> None
              | Some ns \<Rightarrow>
                  if v > 2 ^ 63 div ns then None
                  else (let w = (if f > 0 then v * ns + fl_frac F f ns scale else v * ns)
                        in if f > 0 \<and> w > 2 ^ 63 then None else Some (w, drop (length u) s2))))"

lemma leading_int_le: "leading_int x s = Some (v, s') \<Longrightarrow> length s' \<le> length s"
  by (induction x s rule: leading_int.induct) (fastforce split: option.splits if_splits)+

lemma leading_fraction_le: "leading_fraction x scale over s = (f, scale', s') \<Longrightarrow> length s' \<le> length s"
  by (induction x scale over s rule: leading_fraction.induct) (fastforce split: option.splits if_splits)+

lemma duration_part_less:
  assumes "duration_part F s = Some (w, rest)"
  shows "length rest < length s"
proof -
  obtain v s1 where s1: "leading_int 0 s = Some (v, s1)" using assms by (auto simp: duration_part_def split: option.splits)
  obtain f scale s2 where s2: "(case s1 of [] \<Rightarrow> (0, 1, s1) | c # cs \<Rightarrow> if c = CHR ''.'' then leading_fraction 0 1 False cs else (0, 1, s1)) = (f, scale, s2)"
    by (metis prod_cases3)
  have u: "takeWhile unit_char s2 \<noteq> []" "rest = drop (length (takeWhile unit_char s2)) s2"
    using assms s1 s2 by (auto simp: duration_part_def Let_def split: if_splits option.splits)
  have le: "length s2 \<le> length s1" using s2 leading_fraction_le by (fastforce split: list.splits if_splits)
  have pos: "0 < length (takeWhile unit_char s2)" using u(1) by simp
  have "length rest = length s2 - length (takeWhile unit_char s2)" by (simp add: u(2))
  then show ?thesis using le pos length_takeWhile_le [of unit_char s2] leading_int_le [OF s1] by linarith
qed

function duration_parts :: "'f floats \<Rightarrow> nat \<Rightarrow> string \<Rightarrow> nat option" where
  "duration_parts F d s =
     (if s = [] then Some d
      else case duration_part F s of
        None \<Rightarrow> None
      | Some (w, rest) \<Rightarrow> if d + w > 2 ^ 63 then None else duration_parts F (d + w) rest)"
  by pat_completeness auto
termination
  by (relation "measure (\<lambda>(F, d, s). length s)") (auto simp: duration_part_less)

declare duration_parts.simps [simp del]

definition parse_duration :: "'f floats \<Rightarrow> string \<Rightarrow> duration option" where
  "parse_duration F s =
     (let (neg, t) = (case s of [] \<Rightarrow> (False, [])
                      | c # cs \<Rightarrow> if c = CHR ''-'' then (True, cs) else if c = CHR ''+'' then (False, cs) else (False, s))
      in if t = ''0'' then Some 0
         else if t = [] then None
         else case duration_parts F 0 t of
           None \<Rightarrow> None
         | Some d \<Rightarrow> if neg then Some (- int d) else if d > 2 ^ 63 - 1 then None else Some (int d))"

definition getenv :: "environment \<Rightarrow> string \<Rightarrow> string \<Rightarrow> string" where
  "getenv env key fallback = (let v = env key in if v \<noteq> [] then v else fallback)"

definition getenv_with :: "(string \<Rightarrow> 'a option) \<Rightarrow> environment \<Rightarrow> string \<Rightarrow> 'a \<Rightarrow> 'a" where
  "getenv_with parse env key fallback =
     (let v = env key in if v = [] then fallback else case parse v of None \<Rightarrow> fallback | Some x \<Rightarrow> x)"

definition getenvInt :: "environment \<Rightarrow> string \<Rightarrow> int \<Rightarrow> int" where
  "getenvInt = getenv_with atoi"

definition getenvFloat :: "'f floats \<Rightarrow> environment \<Rightarrow> string \<Rightarrow> 'f \<Rightarrow> 'f" where
  "getenvFloat F = getenv_with (fl_parse F)"

definition getenvBool :: "environment \<Rightarrow> string \<Rightarrow> bool \<Rightarrow> bool" where
  "getenvBool = getenv_with parse_bool"

definition getenvDuration :: "'f floats \<Rightarrow> environment \<Rightarrow> string \<Rightarrow> duration \<Rightarrow> duration" where
  "getenvDuration F = getenv_with (parse_duration F)"

definition getenvCSV :: "environment \<Rightarrow> string \<Rightarrow> string \<Rightarrow> string list" where
  "getenvCSV env key fallback =
     filter (\<lambda>p. p \<noteq> []) (map trim_space (split_byte (CHR '','') (getenv env key fallback)))"

section \<open>Configuration\<close>

record postgres_config =
  pc_Host :: string
  pc_Port :: int
  pc_User :: string
  pc_Password :: string
  pc_DB :: string
  pc_SSLMode :: string
  pc_MaxConns :: int
  pc_MinConns :: int
  pc_MaxConnLifetime :: duration

definition DSN :: "postgres_config \<Rightarrow> string" where
  "DSN p = ''postgres://'' @ pc_User p @ '':'' @ pc_Password p @ ''@'' @ pc_Host p @ '':'' @ show_int (pc_Port p)
     @ ''/'' @ pc_DB p @ ''?sslmode='' @ pc_SSLMode p"

record minio_config =
  mc_Endpoint :: string
  mc_PublicEndpoint :: string
  mc_AccessKey :: string
  mc_SecretKey :: string
  mc_Bucket :: string
  mc_UseSSL :: bool
  mc_PublicUseSSL :: bool

definition PresignEndpoint :: "minio_config \<Rightarrow> string \<times> bool" where
  "PresignEndpoint m =
     (let ep = trim_space (mc_PublicEndpoint m)
      in if ep \<noteq> [] then (ep, mc_PublicUseSSL m) else (mc_Endpoint m, mc_UseSSL m))"

record kafka_config =
  kc_Brokers :: "string list"
  kc_ClientID :: string

record auth_config =
  ac_JWTSecret :: string
  ac_AccessTokenTTL :: duration
  ac_RefreshTokenTTL :: duration

record ai_config =
  aic_Provider :: string
  aic_BaseURL :: string
  aic_APIKey :: string
  aic_Model :: string
  aic_Timeout :: duration
  aic_MaxFrames :: int
  aic_FrameMaxBytes :: int
  aic_ClaimLease :: duration
  aic_ClaimRenew :: duration
  aic_AllowMock :: bool

record media_config =
  mdc_WorkerID :: string
  mdc_ClaimLease :: duration
  mdc_ClaimRenew :: duration

record observability_config =
  oc_OTLPEndpoint :: string
  oc_EnablePprof :: bool

record 'f rate_limit_config =
  rl_RPS :: 'f
  rl_Burst :: int
  rl_AuthRPS :: 'f
  rl_AuthBurst :: int
  rl_Window :: duration
  rl_TrustedProxies :: "string list"

definition rate_limit_enabled :: "'f floats \<Rightarrow> 'f rate_limit_config \<Rightarrow> bool" where
  "rate_limit_enabled F c \<longleftrightarrow> fl_pos F (rl_RPS c)"

record upload_gc_config =
  gc_TTL :: duration
  gc_Interval :: duration
  gc_Batch :: int

record 'f hardening_config =
  hc_MaxBodyBytes :: int
  hc_UploadMaxBytes :: int
  hc_CORSOrigins :: "string list"
  hc_RateLimit :: "'f rate_limit_config"
  hc_KafkaRetry :: kafka_retry
  hc_UploadGC :: upload_gc_config

record 'f config =
  cfg_AppEnv :: string
  cfg_HTTPAddr :: string
  cfg_LogLevel :: string
  cfg_Postgres :: postgres_config
  cfg_MinIO :: minio_config
  cfg_Kafka :: kafka_config
  cfg_Auth :: auth_config
  cfg_AI :: ai_config
  cfg_Media :: media_config
  cfg_Observability :: observability_config
  cfg_ReportTTL :: duration
  cfg_Sharing :: sharing_config
  cfg_List :: list_config
  cfg_RedisURL :: string
  cfg_Hardening :: "'f hardening_config"

definition redis_enabled :: "'f config \<Rightarrow> bool" where
  "redis_enabled cfg \<longleftrightarrow> trim_space (cfg_RedisURL cfg) \<noteq> []"

text \<open>\<open>int32(n)\<close>.\<close>

definition wrap32 :: "int \<Rightarrow> int" where
  "wrap32 x = (x + 2 ^ 31) mod 2 ^ 32 - 2 ^ 31"

section \<open>Load\<close>

definition devJWTSecret :: string where "devJWTSecret = ''dev-only-change-me-32chars-minimum!!''"
definition devPostgresPassword :: string where "devPostgresPassword = ''bugsathi''"
definition devMinIOSecretKey :: string where "devMinIOSecretKey = ''bugsathi_secret''"

definition env_postgres :: "'f floats \<Rightarrow> environment \<Rightarrow> postgres_config" where
  "env_postgres F env =
     \<lparr>pc_Host = getenv env ''POSTGRES_HOST'' ''localhost'', pc_Port = getenvInt env ''POSTGRES_PORT'' 5432,
      pc_User = getenv env ''POSTGRES_USER'' ''bugsathi'', pc_Password = getenv env ''POSTGRES_PASSWORD'' ''bugsathi'',
      pc_DB = getenv env ''POSTGRES_DB'' ''bugsathi'', pc_SSLMode = getenv env ''POSTGRES_SSLMODE'' ''disable'',
      pc_MaxConns = wrap32 (getenvInt env ''POSTGRES_MAX_CONNS'' 10), pc_MinConns = wrap32 (getenvInt env ''POSTGRES_MIN_CONNS'' 1),
      pc_MaxConnLifetime = getenvDuration F env ''POSTGRES_MAX_CONN_LIFETIME'' hour\<rparr>"

definition env_minio :: "environment \<Rightarrow> minio_config" where
  "env_minio env =
     \<lparr>mc_Endpoint = getenv env ''MINIO_ENDPOINT'' ''localhost:9000'', mc_PublicEndpoint = getenv env ''MINIO_PUBLIC_ENDPOINT'' [],
      mc_AccessKey = getenv env ''MINIO_ACCESS_KEY'' ''bugsathi'', mc_SecretKey = getenv env ''MINIO_SECRET_KEY'' ''bugsathi_secret'',
      mc_Bucket = getenv env ''MINIO_BUCKET'' ''bugsathi'', mc_UseSSL = getenvBool env ''MINIO_USE_SSL'' False,
      mc_PublicUseSSL = getenvBool env ''MINIO_PUBLIC_USE_SSL'' False\<rparr>"

definition env_auth :: "'f floats \<Rightarrow> environment \<Rightarrow> auth_config" where
  "env_auth F env =
     \<lparr>ac_JWTSecret = getenv env ''JWT_SECRET'' ''dev-only-change-me-32chars-minimum!!'',
      ac_AccessTokenTTL = getenvDuration F env ''AUTH_ACCESS_TTL'' (15 * minute),
      ac_RefreshTokenTTL = getenvDuration F env ''AUTH_REFRESH_TTL'' (7 * 24 * hour)\<rparr>"

definition env_ai :: "'f floats \<Rightarrow> environment \<Rightarrow> ai_config" where
  "env_ai F env =
     \<lparr>aic_Provider = getenv env ''AI_PROVIDER'' ''mock'', aic_BaseURL = getenv env ''AI_BASE_URL'' ''https://api.openai.com/v1'',
      aic_APIKey = getenv env ''AI_API_KEY'' [], aic_Model = getenv env ''AI_MODEL'' ''gpt-4o-mini'',
      aic_Timeout = getenvDuration F env ''AI_TIMEOUT'' (60 * second), aic_MaxFrames = getenvInt env ''AI_MAX_FRAMES'' 5,
      aic_FrameMaxBytes = getenvInt env ''AI_FRAME_MAX_BYTES'' (5 * 2 ^ 20), aic_ClaimLease = getenvDuration F env ''AI_CLAIM_LEASE'' 0,
      aic_ClaimRenew = getenvDuration F env ''AI_CLAIM_RENEW'' (30 * second), aic_AllowMock = getenvBool env ''ALLOW_MOCK_AI'' False\<rparr>"

definition env_hardening :: "'f floats \<Rightarrow> environment \<Rightarrow> 'f hardening_config" where
  "env_hardening F env =
     \<lparr>hc_MaxBodyBytes = getenvInt env ''MAX_BODY_BYTES'' (2 ^ 20), hc_UploadMaxBytes = getenvInt env ''UPLOAD_MAX_BYTES'' (500 * 2 ^ 20),
      hc_CORSOrigins = getenvCSV env ''CORS_ORIGINS'' ''http://localhost:5173,http://127.0.0.1:5173'',
      hc_RateLimit =
        \<lparr>rl_RPS = getenvFloat F env ''RATE_LIMIT_RPS'' (fl_nat F 20), rl_Burst = getenvInt env ''RATE_LIMIT_BURST'' 40,
         rl_AuthRPS = getenvFloat F env ''AUTH_RATE_LIMIT_RPS'' (fl_nat F 5), rl_AuthBurst = getenvInt env ''AUTH_RATE_LIMIT_BURST'' 10,
         rl_Window = getenvDuration F env ''RATE_LIMIT_WINDOW'' minute, rl_TrustedProxies = getenvCSV env ''TRUSTED_PROXIES'' []\<rparr>,
      hc_KafkaRetry =
        \<lparr>kr_Base = getenvDuration F env ''KAFKA_RETRY_BASE'' second, kr_Max = getenvDuration F env ''KAFKA_RETRY_MAX'' (30 * second),
         kr_MaxAttempts = getenvInt env ''KAFKA_RETRY_MAX_ATTEMPTS'' 5\<rparr>,
      hc_UploadGC =
        \<lparr>gc_TTL = getenvDuration F env ''UPLOAD_ABANDONED_TTL'' (24 * hour), gc_Interval = getenvDuration F env ''UPLOAD_GC_INTERVAL'' (15 * minute),
         gc_Batch = getenvInt env ''UPLOAD_GC_BATCH'' 50\<rparr>\<rparr>"

definition env_config :: "'f floats \<Rightarrow> environment \<Rightarrow> 'f config" where
  "env_config F env =
     \<lparr>cfg_AppEnv = getenv env ''APP_ENV'' ''development'', cfg_HTTPAddr = getenv env ''HTTP_ADDR'' '':8080'',
      cfg_LogLevel = getenv env ''LOG_LEVEL'' ''info'', cfg_Postgres = env_postgres F env, cfg_MinIO = env_minio env,
      cfg_Kafka = \<lparr>kc_Brokers = split_byte (CHR '','') (getenv env ''KAFKA_BROKERS'' ''localhost:19092''),
                   kc_ClientID = getenv env ''KAFKA_CLIENT_ID'' ''bugsathi''\<rparr>,
      cfg_Auth = env_auth F env, cfg_AI = env_ai F env,
      cfg_Media = \<lparr>mdc_WorkerID = getenv env ''WORKER_ID'' [], mdc_ClaimLease = getenvDuration F env ''MEDIA_CLAIM_LEASE'' (2 * minute),
                   mdc_ClaimRenew = getenvDuration F env ''MEDIA_CLAIM_RENEW'' (30 * second)\<rparr>,
      cfg_Observability = \<lparr>oc_OTLPEndpoint = getenv env ''OTEL_EXPORTER_OTLP_ENDPOINT'' [], oc_EnablePprof = getenvBool env ''ENABLE_PPROF'' False\<rparr>,
      cfg_ReportTTL = getenvDuration F env ''REPORT_CACHE_TTL'' (30 * second),
      cfg_Sharing = \<lparr>sc_DefaultTTL = getenvDuration F env ''SHARE_DEFAULT_TTL'' (720 * hour),
                     sc_MaxTTL = getenvDuration F env ''SHARE_MAX_TTL'' (2160 * hour), sc_HashTokens = getenvBool env ''SHARE_HASH_TOKENS'' True\<rparr>,
      cfg_List = \<lparr>lc_DefaultLimit = getenvInt env ''LIST_DEFAULT_LIMIT'' 50, lc_MaxLimit = getenvInt env ''LIST_MAX_LIMIT'' 100\<rparr>,
      cfg_RedisURL = getenv env ''REDIS_URL'' [],
      cfg_Hardening = env_hardening F env\<rparr>"

definition validateProductionAI :: "'z golib_scheme \<Rightarrow> 'f config \<Rightarrow> err + unit" where
  "validateProductionAI L cfg =
     (let provider = to_lower L (trim_space (aic_Provider (cfg_AI cfg)))
      in if provider = ''openai'' then Inr ()
         else if provider = ''mock'' \<or> provider = [] then
           (if aic_AllowMock (cfg_AI cfg) then Inr ()
            else Inl (ErrOther ''AI_PROVIDER=mock is not allowed when APP_ENV=production (set ALLOW_MOCK_AI=true for demos)''))
         else Inl (ErrOther ''AI_PROVIDER must be openai or mock when APP_ENV=production''))"

definition validateProduction :: "'z golib_scheme \<Rightarrow> 'f config \<Rightarrow> err + unit" where
  "validateProduction L cfg =
     (if \<not> equal_fold_ascii (cfg_AppEnv cfg) ''production'' then Inr ()
      else if ac_JWTSecret (cfg_Auth cfg) = devJWTSecret then Inl (ErrOther ''JWT_SECRET must be changed when APP_ENV=production'')
      else if pc_Password (cfg_Postgres cfg) = devPostgresPassword then Inl (ErrOther ''POSTGRES_PASSWORD must be changed when APP_ENV=production'')
      else if mc_SecretKey (cfg_MinIO cfg) = devMinIOSecretKey then Inl (ErrOther ''MINIO_SECRET_KEY must be changed when APP_ENV=production'')
      else if oc_EnablePprof (cfg_Observability cfg) then Inl (ErrOther ''ENABLE_PPROF must be false when APP_ENV=production'')
      else if \<not> sc_HashTokens (cfg_Sharing cfg) then Inl (ErrOther ''SHARE_HASH_TOKENS must be true when APP_ENV=production'')
      else if equal_fold_ascii (aic_Provider (cfg_AI cfg)) ''openai'' \<and> trim_space (aic_APIKey (cfg_AI cfg)) = [] then
        Inl (ErrOther ''AI_API_KEY is required when APP_ENV=production and AI_PROVIDER=openai'')
      else if trim_space (mc_PublicEndpoint (cfg_MinIO cfg)) = [] then
        Inl (ErrOther ''MINIO_PUBLIC_ENDPOINT is required when APP_ENV=production'')
      else validateProductionAI L cfg)"

definition Load :: "'z golib_scheme \<Rightarrow> 'f floats \<Rightarrow> environment \<Rightarrow> err + 'f config" where
  "Load L F env =
     (let cfg = env_config F env
      in if cfg_HTTPAddr cfg = [] then Inl (ErrOther ''HTTP_ADDR must not be empty'')
         else if length (ac_JWTSecret (cfg_Auth cfg)) < 32 then Inl (ErrOther ''JWT_SECRET must be at least 32 characters'')
         else if aic_MaxFrames (cfg_AI cfg) < 1 \<or> aic_MaxFrames (cfg_AI cfg) > 10 then
           Inl (ErrOther ''AI_MAX_FRAMES must be between 1 and 10'')
         else if aic_FrameMaxBytes (cfg_AI cfg) < 1 \<or> aic_FrameMaxBytes (cfg_AI cfg) > 20 * 2 ^ 20 then
           Inl (ErrOther ''AI_FRAME_MAX_BYTES must be between 1 and 20971520'')
         else case validateProduction L cfg of Inl e \<Rightarrow> Inl e | Inr _ \<Rightarrow> Inr cfg)"

definition ShutdownTimeout :: duration where
  "ShutdownTimeout = 10 * second"

section \<open>What the worker derives\<close>

text \<open>\<open>newAnalyzer\<close>: only the provider's name decides, and it is not trimmed here.\<close>

datatype analyzer_choice = OpenAIAnalyzer ai_config | MockAnalyzer

definition newAnalyzer :: "'z golib_scheme \<Rightarrow> 'f config \<Rightarrow> analyzer_choice" where
  "newAnalyzer L cfg =
     (if to_lower L (aic_Provider (cfg_AI cfg)) = ''openai'' then OpenAIAnalyzer (cfg_AI cfg) else MockAnalyzer)"

definition worker_claim_lease :: "'f config \<Rightarrow> duration" where
  "worker_claim_lease cfg =
     (let lease = aic_ClaimLease (cfg_AI cfg)
      in if lease \<le> 0 then max (wrap64 (aic_Timeout (cfg_AI cfg) + 30 * second)) (2 * minute) else lease)"

text \<open>The sweep of abandoned uploads: its lifetime, interval and batch, when it is enabled.\<close>

definition worker_gc :: "'f config \<Rightarrow> (duration \<times> duration \<times> int) option" where
  "worker_gc cfg =
     (let gc = hc_UploadGC (cfg_Hardening cfg)
      in if gc_TTL gc > 0
         then Some (gc_TTL gc, if gc_Interval gc \<le> 0 then 15 * minute else gc_Interval gc, if gc_Batch gc \<le> 0 then 50 else gc_Batch gc)
         else None)"

section \<open>Properties\<close>

lemma to_lower_openai:
  assumes "is_ascii p" "to_lower L p = ''openai''"
  shows "equal_fold_ascii p ''openai''"
  using assms by (simp add: to_lower_def equal_fold_ascii_def lower_char_def)

lemma validateProduction_Inr:
  "validateProduction L cfg = Inr x \<longleftrightarrow> \<not> equal_fold_ascii (cfg_AppEnv cfg) ''production'' \<or>
     (ac_JWTSecret (cfg_Auth cfg) \<noteq> devJWTSecret \<and> pc_Password (cfg_Postgres cfg) \<noteq> devPostgresPassword
      \<and> mc_SecretKey (cfg_MinIO cfg) \<noteq> devMinIOSecretKey \<and> \<not> oc_EnablePprof (cfg_Observability cfg) \<and> sc_HashTokens (cfg_Sharing cfg)
      \<and> \<not> (equal_fold_ascii (aic_Provider (cfg_AI cfg)) ''openai'' \<and> trim_space (aic_APIKey (cfg_AI cfg)) = [])
      \<and> trim_space (mc_PublicEndpoint (cfg_MinIO cfg)) \<noteq> [] \<and> validateProductionAI L cfg = Inr ())"
  unfolding validateProduction_def by (auto split: if_splits)

lemma Load_Inr:
  "Load L F env = Inr cfg \<longleftrightarrow> cfg = env_config F env \<and> cfg_HTTPAddr cfg \<noteq> [] \<and> 32 \<le> length (ac_JWTSecret (cfg_Auth cfg))
     \<and> 1 \<le> aic_MaxFrames (cfg_AI cfg) \<and> aic_MaxFrames (cfg_AI cfg) \<le> 10
     \<and> 1 \<le> aic_FrameMaxBytes (cfg_AI cfg) \<and> aic_FrameMaxBytes (cfg_AI cfg) \<le> 20971520 \<and> validateProduction L cfg = Inr ()"
  unfolding Load_def Let_def by (auto split: if_splits sum.splits)

text \<open>
  C32: what \<open>Load\<close> accepts is safe to run. The limits of every environment hold. In production no development secret
  is left, profiling is off, share tokens are hashed and browsers get the public endpoint of the object storage; and the
  worker analyses with the real provider and a key, or the mock was allowed, provided the provider's name is ASCII
  without surrounding white space.
\<close>

theorem loaded_config_is_safe:
  assumes "Load L F env = Inr cfg"
  shows "32 \<le> length (ac_JWTSecret (cfg_Auth cfg)) \<and> 1 \<le> aic_MaxFrames (cfg_AI cfg) \<and> aic_MaxFrames (cfg_AI cfg) \<le> 10
     \<and> 1 \<le> aic_FrameMaxBytes (cfg_AI cfg) \<and> aic_FrameMaxBytes (cfg_AI cfg) \<le> 20971520
     \<and> (equal_fold_ascii (cfg_AppEnv cfg) ''production'' \<longrightarrow>
          ac_JWTSecret (cfg_Auth cfg) \<noteq> devJWTSecret \<and> pc_Password (cfg_Postgres cfg) \<noteq> devPostgresPassword
          \<and> mc_SecretKey (cfg_MinIO cfg) \<noteq> devMinIOSecretKey \<and> \<not> oc_EnablePprof (cfg_Observability cfg)
          \<and> sc_HashTokens (cfg_Sharing cfg)
          \<and> PresignEndpoint (cfg_MinIO cfg) = (trim_space (mc_PublicEndpoint (cfg_MinIO cfg)), mc_PublicUseSSL (cfg_MinIO cfg))
          \<and> (is_ascii (aic_Provider (cfg_AI cfg)) \<and> trim_space (aic_Provider (cfg_AI cfg)) = aic_Provider (cfg_AI cfg) \<longrightarrow>
               (case newAnalyzer L cfg of
                  OpenAIAnalyzer a \<Rightarrow> a = cfg_AI cfg \<and> trim_space (aic_APIKey a) \<noteq> []
                | MockAnalyzer \<Rightarrow> aic_AllowMock (cfg_AI cfg))))"
proof -
  have load: "32 \<le> length (ac_JWTSecret (cfg_Auth cfg))" "1 \<le> aic_MaxFrames (cfg_AI cfg)" "aic_MaxFrames (cfg_AI cfg) \<le> 10"
    "1 \<le> aic_FrameMaxBytes (cfg_AI cfg)" "aic_FrameMaxBytes (cfg_AI cfg) \<le> 20971520" "validateProduction L cfg = Inr ()"
    using assms unfolding Load_Inr by blast+
  show ?thesis
  proof (intro conjI impI load(1-5))
    assume prod: "equal_fold_ascii (cfg_AppEnv cfg) ''production''"
    note v = load(6) [unfolded validateProduction_Inr, simplified prod, simplified]
    show "ac_JWTSecret (cfg_Auth cfg) \<noteq> devJWTSecret" "pc_Password (cfg_Postgres cfg) \<noteq> devPostgresPassword"
      "mc_SecretKey (cfg_MinIO cfg) \<noteq> devMinIOSecretKey" "\<not> oc_EnablePprof (cfg_Observability cfg)"
      "sc_HashTokens (cfg_Sharing cfg)" using v by blast+
    show "PresignEndpoint (cfg_MinIO cfg) = (trim_space (mc_PublicEndpoint (cfg_MinIO cfg)), mc_PublicUseSSL (cfg_MinIO cfg))"
      using v by (simp add: PresignEndpoint_def Let_def)
    assume p: "is_ascii (aic_Provider (cfg_AI cfg)) \<and> trim_space (aic_Provider (cfg_AI cfg)) = aic_Provider (cfg_AI cfg)"
    show "case newAnalyzer L cfg of OpenAIAnalyzer a \<Rightarrow> a = cfg_AI cfg \<and> trim_space (aic_APIKey a) \<noteq> [] | MockAnalyzer \<Rightarrow> aic_AllowMock (cfg_AI cfg)"
    proof (cases "to_lower L (aic_Provider (cfg_AI cfg)) = ''openai''")
      case True
      then have "equal_fold_ascii (aic_Provider (cfg_AI cfg)) ''openai''" using p to_lower_openai by blast
      then show ?thesis using v True by (simp add: newAnalyzer_def)
    next
      case False
      have "validateProductionAI L cfg = Inr ()" using v by blast
      then have "aic_AllowMock (cfg_AI cfg)" using p False by (simp add: validateProductionAI_def Let_def split: if_splits)
      then show ?thesis using False by (simp add: newAnalyzer_def)
    qed
  qed
qed

definition sample_floats :: "nat floats" where
  "sample_floats = \<lparr>fl_parse = parse_digits 0, fl_nat = (\<lambda>n. n), fl_pos = (\<lambda>x. x > 0),
     fl_window = (\<lambda>x w. - ((- int x * w) div second)), fl_seconds = (\<lambda>d. d div second), fl_frac = (\<lambda>f unit scale. f * unit div scale)\<rparr>"

lemma sample_trims:
  "trim_space ''cdn.example'' = ''cdn.example''" "trim_space ''openai'' = ''openai''" "trim_space ''sk'' = ''sk''"
  "trim_space '' openai'' = ''openai''"
  by code_simp+

lemma openai_lower: "to_lower L ''openai'' = ''openai''" "to_lower L '' openai'' = '' openai''" "is_ascii ''openai''"
  by (simp_all add: to_lower_def is_ascii_def lower_char_def)

lemma unset: "env key = [] \<Longrightarrow> getenv env key d = d" "env key = [] \<Longrightarrow> getenv_with p env key x = x"
  by (simp_all add: getenv_def getenv_with_def)

lemma is_set: "env key = c # v \<Longrightarrow> getenv env key d = c # v"
  by (simp add: getenv_def)

text \<open>The fields the checks read.\<close>

lemma env_fields:
  "cfg_AppEnv (env_config F env) = getenv env ''APP_ENV'' ''development''"
  "cfg_HTTPAddr (env_config F env) = getenv env ''HTTP_ADDR'' '':8080''"
  "ac_JWTSecret (cfg_Auth (env_config F env)) = getenv env ''JWT_SECRET'' devJWTSecret"
  "pc_Password (cfg_Postgres (env_config F env)) = getenv env ''POSTGRES_PASSWORD'' devPostgresPassword"
  "mc_SecretKey (cfg_MinIO (env_config F env)) = getenv env ''MINIO_SECRET_KEY'' devMinIOSecretKey"
  "mc_PublicEndpoint (cfg_MinIO (env_config F env)) = getenv env ''MINIO_PUBLIC_ENDPOINT'' []"
  "oc_EnablePprof (cfg_Observability (env_config F env)) = getenv_with parse_bool env ''ENABLE_PPROF'' False"
  "sc_HashTokens (cfg_Sharing (env_config F env)) = getenv_with parse_bool env ''SHARE_HASH_TOKENS'' True"
  "aic_Provider (cfg_AI (env_config F env)) = getenv env ''AI_PROVIDER'' ''mock''"
  "aic_APIKey (cfg_AI (env_config F env)) = getenv env ''AI_API_KEY'' []"
  "aic_AllowMock (cfg_AI (env_config F env)) = getenv_with parse_bool env ''ALLOW_MOCK_AI'' False"
  "aic_MaxFrames (cfg_AI (env_config F env)) = getenv_with atoi env ''AI_MAX_FRAMES'' 5"
  "aic_FrameMaxBytes (cfg_AI (env_config F env)) = getenv_with atoi env ''AI_FRAME_MAX_BYTES'' (5 * 2 ^ 20)"
  by (simp_all only: env_config_def env_auth_def env_postgres_def env_minio_def env_ai_def getenvInt_def getenvBool_def
      devJWTSecret_def devPostgresPassword_def devMinIOSecretKey_def
      config.simps auth_config.simps postgres_config.simps minio_config.simps ai_config.simps observability_config.simps sharing_config.simps)

definition sample_secret :: string where "sample_secret = ''0123456789abcdef0123456789abcdef''"

definition production_env :: "string \<Rightarrow> string \<Rightarrow> environment" where
  "production_env provider key = (\<lambda>k.
     if k = ''APP_ENV'' then ''production'' else if k = ''JWT_SECRET'' then sample_secret
     else if k = ''POSTGRES_PASSWORD'' then ''pg'' else if k = ''MINIO_SECRET_KEY'' then ''mk''
     else if k = ''MINIO_PUBLIC_ENDPOINT'' then ''cdn.example'' else if k = ''AI_PROVIDER'' then provider
     else if k = ''AI_API_KEY'' then key else [])"

lemma production_values:
  "production_env p k ''APP_ENV'' = ''production''" "production_env p k ''JWT_SECRET'' = sample_secret"
  "production_env p k ''POSTGRES_PASSWORD'' = ''pg''" "production_env p k ''MINIO_SECRET_KEY'' = ''mk''"
  "production_env p k ''MINIO_PUBLIC_ENDPOINT'' = ''cdn.example''" "production_env p k ''AI_PROVIDER'' = p"
  "production_env p k ''AI_API_KEY'' = k" "production_env p k ''HTTP_ADDR'' = []" "production_env p k ''ENABLE_PPROF'' = []"
  "production_env p k ''SHARE_HASH_TOKENS'' = []" "production_env p k ''ALLOW_MOCK_AI'' = []"
  "production_env p k ''AI_MAX_FRAMES'' = []" "production_env p k ''AI_FRAME_MAX_BYTES'' = []"
  by (simp_all add: production_env_def)

lemma production_fields:
  "cfg_AppEnv (env_config F (production_env p k)) = ''production''"
  "cfg_HTTPAddr (env_config F (production_env p k)) = '':8080''"
  "ac_JWTSecret (cfg_Auth (env_config F (production_env p k))) = sample_secret"
  "pc_Password (cfg_Postgres (env_config F (production_env p k))) = ''pg''"
  "mc_SecretKey (cfg_MinIO (env_config F (production_env p k))) = ''mk''"
  "mc_PublicEndpoint (cfg_MinIO (env_config F (production_env p k))) = ''cdn.example''"
  "oc_EnablePprof (cfg_Observability (env_config F (production_env p k))) = False"
  "sc_HashTokens (cfg_Sharing (env_config F (production_env p k))) = True"
  "aic_Provider (cfg_AI (env_config F (production_env p k))) = (if p = [] then ''mock'' else p)"
  "aic_APIKey (cfg_AI (env_config F (production_env p k))) = k"
  "aic_AllowMock (cfg_AI (env_config F (production_env p k))) = False"
  "aic_MaxFrames (cfg_AI (env_config F (production_env p k))) = 5"
  "aic_FrameMaxBytes (cfg_AI (env_config F (production_env p k))) = 5 * 2 ^ 20"
  unfolding env_fields by (simp_all add: getenv_def getenv_with_def production_values sample_secret_def)

lemma production_loads:
  assumes "p \<noteq> []" "trim_space p = ''openai''" "equal_fold_ascii p ''openai'' \<longrightarrow> trim_space k \<noteq> []"
  shows "Load L F (production_env p k) = Inr (env_config F (production_env p k))"
proof -
  have secret: "sample_secret \<noteq> devJWTSecret" "length sample_secret = 32" by (simp_all add: sample_secret_def devJWTSecret_def)
  have others: "''pg'' \<noteq> devPostgresPassword" "''mk'' \<noteq> devMinIOSecretKey" by (simp_all add: devPostgresPassword_def devMinIOSecretKey_def)
  show ?thesis
    unfolding Load_Inr validateProduction_Inr validateProductionAI_def production_fields Let_def
    using assms by (simp add: secret others sample_trims openai_lower)
qed

lemma production_is_production: "equal_fold_ascii ''production'' ''production''"
  by (simp add: equal_fold_ascii_def)

lemma openai_fold: "\<not> equal_fold_ascii '' openai'' ''openai''"
  by (simp add: equal_fold_ascii_def)

theorem loaded_config_is_safe_witness:
  "\<exists>cfg. Load sample_lib sample_floats (production_env ''openai'' ''sk'') = Inr cfg \<and> sc_HashTokens (cfg_Sharing cfg)
     \<and> (case newAnalyzer sample_lib cfg of OpenAIAnalyzer a \<Rightarrow> trim_space (aic_APIKey a) \<noteq> [] | MockAnalyzer \<Rightarrow> aic_AllowMock (cfg_AI cfg))"
proof -
  let ?cfg = "env_config sample_floats (production_env ''openai'' ''sk'')"
  have load: "Load sample_lib sample_floats (production_env ''openai'' ''sk'') = Inr ?cfg"
    by (rule production_loads) (simp_all add: sample_trims)
  have prod: "equal_fold_ascii (cfg_AppEnv ?cfg) ''production''" by (simp only: production_fields production_is_production)
  have name: "is_ascii (aic_Provider (cfg_AI ?cfg)) \<and> trim_space (aic_Provider (cfg_AI ?cfg)) = aic_Provider (cfg_AI ?cfg)"
    by (simp add: production_fields sample_trims openai_lower)
  have safe: "sc_HashTokens (cfg_Sharing ?cfg)"
    "case newAnalyzer sample_lib ?cfg of OpenAIAnalyzer a \<Rightarrow> a = cfg_AI ?cfg \<and> trim_space (aic_APIKey a) \<noteq> [] | MockAnalyzer \<Rightarrow> aic_AllowMock (cfg_AI ?cfg)"
    using loaded_config_is_safe [OF load] prod name by blast+
  then have "case newAnalyzer sample_lib ?cfg of OpenAIAnalyzer a \<Rightarrow> trim_space (aic_APIKey a) \<noteq> [] | MockAnalyzer \<Rightarrow> aic_AllowMock (cfg_AI ?cfg)"
    by (cases "newAnalyzer sample_lib ?cfg") simp_all
  then show ?thesis using load safe(1) by blast
qed

text \<open>
  The guard of production trims the provider's name, the choice of the analyzer does not: with a blank in front of
  \<open>openai\<close> the configuration passes without a key and without \<open>ALLOW_MOCK_AI\<close>, and the mock analyses.
\<close>

theorem spaced_provider_runs_the_mock:
  "\<exists>cfg. Load L sample_floats (production_env '' openai'' []) = Inr cfg
     \<and> equal_fold_ascii (cfg_AppEnv cfg) ''production'' \<and> \<not> aic_AllowMock (cfg_AI cfg) \<and> newAnalyzer L cfg = MockAnalyzer"
proof -
  let ?cfg = "env_config sample_floats (production_env '' openai'' [])"
  have "Load L sample_floats (production_env '' openai'' []) = Inr ?cfg"
    by (rule production_loads) (simp_all add: sample_trims openai_fold)
  moreover have "newAnalyzer L ?cfg = MockAnalyzer"
    unfolding newAnalyzer_def production_fields by (simp add: openai_lower)
  ultimately show ?thesis
    by (intro exI [of _ ?cfg]) (simp add: production_fields production_is_production)
qed

end
