(* ===== verification/Httpx.thy ===== *)
theory Httpx
  imports Go_Net Config Reports
begin

text \<open>
  \<open>internal/platform/httpx\<close>: the middleware in front of the API. A handler takes the request and the response written
  so far and changes the response and the state; a middleware is a function of handlers, put together as
  \<open>cmd/api/main.go\<close> does. Of a request only what the code reads is kept: header names are given in their canonical form, \<open>rq_Query\<close> is
  \<open>URL.Query().Get\<close>, and of the context the logging values and the user.
\<close>

section \<open>Requests, responses, handlers\<close>

record request =
  rq_Method :: string
  rq_Path :: string
  rq_EscapedPath :: string
  rq_Pattern :: string
  rq_RemoteAddr :: string
  rq_Header :: "string \<Rightarrow> string"
  rq_Ctx :: log_ctx
  rq_User :: "uuid option"
  rq_PathValue :: "string \<Rightarrow> string"
  rq_Query :: "string \<Rightarrow> string"
  rq_Body :: bytes
  rq_BodyLimit :: "int option"

record response =
  rw_Header :: "(string, string) gomap"
  rw_Status :: "int option"
  rw_Body :: string
  rw_Aborted :: bool

definition new_response :: response where
  "new_response = \<lparr>rw_Header = [], rw_Status = None, rw_Body = [], rw_Aborted = False\<rparr>"

definition set_header :: "string \<Rightarrow> string \<Rightarrow> response \<Rightarrow> response" where
  "set_header k v w = w\<lparr>rw_Header := m_set k v (rw_Header w)\<rparr>"

text \<open>Only the first status written counts. \<open>rw_Aborted\<close>: the handler panicked and the server dropped the connection.\<close>

definition write_header :: "int \<Rightarrow> response \<Rightarrow> response" where
  "write_header code w = (if rw_Status w = None then w\<lparr>rw_Status := Some code\<rparr> else w)"

definition write_body :: "string \<Rightarrow> response \<Rightarrow> response" where
  "write_body s w = (write_header 200 w)\<lparr>rw_Body := rw_Body w @ s\<rparr>"

text \<open>\<open>http.Error\<close>.\<close>

definition http_error :: "string \<Rightarrow> int \<Rightarrow> response \<Rightarrow> response" where
  "http_error msg code w =
     write_body (msg @ [CHR 0x0A]) (write_header code
       (set_header ''X-Content-Type-Options'' ''nosniff'' (set_header ''Content-Type'' ''text/plain; charset=utf-8'' w)))"

type_synonym 's handler = "request \<Rightarrow> response \<Rightarrow> 's \<Rightarrow> response \<times> 's"

section \<open>Client address\<close>

definition remoteHost :: "string \<Rightarrow> string" where
  "remoteHost remoteAddr = (case split_host_port remoteAddr of None \<Rightarrow> remoteAddr | Some host \<Rightarrow> host)"

datatype trusted_network = TrustedPrefix ip_net | TrustedIP ip

fun ParseTrustedNetworks :: "string list \<Rightarrow> err + trusted_network list" where
  "ParseTrustedNetworks [] = Inr []"
| "ParseTrustedNetworks (raw # raws) =
     (let item = trim_space raw
      in if item = [] then ParseTrustedNetworks raws
         else case (if str_contains item ''/'' then map_option TrustedPrefix (parse_cidr item) else map_option TrustedIP (parse_ip item)) of
           None \<Rightarrow> Inl (ErrOther (''invalid address: '' @ item))
         | Some n \<Rightarrow> (case ParseTrustedNetworks raws of Inl e \<Rightarrow> Inl e | Inr ns \<Rightarrow> Inr (n # ns)))"

fun trusted_by :: "ip \<Rightarrow> trusted_network list \<Rightarrow> bool" where
  "trusted_by a [] = False"
| "trusted_by a (TrustedPrefix n # ns) = (net_contains n a \<or> trusted_by a ns)"
| "trusted_by a (TrustedIP i # ns) = (i = a \<or> trusted_by a ns)"

definition isTrusted :: "string \<Rightarrow> trusted_network list \<Rightarrow> bool" where
  "isTrusted host trusted = (case parse_ip host of None \<Rightarrow> False | Some a \<Rightarrow> trusted_by a trusted)"

definition ClientIP :: "request \<Rightarrow> trusted_network list \<Rightarrow> string" where
  "ClientIP r trusted =
     (let remote = remoteHost (rq_RemoteAddr r);
          xrip = trim_space (rq_Header r ''X-Real-Ip'');
          xff = rq_Header r ''X-Forwarded-For'';
          forwarded = (if xff \<noteq> [] then
              (case parse_ip (trim_space (hd (split_byte (CHR '','') xff))) of Some a \<Rightarrow> ip_string a | None \<Rightarrow> remote)
            else remote)
      in if \<not> isTrusted remote trusted then remote
         else if xrip \<noteq> [] then (case parse_ip xrip of Some a \<Rightarrow> ip_string a | None \<Rightarrow> forwarded)
         else forwarded)"

section \<open>Rate limits in the process\<close>

text \<open>
  \<open>golang.org/x/time/rate\<close> is a parameter: \<open>lm_new\<close> is \<open>NewLimiter\<close>, \<open>lm_allow\<close> is \<open>Allow\<close> at a time. The limiters are
  shared pointers; here the entry is updated in place. \<open>metrics\<close> is \<open>IncRateLimited\<close>, when there are metrics.
\<close>

record ('f, 'l) limiter_lib =
  lm_new :: "'f \<Rightarrow> int \<Rightarrow> 'l"
  lm_allow :: "go_time \<Rightarrow> 'l \<Rightarrow> bool \<times> 'l"

record 'l rate_state =
  rs_entries :: "(string, 'l \<times> go_time) gomap"
  rs_authEntries :: "(string, 'l \<times> go_time) gomap"

definition rate_new :: "'l rate_state" where
  "rate_new = \<lparr>rs_entries = [], rs_authEntries = []\<rparr>"

definition rate_cleanup :: "go_time \<Rightarrow> 'l rate_state \<Rightarrow> 'l rate_state" where
  "rate_cleanup now st =
     (let cutoff = now - 10 * minute;
          recent = (\<lambda>(k, l, seen). \<not> seen < cutoff)
      in \<lparr>rs_entries = filter recent (rs_entries st), rs_authEntries = filter recent (rs_authEntries st)\<rparr>)"

text \<open>The limiter of a key: the map it is in (the stricter one: \<open>True\<close>), the limiter, and the maps with the limiter in.\<close>

definition rate_get ::
    "'f floats \<Rightarrow> ('f, 'l) limiter_lib \<Rightarrow> 'f rate_limit_config \<Rightarrow> go_time \<Rightarrow> string \<Rightarrow> bool \<Rightarrow> 'l rate_state \<Rightarrow> bool \<times> 'l \<times> 'l rate_state" where
  "rate_get F lib cfg now key auth st0 =
     (let st = (if length (rs_entries st0) > 10000 then rate_cleanup now st0 else st0);
          strict = (auth \<and> fl_pos F (rl_AuthRPS cfg));
          m = (if strict then rs_authEntries st else rs_entries st);
          l = (case m_get m key of
                 Some (l, seen) \<Rightarrow> l
               | None \<Rightarrow> if strict then lm_new lib (rl_AuthRPS cfg) (rl_AuthBurst cfg) else lm_new lib (rl_RPS cfg) (rl_Burst cfg));
          m' = m_set key (l, now) m
      in (strict, l, if strict then st\<lparr>rs_authEntries := m'\<rparr> else st\<lparr>rs_entries := m'\<rparr>))"

definition retry_after :: "'f floats \<Rightarrow> duration \<Rightarrow> string" where
  "retry_after F window = show_int (if fl_seconds F window < 1 then 1 else fl_seconds F window)"

definition auth_route :: "request \<Rightarrow> bool" where
  "auth_route r = has_prefix (rq_Path r) ''/v1/auth/''"

definition limited_response :: "'f floats \<Rightarrow> duration \<Rightarrow> response \<Rightarrow> response" where
  "limited_response F window w =
     http_error ''{\"error\":\"rate limit exceeded\"}'' 429 (set_header ''Retry-After'' (retry_after F window) w)"

definition route_of :: "request \<Rightarrow> string" where
  "route_of r = (if rq_Pattern r = [] then rq_Path r else rq_Pattern r)"

definition RateLimit ::
    "'f floats \<Rightarrow> ('f, 'l) limiter_lib \<Rightarrow> 'f rate_limit_config \<Rightarrow> trusted_network list \<Rightarrow> (string \<Rightarrow> 's \<Rightarrow> 's) option \<Rightarrow> go_time
       \<Rightarrow> ('l rate_state \<times> 's) handler \<Rightarrow> ('l rate_state \<times> 's) handler" where
  "RateLimit F lib cfg trusted metrics now nxt =
     (if \<not> rate_limit_enabled F cfg then nxt
      else (\<lambda>r w (st, s).
        (let key = ClientIP r trusted;
             (strict, l, st1) = rate_get F lib cfg now key (auth_route r) st;
             (allowed, l') = lm_allow lib now l;
             st2 = (if strict then st1\<lparr>rs_authEntries := m_set key (l', now) (rs_authEntries st1)\<rparr>
                    else st1\<lparr>rs_entries := m_set key (l', now) (rs_entries st1)\<rparr>)
         in if \<not> allowed then
              (limited_response F (rl_Window cfg) w, st2, case metrics of None \<Rightarrow> s | Some inc \<Rightarrow> inc (route_of r) s)
            else nxt r w (st2, s))))"

section \<open>Rate limits over Redis\<close>

definition redisWindowCapacity :: "'f floats \<Rightarrow> 'f rate_limit_config \<Rightarrow> bool \<Rightarrow> int" where
  "redisWindowCapacity F cfg auth =
     (let strict = (auth \<and> fl_pos F (rl_AuthRPS cfg));
          rps = (if strict then rl_AuthRPS cfg else rl_RPS cfg);
          burst = (if strict then rl_AuthBurst cfg else rl_Burst cfg);
          window = (if rl_Window cfg \<le> 0 then minute else rl_Window cfg);
          fromRPS = fl_window F rps window;
          most = (if fromRPS > burst then fromRPS else burst)
      in if most < 1 then 1 else most)"

definition redisAllow :: "'s redis \<Rightarrow> string \<Rightarrow> int \<Rightarrow> duration \<Rightarrow> 's \<Rightarrow> bool \<times> 's" where
  "redisAllow rdb key most window s =
     (let window' = (if window \<le> 0 then minute else window)
      in case redis_Incr rdb key s of
           (Inl e, s1) \<Rightarrow> (False, s1)
         | (Inr n, s1) \<Rightarrow> (n \<le> most, if n = 1 then snd (redis_Expire rdb key window' s1) else s1))"

definition rate_key :: "request \<Rightarrow> trusted_network list \<Rightarrow> string" where
  "rate_key r trusted = ''bugsathi:rl:'' @ route_of r @ '':'' @ ClientIP r trusted"

definition RateLimitRedis ::
    "'f floats \<Rightarrow> 'f rate_limit_config \<Rightarrow> trusted_network list \<Rightarrow> (string \<Rightarrow> 's \<Rightarrow> 's) option \<Rightarrow> 's redis option
       \<Rightarrow> 's handler \<Rightarrow> 's handler" where
  "RateLimitRedis F cfg trusted metrics rdb nxt =
     (case rdb of
        None \<Rightarrow> nxt
      | Some c \<Rightarrow>
          if \<not> rate_limit_enabled F cfg then nxt
          else (\<lambda>r w s.
            (let (allowed, s1) = redisAllow c (rate_key r trusted) (redisWindowCapacity F cfg (auth_route r)) (rl_Window cfg) s
             in if \<not> allowed then
                  (limited_response F (rl_Window cfg) w, case metrics of None \<Rightarrow> s1 | Some inc \<Rightarrow> inc (route_of r) s1)
                else nxt r w s1)))"

section \<open>The other middleware\<close>

definition cors_allowed :: "string list \<Rightarrow> string set" where
  "cors_allowed origins = set (filter (\<lambda>x. x \<noteq> []) (map trim_space origins))"

definition cors_headers :: "string \<Rightarrow> response \<Rightarrow> response" where
  "cors_headers origin w =
     set_header ''Access-Control-Max-Age'' ''600''
     (set_header ''Access-Control-Expose-Headers'' ''X-Request-ID, X-Correlation-ID''
     (set_header ''Access-Control-Allow-Methods'' ''GET, POST, PATCH, PUT, DELETE, OPTIONS''
     (set_header ''Access-Control-Allow-Headers'' ''Authorization, Content-Type, X-Request-ID, X-Correlation-ID''
     (set_header ''Access-Control-Allow-Credentials'' ''true''
     (set_header ''Vary'' ''Origin''
     (set_header ''Access-Control-Allow-Origin'' origin w))))))"

definition CORS :: "string list \<Rightarrow> 's handler \<Rightarrow> 's handler" where
  "CORS origins nxt =
     (if cors_allowed origins = {} then nxt
      else (\<lambda>r w s.
        (let origin = rq_Header r ''Origin'';
             w1 = (if origin \<in> cors_allowed origins then cors_headers origin w else w)
         in if rq_Method r = ''OPTIONS'' then (write_header 204 w1, s) else nxt r w1 s)))"

definition HeaderRequestID :: string where "HeaderRequestID = ''X-Request-ID''"
definition HttpHeaderCorrelationID :: string where "HttpHeaderCorrelationID = ''X-Correlation-ID''"

text \<open>\<open>fresh\<close> is \<open>uuid.NewString()\<close>; \<open>Header.Get\<close> canonicalizes the name it is given.\<close>

definition RequestIDs :: "string \<Rightarrow> 's handler \<Rightarrow> 's handler" where
  "RequestIDs fresh nxt = (\<lambda>r w s.
     (let reqID = (if rq_Header r ''X-Request-Id'' = [] then fresh else rq_Header r ''X-Request-Id'');
          corrID = (if rq_Header r ''X-Correlation-Id'' = [] then reqID else rq_Header r ''X-Correlation-Id'');
          ctx = ctx_with_correlation_id corrID (ctx_with_request_id reqID (rq_Ctx r))
      in nxt (r\<lparr>rq_Ctx := ctx\<rparr>) (set_header HttpHeaderCorrelationID corrID (set_header HeaderRequestID reqID w)) s))"

definition content_security_policy :: string where
  "content_security_policy =
     (let none = [CHR 0x27] @ ''none'' @ [CHR 0x27]
      in ''default-src '' @ none @ ''; frame-ancestors '' @ none @ ''; base-uri '' @ none @ ''; form-action '' @ none)"

definition security_headers :: "bool \<Rightarrow> response \<Rightarrow> response" where
  "security_headers production w =
     (let w1 = set_header ''Content-Security-Policy'' content_security_policy
              (set_header ''X-XSS-Protection'' ''0''
              (set_header ''Permissions-Policy'' ''camera=(), microphone=(), geolocation=()''
              (set_header ''Referrer-Policy'' ''strict-origin-when-cross-origin''
              (set_header ''X-Frame-Options'' ''DENY''
              (set_header ''X-Content-Type-Options'' ''nosniff'' w)))))
      in if production then set_header ''Strict-Transport-Security'' ''max-age=31536000; includeSubDomains'' w1 else w1)"

definition SecurityHeaders :: "bool \<Rightarrow> 's handler \<Rightarrow> 's handler" where
  "SecurityHeaders production nxt = (\<lambda>r w s. nxt r (security_headers production w) s)"

definition IsProduction :: "string \<Rightarrow> bool" where
  "IsProduction appEnv = equal_fold_ascii (trim_space appEnv) ''production''"

definition MaxBodyBytes :: "int \<Rightarrow> 's handler \<Rightarrow> 's handler" where
  "MaxBodyBytes most nxt =
     (if most \<le> 0 then nxt
      else (\<lambda>r w s. nxt (if rq_Method r \<in> {''POST'', ''PUT'', ''PATCH''} then r\<lparr>rq_BodyLimit := Some most\<rparr> else r) w s))"

section \<open>The API in front of its routes\<close>

text \<open>\<open>core\<close> is the multiplexer of the routes, \<open>limit\<close> the rate limiter chosen.\<close>

definition api_chain ::
    "'f config \<Rightarrow> string \<Rightarrow> ('s handler \<Rightarrow> 's handler) \<Rightarrow> 's handler \<Rightarrow> 's handler" where
  "api_chain cfg fresh limit core =
     RequestIDs fresh (CORS (hc_CORSOrigins (cfg_Hardening cfg))
       (SecurityHeaders (IsProduction (cfg_AppEnv cfg)) (limit (MaxBodyBytes (hc_MaxBodyBytes (cfg_Hardening cfg)) core))))"

end
