(* ===== verification/Httpx_Limits.thy ===== *)
theory Httpx_Limits
  imports Httpx
begin

text \<open>
  What the middleware of \<open>Httpx\<close> guarantees. The locale \<open>redis_counters\<close> states the documented behaviour of
  \<open>INCR\<close> and \<open>EXPIRE\<close> on counters that end at a deadline; \<open>clock_redis\<close> is the plain store that has it.
\<close>

section \<open>Counters with a deadline\<close>

type_synonym counter = "int \<times> go_time option"

definition alive :: "go_time \<Rightarrow> counter \<Rightarrow> bool" where
  "alive t c \<longleftrightarrow> (case snd c of None \<Rightarrow> True | Some e \<Rightarrow> t < e)"

definition next_count :: "counter option \<Rightarrow> counter" where
  "next_count c = (case c of None \<Rightarrow> (1, None) | Some (n, e) \<Rightarrow> (n + 1, e))"

locale redis_counters =
  fixes rdb :: "'s redis" and counters :: "'s \<Rightarrow> string \<Rightarrow> counter option" and pass :: "go_time \<Rightarrow> 's \<Rightarrow> 's" and time :: "'s \<Rightarrow> go_time"
  assumes incr: "\<exists>s'. redis_Incr rdb k s = (Inr (fst (next_count (counters s k))), s')
      \<and> counters s' = (counters s)(k \<mapsto> next_count (counters s k)) \<and> time s' = time s"
    and expire: "counters s k = Some (n, e) \<Longrightarrow> \<exists>s'. redis_Expire rdb k ttl s = (Inr (), s')
      \<and> counters s' = (counters s)(k \<mapsto> (n, Some (time s + ttl))) \<and> time s' = time s"
    and pass: "time s \<le> t \<Longrightarrow> time (pass t s) = t \<and> counters (pass t s) k = (case counters s k of
        None \<Rightarrow> None | Some c \<Rightarrow> if alive t c then Some c else None)"
begin

text \<open>One request in a window: the count goes up, and a new window ends after its length.\<close>

lemma Allow_step:
  assumes "0 < window"
  shows "\<exists>s'. redisAllow rdb k most window s = (fst (next_count (counters s k)) \<le> most, s') \<and> time s' = time s
    \<and> counters s' = (counters s)(k \<mapsto> (fst (next_count (counters s k)),
        if fst (next_count (counters s k)) = 1 then Some (time s + window) else snd (next_count (counters s k))))"
proof -
  let ?n = "fst (next_count (counters s k))"
  obtain s1 where s1: "redis_Incr rdb k s = (Inr ?n, s1)" "counters s1 = (counters s)(k \<mapsto> next_count (counters s k))" "time s1 = time s"
    using incr by blast
  show ?thesis
  proof (cases "?n = 1")
    case True
    have "counters s1 k = Some (?n, snd (next_count (counters s k)))" using s1(2) by simp
    from expire [OF this, of window] obtain s2 where "redis_Expire rdb k window s1 = (Inr (), s2)"
      "counters s2 = (counters s1)(k \<mapsto> (?n, Some (time s1 + window)))" "time s2 = time s1" by blast
    then show ?thesis using s1 True assms by (simp add: redisAllow_def)
  next
    case False
    then show ?thesis using s1 assms by (cases "next_count (counters s k)") (simp add: redisAllow_def)
  qed
qed

text \<open>The \<open>i\<close>-th request of a window is let through while \<open>i\<close> is below the capacity.\<close>

definition in_window :: "string \<Rightarrow> duration \<Rightarrow> go_time \<Rightarrow> int \<Rightarrow> 's \<Rightarrow> bool" where
  "in_window k window t0 i s \<longleftrightarrow>
     (if i = 0 then counters s k = None \<and> time s \<le> t0 else counters s k = Some (i, Some (t0 + window)) \<and> t0 \<le> time s)"

lemma window_step:
  assumes w: "0 < window" and i: "0 \<le> i" and s: "in_window k window t0 i s"
    and t: "time s \<le> t" "t0 \<le> t" "t < t0 + window" "i = 0 \<Longrightarrow> t = t0"
  shows "\<exists>s'. redisAllow rdb k most window (pass t s) = (i < most, s') \<and> in_window k window t0 (i + 1) s' \<and> time s' = t
    \<and> (\<forall>k'. k' \<noteq> k \<longrightarrow> counters s k' = None \<longrightarrow> counters s' k' = None)"
proof -
  have p: "time (pass t s) = t" "\<And>q. counters (pass t s) q = (case counters s q of None \<Rightarrow> None | Some c \<Rightarrow> if alive t c then Some c else None)"
    using pass [OF t(1)] by blast+
  have now: "next_count (counters (pass t s) k) = (i + 1, if i = 0 then None else Some (t0 + window))"
    using s t i by (auto simp: p(2) in_window_def next_count_def alive_def)
  have n: "fst (next_count (counters (pass t s) k)) = i + 1" "snd (next_count (counters (pass t s) k)) = (if i = 0 then None else Some (t0 + window))"
    using now by simp_all
  from Allow_step [OF w, of k most "pass t s", unfolded n p(1)] obtain s' where s': "redisAllow rdb k most window (pass t s) = (i + 1 \<le> most, s')"
    "time s' = t" "counters s' = (counters (pass t s))(k \<mapsto> (i + 1, if i + 1 = 1 then Some (t + window) else if i = 0 then None else Some (t0 + window)))"
    by blast
  have "in_window k window t0 (i + 1) s'" using s' t i by (auto simp: in_window_def)
  then show ?thesis using s'(1,2) p(2) by (auto simp: s'(3))
qed

end

section \<open>A plain store\<close>

record clock_store =
  cs_counters :: "string \<Rightarrow> counter option"
  cs_now :: go_time

definition cs_Incr :: "string \<Rightarrow> (clock_store, int) op" where
  "cs_Incr k s = (Inr (fst (next_count (cs_counters s k))), s\<lparr>cs_counters := (cs_counters s)(k \<mapsto> next_count (cs_counters s k))\<rparr>)"

definition cs_Expire :: "string \<Rightarrow> duration \<Rightarrow> (clock_store, unit) op" where
  "cs_Expire k ttl s =
     (Inr (), case cs_counters s k of None \<Rightarrow> s
              | Some (n, e) \<Rightarrow> s\<lparr>cs_counters := (cs_counters s)(k \<mapsto> (n, Some (cs_now s + ttl)))\<rparr>)"

definition cs_pass :: "go_time \<Rightarrow> clock_store \<Rightarrow> clock_store" where
  "cs_pass t s =
     s\<lparr>cs_now := t, cs_counters := (\<lambda>k. case cs_counters s k of None \<Rightarrow> None | Some c \<Rightarrow> if alive t c then Some c else None)\<rparr>"

definition cs_new :: clock_store where
  "cs_new = \<lparr>cs_counters = (\<lambda>k. None), cs_now = 0\<rparr>"

text \<open>A Redis of which only counters are used.\<close>

definition clock_redis :: "clock_store redis" where
  "clock_redis =
     \<lparr>redis_Get = \<lambda>k. fail (ErrOther ''not a counter''), redis_Set = \<lambda>k v ttl. ret (), redis_Del = \<lambda>k. ret (),
      redis_Incr = cs_Incr, redis_Expire = cs_Expire, redis_Publish = \<lambda>c p. ret ()\<rparr>"

interpretation clock: redis_counters clock_redis cs_counters cs_pass cs_now
  by unfold_locales (auto simp: clock_redis_def cs_Incr_def cs_Expire_def cs_pass_def)

section \<open>A stream of requests\<close>

text \<open>Requests at their times against a handler, and the status of each response.\<close>

fun statuses :: "clock_store handler \<Rightarrow> (go_time \<times> request) list \<Rightarrow> clock_store \<Rightarrow> int option list" where
  "statuses h [] s = []"
| "statuses h ((t, r) # rs) s = (let (w, s') = h r new_response (cs_pass t s) in rw_Status w # statuses h rs s')"

definition serve :: "'s handler" where
  "serve r w s = (write_header 200 w, s)"

definition redis_limited :: "'f floats \<Rightarrow> 'f rate_limit_config \<Rightarrow> trusted_network list \<Rightarrow> clock_store handler" where
  "redis_limited F cfg trusted = RateLimitRedis F cfg trusted None (Some clock_redis) serve"

lemma limited_status: "rw_Status (limited_response F w new_response) = Some 429"
  by (simp add: limited_response_def http_error_def write_body_def write_header_def set_header_def new_response_def)

lemma redis_limited_step:
  assumes "rate_limit_enabled F cfg"
    and "redisAllow clock_redis (rate_key r trusted) (redisWindowCapacity F cfg (auth_route r)) (rl_Window cfg) s = (b, s')"
  shows "\<exists>w. redis_limited F cfg trusted r new_response s = (w, s') \<and> rw_Status w = Some (if b then 200 else 429)"
  using assms limited_status [of F]
  by (simp add: redis_limited_def RateLimitRedis_def serve_def) (simp add: write_header_def new_response_def)

lemma capacity_pos: "1 \<le> redisWindowCapacity F cfg auth"
  by (simp add: redisWindowCapacity_def Let_def)

lemma statuses_window:
  assumes on: "rate_limit_enabled F cfg" and w: "0 < rl_Window cfg" and i: "0 \<le> i"
    and s: "clock.in_window k (rl_Window cfg) t0 i s"
    and times: "sorted (map fst rs)" "\<forall>(t, r)\<in>set rs. cs_now s \<le> t \<and> t0 \<le> t \<and> t < t0 + rl_Window cfg"
      "i = 0 \<Longrightarrow> rs \<noteq> [] \<Longrightarrow> fst (hd rs) = t0"
    and same: "\<forall>(t, r)\<in>set rs. rate_key r trusted = k \<and> redisWindowCapacity F cfg (auth_route r) = most"
  shows "statuses (redis_limited F cfg trusted) rs s = map (\<lambda>j. Some (if i + int j < most then 200 else 429)) [0..<length rs]"
  using i s times same
proof (induction rs arbitrary: i s)
  case Nil
  then show ?case by simp
next
  case (Cons tr rs)
  obtain t r where tr: "tr = (t, r)" by fastforce
  have t: "cs_now s \<le> t" "t0 \<le> t" "t < t0 + rl_Window cfg" "i = 0 \<Longrightarrow> t = t0" and key: "rate_key r trusted = k" "redisWindowCapacity F cfg (auth_route r) = most"
    using Cons.prems tr by auto
  obtain s' where s': "redisAllow clock_redis k most (rl_Window cfg) (cs_pass t s) = (i < most, s')"
      "clock.in_window k (rl_Window cfg) t0 (i + 1) s'" "cs_now s' = t"
    using clock.window_step [OF w Cons.prems(1,2) t] by blast
  obtain resp where resp: "redis_limited F cfg trusted r new_response (cs_pass t s) = (resp, s')" "rw_Status resp = Some (if i < most then 200 else 429)"
    using redis_limited_step [OF on, of r trusted "cs_pass t s"] s'(1) key by auto
  have "statuses (redis_limited F cfg trusted) rs s' = map (\<lambda>j. Some (if (i + 1) + int j < most then 200 else 429)) [0..<length rs]"
    using Cons.prems(3,4,6) s'(2,3) by (intro Cons.IH) (use Cons.prems(1) in \<open>auto simp: tr\<close>)
  moreover have "[0..<length (tr # rs)] = 0 # map Suc [0..<length rs]" by (simp add: upt_conv_Cons map_Suc_upt del: upt_Suc)
  ultimately show ?case using resp by (simp add: tr Let_def comp_def algebra_simps del: upt_Suc)
qed

section \<open>Properties\<close>


definition sample_limits :: "nat rate_limit_config" where
  "sample_limits = \<lparr>rl_RPS = 1, rl_Burst = 1, rl_AuthRPS = 0, rl_AuthBurst = 1, rl_Window = 2 * second, rl_TrustedProxies = []\<rparr>"

definition from_stranger :: "string \<Rightarrow> string \<Rightarrow> request" where
  "from_stranger path claimed =
     \<lparr>rq_Method = ''GET'', rq_Path = path, rq_EscapedPath = path, rq_Pattern = [], rq_RemoteAddr = ''203.0.113.9:4000'',
      rq_Header = (\<lambda>k. if k = ''X-Forwarded-For'' then claimed else []),
      rq_Ctx = \<lparr>lx_request_id = None, lx_correlation_id = None, lx_recording_id = None\<rparr>, 
      rq_User = None, rq_PathValue = (\<lambda>_. []), rq_Query = (\<lambda>_. []), rq_Body = [], rq_BodyLimit = None\<rparr>"

lemma sample_capacity: "redisWindowCapacity sample_floats sample_limits False = 2"
  by (simp add: redisWindowCapacity_def sample_limits_def sample_floats_def)

lemma stranger_host: "remoteHost ''203.0.113.9:4000'' = ''203.0.113.9''" "\<not> isTrusted ''203.0.113.9'' []"
  by code_simp+


text \<open>
  The middleware runs before the routes are matched, when \<open>r.Pattern\<close> is still empty, so the path itself is the route:
  requests with different paths never meet in a window. One client can try any number of share tokens.
\<close>

lemma statuses_apart:
  assumes on: "rate_limit_enabled F cfg" and w: "0 < rl_Window cfg" and sorted: "sorted (map fst rs)" "\<forall>(t, r)\<in>set rs. cs_now s \<le> t"
    and keys: "distinct (map (\<lambda>(t, r). rate_key r trusted) rs)" "\<forall>(t, r)\<in>set rs. cs_counters s (rate_key r trusted) = None"
  shows "statuses (redis_limited F cfg trusted) rs s = replicate (length rs) (Some 200)"
  using sorted keys
proof (induction rs arbitrary: s)
  case Nil
  then show ?case by simp
next
  case (Cons tr rs)
  obtain t r where tr: "tr = (t, r)" by fastforce
  let ?k = "rate_key r trusted" and ?most = "redisWindowCapacity F cfg (auth_route r)"
  have s: "clock.in_window ?k (rl_Window cfg) t 0 s" "cs_now s \<le> t" using Cons.prems tr by (auto simp: clock.in_window_def)
  have within: "t < t + rl_Window cfg" using w by simp
  obtain s' where s': "redisAllow clock_redis ?k ?most (rl_Window cfg) (cs_pass t s) = (0 < ?most, s')" "cs_now s' = t"
      "\<forall>k'. k' \<noteq> ?k \<longrightarrow> cs_counters s k' = None \<longrightarrow> cs_counters s' k' = None"
    using clock.window_step [OF w order_refl s(1) s(2) order_refl within refl, of ?most] by blast
  obtain resp where resp: "redis_limited F cfg trusted r new_response (cs_pass t s) = (resp, s')" "rw_Status resp = Some (if 0 < ?most then 200 else 429)"
    using redis_limited_step [OF on s'(1)] by blast
  have most: "0 < ?most" by (rule less_le_trans [OF zero_less_one capacity_pos])
  have fresh: "\<forall>(t', r')\<in>set rs. cs_counters s' (rate_key r' trusted) = None"
  proof (clarify)
    fix t' r' assume r': "(t', r') \<in> set rs"
    then have "rate_key r' trusted \<noteq> ?k" using Cons.prems(3) by (force simp: tr)
    then show "cs_counters s' (rate_key r' trusted) = None" using s'(3) Cons.prems(4) r' by (auto simp: tr)
  qed
  have "\<forall>(t', r')\<in>set rs. cs_now s' \<le> t'" unfolding s'(2) using Cons.prems(1) by (auto simp: tr)
  then have "statuses (redis_limited F cfg trusted) rs s' = replicate (length rs) (Some 200)"
    using Cons.prems(1,3) fresh by (intro Cons.IH) (auto simp: tr)
  then show ?case using resp most by (simp add: tr Let_def)
qed

text \<open>
  every path has a window of its own. As long as the routes are not matched, requests of one client with pairwise
  different paths are all let through, whatever the limits and however many they are.
\<close>

theorem distinct_paths_are_not_limited:
  assumes "rate_limit_enabled F cfg" "0 < rl_Window cfg" "sorted (map fst rs)"
    and "\<forall>(t, r)\<in>set rs. rq_Pattern r = [] \<and> rq_Path r \<noteq> [] \<and> rq_RemoteAddr r = addr \<and> 0 \<le> t"
    and "distinct (map (\<lambda>(t, r). rq_Path r) rs)" "\<not> isTrusted (remoteHost addr) trusted"
  shows "statuses (redis_limited F cfg trusted) rs cs_new = replicate (length rs) (Some 200)"
proof (rule statuses_apart [OF assms(1-3)])
  have key: "\<forall>(t, r)\<in>set rs. rate_key r trusted = ''bugsathi:rl:'' @ rq_Path r @ '':'' @ remoteHost addr"
    using assms(4,6) by (auto simp: rate_key_def ClientIP_def Let_def route_of_def)
  have "map (\<lambda>(t, r). rate_key r trusted) rs = map (\<lambda>p. ''bugsathi:rl:'' @ p @ '':'' @ remoteHost addr) (map (\<lambda>(t, r). rq_Path r) rs)"
    using key by auto
  then show "distinct (map (\<lambda>(t, r). rate_key r trusted) rs)"
    using assms(5) by (simp add: distinct_map inj_on_def)
qed (use assms(4) in \<open>auto simp: cs_new_def\<close>)

theorem distinct_paths_are_not_limited_witness:
  "statuses (redis_limited sample_floats (sample_limits\<lparr>rl_RPS := 1, rl_Burst := 1, rl_Window := second\<rparr>) [])
     [(5, from_stranger ''/s/a'' []), (5, from_stranger ''/s/b'' []), (5, from_stranger ''/s/c'' [])] cs_new
   = [Some 200, Some 200, Some 200]"
proof -
  let ?rs = "[(5, from_stranger ''/s/a'' []), (5, from_stranger ''/s/b'' []), (5, from_stranger ''/s/c'' [])] :: (go_time \<times> request) list"
  have "statuses (redis_limited sample_floats (sample_limits\<lparr>rl_RPS := 1, rl_Burst := 1, rl_Window := second\<rparr>) []) ?rs cs_new
    = replicate (length ?rs) (Some 200)"
    by (rule distinct_paths_are_not_limited [where addr = "''203.0.113.9:4000''"])
      (simp_all add: rate_limit_enabled_def sample_floats_def sample_limits_def from_stranger_def stranger_host)
  then show ?thesis by (simp add: numeral_eq_Suc)
qed

text \<open>
  \<open>INCR\<close> and \<open>EXPIRE\<close> are two commands, and an error of the second is dropped. A counter that got no deadline keeps the
  client out of the route for good.
\<close>

theorem lost_expire_blocks_forever:
  "rate_limit_enabled F cfg \<and> cs_counters s (rate_key r trusted) = Some (n, None) \<and> redisWindowCapacity F cfg (auth_route r) \<le> n \<and> 0 < n
     \<longrightarrow> rw_Status (fst (redis_limited F cfg trusted r new_response (cs_pass t s))) = Some 429
         \<and> (\<exists>n'\<ge>n. cs_counters (snd (redis_limited F cfg trusted r new_response (cs_pass t s))) (rate_key r trusted) = Some (n', None))"
proof (intro impI, elim conjE)
  assume on: "rate_limit_enabled F cfg" and c: "cs_counters s (rate_key r trusted) = Some (n, None)"
    and n: "redisWindowCapacity F cfg (auth_route r) \<le> n" "0 < n"
  let ?k = "rate_key r trusted" and ?s = "cs_pass t s"
  have now: "cs_counters ?s ?k = Some (n, None)" using c by (simp add: cs_pass_def alive_def)
  obtain s' where s': "redisAllow clock_redis ?k (redisWindowCapacity F cfg (auth_route r)) (rl_Window cfg) ?s = (False, s')"
      "cs_counters s' ?k = Some (n + 1, None)"
    using n by (simp add: redisAllow_def clock_redis_def cs_Incr_def now next_count_def)
  obtain resp where "redis_limited F cfg trusted r new_response ?s = (resp, s')" "rw_Status resp = Some 429"
    using redis_limited_step [OF on s'(1)] by auto
  then show "rw_Status (fst (redis_limited F cfg trusted r new_response ?s)) = Some 429
         \<and> (\<exists>n'\<ge>n. cs_counters (snd (redis_limited F cfg trusted r new_response ?s)) ?k = Some (n', None))"
    using s'(2) by auto
qed

section \<open>The chain in front of the API\<close>

text \<open>The headers the middleware writes, which nothing behind it rewrites.\<close>

definition guarded :: "string list" where
  "guarded = [''X-Request-ID'', ''X-Correlation-ID'', ''X-Content-Type-Options'', ''X-Frame-Options'', ''Content-Security-Policy'',
     ''Strict-Transport-Security'', ''Access-Control-Allow-Origin'']"

definition header :: "string \<Rightarrow> response \<Rightarrow> string option" where
  "header k w = m_get (rw_Header w) k"

definition leaves_headers :: "'s handler \<Rightarrow> bool" where
  "leaves_headers h \<longleftrightarrow> (\<forall>r w s k. k \<in> set guarded \<longrightarrow>
     header ''X-Content-Type-Options'' w = Some ''nosniff'' \<longrightarrow> header k (fst (h r w s)) = header k w)"

lemma header_set [simp]: "header k (set_header k' v w) = (if k = k' then Some v else header k w)"
  by (simp add: header_def set_header_def)

lemma header_write [simp]: "header k (write_header c w) = header k w" "header k (write_body b w) = header k w"
  by (simp_all add: header_def write_header_def write_body_def)

lemma header_limited: "k \<in> set guarded \<Longrightarrow> header ''X-Content-Type-Options'' w = Some ''nosniff'' \<Longrightarrow> header k (limited_response F d w) = header k w"
  by (auto simp: limited_response_def http_error_def guarded_def)

lemma leaves_Redis:
  assumes "leaves_headers core"
  shows "leaves_headers (RateLimitRedis F cfg trusted metrics rdb core)"
  using assms unfolding leaves_headers_def RateLimitRedis_def
  by (simp add: header_limited split: option.splits prod.splits)

lemma leaves_RateLimit:
  assumes "leaves_headers core"
  shows "leaves_headers (RateLimit F lib cfg trusted metrics now core)"
  using assms unfolding leaves_headers_def RateLimit_def
  by (simp add: header_limited Let_def split: option.splits prod.splits)

lemma leaves_MaxBody: "leaves_headers core \<Longrightarrow> leaves_headers (MaxBodyBytes m core)"
  by (simp add: leaves_headers_def MaxBodyBytes_def)

lemma leaves: "leaves_headers h \<Longrightarrow> header ''X-Content-Type-Options'' w = Some ''nosniff'' \<Longrightarrow> k \<in> set guarded \<Longrightarrow>
    header k (fst (h r w s)) = header k w"
  by (simp add: leaves_headers_def)

text \<open>What is written before the limiter is reached.\<close>

definition before_limit :: "'f config \<Rightarrow> string \<Rightarrow> request \<Rightarrow> response" where
  "before_limit cfg fresh r =
     (let reqID = (if rq_Header r ''X-Request-Id'' = [] then fresh else rq_Header r ''X-Request-Id'');
          corrID = (if rq_Header r ''X-Correlation-Id'' = [] then reqID else rq_Header r ''X-Correlation-Id'');
          w = set_header HttpHeaderCorrelationID corrID (set_header HeaderRequestID reqID new_response)
      in security_headers (IsProduction (cfg_AppEnv cfg))
           (if rq_Header r ''Origin'' \<in> cors_allowed (hc_CORSOrigins (cfg_Hardening cfg)) then cors_headers (rq_Header r ''Origin'') w else w))"

lemma api_chain_reaches:
  assumes "rq_Method r \<noteq> ''OPTIONS''"
  shows "\<exists>r'. api_chain cfg fresh limit core r new_response s
    = limit (MaxBodyBytes (hc_MaxBodyBytes (cfg_Hardening cfg)) core) r' (before_limit cfg fresh r) s"
  using assms by (auto simp: api_chain_def RequestIDs_def CORS_def SecurityHeaders_def before_limit_def Let_def)

lemma before_limit_headers:
  "header ''X-Content-Type-Options'' (before_limit cfg fresh r) = Some ''nosniff''"
  "header ''X-Frame-Options'' (before_limit cfg fresh r) = Some ''DENY''"
  "header ''Content-Security-Policy'' (before_limit cfg fresh r) = Some content_security_policy"
  "header ''Strict-Transport-Security'' (before_limit cfg fresh r) \<noteq> None \<longleftrightarrow> IsProduction (cfg_AppEnv cfg)"
  "header ''X-Request-ID'' (before_limit cfg fresh r) = Some (if rq_Header r ''X-Request-Id'' = [] then fresh else rq_Header r ''X-Request-Id'')"
  "header ''Access-Control-Allow-Origin'' (before_limit cfg fresh r) =
     (if rq_Header r ''Origin'' \<in> cors_allowed (hc_CORSOrigins (cfg_Hardening cfg)) then Some (rq_Header r ''Origin'') else None)"
  by (simp_all add: before_limit_def security_headers_def cors_headers_def Let_def HeaderRequestID_def HttpHeaderCorrelationID_def)
    (simp_all add: header_def new_response_def)



text \<open>
  \<open>Load\<close> compares \<open>APP_ENV\<close> as it is, \<open>IsProduction\<close> trims it: with a blank behind \<open>production\<close> the process counts as
  production in its answers but starts with the development secrets.
\<close>

theorem spaced_app_env_skips_the_guards:
  "\<exists>cfg. Load L F (\<lambda>k. if k = ''APP_ENV'' then ''production '' else []) = Inr cfg
     \<and> IsProduction (cfg_AppEnv cfg) \<and> ac_JWTSecret (cfg_Auth cfg) = devJWTSecret \<and> pc_Password (cfg_Postgres cfg) = devPostgresPassword"
proof -
  let ?env = "\<lambda>k. if k = ''APP_ENV'' then ''production '' else []"
  let ?cfg = "env_config F ?env"
  have trim: "trim_space ''production '' = ''production''" by code_simp
  have fold: "\<not> equal_fold_ascii ''production '' ''production''" by (simp add: equal_fold_ascii_def)
  have fields: "cfg_AppEnv ?cfg = ''production ''" "cfg_HTTPAddr ?cfg = '':8080''" "ac_JWTSecret (cfg_Auth ?cfg) = devJWTSecret"
    "pc_Password (cfg_Postgres ?cfg) = devPostgresPassword" "aic_MaxFrames (cfg_AI ?cfg) = 5" "aic_FrameMaxBytes (cfg_AI ?cfg) = 5 * 2 ^ 20"
    unfolding env_fields by (simp_all add: getenv_def getenv_with_def)
  have "length devJWTSecret = 36" by (simp add: devJWTSecret_def)
  then have "Load L F ?env = Inr ?cfg"
    unfolding Load_Inr validateProduction_Inr fields by (simp add: fold)
  then show ?thesis by (intro exI [of _ ?cfg]) (simp add: fields IsProduction_def trim equal_fold_ascii_def)
qed

end
