(* ===== verification/Http_Api.thy ===== *)
theory Http_Api
  imports Httpx Collab Auth
begin

text \<open>
  The handlers of \<open>internal/*/adapter/httpapi\<close> and \<open>internal/platform/health\<close>. A handler parses what it needs of the
  request, calls one operation of a service and writes its result, or the status its package gives the error, as JSON.
  The six packages have the same helpers (\<open>decodeJSON\<close>, \<open>writeJSON\<close>, \<open>writeError\<close>), defined once here. \<open>encoding/json\<close> is a
  parameter, as are the instants, random bytes and identifiers a request draws.
\<close>

section \<open>Bodies\<close>

datatype payload =
    ErrorBody string
  | HealthBody string "(string, string) gomap"
  | AuthBody user_dto token_pair
  | TokensBody token_pair
  | UserBody user_dto
  | ProjectBody project_dto
  | ProjectsBody "project_dto list" string
  | MemberBody member_dto
  | MembersBody "member_dto list" string
  | UploadBody recording_dto string
  | RecordingBody recording_dto
  | ReportsBody "report_dto list" string
  | DetailBody detail_dto
  | ShareBody share_dto
  | SharesBody "share_dto list" string
  | PublicBody public_view
  | CommentBody comment_dto
  | CommentsBody "comment_dto list" string

text \<open>
  The decoders of the request types. \<open>Decode\<close> reads one value and refuses unknown fields; the handler that creates a
  share drops its error, so \<open>js_share\<close> gives what is then in \<open>ExpiresInSeconds\<close>.
\<close>

record 'z web =
  wb_lib :: "'z golib_scheme"
  wb_enc :: "payload \<Rightarrow> err + string"
  wb_marshal :: "event_data \<Rightarrow> err + string"
  js_register :: "bytes \<Rightarrow> err + (string \<times> string \<times> string)"
  js_login :: "bytes \<Rightarrow> err + (string \<times> string)"
  js_refresh :: "bytes \<Rightarrow> err + string"
  js_project :: "bytes \<Rightarrow> err + string"
  js_member :: "bytes \<Rightarrow> err + (string \<times> string)"
  js_recording :: "bytes \<Rightarrow> err + (string \<times> string \<times> bytes)"
  js_share :: "bytes \<Rightarrow> int option"
  js_comment :: "bytes \<Rightarrow> err + string"
  ev_uploaded :: "uploaded_event \<Rightarrow> err + bytes"
  ev_share :: "share_event \<Rightarrow> err + bytes"
  ev_comment :: "comment_created_event \<Rightarrow> bytes"

text \<open>A body over the limit ends with an error for the decoder, as a body cut off there does.\<close>

definition request_body :: "request \<Rightarrow> bytes" where
  "request_body r = (case rq_BodyLimit r of None \<Rightarrow> rq_Body r | Some n \<Rightarrow> take (nat n) (rq_Body r))"

definition decodeJSON :: "(bytes \<Rightarrow> err + 'a) \<Rightarrow> request \<Rightarrow> err + 'a" where
  "decodeJSON dec r = dec (request_body r)"

definition writeJSON :: "'z web \<Rightarrow> int \<Rightarrow> payload \<Rightarrow> response \<Rightarrow> response" where
  "writeJSON W code body w =
     (let w1 = write_header code (set_header ''Content-Type'' ''application/json'' w)
      in case wb_enc W body of Inl _ \<Rightarrow> w1 | Inr t \<Rightarrow> write_body (t @ [CHR 0x0A]) w1)"

definition writeError :: "'z web \<Rightarrow> int \<Rightarrow> string \<Rightarrow> response \<Rightarrow> response" where
  "writeError W code msg = writeJSON W code (ErrorBody msg)"

text \<open>A panic is recovered by \<open>net/http\<close>, which drops the connection.\<close>

fun panics :: "err \<Rightarrow> bool" where
  "panics (ErrPanic m) \<longleftrightarrow> True"
| "panics e \<longleftrightarrow> False"

definition reply ::
    "'z web \<Rightarrow> (err \<Rightarrow> int \<times> string) \<Rightarrow> ('a \<Rightarrow> response \<Rightarrow> response) \<Rightarrow> ('s, 'a) op \<Rightarrow> response \<Rightarrow> 's \<Rightarrow> response \<times> 's" where
  "reply W status ok call w s =
     (case call s of
        (Inl e, s') \<Rightarrow>
          (if panics e then w\<lparr>rw_Aborted := True\<rparr> else (case status e of (code, msg) \<Rightarrow> writeError W code msg w), s')
      | (Inr a, s') \<Rightarrow> (ok a w, s'))"

text \<open>The three things handlers begin with: the user of the context, an identifier in the path, a JSON body.\<close>

definition with_user :: "'z web \<Rightarrow> (uuid \<Rightarrow> 's handler) \<Rightarrow> 's handler" where
  "with_user W k r w s = (case rq_User r of None \<Rightarrow> (writeError W 401 ''unauthorized'' w, s) | Some uid \<Rightarrow> k uid r w s)"

definition with_id :: "'z web \<Rightarrow> string \<Rightarrow> string \<Rightarrow> (uuid \<Rightarrow> 's handler) \<Rightarrow> 's handler" where
  "with_id W name msg k r w s =
     (case uuid_parse (wb_lib W) (rq_PathValue r name) of Inl _ \<Rightarrow> (writeError W 400 msg w, s) | Inr i \<Rightarrow> k i r w s)"

definition with_json :: "'z web \<Rightarrow> (bytes \<Rightarrow> err + 'a) \<Rightarrow> ('a \<Rightarrow> 's handler) \<Rightarrow> 's handler" where
  "with_json W dec k r w s =
     (case decodeJSON dec r of Inl _ \<Rightarrow> (writeError W 400 ''invalid json'' w, s) | Inr a \<Rightarrow> k a r w s)"

definition page_of :: "request \<Rightarrow> limits \<Rightarrow> page_order \<Rightarrow> page" where
  "page_of r = parse_page (rq_Query r ''limit'') (rq_Query r ''cursor'')"

section \<open>Sign-in\<close>

definition auth_status :: "err \<Rightarrow> int \<times> string" where
  "auth_status e =
     (if errors_is e ErrInvalidEmail \<or> errors_is e ErrInvalidPassword then (400, err_msg e)
      else if errors_is e ErrEmailTaken then (409, err_msg e)
      else if errors_is e ErrInvalidCredentials \<or> errors_is e ErrUnauthorized then (401, ''unauthorized'')
      else if errors_is e (ErrNotFound Auth) then (404, ''not found'')
      else (500, ''internal error''))"

definition auth_Register ::
    "'z web \<Rightarrow> 's auth_service \<Rightarrow> err + bytes \<Rightarrow> go_time \<Rightarrow> uuid \<Rightarrow> draws \<Rightarrow> 's handler" where
  "auth_Register W S salt now u d =
     with_json W (js_register W) (\<lambda>(email, password, name) r.
       reply W auth_status (\<lambda>(user, tokens). writeJSON W 201 (AuthBody user tokens))
         (aus_Register (wb_lib W) S salt now u d email password name))"

definition auth_Login :: "'z web \<Rightarrow> 's auth_service \<Rightarrow> draws \<Rightarrow> 's handler" where
  "auth_Login W S d =
     with_json W (js_login W) (\<lambda>(email, password) r.
       reply W auth_status (\<lambda>(user, tokens). writeJSON W 200 (AuthBody user tokens))
         (aus_Login (wb_lib W) S d email password))"

definition auth_Refresh :: "'z web \<Rightarrow> 's auth_service \<Rightarrow> draws \<Rightarrow> 's handler" where
  "auth_Refresh W S d =
     with_json W (js_refresh W) (\<lambda>token r.
       reply W auth_status (\<lambda>tokens. writeJSON W 200 (TokensBody tokens)) (aus_Refresh (wb_lib W) S d token))"

text \<open>The error of \<open>Logout\<close> is dropped.\<close>

definition auth_Logout :: "'z web \<Rightarrow> 's auth_service \<Rightarrow> go_time \<Rightarrow> go_time \<Rightarrow> 's handler" where
  "auth_Logout W S now now' =
     with_json W (js_refresh W) (\<lambda>token r w s. (write_header 204 w, snd (aus_Logout (wb_lib W) S now now' token s)))"

definition auth_Me :: "'z web \<Rightarrow> 's auth_service \<Rightarrow> 's handler" where
  "auth_Me W S = with_user W (\<lambda>uid r. reply W auth_status (\<lambda>user. writeJSON W 200 (UserBody user)) (aus_Me S uid))"

definition bearerToken :: "request \<Rightarrow> string" where
  "bearerToken r =
     (let header = rq_Header r ''Authorization''
      in if has_prefix header ''Bearer '' then trim_space (drop (length ''Bearer '') header)
         else if suffix ''/events'' (rq_Path r) then trim_space (rq_Query r ''access_token'')
         else [])"

text \<open>\<open>now\<close> is the clock the token manager reads.\<close>

definition RequireAccess :: "'z web \<Rightarrow> 's auth_service \<Rightarrow> go_time \<Rightarrow> 's handler \<Rightarrow> 's handler" where
  "RequireAccess W S now nxt r w s =
     (let raw = bearerToken r
      in if raw = [] then (writeError W 401 ''unauthorized'' w, s)
         else case aus_ParseAccess S now raw of
           Inl _ \<Rightarrow> (writeError W 401 ''unauthorized'' w, s)
         | Inr (uid, _) \<Rightarrow> nxt (r\<lparr>rq_User := Some uid\<rparr>) w s)"

section \<open>Projects\<close>

definition projects_status :: "err \<Rightarrow> int \<times> string" where
  "projects_status e =
     (if errors_is e ErrInvalidName \<or> errors_is e ErrInvalidRole then (400, err_msg e)
      else if errors_is e (ErrNotFound Projects) then (404, ''not found'')
      else if errors_is e (ErrForbidden Projects) then (403, ''forbidden'')
      else if errors_is e ErrAlreadyMember \<or> errors_is e ErrLastOwner then (409, err_msg e)
      else (500, ''internal error''))"

definition projects_Create :: "'z web \<Rightarrow> 's projects_service \<Rightarrow> go_time \<Rightarrow> uuid \<Rightarrow> go_time \<Rightarrow> 's handler" where
  "projects_Create W S now fresh now' =
     with_user W (\<lambda>uid. with_json W (js_project W) (\<lambda>name r.
       reply W projects_status (\<lambda>p. writeJSON W 201 (ProjectBody p)) (prs_Create S uid name now fresh now')))"

definition projects_List :: "'z web \<Rightarrow> 's projects_service \<Rightarrow> 's handler" where
  "projects_List W S =
     with_user W (\<lambda>uid r.
       reply W projects_status (\<lambda>res. writeJSON W 200 (ProjectsBody (res_Items res) (res_NextCursor res)))
         (prs_List S uid (page_of r (prs_ListLimits S) Desc)))"

definition projects_Get :: "'z web \<Rightarrow> 's projects_service \<Rightarrow> 's handler" where
  "projects_Get W S =
     with_user W (\<lambda>uid. with_id W ''id'' ''invalid project id'' (\<lambda>pid r.
       reply W projects_status (\<lambda>p. writeJSON W 200 (ProjectBody p)) (prs_Get S uid pid)))"

definition projects_Update :: "'z web \<Rightarrow> 's projects_service \<Rightarrow> go_time \<Rightarrow> 's handler" where
  "projects_Update W S now =
     with_user W (\<lambda>uid. with_id W ''id'' ''invalid project id'' (\<lambda>pid. with_json W (js_project W) (\<lambda>name r.
       reply W projects_status (\<lambda>p. writeJSON W 200 (ProjectBody p)) (prs_Update S uid pid name now))))"

definition projects_Delete :: "'z web \<Rightarrow> 's projects_service \<Rightarrow> 's handler" where
  "projects_Delete W S =
     with_user W (\<lambda>uid. with_id W ''id'' ''invalid project id'' (\<lambda>pid r.
       reply W projects_status (\<lambda>_. write_header 204) (prs_Delete (wb_lib W) S uid pid)))"

definition projects_ListMembers :: "'z web \<Rightarrow> 's projects_service \<Rightarrow> 's handler" where
  "projects_ListMembers W S =
     with_user W (\<lambda>uid. with_id W ''id'' ''invalid project id'' (\<lambda>pid r.
       reply W projects_status (\<lambda>res. writeJSON W 200 (MembersBody (res_Items res) (res_NextCursor res)))
         (prs_ListMembers S uid pid (page_of r (prs_ListLimits S) Asc))))"

definition projects_AddMember :: "'z web \<Rightarrow> 's projects_service \<Rightarrow> go_time \<Rightarrow> 's handler" where
  "projects_AddMember W S now =
     with_user W (\<lambda>uid. with_id W ''id'' ''invalid project id'' (\<lambda>pid. with_json W (js_member W) (\<lambda>(userID, role0) r w s.
       case uuid_parse (wb_lib W) userID of
         Inl _ \<Rightarrow> (writeError W 400 ''invalid user_id'' w, s)
       | Inr memberID \<Rightarrow>
           reply W projects_status (\<lambda>m. writeJSON W 201 (MemberBody m))
             (prs_AddMember (wb_lib W) S uid pid memberID (if role0 = [] then ''member'' else role0) now) w s)))"

definition projects_RemoveMember :: "'z web \<Rightarrow> 's projects_service \<Rightarrow> 's handler" where
  "projects_RemoveMember W S =
     with_user W (\<lambda>uid. with_id W ''id'' ''invalid project id'' (\<lambda>pid. with_id W ''userID'' ''invalid user id'' (\<lambda>memberID r.
       reply W projects_status (\<lambda>_. write_header 204) (prs_RemoveMember S uid pid memberID))))"

section \<open>Uploads\<close>

definition uploads_status :: "err \<Rightarrow> int \<times> string" where
  "uploads_status e =
     (if errors_is e (ErrInvalidInput Uploads) \<or> errors_is e ErrIllegalTransition \<or> errors_is e ErrContentTypeMismatch
      then (400, err_msg e)
      else if errors_is e ErrObjectTooLarge then (413, err_msg e)
      else if errors_is e (ErrNotFound Uploads) \<or> errors_is e ErrObjectMissing then (404, err_msg e)
      else if errors_is e (ErrForbidden Uploads) then (403, ''forbidden'')
      else (500, ''internal error''))"

definition uploads_Create :: "'z web \<Rightarrow> 's upload_service \<Rightarrow> uuid \<Rightarrow> go_time \<Rightarrow> 's handler" where
  "uploads_Create W S fresh now =
     with_user W (\<lambda>uid. with_id W ''projectID'' ''invalid project id'' (\<lambda>projectID.
     with_json W (js_recording W) (\<lambda>(contentType, filename, metadata) r.
       reply W uploads_status (\<lambda>res. writeJSON W 201 (UploadBody (recording_toDTO (cr_Recording res)) (cr_UploadURL res)))
         (ups_Create (wb_lib W) S
            \<lparr>ci_ProjectID = projectID, ci_UserID = uid, ci_ContentType = contentType, ci_Filename = filename,
             ci_Metadata = metadata, ci_CorrelationID = rq_Header r ''X-Correlation-Id''\<rparr>
            (correlation_id_from_ctx (rq_Ctx r)) fresh now))))"

abbreviation with_recording :: "'z web \<Rightarrow> (uuid \<Rightarrow> uuid \<Rightarrow> uuid \<Rightarrow> 's handler) \<Rightarrow> 's handler" where
  "with_recording W k \<equiv>
     with_user W (\<lambda>uid. with_id W ''projectID'' ''invalid project id'' (\<lambda>projectID.
       with_id W ''id'' ''invalid recording id'' (\<lambda>i. k uid projectID i)))"

definition uploads_Complete :: "'z web \<Rightarrow> 's upload_service \<Rightarrow> go_time \<Rightarrow> go_time \<Rightarrow> 's handler" where
  "uploads_Complete W S now now' =
     with_recording W (\<lambda>uid projectID i r.
       reply W uploads_status (\<lambda>dto. writeJSON W 200 (RecordingBody dto))
         (ups_Complete (wb_lib W) (ev_uploaded W) S uid projectID i now now'))"

definition uploads_Get :: "'z web \<Rightarrow> 's upload_service \<Rightarrow> 's handler" where
  "uploads_Get W S =
     with_recording W (\<lambda>uid projectID i r.
       reply W uploads_status (\<lambda>dto. writeJSON W 200 (RecordingBody dto)) (ups_Get S uid projectID i))"

definition uploads_Reprocess :: "'z web \<Rightarrow> 's upload_service \<Rightarrow> go_time \<Rightarrow> 's handler" where
  "uploads_Reprocess W S now =
     with_recording W (\<lambda>uid projectID i r.
       reply W uploads_status (\<lambda>dto. writeJSON W 202 (RecordingBody dto))
         (ups_Reprocess (wb_lib W) (ev_uploaded W) S uid projectID i now))"

definition uploads_Delete :: "'z web \<Rightarrow> 's upload_service \<Rightarrow> 's handler" where
  "uploads_Delete W S =
     with_recording W (\<lambda>uid projectID i r.
       reply W uploads_status (\<lambda>_. write_header 204) (ups_Delete (wb_lib W) S uid projectID i))"

section \<open>Reports\<close>

definition reports_status :: "err \<Rightarrow> int \<times> string" where
  "reports_status e =
     (if errors_is e (ErrNotFound Reports) then (404, ''not found'')
      else if errors_is e (ErrForbidden Reports) then (403, ''forbidden'')
      else (500, ''internal error''))"

definition reports_ids :: "'z web \<Rightarrow> (uuid \<Rightarrow> uuid \<Rightarrow> 's handler) \<Rightarrow> 's handler" where
  "reports_ids W k = with_user W (\<lambda>uid. with_id W ''projectID'' ''invalid project id'' (k uid))"

definition reports_List :: "'z web \<Rightarrow> 's reports_service \<Rightarrow> 's handler" where
  "reports_List W S =
     reports_ids W (\<lambda>uid projectID r.
       reply W reports_status (\<lambda>res. writeJSON W 200 (ReportsBody (res_Items res) (res_NextCursor res)))
         (rps_List S uid projectID (page_of r (rps_ListLimits S) Desc)))"

definition reports_Get :: "'z web \<Rightarrow> 's reports_service \<Rightarrow> go_time \<Rightarrow> go_time \<Rightarrow> 's handler" where
  "reports_Get W S now now' =
     reports_ids W (\<lambda>uid projectID. with_id W ''id'' ''invalid report id'' (\<lambda>reportID r.
       reply W reports_status (\<lambda>d. writeJSON W 200 (DetailBody d)) (rps_Get S now now' uid projectID reportID)))"

definition reports_GetByRecording :: "'z web \<Rightarrow> 's reports_service \<Rightarrow> go_time \<Rightarrow> 's handler" where
  "reports_GetByRecording W S now =
     reports_ids W (\<lambda>uid projectID. with_id W ''recordingID'' ''invalid recording id'' (\<lambda>recordingID r.
       reply W reports_status (\<lambda>d. writeJSON W 200 (DetailBody d)) (rps_GetByRecording S now uid projectID recordingID)))"

section \<open>Shares\<close>

definition shares_status :: "err \<Rightarrow> int \<times> string" where
  "shares_status e =
     (if errors_is e (ErrInvalidInput Sharing) then (400, err_msg e)
      else if errors_is e (ErrNotFound Sharing) then (404, ''not found'')
      else if errors_is e (ErrForbidden Sharing) then (403, ''forbidden'')
      else if errors_is e ErrReportNotReady then (409, err_msg e)
      else if errors_is e ErrShareInactive then (410, ''share link expired or revoked'')
      else (500, ''internal error''))"

definition authProject :: "'z web \<Rightarrow> (uuid \<Rightarrow> uuid \<Rightarrow> 's handler) \<Rightarrow> 's handler" where
  "authProject W k = with_user W (\<lambda>uid. with_id W ''projectID'' ''invalid project id'' (k uid))"

definition shares_Create ::
    "'z web \<Rightarrow> 's sharing_service \<Rightarrow> err + bytes \<Rightarrow> go_time \<Rightarrow> go_time \<Rightarrow> uuid \<Rightarrow> 's handler" where
  "shares_Create W S random now now' i =
     authProject W (\<lambda>uid projectID. with_id W ''reportID'' ''invalid report id'' (\<lambda>reportID r.
       reply W shares_status (\<lambda>d. writeJSON W 201 (ShareBody d))
         (shs_Create (wb_lib W) (ev_share W) S random now now' i uid projectID reportID
            (handler_expiry (js_share W (request_body r))))))"

definition shares_List :: "'z web \<Rightarrow> 's sharing_service \<Rightarrow> 's handler" where
  "shares_List W S =
     authProject W (\<lambda>uid projectID. with_id W ''reportID'' ''invalid report id'' (\<lambda>reportID r.
       reply W shares_status (\<lambda>res. writeJSON W 200 (SharesBody (res_Items res) (res_NextCursor res)))
         (shs_List S uid projectID reportID (page_of r (shs_ListLimits S) Desc))))"

definition shares_Revoke :: "'z web \<Rightarrow> 's sharing_service \<Rightarrow> go_time \<Rightarrow> 's handler" where
  "shares_Revoke W S now =
     authProject W (\<lambda>uid projectID. with_id W ''shareID'' ''invalid share id'' (\<lambda>shareID r.
       reply W shares_status (\<lambda>_. write_header 204) (shs_Revoke S now uid projectID shareID)))"

definition shares_PublicGet :: "'z web \<Rightarrow> 's sharing_service \<Rightarrow> go_time \<Rightarrow> 's handler" where
  "shares_PublicGet W S now r =
     reply W shares_status (\<lambda>v. writeJSON W 200 (PublicBody v)) (shs_PublicGet (wb_lib W) S now (rq_PathValue r ''token''))"

section \<open>Comments and event streams\<close>

definition collab_status :: "err \<Rightarrow> int \<times> string" where
  "collab_status e =
     (if errors_is e (ErrInvalidInput Collab) then (400, err_msg e)
      else if errors_is e (ErrNotFound Collab) then (404, ''not found'')
      else if errors_is e (ErrForbidden Collab) then (403, ''forbidden'')
      else (500, ''internal error''))"

definition authScope :: "'z web \<Rightarrow> (uuid \<Rightarrow> uuid \<Rightarrow> uuid \<Rightarrow> 's handler) \<Rightarrow> 's handler" where
  "authScope W k =
     with_user W (\<lambda>uid. with_id W ''projectID'' ''invalid project id'' (\<lambda>projectID.
       with_id W ''reportID'' ''invalid report id'' (k uid projectID)))"

definition collab_CreateComment :: "'z web \<Rightarrow> 's collab_service \<Rightarrow> go_time \<Rightarrow> uuid \<Rightarrow> 's handler" where
  "collab_CreateComment W S now fresh =
     authScope W (\<lambda>uid projectID reportID. with_json W (js_comment W) (\<lambda>body r.
       reply W collab_status (\<lambda>c. writeJSON W 201 (CommentBody c))
         (cos_CreateComment (wb_lib W) (ev_comment W) S now fresh uid projectID reportID body)))"

definition collab_ListComments :: "'z web \<Rightarrow> 's collab_service \<Rightarrow> 's handler" where
  "collab_ListComments W S =
     authScope W (\<lambda>uid projectID reportID r.
       reply W collab_status (\<lambda>res. writeJSON W 200 (CommentsBody (res_Items res) (res_NextCursor res)))
         (cos_ListComments S uid projectID reportID (page_of r (cos_ListLimits S) Asc)))"

text \<open>
  The loop of \<open>Events\<close>. A round says what else happened before it, which case \<open>select\<close> took and whether the connection took
  the bytes. The result says whether the loop has ended; after the given rounds it may still be waiting.
\<close>

datatype sse_case = SseDone | SseTick | SseEvent "stream_event option"

type_synonym 's sse_round = "('s \<Rightarrow> sse_case \<times> 's) \<times> bool"

definition sse_frame :: "string \<Rightarrow> string \<Rightarrow> string" where
  "sse_frame kind body = ''event: '' @ kind @ [CHR 0x0A] @ ''data: '' @ body @ [CHR 0x0A, CHR 0x0A]"

fun sse_loop :: "'z web \<Rightarrow> 's sse_round list \<Rightarrow> response \<Rightarrow> 's \<Rightarrow> bool \<times> response \<times> 's" where
  "sse_loop W [] w s = (False, w, s)"
| "sse_loop W ((select, sent) # rounds) w s =
     (case select s of
        (SseDone, s') \<Rightarrow> (True, w, s')
      | (SseTick, s') \<Rightarrow>
          if sent then sse_loop W rounds (write_body (sse_frame EventHeartbeat ''{}'') w) s' else (True, w, s')
      | (SseEvent None, s') \<Rightarrow> (True, w, s')
      | (SseEvent (Some ev), s') \<Rightarrow>
          (case wb_marshal W (sev_Data ev) of
             Inl _ \<Rightarrow> sse_loop W rounds w s'
           | Inr payload \<Rightarrow>
               if sent then sse_loop W rounds (write_body (sse_frame (sev_Type ev) payload) w) s' else (True, w, s')))"

definition sse_headers :: "response \<Rightarrow> response" where
  "sse_headers w =
     write_header 200 (set_header ''Connection'' ''keep-alive'' (set_header ''Cache-Control'' ''no-cache''
       (set_header ''Content-Type'' ''text/event-stream'' w)))"

text \<open>
  The writers in front of the handler all flush. \<open>rounds\<close> depends on the channel; the unsubscription is deferred to the end of the loop.
\<close>

definition collab_Events :: "'z web \<Rightarrow> 's collab_service \<Rightarrow> (chan \<Rightarrow> 's sse_round list) \<Rightarrow> 's handler" where
  "collab_Events W S rounds =
     authScope W (\<lambda>uid projectID reportID r w s.
       case cos_Subscribe S uid projectID reportID s of
         (Inl e, s') \<Rightarrow> reply W collab_status (\<lambda>_ w. w) (\<lambda>_. (Inl e :: err + unit, s')) w s
       | (Inr ch, s') \<Rightarrow>
           (case sse_loop W (rounds ch) (sse_headers w) s' of
              (ended, w', s'') \<Rightarrow> (w', if ended then snd (eh_Unsubscribe (co_hub S) reportID ch s'') else s'')))"

section \<open>Health\<close>

definition health_Healthz :: "'z web \<Rightarrow> 's handler" where
  "health_Healthz W r w s = (writeJSON W 200 (HealthBody ''ok'' []) w, s)"

definition health_Readyz :: "'z web \<Rightarrow> bool \<Rightarrow> 's handler" where
  "health_Readyz W ready r w s =
     (if \<not> ready then (writeJSON W 503 (HealthBody ''not_ready'' []) w, s) else (writeJSON W 200 (HealthBody ''ready'' []) w, s))"

definition WriteReady :: "'z web \<Rightarrow> bool \<Rightarrow> (string, string) gomap \<Rightarrow> response \<Rightarrow> response" where
  "WriteReady W ready checks =
     (if \<not> ready then writeJSON W 503 (HealthBody ''not_ready'' checks) else writeJSON W 200 (HealthBody ''ready'' checks))"

text \<open>\<open>GET /readyz\<close> of \<open>cmd/api\<close>: what the pings of PostgreSQL and of Redis, where there is one, give.\<close>

definition api_readyz :: "'z web \<Rightarrow> ('s, unit) op \<Rightarrow> ('s, unit) op option \<Rightarrow> 's handler" where
  "api_readyz W pool_Ping redis_Ping r w s =
     (case pool_Ping s of
        (Inl _, s1) \<Rightarrow> (WriteReady W False (m_set ''postgres'' ''down'' []) w, s1)
      | (Inr _, s1) \<Rightarrow>
          (case redis_Ping of
             None \<Rightarrow> (WriteReady W True (m_set ''postgres'' ''up'' []) w, s1)
           | Some ping \<Rightarrow>
               (case ping s1 of
                  (Inl _, s2) \<Rightarrow> (WriteReady W False (m_set ''redis'' ''down'' (m_set ''postgres'' ''up'' [])) w, s2)
                | (Inr _, s2) \<Rightarrow> (WriteReady W True (m_set ''redis'' ''up'' (m_set ''postgres'' ''up'' [])) w, s2))))"

end
