(* ===== verification/Http_Routes.thy ===== *)
theory Http_Routes
  imports Http_Api
begin

text \<open>
  The routes of the API: \<open>http.ServeMux\<close> as far as the patterns of the program use it, the \<open>RegisterRoutes\<close> of the six packages
  and the multiplexer \<open>cmd/api/main.go\<close> puts together, with what a request without a valid token can reach.
\<close>

section \<open>Patterns\<close>

text \<open>A pattern is \<open>METHOD /a/{x}\<close>; one that ends in a slash matches every longer path.\<close>

datatype seg = Lit string | Wild string | Rest

record 's route =
  ro_Method :: string
  ro_Segs :: "seg list"
  ro_Handler :: "'s handler"

fun hex_val :: "char \<Rightarrow> nat option" where
  "hex_val c = (let n = of_char c :: nat in
     if 48 \<le> n \<and> n \<le> 57 then Some (n - 48)
     else if 97 \<le> n \<and> n \<le> 102 then Some (n - 87)
     else if 65 \<le> n \<and> n \<le> 70 then Some (n - 55) else None)"

text \<open>\<open>url.PathUnescape\<close>; the multiplexer keeps a segment it cannot decode.\<close>

fun path_unescape :: "string \<Rightarrow> string option" where
  "path_unescape [] = Some []"
| "path_unescape (c # cs) =
     (if c = CHR ''%'' then
        (case cs of
           h # l # rest \<Rightarrow>
             (case (hex_val h, hex_val l) of
                (Some a, Some b) \<Rightarrow> map_option ((#) (char_of (16 * a + b))) (path_unescape rest)
              | _ \<Rightarrow> None)
         | _ \<Rightarrow> None)
      else map_option ((#) c) (path_unescape cs))"

definition mux_unescape :: "string \<Rightarrow> string" where
  "mux_unescape s = (case path_unescape s of None \<Rightarrow> s | Some t \<Rightarrow> t)"

text \<open>The segments of a rooted path; a slash at its end is a segment of its own.\<close>

definition path_segs :: "string \<Rightarrow> string list" where
  "path_segs p =
     (let xs = split_byte (CHR ''/'') (drop 1 p)
      in if last xs = [] then map mux_unescape (butlast xs) @ [''/''] else map mux_unescape xs)"

fun match_segs :: "seg list \<Rightarrow> string list \<Rightarrow> (string \<times> string) list option" where
  "match_segs [] [] = Some []"
| "match_segs (Lit a # ps) (s # ss) = (if a = s then match_segs ps ss else None)"
| "match_segs (Wild x # ps) (s # ss) = (if s = ''/'' then None else map_option ((#) (x, s)) (match_segs ps ss))"
| "match_segs [Rest] (s # ss) = Some []"
| "match_segs _ _ = None"

text \<open>\<open>path.Clean\<close> on a rooted path, and \<open>cleanPath\<close>, which keeps a slash at the end.\<close>

fun clean_segs :: "string list \<Rightarrow> string list \<Rightarrow> string list" where
  "clean_segs acc [] = rev acc"
| "clean_segs acc (x # xs) =
     (if x = [] \<or> x = ''.'' then clean_segs acc xs
      else if x = ''..'' then clean_segs (drop 1 acc) xs
      else clean_segs (x # acc) xs)"

definition cleanPath :: "string \<Rightarrow> string" where
  "cleanPath p0 =
     (if p0 = [] then ''/''
      else let p = (if hd p0 = CHR ''/'' then p0 else CHR ''/'' # p0);
               xs = clean_segs [] (split_byte (CHR ''/'') p)
           in if xs = [] then ''/''
              else concat (map ((#) (CHR ''/'')) xs) @ (if last p = CHR ''/'' then ''/'' else []))"

section \<open>The multiplexer\<close>

definition method_match :: "string \<Rightarrow> string \<Rightarrow> bool" where
  "method_match meth pat \<longleftrightarrow> pat = meth \<or> meth = ''HEAD'' \<and> pat = ''GET''"

text \<open>
  Literals are tried before wildcards and these before the rest of a path; in the routes of the program the order of the
  list agrees with that.
\<close>

fun find_route :: "string \<Rightarrow> string list \<Rightarrow> 's route list \<Rightarrow> ('s route \<times> (string \<times> string) list) option" where
  "find_route meth segs [] = None"
| "find_route meth segs (ro # ros) =
     (case (if method_match meth (ro_Method ro) then match_segs (ro_Segs ro) segs else None) of
        Some vs \<Rightarrow> Some (ro, vs)
      | None \<Rightarrow> find_route meth segs ros)"

fun seg_text :: "seg \<Rightarrow> string" where
  "seg_text (Lit a) = ''/'' @ a"
| "seg_text (Wild x) = ''/{'' @ x @ ''}''"
| "seg_text Rest = ''/''"

definition pattern_text :: "'s route \<Rightarrow> string" where
  "pattern_text ro = ro_Method ro @ '' '' @ concat (map seg_text (ro_Segs ro))"

definition path_values :: "(string \<times> string) list \<Rightarrow> string \<Rightarrow> string" where
  "path_values vs x = (case map_of vs x of Some v \<Rightarrow> v | None \<Rightarrow> [])"

definition matching_methods :: "string list \<Rightarrow> 's route list \<Rightarrow> string list" where
  "matching_methods segs ros =
     (let ms = map ro_Method (filter (\<lambda>ro. match_segs (ro_Segs ro) segs \<noteq> None) ros)
      in sort (remdups (ms @ (if ''GET'' \<in> set ms then [''HEAD''] else []))))"

text \<open>A slash added to the path makes it a route that ends in one.\<close>

definition slash_route :: "string \<Rightarrow> string list \<Rightarrow> 's route list \<Rightarrow> bool" where
  "slash_route meth segs ros \<longleftrightarrow>
     last segs \<noteq> ''/'' \<and> (\<exists>ro\<in>set ros. method_match meth (ro_Method ro) \<and> ro_Segs ro = map Lit segs @ [Rest])"

definition redirected :: "response \<Rightarrow> response" where
  "redirected w = write_header 301 w"

fun join_comma :: "string list \<Rightarrow> string" where
  "join_comma [] = []"
| "join_comma [x] = x"
| "join_comma (x # xs) = x @ '', '' @ join_comma xs"

text \<open>
  \<open>ServeHTTP\<close> for a request that is not \<open>CONNECT\<close>. Of a redirection the location and the body are left out.
\<close>

definition mux_serve :: "'s route list \<Rightarrow> 's handler" where
  "mux_serve ros r w s =
     (let p = cleanPath (rq_EscapedPath r); segs = path_segs p
      in case find_route (rq_Method r) segs ros of
           Some (ro, vs) \<Rightarrow>
             if p \<noteq> rq_EscapedPath r then (redirected w, s)
             else ro_Handler ro (r\<lparr>rq_Pattern := pattern_text ro, rq_PathValue := path_values vs\<rparr>) w s
         | None \<Rightarrow>
             if slash_route (rq_Method r) segs ros \<or> p \<noteq> rq_EscapedPath r then (redirected w, s)
             else let allowed = matching_methods segs ros
                  in if allowed \<noteq> [] then
                       (http_error ''Method Not Allowed'' 405 (set_header ''Allow'' (join_comma allowed) w), s)
                     else (http_error ''404 page not found'' 404 w, s))"

section \<open>The routes\<close>

record 's api_services =
  sv_auth :: "'s auth_service"
  sv_projects :: "'s projects_service"
  sv_uploads :: "'s upload_service"
  sv_reports :: "'s reports_service"
  sv_shares :: "'s sharing_service"
  sv_collab :: "'s collab_service"

text \<open>What a request draws: the clock of the access check, the readings of a service's clock, identifiers, random bytes.\<close>

record 's request_draws =
  dq_access :: go_time
  dq_now :: go_time
  dq_now' :: go_time
  dq_id :: uuid
  dq_salt :: "err + bytes"
  dq_random :: "err + bytes"
  dq_pair :: draws
  dq_rounds :: "chan \<Rightarrow> 's sse_round list"

abbreviation route :: "string \<Rightarrow> seg list \<Rightarrow> 's handler \<Rightarrow> 's route" where
  "route m ps h \<equiv> \<lparr>ro_Method = m, ro_Segs = ps, ro_Handler = h\<rparr>"

definition auth_routes :: "'z web \<Rightarrow> 's api_services \<Rightarrow> 's request_draws \<Rightarrow> 's route list" where
  "auth_routes W V D =
     [route ''POST'' [Lit ''v1'', Lit ''auth'', Lit ''register'']
        (auth_Register W (sv_auth V) (dq_salt D) (dq_now D) (dq_id D) (dq_pair D)),
      route ''POST'' [Lit ''v1'', Lit ''auth'', Lit ''login''] (auth_Login W (sv_auth V) (dq_pair D)),
      route ''POST'' [Lit ''v1'', Lit ''auth'', Lit ''refresh''] (auth_Refresh W (sv_auth V) (dq_pair D)),
      route ''POST'' [Lit ''v1'', Lit ''auth'', Lit ''logout''] (auth_Logout W (sv_auth V) (dq_now D) (dq_now' D)),
      route ''GET'' [Lit ''v1'', Lit ''auth'', Lit ''me'']
        (RequireAccess W (sv_auth V) (dq_access D) (auth_Me W (sv_auth V)))]"

definition projects_routes ::
    "'z web \<Rightarrow> 's projects_service \<Rightarrow> 's request_draws \<Rightarrow> ('s handler \<Rightarrow> 's handler) \<Rightarrow> 's route list" where
  "projects_routes W S D protect =
     [route ''POST'' [Lit ''v1'', Lit ''projects''] (protect (projects_Create W S (dq_now D) (dq_id D) (dq_now' D))),
      route ''GET'' [Lit ''v1'', Lit ''projects''] (protect (projects_List W S)),
      route ''GET'' [Lit ''v1'', Lit ''projects'', Wild ''id''] (protect (projects_Get W S)),
      route ''PATCH'' [Lit ''v1'', Lit ''projects'', Wild ''id''] (protect (projects_Update W S (dq_now D))),
      route ''DELETE'' [Lit ''v1'', Lit ''projects'', Wild ''id''] (protect (projects_Delete W S)),
      route ''GET'' [Lit ''v1'', Lit ''projects'', Wild ''id'', Lit ''members''] (protect (projects_ListMembers W S)),
      route ''POST'' [Lit ''v1'', Lit ''projects'', Wild ''id'', Lit ''members''] (protect (projects_AddMember W S (dq_now D))),
      route ''DELETE'' [Lit ''v1'', Lit ''projects'', Wild ''id'', Lit ''members'', Wild ''userID'']
        (protect (projects_RemoveMember W S))]"

definition uploads_routes ::
    "'z web \<Rightarrow> 's upload_service \<Rightarrow> 's request_draws \<Rightarrow> ('s handler \<Rightarrow> 's handler) \<Rightarrow> 's route list" where
  "uploads_routes W S D protect =
     [route ''POST'' [Lit ''v1'', Lit ''projects'', Wild ''projectID'', Lit ''recordings'']
        (protect (uploads_Create W S (dq_id D) (dq_now D))),
      route ''GET'' [Lit ''v1'', Lit ''projects'', Wild ''projectID'', Lit ''recordings'', Wild ''id'']
        (protect (uploads_Get W S)),
      route ''POST'' [Lit ''v1'', Lit ''projects'', Wild ''projectID'', Lit ''recordings'', Wild ''id'', Lit ''complete'']
        (protect (uploads_Complete W S (dq_now D) (dq_now' D))),
      route ''POST'' [Lit ''v1'', Lit ''projects'', Wild ''projectID'', Lit ''recordings'', Wild ''id'', Lit ''reprocess'']
        (protect (uploads_Reprocess W S (dq_now D))),
      route ''DELETE'' [Lit ''v1'', Lit ''projects'', Wild ''projectID'', Lit ''recordings'', Wild ''id'']
        (protect (uploads_Delete W S))]"

definition reports_routes ::
    "'z web \<Rightarrow> 's reports_service \<Rightarrow> 's request_draws \<Rightarrow> ('s handler \<Rightarrow> 's handler) \<Rightarrow> 's route list" where
  "reports_routes W S D protect =
     [route ''GET'' [Lit ''v1'', Lit ''projects'', Wild ''projectID'', Lit ''reports''] (protect (reports_List W S)),
      route ''GET'' [Lit ''v1'', Lit ''projects'', Wild ''projectID'', Lit ''reports'', Wild ''id'']
        (protect (reports_Get W S (dq_now D) (dq_now' D))),
      route ''GET'' [Lit ''v1'', Lit ''projects'', Wild ''projectID'', Lit ''recordings'', Wild ''recordingID'', Lit ''report'']
        (protect (reports_GetByRecording W S (dq_now D)))]"

definition shares_routes ::
    "'z web \<Rightarrow> 's sharing_service \<Rightarrow> 's request_draws \<Rightarrow> ('s handler \<Rightarrow> 's handler) \<Rightarrow> 's route list" where
  "shares_routes W S D protect =
     [route ''POST'' [Lit ''v1'', Lit ''projects'', Wild ''projectID'', Lit ''reports'', Wild ''reportID'', Lit ''shares'']
        (protect (shares_Create W S (dq_random D) (dq_now D) (dq_now' D) (dq_id D))),
      route ''GET'' [Lit ''v1'', Lit ''projects'', Wild ''projectID'', Lit ''reports'', Wild ''reportID'', Lit ''shares'']
        (protect (shares_List W S)),
      route ''DELETE'' [Lit ''v1'', Lit ''projects'', Wild ''projectID'', Lit ''shares'', Wild ''shareID'']
        (protect (shares_Revoke W S (dq_now D))),
      route ''GET'' [Lit ''s'', Wild ''token''] (shares_PublicGet W S (dq_now D))]"

definition collab_routes ::
    "'z web \<Rightarrow> 's collab_service \<Rightarrow> 's request_draws \<Rightarrow> ('s handler \<Rightarrow> 's handler) \<Rightarrow> 's route list" where
  "collab_routes W S D protect =
     [route ''POST'' [Lit ''v1'', Lit ''projects'', Wild ''projectID'', Lit ''reports'', Wild ''reportID'', Lit ''comments'']
        (protect (collab_CreateComment W S (dq_now D) (dq_id D))),
      route ''GET'' [Lit ''v1'', Lit ''projects'', Wild ''projectID'', Lit ''reports'', Wild ''reportID'', Lit ''comments'']
        (protect (collab_ListComments W S)),
      route ''GET'' [Lit ''v1'', Lit ''projects'', Wild ''projectID'', Lit ''reports'', Wild ''reportID'', Lit ''events'']
        (protect (collab_Events W S (dq_rounds D)))]"

text \<open>The handlers of \<open>net/http/pprof\<close> are parameters, by their names.\<close>

definition pprof_routes :: "(string \<Rightarrow> 's handler) \<Rightarrow> 's route list" where
  "pprof_routes prof =
     map (\<lambda>x. route ''GET'' [Lit ''debug'', Lit ''pprof'', Lit x] (prof x))
       [''cmdline'', ''profile'', ''symbol'', ''trace'', ''heap'', ''goroutine'', ''allocs'', ''block'', ''mutex'', ''threadcreate'']
     @ [route ''GET'' [Lit ''debug'', Lit ''pprof'', Rest] (prof [])]"

text \<open>Of \<open>main\<close>: the probes, the metrics and, if they are on, the profiles; then the packages, all but sign-in behind \<open>protect\<close>.\<close>

record 's api_probes =
  ap_pool_Ping :: "('s, unit) op"
  ap_redis_Ping :: "('s, unit) op option"
  ap_metrics :: "'s handler"
  ap_pprof :: "(string \<Rightarrow> 's handler) option"

definition probe_routes :: "'z web \<Rightarrow> 's api_probes \<Rightarrow> 's route list" where
  "probe_routes W P =
     [route ''GET'' [Lit ''healthz''] (health_Healthz W),
      route ''GET'' [Lit ''readyz''] (api_readyz W (ap_pool_Ping P) (ap_redis_Ping P)),
      route ''GET'' [Lit ''metrics''] (ap_metrics P)]
     @ (case ap_pprof P of None \<Rightarrow> [] | Some prof \<Rightarrow> pprof_routes prof)"

definition api_routes :: "'z web \<Rightarrow> 's api_services \<Rightarrow> 's api_probes \<Rightarrow> 's request_draws \<Rightarrow> 's route list" where
  "api_routes W V P D =
     (let protect = RequireAccess W (sv_auth V) (dq_access D)
      in probe_routes W P @ auth_routes W V D
         @ projects_routes W (sv_projects V) D protect
         @ uploads_routes W (sv_uploads V) D protect
         @ reports_routes W (sv_reports V) D protect
         @ shares_routes W (sv_shares V) D protect
         @ collab_routes W (sv_collab V) D protect)"

definition api_mux :: "'z web \<Rightarrow> 's api_services \<Rightarrow> 's api_probes \<Rightarrow> 's request_draws \<Rightarrow> 's handler" where
  "api_mux W V P D = mux_serve (api_routes W V P D)"

section \<open>What a request reaches\<close>

definition public_route :: "string \<Rightarrow> string list \<Rightarrow> bool" where
  "public_route meth segs \<longleftrightarrow>
     meth = ''POST'' \<and> (\<exists>x\<in>{''register'', ''login'', ''refresh'', ''logout''}. segs = [''v1'', ''auth'', x])
     \<or> method_match meth ''GET''
       \<and> (segs \<in> {[''healthz''], [''readyz''], [''metrics'']} \<or> (\<exists>t. segs = [''s'', t]) \<or> take 2 segs = [''debug'', ''pprof''])"

lemma match_segs_simps [simp]:
  "match_segs (Lit a # ps) ss = Some vs \<longleftrightarrow> (\<exists>ss'. ss = a # ss' \<and> match_segs ps ss' = Some vs)"
  "match_segs (Wild x # ps) ss = Some vs \<longleftrightarrow>
     (\<exists>s ss' vs'. ss = s # ss' \<and> s \<noteq> ''/'' \<and> match_segs ps ss' = Some vs' \<and> vs = (x, s) # vs')"
  "match_segs [] ss = Some vs \<longleftrightarrow> ss = [] \<and> vs = []"
  by (cases ss; auto)+

lemma match_Rest [simp]: "match_segs [Rest] ss = Some vs \<longleftrightarrow> ss \<noteq> [] \<and> vs = []"
  by (cases ss) auto

lemma find_route_Some:
  "find_route m segs ros = Some (ro, vs) \<Longrightarrow>
     ro \<in> set ros \<and> method_match m (ro_Method ro) \<and> match_segs (ro_Segs ro) segs = Some vs"
  by (induction m segs ros rule: find_route.induct) (auto split: option.splits if_splits)

text \<open>What the patterns of the public routes look like.\<close>

definition public_pattern :: "'s route \<Rightarrow> bool" where
  "public_pattern ro \<longleftrightarrow>
     ro_Method ro = ''POST'' \<and> (\<exists>x\<in>{''register'', ''login'', ''refresh'', ''logout''}. ro_Segs ro = [Lit ''v1'', Lit ''auth'', Lit x])
     \<or> ro_Method ro = ''GET''
       \<and> (ro_Segs ro \<in> {[Lit ''healthz''], [Lit ''readyz''], [Lit ''metrics''], [Lit ''s'', Wild ''token'']}
          \<or> (\<exists>ps. ro_Segs ro = Lit ''debug'' # Lit ''pprof'' # ps))"

lemma public_pattern_matches:
  assumes "public_pattern ro" "method_match m (ro_Method ro)" "match_segs (ro_Segs ro) segs = Some vs"
  shows "public_route m segs"
proof -
  have post: "m = ''POST''" if "method_match m ''POST''" using that by (simp add: method_match_def)
  consider (post) x where "x \<in> {''register'', ''login'', ''refresh'', ''logout''}" "ro_Method ro = ''POST''" "ro_Segs ro = [Lit ''v1'', Lit ''auth'', Lit x]"
    | (probe) x where "x \<in> {''healthz'', ''readyz'', ''metrics''}" "ro_Method ro = ''GET''" "ro_Segs ro = [Lit x]"
    | (share) "ro_Method ro = ''GET''" "ro_Segs ro = [Lit ''s'', Wild ''token'']"
    | (pprof) ps where "ro_Method ro = ''GET''" "ro_Segs ro = Lit ''debug'' # Lit ''pprof'' # ps"
    using assms(1) unfolding public_pattern_def by blast
  then show ?thesis
  proof cases
    case post
    then have "m = ''POST''" "segs = [''v1'', ''auth'', x]" using assms(2,3) by (simp_all add: method_match_def)
    then show ?thesis using post(1) by (simp add: public_route_def)
  next
    case probe
    then have "segs = [x]" "method_match m ''GET''" using assms(2,3) by simp_all
    then show ?thesis using probe(1) by (auto simp: public_route_def)
  next
    case share
    then obtain t where "segs = [''s'', t]" "method_match m ''GET''" using assms(2,3) by auto
    then show ?thesis by (simp add: public_route_def)
  next
    case pprof
    then have "take 2 segs = [''debug'', ''pprof'']" "method_match m ''GET''" using assms(2,3) by auto
    then show ?thesis by (simp add: public_route_def)
  qed
qed

lemma pprof_public: "\<forall>ro\<in>set (pprof_routes prof). public_pattern ro"
  by (simp add: pprof_routes_def public_pattern_def)

lemma probes_public: "\<forall>ro\<in>set (probe_routes W P). public_pattern ro"
  by (cases "ap_pprof P") (simp_all add: probe_routes_def pprof_public, simp_all add: public_pattern_def)

lemma auth_guarded:
  "\<forall>ro\<in>set (auth_routes W V D). public_pattern ro \<or> (\<exists>h. ro_Handler ro = RequireAccess W (sv_auth V) (dq_access D) h)"
  by (simp add: auth_routes_def public_pattern_def) blast

lemma packages_guarded:
  "\<forall>ro\<in>set (projects_routes W S1 D protect). \<exists>h. ro_Handler ro = protect h"
  "\<forall>ro\<in>set (uploads_routes W S2 D protect). \<exists>h. ro_Handler ro = protect h"
  "\<forall>ro\<in>set (reports_routes W S3 D protect). \<exists>h. ro_Handler ro = protect h"
  "\<forall>ro\<in>set (shares_routes W S4 D protect). public_pattern ro \<or> (\<exists>h. ro_Handler ro = protect h)"
  "\<forall>ro\<in>set (collab_routes W S5 D protect). \<exists>h. ro_Handler ro = protect h"
  by (simp_all add: projects_routes_def uploads_routes_def reports_routes_def shares_routes_def collab_routes_def public_pattern_def) blast+

lemma guarded_or_public:
  assumes "ro \<in> set (api_routes W V P D)"
  shows "public_pattern ro \<or> (\<exists>h. ro_Handler ro = RequireAccess W (sv_auth V) (dq_access D) h)"
  using assms unfolding api_routes_def Let_def set_append Un_iff
  by (elim disjE) (drule bspec [OF probes_public] bspec [OF auth_guarded] bspec [OF packages_guarded(1)] bspec [OF packages_guarded(2)]
      bspec [OF packages_guarded(3)] bspec [OF packages_guarded(4)] bspec [OF packages_guarded(5)], iprover)+

lemma RequireAccess_refuses:
  "bearerToken r = [] \<or> isl (aus_ParseAccess S now (bearerToken r)) \<Longrightarrow>
   RequireAccess W S now h r w s = (writeError W 401 ''unauthorized'' w, s)"
  by (auto simp: RequireAccess_def Let_def isl_def)

lemma bearer_same [simp]: "bearerToken (r\<lparr>rq_Pattern := a, rq_PathValue := b\<rparr>) = bearerToken r"
  by (simp add: bearerToken_def Let_def)


text \<open>A request of a client that sends no header.\<close>

definition anonymous :: "string \<Rightarrow> string \<Rightarrow> request" where
  "anonymous meth path =
     \<lparr>rq_Method = meth, rq_Path = path, rq_EscapedPath = path, rq_Pattern = [], rq_RemoteAddr = [], rq_Header = (\<lambda>_. []),
      rq_Ctx = \<lparr>lx_request_id = None, lx_correlation_id = None, lx_recording_id = None\<rparr>, rq_User = None, rq_PathValue = (\<lambda>_. []),
      rq_Query = (\<lambda>_. []), rq_Body = [], rq_BodyLimit = None\<rparr>"


end
