(* ===== verification/Database.thy ===== *)
theory Database
  imports AI Auth Collab Media Projects Reports Sharing Uploads
begin

text \<open>
  The database behind the stores of \<open>internal/*/adapter/postgres\<close>: the tables of \<open>migrations/\<close>, the statements run through the
  pool, and transactions. PostgreSQL and the driver are not part of the repository; a statement of the program is translated to
  what SQL says it does to the tables, and anything else that can happen to it is a parameter: every statement takes a tick, which
  says whether it fails, what \<open>now()\<close> is, which identifier \<open>gen_random_uuid()\<close> gives, and which rows of the outbox another
  relay has locked.

  \<^item> A statement or a transaction that returns an error has had no effect. (A reply lost after the server committed is not modelled.)
  \<^item> Transactions run one after the other. What two of them do to each other is stated where it matters.
  \<^item> An instant is stored in microseconds: \<open>pg_time\<close>, which the driver rounds down to.
  \<^item> A \<open>jsonb\<close> column gives back a text that denotes the same value as the one stored; \<open>jsonb\<close> is that text, \<open>None\<close> where the
    text is not JSON.
\<close>

section \<open>Tables\<close>

text \<open>A recording's row also holds its processing claim.\<close>

record db_recording = recording +
  dbr_owner :: "string option"
  dbr_expires :: "go_time option"

record db_outbox =
  ob_id :: int
  ob_topic :: string
  ob_partition_key :: string
  ob_payload :: bytes
  ob_correlation_id :: string
  ob_created_at :: go_time
  ob_published_at :: "go_time option"

record db_attempt =
  at_topic :: string
  at_partition :: int
  at_offset :: int
  at_attempts :: int
  at_updated_at :: go_time

record database =
  t_users :: "user list"
  t_refresh_tokens :: "refresh_token list"
  t_projects :: "project list"
  t_members :: "member list"
  t_recordings :: "db_recording list"
  t_outbox :: "db_outbox list"
  t_artifacts :: "artifact list"
  t_analyses :: "analysis list"
  t_reports :: "report list"
  t_shares :: "share_link list"
  t_comments :: "comment list"
  t_attempts :: "db_attempt list"

definition empty_database :: database where
  "empty_database =
     \<lparr>t_users = [], t_refresh_tokens = [], t_projects = [], t_members = [], t_recordings = [], t_outbox = [], t_artifacts = [],
      t_analyses = [], t_reports = [], t_shares = [], t_comments = [], t_attempts = []\<rparr>"

section \<open>Statements\<close>

record tick =
  tk_fault :: "string option"
  tk_now :: go_time
  tk_uuid :: uuid
  tk_locked :: "int \<Rightarrow> bool"

record pg =
  pg_db :: database
  pg_step :: nat
  pg_ticks :: "nat \<Rightarrow> tick"

definition pg_new :: "(nat \<Rightarrow> tick) \<Rightarrow> pg" where
  "pg_new ticks = \<lparr>pg_db = empty_database, pg_step = 0, pg_ticks = ticks\<rparr>"

text \<open>Errors of the server by their code, as the program tells them apart.\<close>

definition unique_violation :: err where "unique_violation = ErrOther ''23505''"
definition foreign_key_violation :: err where "foreign_key_violation = ErrOther ''23503''"
definition check_violation :: err where "check_violation = ErrOther ''23514''"
definition invalid_json :: err where "invalid_json = ErrOther ''22P02''"

text \<open>
  A statement sees its tick and a number larger than that of every earlier statement, which serves as the next value of the
  sequence behind \<open>outbox.id\<close> (a sequence only grows, and has gaps).
\<close>

definition stmt :: "(int \<Rightarrow> tick \<Rightarrow> database \<Rightarrow> err + 'a \<times> database) \<Rightarrow> (pg, 'a) op" where
  "stmt f s =
     (let s1 = s\<lparr>pg_step := Suc (pg_step s)\<rparr>; t = pg_ticks s (pg_step s)
      in case tk_fault t of
           Some m \<Rightarrow> (Inl (ErrOther m), s1)
         | None \<Rightarrow> (case f (int (pg_step s)) t (pg_db s) of
                      Inl e \<Rightarrow> (Inl e, s1)
                    | Inr (a, db) \<Rightarrow> (Inr a, s1\<lparr>pg_db := db\<rparr>)))"

definition query :: "(database \<Rightarrow> 'a) \<Rightarrow> (pg, 'a) op" where
  "query f = stmt (\<lambda>n t db. Inr (f db, db))"

text \<open>\<open>QueryRow\<close> and \<open>Scan\<close> with \<open>pgx.ErrNoRows\<close> turned into the given error.\<close>

definition query_row :: "err \<Rightarrow> (database \<Rightarrow> 'a option) \<Rightarrow> (pg, 'a) op" where
  "query_row none f = andthen (query f) (\<lambda>r. case r of None \<Rightarrow> fail none | Some a \<Rightarrow> ret a)"

text \<open>A statement of which the number of rows it changed is looked at: none is the given error.\<close>

definition changed_row :: "err \<Rightarrow> (pg, nat) op \<Rightarrow> (pg, unit) op" where
  "changed_row none m = andthen m (\<lambda>n. if n = 0 then fail none else ret ())"

text \<open>\<open>Begin\<close>, the statements of \<open>m\<close>, \<open>Commit\<close>; the deferred \<open>Rollback\<close> undoes what an error leaves behind.\<close>

definition transaction :: "(pg, 'a) op \<Rightarrow> (pg, 'a) op" where
  "transaction m =
     andthen (query (\<lambda>_. ())) (\<lambda>_ s.
       case andthen m (\<lambda>a. andthen (query (\<lambda>_. ())) (\<lambda>_. ret a)) s of
         (Inl e, s') \<Rightarrow> (Inl e, s'\<lparr>pg_db := pg_db s\<rparr>)
       | (Inr a, s') \<Rightarrow> (Inr a, s'))"

definition pg_time :: "go_time \<Rightarrow> go_time" where
  "pg_time t = t - t mod 1000"

lemma pg_time_le: "pg_time t \<le> t"
  by (simp add: pg_time_def)

type_synonym jsonb = "bytes \<Rightarrow> bytes option"

definition jsonb_text :: "jsonb \<Rightarrow> bytes \<Rightarrow> bytes" where
  "jsonb_text J b = (case J b of Some t \<Rightarrow> t | None \<Rightarrow> b)"

section \<open>Rows by their keys\<close>

definition lookup :: "('r \<Rightarrow> 'k) \<Rightarrow> 'r list \<Rightarrow> 'k \<Rightarrow> 'r option" where
  "lookup key rows k = find (\<lambda>r. key r = k) rows"

text \<open>\<open>UPDATE .. SET f WHERE p\<close>.\<close>

definition update_where :: "('r \<Rightarrow> bool) \<Rightarrow> ('r \<Rightarrow> 'r) \<Rightarrow> 'r list \<Rightarrow> 'r list" where
  "update_where p f rows = map (\<lambda>r. if p r then f r else r) rows"

definition count_where :: "('r \<Rightarrow> bool) \<Rightarrow> 'r list \<Rightarrow> nat" where
  "count_where p rows = length (filter p rows)"

lemma lookup_eq:
  assumes "distinct (map key rows)"
  shows "lookup key rows k = Some r \<longleftrightarrow> r \<in> set rows \<and> key r = k"
  using assms by (induction rows) (auto simp: lookup_def)

lemma key_unique: "distinct (map key rows) \<Longrightarrow> q \<in> set rows \<Longrightarrow> r \<in> set rows \<Longrightarrow> key q = key r \<Longrightarrow> q = r"
  by (auto simp: distinct_map inj_on_def)

lemma lookup_SomeD: "lookup key rows k = Some r \<Longrightarrow> r \<in> set rows \<and> key r = k"
  by (auto simp: lookup_def find_Some_iff)

lemma lookup_None: "lookup key rows k = None \<longleftrightarrow> k \<notin> key ` set rows"
  by (auto simp: lookup_def find_None_iff)

lemma lookup_append:
  "lookup key (rows @ [r]) k = (case lookup key rows k of None \<Rightarrow> if key r = k then Some r else None | Some q \<Rightarrow> Some q)"
  by (induction rows) (auto simp: lookup_def)

lemma lookup_insert: "key r \<notin> key ` set rows \<Longrightarrow> lookup key (rows @ [r]) = (lookup key rows)(key r \<mapsto> r)"
proof (rule ext)
  fix k assume new: "key r \<notin> key ` set rows"
  show "lookup key (rows @ [r]) k = ((lookup key rows)(key r \<mapsto> r)) k"
  proof (cases "k = key r")
    case True
    then have "lookup key rows k = None" using new by (simp add: lookup_None)
    then show ?thesis using True by (simp add: lookup_append)
  next
    case False
    then show ?thesis by (cases "lookup key rows k") (auto simp: lookup_append)
  qed
qed

lemma lookup_map: "(\<And>r. key (f r) = key r) \<Longrightarrow> lookup key (map f rows) k = map_option f (lookup key rows k)"
  by (induction rows) (auto simp: lookup_def)

lemma lookup_update_where:
  "(\<And>r. key (f r) = key r) \<Longrightarrow>
     lookup key (update_where p f rows) k = map_option (\<lambda>r. if p r then f r else r) (lookup key rows k)"
  unfolding update_where_def by (rule lookup_map) simp

lemma lookup_update_key:
  assumes "\<And>r. key (f r) = key r"
  shows "lookup key (update_where (\<lambda>r. key r = k \<and> q r) f rows) = (case lookup key rows k of
     None \<Rightarrow> lookup key rows
   | Some r \<Rightarrow> if q r then (lookup key rows)(k \<mapsto> f r) else lookup key rows)"
  using lookup_SomeD [of key rows]
  by (rule_tac ext) (auto simp: lookup_update_where assms map_option_case split: option.splits dest!: lookup_SomeD)

lemma lookup_update_one:
  assumes "\<And>r. key (f r) = key r"
  shows "lookup key (update_where (\<lambda>r. key r = k) f rows) = (case lookup key rows k of
     None \<Rightarrow> lookup key rows
   | Some r \<Rightarrow> (lookup key rows)(k \<mapsto> f r))"
proof (rule ext)
  fix j
  show "lookup key (update_where (\<lambda>r. key r = k) f rows) j = (case lookup key rows k of
     None \<Rightarrow> lookup key rows | Some r \<Rightarrow> (lookup key rows)(k \<mapsto> f r)) j"
  proof (cases "lookup key rows j")
    case None
    then show ?thesis by (cases "j = k") (simp_all add: lookup_update_where assms split: option.split)
  next
    case (Some r)
    then have "key r = j" by (auto dest: lookup_SomeD)
    then show ?thesis using Some by (cases "j = k") (simp_all add: lookup_update_where assms split: option.split)
  qed
qed

lemma update_where_keys [simp]: "(\<And>r. key (f r) = key r) \<Longrightarrow> map key (update_where p f rows) = map key rows"
  by (simp add: update_where_def)

lemma lookup_delete:
  assumes "distinct (map key rows)"
  shows "lookup key (filter (\<lambda>r. \<not> p r) rows) k = (case lookup key rows k of None \<Rightarrow> None | Some r \<Rightarrow> if p r then None else Some r)"
proof -
  have d: "distinct (map key (filter (\<lambda>r. \<not> p r) rows))" using assms by (induction rows) auto
  show ?thesis
  proof (cases "lookup key rows k")
    case None
    then have "k \<notin> key ` set rows" by (simp add: lookup_None)
    then have "lookup key (filter (\<lambda>r. \<not> p r) rows) k = None" by (auto simp: lookup_None)
    then show ?thesis using None by simp
  next
    case (Some r)
    then have r: "r \<in> set rows" "key r = k" by (auto dest: lookup_SomeD)
    have only: "q = r" if "q \<in> set rows" "key q = k" for q
      using that r assms by (metis lookup_eq option.inject)
    show ?thesis
    proof (cases "p r")
      case True
      then have "lookup key (filter (\<lambda>r. \<not> p r) rows) k = None" using only by (auto simp: lookup_None)
      then show ?thesis using True Some by simp
    next
      case False
      then show ?thesis using Some r by (simp add: lookup_eq [OF d])
    qed
  qed
qed

lemma count_where_0: "count_where p rows = 0 \<longleftrightarrow> (\<forall>r\<in>set rows. \<not> p r)"
  by (auto simp: count_where_def filter_empty_conv)

lemma count_where_pos: "0 < count_where p rows \<longleftrightarrow> (\<exists>r\<in>set rows. p r)"
  using count_where_0 [of p rows] by auto

lemma count_key_0: "count_where (\<lambda>r. key r = k \<and> q r) rows = 0 \<longleftrightarrow> (\<forall>r\<in>set rows. key r = k \<longrightarrow> \<not> q r)"
  by (auto simp: count_where_0)

lemma filter_distinct_key: "distinct (map key rows) \<Longrightarrow> distinct (map key (filter p rows))"
  by (induction rows) auto

section \<open>What statements do\<close>

lemma query_db [simp]: "pg_db (snd (query f s)) = pg_db s"
  by (simp add: query_def stmt_def Let_def split: option.splits)

lemma query_val: "fst (query f s) = Inr (f (pg_db s)) \<or> (\<exists>m. fst (query f s) = Inl (ErrOther m))"
  by (simp add: query_def stmt_def Let_def split: option.splits)

lemma query_Inr: "query f s = (Inr a, s') \<Longrightarrow> a = f (pg_db s) \<and> pg_db s' = pg_db s"
  using query_val [of f s] query_db [of f s] by simp

lemma query_Inl: "query f s = (Inl e, s') \<Longrightarrow> (\<exists>m. e = ErrOther m) \<and> pg_db s' = pg_db s"
  using query_val [of f s] query_db [of f s] by simp

lemma query_row_Inr: "query_row none f s = (Inr a, s') \<Longrightarrow> f (pg_db s) = Some a \<and> pg_db s' = pg_db s"
  unfolding query_row_def by (erule andthen_InrE) (auto split: option.splits dest!: query_Inr)

lemma query_row_Inl:
  assumes "query_row none f s = (Inl e, s')"
  shows "(e = none \<and> f (pg_db s) = None \<or> (\<exists>m. e = ErrOther m)) \<and> pg_db s' = pg_db s"
  using assms unfolding query_row_def
proof (cases rule: andthen_cases)
  case (err e')
  then show ?thesis using query_Inl by auto
next
  case (ok a s1)
  then show ?thesis using query_Inr [OF ok(1)] by (cases "f (pg_db s)") auto
qed

lemma query_row_db [simp]: "pg_db (snd (query_row none f s)) = pg_db s"
proof -
  obtain x s' where q: "query_row none f s = (x, s')" by fastforce
  then show ?thesis using query_row_Inr query_row_Inl by (cases x) fastforce+
qed

lemma stmt_Inr:
  "stmt f s = (Inr a, s') \<Longrightarrow> f (int (pg_step s)) (pg_ticks s (pg_step s)) (pg_db s) = Inr (a, pg_db s')"
  by (auto simp: stmt_def Let_def split: option.splits sum.splits)

lemma stmt_Inl:
  "stmt f s = (Inl e, s') \<Longrightarrow>
     ((\<exists>m. e = ErrOther m) \<or> f (int (pg_step s)) (pg_ticks s (pg_step s)) (pg_db s) = Inl e) \<and> pg_db s' = pg_db s"
  by (auto simp: stmt_def Let_def split: option.splits sum.splits)

text \<open>A statement that changes the rows with \<open>p\<close> and counts them.\<close>

definition changes :: "(database \<Rightarrow> 'r list) \<Rightarrow> ('r \<Rightarrow> bool) \<Rightarrow> (database \<Rightarrow> database) \<Rightarrow> (pg, nat) op" where
  "changes rows p upd = stmt (\<lambda>n t db. Inr (count_where p (rows db), if count_where p (rows db) = 0 then db else upd db))"

lemma changed_row_Inr:
  "changed_row none (changes rows p upd) s = (Inr u, s') \<Longrightarrow> \<exists>r\<in>set (rows (pg_db s)). p r \<and> pg_db s' = upd (pg_db s)"
  unfolding changed_row_def changes_def
  by (erule andthen_InrE) (auto dest!: stmt_Inr simp: count_where_pos simp: count_where_0 split: if_splits)

lemma changed_row_Inl:
  assumes "changed_row none (changes rows p upd) s = (Inl e, s')"
  shows "(e = none \<and> (\<forall>r\<in>set (rows (pg_db s)). \<not> p r) \<or> (\<exists>m. e = ErrOther m)) \<and> pg_db s' = pg_db s"
  using assms unfolding changed_row_def changes_def
proof (cases rule: andthen_cases)
  case (err e')
  then show ?thesis using stmt_Inl [OF err(1)] by auto
next
  case (ok a s1)
  then have "a = 0" by (simp split: if_splits)
  then have "\<forall>r\<in>set (rows (pg_db s)). \<not> p r" "pg_db s1 = pg_db s"
    using stmt_Inr [OF ok(1)] count_where_0 [of p "rows (pg_db s)"] by auto
  then show ?thesis using ok(2) \<open>a = 0\<close> by simp
qed

lemma transaction_cases:
  assumes "transaction m s = (x, s')"
  obtains (err) e where "x = Inl e" "pg_db s' = pg_db s"
  | (ok) a s0 s1 where "x = Inr a" "pg_db s0 = pg_db s" "m s0 = (Inr a, s1)" "pg_db s' = pg_db s1"
  using assms unfolding transaction_def
proof (cases rule: andthen_cases)
  case (err e)
  then show ?thesis using that(1) query_Inl by blast
next
  case (ok u s0)
  have s0: "pg_db s0 = pg_db s" using query_Inr [OF ok(1)] by simp
  obtain y s1 where body: "andthen m (\<lambda>a. andthen (query (\<lambda>_. ())) (\<lambda>_. ret a)) s0 = (y, s1)" by fastforce
  show ?thesis
  proof (cases y)
    case (Inl e)
    then show ?thesis using that(1) ok(2) body s0 by auto
  next
    case (Inr a)
    with body obtain b s2 where m: "m s0 = (Inr b, s2)" and c: "andthen (query (\<lambda>_. ())) (\<lambda>_. ret b) s2 = (Inr a, s1)"
      by (auto elim: andthen_InrE)
    from c have "b = a" "pg_db s1 = pg_db s2" by (auto elim!: andthen_InrE dest!: query_Inr)
    then show ?thesis using that(2) ok(2) body s0 m Inr by auto
  qed
qed

lemma transaction_Inl: "transaction m s = (Inl e, s') \<Longrightarrow> pg_db s' = pg_db s"
  by (erule transaction_cases) auto

section \<open>Pages\<close>

text \<open>
  The list queries: decode the cursor, \<open>SELECT .. ORDER BY .. LIMIT limit + 1\<close>, \<open>TrimPage\<close>. The cursor's instant reaches
  the server in microseconds.
\<close>

definition page_cursor :: "'z golib_scheme \<Rightarrow> page \<Rightarrow> err + (go_time \<times> uuid) option" where
  "page_cursor L p =
     (if pg_Cursor p = [] then Inr None
      else case decode_cursor L (pg_Cursor p) of Inl e \<Rightarrow> Inl e | Inr (at, i) \<Rightarrow> Inr (Some (pg_time at, i)))"

definition pg_page_desc ::
    "'z golib_scheme \<Rightarrow> ('a \<Rightarrow> go_time \<times> uuid) \<Rightarrow> page \<Rightarrow> (database \<Rightarrow> 'a list) \<Rightarrow> (pg, 'a page_result) op" where
  "pg_page_desc L key p rows =
     andthen (lift_sum (page_cursor L p)) (\<lambda>cur.
     andthen (query (\<lambda>db. sql_limit p (sort_newest key_bytes key (filter (\<lambda>x. case cur of None \<Rightarrow> True
         | Some c \<Rightarrow> key_bytes (key x) < key_bytes c) (rows db))))) (\<lambda>found.
     andthen (lift_sum found) (\<lambda>out. lift_sum (trim_page L p out key))))"

definition pg_page_asc ::
    "'z golib_scheme \<Rightarrow> ('a \<Rightarrow> go_time \<times> uuid) \<Rightarrow> page \<Rightarrow> (database \<Rightarrow> 'a list) \<Rightarrow> (pg, 'a page_result) op" where
  "pg_page_asc L key p rows =
     andthen (lift_sum (page_cursor L p)) (\<lambda>cur.
     andthen (query (\<lambda>db. sql_limit p (sort_oldest key_bytes key (filter (\<lambda>x. case cur of None \<Rightarrow> True
         | Some c \<Rightarrow> key_bytes (key x) > key_bytes c) (rows db))))) (\<lambda>found.
     andthen (lift_sum found) (\<lambda>out. lift_sum (trim_page L p out key))))"

lemma query_keeps_db: "keeps pg_db (query f)"
  by (rule keepsI) simp

lemma query_row_keeps: "keeps pg_db (query_row none f)"
  by (rule keepsI) simp

lemma page_keeps_db: "keeps pg_db (pg_page_desc L key p rows)" "keeps pg_db (pg_page_asc L key p rows)"
  unfolding pg_page_desc_def pg_page_asc_def by (intro keeps_andthen keeps_lift_sum query_keeps_db)+

lemma keeps_db_view: "keeps pg_db m \<Longrightarrow> keeps (\<lambda>s. v (pg_db s)) m"
  by (simp add: keeps_def)

text \<open>Without faults a window of at least 1 lists as the services' contract has it.\<close>

definition faultless :: "pg \<Rightarrow> bool" where
  "faultless s \<longleftrightarrow> (\<forall>n. tk_fault (pg_ticks s n) = None)"

lemma query_faultless: "faultless s \<Longrightarrow> \<exists>s'. query f s = (Inr (f (pg_db s)), s') \<and> faultless s' \<and> pg_db s' = pg_db s"
  by (simp add: query_def stmt_def Let_def faultless_def)

lemma page_cursor_time:
  "page_cursor L p = Inr (Some c) \<Longrightarrow> \<exists>at. decode_cursor L (pg_Cursor p) = Inr (at, snd c) \<and> fst c = pg_time at"
  by (auto simp: page_cursor_def split: if_splits sum.splits)

lemma pg_page_desc_first:
  assumes "faultless s" "1 \<le> pg_Limit p" "pg_Cursor p = []"
  shows "fst (pg_page_desc L key p rows s) = list_desc L key_bytes key p (rows (pg_db s))"
proof -
  obtain s' where "query (\<lambda>db. sql_limit p (sort_newest key_bytes key (rows db))) s
      = (Inr (sql_limit p (sort_newest key_bytes key (rows (pg_db s)))), s')"
    using query_faultless [OF assms(1)] by blast
  then show ?thesis using assms(2,3)
    by (simp add: pg_page_desc_def page_cursor_def andthen_def list_desc_def sql_limit_def trim_page_take)
qed

lemma pg_page_desc_next:
  assumes "faultless s" "1 \<le> pg_Limit p" "golib_ok L" "time_ok (fst k)" "pg_time (fst k) = fst k"
    and "pg_Cursor p = encode_cursor L (fst k) (snd k)"
  shows "fst (pg_page_desc L key p rows s) = list_desc L key_bytes key p (rows (pg_db s))"
proof -
  let ?found = "\<lambda>db. sql_limit p (sort_newest key_bytes key (filter (\<lambda>x. key_bytes (key x) < key_bytes k) (rows db)))"
  obtain s' where q: "query ?found s = (Inr (?found (pg_db s)), s')"
    using query_faultless [OF assms(1)] by blast
  have "page_cursor L p = Inr (Some k)"
    using assms(3-6) by (cases k) (simp add: page_cursor_def cursor_roundtrip encode_cursor_ne)
  then show ?thesis using q assms(2-6)
    by (simp add: pg_page_desc_def andthen_def list_desc_def sql_limit_def trim_page_take sort_newest_filter cursor_roundtrip encode_cursor_ne)
qed

lemma pg_page_asc_first:
  assumes "faultless s" "1 \<le> pg_Limit p" "pg_Cursor p = []"
  shows "fst (pg_page_asc L key p rows s) = list_asc L key_bytes key p (rows (pg_db s))"
proof -
  obtain s' where "query (\<lambda>db. sql_limit p (sort_oldest key_bytes key (rows db))) s
      = (Inr (sql_limit p (sort_oldest key_bytes key (rows (pg_db s)))), s')"
    using query_faultless [OF assms(1)] by blast
  then show ?thesis using assms(2,3)
    by (simp add: pg_page_asc_def page_cursor_def andthen_def list_asc_def sql_limit_def trim_page_take)
qed

lemma pg_page_asc_next:
  assumes "faultless s" "1 \<le> pg_Limit p" "golib_ok L" "time_ok (fst k)" "pg_time (fst k) = fst k"
    and "pg_Cursor p = encode_cursor L (fst k) (snd k)"
  shows "fst (pg_page_asc L key p rows s) = list_asc L key_bytes key p (rows (pg_db s))"
proof -
  let ?found = "\<lambda>db. sql_limit p (sort_oldest key_bytes key (filter (\<lambda>x. key_bytes (key x) > key_bytes k) (rows db)))"
  obtain s' where q: "query ?found s = (Inr (?found (pg_db s)), s')"
    using query_faultless [OF assms(1)] by blast
  have "page_cursor L p = Inr (Some k)"
    using assms(3-6) by (cases k) (simp add: page_cursor_def cursor_roundtrip encode_cursor_ne)
  then show ?thesis using q assms(2-6)
    by (simp add: pg_page_asc_def andthen_def list_asc_def sql_limit_def trim_page_take sort_oldest_filter cursor_roundtrip encode_cursor_ne)
qed

section \<open>Cascades\<close>

text \<open>\<open>ON DELETE CASCADE\<close>: what goes with reports, with recordings and with a project.\<close>

definition delete_reports :: "(report \<Rightarrow> bool) \<Rightarrow> database \<Rightarrow> database" where
  "delete_reports p db =
     (let gone = rp_ID ` set (filter p (t_reports db))
      in db\<lparr>t_reports := filter (\<lambda>r. \<not> p r) (t_reports db), t_shares := filter (\<lambda>l. sl_ReportID l \<notin> gone) (t_shares db),
            t_comments := filter (\<lambda>c. cm_ReportID c \<notin> gone) (t_comments db)\<rparr>)"

definition delete_recordings :: "(db_recording \<Rightarrow> bool) \<Rightarrow> database \<Rightarrow> database" where
  "delete_recordings p db =
     (let gone = rec_ID ` set (filter p (t_recordings db))
      in delete_reports (\<lambda>r. rp_RecordingID r \<in> gone)
           (db\<lparr>t_recordings := filter (\<lambda>r. \<not> p r) (t_recordings db),
               t_artifacts := filter (\<lambda>a. art_RecordingID a \<notin> gone) (t_artifacts db),
               t_analyses := filter (\<lambda>a. an_RecordingID a \<notin> gone) (t_analyses db)\<rparr>))"

definition delete_project :: "uuid \<Rightarrow> database \<Rightarrow> database" where
  "delete_project i db =
     delete_recordings (\<lambda>r. rec_ProjectID r = i)
       (delete_reports (\<lambda>r. rp_ProjectID r = i)
         (db\<lparr>t_projects := filter (\<lambda>p. prj_ID p \<noteq> i) (t_projects db),
             t_members := filter (\<lambda>m. mb_ProjectID m \<noteq> i) (t_members db),
             t_analyses := filter (\<lambda>a. an_ProjectID a \<noteq> i) (t_analyses db),
             t_shares := filter (\<lambda>l. sl_ProjectID l \<noteq> i) (t_shares db),
             t_comments := filter (\<lambda>c. cm_ProjectID c \<noteq> i) (t_comments db)\<rparr>))"

lemma delete_reports_other [simp]:
  "t_users (delete_reports p db) = t_users db" "t_refresh_tokens (delete_reports p db) = t_refresh_tokens db"
  "t_projects (delete_reports p db) = t_projects db" "t_members (delete_reports p db) = t_members db"
  "t_recordings (delete_reports p db) = t_recordings db" "t_outbox (delete_reports p db) = t_outbox db"
  "t_artifacts (delete_reports p db) = t_artifacts db" "t_analyses (delete_reports p db) = t_analyses db"
  "t_reports (delete_reports p db) = filter (\<lambda>r. \<not> p r) (t_reports db)" "t_attempts (delete_reports p db) = t_attempts db"
  by (simp_all add: delete_reports_def Let_def)

lemma delete_recordings_other [simp]:
  "t_users (delete_recordings p db) = t_users db" "t_refresh_tokens (delete_recordings p db) = t_refresh_tokens db"
  "t_projects (delete_recordings p db) = t_projects db" "t_members (delete_recordings p db) = t_members db"
  "t_outbox (delete_recordings p db) = t_outbox db" "t_attempts (delete_recordings p db) = t_attempts db"
  "t_recordings (delete_recordings p db) = filter (\<lambda>r. \<not> p r) (t_recordings db)"
  by (simp_all add: delete_recordings_def Let_def)

lemma delete_project_other [simp]:
  "t_users (delete_project i db) = t_users db" "t_refresh_tokens (delete_project i db) = t_refresh_tokens db"
  "t_outbox (delete_project i db) = t_outbox db" "t_attempts (delete_project i db) = t_attempts db"
  "t_projects (delete_project i db) = filter (\<lambda>p. prj_ID p \<noteq> i) (t_projects db)"
  "t_members (delete_project i db) = filter (\<lambda>m. mb_ProjectID m \<noteq> i) (t_members db)"
  by (simp_all add: delete_project_def)

section \<open>The artifacts of a recording\<close>

text \<open>\<open>ORDER BY kind, ordinal\<close>: \<open>frame\<close> comes before \<open>thumb\<close>.\<close>

definition pg_artifacts_of :: "uuid \<Rightarrow> database \<Rightarrow> artifact list" where
  "pg_artifacts_of i db =
     (let rows = filter (\<lambda>a. art_RecordingID a = i) (t_artifacts db)
      in sort_key art_Ordinal (filter (\<lambda>a. art_Kind a = KindFrame) rows) @ sort_key art_Ordinal (filter (\<lambda>a. art_Kind a = KindThumb) rows))"

text \<open>The key of the thumb, the last one if there were several.\<close>

definition pg_thumb_key :: "artifact list \<Rightarrow> string" where
  "pg_thumb_key rows = foldl (\<lambda>key a. if art_Kind a = KindThumb then art_StorageKey a else key) [] rows"

lemma set_artifacts_of: "set (pg_artifacts_of i db) = {a \<in> set (t_artifacts db). art_RecordingID a = i}"
proof -
  have "art_Kind a = KindFrame \<or> art_Kind a = KindThumb" for a :: artifact by (cases "art_Kind a") simp_all
  then show ?thesis by (fastforce simp: pg_artifacts_of_def Let_def)
qed

end
