(* ===== verification/Postgres_Auth.thy ===== *)
theory Postgres_Auth
  imports Database
begin

text \<open>
  \<open>internal/auth/adapter/postgres\<close>: users and refresh tokens in the database. The repositories meet the contract the memory
  ones meet, so what the service guarantees holds for both.
\<close>

section \<open>Users\<close>

definition pg_insert_user :: "user \<Rightarrow> database \<Rightarrow> err + user \<times> database" where
  "pg_insert_user u db =
     (if usr_ID u \<in> usr_ID ` set (t_users db) \<or> usr_Email u \<in> usr_Email ` set (t_users db) then Inl unique_violation
      else let r = u\<lparr>usr_CreatedAt := pg_time (usr_CreatedAt u), usr_UpdatedAt := pg_time (usr_UpdatedAt u)\<rparr>
           in Inr (r, db\<lparr>t_users := t_users db @ [r]\<rparr>))"

definition pgau_Create :: "user \<Rightarrow> (pg, user) op" where
  "pgau_Create u = map_err (\<lambda>e. if e = unique_violation then ErrEmailTaken else e) (stmt (\<lambda>n t. pg_insert_user u))"

definition pgau_FindByEmail :: "string \<Rightarrow> (pg, user) op" where
  "pgau_FindByEmail e = query_row (ErrNotFound Auth) (\<lambda>db. lookup usr_Email (t_users db) e)"

definition pgau_FindByID :: "uuid \<Rightarrow> (pg, user) op" where
  "pgau_FindByID i = query_row (ErrNotFound Auth) (\<lambda>db. lookup usr_ID (t_users db) i)"

definition pgau_user_repo :: "pg user_repository" where
  "pgau_user_repo = \<lparr>ur_Create = pgau_Create, ur_FindByEmail = pgau_FindByEmail, ur_FindByID = pgau_FindByID\<rparr>"

section \<open>Refresh tokens\<close>

definition token_row :: "refresh_token \<Rightarrow> refresh_token" where
  "token_row t =
     t\<lparr>rft_ExpiresAt := pg_time (rft_ExpiresAt t), rft_RevokedAt := map_option pg_time (rft_RevokedAt t),
       rft_CreatedAt := pg_time (rft_CreatedAt t)\<rparr>"

definition pg_insert_token :: "refresh_token \<Rightarrow> database \<Rightarrow> err + refresh_token \<times> database" where
  "pg_insert_token t db =
     (if rft_ID t \<in> rft_ID ` set (t_refresh_tokens db) \<or> rft_TokenHash t \<in> rft_TokenHash ` set (t_refresh_tokens db)
      then Inl unique_violation
      else if rft_UserID t \<notin> usr_ID ` set (t_users db) then Inl foreign_key_violation
      else Inr (token_row t, db\<lparr>t_refresh_tokens := t_refresh_tokens db @ [token_row t]\<rparr>))"

definition pgau_CreateToken :: "refresh_token \<Rightarrow> (pg, refresh_token) op" where
  "pgau_CreateToken t = stmt (\<lambda>n tk. pg_insert_token t)"

definition pgau_FindByHash :: "string \<Rightarrow> (pg, refresh_token) op" where
  "pgau_FindByHash h = query_row (ErrNotFound Auth) (\<lambda>db. lookup rft_TokenHash (t_refresh_tokens db) h)"

text \<open>\<open>UPDATE refresh_tokens SET revoked_at\<close>.\<close>

definition pg_revoke_tokens :: "(refresh_token \<Rightarrow> bool) \<Rightarrow> go_time \<Rightarrow> database \<Rightarrow> database" where
  "pg_revoke_tokens p at db =
     db\<lparr>t_refresh_tokens := update_where p (\<lambda>r. r\<lparr>rft_RevokedAt := Some (pg_time at)\<rparr>) (t_refresh_tokens db)\<rparr>"

text \<open>The statement of \<open>Rotate\<close> that spends a token; \<open>RETURNING\<close> gives the row as it then is.\<close>

definition pg_redeemable :: "string \<Rightarrow> go_time \<Rightarrow> refresh_token \<Rightarrow> bool" where
  "pg_redeemable h at r \<longleftrightarrow> rft_TokenHash r = h \<and> rft_RevokedAt r = None \<and> rft_ExpiresAt r > pg_time at"

definition pg_spend_token :: "string \<Rightarrow> go_time \<Rightarrow> database \<Rightarrow> refresh_token option \<times> database" where
  "pg_spend_token h at db =
     (let db' = pg_revoke_tokens (pg_redeemable h at) at db
      in (map_option (\<lambda>r. r\<lparr>rft_RevokedAt := Some (pg_time at)\<rparr>) (find (pg_redeemable h at) (t_refresh_tokens db)), db'))"

definition pgau_Rotate :: "string \<Rightarrow> go_time \<Rightarrow> refresh_token \<Rightarrow> (pg, refresh_token) op" where
  "pgau_Rotate h at replacement =
     transaction
       (andthen (stmt (\<lambda>n t db. Inr (pg_spend_token h at db))) (\<lambda>spent.
        case spent of
          None \<Rightarrow> fail ErrUnauthorized
        | Some consumed \<Rightarrow>
            andthen (stmt (\<lambda>n t. pg_insert_token (replacement\<lparr>rft_UserID := rft_UserID consumed\<rparr>))) (\<lambda>_.
            ret consumed)))"

definition pgau_Revoke :: "uuid \<Rightarrow> go_time \<Rightarrow> (pg, unit) op" where
  "pgau_Revoke i at =
     changed_row (ErrNotFound Auth)
       (changes t_refresh_tokens (\<lambda>r. rft_ID r = i \<and> rft_RevokedAt r = None)
          (pg_revoke_tokens (\<lambda>r. rft_ID r = i \<and> rft_RevokedAt r = None) at))"

definition pgau_RevokeAllForUser :: "uuid \<Rightarrow> go_time \<Rightarrow> (pg, unit) op" where
  "pgau_RevokeAllForUser u at = stmt (\<lambda>n t db. Inr ((), pg_revoke_tokens (\<lambda>r. rft_UserID r = u \<and> rft_RevokedAt r = None) at db))"

definition pgau_refresh_repo :: "pg refresh_repository" where
  "pgau_refresh_repo =
     \<lparr>rf_Create = pgau_CreateToken, rf_FindByHash = pgau_FindByHash, rf_Revoke = pgau_Revoke,
      rf_RevokeAllForUser = pgau_RevokeAllForUser, rf_Rotate = pgau_Rotate\<rparr>"

section \<open>The contract\<close>

definition pgau_rows_ok :: "database \<Rightarrow> bool" where
  "pgau_rows_ok db \<longleftrightarrow>
     distinct (map usr_ID (t_users db)) \<and> distinct (map usr_Email (t_users db))
     \<and> distinct (map rft_ID (t_refresh_tokens db)) \<and> distinct (map rft_TokenHash (t_refresh_tokens db))"

definition pgau_ok :: "pg \<Rightarrow> bool" where
  "pgau_ok s \<longleftrightarrow> pgau_rows_ok (pg_db s)"

definition pgau_us :: "pg \<Rightarrow> users" where
  "pgau_us s = lookup usr_ID (t_users (pg_db s))"

definition pgau_tk :: "pg \<Rightarrow> tokens" where
  "pgau_tk s = lookup rft_TokenHash (t_refresh_tokens (pg_db s))"

lemma pgau_view: "pg_db s' = pg_db s \<Longrightarrow> pgau_ok s' = pgau_ok s \<and> pgau_us s' = pgau_us s \<and> pgau_tk s' = pgau_tk s"
  by (simp add: pgau_ok_def pgau_us_def pgau_tk_def)

lemma pgau_query_keeps: "keeps (\<lambda>s. (pgau_ok s, pgau_us s, pgau_tk s)) (query_row none f)"
  by (rule keepsI) (simp add: pgau_view [OF query_row_db])

lemma pgau_fresh:
  assumes "pgau_ok s" "fresh_token (pgau_tk s) h i"
  shows "h \<notin> rft_TokenHash ` set (t_refresh_tokens (pg_db s)) \<and> i \<notin> rft_ID ` set (t_refresh_tokens (pg_db s))"
proof -
  have d: "distinct (map rft_TokenHash (t_refresh_tokens (pg_db s)))" using assms(1) by (simp add: pgau_ok_def pgau_rows_ok_def)
  have "i \<noteq> rft_ID r" if "r \<in> set (t_refresh_tokens (pg_db s))" for r
    using assms(2) that d by (auto simp: fresh_token_def pgau_tk_def lookup_eq)
  then show ?thesis using assms(2) by (auto simp: fresh_token_def pgau_tk_def lookup_None)
qed

lemma token_row_unrevoked:
  "rft_RevokedAt t = None \<Longrightarrow>
     token_row t = t\<lparr>rft_ExpiresAt := pg_time (rft_ExpiresAt t), rft_CreatedAt := pg_time (rft_CreatedAt t)\<rparr>"
  by (cases t) (simp add: token_row_def)

lemma pg_insert_token_Inr:
  assumes "pg_insert_token t db = Inr (r, db')" "pgau_rows_ok db"
  shows "pgau_rows_ok db' \<and> t_users db' = t_users db \<and> r = token_row t
     \<and> lookup rft_TokenHash (t_refresh_tokens db') = (lookup rft_TokenHash (t_refresh_tokens db))(rft_TokenHash t \<mapsto> token_row t)"
proof -
  have new: "rft_ID t \<notin> rft_ID ` set (t_refresh_tokens db)" "rft_TokenHash t \<notin> rft_TokenHash ` set (t_refresh_tokens db)"
    and r: "r = token_row t" "db' = db\<lparr>t_refresh_tokens := t_refresh_tokens db @ [token_row t]\<rparr>"
    using assms(1) by (auto simp: pg_insert_token_def split: if_splits)
  have keys: "rft_ID (token_row t) = rft_ID t" "rft_TokenHash (token_row t) = rft_TokenHash t" by (simp_all add: token_row_def)
  then show ?thesis using assms(2) new r lookup_insert [of rft_TokenHash "token_row t" "t_refresh_tokens db"]
    by (simp add: pgau_rows_ok_def)
qed

lemma pg_revoke_rows: "pgau_rows_ok db \<Longrightarrow> pgau_rows_ok (pg_revoke_tokens p at db)"
  by (simp add: pgau_rows_ok_def pg_revoke_tokens_def)

lemma pg_revoke_tk:
  "lookup rft_TokenHash (t_refresh_tokens (pg_revoke_tokens p at db)) =
     (\<lambda>h. map_option (\<lambda>r. if p r then r\<lparr>rft_RevokedAt := Some (pg_time at)\<rparr> else r) (lookup rft_TokenHash (t_refresh_tokens db) h))"
  by (rule ext) (simp add: pg_revoke_tokens_def lookup_update_where)

lemma pg_revoke_one:
  assumes "distinct (map rft_TokenHash (t_refresh_tokens db))" "r \<in> set (t_refresh_tokens db)" "p r"
    and "\<And>q. q \<in> set (t_refresh_tokens db) \<Longrightarrow> p q \<Longrightarrow> q = r"
  shows "lookup rft_TokenHash (t_refresh_tokens (pg_revoke_tokens p at db))
     = (lookup rft_TokenHash (t_refresh_tokens db))(rft_TokenHash r \<mapsto> r\<lparr>rft_RevokedAt := Some (pg_time at)\<rparr>)"
proof (rule ext)
  fix h
  show "lookup rft_TokenHash (t_refresh_tokens (pg_revoke_tokens p at db)) h
     = ((lookup rft_TokenHash (t_refresh_tokens db))(rft_TokenHash r \<mapsto> r\<lparr>rft_RevokedAt := Some (pg_time at)\<rparr>)) h"
  proof (cases "h = rft_TokenHash r")
    case True
    have "lookup rft_TokenHash (t_refresh_tokens db) (rft_TokenHash r) = Some r" using assms(1,2) by (simp add: lookup_eq)
    then show ?thesis using True assms(3) by (simp add: pg_revoke_tk)
  next
    case False
    have "\<not> p q" if "lookup rft_TokenHash (t_refresh_tokens db) h = Some q" for q
      using lookup_SomeD [OF that] assms(4) [of q] False by auto
    then show ?thesis using False by (cases "lookup rft_TokenHash (t_refresh_tokens db) h") (auto simp: pg_revoke_tk)
  qed
qed

lemma pg_spend_Some:
  assumes "pgau_rows_ok db" "pg_spend_token h at db = (Some c, db')"
  shows "\<exists>r. lookup rft_TokenHash (t_refresh_tokens db) h = Some r \<and> rft_RevokedAt r = None \<and> pg_time at < rft_ExpiresAt r
     \<and> rft_UserID c = rft_UserID r \<and> pgau_rows_ok db' \<and> t_users db' = t_users db
     \<and> lookup rft_TokenHash (t_refresh_tokens db') = (lookup rft_TokenHash (t_refresh_tokens db))(h \<mapsto> r\<lparr>rft_RevokedAt := Some (pg_time at)\<rparr>)"
proof -
  have d: "distinct (map rft_TokenHash (t_refresh_tokens db))" using assms(1) by (simp add: pgau_rows_ok_def)
  obtain r where r: "find (pg_redeemable h at) (t_refresh_tokens db) = Some r" "c = r\<lparr>rft_RevokedAt := Some (pg_time at)\<rparr>"
    and db': "db' = pg_revoke_tokens (pg_redeemable h at) at db"
    using assms(2) by (auto simp: pg_spend_token_def Let_def)
  from r(1) have m: "r \<in> set (t_refresh_tokens db)" "pg_redeemable h at r" by (auto simp: find_Some_iff)
  have only: "q = r" if "q \<in> set (t_refresh_tokens db)" "pg_redeemable h at q" for q
    using key_unique [OF d that(1) m(1)] that(2) m(2) by (simp add: pg_redeemable_def)
  have "lookup rft_TokenHash (t_refresh_tokens db) h = Some r" using m d by (simp add: lookup_eq pg_redeemable_def)
  moreover have "t_users db' = t_users db" using db' by (simp add: pg_revoke_tokens_def)
  ultimately show ?thesis
    using pg_revoke_one [of db r "pg_redeemable h at" at, OF d m only] m(2) r(2) db' pg_revoke_rows [OF assms(1)] by (auto simp: pg_redeemable_def)
qed

lemma pgau_Rotate_shape:
  assumes ok: "pgau_ok s" and fresh: "fresh_token (pgau_tk s) (rft_TokenHash t) (rft_ID t)" "rft_RevokedAt t = None"
    and run: "pgau_Rotate h at t s = (Inr c, s')"
  shows "pgau_ok s' \<and> pgau_us s' = pgau_us s \<and> (\<exists>r. pgau_tk s h = Some r \<and> rft_RevokedAt r = None \<and> pg_time at < rft_ExpiresAt r
     \<and> rft_UserID c = rft_UserID r
     \<and> pgau_tk s' = (pgau_tk s)(h \<mapsto> r\<lparr>rft_RevokedAt := Some (pg_time at)\<rparr>, rft_TokenHash t \<mapsto>
         t\<lparr>rft_UserID := rft_UserID r, rft_ExpiresAt := pg_time (rft_ExpiresAt t), rft_CreatedAt := pg_time (rft_CreatedAt t)\<rparr>))"
  using run unfolding pgau_Rotate_def
proof (cases rule: transaction_cases)
  case (err e)
  then show ?thesis by simp
next
  case (ok a s0 s1)
  from ok(3) obtain sp s2 where sp: "stmt (\<lambda>n t db. Inr (pg_spend_token h at db)) s0 = (Inr sp, s2)"
    and rest: "(case sp of None \<Rightarrow> fail ErrUnauthorized
        | Some consumed \<Rightarrow> andthen (stmt (\<lambda>n tk. pg_insert_token (t\<lparr>rft_UserID := rft_UserID consumed\<rparr>))) (\<lambda>_. ret consumed)) s2 = (Inr a, s1)"
    by (rule andthen_InrE)
  then obtain consumed where sp': "sp = Some consumed" by (cases sp) auto
  with rest obtain row where ins: "stmt (\<lambda>n tk. pg_insert_token (t\<lparr>rft_UserID := rft_UserID consumed\<rparr>)) s2 = (Inr row, s1)" and "a = consumed"
    by (auto elim!: andthen_InrE)
  have db: "pg_spend_token h at (pg_db s) = (Some consumed, pg_db s2)" using stmt_Inr [OF sp] ok(2) sp' by simp
  have rows: "pgau_rows_ok (pg_db s)" using assms(1) by (simp add: pgau_ok_def)
  obtain r where r: "pgau_tk s h = Some r" "rft_RevokedAt r = None" "pg_time at < rft_ExpiresAt r" "rft_UserID consumed = rft_UserID r"
    "pgau_rows_ok (pg_db s2)" "t_users (pg_db s2) = t_users (pg_db s)"
    "lookup rft_TokenHash (t_refresh_tokens (pg_db s2)) = (pgau_tk s)(h \<mapsto> r\<lparr>rft_RevokedAt := Some (pg_time at)\<rparr>)"
    using pg_spend_Some [OF rows db] by (auto simp: pgau_tk_def)
  note new = pg_insert_token_Inr [OF stmt_Inr [OF ins] r(5)]
  show ?thesis using new r ok \<open>a = consumed\<close> fresh(2)
    by (auto simp: pgau_ok_def pgau_us_def pgau_tk_def [of s'] token_row_unrevoked)
qed

lemma pgau_insert_user:
  assumes "stmt (\<lambda>n t. pg_insert_user u) s = (Inr v, s')" "pgau_ok s"
  shows "pgau_ok s' \<and> pgau_tk s' = pgau_tk s \<and> v = u\<lparr>usr_CreatedAt := pg_time (usr_CreatedAt u), usr_UpdatedAt := pg_time (usr_UpdatedAt u)\<rparr>
     \<and> pgau_us s' = (pgau_us s)(usr_ID u \<mapsto> v)"
proof -
  let ?r = "u\<lparr>usr_CreatedAt := pg_time (usr_CreatedAt u), usr_UpdatedAt := pg_time (usr_UpdatedAt u)\<rparr>"
  have new: "usr_ID u \<notin> usr_ID ` set (t_users (pg_db s))" "usr_Email u \<notin> usr_Email ` set (t_users (pg_db s))"
    and v: "v = ?r" "pg_db s' = (pg_db s)\<lparr>t_users := t_users (pg_db s) @ [?r]\<rparr>"
    using stmt_Inr [OF assms(1)] by (auto simp: pg_insert_user_def Let_def split: if_splits)
  show ?thesis using new v assms(2) lookup_insert [of usr_ID ?r "t_users (pg_db s)"]
    by (simp add: pgau_ok_def pgau_rows_ok_def pgau_us_def pgau_tk_def)
qed

interpretation pgau: auth_store pgau_user_repo pgau_refresh_repo pgau_ok pgau_us pgau_tk pg_time
proof (unfold_locales, goal_cases)
  case (1 s i u j v)
  have d: "distinct (map usr_Email (t_users (pg_db s)))" using 1(1) by (simp add: pgau_ok_def pgau_rows_ok_def)
  have u: "u \<in> set (t_users (pg_db s))" "usr_ID u = i" and v: "v \<in> set (t_users (pg_db s))" "usr_ID v = j"
    using 1(2,3) by (auto simp: pgau_us_def dest!: lookup_SomeD)
  have "lookup usr_Email (t_users (pg_db s)) (usr_Email u) = Some u" "lookup usr_Email (t_users (pg_db s)) (usr_Email v) = Some v"
    using u(1) v(1) by (simp_all add: lookup_eq [OF d])
  then have "u = v" using 1(4) by (metis option.inject)
  then show ?case using u v by simp
next
  case (2 e)
  show ?case by (simp add: pgau_user_repo_def pgau_FindByEmail_def pgau_query_keeps)
next
  case (3 s e u s')
  have d: "distinct (map usr_ID (t_users (pg_db s)))" using 3(1) by (simp add: pgau_ok_def pgau_rows_ok_def)
  have "lookup usr_Email (t_users (pg_db s)) e = Some u"
    using 3(2) by (auto simp: pgau_user_repo_def pgau_FindByEmail_def dest!: query_row_Inr)
  then have "u \<in> set (t_users (pg_db s)) \<and> usr_Email u = e" by (rule lookup_SomeD)
  then show ?case using d by (simp add: pgau_us_def lookup_eq)
next
  case (4 s e s' i v)
  then have "lookup usr_Email (t_users (pg_db s)) e = None"
    by (auto simp: pgau_user_repo_def pgau_FindByEmail_def dest!: query_row_Inl)
  then show ?case using 4(3) by (auto simp: pgau_us_def lookup_None dest!: lookup_SomeD)
next
  case (5 i)
  show ?case by (simp add: pgau_user_repo_def pgau_FindByID_def pgau_query_keeps)
next
  case (6 s i u s')
  then show ?case by (auto simp: pgau_user_repo_def pgau_FindByID_def pgau_us_def dest!: query_row_Inr dest: lookup_SomeD)
next
  case (7 s u x s')
  then obtain y where y: "stmt (\<lambda>n t. pg_insert_user u) s = (y, s')" "isl x = isl y" "\<not> isl y \<Longrightarrow> x = y"
    by (auto simp: pgau_user_repo_def pgau_Create_def map_err_def split: prod.splits sum.splits)
  show ?case
  proof (cases y)
    case (Inl e)
    then show ?thesis using y 7(1) stmt_Inl [OF y(1) [unfolded Inl]] pgau_view [of s' s] by (cases x) auto
  next
    case (Inr v)
    then show ?thesis using y pgau_insert_user [OF _ 7(1)] by auto
  qed
next
  case (8 s t y s')
  then have run: "stmt (\<lambda>n tk. pg_insert_token t) s = (y, s')" by (simp add: pgau_refresh_repo_def pgau_CreateToken_def)
  show ?case
  proof (cases y)
    case (Inl e)
    then show ?thesis using 8(1) stmt_Inl [OF run [unfolded Inl]] pgau_view [of s' s] by auto
  next
    case (Inr v)
    have rows: "pgau_rows_ok (pg_db s)" using 8(1) by (simp add: pgau_ok_def)
    show ?thesis using pg_insert_token_Inr [OF stmt_Inr [OF run [unfolded Inr]] rows] Inr 8(3)
      by (simp add: pgau_ok_def pgau_us_def pgau_tk_def token_row_unrevoked)
  qed
next
  case (9 h)
  show ?case by (simp add: pgau_refresh_repo_def pgau_FindByHash_def pgau_query_keeps)
next
  case (10 s h r s')
  then show ?case by (auto simp: pgau_refresh_repo_def pgau_FindByHash_def pgau_tk_def dest!: query_row_Inr)
next
  case (11 s t h at y s')
  then have run: "pgau_Rotate h at t s = (y, s')" by (simp add: pgau_refresh_repo_def)
  show ?case
  proof (cases y)
    case (Inl e)
    then have "pg_db s' = pg_db s" using run by (auto simp: pgau_Rotate_def dest: transaction_Inl)
    then show ?thesis using Inl 11(1) pgau_view [of s' s] by simp
  next
    case (Inr c)
    then show ?thesis using pgau_Rotate_shape [OF 11(1,2,3)] run by auto
  qed
next
  case (12 s i at z s')
  then have run: "pgau_Revoke i at s = (z, s')" by (simp add: pgau_refresh_repo_def)
  show ?case
  proof (cases z)
    case (Inl e)
    then show ?thesis using run 12(1) pgau_view [of s' s] by (auto simp: pgau_Revoke_def dest!: changed_row_Inl)
  next
    case (Inr x)
    have d: "distinct (map rft_ID (t_refresh_tokens (pg_db s)))" "distinct (map rft_TokenHash (t_refresh_tokens (pg_db s)))"
      using 12(1) by (simp_all add: pgau_ok_def pgau_rows_ok_def)
    obtain r where r: "r \<in> set (t_refresh_tokens (pg_db s))" "rft_ID r = i \<and> rft_RevokedAt r = None"
      and s': "pg_db s' = pg_revoke_tokens (\<lambda>r. rft_ID r = i \<and> rft_RevokedAt r = None) at (pg_db s)"
      using run Inr by (auto simp: pgau_Revoke_def dest!: changed_row_Inr)
    have only: "q = r" if "q \<in> set (t_refresh_tokens (pg_db s))" "rft_ID q = i \<and> rft_RevokedAt q = None" for q
      using key_unique [OF d(1) that(1) r(1)] that(2) r(2) by simp
    have "pgau_tk s (rft_TokenHash r) = Some r" using r d(2) by (simp add: pgau_tk_def lookup_eq)
    moreover have "pgau_ok s' \<and> pgau_us s' = pgau_us s" using s' 12(1) pg_revoke_rows by (simp add: pgau_ok_def pgau_us_def) (simp add: pg_revoke_tokens_def)
    moreover have "pgau_tk s' = (pgau_tk s)(rft_TokenHash r \<mapsto> r\<lparr>rft_RevokedAt := Some (pg_time at)\<rparr>)"
      unfolding pgau_tk_def s' by (rule pg_revoke_one) (use d(2) r only in blast)+
    ultimately show ?thesis using Inr r(2) by auto
  qed
next
  case (13 s i at z s')
  then have run: "stmt (\<lambda>n t db. Inr ((), pg_revoke_tokens (\<lambda>r. rft_UserID r = i \<and> rft_RevokedAt r = None) at db)) s = (z, s')"
    by (simp add: pgau_refresh_repo_def pgau_RevokeAllForUser_def)
  show ?case
  proof (cases z)
    case (Inl e)
    then show ?thesis using 13(1) stmt_Inl [OF run [unfolded Inl]] pgau_view [of s' s] by auto
  next
    case (Inr x)
    then have s': "pg_db s' = pg_revoke_tokens (\<lambda>r. rft_UserID r = i \<and> rft_RevokedAt r = None) at (pg_db s)"
      using stmt_Inr [OF run [unfolded Inr]] by simp
    have "pgau_ok s' \<and> pgau_us s' = pgau_us s" using s' 13(1) pg_revoke_rows by (simp add: pgau_ok_def pgau_us_def) (simp add: pg_revoke_tokens_def)
    moreover have "pgau_tk s' = revoke_all i (pg_time at) (pgau_tk s)" using s' by (simp add: pgau_tk_def pg_revoke_tk revoke_all_def)
    ultimately show ?thesis using Inr by simp
  qed
qed

end
