(* ===== verification/Postgres_Projects.thy ===== *)
theory Postgres_Projects
  imports Database Projects_Memory
begin

text \<open>
  \<open>internal/projects/adapter/postgres\<close>: projects and their members in the database, and the interpretation of \<open>project_store\<close>
  on them.
\<close>

section \<open>Operations\<close>

definition project_row :: "project \<Rightarrow> project" where
  "project_row p = p\<lparr>prj_CreatedAt := pg_time (prj_CreatedAt p), prj_UpdatedAt := pg_time (prj_UpdatedAt p)\<rparr>"

definition mb_id :: "member \<Rightarrow> uuid \<times> uuid" where
  "mb_id m = (mb_ProjectID m, mb_UserID m)"

definition pg_insert_project :: "project \<Rightarrow> database \<Rightarrow> err + project \<times> database" where
  "pg_insert_project p db =
     (if prj_ID p \<in> prj_ID ` set (t_projects db) then Inl unique_violation
      else if prj_CreatedBy p \<notin> usr_ID ` set (t_users db) then Inl foreign_key_violation
      else Inr (project_row p, db\<lparr>t_projects := t_projects db @ [project_row p]\<rparr>))"

definition pg_insert_member :: "member \<Rightarrow> database \<Rightarrow> err + unit \<times> database" where
  "pg_insert_member m db =
     (if mb_id m \<in> mb_id ` set (t_members db) then Inl unique_violation
      else if mb_ProjectID m \<notin> prj_ID ` set (t_projects db) \<or> mb_UserID m \<notin> usr_ID ` set (t_users db) then Inl foreign_key_violation
      else Inr ((), db\<lparr>t_members := t_members db @ [m\<lparr>mb_CreatedAt := pg_time (mb_CreatedAt m)\<rparr>]\<rparr>))"

definition pgpr_CreateWithOwner :: "project \<Rightarrow> member \<Rightarrow> (pg, project) op" where
  "pgpr_CreateWithOwner p owner =
     transaction
       (andthen (stmt (\<lambda>n t. pg_insert_project p)) (\<lambda>out.
        andthen (stmt (\<lambda>n t. pg_insert_member owner)) (\<lambda>_. ret out)))"

definition pgpr_GetByID :: "uuid \<Rightarrow> (pg, project) op" where
  "pgpr_GetByID i = query_row (ErrNotFound Projects) (\<lambda>db. lookup prj_ID (t_projects db) i)"

text \<open>The rows of \<open>projects INNER JOIN project_members\<close> of a user.\<close>

definition pg_projects_of :: "uuid \<Rightarrow> database \<Rightarrow> project_with_role list" where
  "pg_projects_of u db =
     concat (map (\<lambda>p. map (\<lambda>m. \<lparr>pwr_Project = p, pwr_Role = mb_Role m\<rparr>)
         (filter (\<lambda>m. mb_ProjectID m = prj_ID p \<and> mb_UserID m = u) (t_members db))) (t_projects db))"

definition pgpr_ListForUser :: "'z golib_scheme \<Rightarrow> uuid \<Rightarrow> page \<Rightarrow> (pg, project_with_role page_result) op" where
  "pgpr_ListForUser L u p = pg_page_desc L pwr_key p (pg_projects_of u)"

text \<open>\<open>UPDATE .. RETURNING\<close>: only the name and the instant of the update are written.\<close>

definition pgpr_Update :: "project \<Rightarrow> (pg, project) op" where
  "pgpr_Update p =
     andthen (stmt (\<lambda>n t db.
         let rows = update_where (\<lambda>r. prj_ID r = prj_ID p)
               (\<lambda>r. r\<lparr>prj_Name := prj_Name p, prj_UpdatedAt := pg_time (prj_UpdatedAt p)\<rparr>) (t_projects db)
         in Inr (lookup prj_ID rows (prj_ID p), db\<lparr>t_projects := rows\<rparr>))) (\<lambda>r.
     case r of None \<Rightarrow> fail (ErrNotFound Projects) | Some out \<Rightarrow> ret out)"

definition pgpr_Delete :: "uuid \<Rightarrow> (pg, unit) op" where
  "pgpr_Delete i = changed_row (ErrNotFound Projects) (changes t_projects (\<lambda>p. prj_ID p = i) (delete_project i))"

definition pgpr_GetMembership :: "uuid \<Rightarrow> uuid \<Rightarrow> (pg, member) op" where
  "pgpr_GetMembership p u = query_row (ErrNotFound Projects) (\<lambda>db. lookup mb_id (t_members db) (p, u))"

definition pgpr_AddMember :: "member \<Rightarrow> (pg, unit) op" where
  "pgpr_AddMember m =
     map_err (\<lambda>e. if e = unique_violation then ErrAlreadyMember else if e = foreign_key_violation then ErrNotFound Projects else e)
       (stmt (\<lambda>n t. pg_insert_member m))"

definition pgpr_RemoveMember :: "uuid \<Rightarrow> uuid \<Rightarrow> (pg, unit) op" where
  "pgpr_RemoveMember p u =
     changed_row (ErrNotFound Projects)
       (changes t_members (\<lambda>m. mb_id m = (p, u)) (\<lambda>db. db\<lparr>t_members := filter (\<lambda>m. mb_id m \<noteq> (p, u)) (t_members db)\<rparr>))"

definition pgpr_ListMembers :: "'z golib_scheme \<Rightarrow> uuid \<Rightarrow> page \<Rightarrow> (pg, member page_result) op" where
  "pgpr_ListMembers L i p = pg_page_asc L mb_key p (\<lambda>db. filter (\<lambda>m. mb_ProjectID m = i) (t_members db))"

definition pgpr_CountOwners :: "uuid \<Rightarrow> (pg, int) op" where
  "pgpr_CountOwners i =
     andthen (query (\<lambda>db. int (count_where (\<lambda>m. mb_ProjectID m = i \<and> mb_Role m = RoleOwner) (t_members db)))) ret"

definition pgpr_repo :: "'z golib_scheme \<Rightarrow> pg project_repository" where
  "pgpr_repo L =
     \<lparr>pr_CreateWithOwner = pgpr_CreateWithOwner, pr_GetByID = pgpr_GetByID, pr_ListForUser = pgpr_ListForUser L,
      pr_Update = pgpr_Update, pr_Delete = pgpr_Delete, pr_GetMembership = pgpr_GetMembership, pr_AddMember = pgpr_AddMember,
      pr_RemoveMember = pgpr_RemoveMember, pr_ListMembers = pgpr_ListMembers L, pr_CountOwners = pgpr_CountOwners\<rparr>"

section \<open>The contract\<close>

definition pgpr_rows_ok :: "database \<Rightarrow> bool" where
  "pgpr_rows_ok db \<longleftrightarrow>
     distinct (map prj_ID (t_projects db)) \<and> distinct (map mb_id (t_members db))
     \<and> (\<forall>m\<in>set (t_members db). mb_ProjectID m \<in> prj_ID ` set (t_projects db))"

definition pgpr_rows :: "database \<Rightarrow> projects_view" where
  "pgpr_rows db = (lookup prj_ID (t_projects db), \<lambda>p u. lookup mb_id (t_members db) (p, u))"

definition pgpr_ok :: "pg \<Rightarrow> bool" where "pgpr_ok s \<longleftrightarrow> pgpr_rows_ok (pg_db s)"
definition pgpr_view :: "pg \<Rightarrow> projects_view" where "pgpr_view s = pgpr_rows (pg_db s)"

lemma pgpr_reads: "keeps pg_db m \<Longrightarrow> keeps (\<lambda>s. (pgpr_ok s, pgpr_view s)) m"
  by (simp add: keeps_def pgpr_ok_def pgpr_view_def)

lemma pg_insert_project_Inr:
  assumes "pg_insert_project q db = Inr (q', db')" "pgpr_rows_ok db"
  shows "q' = project_row q \<and> pgpr_rows_ok db' \<and> (\<forall>u. lookup mb_id (t_members db) (prj_ID q, u) = None)
     \<and> pgpr_rows db' = ((fst (pgpr_rows db))(prj_ID q \<mapsto> q'), snd (pgpr_rows db))"
proof -
  have new: "prj_ID q \<notin> prj_ID ` set (t_projects db)"
    and r: "q' = project_row q" "db' = db\<lparr>t_projects := t_projects db @ [project_row q]\<rparr>"
    using assms(1) by (auto simp: pg_insert_project_def split: if_splits)
  have id: "prj_ID (project_row q) = prj_ID q" by (simp add: project_row_def)
  have "lookup mb_id (t_members db) (prj_ID q, u) = None" for u
    using assms(2) new by (auto simp: lookup_None pgpr_rows_ok_def mb_id_def)
  then show ?thesis using assms(2) new r id lookup_insert [of prj_ID "project_row q" "t_projects db"]
    by (auto simp: pgpr_rows_ok_def pgpr_rows_def)
qed

lemma pg_insert_member_Inr:
  assumes "pg_insert_member w db = Inr (u, db')" "pgpr_rows_ok db"
  shows "pgpr_rows_ok db' \<and> fst (pgpr_rows db) (mb_ProjectID w) \<noteq> None \<and> snd (pgpr_rows db) (mb_ProjectID w) (mb_UserID w) = None
     \<and> (\<exists>w'. mb_Role w' = mb_Role w
       \<and> pgpr_rows db' = (fst (pgpr_rows db), members_upd (snd (pgpr_rows db)) (mb_ProjectID w) (mb_UserID w) (Some w')))"
proof -
  let ?w = "w\<lparr>mb_CreatedAt := pg_time (mb_CreatedAt w)\<rparr>"
  have new: "mb_id w \<notin> mb_id ` set (t_members db)" "mb_ProjectID w \<in> prj_ID ` set (t_projects db)"
    and r: "db' = db\<lparr>t_members := t_members db @ [?w]\<rparr>"
    using assms(1) by (auto simp: pg_insert_member_def split: if_splits)
  have id: "mb_id ?w = mb_id w" by (simp add: mb_id_def)
  have "lookup mb_id (t_members db') = (lookup mb_id (t_members db))(mb_id w \<mapsto> ?w)"
    using lookup_insert [of mb_id ?w "t_members db"] new(1) id r by simp
  then have "pgpr_rows db' = (fst (pgpr_rows db), members_upd (snd (pgpr_rows db)) (mb_ProjectID w) (mb_UserID w) (Some ?w))"
    using r by (auto simp: pgpr_rows_def members_upd_def mb_id_def fun_eq_iff)
  moreover have "pgpr_rows_ok db'" using assms(2) new r id by (auto simp: pgpr_rows_ok_def mb_id_def)
  moreover have "lookup prj_ID (t_projects db) (mb_ProjectID w) \<noteq> None" "lookup mb_id (t_members db) (mb_id w) = None"
    using new by (auto simp: lookup_None)
  ultimately show ?thesis by (intro conjI exI [of _ ?w]) (simp_all add: pgpr_rows_def mb_id_def)
qed

lemma pgpr_create_shape:
  assumes "pgpr_CreateWithOwner q w s = (Inr q', s')" "pgpr_ok s" "mb_ProjectID w = prj_ID q"
  shows "pgpr_ok s' \<and> prj_ID q' = prj_ID q \<and> (\<exists>w'. mb_Role w' = mb_Role w
     \<and> pgpr_view s' = ((fst (pgpr_view s))(prj_ID q \<mapsto> q'), (snd (pgpr_view s))(prj_ID q := [mb_UserID w \<mapsto> w'])))"
  using assms(1) unfolding pgpr_CreateWithOwner_def
proof (cases rule: transaction_cases)
  case (err e)
  then show ?thesis by simp
next
  case (ok a s0 s1)
  then obtain s2 where p: "stmt (\<lambda>n t. pg_insert_project q) s0 = (Inr q', s2)"
    and m: "stmt (\<lambda>n t. pg_insert_member w) s2 = (Inr (), s1)"
    by (auto elim!: andthen_InrE)
  have rows: "pgpr_rows_ok (pg_db s)" using assms(2) by (simp add: pgpr_ok_def)
  note P = pg_insert_project_Inr [OF stmt_Inr [OF p] rows [folded ok(2)]]
  note M = pg_insert_member_Inr [OF stmt_Inr [OF m]]
  have none: "snd (pgpr_rows (pg_db s)) (prj_ID q) = Map.empty" using P ok(2) by (auto simp: pgpr_rows_def)
  obtain w' where "mb_Role w' = mb_Role w" "pgpr_rows (pg_db s1) = (fst (pgpr_rows (pg_db s2)),
      members_upd (snd (pgpr_rows (pg_db s2))) (mb_ProjectID w) (mb_UserID w) (Some w'))" "pgpr_rows_ok (pg_db s1)"
    using M P by blast
  then show ?thesis using P none ok(2,4) assms(3)
    by (intro conjI exI [of _ w']) (auto simp: pgpr_ok_def pgpr_view_def project_row_def members_upd_def fun_eq_iff)
qed

lemma pgpr_Update_cases:
  assumes "pgpr_Update q s = (r, s')" "pgpr_ok s"
  shows "pgpr_ok s' \<and> (case r of Inl e \<Rightarrow> pgpr_view s' = pgpr_view s
     | Inr q' \<Rightarrow> fst (pgpr_view s) (prj_ID q) \<noteq> None \<and> prj_ID q' = prj_ID q
         \<and> pgpr_view s' = ((fst (pgpr_view s))(prj_ID q \<mapsto> q'), snd (pgpr_view s)))"
proof -
  let ?f = "\<lambda>r. r\<lparr>prj_Name := prj_Name q, prj_UpdatedAt := pg_time (prj_UpdatedAt q)\<rparr>"
  let ?rows = "update_where (\<lambda>r. prj_ID r = prj_ID q) ?f (t_projects (pg_db s))"
  have upd: "lookup prj_ID ?rows = (case lookup prj_ID (t_projects (pg_db s)) (prj_ID q) of None \<Rightarrow> lookup prj_ID (t_projects (pg_db s))
      | Some r \<Rightarrow> (lookup prj_ID (t_projects (pg_db s)))(prj_ID q \<mapsto> ?f r))"
    by (rule lookup_update_one) simp
  have keys: "map prj_ID ?rows = map prj_ID (t_projects (pg_db s))" by simp
  have ids: "prj_ID ` set ?rows = prj_ID ` set (t_projects (pg_db s))"
    using arg_cong [OF keys, of set] by (simp only: set_map)
  show ?thesis using assms(1) unfolding pgpr_Update_def Let_def
  proof (cases rule: andthen_cases)
    case (err e)
    then show ?thesis using stmt_Inl [OF err(1)] assms(2) by (simp add: pgpr_ok_def pgpr_view_def)
  next
    case (ok a s1)
    then have a: "a = lookup prj_ID ?rows (prj_ID q)" "pg_db s1 = (pg_db s)\<lparr>t_projects := ?rows\<rparr>"
      using stmt_Inr [OF ok(1)] by auto
    have ok': "pgpr_ok s1" using assms(2) a(2) keys ids by (simp add: pgpr_ok_def pgpr_rows_ok_def)
    have view: "pgpr_view s1 = (lookup prj_ID ?rows, snd (pgpr_view s))" using a(2) by (simp add: pgpr_view_def pgpr_rows_def)
    show ?thesis
    proof (cases "lookup prj_ID (t_projects (pg_db s)) (prj_ID q)")
      case None
      then show ?thesis using ok a(1) ok' view upd by (auto simp: pgpr_view_def pgpr_rows_def)
    next
      case (Some r)
      then have "prj_ID (?f r) = prj_ID q" by (auto dest: lookup_SomeD)
      then show ?thesis using Some ok a(1) ok' view upd by (auto simp: pgpr_view_def pgpr_rows_def)
    qed
  qed
qed

lemma members_of_deleted:
  assumes "distinct (map mb_id ms)"
  shows "(\<lambda>p u. lookup mb_id (filter (\<lambda>m. mb_ProjectID m \<noteq> i) ms) (p, u)) = (\<lambda>p u. lookup mb_id ms (p, u))(i := Map.empty)"
proof (intro ext)
  fix p u
  show "lookup mb_id (filter (\<lambda>m. mb_ProjectID m \<noteq> i) ms) (p, u) = ((\<lambda>p u. lookup mb_id ms (p, u))(i := Map.empty)) p u"
    using lookup_delete [OF assms, of "\<lambda>m. mb_ProjectID m = i" "(p, u)"]
    by (auto simp: mb_id_def split: option.splits dest!: lookup_SomeD)
qed

lemma pgpr_Delete_cases:
  assumes "pgpr_Delete i s = (r, s')" "pgpr_ok s"
  shows "pgpr_ok s' \<and> (case r of Inl e \<Rightarrow> pgpr_view s' = pgpr_view s
     | Inr _ \<Rightarrow> pgpr_view s' = ((fst (pgpr_view s))(i := None), (snd (pgpr_view s))(i := Map.empty)))"
proof (cases r)
  case (Inl e)
  then show ?thesis using assms by (auto simp: pgpr_Delete_def pgpr_ok_def pgpr_view_def dest!: changed_row_Inl)
next
  case (Inr u)
  have d: "distinct (map prj_ID (t_projects (pg_db s)))" "distinct (map mb_id (t_members (pg_db s)))"
    using assms(2) by (simp_all add: pgpr_ok_def pgpr_rows_ok_def)
  have s': "pg_db s' = delete_project i (pg_db s)" using assms(1) Inr by (auto simp: pgpr_Delete_def dest!: changed_row_Inr)
  have "lookup prj_ID (filter (\<lambda>p. prj_ID p \<noteq> i) (t_projects (pg_db s))) = (lookup prj_ID (t_projects (pg_db s)))(i := None)"
    using lookup_delete [OF d(1), of "\<lambda>p. prj_ID p = i"] by (auto simp: fun_eq_iff split: option.splits dest!: lookup_SomeD)
  then have "pgpr_view s' = ((fst (pgpr_view s))(i := None), (snd (pgpr_view s))(i := Map.empty))"
    using members_of_deleted [OF d(2)] s' by (simp add: pgpr_view_def pgpr_rows_def)
  moreover have "pgpr_ok s'" using assms(2) s' by (auto simp: pgpr_ok_def pgpr_rows_ok_def filter_distinct_key)
  ultimately show ?thesis using Inr by simp
qed

lemma pgpr_RemoveMember_cases:
  assumes "pgpr_RemoveMember p u s = (r, s')" "pgpr_ok s"
  shows "pgpr_ok s' \<and> (case r of Inl e \<Rightarrow> pgpr_view s' = pgpr_view s
     | Inr _ \<Rightarrow> pgpr_view s' = (fst (pgpr_view s), members_upd (snd (pgpr_view s)) p u None))"
proof (cases r)
  case (Inl e)
  then show ?thesis using assms by (auto simp: pgpr_RemoveMember_def pgpr_ok_def pgpr_view_def dest!: changed_row_Inl)
next
  case (Inr x)
  have d: "distinct (map mb_id (t_members (pg_db s)))" using assms(2) by (simp add: pgpr_ok_def pgpr_rows_ok_def)
  have s': "pg_db s' = (pg_db s)\<lparr>t_members := filter (\<lambda>m. mb_id m \<noteq> (p, u)) (t_members (pg_db s))\<rparr>"
    using assms(1) Inr by (auto simp: pgpr_RemoveMember_def dest!: changed_row_Inr)
  have "lookup mb_id (filter (\<lambda>m. mb_id m \<noteq> (p, u)) (t_members (pg_db s))) = (lookup mb_id (t_members (pg_db s)))((p, u) := None)"
    using lookup_delete [OF d, of "\<lambda>m. mb_id m = (p, u)"] by (auto simp: fun_eq_iff split: option.splits dest!: lookup_SomeD)
  then have "pgpr_view s' = (fst (pgpr_view s), members_upd (snd (pgpr_view s)) p u None)"
    using s' by (auto simp: pgpr_view_def pgpr_rows_def members_upd_def fun_eq_iff)
  moreover have "pgpr_ok s'" using assms(2) s' by (auto simp: pgpr_ok_def pgpr_rows_ok_def filter_distinct_key)
  ultimately show ?thesis using Inr by simp
qed

lemma pgpr_count:
  assumes "pgpr_CountOwners i s = (Inr n, s')" "pgpr_ok s"
  shows "n = int (card (owners (pgpr_view s) i))"
proof -
  let ?ms = "t_members (pg_db s)"
  let ?os = "filter (\<lambda>m. mb_ProjectID m = i \<and> mb_Role m = RoleOwner) ?ms"
  have d: "distinct (map mb_id ?ms)" using assms(2) by (simp add: pgpr_ok_def pgpr_rows_ok_def)
  have n: "n = int (length ?os)"
    using assms(1) by (auto simp: pgpr_CountOwners_def count_where_def elim!: andthen_InrE dest!: query_Inr)
  have "distinct (map mb_id ?os)" using d by (rule filter_distinct_key)
  then have "inj_on mb_id (set ?os)" "distinct ?os" by (simp_all add: distinct_map)
  moreover have "inj_on mb_UserID (set ?os)"
    using calculation(1) by (auto simp: inj_on_def mb_id_def)
  ultimately have "card (mb_UserID ` set ?os) = length ?os"
    using card_image [of mb_UserID "set ?os"] distinct_card [of ?os] by (simp only:)
  moreover have "owners (pgpr_view s) i = mb_UserID ` set ?os"
    using d by (force simp: owners_def pgpr_view_def pgpr_rows_def is_owner_def lookup_eq mb_id_def)
  ultimately show ?thesis using n by simp
qed

lemma pgpr_AddMember_cases:
  assumes "pgpr_AddMember w s = (r, s')" "pgpr_ok s"
  shows "pgpr_ok s' \<and> (case r of Inl e \<Rightarrow> pgpr_view s' = pgpr_view s
     | Inr _ \<Rightarrow> fst (pgpr_view s) (mb_ProjectID w) \<noteq> None \<and> snd (pgpr_view s) (mb_ProjectID w) (mb_UserID w) = None
         \<and> (\<exists>w'. mb_Role w' = mb_Role w
           \<and> pgpr_view s' = (fst (pgpr_view s), members_upd (snd (pgpr_view s)) (mb_ProjectID w) (mb_UserID w) (Some w'))))"
proof -
  obtain y where y: "stmt (\<lambda>n t. pg_insert_member w) s = (y, s')" "isl y = isl r" "\<not> isl y \<Longrightarrow> r = y"
    using assms(1) by (auto simp: pgpr_AddMember_def map_err_def split: prod.splits sum.splits)
  show ?thesis
  proof (cases y)
    case (Inl e)
    then show ?thesis using y(2) stmt_Inl [OF y(1) [unfolded Inl]] assms(2) by (cases r) (simp_all add: pgpr_ok_def pgpr_view_def)
  next
    case (Inr u)
    have "pgpr_rows_ok (pg_db s)" using assms(2) by (simp add: pgpr_ok_def)
    from pg_insert_member_Inr [OF stmt_Inr [OF y(1) [unfolded Inr]] this] y(3) Inr
    show ?thesis by (simp add: pgpr_ok_def pgpr_view_def)
  qed
qed

lemma pgpr_create_keeps: "preserves pgpr_ok (pgpr_CreateWithOwner q w)"
proof -
  have "pgpr_ok s'" if "pgpr_ok s" and run: "pgpr_CreateWithOwner q w s = (r, s')" for s r s'
    using run unfolding pgpr_CreateWithOwner_def
  proof (cases rule: transaction_cases)
    case (err e)
    then show ?thesis using that(1) by (simp add: pgpr_ok_def)
  next
    case (ok a s0 s1)
    then obtain s2 where p: "stmt (\<lambda>n t. pg_insert_project q) s0 = (Inr a, s2)"
      and m: "stmt (\<lambda>n t. pg_insert_member w) s2 = (Inr (), s1)"
      by (auto elim!: andthen_InrE)
    have rows: "pgpr_rows_ok (pg_db s0)" using that(1) ok(2) by (simp add: pgpr_ok_def)
    have "pgpr_rows_ok (pg_db s2)" using pg_insert_project_Inr [OF stmt_Inr [OF p] rows] by simp
    then have "pgpr_rows_ok (pg_db s1)" using pg_insert_member_Inr [OF stmt_Inr [OF m]] by simp
    then show ?thesis using ok(4) by (simp add: pgpr_ok_def)
  qed
  then show ?thesis by (intro preservesI) (metis prod.collapse)
qed

lemma pgpr_preserves:
  assumes "\<And>s r s'. m s = (r, s') \<Longrightarrow> pgpr_ok s \<Longrightarrow> pgpr_ok s' \<and> C s r s'"
  shows "preserves pgpr_ok m"
  using assms by (intro preservesI) (metis prod.collapse)

lemma pgpr_list_keeps: "keeps pg_db (pgpr_ListForUser L u p)" "keeps pg_db (pgpr_ListMembers L i p)" "keeps pg_db (pgpr_CountOwners i)"
  unfolding pgpr_ListForUser_def pgpr_ListMembers_def pgpr_CountOwners_def
  by (rule page_keeps_db, rule page_keeps_db, intro keeps_andthen query_keeps_db keeps_ret)

lemma pgpr_membership:
  "pgpr_GetMembership p u s = (Inr m, s') \<Longrightarrow> snd (pgpr_view s) p u = Some m"
  "pgpr_GetMembership p u s = (Inl (ErrNotFound Projects), s') \<Longrightarrow> snd (pgpr_view s) p u = None"
  by (auto simp: pgpr_GetMembership_def pgpr_view_def pgpr_rows_def dest!: query_row_Inr query_row_Inl)

lemma pgpr_get: "pgpr_GetByID p s = (Inr q, s') \<Longrightarrow> fst (pgpr_view s) p = Some q \<and> prj_ID q = p"
  by (auto simp: pgpr_GetByID_def pgpr_view_def pgpr_rows_def dest!: query_row_Inr dest: lookup_SomeD)

lemma pgpr_create_fails: "pgpr_CreateWithOwner q w s = (Inl e, s') \<Longrightarrow> pgpr_view s' = pgpr_view s"
  by (simp add: pgpr_CreateWithOwner_def pgpr_view_def transaction_Inl)

interpretation pgpr: project_store "pgpr_repo L" pgpr_ok pgpr_view
proof (unfold_locales, goal_cases)
  case (1 q w)
  show ?case by (simp add: pgpr_repo_def pgpr_create_keeps)
next
  case (2 q)
  show ?case unfolding pgpr_repo_def by simp (rule pgpr_preserves, rule pgpr_Update_cases)
next
  case (3 p)
  show ?case unfolding pgpr_repo_def by simp (rule pgpr_preserves, rule pgpr_Delete_cases)
next
  case (4 w)
  show ?case unfolding pgpr_repo_def by simp (rule pgpr_preserves, rule pgpr_AddMember_cases)
next
  case (5 p u)
  show ?case unfolding pgpr_repo_def by simp (rule pgpr_preserves, rule pgpr_RemoveMember_cases)
next
  case (6 p)
  show ?case unfolding pgpr_repo_def by simp (simp add: pgpr_GetByID_def pgpr_reads query_row_keeps)
next
  case (7 u pg)
  show ?case unfolding pgpr_repo_def by simp (simp add: pgpr_reads pgpr_list_keeps)
next
  case (8 p u)
  show ?case unfolding pgpr_repo_def by simp (simp add: pgpr_GetMembership_def pgpr_reads query_row_keeps)
next
  case (9 p pg)
  show ?case unfolding pgpr_repo_def by simp (simp add: pgpr_reads pgpr_list_keeps)
next
  case (10 p)
  show ?case unfolding pgpr_repo_def by simp (simp add: pgpr_reads pgpr_list_keeps)
next
  case (11 s q w e s')
  then show ?case by (simp add: pgpr_repo_def pgpr_create_fails)
next
  case (12 s q e s')
  then show ?case using pgpr_Update_cases [of q s "Inl e" s'] by (simp add: pgpr_repo_def)
next
  case (13 s p e s')
  then show ?case using pgpr_Delete_cases [of p s "Inl e" s'] by (simp add: pgpr_repo_def)
next
  case (14 s w e s')
  then show ?case using pgpr_AddMember_cases [of w s "Inl e" s'] by (simp add: pgpr_repo_def)
next
  case (15 s p u e s')
  then show ?case using pgpr_RemoveMember_cases [of p u s "Inl e" s'] by (simp add: pgpr_repo_def)
next
  case (16 s q w q' s')
  then show ?case using pgpr_create_shape [of q w s q' s'] by (simp add: pgpr_repo_def)
next
  case (17 s q q' s')
  then show ?case using pgpr_Update_cases [of q s "Inr q'" s'] by (simp add: pgpr_repo_def)
next
  case (18 s p s')
  then show ?case using pgpr_Delete_cases [of p s "Inr ()" s'] by (simp add: pgpr_repo_def)
next
  case (19 s p q s')
  then show ?case using pgpr_get by (simp add: pgpr_repo_def)
next
  case (20 s p u m s')
  then show ?case using pgpr_membership(1) by (simp add: pgpr_repo_def)
next
  case (21 s p u s')
  then show ?case using pgpr_membership(2) by (simp add: pgpr_repo_def)
next
  case (22 s w s')
  then show ?case using pgpr_AddMember_cases [of w s "Inr ()" s'] by (simp add: pgpr_repo_def)
next
  case (23 s p u s')
  then show ?case using pgpr_RemoveMember_cases [of p u s "Inr ()" s'] by (simp add: pgpr_repo_def)
next
  case (24 s p n s')
  then show ?case using pgpr_count by (simp add: pgpr_repo_def)
qed

section \<open>The service on the database\<close>

lemma pgpr_service:
  assumes "ps_repo S = pgpr_repo L"
    and "\<And>ob pre. ps_objects S = Some ob \<Longrightarrow> keeps pg_db (po_DeletePrefix ob pre)"
  shows "project_service (pgpr_repo L) pgpr_ok pgpr_view S"
  by unfold_locales (use assms pgpr_reads in auto)

definition pgpr_svc :: "'z golib_scheme \<Rightarrow> list_config \<Rightarrow> pg projects_service" where
  "pgpr_svc L cfg = \<lparr>ps_repo = pgpr_repo L, ps_objects = None, ps_listCfg = cfg\<rparr>"

interpretation pgpr_svc: project_service "pgpr_repo L" pgpr_ok pgpr_view "pgpr_svc L cfg"
  by (rule pgpr_service) (simp_all add: pgpr_svc_def)

text \<open>
  C36: also on the database, where any statement may fail and a duplicate or dangling key is refused, no sequence of calls of the
  project service leaves a project without an owner or a member without a project: a failed \<open>CreateWithOwner\<close> leaves neither of its
  rows, and deleting a project takes its members with it.
\<close>

theorem stored_projects_keep_an_owner:
  assumes "pgpr_ok s" "owned (pgpr_view s)"
    and "prs_reach L (pgpr_svc L cfg) (\<lambda>s p. p \<in> prj_ID ` set (t_projects (pg_db s))) s s'"
  shows "owned (pgpr_view s')
    \<and> (\<forall>p\<in>set (t_projects (pg_db s')). \<exists>m\<in>set (t_members (pg_db s')). mb_ProjectID m = prj_ID p \<and> mb_Role m = RoleOwner)"
proof -
  have "(\<lambda>s p. fst (pgpr_view s) p \<noteq> None) = (\<lambda>s p. p \<in> prj_ID ` set (t_projects (pg_db s)))"
    by (intro ext) (simp add: pgpr_view_def pgpr_rows_def lookup_None)
  then have "prs_reach L (pgpr_svc L cfg) (\<lambda>s p. fst (pgpr_view s) p \<noteq> None) s s'" using assms(3) by simp
  then have o: "owned (pgpr_view s')" using pgpr_svc.reach_owned assms(1,2) by blast
  moreover have "\<exists>m\<in>set (t_members (pg_db s')). mb_ProjectID m = prj_ID p \<and> mb_Role m = RoleOwner"
    if "p \<in> set (t_projects (pg_db s'))" for p
  proof -
    have "fst (pgpr_view s') (prj_ID p) \<noteq> None" using that by (simp add: pgpr_view_def pgpr_rows_def lookup_None)
    with o obtain u where "u \<in> owners (pgpr_view s') (prj_ID p)" using owned_ex by blast
    then show ?thesis by (auto simp: owners_def is_owner_def pgpr_view_def pgpr_rows_def mb_id_def dest!: lookup_SomeD)
  qed
  ultimately show ?thesis by blast
qed

text \<open>A database with two users, on which the third statement fails.\<close>

definition sample_tick :: "nat \<Rightarrow> tick" where
  "sample_tick n = \<lparr>tk_fault = (if n = 2 then Some ''connection reset'' else None), tk_now = int n * 1000, tk_uuid = 100 + of_nat n,
     tk_locked = (\<lambda>_. False)\<rparr>"

definition sample_user :: "uuid \<Rightarrow> string \<Rightarrow> user" where
  "sample_user i e = \<lparr>usr_ID = i, usr_Email = e, usr_PasswordHash = ''h'', usr_Name = [], usr_CreatedAt = 0, usr_UpdatedAt = 0\<rparr>"

definition sample_pg :: pg where
  "sample_pg = \<lparr>pg_db = empty_database\<lparr>t_users := [sample_user 1 ''a@x'', sample_user 2 ''b@x'']\<rparr>, pg_step = 0, pg_ticks = sample_tick\<rparr>"

definition sample_pg_run :: pg where
  "sample_pg_run = snd (prs_Create (pgpr_svc sample_lib \<lparr>lc_DefaultLimit = 50, lc_MaxLimit = 100\<rparr>) 1 ''two'' 5000 8 5000
     (snd (prs_Create (pgpr_svc sample_lib \<lparr>lc_DefaultLimit = 50, lc_MaxLimit = 100\<rparr>) 1 ''one'' 5000 7 5000 sample_pg)))"

lemma sample_pg_run_first:
  "isl (fst (prs_Create (pgpr_svc sample_lib \<lparr>lc_DefaultLimit = 50, lc_MaxLimit = 100\<rparr>) 1 ''one'' 5000 7 5000 sample_pg))"
  by code_simp

lemma sample_pg_run_projects: "map prj_ID (t_projects (pg_db sample_pg_run)) = [8] \<and> map mb_id (t_members (pg_db sample_pg_run)) = [(8, 1)]"
  by code_simp

theorem stored_projects_keep_an_owner_witness:
  "map prj_ID (t_projects (pg_db sample_pg_run)) = [8] \<and> owned (pgpr_view sample_pg_run)"
proof -
  have ok: "pgpr_ok sample_pg" by (simp add: pgpr_ok_def pgpr_rows_ok_def sample_pg_def empty_database_def)
  have none: "owned (pgpr_view sample_pg)"
    by (simp add: owned_def pgpr_view_def pgpr_rows_def lookup_def sample_pg_def empty_database_def)
  let ?S = "pgpr_svc sample_lib \<lparr>lc_DefaultLimit = 50, lc_MaxLimit = 100\<rparr>"
  have "t_projects (pg_db (snd (prs_Create ?S 1 ''one'' 5000 7 5000 sample_pg))) = []" by code_simp
  then have "prs_reach sample_lib ?S (\<lambda>s p. p \<in> prj_ID ` set (t_projects (pg_db s))) sample_pg sample_pg_run"
    unfolding sample_pg_run_def by (intro reach_create reach_start) (simp_all add: sample_pg_def empty_database_def)
  from stored_projects_keep_an_owner [OF ok none this] show ?thesis using sample_pg_run_projects by simp
qed

end
