(* ===== verification/Postgres_Uploads.thy ===== *)
theory Postgres_Uploads
  imports Postgres_Projects Outbox
begin

text \<open>
  \<open>internal/uploads/adapter/postgres\<close>: recordings and the outbox in the database, the interpretations of \<open>recording_store\<close> and
  \<open>outbox_store\<close>, and what the transactional outbox promises when statements fail.
\<close>

section \<open>Recordings\<close>

definition recording_row :: "recording \<Rightarrow> db_recording" where
  "recording_row r =
     recording.extend (r\<lparr>rec_CreatedAt := pg_time (rec_CreatedAt r), rec_UpdatedAt := pg_time (rec_UpdatedAt r)\<rparr>)
       (db_recording.fields None None)"

text \<open>\<open>scanRecording\<close>: a row as the program reads it. (\<open>NULL\<close> and the empty checksum are the same to it.)\<close>

definition scan_recording :: "jsonb \<Rightarrow> db_recording \<Rightarrow> recording" where
  "scan_recording J r = recording.truncate (r\<lparr>rec_Metadata := jsonb_text J (rec_Metadata r)\<rparr>)"

definition pg_insert_recording :: "jsonb \<Rightarrow> recording \<Rightarrow> database \<Rightarrow> err + recording \<times> database" where
  "pg_insert_recording J r db =
     (if J (rec_Metadata r) = None then Inl invalid_json
      else if rec_ID r \<in> rec_ID ` set (t_recordings db) then Inl unique_violation
      else if rec_ProjectID r \<notin> prj_ID ` set (t_projects db) \<or> rec_CreatedBy r \<notin> usr_ID ` set (t_users db) then Inl foreign_key_violation
      else Inr (scan_recording J (recording_row r), db\<lparr>t_recordings := t_recordings db @ [recording_row r]\<rparr>))"

definition pgup_Create :: "jsonb \<Rightarrow> recording \<Rightarrow> (pg, recording) op" where
  "pgup_Create J r = stmt (\<lambda>n t. pg_insert_recording J r)"

definition pgup_Get :: "jsonb \<Rightarrow> uuid \<Rightarrow> (pg, recording) op" where
  "pgup_Get J i = query_row (ErrNotFound Uploads) (\<lambda>db. map_option (scan_recording J) (lookup rec_ID (t_recordings db) i))"

text \<open>\<open>UPDATE recordings SET f WHERE id = i AND p RETURNING ..\<close>: the row as it then is, if there is one.\<close>

definition pg_update_recording ::
    "jsonb \<Rightarrow> uuid \<Rightarrow> (db_recording \<Rightarrow> bool) \<Rightarrow> (db_recording \<Rightarrow> db_recording) \<Rightarrow> database \<Rightarrow> recording option \<times> database" where
  "pg_update_recording J i p f db =
     (case find (\<lambda>r. rec_ID r = i \<and> p r) (t_recordings db) of
        None \<Rightarrow> (None, db)
      | Some r \<Rightarrow> (Some (scan_recording J (f r)),
          db\<lparr>t_recordings := update_where (\<lambda>r. rec_ID r = i \<and> p r) f (t_recordings db)\<rparr>))"

definition pgup_Update :: "jsonb \<Rightarrow> recording \<Rightarrow> (pg, recording) op" where
  "pgup_Update J rec =
     andthen (stmt (\<lambda>n t db.
         if J (rec_Metadata rec) = None then Inl invalid_json
         else Inr (pg_update_recording J (rec_ID rec) (\<lambda>_. True)
           (\<lambda>r. r\<lparr>rec_Status := rec_Status rec, rec_ByteSize := rec_ByteSize rec, rec_Checksum := rec_Checksum rec,
                  rec_Metadata := rec_Metadata rec, rec_UpdatedAt := pg_time (rec_UpdatedAt rec)\<rparr>) db))) (\<lambda>r.
     case r of None \<Rightarrow> fail (ErrNotFound Uploads) | Some out \<Rightarrow> ret out)"

section \<open>The outbox\<close>

definition outbox_row :: "string \<Rightarrow> string \<Rightarrow> bytes \<Rightarrow> string \<Rightarrow> int \<Rightarrow> go_time \<Rightarrow> db_outbox" where
  "outbox_row topic key payload corr n at =
     \<lparr>ob_id = n, ob_topic = topic, ob_partition_key = key, ob_payload = payload, ob_correlation_id = corr,
      ob_created_at = pg_time at, ob_published_at = None\<rparr>"

definition pg_insert_outbox :: "jsonb \<Rightarrow> string \<Rightarrow> string \<Rightarrow> bytes \<Rightarrow> string \<Rightarrow> int \<Rightarrow> tick \<Rightarrow> database \<Rightarrow> err + unit \<times> database" where
  "pg_insert_outbox J topic key payload corr n t db =
     (if J payload = None then Inl invalid_json
      else Inr ((), db\<lparr>t_outbox := t_outbox db @ [outbox_row topic key payload corr n (tk_now t)]\<rparr>))"

definition pgup_InsertOutbox :: "jsonb \<Rightarrow> string \<Rightarrow> string \<Rightarrow> bytes \<Rightarrow> string \<Rightarrow> (pg, unit) op" where
  "pgup_InsertOutbox J topic key payload corr = stmt (pg_insert_outbox J topic key payload corr)"

text \<open>
  A transaction that, where its statements ask for nothing to be committed (\<open>None\<close>), ends with another operation through the pool
  and a rollback.
\<close>

definition transaction_else :: "(pg, 'a option) op \<Rightarrow> (pg, 'a) op \<Rightarrow> (pg, 'a) op" where
  "transaction_else m other =
     andthen (query (\<lambda>_. ())) (\<lambda>_ s.
       case m s of
         (Inl e, s') \<Rightarrow> (Inl e, s'\<lparr>pg_db := pg_db s\<rparr>)
       | (Inr None, s') \<Rightarrow> other (s'\<lparr>pg_db := pg_db s\<rparr>)
       | (Inr (Some a), s') \<Rightarrow>
           (case query (\<lambda>_. ()) s' of
              (Inl e, s'') \<Rightarrow> (Inl e, s''\<lparr>pg_db := pg_db s\<rparr>)
            | (Inr _, s'') \<Rightarrow> (Inr a, s'')))"

definition pgup_CompleteWithOutbox ::
    "jsonb \<Rightarrow> recording \<Rightarrow> string \<Rightarrow> string \<Rightarrow> bytes \<Rightarrow> string \<Rightarrow> (pg, recording) op" where
  "pgup_CompleteWithOutbox J rec topic key payload corr =
     transaction_else
       (andthen (stmt (\<lambda>n t db. Inr (pg_update_recording J (rec_ID rec) (\<lambda>r. rec_Status r = UPLOADING)
           (\<lambda>r. r\<lparr>rec_Status := rec_Status rec, rec_ByteSize := rec_ByteSize rec, rec_Checksum := rec_Checksum rec,
                  rec_UpdatedAt := pg_time (rec_UpdatedAt rec)\<rparr>) db))) (\<lambda>r.
        case r of
          None \<Rightarrow> ret None
        | Some out \<Rightarrow> andthen (stmt (pg_insert_outbox J topic key payload corr)) (\<lambda>_. ret (Some out))))
       (pgup_Get J (rec_ID rec))"

definition pgup_ListAbandonedUploading :: "jsonb \<Rightarrow> go_time \<Rightarrow> int \<Rightarrow> (pg, recording list) op" where
  "pgup_ListAbandonedUploading J cutoff limit0 =
     (let limit = (if limit0 \<le> 0 then 50 else limit0)
      in query (\<lambda>db. map (scan_recording J) (take (nat limit) (sort_key rec_UpdatedAt
           (filter (\<lambda>r. rec_Status r = UPLOADING \<and> rec_UpdatedAt r < pg_time cutoff) (t_recordings db))))))"

definition pgup_DeleteIfStatus :: "uuid \<Rightarrow> rec_status \<Rightarrow> (pg, unit) op" where
  "pgup_DeleteIfStatus i st =
     changed_row (ErrNotFound Uploads)
       (changes t_recordings (\<lambda>r. rec_ID r = i \<and> rec_Status r = st) (delete_recordings (\<lambda>r. rec_ID r = i \<and> rec_Status r = st)))"

definition pgup_Delete :: "uuid \<Rightarrow> (pg, unit) op" where
  "pgup_Delete i =
     changed_row (ErrNotFound Uploads) (changes t_recordings (\<lambda>r. rec_ID r = i) (delete_recordings (\<lambda>r. rec_ID r = i)))"

definition pgup_repo :: "jsonb \<Rightarrow> pg recording_repository" where
  "pgup_repo J =
     \<lparr>rr_Create = pgup_Create J, rr_Get = pgup_Get J, rr_Update = pgup_Update J, rr_CompleteWithOutbox = pgup_CompleteWithOutbox J,
      rr_InsertOutbox = pgup_InsertOutbox J, rr_ListAbandonedUploading = pgup_ListAbandonedUploading J,
      rr_DeleteIfStatus = pgup_DeleteIfStatus, rr_Delete = pgup_Delete\<rparr>"

text \<open>\<open>WithClaimed\<close>: the unpublished rows nobody has locked, oldest first; \<open>fn\<close>; then each row is marked, and must be there.\<close>

definition scan_outbox :: "jsonb \<Rightarrow> db_outbox \<Rightarrow> outbox_message" where
  "scan_outbox J b =
     \<lparr>om_ID = ob_id b, om_Topic = ob_topic b, om_PartitionKey = ob_partition_key b, om_Payload = jsonb_text J (ob_payload b),
      om_CorrelationID = ob_correlation_id b, om_CreatedAt = ob_created_at b\<rparr>"

definition pg_claimable :: "jsonb \<Rightarrow> int \<Rightarrow> int \<Rightarrow> tick \<Rightarrow> database \<Rightarrow> err + outbox_message list \<times> database" where
  "pg_claimable J limit n t db =
     Inr (map (scan_outbox J) (take (nat limit)
       (filter (\<lambda>b. \<not> tk_locked t (ob_id b)) (sort_key ob_id (filter (\<lambda>b. ob_published_at b = None) (t_outbox db))))), db)"

definition pg_mark_published :: "go_time \<Rightarrow> unit \<Rightarrow> outbox_message \<Rightarrow> (pg, unit) op" where
  "pg_mark_published now _ m =
     andthen (changes t_outbox (\<lambda>b. ob_id b = om_ID m \<and> ob_published_at b = None)
         (\<lambda>db. db\<lparr>t_outbox := update_where (\<lambda>b. ob_id b = om_ID m \<and> ob_published_at b = None)
            (\<lambda>b. b\<lparr>ob_published_at := Some (pg_time now)\<rparr>) (t_outbox db)\<rparr>)) (\<lambda>n.
     if n \<noteq> 1 then fail (ErrOther ''outbox mark published'') else ret ())"

definition pgup_WithClaimed :: "jsonb \<Rightarrow> go_time \<Rightarrow> (pg, 'k) with_claimed" where
  "pgup_WithClaimed J now limit fn w =
     (if limit \<le> 0 then (Inr (), w)
      else let (s, k) = w
      in case andthen (query (\<lambda>_. ())) (\<lambda>_. stmt (pg_claimable J limit)) s of
           (Inl e, s1) \<Rightarrow> (Inl e, (s1, k))
         | (Inr msgs, s1) \<Rightarrow>
             if msgs = [] then (Inr (), (s1, k))
             else (case fn msgs k of
                     (Inl e, k') \<Rightarrow> (Inl e, (s1, k'))
                   | (Inr _, k') \<Rightarrow>
                       (case andthen (foreach (pg_mark_published now) () msgs) (\<lambda>_. query (\<lambda>_. ())) s1 of
                          (Inl e, s2) \<Rightarrow> (Inl e, (s2\<lparr>pg_db := pg_db s\<rparr>, k'))
                        | (Inr _, s2) \<Rightarrow> (Inr (), (s2, k')))))"

section \<open>The recordings' contract\<close>

definition pgup_rows :: "jsonb \<Rightarrow> database \<Rightarrow> uploads_view" where
  "pgup_rows J db =
     (\<lambda>i. map_option (scan_recording J) (lookup rec_ID (t_recordings db) i), map (scan_outbox J) (t_outbox db))"

definition pgup_ok :: "pg \<Rightarrow> bool" where "pgup_ok s \<longleftrightarrow> distinct (map rec_ID (t_recordings (pg_db s)))"
definition pgup_view :: "jsonb \<Rightarrow> pg \<Rightarrow> uploads_view" where "pgup_view J s = pgup_rows J (pg_db s)"

lemma pgup_same: "pg_db s' = pg_db s \<Longrightarrow> pgup_ok s' = pgup_ok s \<and> pgup_view J s' = pgup_view J s"
  by (simp add: pgup_ok_def pgup_view_def)

lemma scan_recording_fields [simp]:
  "rec_ID (scan_recording J r) = rec_ID r" "rec_Status (scan_recording J r) = rec_Status r"
  "rec_ByteSize (scan_recording J r) = rec_ByteSize r" "rec_Checksum (scan_recording J r) = rec_Checksum r"
  "rec_UpdatedAt (scan_recording J r) = rec_UpdatedAt r"
  by (simp_all add: scan_recording_def recording.truncate_def)

lemma recording_row_fields [simp]:
  "rec_ID (recording_row r) = rec_ID r" "rec_Status (recording_row r) = rec_Status r"
  by (simp_all add: recording_row_def recording.extend_def)

lemma find_key:
  assumes "distinct (map key rows)"
  shows "find (\<lambda>r. key r = k \<and> p r) rows = (case lookup key rows k of None \<Rightarrow> None | Some r \<Rightarrow> if p r then Some r else None)"
  using assms by (induction rows) (auto simp: lookup_def find_None_iff split: option.splits dest!: find_Some_iff [THEN iffD1] dest: nth_mem)

lemma pg_update_recording_cases:
  assumes "pg_update_recording J i p f db = (out, db')" "distinct (map rec_ID (t_recordings db))" "\<And>r. rec_ID (f r) = rec_ID r"
  shows "distinct (map rec_ID (t_recordings db')) \<and> t_outbox db' = t_outbox db \<and> (case out of
       None \<Rightarrow> db' = db \<and> (\<forall>r. lookup rec_ID (t_recordings db) i = Some r \<longrightarrow> \<not> p r)
     | Some r' \<Rightarrow> \<exists>r. lookup rec_ID (t_recordings db) i = Some r \<and> p r \<and> r' = scan_recording J (f r)
         \<and> pgup_rows J db' = ((fst (pgup_rows J db))(i \<mapsto> r'), snd (pgup_rows J db)))"
proof (cases "lookup rec_ID (t_recordings db) i")
  case None
  then show ?thesis using assms(1,2) by (auto simp: pg_update_recording_def find_key [OF assms(2)])
next
  case (Some r)
  show ?thesis
  proof (cases "p r")
    case False
    then show ?thesis using Some assms(1,2) by (auto simp: pg_update_recording_def find_key [OF assms(2)])
  next
    case True
    then have out: "out = Some (scan_recording J (f r))"
      and db': "db' = db\<lparr>t_recordings := update_where (\<lambda>r. rec_ID r = i \<and> p r) f (t_recordings db)\<rparr>"
      using Some assms(1) by (auto simp: pg_update_recording_def find_key [OF assms(2)])
    have "lookup rec_ID (t_recordings db') = (lookup rec_ID (t_recordings db))(i \<mapsto> f r)"
      using True Some db' by (simp add: lookup_update_key assms(3))
    then show ?thesis using True Some out db' assms(2,3) by (auto simp: pgup_rows_def fun_eq_iff)
  qed
qed

lemma pgup_insert:
  assumes "pg_insert_recording J r db = Inr (out, db')" "distinct (map rec_ID (t_recordings db))"
  shows "distinct (map rec_ID (t_recordings db')) \<and> rec_ID out = rec_ID r \<and> rec_Status out = rec_Status r
     \<and> pgup_rows J db' = ((fst (pgup_rows J db))(rec_ID r \<mapsto> out), snd (pgup_rows J db))"
proof -
  have new: "rec_ID r \<notin> rec_ID ` set (t_recordings db)" and out: "out = scan_recording J (recording_row r)"
    and db': "db' = db\<lparr>t_recordings := t_recordings db @ [recording_row r]\<rparr>"
    using assms(1) by (auto simp: pg_insert_recording_def split: if_splits)
  then show ?thesis using assms(2) lookup_insert [of rec_ID "recording_row r" "t_recordings db"]
    by (auto simp: pgup_rows_def fun_eq_iff)
qed

lemma pgup_Create_cases:
  assumes "pgup_Create J r s = (x, s')" "pgup_ok s"
  shows "pgup_ok s' \<and> (case x of Inl e \<Rightarrow> pgup_view J s' = pgup_view J s
     | Inr out \<Rightarrow> rec_ID out = rec_ID r \<and> rec_Status out = rec_Status r
         \<and> pgup_view J s' = ((fst (pgup_view J s))(rec_ID r \<mapsto> out), snd (pgup_view J s)))"
proof (cases x)
  case (Inl e)
  then show ?thesis using assms pgup_same [of s' s J] by (auto simp: pgup_Create_def dest!: stmt_Inl)
next
  case (Inr out)
  then have "pg_insert_recording J r (pg_db s) = Inr (out, pg_db s')" using assms(1) by (auto simp: pgup_Create_def dest!: stmt_Inr)
  from pgup_insert [OF this] show ?thesis using assms(2) Inr by (simp add: pgup_ok_def pgup_view_def)
qed

lemma pgup_Update_cases:
  assumes "pgup_Update J rec s = (x, s')" "pgup_ok s"
  shows "pgup_ok s' \<and> (case x of Inl e \<Rightarrow> pgup_view J s' = pgup_view J s
     | Inr out \<Rightarrow> fst (pgup_view J s) (rec_ID rec) \<noteq> None \<and> rec_ID out = rec_ID rec \<and> rec_Status out = rec_Status rec
         \<and> pgup_view J s' = ((fst (pgup_view J s))(rec_ID rec \<mapsto> out), snd (pgup_view J s)))"
  using assms(1) unfolding pgup_Update_def
proof (cases rule: andthen_cases)
  case (err e)
  then show ?thesis using assms(2) pgup_same [of s' s J] by (auto dest!: stmt_Inl)
next
  case (ok a s1)
  have d: "distinct (map rec_ID (t_recordings (pg_db s)))" using assms(2) by (simp add: pgup_ok_def)
  let ?f = "\<lambda>r. r\<lparr>rec_Status := rec_Status rec, rec_ByteSize := rec_ByteSize rec, rec_Checksum := rec_Checksum rec,
                  rec_Metadata := rec_Metadata rec, rec_UpdatedAt := pg_time (rec_UpdatedAt rec)\<rparr> :: db_recording"
  have upd: "pg_update_recording J (rec_ID rec) (\<lambda>_. True) ?f (pg_db s) = (a, pg_db s1)"
    using stmt_Inr [OF ok(1)] by (simp split: if_splits)
  note U = pg_update_recording_cases [OF upd d]
  show ?thesis
  proof (cases a)
    case None
    then have "pg_db s1 = pg_db s" using U by simp
    then show ?thesis using ok(2) None assms(2) pgup_same [of s1 s J] by auto
  next
    case (Some out)
    then obtain r where r: "lookup rec_ID (t_recordings (pg_db s)) (rec_ID rec) = Some r" "out = scan_recording J (?f r)"
      "pgup_rows J (pg_db s1) = ((fst (pgup_rows J (pg_db s)))(rec_ID rec \<mapsto> out), snd (pgup_rows J (pg_db s)))"
      using U by auto
    then have "rec_ID r = rec_ID rec" by (auto dest: lookup_SomeD)
    then show ?thesis using ok(2) Some r U by (auto simp: pgup_ok_def pgup_view_def pgup_rows_def)
  qed
qed

lemma pg_insert_outbox_Inr:
  "stmt (pg_insert_outbox J t k pl c) s = (Inr u, s') \<Longrightarrow>
     pg_db s' = (pg_db s)\<lparr>t_outbox := t_outbox (pg_db s) @ [outbox_row t k pl c (int (pg_step s)) (tk_now (pg_ticks s (pg_step s)))]\<rparr>"
  by (drule stmt_Inr) (auto simp: pg_insert_outbox_def split: if_splits)

lemma transaction_else_cases:
  assumes "transaction_else m other s = (x, s')"
  obtains (err) e where "x = Inl e" "pg_db s' = pg_db s"
  | (other) s0 s1 s2 where "pg_db s0 = pg_db s" "m s0 = (Inr None, s1)" "pg_db s2 = pg_db s" "other s2 = (x, s')"
  | (ok) a s0 s1 where "x = Inr a" "pg_db s0 = pg_db s" "m s0 = (Inr (Some a), s1)" "pg_db s' = pg_db s1"
  using assms unfolding transaction_else_def
proof (cases rule: andthen_cases)
  case (err e)
  then show ?thesis using that(1) query_Inl by blast
next
  case (ok u s0)
  have s0: "pg_db s0 = pg_db s" using query_Inr [OF ok(1)] by simp
  obtain y s1 where m: "m s0 = (y, s1)" by fastforce
  show ?thesis
  proof (cases y)
    case (Inl e)
    then show ?thesis using that(1) ok(2) m s0 by auto
  next
    case (Inr r)
    show ?thesis
    proof (cases r)
      case None
      then have "other (s1\<lparr>pg_db := pg_db s0\<rparr>) = (x, s')" using ok(2) m Inr by simp
      then show ?thesis using that(2) [OF s0, of s1 "s1\<lparr>pg_db := pg_db s\<rparr>"] m Inr None s0 by simp
    next
      case (Some a)
      obtain z s2 where c: "query (\<lambda>_. ()) s1 = (z, s2)" by fastforce
      then show ?thesis using that(1,3) ok(2) m s0 Inr Some query_db [of "\<lambda>_. ()" s1] by (cases z) auto
    qed
  qed
qed

lemma pgup_Get_ok: "pgup_Get J i s = (Inr r, s') \<Longrightarrow> fst (pgup_view J s) i = Some r \<and> rec_ID r = i \<and> pg_db s' = pg_db s"
  by (auto simp: pgup_Get_def pgup_view_def pgup_rows_def dest!: query_row_Inr dest: lookup_SomeD)

lemma pgup_Get_missing: "pgup_Get J i s = (Inl (ErrNotFound Uploads), s') \<Longrightarrow> fst (pgup_view J s) i = None"
  by (auto simp: pgup_Get_def pgup_view_def pgup_rows_def dest!: query_row_Inl)

definition completed_row :: "recording \<Rightarrow> db_recording \<Rightarrow> db_recording" where
  "completed_row rec r = r\<lparr>rec_Status := rec_Status rec, rec_ByteSize := rec_ByteSize rec, rec_Checksum := rec_Checksum rec,
     rec_UpdatedAt := pg_time (rec_UpdatedAt rec)\<rparr>"

lemma completed_row_fields [simp]:
  "rec_ID (completed_row rec r) = rec_ID r" "rec_Status (completed_row rec r) = rec_Status rec"
  "rec_ByteSize (completed_row rec r) = rec_ByteSize rec" "rec_Checksum (completed_row rec r) = rec_Checksum rec"
  by (simp_all add: completed_row_def)

text \<open>The three ways \<open>CompleteWithOutbox\<close> ends: nothing happened; somebody else was first; the row and the event are stored.\<close>

lemma pgup_Complete_cases:
  assumes "pgup_CompleteWithOutbox J rec t k pl c s = (x, s')" "pgup_ok s"
  obtains (err) e where "x = Inl e" "pg_db s' = pg_db s"
  | (raced) out where "x = Inr out" "pg_db s' = pg_db s" "fst (pgup_view J s) (rec_ID rec) = Some out" "rec_Status out \<noteq> UPLOADING"
  | (ok) r n at where "lookup rec_ID (t_recordings (pg_db s)) (rec_ID rec) = Some r" "rec_Status r = UPLOADING"
      "x = Inr (scan_recording J (completed_row rec r))" "pgup_ok s'"
      "t_outbox (pg_db s') = t_outbox (pg_db s) @ [outbox_row t k pl c n at]"
      "fst (pgup_view J s') = (fst (pgup_view J s))(rec_ID rec \<mapsto> scan_recording J (completed_row rec r))"
proof -
  have d: "distinct (map rec_ID (t_recordings (pg_db s)))" using assms(2) by (simp add: pgup_ok_def)
  let ?upd = "stmt (\<lambda>n t db. Inr (pg_update_recording J (rec_ID rec) (\<lambda>r. rec_Status r = UPLOADING) (completed_row rec) db))"
  let ?m = "andthen ?upd (\<lambda>r. case r of None \<Rightarrow> ret None
        | Some out \<Rightarrow> andthen (stmt (pg_insert_outbox J t k pl c)) (\<lambda>_. ret (Some out)))"
  have run: "transaction_else ?m (pgup_Get J (rec_ID rec)) s = (x, s')"
    using assms(1) by (simp add: pgup_CompleteWithOutbox_def completed_row_def [abs_def])
  then show ?thesis
  proof (cases rule: transaction_else_cases)
    case (err e)
    then show ?thesis by (rule that(1))
  next
    case (other s0 s1 s2)
    from other(2) obtain a s3 where upd: "?upd s0 = (Inr a, s3)"
      and rest: "(case a of None \<Rightarrow> ret None | Some out \<Rightarrow> andthen (stmt (pg_insert_outbox J t k pl c)) (\<lambda>_. ret (Some out))) s3 = (Inr None, s1)"
      by (rule andthen_InrE)
    have "a = None" using rest by (cases a) (auto elim: andthen_InrE)
    moreover have "pg_update_recording J (rec_ID rec) (\<lambda>r. rec_Status r = UPLOADING) (completed_row rec) (pg_db s) = (a, pg_db s3)"
      using stmt_Inr [OF upd] other(1) by simp
    ultimately have none: "\<forall>r. lookup rec_ID (t_recordings (pg_db s)) (rec_ID rec) = Some r \<longrightarrow> rec_Status r \<noteq> UPLOADING"
      using pg_update_recording_cases [OF _ d] by fastforce
    show ?thesis
    proof (cases x)
      case (Inl e)
      then show ?thesis using that(1) [of e] other(3,4) by (auto simp: pgup_Get_def dest!: query_row_Inl)
    next
      case (Inr out)
      note G = pgup_Get_ok [OF other(4) [unfolded Inr]]
      then have view: "fst (pgup_view J s) (rec_ID rec) = Some out" using other(3) by (simp add: pgup_view_def)
      then obtain r where "lookup rec_ID (t_recordings (pg_db s)) (rec_ID rec) = Some r" "out = scan_recording J r"
        by (auto simp: pgup_view_def pgup_rows_def)
      then show ?thesis using that(2) [OF Inr _ view] none G other(3) by simp
    qed
  next
    case (ok a s0 s1)
    from ok(3) obtain b s2 where upd: "?upd s0 = (Inr b, s2)"
      and rest: "(case b of None \<Rightarrow> ret None | Some out \<Rightarrow> andthen (stmt (pg_insert_outbox J t k pl c)) (\<lambda>_. ret (Some out))) s2 = (Inr (Some a), s1)"
      by (rule andthen_InrE)
    then have b: "b = Some a" and ins: "stmt (pg_insert_outbox J t k pl c) s2 = (Inr (), s1)"
      by (cases b; auto elim!: andthen_InrE)+
    have "pg_update_recording J (rec_ID rec) (\<lambda>r. rec_Status r = UPLOADING) (completed_row rec) (pg_db s) = (Some a, pg_db s2)"
      using stmt_Inr [OF upd] ok(2) b by simp
    from pg_update_recording_cases [OF this d]
    obtain r where r: "lookup rec_ID (t_recordings (pg_db s)) (rec_ID rec) = Some r" "rec_Status r = UPLOADING"
        "a = scan_recording J (completed_row rec r)" "distinct (map rec_ID (t_recordings (pg_db s2)))" "t_outbox (pg_db s2) = t_outbox (pg_db s)"
        "pgup_rows J (pg_db s2) = ((fst (pgup_rows J (pg_db s)))(rec_ID rec \<mapsto> a), snd (pgup_rows J (pg_db s)))"
      by auto
    note new = pg_insert_outbox_Inr [OF ins]
    have view: "fst (pgup_view J s') = (fst (pgup_view J s))(rec_ID rec \<mapsto> a)"
      using r(6) new ok(4) by (simp add: pgup_view_def pgup_rows_def)
    show ?thesis
    proof (rule that(3) [OF r(1,2)])
      show "x = Inr (scan_recording J (completed_row rec r))" using ok(1) r(3) by simp
      show "pgup_ok s'" using r(4) new ok(4) by (simp add: pgup_ok_def)
      show "t_outbox (pg_db s') = t_outbox (pg_db s) @ [outbox_row t k pl c (int (pg_step s2)) (tk_now (pg_ticks s2 (pg_step s2)))]"
        using r(5) new ok(4) by simp
    qed (use view r(3) in simp)
  qed
qed

lemma pgup_deleted:
  assumes "changed_row (ErrNotFound Uploads) (changes t_recordings (\<lambda>r. rec_ID r = i \<and> p r) (delete_recordings (\<lambda>r. rec_ID r = i \<and> p r))) s = (x, s')"
    and "pgup_ok s"
  shows "pgup_ok s' \<and> (case x of Inl e \<Rightarrow> pgup_view J s' = pgup_view J s
     | Inr _ \<Rightarrow> (\<exists>r. lookup rec_ID (t_recordings (pg_db s)) i = Some r \<and> p r)
         \<and> pgup_view J s' = ((fst (pgup_view J s))(i := None), snd (pgup_view J s)))"
proof (cases x)
  case (Inl e)
  then show ?thesis using assms pgup_same [of s' s J] by (auto dest!: changed_row_Inl)
next
  case (Inr u)
  have d: "distinct (map rec_ID (t_recordings (pg_db s)))" using assms(2) by (simp add: pgup_ok_def)
  obtain r where r: "r \<in> set (t_recordings (pg_db s))" "rec_ID r = i \<and> p r"
    and s': "pg_db s' = delete_recordings (\<lambda>r. rec_ID r = i \<and> p r) (pg_db s)"
    using assms(1) Inr by (auto dest!: changed_row_Inr)
  have l: "lookup rec_ID (t_recordings (pg_db s)) i = Some r" using r d by (simp add: lookup_eq)
  have "lookup rec_ID (filter (\<lambda>r. \<not> (rec_ID r = i \<and> p r)) (t_recordings (pg_db s))) = (lookup rec_ID (t_recordings (pg_db s)))(i := None)"
    using lookup_delete [OF d, of "\<lambda>r. rec_ID r = i \<and> p r"] l r(2)
    by (auto simp: fun_eq_iff split: option.splits dest!: lookup_SomeD)
  then show ?thesis using Inr s' l r(2) filter_distinct_key [OF d]
    by (auto simp: pgup_ok_def pgup_view_def pgup_rows_def)
qed

lemma pgup_list:
  assumes "pgup_ListAbandonedUploading J cutoff lim s = (Inr rs, s')" "pgup_ok s"
  shows "(\<forall>r\<in>set rs. fst (pgup_view J s) (rec_ID r) = Some r \<and> rec_Status r = UPLOADING \<and> rec_UpdatedAt r < cutoff)
     \<and> (0 < lim \<longrightarrow> int (length rs) \<le> lim)"
proof -
  have d: "distinct (map rec_ID (t_recordings (pg_db s)))" using assms(2) by (simp add: pgup_ok_def)
  let ?old = "filter (\<lambda>r. rec_Status r = UPLOADING \<and> rec_UpdatedAt r < pg_time cutoff) (t_recordings (pg_db s))"
  have rs: "rs = map (scan_recording J) (take (nat (if lim \<le> 0 then 50 else lim)) (sort_key rec_UpdatedAt ?old))"
    using assms(1) by (auto simp: pgup_ListAbandonedUploading_def Let_def dest!: query_Inr)
  have "fst (pgup_view J s) (rec_ID r) = Some r \<and> rec_Status r = UPLOADING \<and> rec_UpdatedAt r < cutoff" if mem: "r \<in> set rs" for r
  proof -
    obtain q where q: "r = scan_recording J q" "q \<in> set (take (nat (if lim \<le> 0 then 50 else lim)) (sort_key rec_UpdatedAt ?old))"
      using imageE [OF mem [unfolded rs set_map]] by blast
    have "q \<in> set (t_recordings (pg_db s))" "rec_Status q = UPLOADING" "rec_UpdatedAt q < pg_time cutoff"
      using in_set_takeD [OF q(2)] by simp_all
    then show ?thesis using q(1) using d pg_time_le [of cutoff] by (auto simp: pgup_view_def pgup_rows_def lookup_eq)
  qed
  moreover have "0 < lim \<longrightarrow> int (length rs) \<le> lim" by (auto simp: rs)
  ultimately show ?thesis by blast
qed

lemma pgup_InsertOutbox_cases:
  assumes "pgup_InsertOutbox J t k pl c s = (x, s')"
  shows "pgup_ok s' = pgup_ok s \<and> (case x of Inl e \<Rightarrow> pgup_view J s' = pgup_view J s
     | Inr _ \<Rightarrow> \<exists>m. om_Topic m = t \<and> om_PartitionKey m = k \<and> om_CorrelationID m = c
         \<and> pgup_view J s' = (fst (pgup_view J s), snd (pgup_view J s) @ [m]))"
proof (cases x)
  case (Inl e)
  then show ?thesis using assms pgup_same [of s' s J] by (auto simp: pgup_InsertOutbox_def dest!: stmt_Inl)
next
  case (Inr u)
  then show ?thesis using assms pg_insert_outbox_Inr [of J t k pl c s u s']
    by (auto simp: pgup_InsertOutbox_def pgup_ok_def pgup_view_def pgup_rows_def scan_outbox_def outbox_row_def)
qed

lemma pgup_Delete_cases:
  assumes "pgup_Delete i s = (x, s')" "pgup_ok s"
  shows "pgup_ok s' \<and> (case x of Inl e \<Rightarrow> pgup_view J s' = pgup_view J s
     | Inr _ \<Rightarrow> fst (pgup_view J s) i \<noteq> None \<and> pgup_view J s' = ((fst (pgup_view J s))(i := None), snd (pgup_view J s)))"
  using pgup_deleted [of i "\<lambda>_. True" s x s' J] assms
  by (cases x) (auto simp: pgup_Delete_def, auto simp: pgup_view_def pgup_rows_def)

lemma pgup_DeleteIfStatus_cases:
  assumes "pgup_DeleteIfStatus i st s = (x, s')" "pgup_ok s"
  shows "pgup_ok s' \<and> (case x of Inl e \<Rightarrow> pgup_view J s' = pgup_view J s
     | Inr _ \<Rightarrow> (\<exists>r. fst (pgup_view J s) i = Some r \<and> rec_Status r = st)
         \<and> pgup_view J s' = ((fst (pgup_view J s))(i := None), snd (pgup_view J s)))"
  using pgup_deleted [of i "\<lambda>r. rec_Status r = st" s x s' J] assms
  by (cases x) (auto simp: pgup_DeleteIfStatus_def, auto simp: pgup_view_def pgup_rows_def)

lemma pgup_preserves: "(\<And>s x s'. m s = (x, s') \<Longrightarrow> pgup_ok s \<Longrightarrow> pgup_ok s' \<and> C s x s') \<Longrightarrow> preserves pgup_ok m"
  by (intro preservesI) (metis prod.collapse)

lemma pgup_reads: "keeps pg_db m \<Longrightarrow> keeps (\<lambda>s. (pgup_ok s, pgup_view J s)) m"
  by (simp add: keeps_def pgup_ok_def pgup_view_def)

lemma pgup_Complete_ok:
  assumes "pgup_CompleteWithOutbox J rec t k pl c s = (x, s')" "pgup_ok s"
  shows "pgup_ok s' \<and> (case x of Inl e \<Rightarrow> pgup_view J s' = pgup_view J s
     | Inr out \<Rightarrow> \<exists>cur. fst (pgup_view J s) (rec_ID rec) = Some cur \<and>
         (rec_Status cur \<noteq> UPLOADING \<and> out = cur \<and> pgup_view J s' = pgup_view J s
          \<or> rec_Status cur = UPLOADING \<and> rec_ID out = rec_ID rec \<and> rec_Status out = rec_Status rec
            \<and> rec_ByteSize out = rec_ByteSize rec \<and> rec_Checksum out = rec_Checksum rec
            \<and> (\<exists>m. om_Topic m = t \<and> om_PartitionKey m = k \<and> om_CorrelationID m = c
                 \<and> pgup_view J s' = ((fst (pgup_view J s))(rec_ID rec \<mapsto> out), snd (pgup_view J s) @ [m]))))"
  using assms
proof (cases rule: pgup_Complete_cases)
  case (err e)
  then show ?thesis using pgup_same [of s' s J] assms(2) by simp
next
  case (raced out)
  then show ?thesis using pgup_same [of s' s J] assms(2) by auto
next
  case (ok r n at)
  then have "rec_ID r = rec_ID rec" by (auto dest: lookup_SomeD)
  then show ?thesis using ok by (auto simp: pgup_view_def pgup_rows_def scan_outbox_def outbox_row_def prod_eq_iff)
qed

interpretation pgup: recording_store "pgup_repo J" pgup_ok "pgup_view J"
proof (unfold_locales, goal_cases)
  case (1 r)
  show ?case unfolding pgup_repo_def by simp (rule pgup_preserves, rule pgup_Create_cases)
next
  case (2 r)
  show ?case unfolding pgup_repo_def by simp (rule pgup_preserves, rule pgup_Update_cases)
next
  case (3 r t k pl c)
  show ?case unfolding pgup_repo_def by simp (rule pgup_preserves, rule pgup_Complete_ok)
next
  case (4 t k pl c)
  show ?case unfolding pgup_repo_def using pgup_InsertOutbox_cases [of J t k pl c] by simp (metis preservesI prod.collapse)
next
  case (5 i st)
  show ?case unfolding pgup_repo_def by simp (rule pgup_preserves, rule pgup_DeleteIfStatus_cases)
next
  case (6 i)
  show ?case unfolding pgup_repo_def by simp (rule pgup_preserves, rule pgup_Delete_cases)
next
  case (7 i)
  show ?case unfolding pgup_repo_def by simp (simp add: pgup_Get_def pgup_reads keepsI)
next
  case (8 before lim)
  show ?case unfolding pgup_repo_def by simp (simp add: pgup_ListAbandonedUploading_def Let_def pgup_reads query_keeps_db)
next
  case (9 s r e s')
  then show ?case using pgup_Create_cases [of J r s "Inl e" s'] by (simp add: pgup_repo_def)
next
  case (10 s r e s')
  then show ?case using pgup_Update_cases [of J r s "Inl e" s'] by (simp add: pgup_repo_def)
next
  case (11 s r t k pl c e s')
  then show ?case using pgup_Complete_ok [of J r t k pl c s "Inl e" s'] by (simp add: pgup_repo_def)
next
  case (12 s t k pl c e s')
  then show ?case using pgup_InsertOutbox_cases [of J t k pl c s "Inl e" s'] by (simp add: pgup_repo_def)
next
  case (13 s i st e s')
  then show ?case using pgup_DeleteIfStatus_cases [of i st s "Inl e" s' J] by (simp add: pgup_repo_def)
next
  case (14 s i e s')
  then show ?case using pgup_Delete_cases [of i s "Inl e" s' J] by (simp add: pgup_repo_def)
next
  case (15 s r out s')
  then show ?case using pgup_Create_cases [of J r s "Inr out" s'] by (simp add: pgup_repo_def)
next
  case (16 s i r s')
  then show ?case using pgup_Get_ok by (simp add: pgup_repo_def)
next
  case (17 s i s')
  then show ?case using pgup_Get_missing by (simp add: pgup_repo_def)
next
  case (18 s r out s')
  then show ?case using pgup_Update_cases [of J r s "Inr out" s'] by (simp add: pgup_repo_def)
next
  case (19 s r t k pl c out s')
  then show ?case using pgup_Complete_ok [of J r t k pl c s "Inr out" s'] by (simp add: pgup_repo_def)
next
  case (20 s t k pl c s')
  then show ?case using pgup_InsertOutbox_cases [of J t k pl c s "Inr ()" s'] by (simp add: pgup_repo_def)
next
  case (21 s before lim rs s')
  then show ?case using pgup_list [of J before lim s rs s'] by (simp add: pgup_repo_def)
next
  case (22 s i st s')
  then show ?case using pgup_DeleteIfStatus_cases [of i st s "Inr ()" s' J] by (simp add: pgup_repo_def)
next
  case (23 s i s')
  then show ?case using pgup_Delete_cases [of i s "Inr ()" s' J] by (simp add: pgup_repo_def)
qed

section \<open>The outbox's contract\<close>

definition pgup_outbox_ok :: "pg \<Rightarrow> bool" where
  "pgup_outbox_ok s \<longleftrightarrow> sorted_wrt (<) (map ob_id (t_outbox (pg_db s))) \<and> (\<forall>b\<in>set (t_outbox (pg_db s)). ob_id b < int (pg_step s))"

definition pgup_stored :: "jsonb \<Rightarrow> pg \<Rightarrow> outbox_message list" where
  "pgup_stored J s = map (scan_outbox J) (t_outbox (pg_db s))"

definition pgup_pending :: "jsonb \<Rightarrow> pg \<Rightarrow> outbox_message list" where
  "pgup_pending J s = map (scan_outbox J) (filter (\<lambda>b. ob_published_at b = None) (t_outbox (pg_db s)))"

lemma stmt_step [simp]: "pg_step (snd (stmt f s)) = Suc (pg_step s)"
  by (simp add: stmt_def Let_def split: option.splits sum.splits)

lemma query_step [simp]: "pg_step (snd (query f s)) = Suc (pg_step s)"
  by (simp add: query_def)

definition steps :: "pg \<Rightarrow> pg \<Rightarrow> bool" where
  "steps s s' \<longleftrightarrow> pg_step s \<le> pg_step s'"

lemma steps_stmt: "stmt f s = (x, s') \<Longrightarrow> steps s s'"
  using stmt_step [of f s] by (simp add: steps_def)

lemma steps_query: "query f s = (x, s') \<Longrightarrow> steps s s'"
  by (simp add: query_def steps_stmt)

definition marked :: "go_time \<Rightarrow> int set \<Rightarrow> db_outbox \<Rightarrow> db_outbox" where
  "marked now ids b = (if ob_id b \<in> ids \<and> ob_published_at b = None then b\<lparr>ob_published_at := Some (pg_time now)\<rparr> else b)"

lemma marked_fields [simp]: "ob_id (marked now ids b) = ob_id b" "scan_outbox J (marked now ids b) = scan_outbox J b"
  by (simp_all add: marked_def scan_outbox_def)

lemma marked_published [simp]: "ob_published_at (marked now ids b) = None \<longleftrightarrow> ob_published_at b = None \<and> ob_id b \<notin> ids"
  by (auto simp: marked_def)

lemma mark_published_Inr:
  assumes "pg_mark_published now u m s = (Inr v, s')"
  shows "pg_db s' = (pg_db s)\<lparr>t_outbox := map (marked now {om_ID m}) (t_outbox (pg_db s))\<rparr> \<and> steps s s'"
proof -
  from assms obtain n s1 where c: "changes t_outbox (\<lambda>b. ob_id b = om_ID m \<and> ob_published_at b = None)
         (\<lambda>db. db\<lparr>t_outbox := update_where (\<lambda>b. ob_id b = om_ID m \<and> ob_published_at b = None)
            (\<lambda>b. b\<lparr>ob_published_at := Some (pg_time now)\<rparr>) (t_outbox db)\<rparr>) s = (Inr n, s1)"
      and "(if n \<noteq> 1 then fail (ErrOther ''outbox mark published'') else ret ()) s1 = (Inr v, s')"
    unfolding pg_mark_published_def by (rule andthen_InrE)
  then have s1: "s1 = s'" "n = 1" by (auto split: if_splits)
  have "update_where (\<lambda>b. ob_id b = om_ID m \<and> ob_published_at b = None) (\<lambda>b. b\<lparr>ob_published_at := Some (pg_time now)\<rparr>) rows
      = map (marked now {om_ID m}) rows" for rows
    by (simp add: update_where_def marked_def)
  then show ?thesis using stmt_Inr [OF c [unfolded changes_def]] steps_stmt [OF c [unfolded changes_def]] s1 by auto
qed

lemma mark_all:
  "foreach (pg_mark_published now) u msgs s = (Inr v, s') \<Longrightarrow>
     pg_db s' = (pg_db s)\<lparr>t_outbox := map (marked now (om_ID ` set msgs)) (t_outbox (pg_db s))\<rparr> \<and> steps s s'"
proof (induction msgs arbitrary: u s)
  case Nil
  have "marked now {} b = b" for b by (simp add: marked_def)
  then show ?case using Nil by (simp add: steps_def)
next
  case (Cons m msgs)
  from Cons.prems obtain w s1 where one: "pg_mark_published now u m s = (Inr w, s1)"
    and rest: "foreach (pg_mark_published now) w msgs s1 = (Inr v, s')"
    by (auto elim: andthen_InrE)
  have "marked now (om_ID ` set msgs) (marked now {om_ID m} b) = marked now (om_ID ` set (m # msgs)) b" for b
    by (auto simp: marked_def)
  then show ?case using mark_published_Inr [OF one] Cons.IH [OF rest] by (simp add: steps_def comp_def)
qed

lemma pgup_mark_steps:
  assumes "andthen (foreach (pg_mark_published now) u msgs) (\<lambda>_. query (\<lambda>_. ())) s = (z, s')"
  shows "steps s s'"
proof -
  have one: "preserves (\<lambda>s. n \<le> pg_step s) (pg_mark_published now v m)" for n v m
    unfolding pg_mark_published_def changes_def
    by (intro preserves_andthen preserves_if) (auto simp: preserves_def)
  have "preserves (\<lambda>s. n \<le> pg_step s) (foreach (pg_mark_published now) v msgs)" for n v
    by (induction msgs arbitrary: v) (auto intro!: preserves_andthen one)
  then have "preserves (\<lambda>s. pg_step t \<le> pg_step s) (andthen (foreach (pg_mark_published now) u msgs) (\<lambda>_. query (\<lambda>_. ())))" for t
    by (intro preserves_andthen) (auto simp: preserves_def)
  from preservesD [OF this [of s] assms] show ?thesis by (simp add: steps_def)
qed

lemma pgup_pending_marked:
  assumes "sorted_wrt (<) (map ob_id rows)" "set claimed \<subseteq> scan_outbox J ` set rows"
  shows "map (scan_outbox J) (filter (\<lambda>b. ob_published_at b = None) (map (marked now (om_ID ` set claimed)) rows))
    = filter (\<lambda>m. m \<notin> set claimed) (map (scan_outbox J) (filter (\<lambda>b. ob_published_at b = None) rows))"
proof -
  have d: "distinct (map ob_id rows)" using assms(1) by (simp add: strict_sorted_iff)
  have "ob_id b \<in> om_ID ` set claimed \<longleftrightarrow> scan_outbox J b \<in> set claimed" if "b \<in> set rows" for b
  proof
    assume "ob_id b \<in> om_ID ` set claimed"
    then obtain m where m: "m \<in> set claimed" "om_ID m = ob_id b" by auto
    then obtain q where q: "q \<in> set rows" "m = scan_outbox J q" using assms(2) by blast
    then have "q = b" using key_unique [OF d q(1) that] m(2) by (simp add: scan_outbox_def)
    then show "scan_outbox J b \<in> set claimed" using m q by simp
  next
    assume "scan_outbox J b \<in> set claimed"
    then have "om_ID (scan_outbox J b) \<in> om_ID ` set claimed" by (rule imageI)
    then show "ob_id b \<in> om_ID ` set claimed" by (simp add: scan_outbox_def)
  qed
  then show ?thesis
    by (simp add: filter_map comp_def, intro map_cong [OF _ refl]) (auto intro!: filter_cong)
qed

lemma pgup_outbox_keep:
  assumes "pgup_outbox_ok s" "steps s s'" "map ob_id (t_outbox (pg_db s')) = map ob_id (t_outbox (pg_db s))"
  shows "pgup_outbox_ok s'"
proof -
  have "ob_id ` set (t_outbox (pg_db s')) = ob_id ` set (t_outbox (pg_db s))" using assms(3) by (metis set_map)
  moreover have "i < int (pg_step s')" if "i \<in> ob_id ` set (t_outbox (pg_db s))" for i
    using assms(1,2) that by (force simp: pgup_outbox_ok_def steps_def)
  ultimately show ?thesis using assms(1,3) by (auto simp: pgup_outbox_ok_def)
qed

lemma pgup_claim:
  assumes "pgup_outbox_ok s" "pgup_WithClaimed J now lim fn (s, k) = (r, (s', k'))"
  shows "pgup_outbox_ok s' \<and> pgup_stored J s' = pgup_stored J s \<and>
      (pgup_pending J s' = pgup_pending J s \<and> k' = k
       \<or> (\<exists>claimed x. set claimed \<subseteq> set (pgup_pending J s) \<and> fn claimed k = (x, k')
            \<and> (pgup_pending J s' = pgup_pending J s
               \<or> x = Inr () \<and> r = Inr () \<and> pgup_pending J s' = filter (\<lambda>m. m \<notin> set claimed) (pgup_pending J s))))"
proof -
  have same: ?thesis if "pg_db s' = pg_db s" "steps s s'" "k' = k \<or> (\<exists>c x. set c \<subseteq> set (pgup_pending J s) \<and> fn c k = (x, k'))"
    using that pgup_outbox_keep [OF assms(1) that(2)] by (auto simp: pgup_stored_def pgup_pending_def)
  show ?thesis
  proof (cases "lim \<le> 0")
    case True
    then show ?thesis using assms(2) by (intro same) (simp_all add: pgup_WithClaimed_def steps_def)
  next
    case False
    obtain y s1 where claim: "andthen (query (\<lambda>_. ())) (\<lambda>_. stmt (pg_claimable J lim)) s = (y, s1)" by fastforce
    then have st1: "steps s s1"
      by (cases rule: andthen_cases) (auto dest!: steps_stmt steps_query simp: steps_def)
    from claim have db1: "pg_db s1 = pg_db s"
      by (cases rule: andthen_cases) (auto dest!: query_Inl query_Inr, cases y, auto dest!: stmt_Inl stmt_Inr simp: pg_claimable_def)
    show ?thesis
    proof (cases y)
      case (Inl e)
      then show ?thesis using assms(2) False claim st1 db1 by (intro same) (simp_all add: pgup_WithClaimed_def)
    next
      case (Inr msgs)
      show ?thesis
      proof (cases "msgs = []")
        case True
        then show ?thesis using assms(2) False claim st1 db1 Inr by (intro same) (simp_all add: pgup_WithClaimed_def)
      next
        case nonempty: False
        from claim Inr obtain s0 where s0: "pg_db s0 = pg_db s" "stmt (pg_claimable J lim) s0 = (Inr msgs, s1)"
          by (auto elim!: andthen_InrE dest!: query_Inr)
        have msgs: "set msgs \<subseteq> set (pgup_pending J s)"
          using stmt_Inr [OF s0(2)] s0(1) by (auto simp: pg_claimable_def pgup_pending_def dest!: in_set_takeD)
        obtain x k1 where fn: "fn msgs k = (x, k1)" by fastforce
        show ?thesis
        proof (cases x)
          case (Inl e)
          then have "s' = s1" "k' = k1" using assms(2) False claim Inr nonempty fn by (auto simp: pgup_WithClaimed_def)
          then show ?thesis using fn msgs st1 db1 by (intro same) auto
        next
          case ok: (Inr u)
          obtain z s2 where m: "andthen (foreach (pg_mark_published now) () msgs) (\<lambda>_. query (\<lambda>_. ())) s1 = (z, s2)" by fastforce
          have k': "k' = k1" using assms(2) False claim Inr nonempty fn ok m by (cases z) (auto simp: pgup_WithClaimed_def)
          show ?thesis
          proof (cases z)
            case (Inl e)
            have "steps s1 s2" using m by (rule pgup_mark_steps)
            then show ?thesis using assms(2) False claim \<open>y = Inr msgs\<close> nonempty fn ok m Inl k' msgs st1
              by (intro same) (auto simp: pgup_WithClaimed_def steps_def)
          next
            case commit: (Inr v)
            then obtain s3 where f: "foreach (pg_mark_published now) () msgs s1 = (Inr (), s3)" and q: "query (\<lambda>_. ()) s3 = (Inr (), s2)"
              using m by (auto elim!: andthen_InrE)
            have s': "s' = s2" "r = Inr ()" using assms(2) False claim \<open>y = Inr msgs\<close> nonempty fn ok m commit by (auto simp: pgup_WithClaimed_def)
            have db: "t_outbox (pg_db s') = map (marked now (om_ID ` set msgs)) (t_outbox (pg_db s))"
              using mark_all [OF f] query_Inr [OF q] db1 s' by simp
            have st: "steps s s'" using mark_all [OF f] steps_query [OF q] st1 s' by (simp add: steps_def)
            have ids: "map ob_id (t_outbox (pg_db s')) = map ob_id (t_outbox (pg_db s))" by (simp add: db)
            have stored: "pgup_stored J s' = pgup_stored J s" by (simp add: pgup_stored_def db)
            have "pgup_pending J s' = filter (\<lambda>m. m \<notin> set msgs) (pgup_pending J s)"
              unfolding pgup_pending_def db
              by (rule pgup_pending_marked) (use assms(1) msgs in \<open>auto simp: pgup_outbox_ok_def pgup_pending_def\<close>)
            then show ?thesis using pgup_outbox_keep [OF assms(1) st ids] stored fn ok k' s'(2) msgs
              by (intro conjI disjI2 exI [of _ msgs] exI [of _ x]) simp_all
          qed
        qed
      qed
    qed
  qed
qed

interpretation pgup_outbox: outbox_store "pgup_WithClaimed J now" pgup_outbox_ok "pgup_pending J" "pgup_stored J"
proof unfold_locales
  show "set (pgup_pending J s) \<subseteq> set (pgup_stored J s)" for s by (auto simp: pgup_pending_def pgup_stored_def)
qed (rule pgup_claim)

interpretation pgup_relay: relay_client "pgup_WithClaimed J now" pgup_outbox_ok "pgup_pending J" "pgup_stored J" broker_publisher bk_log
  by unfold_locales (auto simp: broker_publisher_def split: if_splits)

lemma pgup_insert_outbox_ok:
  assumes "pgup_outbox_ok s" "stmt (pg_insert_outbox J t k pl c) s = (x, s')"
  shows "pgup_outbox_ok s'"
proof (cases x)
  case (Inl e)
  then show ?thesis using pgup_outbox_keep [OF assms(1) steps_stmt [OF assms(2)]] stmt_Inl [OF assms(2) [unfolded Inl]] by simp
next
  case (Inr u)
  have "pg_step s' = Suc (pg_step s)" using stmt_step [of "pg_insert_outbox J t k pl c" s] assms(2) by simp
  moreover obtain row where "t_outbox (pg_db s') = t_outbox (pg_db s) @ [row]" "ob_id row = int (pg_step s)"
    using pg_insert_outbox_Inr [OF assms(2) [unfolded Inr]] by (simp add: outbox_row_def)
  ultimately show ?thesis using assms(1) by (force simp: pgup_outbox_ok_def sorted_wrt_append)
qed

end
