(* ===== verification/Postgres_Outbox.thy ===== *)
theory Postgres_Outbox
  imports Postgres_Uploads
begin

text \<open>
  The upload service, its relay and the broker on the database, with statements that fail anywhere: what a run of service calls
  does to the outbox, and delivery at least once.
\<close>

section \<open>The outbox only grows\<close>

text \<open>From \<open>s0\<close> to \<open>s\<close> the outbox got unpublished rows at its end, and nothing else happened to it.\<close>

definition pgup_grows :: "pg \<Rightarrow> pg \<Rightarrow> bool" where
  "pgup_grows s0 s \<longleftrightarrow> pgup_outbox_ok s \<and> steps s0 s
     \<and> (\<exists>new. t_outbox (pg_db s) = t_outbox (pg_db s0) @ new \<and> (\<forall>b\<in>set new. ob_published_at b = None))"

lemma pgup_grows_refl: "pgup_outbox_ok s \<Longrightarrow> pgup_grows s s"
  by (simp add: pgup_grows_def steps_def)

lemma pgup_grows_same:
  assumes "pgup_grows s0 s" "steps s s'" "t_outbox (pg_db s') = t_outbox (pg_db s)"
  shows "pgup_grows s0 s'"
proof -
  have "pgup_outbox_ok s'" by (rule pgup_outbox_keep [OF _ assms(2)]) (use assms(1,3) in \<open>simp_all add: pgup_grows_def\<close>)
  then show ?thesis using assms by (simp add: pgup_grows_def steps_def)
qed

lemma pgup_grows_stmt:
  assumes "\<And>n t db a db'. f n t db = Inr (a, db') \<Longrightarrow> t_outbox db' = t_outbox db"
  shows "preserves (pgup_grows s0) (stmt f)"
proof (rule preservesI)
  fix s assume g: "pgup_grows s0 s"
  obtain x s' where run: "stmt f s = (x, s')" by fastforce
  have "t_outbox (pg_db s') = t_outbox (pg_db s)"
    using run assms stmt_Inl [of f s _ s'] stmt_Inr [of f s _ s'] by (cases x) auto
  then show "pgup_grows s0 (snd (stmt f s))" using pgup_grows_same [OF g steps_stmt [OF run]] run by simp
qed

lemma pgup_grows_query [preserves_intros]: "preserves (pgup_grows s0) (query f)"
  unfolding query_def by (rule pgup_grows_stmt) simp

lemma pgup_grows_query_row [preserves_intros]: "preserves (pgup_grows s0) (query_row none f)"
  unfolding query_row_def by (intro preserves_intros)

lemma pgup_grows_insert [preserves_intros]: "preserves (pgup_grows s0) (stmt (pg_insert_outbox J t k pl c))"
proof (rule preservesI)
  fix s assume g: "pgup_grows s0 s"
  obtain x s' where run: "stmt (pg_insert_outbox J t k pl c) s = (x, s')" by fastforce
  have ok: "pgup_outbox_ok s'" using g by (intro pgup_insert_outbox_ok [OF _ run]) (simp add: pgup_grows_def)
  show "pgup_grows s0 (snd (stmt (pg_insert_outbox J t k pl c) s))"
  proof (cases x)
    case (Inl e)
    then show ?thesis using pgup_grows_same [OF g steps_stmt [OF run]] stmt_Inl [OF run [unfolded Inl]] run by simp
  next
    case (Inr u)
    then show ?thesis using g ok run steps_stmt [OF run] pg_insert_outbox_Inr [OF run [unfolded Inr]]
      by (auto simp: pgup_grows_def steps_def outbox_row_def)
  qed
qed

lemma pgup_grows_else:
  assumes "\<And>s0. preserves (pgup_grows s0) m" "preserves (pgup_grows s0) other"
  shows "preserves (pgup_grows s0) (transaction_else m other)"
proof (rule preservesI)
  fix s assume g: "pgup_grows s0 s"
  obtain u s1 where q: "query (\<lambda>_. ()) s = (u, s1)" by fastforce
  have s1: "pg_db s1 = pg_db s" "steps s s1" using query_db [of "\<lambda>_. ()" s] steps_query [OF q] q by simp_all
  have g1: "pgup_grows s0 s1" using pgup_grows_same [OF g s1(2)] s1(1) by simp
  then have ok1: "pgup_outbox_ok s1" by (simp add: pgup_grows_def)
  obtain y s2 where m: "m s1 = (y, s2)" by fastforce
  have g2: "pgup_grows s0 s2" "steps s1 s2"
    using preservesD [OF assms(1) m g1] preservesD [OF assms(1) m pgup_grows_refl [OF ok1]] by (simp_all add: pgup_grows_def)
  have rolled: "pgup_grows s0 (t\<lparr>pg_db := pg_db s1\<rparr>)" if "steps s1 t" for t
    by (rule pgup_grows_same [OF g1]) (use that in \<open>simp_all add: steps_def\<close>)
  obtain z s3 where c: "query (\<lambda>_. ()) s2 = (z, s3)" by fastforce
  have s3: "pgup_grows s0 s3" "steps s1 s3"
    using preservesD [OF pgup_grows_query c g2(1)] steps_query [OF c] g2(2) by (simp_all add: steps_def)
  obtain r s4 where o: "other (s2\<lparr>pg_db := pg_db s1\<rparr>) = (r, s4)" by fastforce
  have "pgup_grows s0 s4" by (rule preservesD [OF assms(2) o rolled [OF g2(2)]])
  then show "pgup_grows s0 (snd (transaction_else m other s))"
    using q g1 m g2 c s3 o rolled unfolding transaction_else_def andthen_def
    by (cases u; cases y) (auto split: option.splits sum.splits)
qed

lemma pgup_grows_changed:
  assumes "\<And>db. t_outbox (upd db) = t_outbox db"
  shows "preserves (pgup_grows s0) (changed_row none (changes rows p upd))"
  unfolding changed_row_def changes_def
  by (intro preserves_intros pgup_grows_stmt) (auto simp: assms split: if_splits)

lemma pg_update_recording_outbox: "pg_update_recording J i p f db = (out, db') \<Longrightarrow> t_outbox db' = t_outbox db"
  by (auto simp: pg_update_recording_def split: option.splits)

lemma delete_recordings_outbox [simp]: "t_outbox (delete_recordings p db) = t_outbox db"
  by simp

lemma pgup_grows_repo [preserves_intros]:
  "preserves (pgup_grows s0) (rr_Create (pgup_repo J) rec)" "preserves (pgup_grows s0) (rr_Get (pgup_repo J) i)"
  "preserves (pgup_grows s0) (rr_CompleteWithOutbox (pgup_repo J) rec t k pl c)"
  "preserves (pgup_grows s0) (rr_InsertOutbox (pgup_repo J) t k pl c)"
  "preserves (pgup_grows s0) (rr_ListAbandonedUploading (pgup_repo J) before lim)"
  "preserves (pgup_grows s0) (rr_DeleteIfStatus (pgup_repo J) i st)" "preserves (pgup_grows s0) (rr_Delete (pgup_repo J) i)"
proof -
  show "preserves (pgup_grows s0) (rr_Create (pgup_repo J) rec)"
    unfolding pgup_repo_def by (simp add: pgup_Create_def, rule pgup_grows_stmt) (auto simp: pg_insert_recording_def split: if_splits)
  show get: "preserves (pgup_grows s0) (rr_Get (pgup_repo J) i)" for s0 i
    unfolding pgup_repo_def by (simp add: pgup_Get_def pgup_grows_query_row)
  then have get': "preserves (pgup_grows s0) (pgup_Get J i)" for i by (simp add: pgup_repo_def)
  show "preserves (pgup_grows s0) (rr_CompleteWithOutbox (pgup_repo J) rec t k pl c)"
    unfolding pgup_repo_def
    by (simp add: pgup_CompleteWithOutbox_def, intro pgup_grows_else preserves_intros pgup_grows_stmt get')
      (auto dest: pg_update_recording_outbox)
  show "preserves (pgup_grows s0) (rr_InsertOutbox (pgup_repo J) t k pl c)"
    unfolding pgup_repo_def by (simp add: pgup_InsertOutbox_def pgup_grows_insert)
  show "preserves (pgup_grows s0) (rr_ListAbandonedUploading (pgup_repo J) before lim)"
    unfolding pgup_repo_def by (simp add: pgup_ListAbandonedUploading_def Let_def pgup_grows_query)
  show "preserves (pgup_grows s0) (rr_DeleteIfStatus (pgup_repo J) i st)" "preserves (pgup_grows s0) (rr_Delete (pgup_repo J) i)"
    unfolding pgup_repo_def by (simp_all add: pgup_DeleteIfStatus_def pgup_Delete_def pgup_grows_changed)
qed

section \<open>The upload service on the database\<close>

text \<open>An operation that only reads the database, or does not touch it.\<close>

definition quiet :: "(pg, 'a) op \<Rightarrow> bool" where
  "quiet m \<longleftrightarrow> keeps pg_db m \<and> (\<forall>s. steps s (snd (m s)))"

definition pgup_uses :: "jsonb \<Rightarrow> pg upload_service \<Rightarrow> bool" where
  "pgup_uses J S \<longleftrightarrow> us_recordings S = pgup_repo J
     \<and> (\<forall>u p. quiet (pa_EnsureMember (us_access S) u p) \<and> quiet (pa_EnsureOwner (us_access S) u p))
     \<and> (\<forall>st. us_storage S = Some st \<longrightarrow> (\<forall>key ct ttl. quiet (os_PresignPut st key ct ttl) \<and> quiet (os_Stat st key)
          \<and> quiet (os_Delete st key) \<and> quiet (os_DeletePrefix st key)))"

lemma quiet_grows:
  assumes "quiet m"
  shows "preserves (pgup_grows s0) m"
proof (rule preservesI)
  fix s assume "pgup_grows s0 s"
  then show "pgup_grows s0 (snd (m s))"
    by (rule pgup_grows_same) (use assms in \<open>simp_all add: quiet_def keeps_def\<close>)
qed

lemma quiet_reads: "quiet m \<Longrightarrow> keeps (\<lambda>s. (pgup_ok s, pgup_view J s)) m"
  by (simp add: quiet_def pgup_reads)

lemma pgup_service: "pgup_uses J S \<Longrightarrow> upload_service (pgup_repo J) pgup_ok (pgup_view J) S"
  by unfold_locales (auto simp: pgup_uses_def quiet_reads)

lemma pgup_grows_sweep_one:
  assumes "pgup_uses J S" "pgup_grows s0 s"
  shows "pgup_grows s0 (snd (sweep_one S rec s))"
proof -
  have repo: "us_recordings S = pgup_repo J" using assms(1) by (simp add: pgup_uses_def)
  obtain x s1 where d: "rr_DeleteIfStatus (pgup_repo J) (rec_ID rec) UPLOADING s = (x, s1)" by fastforce
  then have s1: "pgup_grows s0 s1" using preservesD [OF pgup_grows_repo(6)] assms(2) by blast
  have "pgup_grows s0 (snd (os_Delete st key s1))" if "us_storage S = Some st" for st key
  proof -
    have "quiet (os_Delete st key)" using assms(1) that by (simp add: pgup_uses_def)
    from quiet_grows [OF this] s1 show ?thesis by (simp add: preserves_def)
  qed
  then show ?thesis using d s1 by (cases x; cases "us_storage S") (auto simp: sweep_one_def repo)
qed

lemma pgup_grows_sweep:
  "pgup_uses J S \<Longrightarrow> pgup_grows s0 s \<Longrightarrow> pgup_grows s0 (snd (sweep_rows S n rs s))"
proof (induction S n rs s rule: sweep_rows.induct)
  case (2 S removed rec rows s)
  have "pgup_grows s0 (snd (sweep_one S rec s))" using pgup_grows_sweep_one 2 by blast
  then show ?case using 2 by (auto split: prod.splits sum.splits)
qed simp

lemma pgup_grows_sweep_call:
  assumes "pgup_uses J S" "pgup_grows s0 s"
  shows "pgup_grows s0 (snd (ups_SweepAbandonedUploads S olderThan limit now s))"
proof -
  have repo: "us_recordings S = pgup_repo J" using assms(1) by (simp add: pgup_uses_def)
  obtain x s1 where l: "rr_ListAbandonedUploading (pgup_repo J) (now - olderThan) (if limit \<le> 0 then 50 else limit) s = (x, s1)" by fastforce
  then have "pgup_grows s0 s1" using preservesD [OF pgup_grows_repo(5)] assms(2) by blast
  then show ?thesis using l pgup_grows_sweep [OF assms(1)] assms(2)
    by (cases x) (simp_all add: ups_SweepAbandonedUploads_def repo Let_def)
qed

lemma pgup_grows_calls:
  assumes "pgup_uses J S"
  shows "preserves (pgup_grows s0) (ups_Create L S inp ctxCorr fresh now)"
    and "preserves (pgup_grows s0) (ups_Complete L enc S u p i now now')"
    and "preserves (pgup_grows s0) (ups_Reprocess L enc S u p i now)"
    and "preserves (pgup_grows s0) (ups_Delete L S u p i)"
proof -
  have repo: "us_recordings S = pgup_repo J" using assms by (simp add: pgup_uses_def)
  have access: "preserves (pgup_grows s0) (pa_EnsureMember (us_access S) u p)" "preserves (pgup_grows s0) (pa_EnsureOwner (us_access S) u p)" for u p
    using assms by (simp_all add: pgup_uses_def quiet_grows)
  have storage: "preserves (pgup_grows s0) (os_PresignPut st key ct ttl)" "preserves (pgup_grows s0) (os_Stat st key)"
      "preserves (pgup_grows s0) (os_DeletePrefix st key)" if "us_storage S = Some st" for st key ct ttl
    using assms that by (simp_all add: pgup_uses_def quiet_grows)
  note steps = preserves_intros access storage
  show "preserves (pgup_grows s0) (ups_Create L S inp ctxCorr fresh now)"
    by (cases "us_storage S"; simp only: ups_Create_def nil_call_def Let_def option.case repo; intro steps)
  show "preserves (pgup_grows s0) (ups_Complete L enc S u p i now now')"
    by (cases "us_storage S"; simp only: ups_Complete_def ups_find_def nil_call_def option.case repo; intro steps)
  show "preserves (pgup_grows s0) (ups_Reprocess L enc S u p i now)"
    by (simp only: ups_Reprocess_def ups_find_def repo; intro steps)
  show "preserves (pgup_grows s0) (ups_Delete L S u p i)"
    by (cases "us_storage S"; simp only: ups_Delete_def ups_find_def option.case repo; intro steps)
qed

text \<open>Between the calls the other stores work on the other tables, and clients put objects.\<close>

definition pgup_env :: "pg \<Rightarrow> pg \<Rightarrow> bool" where
  "pgup_env s s' \<longleftrightarrow> steps s s' \<and> t_recordings (pg_db s') = t_recordings (pg_db s) \<and> t_outbox (pg_db s') = t_outbox (pg_db s)"

lemma pgup_env_view: "pgup_env s s' \<Longrightarrow> pgup_ok s' = pgup_ok s \<and> pgup_view J s' = pgup_view J s"
  by (simp add: pgup_env_def pgup_ok_def pgup_view_def pgup_rows_def)

lemma pgup_reach_grows:
  assumes "ups_reach L enc S (pgup_view J) pgup_env s0 s" "pgup_uses J S" "pgup_outbox_ok s0"
  shows "pgup_grows s0 s"
  using assms(1)
proof (induction rule: ups_reach.induct)
  case ups_start
  show ?case using assms(3) by (rule pgup_grows_refl)
next
  case (ups_env s s')
  then show ?case using pgup_grows_same by (auto simp: pgup_env_def)
next
  case (ups_sweep s olderThan limit now)
  then show ?case using pgup_grows_sweep_call [OF assms(2)] by blast
next
  case (ups_create s fresh inp ctxCorr now)
  then show ?case using preservesD [OF pgup_grows_calls(1) [OF assms(2)] prod.collapse [symmetric]] by blast
next
  case (ups_complete s userID projectID recordingID now now')
  then show ?case using preservesD [OF pgup_grows_calls(2) [OF assms(2)] prod.collapse [symmetric]] by blast
next
  case (ups_reprocess s userID projectID recordingID now)
  then show ?case using preservesD [OF pgup_grows_calls(3) [OF assms(2)] prod.collapse [symmetric]] by blast
next
  case (ups_delete s userID projectID recordingID)
  then show ?case using preservesD [OF pgup_grows_calls(4) [OF assms(2)] prod.collapse [symmetric]] by blast
qed

section \<open>The service, the relay and the broker\<close>

inductive pg_outbox_reach :: "jsonb \<Rightarrow> 'z golib_scheme \<Rightarrow> (uploaded_event \<Rightarrow> err + bytes) \<Rightarrow> pg upload_service
    \<Rightarrow> pg \<times> broker \<Rightarrow> bool"
  for J :: jsonb and L :: "'z golib_scheme" and enc :: "uploaded_event \<Rightarrow> err + bytes" and S :: "pg upload_service" where
  pob_start: "t_recordings (pg_db s) = [] \<Longrightarrow> t_outbox (pg_db s) = [] \<Longrightarrow> pg_outbox_reach J L enc S (s, \<lparr>bk_log = [], bk_down = False\<rparr>)"
| pob_service: "pg_outbox_reach J L enc S (s, k) \<Longrightarrow> ups_reach L enc S (pgup_view J) pgup_env s s' \<Longrightarrow> pg_outbox_reach J L enc S (s', k)"
| pob_flush: "pg_outbox_reach J L enc S w \<Longrightarrow>
    pg_outbox_reach J L enc S (snd (relay_Flush (new_relay (pgup_WithClaimed J now) broker_publisher) w))"
| pob_outage: "pg_outbox_reach J L enc S (s, k) \<Longrightarrow> pg_outbox_reach J L enc S (s, k\<lparr>bk_down := d\<rparr>)"

definition pg_relay_inv :: "jsonb \<Rightarrow> pg \<times> broker \<Rightarrow> bool" where
  "pg_relay_inv J w \<longleftrightarrow> (let (s, k) = w in pgup_ok s \<and> pgup_outbox_ok s
     \<and> (\<forall>m\<in>set (pgup_stored J s). m \<in> set (pgup_pending J s) \<or> as_sent m \<in> set (bk_log k))
     \<and> (\<forall>x\<in>set (bk_log k). \<exists>m\<in>set (pgup_stored J s). x = as_sent m))"

lemma pg_relay_inv_service:
  assumes "pg_relay_inv J (s, k)" "pgup_grows s s'" "pgup_ok s'"
  shows "pg_relay_inv J (s', k)"
proof -
  obtain new where "t_outbox (pg_db s') = t_outbox (pg_db s) @ new" "\<forall>b\<in>set new. ob_published_at b = None"
    using assms(2) by (auto simp: pgup_grows_def)
  then have "pgup_stored J s' = pgup_stored J s @ map (scan_outbox J) new" "pgup_pending J s' = pgup_pending J s @ map (scan_outbox J) new"
    by (simp_all add: pgup_stored_def pgup_pending_def)
  then show ?thesis using assms by (auto simp: pg_relay_inv_def pgup_grows_def)
qed

text \<open>A claim writes to nothing but the marks of the outbox.\<close>

lemma pgup_claim_frame:
  assumes "pgup_WithClaimed J now lim fn (s, k) = (r, (s', k'))"
  shows "t_recordings (pg_db s') = t_recordings (pg_db s)"
proof -
  have begin_db: "pg_db s1 = pg_db s" if "andthen (query (\<lambda>_. ())) (\<lambda>_. stmt (pg_claimable J lim)) s = (y, s1)" for y s1
    using that
    by (cases rule: andthen_cases) (auto dest!: query_Inl query_Inr, cases y, auto dest!: stmt_Inl stmt_Inr simp: pg_claimable_def)
  have marks: "t_recordings (pg_db s2) = t_recordings (pg_db s1)"
    if "andthen (foreach (pg_mark_published now) () msgs) (\<lambda>_. query (\<lambda>_. ())) s1 = (Inr v, s2)" for msgs s1 s2 v
    using that mark_all by (auto elim!: andthen_InrE dest!: query_Inr)
  show ?thesis
  proof (cases "andthen (query (\<lambda>_. ())) (\<lambda>_. stmt (pg_claimable J lim)) s")
    case (Pair y s1)
    note b = begin_db [OF Pair]
    show ?thesis
    proof (cases y)
      case (Inl e)
      then show ?thesis using assms Pair b by (auto simp: pgup_WithClaimed_def split: if_splits)
    next
      case (Inr msgs)
      obtain x k1 where fn: "fn msgs k = (x, k1)" by fastforce
      obtain z s2 where m: "andthen (foreach (pg_mark_published now) () msgs) (\<lambda>_. query (\<lambda>_. ())) s1 = (z, s2)" by fastforce
      show ?thesis using assms Pair b Inr fn m marks [of msgs s1 _ s2]
        by (cases x; cases z) (auto simp: pgup_WithClaimed_def split: if_splits)
    qed
  qed
qed

lemma pg_relay_inv_flush:
  assumes "pg_relay_inv J (s, k)"
    and "relay_Flush (new_relay (pgup_WithClaimed J now) broker_publisher) (s, k) = (x, (s', k'))"
  shows "pg_relay_inv J (s', k') \<and> pgup_view J s' = pgup_view J s"
proof -
  have ok: "pgup_ok s" and ook: "pgup_outbox_ok s" using assms(1) by (simp_all add: pg_relay_inv_def)
  have "pgup_WithClaimed J now 50 (\<lambda>msgs. foreach (relay_publish broker_publisher) () msgs) (s, k) = (x, (s', k'))"
    using assms(2) by (simp add: relay_Flush_def new_relay_def)
  from pgup_claim_frame [OF this] have rows: "t_recordings (pg_db s') = t_recordings (pg_db s)" .
  note f = pgup_relay.Flush_steps [where J = J and now = now, OF ook _ _ assms(2)]
  have st: "pgup_stored J s' = pgup_stored J s" and ook': "pgup_outbox_ok s'" using f by (simp_all add: new_relay_def)
  obtain more where more: "bk_log k' = bk_log k @ more" "set more \<subseteq> as_sent ` set (pgup_pending J s)"
    "\<forall>m. m \<in> set (pgup_pending J s) - set (pgup_pending J s') \<longrightarrow> as_sent m \<in> set more"
    using f by (auto simp: new_relay_def)
  have "\<forall>m\<in>set (pgup_stored J s'). m \<in> set (pgup_pending J s') \<or> as_sent m \<in> set (bk_log k')"
    using assms(1) more st by (fastforce simp: pg_relay_inv_def)
  moreover have "\<forall>x\<in>set (bk_log k'). \<exists>m\<in>set (pgup_stored J s'). x = as_sent m"
    using assms(1) more st pgup_outbox.pending_stored [OF ook, of J] by (fastforce simp: pg_relay_inv_def)
  moreover have "pgup_ok s'" using ok rows by (simp add: pgup_ok_def)
  moreover have "pgup_view J s' = pgup_view J s" using rows st by (simp add: pgup_view_def pgup_rows_def pgup_stored_def)
  ultimately show ?thesis using ook' by (simp add: pg_relay_inv_def)
qed

lemma pg_reach_relay_inv:
  assumes "pg_outbox_reach J L enc S w" "golib_ok L" "pgup_uses J S"
  shows "pg_relay_inv J w \<and> outbox_inv L (pgup_view J (fst w))"
  using assms(1)
proof (induction rule: pg_outbox_reach.induct)
  case (pob_start s)
  then show ?case
    by (simp add: pg_relay_inv_def pgup_ok_def pgup_outbox_ok_def pgup_stored_def outbox_inv_def pgup_view_def pgup_rows_def lookup_def)
next
  case (pob_service s k s')
  then have "pgup_ok s" "pgup_outbox_ok s" by (simp_all add: pg_relay_inv_def)
  then show ?case
    using upload_service.reach_outbox_inv [OF pgup_service [OF assms(3)] pob_service(2) _ _ assms(2)]
      pgup_env_view pob_service pg_relay_inv_service pgup_reach_grows [OF pob_service(2) assms(3)] by auto
next
  case (pob_flush w now)
  obtain s k where w: "w = (s, k)" by fastforce
  obtain x s' k' where "relay_Flush (new_relay (pgup_WithClaimed J now) broker_publisher) w = (x, (s', k'))"
    by (metis prod.exhaust)
  then show ?case using pg_relay_inv_flush [of J s k now x s' k'] w pob_flush.IH by simp
next
  case (pob_outage s k d)
  then show ?case by (simp add: pg_relay_inv_def)
qed


text \<open>A service on the database of \<open>sample_pg_run\<close>, authorised by its project; every object there is has three bytes.\<close>

definition pg_access :: "'z golib_scheme \<Rightarrow> list_config \<Rightarrow> pg project_access" where
  "pg_access L cfg = \<lparr>pa_EnsureMember = access_EnsureMember (pgpr_svc L cfg), pa_EnsureOwner = access_EnsureOwner (pgpr_svc L cfg)\<rparr>"

definition sample_pg_storage :: "pg object_storage" where
  "sample_pg_storage =
     \<lparr>os_PresignPut = (\<lambda>key ct ttl. ret key), os_Stat = (\<lambda>key. ret \<lparr>om_Size = 3, om_ContentType = ''video/webm'', om_ETag = ''3''\<rparr>),
      os_Delete = (\<lambda>key. ret ()), os_DeletePrefix = (\<lambda>key. ret ())\<rparr>"

definition sample_jsonb :: jsonb where
  "sample_jsonb b = Some b"

definition sample_pg_uploads :: "pg upload_service" where
  "sample_pg_uploads = upload_service_new (pgup_repo sample_jsonb) (Some sample_pg_storage)
     (pg_access sample_lib \<lparr>lc_DefaultLimit = 50, lc_MaxLimit = 100\<rparr>) 0"

definition stored_create :: pg where
  "stored_create = snd (ups_Create sample_lib sample_pg_uploads (sample_input\<lparr>ci_ProjectID := 8\<rparr>) [] 9 100 sample_pg_run)"

definition stored_complete :: pg where
  "stored_complete = snd (ups_Complete sample_lib sample_enc sample_pg_uploads 1 8 9 200 201 stored_create)"

definition stored_flush :: "pg \<times> broker" where
  "stored_flush = snd (relay_Flush (new_relay (pgup_WithClaimed sample_jsonb 300) broker_publisher)
     (stored_complete, \<lparr>bk_log = [], bk_down = False\<rparr>))"

lemma quiet_ops:
  "quiet (ret a)" "quiet (fail e)" "quiet (query f)" "quiet m \<Longrightarrow> quiet (map_err g m)"
  "quiet m \<Longrightarrow> (\<And>a. quiet (h a)) \<Longrightarrow> quiet (andthen m h)" "quiet p \<Longrightarrow> quiet q \<Longrightarrow> quiet (if b then p else q)"
proof -
  show "quiet (ret a)" "quiet (fail e)" by (simp_all add: quiet_def steps_def keeps_def)
  show "quiet (query f)" by (simp add: quiet_def steps_def query_keeps_db)
  show "quiet m \<Longrightarrow> quiet (map_err g m)" by (simp add: quiet_def steps_def keeps_def)
  show "quiet p \<Longrightarrow> quiet q \<Longrightarrow> quiet (if b then p else q)" by simp
  assume m: "quiet m" and h: "\<And>a. quiet (h a)"
  have "steps s (snd (andthen m h s))" for s
  proof (cases "m s")
    case (Pair x s1)
    then have "steps s s1" using m by (metis quiet_def snd_conv)
    moreover have "steps s1 (snd (h a s1))" for a using h by (simp add: quiet_def)
    ultimately show ?thesis using Pair by (cases x) (auto simp: andthen_def steps_def intro: le_trans)
  qed
  then show "quiet (andthen m h)" using m h by (simp add: quiet_def keeps_andthen)
qed

lemma pg_access_quiet: "quiet (pa_EnsureMember (pg_access L cfg) u p)" "quiet (pa_EnsureOwner (pg_access L cfg) u p)"
proof -
  have row: "quiet (query_row none f)" for none and f :: "database \<Rightarrow> 'b option"
    unfolding query_row_def by (intro quiet_ops) (simp add: quiet_ops split: option.split)
  show "quiet (pa_EnsureMember (pg_access L cfg) u p)" "quiet (pa_EnsureOwner (pg_access L cfg) u p)"
    by (simp_all add: pg_access_def access_EnsureMember_def access_EnsureOwner_def prs_EnsureMember_def prs_EnsureOwner_def
        prs_requireOwner_def prs_requireMember_def pgpr_svc_def pgpr_repo_def pgpr_GetMembership_def quiet_ops row)
qed

lemma sample_pg_uses: "pgup_uses sample_jsonb sample_pg_uploads"
  by (simp add: pgup_uses_def sample_pg_uploads_def upload_service_new_def sample_pg_storage_def pg_access_quiet quiet_ops)

lemma stored_flush_rows:
  "map rec_Status (t_recordings (pg_db (fst stored_flush))) = [UPLOADED]
   \<and> list_all (\<lambda>b. ob_published_at b \<noteq> None) (t_outbox (pg_db (fst stored_flush)))"
  by code_simp


end
