(* ===== verification/Postgres_Reports.thy ===== *)
theory Postgres_Reports
  imports Database Reports_Memory
begin

text \<open>\<open>internal/reports/adapter/postgres\<close>: reports read from the database, and the interpretation of \<open>report_source\<close>.\<close>

definition pgrp_scan :: "jsonb \<Rightarrow> report \<Rightarrow> report" where
  "pgrp_scan J r = r\<lparr>rp_Steps := jsonb_text J (rp_Steps r)\<rparr>"

definition pgrp_ListByProject :: "jsonb \<Rightarrow> 'z golib_scheme \<Rightarrow> uuid \<Rightarrow> page \<Rightarrow> (pg, report page_result) op" where
  "pgrp_ListByProject J L projectID p =
     pg_page_desc L rp_key p (\<lambda>db. map (pgrp_scan J) (filter (\<lambda>r. rp_ProjectID r = projectID) (t_reports db)))"

text \<open>\<open>loadDetail\<close>: the report joined with its recording, then its frames.\<close>

definition pgrp_joined :: "(report \<Rightarrow> bool) \<Rightarrow> database \<Rightarrow> (report \<times> db_recording) option" where
  "pgrp_joined p db =
     (case find p (t_reports db) of
        None \<Rightarrow> None
      | Some r \<Rightarrow> map_option (Pair r) (lookup rec_ID (t_recordings db) (rp_RecordingID r)))"

definition pgrp_frames :: "artifact list \<Rightarrow> frame list" where
  "pgrp_frames rows =
     map (\<lambda>a. \<lparr>fr_Ordinal = art_Ordinal a, fr_StorageKey = art_StorageKey a, fr_ContentType = art_ContentType a,
               fr_ByteSize = art_ByteSize a, fr_URL = []\<rparr>) (filter (\<lambda>a. art_Kind a \<noteq> KindThumb) rows)"

definition pgrp_loadDetail :: "jsonb \<Rightarrow> (report \<Rightarrow> bool) \<Rightarrow> (pg, detail) op" where
  "pgrp_loadDetail J p =
     andthen (query_row (ErrNotFound Reports) (pgrp_joined p)) (\<lambda>(r, rec).
     andthen (query (pg_artifacts_of (rp_RecordingID r))) (\<lambda>rows.
     ret \<lparr>dt_Report = pgrp_scan J r, dt_RecordingStatus = status_text (rec_Status rec), dt_Metadata = jsonb_text J (rec_Metadata rec),
          dt_Frames = pgrp_frames rows, dt_ThumbURL = pg_thumb_key rows\<rparr>))"

definition pgrp_GetByID :: "jsonb \<Rightarrow> uuid \<Rightarrow> uuid \<Rightarrow> (pg, detail) op" where
  "pgrp_GetByID J projectID reportID = pgrp_loadDetail J (\<lambda>r. rp_ID r = reportID \<and> rp_ProjectID r = projectID)"

definition pgrp_GetByRecordingID :: "jsonb \<Rightarrow> uuid \<Rightarrow> uuid \<Rightarrow> (pg, detail) op" where
  "pgrp_GetByRecordingID J projectID recordingID = pgrp_loadDetail J (\<lambda>r. rp_RecordingID r = recordingID \<and> rp_ProjectID r = projectID)"

definition pgrp_repo :: "jsonb \<Rightarrow> 'z golib_scheme \<Rightarrow> pg report_repository" where
  "pgrp_repo J L =
     \<lparr>rpr_ListByProject = pgrp_ListByProject J L, rpr_GetByID = pgrp_GetByID J, rpr_GetByRecordingID = pgrp_GetByRecordingID J\<rparr>"

definition pgrp_service :: "jsonb \<Rightarrow> 'z golib_scheme \<Rightarrow> (uuid \<Rightarrow> uuid \<Rightarrow> (pg, unit) op) \<Rightarrow> list_config \<Rightarrow> pg reports_service" where
  "pgrp_service J L acc cfg = reports_service_new (pgrp_repo J L) acc None None cfg"

lemma pgrp_keeps: "keeps pg_db (pgrp_loadDetail J p)"
  unfolding pgrp_loadDetail_def
  by (rule keeps_andthen [OF query_row_keeps]) (auto split: prod.split intro!: keeps_andthen keeps_ret query_keeps_db)

lemma pgrp_loadDetail_Inr:
  assumes "pgrp_loadDetail J p s = (Inr d, s')"
  shows "\<exists>r\<in>set (t_reports (pg_db s)). p r \<and> dt_Report d = pgrp_scan J r"
proof -
  obtain r rec where "pgrp_joined p (pg_db s) = Some (r, rec)" "dt_Report d = pgrp_scan J r"
    using assms unfolding pgrp_loadDetail_def by (auto elim!: andthen_InrE dest!: query_row_Inr)
  then show ?thesis by (auto simp: pgrp_joined_def find_Some_iff split: option.splits)
qed

text \<open>No cache: what is served was read from the database.\<close>

definition served :: "pg \<Rightarrow> bool" where "served s \<longleftrightarrow> True"

interpretation pgrp: report_source "pgrp_repo J L" None served "\<lambda>i d. rp_ID (dt_Report d) = i"
proof (unfold_locales, goal_cases)
  case (2 s p i d s')
  then show ?case by (auto simp: pgrp_repo_def pgrp_GetByID_def pgrp_scan_def dest!: pgrp_loadDetail_Inr)
next
  case (4 s p r d s')
  then show ?case by (auto simp: pgrp_repo_def pgrp_GetByRecordingID_def pgrp_scan_def dest!: pgrp_loadDetail_Inr)
qed (simp_all add: preserves_def served_def)

interpretation pgrp_svc: report_client "pgrp_repo J L" None served "\<lambda>i d. rp_ID (dt_Report d) = i" "pgrp_service J L acc cfg"
  by unfold_locales (simp_all add: pgrp_service_def reports_service_new_def preserves_def served_def)

end
