(* ===== verification/Postgres_AI.thy ===== *)
theory Postgres_AI
  imports Postgres_Uploads AI_Jobs
begin

text \<open>
  \<open>internal/ai/adapter/postgres\<close>: analyses, their reports and events in the database, and the interpretation of
  \<open>analysis_contract\<close>. The identifiers of \<open>uuid.New()\<close> and of \<open>gen_random_uuid()\<close> are the tick's.
\<close>

section \<open>Rows\<close>

definition an_key :: "analysis \<Rightarrow> uuid \<times> string" where
  "an_key a = (an_RecordingID a, an_PromptVersion a)"

definition scan_analysis :: "jsonb \<Rightarrow> analysis \<Rightarrow> analysis" where
  "scan_analysis J a = a\<lparr>an_Steps := jsonb_text J (an_Steps a)\<rparr>"

fun report_status_text :: "report_status \<Rightarrow> string" where
  "report_status_text ReportPending = ''PENDING''"
| "report_status_text ReportGenerating = ''GENERATING''"
| "report_status_text ReportReady = ''READY''"
| "report_status_text ReportFailed = ''FAILED''"

text \<open>The \<open>CHECK\<close> of the table leaves no other text than these four.\<close>

definition scan_report_status :: "string \<Rightarrow> report_status" where
  "scan_report_status t =
     (if t = ''PENDING'' then ReportPending else if t = ''GENERATING'' then ReportGenerating
      else if t = ''READY'' then ReportReady else ReportFailed)"

lemma scan_report_status [simp]: "scan_report_status (report_status_text st) = st"
  by (cases st) (simp_all add: scan_report_status_def)

definition scan_ai_report :: "jsonb \<Rightarrow> report \<Rightarrow> ai_report" where
  "scan_ai_report J r =
     \<lparr>ar_ID = rp_ID r, ar_RecordingID = rp_RecordingID r, ar_ProjectID = rp_ProjectID r, ar_Status = scan_report_status (rp_Status r),
      ar_Title = rp_Title r, ar_Summary = rp_Summary r, ar_Steps = jsonb_text J (rp_Steps r), ar_AIStatus = rp_AIStatus r,
      ar_PromptVersion = rp_PromptVersion r, ar_CreatedAt = rp_CreatedAt r, ar_UpdatedAt = rp_UpdatedAt r\<rparr>"

section \<open>Upserts\<close>

text \<open>\<open>INSERT .. ON CONFLICT (key) DO UPDATE SET f\<close>, where the row may be written.\<close>

definition upserted :: "('r \<Rightarrow> 'k) \<Rightarrow> 'r \<Rightarrow> ('r \<Rightarrow> 'r) \<Rightarrow> 'r list \<Rightarrow> 'r list" where
  "upserted key new f rows =
     (if key new \<in> key ` set rows then update_where (\<lambda>r. key r = key new) f rows else rows @ [new])"

text \<open>The row the statement returns.\<close>

definition upserted_row :: "('r \<Rightarrow> 'k) \<Rightarrow> 'r \<Rightarrow> ('r \<Rightarrow> 'r) \<Rightarrow> 'r list \<Rightarrow> 'r" where
  "upserted_row key new f rows = (case lookup key rows (key new) of None \<Rightarrow> new | Some r \<Rightarrow> f r)"

lemma lookup_upserted:
  assumes "\<And>r. key (f r) = key r"
  shows "lookup key (upserted key new f rows) = (lookup key rows)(key new \<mapsto> upserted_row key new f rows)"
proof (cases "lookup key rows (key new)")
  case None
  then have "key new \<notin> key ` set rows" by (simp add: lookup_None)
  then show ?thesis using None by (simp add: upserted_def upserted_row_def lookup_insert)
next
  case (Some r)
  then have "key new \<in> key ` set rows" by (metis lookup_None option.distinct(1))
  then show ?thesis using Some by (simp add: upserted_def upserted_row_def lookup_update_one assms)
qed

lemma distinct_upserted:
  "(\<And>r. key (f r) = key r) \<Longrightarrow> distinct (map key rows) \<Longrightarrow> distinct (map key (upserted key new f rows))"
  by (simp add: upserted_def)

text \<open>What stands in the way of a new row: its identifier is taken, or what it refers to is not there.\<close>

definition pg_analysis_refused :: "database \<Rightarrow> analysis \<Rightarrow> err option" where
  "pg_analysis_refused db new =
     (if an_key new \<in> an_key ` set (t_analyses db) then None
      else if an_ID new \<in> an_ID ` set (t_analyses db) then Some unique_violation
      else if an_RecordingID new \<notin> rec_ID ` set (t_recordings db) \<or> an_ProjectID new \<notin> prj_ID ` set (t_projects db) then Some foreign_key_violation
      else None)"

definition pg_report_refused :: "database \<Rightarrow> report \<Rightarrow> err option" where
  "pg_report_refused db new =
     (if rp_RecordingID new \<in> rp_RecordingID ` set (t_reports db) then None
      else if rp_ID new \<in> rp_ID ` set (t_reports db) then Some unique_violation
      else if rp_RecordingID new \<notin> rec_ID ` set (t_recordings db) \<or> rp_ProjectID new \<notin> prj_ID ` set (t_projects db) then Some foreign_key_violation
      else None)"

definition pg_upsert_analysis :: "analysis \<Rightarrow> (analysis \<Rightarrow> analysis) \<Rightarrow> database \<Rightarrow> err + analysis \<times> database" where
  "pg_upsert_analysis new f db =
     (case pg_analysis_refused db new of
        Some e \<Rightarrow> Inl e
      | None \<Rightarrow> Inr (upserted_row an_key new f (t_analyses db), db\<lparr>t_analyses := upserted an_key new f (t_analyses db)\<rparr>))"

definition pg_upsert_report :: "report \<Rightarrow> (report \<Rightarrow> report) \<Rightarrow> database \<Rightarrow> err + report \<times> database" where
  "pg_upsert_report new f db =
     (case pg_report_refused db new of
        Some e \<Rightarrow> Inl e
      | None \<Rightarrow> Inr (upserted_row rp_RecordingID new f (t_reports db), db\<lparr>t_reports := upserted rp_RecordingID new f (t_reports db)\<rparr>))"

section \<open>Claims\<close>

definition pgai_GetAnalysis :: "jsonb \<Rightarrow> uuid \<Rightarrow> string \<Rightarrow> (pg, analysis) op" where
  "pgai_GetAnalysis J r v = query_row (ErrNotFound AI) (\<lambda>db. map_option (scan_analysis J) (lookup an_key (t_analyses db) (r, v)))"

definition pg_claimed :: "uuid \<Rightarrow> uuid \<Rightarrow> uuid \<Rightarrow> string \<Rightarrow> go_time \<Rightarrow> analysis" where
  "pg_claimed u r p v at =
     \<lparr>an_ID = u, an_RecordingID = r, an_ProjectID = p, an_PromptVersion = v, an_Status = AnalysisRunning, an_Title = [],
      an_Summary = [], an_Steps = ''[]'', an_Provider = [], an_Model = [], an_ErrorMessage = [],
      an_CreatedAt = pg_time at, an_UpdatedAt = pg_time at\<rparr>"

text \<open>The upsert with its \<open>WHERE\<close>: no row comes back where the analysis is not free.\<close>

definition pg_claim_analysis :: "analysis \<Rightarrow> go_time \<Rightarrow> go_time \<Rightarrow> database \<Rightarrow> err + analysis option \<times> database" where
  "pg_claim_analysis new at leaseCutoff db =
     (if (case lookup an_key (t_analyses db) (an_key new) of
            None \<Rightarrow> True
          | Some a \<Rightarrow> an_Status a \<in> {AnalysisPending, AnalysisFailed}
              \<or> (an_Status a = AnalysisRunning \<and> an_UpdatedAt a < pg_time leaseCutoff))
      then map_sum id (\<lambda>(a, db'). (Some a, db'))
        (pg_upsert_analysis new (\<lambda>a. a\<lparr>an_Status := AnalysisRunning, an_UpdatedAt := pg_time at, an_ErrorMessage := []\<rparr>) db)
      else Inr (None, db))"

definition pgai_TryClaimRunning :: "jsonb \<Rightarrow> uuid \<Rightarrow> uuid \<Rightarrow> string \<Rightarrow> go_time \<Rightarrow> go_time \<Rightarrow> (pg, analysis) op" where
  "pgai_TryClaimRunning J r p v at leaseCutoff =
     andthen (stmt (\<lambda>n t. pg_claim_analysis (pg_claimed (tk_uuid t) r p v at) at leaseCutoff)) (\<lambda>out.
     case out of
       Some a \<Rightarrow> ret (scan_analysis J a)
     | None \<Rightarrow> andthen (pgai_GetAnalysis J r v) (\<lambda>existing.
         if an_Status existing = AnalysisCompleted then fail (ErrNotFound AI) else fail ErrAnalysisInFlight))"

definition pgai_TouchRunning :: "uuid \<Rightarrow> string \<Rightarrow> go_time \<Rightarrow> (pg, unit) op" where
  "pgai_TouchRunning r v at =
     stmt (\<lambda>n t db. Inr ((), db\<lparr>t_analyses := update_where (\<lambda>a. an_key a = (r, v) \<and> an_Status a = AnalysisRunning)
       (\<lambda>a. a\<lparr>an_UpdatedAt := pg_time at\<rparr>) (t_analyses db)\<rparr>))"

section \<open>Reports\<close>

definition generating_report :: "uuid \<Rightarrow> uuid \<Rightarrow> uuid \<Rightarrow> go_time \<Rightarrow> report" where
  "generating_report u r p at =
     \<lparr>rp_ID = u, rp_RecordingID = r, rp_ProjectID = p, rp_Status = ''GENERATING'', rp_Title = [], rp_Summary = [], rp_Steps = ''[]'',
      rp_AIStatus = ''running'', rp_PromptVersion = PromptVersion, rp_CreatedAt = pg_time at, rp_UpdatedAt = pg_time at\<rparr>"

definition pgai_MarkGenerating ::
    "jsonb \<Rightarrow> 'z golib_scheme \<Rightarrow> ai_codec \<Rightarrow> uuid \<Rightarrow> uuid \<Rightarrow> string \<Rightarrow> go_time \<Rightarrow> (pg, ai_report) op" where
  "pgai_MarkGenerating J L C r p corr at =
     transaction
       (andthen (stmt (\<lambda>n t. pg_upsert_report (generating_report (tk_uuid t) r p at)
          (\<lambda>q. q\<lparr>rp_Status := ''GENERATING'', rp_AIStatus := ''running'', rp_PromptVersion := PromptVersion, rp_UpdatedAt := pg_time at\<rparr>))) (\<lambda>q.
        andthen (lift_sum (cd_started C
          \<lparr>started_event.se_SchemaVersion = 1, started_event.se_RecordingID = uuid_string L r, started_event.se_ProjectID = uuid_string L p, started_event.se_ReportID = uuid_string L (rp_ID q),
           started_event.se_PromptVersion = PromptVersion, started_event.se_CorrelationID = corr, started_event.se_OccurredAt = at\<rparr>)) (\<lambda>payload.
        andthen (stmt (pg_insert_outbox J TopicAnalysisStarted (uuid_string L r) payload corr)) (\<lambda>_.
        ret (scan_ai_report J q)))))"

definition completed_analysis_row :: "analysis \<Rightarrow> go_time \<Rightarrow> analysis" where
  "completed_analysis_row a at =
     a\<lparr>an_Status := AnalysisCompleted, an_ErrorMessage := [], an_CreatedAt := pg_time at, an_UpdatedAt := pg_time at\<rparr>"

definition ready_report_row :: "ai_report \<Rightarrow> go_time \<Rightarrow> report" where
  "ready_report_row q at =
     \<lparr>rp_ID = ar_ID q, rp_RecordingID = ar_RecordingID q, rp_ProjectID = ar_ProjectID q, rp_Status = ''READY'', rp_Title = ar_Title q,
      rp_Summary = ar_Summary q, rp_Steps = ar_Steps q, rp_AIStatus = ar_AIStatus q, rp_PromptVersion = ar_PromptVersion q,
      rp_CreatedAt = pg_time at, rp_UpdatedAt = pg_time at\<rparr>"

definition pg_complete_analysis :: "jsonb \<Rightarrow> analysis \<Rightarrow> go_time \<Rightarrow> database \<Rightarrow> err + analysis \<times> database" where
  "pg_complete_analysis J a at db =
     (if J (an_Steps a) = None then Inl invalid_json
      else pg_upsert_analysis (completed_analysis_row a at)
        (\<lambda>b. b\<lparr>an_Status := AnalysisCompleted, an_Title := an_Title a, an_Summary := an_Summary a, an_Steps := an_Steps a,
               an_Provider := an_Provider a, an_Model := an_Model a, an_ErrorMessage := [], an_UpdatedAt := pg_time at\<rparr>) db)"

definition pg_complete_report :: "jsonb \<Rightarrow> ai_report \<Rightarrow> go_time \<Rightarrow> database \<Rightarrow> err + report \<times> database" where
  "pg_complete_report J q at db =
     (if J (ar_Steps q) = None then Inl invalid_json
      else pg_upsert_report (ready_report_row q at)
        (\<lambda>b. b\<lparr>rp_Status := ''READY'', rp_Title := ar_Title q, rp_Summary := ar_Summary q, rp_Steps := ar_Steps q,
               rp_AIStatus := ar_AIStatus q, rp_PromptVersion := ar_PromptVersion q, rp_UpdatedAt := pg_time at\<rparr>) db)"

definition pgai_CompleteAnalysis :: "jsonb \<Rightarrow> analysis \<Rightarrow> ai_report \<Rightarrow> outbox_event list \<Rightarrow> go_time \<Rightarrow> (pg, unit) op" where
  "pgai_CompleteAnalysis J a q events at =
     transaction
       (andthen (stmt (\<lambda>n t. pg_complete_analysis J a at)) (\<lambda>_.
        andthen (stmt (\<lambda>n t. pg_complete_report J q at)) (\<lambda>_.
        foreach (\<lambda>_ e. stmt (pg_insert_outbox J (oe_Topic e) (oe_PartitionKey e) (oe_Payload e) (oe_CorrelationID e))) () events)))"

definition failed_report :: "uuid \<Rightarrow> db_recording \<Rightarrow> string \<Rightarrow> go_time \<Rightarrow> report" where
  "failed_report u r v at =
     \<lparr>rp_ID = u, rp_RecordingID = rec_ID r, rp_ProjectID = rec_ProjectID r, rp_Status = ''FAILED'', rp_Title = [], rp_Summary = [],
      rp_Steps = ''[]'', rp_AIStatus = ''failed'', rp_PromptVersion = v, rp_CreatedAt = pg_time at, rp_UpdatedAt = pg_time at\<rparr>"

definition pg_fail_report :: "uuid \<Rightarrow> string \<Rightarrow> go_time \<Rightarrow> int \<Rightarrow> tick \<Rightarrow> database \<Rightarrow> err + unit \<times> database" where
  "pg_fail_report r v at n t db =
     (case lookup rec_ID (t_recordings db) r of
        None \<Rightarrow> Inr ((), db)
      | Some rec \<Rightarrow> map_sum id (\<lambda>(q, db'). ((), db')) (pg_upsert_report (failed_report (tk_uuid t) rec v at)
          (\<lambda>q. q\<lparr>rp_Status := ''FAILED'', rp_AIStatus := ''failed'', rp_UpdatedAt := pg_time at\<rparr>) db))"

text \<open>Two statements, each on its own.\<close>

definition pgai_FailAnalysis :: "uuid \<Rightarrow> string \<Rightarrow> string \<Rightarrow> go_time \<Rightarrow> (pg, unit) op" where
  "pgai_FailAnalysis r v msg at =
     andthen (stmt (\<lambda>n t db. Inr ((), db\<lparr>t_analyses := update_where (\<lambda>a. an_key a = (r, v))
       (\<lambda>a. a\<lparr>an_Status := AnalysisFailed, an_ErrorMessage := take 1000 msg, an_UpdatedAt := pg_time at\<rparr>) (t_analyses db)\<rparr>))) (\<lambda>_.
     stmt (pg_fail_report r v at))"

definition pgai_GetRecordingMeta :: "jsonb \<Rightarrow> uuid \<Rightarrow> (pg, uuid \<times> bytes) op" where
  "pgai_GetRecordingMeta J r =
     query_row (ErrNotFound AI) (\<lambda>db. map_option (\<lambda>rec. (rec_ProjectID rec, jsonb_text J (rec_Metadata rec))) (lookup rec_ID (t_recordings db) r))"

definition pgai_GetReportByRecording :: "jsonb \<Rightarrow> uuid \<Rightarrow> (pg, ai_report) op" where
  "pgai_GetReportByRecording J r =
     query_row (ErrNotFound AI) (\<lambda>db. map_option (scan_ai_report J) (lookup rp_RecordingID (t_reports db) r))"

definition pgai_store :: "jsonb \<Rightarrow> 'z golib_scheme \<Rightarrow> ai_codec \<Rightarrow> pg analysis_store" where
  "pgai_store J L C =
     \<lparr>as_GetAnalysis = pgai_GetAnalysis J, as_TryClaimRunning = pgai_TryClaimRunning J, as_TouchRunning = pgai_TouchRunning,
      as_MarkGenerating = pgai_MarkGenerating J L C, as_CompleteAnalysis = pgai_CompleteAnalysis J,
      as_FailAnalysis = pgai_FailAnalysis, as_GetReportByRecording = pgai_GetReportByRecording J,
      as_GetRecordingMeta = pgai_GetRecordingMeta J\<rparr>"

section \<open>The contract\<close>

definition pgai_ok :: "pg \<Rightarrow> bool" where
  "pgai_ok s \<longleftrightarrow> distinct (map an_key (t_analyses (pg_db s))) \<and> distinct (map rp_RecordingID (t_reports (pg_db s)))"

definition pgai_an :: "jsonb \<Rightarrow> pg \<Rightarrow> analyses" where
  "pgai_an J s k = map_option (scan_analysis J) (lookup an_key (t_analyses (pg_db s)) k)"

definition pgai_rp :: "jsonb \<Rightarrow> pg \<Rightarrow> uuid \<Rightarrow> ai_report option" where
  "pgai_rp J s r = map_option (scan_ai_report J) (lookup rp_RecordingID (t_reports (pg_db s)) r)"

definition pgai_ob :: "pg \<Rightarrow> outbox_event list" where
  "pgai_ob s = map (\<lambda>b. \<lparr>oe_Topic = ob_topic b, oe_PartitionKey = ob_partition_key b, oe_Payload = ob_payload b, oe_CorrelationID = ob_correlation_id b\<rparr>)
     (t_outbox (pg_db s))"

lemma pgai_same: "pg_db s' = pg_db s \<Longrightarrow> pgai_ok s' = pgai_ok s \<and> pgai_an J s' = pgai_an J s \<and> pgai_rp J s' = pgai_rp J s \<and> pgai_ob s' = pgai_ob s"
  by (simp add: pgai_ok_def pgai_an_def [abs_def] pgai_rp_def [abs_def] pgai_ob_def)

lemma pgai_reads:
  assumes "keeps pg_db m"
  shows "keeps (\<lambda>s. (pgai_ok s, pgai_an J s, pgai_rp J s, pgai_ob s)) m"
proof (rule keepsI)
  fix s
  have "pg_db (snd (m s)) = pg_db s" using assms by (simp add: keeps_def)
  note same = pgai_same [OF this, of J]
  show "(pgai_ok (snd (m s)), pgai_an J (snd (m s)), pgai_rp J (snd (m s)), pgai_ob (snd (m s))) = (pgai_ok s, pgai_an J s, pgai_rp J s, pgai_ob s)"
    using same by (simp only:)
qed

lemma pgai_db:
  "keeps pg_db (pgai_GetAnalysis J r v)" "keeps pg_db (pgai_GetReportByRecording J r)" "keeps pg_db (pgai_GetRecordingMeta J r)"
  by (simp_all add: pgai_GetAnalysis_def pgai_GetReportByRecording_def pgai_GetRecordingMeta_def query_row_keeps)

lemma map_upd_lookup: "lookup key rows' = (lookup key rows)(k \<mapsto> r) \<Longrightarrow>
    (\<lambda>j. map_option g (lookup key rows' j)) = (\<lambda>j. map_option g (lookup key rows j))(k \<mapsto> g r)"
  by (rule ext) simp

text \<open>What writing a row of either table means for the contract.\<close>

lemma pg_upsert_analysis_Inr:
  assumes "pg_upsert_analysis new f db = Inr (a, db')" and f: "\<And>r. an_key (f r) = an_key r"
  shows "a = upserted_row an_key new f (t_analyses db) \<and> lookup an_key (t_analyses db') = (lookup an_key (t_analyses db))(an_key new \<mapsto> a)
     \<and> (distinct (map an_key (t_analyses db)) \<longrightarrow> distinct (map an_key (t_analyses db')))
     \<and> t_reports db' = t_reports db \<and> t_outbox db' = t_outbox db"
  using assms(1) lookup_upserted [where key = an_key and f = f, OF f, of new "t_analyses db"]
    distinct_upserted [where key = an_key and f = f, OF f, of "t_analyses db" new]
  by (auto simp: pg_upsert_analysis_def split: option.splits)

lemma pg_upsert_report_Inr:
  assumes "pg_upsert_report new f db = Inr (q, db')" and f: "\<And>r. rp_RecordingID (f r) = rp_RecordingID r"
  shows "q = upserted_row rp_RecordingID new f (t_reports db)
     \<and> lookup rp_RecordingID (t_reports db') = (lookup rp_RecordingID (t_reports db))(rp_RecordingID new \<mapsto> q)
     \<and> (distinct (map rp_RecordingID (t_reports db)) \<longrightarrow> distinct (map rp_RecordingID (t_reports db')))
     \<and> t_analyses db' = t_analyses db \<and> t_outbox db' = t_outbox db"
  using assms(1) lookup_upserted [where key = rp_RecordingID and f = f, OF f, of new "t_reports db"]
    distinct_upserted [where key = rp_RecordingID and f = f, OF f, of "t_reports db" new]
  by (auto simp: pg_upsert_report_def split: option.splits)

text \<open>A new row and an updated one agree in what the update sets.\<close>

lemma upserted_row_cases: "upserted_row key new f rows = new \<or> (\<exists>r. upserted_row key new f rows = f r \<and> lookup key rows (key new) = Some r)"
  by (simp add: upserted_row_def split: option.split)

text \<open>The server gives a text back as it is if it wrote it itself.\<close>

definition jsonb_stable :: "jsonb \<Rightarrow> bool" where
  "jsonb_stable J \<longleftrightarrow> (\<forall>b t. J b = Some t \<longrightarrow> J t = Some t)"

lemma jsonb_text_again: "jsonb_stable J \<Longrightarrow> jsonb_text J (jsonb_text J b) = jsonb_text J b"
  by (simp add: jsonb_stable_def jsonb_text_def split: option.split)

lemma pg_claim_cases:
  assumes "pg_claim_analysis new at before db = Inr (out, db')"
  obtains (busy) "out = None" "db' = db"
  | (free) a where "out = Some a"
      "\<forall>b. lookup an_key (t_analyses db) (an_key new) = Some b \<longrightarrow> an_Status b \<noteq> AnalysisCompleted
        \<and> (an_Status b = AnalysisRunning \<longrightarrow> an_UpdatedAt b < pg_time before)"
      "pg_upsert_analysis new (\<lambda>a. a\<lparr>an_Status := AnalysisRunning, an_UpdatedAt := pg_time at, an_ErrorMessage := []\<rparr>) db = Inr (a, db')"
  using assms
  by (cases "pg_upsert_analysis new (\<lambda>a. a\<lparr>an_Status := AnalysisRunning, an_UpdatedAt := pg_time at, an_ErrorMessage := []\<rparr>) db")
    (auto simp: pg_claim_analysis_def split: if_splits option.splits)

lemma pgai_TryClaim_cases:
  assumes run: "pgai_TryClaimRunning J r p v at before s = (x, s')" and good: "pgai_ok s"
  obtains (err) e where "x = Inl e" "pg_db s' = pg_db s"
  | (ok) a where "x = Inr a" "pgai_ok s'" "pgai_an J s' = (pgai_an J s)((r, v) \<mapsto> a)" "an_Status a = AnalysisRunning"
      "pgai_rp J s' = pgai_rp J s" "pgai_ob s' = pgai_ob s"
      "\<forall>b. pgai_an J s (r, v) = Some b \<longrightarrow> an_Status b \<noteq> AnalysisCompleted \<and> (an_Status b = AnalysisRunning \<longrightarrow> an_UpdatedAt b < before)"
  using run unfolding pgai_TryClaimRunning_def
proof (cases rule: andthen_cases)
  case (err e)
  then show ?thesis using that(1) stmt_Inl by blast
next
  case (ok out s1)
  note c = stmt_Inr [OF ok(1)]
  let ?new = "pg_claimed (tk_uuid (pg_ticks s (pg_step s))) r p v at"
  let ?f = "\<lambda>a. a\<lparr>an_Status := AnalysisRunning, an_UpdatedAt := pg_time at, an_ErrorMessage := []\<rparr>"
  have key: "an_key ?new = (r, v)" by (simp add: an_key_def pg_claimed_def)
  show ?thesis
  proof (cases out)
    case None
    then have "pg_db s1 = pg_db s" using c by (auto elim: pg_claim_cases)
    moreover have "pg_db s' = pg_db s1 \<and> (\<exists>e. x = Inl e)" using ok(2) None
      by (auto elim!: andthen_cases dest!: keepsD [OF pgai_db(1)] split: if_splits)
    ultimately show ?thesis using that(1) by auto
  next
    case (Some a)
    have free: "\<forall>b. lookup an_key (t_analyses (pg_db s)) (r, v) = Some b \<longrightarrow> an_Status b \<noteq> AnalysisCompleted
        \<and> (an_Status b = AnalysisRunning \<longrightarrow> an_UpdatedAt b < pg_time before)"
      and up: "pg_upsert_analysis ?new ?f (pg_db s) = Inr (a, pg_db s1)"
      using c Some key by (auto elim: pg_claim_cases)
    note u = pg_upsert_analysis_Inr [where f = ?f, OF up, unfolded key]
    have end_: "x = Inr (scan_analysis J a)" "s' = s1" using ok(2) Some by simp_all
    have u: "a = upserted_row an_key ?new ?f (t_analyses (pg_db s))"
        "lookup an_key (t_analyses (pg_db s1)) = (lookup an_key (t_analyses (pg_db s)))((r, v) \<mapsto> a)"
        "distinct (map an_key (t_analyses (pg_db s1)))" "t_reports (pg_db s1) = t_reports (pg_db s)" "t_outbox (pg_db s1) = t_outbox (pg_db s)"
      using u good by (simp_all add: an_key_def pgai_ok_def)
    have "an_Status a = AnalysisRunning" using upserted_row_cases [of an_key ?new ?f "t_analyses (pg_db s)"] u(1)
      by (auto simp: pg_claimed_def)
    moreover have "pgai_an J s' = (pgai_an J s)((r, v) \<mapsto> scan_analysis J a)"
      using map_upd_lookup [OF u(2), of "scan_analysis J"] end_(2) by (simp add: pgai_an_def [abs_def])
    moreover have "pgai_ok s'" "pgai_rp J s' = pgai_rp J s" "pgai_ob s' = pgai_ob s"
      using u(3-5) good end_(2) by (simp_all add: pgai_ok_def pgai_rp_def [abs_def] pgai_ob_def)
    moreover have "\<forall>b. pgai_an J s (r, v) = Some b \<longrightarrow> an_Status b \<noteq> AnalysisCompleted \<and> (an_Status b = AnalysisRunning \<longrightarrow> an_UpdatedAt b < before)"
      using free pg_time_le [of before] by (auto simp: pgai_an_def scan_analysis_def)
    ultimately show ?thesis using that(2) [of "scan_analysis J a"] end_(1) by (simp add: scan_analysis_def)
  qed
qed

text \<open>An update of the analyses with one key.\<close>

lemma pgai_an_update:
  assumes "t_analyses (pg_db s') = update_where (\<lambda>a. an_key a = k \<and> q a) f (t_analyses (pg_db s))" "\<And>a. an_key (f a) = an_key a"
  shows "pgai_an J s' = pgai_an J s \<or> (\<exists>a. lookup an_key (t_analyses (pg_db s)) k = Some a \<and> q a
     \<and> pgai_an J s' = (pgai_an J s)(k \<mapsto> scan_analysis J (f a)))"
proof -
  note l = lookup_update_key [where key = an_key and f = f, OF assms(2), of k q "t_analyses (pg_db s)"]
  show ?thesis
  proof (cases "lookup an_key (t_analyses (pg_db s)) k")
    case None
    then show ?thesis using l assms(1) by (simp add: pgai_an_def [abs_def])
  next
    case (Some a)
    show ?thesis
    proof (cases "q a")
      case True
      then have "lookup an_key (t_analyses (pg_db s')) = (lookup an_key (t_analyses (pg_db s)))(k \<mapsto> f a)" using l Some assms(1) by simp
      from map_upd_lookup [OF this, of "scan_analysis J"] show ?thesis using Some True by (simp add: pgai_an_def [abs_def])
    next
      case False
      then show ?thesis using l Some assms(1) by (simp add: pgai_an_def [abs_def])
    qed
  qed
qed

lemma pgai_touch:
  assumes "pgai_TouchRunning r v at s = (x, s')" and good: "pgai_ok s"
  shows "pgai_ok s' \<and> pgai_rp J s' = pgai_rp J s \<and> pgai_ob s' = pgai_ob s
     \<and> (pgai_an J s' = pgai_an J s \<or> (\<exists>b c. pgai_an J s (r, v) = Some b \<and> an_Status b = AnalysisRunning \<and> an_Status c = AnalysisRunning
            \<and> pgai_an J s' = (pgai_an J s)((r, v) \<mapsto> c)))"
proof (cases x)
  case (Inl e)
  then have "pg_db s' = pg_db s" using assms(1) unfolding pgai_TouchRunning_def by (blast dest: stmt_Inl)
  then show ?thesis using pgai_same good by blast
next
  case (Inr u)
  let ?f = "\<lambda>a. a\<lparr>an_UpdatedAt := pg_time at\<rparr>"
  have db: "pg_db s' = (pg_db s)\<lparr>t_analyses := update_where (\<lambda>a. an_key a = (r, v) \<and> an_Status a = AnalysisRunning) ?f (t_analyses (pg_db s))\<rparr>"
    using stmt_Inr [OF assms(1) [unfolded pgai_TouchRunning_def Inr]] by simp
  have f: "an_key (?f a) = an_key a" for a by (simp add: an_key_def)
  have rows: "t_analyses (pg_db s') = update_where (\<lambda>a. an_key a = (r, v) \<and> an_Status a = AnalysisRunning) ?f (t_analyses (pg_db s))"
    using db by simp
  from pgai_an_update [where f = ?f and J = J, OF rows f]
  have "pgai_an J s' = pgai_an J s \<or> (\<exists>b c. pgai_an J s (r, v) = Some b \<and> an_Status b = AnalysisRunning \<and> an_Status c = AnalysisRunning
            \<and> pgai_an J s' = (pgai_an J s)((r, v) \<mapsto> c))"
  proof (elim disjE exE conjE)
    fix a assume "lookup an_key (t_analyses (pg_db s)) (r, v) = Some a" "an_Status a = AnalysisRunning"
      "pgai_an J s' = (pgai_an J s)((r, v) \<mapsto> scan_analysis J (?f a))"
    then show ?thesis
      by (intro disjI2 exI [of _ "scan_analysis J a"] exI [of _ "scan_analysis J (?f a)"]) (simp add: pgai_an_def scan_analysis_def)
  qed simp
  moreover have "pgai_ok s'" using good db f by (simp add: pgai_ok_def)
  moreover have "pgai_rp J s' = pgai_rp J s" "pgai_ob s' = pgai_ob s" using db by (simp_all add: pgai_rp_def [abs_def] pgai_ob_def)
  ultimately show ?thesis by blast
qed

lemma pgai_Mark_cases:
  assumes run: "pgai_MarkGenerating J L C r p corr at s = (x, s')" and good: "pgai_ok s"
  obtains (err) e where "x = Inl e" "pg_db s' = pg_db s"
  | (ok) rep e where "x = Inr rep" "pgai_ok s'" "pgai_an J s' = pgai_an J s" "pgai_rp J s' = (pgai_rp J s)(r \<mapsto> rep)"
      "ar_Status rep = ReportGenerating" "oe_Topic e = TopicAnalysisStarted" "pgai_ob s' = pgai_ob s @ [e]"
  using run unfolding pgai_MarkGenerating_def
proof (cases rule: transaction_cases)
  case (err e)
  then show ?thesis by (rule that(1))
next
  case (ok rep s0 s1)
  let ?f = "\<lambda>q. q\<lparr>rp_Status := ''GENERATING'', rp_AIStatus := ''running'', rp_PromptVersion := PromptVersion, rp_UpdatedAt := pg_time at\<rparr>"
  let ?new = "generating_report (tk_uuid (pg_ticks s0 (pg_step s0))) r p at"
  from ok(3) obtain q s2 payload where up: "stmt (\<lambda>n t. pg_upsert_report (generating_report (tk_uuid t) r p at) ?f) s0 = (Inr q, s2)"
      and ins: "stmt (pg_insert_outbox J TopicAnalysisStarted (uuid_string L r) payload corr) s2 = (Inr (), s1)"
      and rep: "rep = scan_ai_report J q"
    by (auto elim!: andthen_InrE)
  have "pg_upsert_report ?new ?f (pg_db s) = Inr (q, pg_db s2)" using stmt_Inr [OF up] ok(2) by simp
  note u = pg_upsert_report_Inr [where f = ?f, OF this]
  have key: "rp_RecordingID ?new = r" by (simp add: generating_report_def)
  note o = pg_insert_outbox_Inr [OF ins]
  have st: "rp_Status q = ''GENERATING''" using upserted_row_cases [of rp_RecordingID ?new ?f "t_reports (pg_db s)"] u
    by (auto simp: generating_report_def)
  have "lookup rp_RecordingID (t_reports (pg_db s')) = (lookup rp_RecordingID (t_reports (pg_db s)))(r \<mapsto> q)"
    using u key o ok(4) by simp
  then have "pgai_rp J s' = (pgai_rp J s)(r \<mapsto> rep)" using map_upd_lookup [of rp_RecordingID _ _ r q "scan_ai_report J"] rep
    by (simp add: pgai_rp_def [abs_def])
  moreover have "pgai_ok s'" "pgai_an J s' = pgai_an J s" using u o ok(4) good by (simp_all add: pgai_ok_def pgai_an_def [abs_def])
  moreover have "ar_Status rep = ReportGenerating" using st rep by (simp add: scan_ai_report_def scan_report_status_def)
  moreover have "pgai_ob s' = pgai_ob s @ [\<lparr>oe_Topic = TopicAnalysisStarted, oe_PartitionKey = uuid_string L r, oe_Payload = payload, oe_CorrelationID = corr\<rparr>]"
    using u o ok(4) by (simp add: pgai_ob_def outbox_row_def)
  ultimately show ?thesis
    by (intro that(2) [OF ok(1), of "\<lparr>oe_Topic = TopicAnalysisStarted, oe_PartitionKey = uuid_string L r, oe_Payload = payload, oe_CorrelationID = corr\<rparr>"])
      simp_all
qed

lemma pg_insert_events:
  "foreach (\<lambda>_ e. stmt (pg_insert_outbox J (oe_Topic e) (oe_PartitionKey e) (oe_Payload e) (oe_CorrelationID e))) v es s = (Inr u, s') \<Longrightarrow>
     t_analyses (pg_db s') = t_analyses (pg_db s) \<and> t_reports (pg_db s') = t_reports (pg_db s) \<and> pgai_ob s' = pgai_ob s @ es"
proof (induction es arbitrary: v s)
  case (Cons e es)
  from Cons.prems obtain w s1 where e: "stmt (pg_insert_outbox J (oe_Topic e) (oe_PartitionKey e) (oe_Payload e) (oe_CorrelationID e)) s = (Inr w, s1)"
      and rest: "foreach (\<lambda>_ e. stmt (pg_insert_outbox J (oe_Topic e) (oe_PartitionKey e) (oe_Payload e) (oe_CorrelationID e))) w es s1 = (Inr u, s')"
    by (auto elim: andthen_InrE)
  have "pgai_ob s1 = pgai_ob s @ [e]" "t_analyses (pg_db s1) = t_analyses (pg_db s)" "t_reports (pg_db s1) = t_reports (pg_db s)"
    using pg_insert_outbox_Inr [OF e] by (simp_all add: pgai_ob_def outbox_row_def)
  then show ?case using Cons.IH [OF rest] by simp
qed simp

lemma pgai_Complete_cases:
  assumes run: "pgai_CompleteAnalysis J a q evs at s = (x, s')" and good: "pgai_ok s"
  obtains (err) e where "x = Inl e" "pg_db s' = pg_db s"
  | (ok) b p where "x = Inr ()" "pgai_ok s'" "pgai_ob s' = pgai_ob s @ evs"
      "pgai_an J s' = (pgai_an J s)((an_RecordingID a, an_PromptVersion a) \<mapsto> b)" "an_Status b = AnalysisCompleted"
      "same_contents (jsonb_text J) b a"
      "pgai_rp J s' = (pgai_rp J s)(ar_RecordingID q \<mapsto> p)" "ar_Status p = ReportReady" "ar_Title p = ar_Title q"
      "ar_Summary p = ar_Summary q" "ar_Steps p = jsonb_text J (ar_Steps q)"
  using run unfolding pgai_CompleteAnalysis_def
proof (cases rule: transaction_cases)
  case (err e)
  then show ?thesis by (rule that(1))
next
  case (ok u s0 s1)
  let ?f = "\<lambda>b. b\<lparr>an_Status := AnalysisCompleted, an_Title := an_Title a, an_Summary := an_Summary a, an_Steps := an_Steps a,
               an_Provider := an_Provider a, an_Model := an_Model a, an_ErrorMessage := [], an_UpdatedAt := pg_time at\<rparr>"
  let ?g = "\<lambda>b. b\<lparr>rp_Status := ''READY'', rp_Title := ar_Title q, rp_Summary := ar_Summary q, rp_Steps := ar_Steps q,
               rp_AIStatus := ar_AIStatus q, rp_PromptVersion := ar_PromptVersion q, rp_UpdatedAt := pg_time at\<rparr>"
  from ok(3) obtain b p s2 s3 where c1: "stmt (\<lambda>n t. pg_complete_analysis J a at) s0 = (Inr b, s2)"
      and c2: "stmt (\<lambda>n t. pg_complete_report J q at) s2 = (Inr p, s3)"
      and evs: "foreach (\<lambda>_ e. stmt (pg_insert_outbox J (oe_Topic e) (oe_PartitionKey e) (oe_Payload e) (oe_CorrelationID e))) () evs s3 = (Inr u, s1)"
    by (auto elim!: andthen_InrE)
  have "pg_upsert_analysis (completed_analysis_row a at) ?f (pg_db s) = Inr (b, pg_db s2)"
    using stmt_Inr [OF c1] ok(2) by (simp add: pg_complete_analysis_def split: if_splits)
  note A = pg_upsert_analysis_Inr [where f = ?f, OF this]
  have "pg_upsert_report (ready_report_row q at) ?g (pg_db s2) = Inr (p, pg_db s3)"
    using stmt_Inr [OF c2] by (simp add: pg_complete_report_def split: if_splits)
  note R = pg_upsert_report_Inr [where f = ?g, OF this]
  have f: "an_key (?f b) = an_key b" for b by (simp add: an_key_def)
  have keys: "an_key (completed_analysis_row a at) = (an_RecordingID a, an_PromptVersion a)"
      "rp_RecordingID (ready_report_row q at) = ar_RecordingID q"
    by (simp_all add: an_key_def completed_analysis_row_def ready_report_row_def)
  note E = pg_insert_events [OF evs]
  have b: "an_Status b = AnalysisCompleted \<and> an_Title b = an_Title a \<and> an_Summary b = an_Summary a \<and> an_Steps b = an_Steps a"
    using upserted_row_cases [of an_key "completed_analysis_row a at" ?f "t_analyses (pg_db s)"] conjunct1 [OF A [OF f]]
    by (elim disjE exE conjE) (simp_all add: completed_analysis_row_def)
  have p: "rp_Status p = ''READY'' \<and> rp_Title p = ar_Title q \<and> rp_Summary p = ar_Summary q \<and> rp_Steps p = ar_Steps q"
    using upserted_row_cases [of rp_RecordingID "ready_report_row q at" ?g "t_reports (pg_db s2)"] R
    by (elim disjE exE conjE) (simp_all add: ready_report_row_def)
  have "lookup an_key (t_analyses (pg_db s')) = (lookup an_key (t_analyses (pg_db s)))((an_RecordingID a, an_PromptVersion a) \<mapsto> b)"
    using A [OF f] R E ok(4) keys by simp
  from map_upd_lookup [OF this, of "scan_analysis J"]
  have an: "pgai_an J s' = (pgai_an J s)((an_RecordingID a, an_PromptVersion a) \<mapsto> scan_analysis J b)" by (simp add: pgai_an_def [abs_def])
  have "lookup rp_RecordingID (t_reports (pg_db s')) = (lookup rp_RecordingID (t_reports (pg_db s)))(ar_RecordingID q \<mapsto> p)"
    using A [OF f] R E ok(4) keys by simp
  from map_upd_lookup [OF this, of "scan_ai_report J"]
  have rp: "pgai_rp J s' = (pgai_rp J s)(ar_RecordingID q \<mapsto> scan_ai_report J p)" by (simp add: pgai_rp_def [abs_def])
  have "pgai_ok s'" using A [OF f] R E ok(4) good by (simp add: pgai_ok_def)
  moreover have "pgai_ob s' = pgai_ob s @ evs" using A [OF f] R E ok(4) by (simp add: pgai_ob_def)
  moreover have "same_contents (jsonb_text J) (scan_analysis J b) a" using b by (simp add: same_contents_def scan_analysis_def)
  ultimately show ?thesis using that(2) [of "scan_analysis J b" "scan_ai_report J p"] ok(1) an rp b p
    by (simp add: scan_analysis_def scan_ai_report_def scan_report_status_def)
qed

lemma pg_fail_report_Inr:
  assumes "pg_fail_report r v at n t db = Inr (u, db')"
  shows "t_analyses db' = t_analyses db \<and> t_outbox db' = t_outbox db
     \<and> (distinct (map rp_RecordingID (t_reports db)) \<longrightarrow> distinct (map rp_RecordingID (t_reports db')))
     \<and> (\<forall>q. q \<noteq> r \<longrightarrow> lookup rp_RecordingID (t_reports db') q = lookup rp_RecordingID (t_reports db) q)"
proof (cases "lookup rec_ID (t_recordings db) r")
  case None
  then show ?thesis using assms by (simp add: pg_fail_report_def)
next
  case (Some rec)
  let ?f = "\<lambda>q. q\<lparr>rp_Status := ''FAILED'', rp_AIStatus := ''failed'', rp_UpdatedAt := pg_time at\<rparr>"
  have "rec_ID rec = r" using Some by (auto dest: lookup_SomeD)
  then have key: "rp_RecordingID (failed_report (tk_uuid t) rec v at) = r" by (simp add: failed_report_def)
  from assms Some obtain q where "pg_upsert_report (failed_report (tk_uuid t) rec v at) ?f db = Inr (q, db')"
    by (cases "pg_upsert_report (failed_report (tk_uuid t) rec v at) ?f db") (auto simp: pg_fail_report_def)
  from pg_upsert_report_Inr [where f = ?f, OF this] key show ?thesis by simp
qed

lemma pgai_fail:
  assumes "pgai_FailAnalysis r v m at s = (x, s')" and good: "pgai_ok s"
  shows "pgai_ok s' \<and> pgai_ob s' = pgai_ob s \<and> (\<forall>k. k \<noteq> (r, v) \<longrightarrow> pgai_an J s' k = pgai_an J s k)
     \<and> (\<forall>q. q \<noteq> r \<longrightarrow> pgai_rp J s' q = pgai_rp J s q)
     \<and> (pgai_an J s' (r, v) = pgai_an J s (r, v) \<or> (\<exists>a. pgai_an J s' (r, v) = Some a \<and> an_Status a = AnalysisFailed))"
  using assms(1) unfolding pgai_FailAnalysis_def
proof (cases rule: andthen_cases)
  case (err e)
  then have "pg_db s' = pg_db s" using stmt_Inl by blast
  then show ?thesis using pgai_same [of s' s J] good by simp
next
  case (ok u s1)
  let ?f = "\<lambda>a. a\<lparr>an_Status := AnalysisFailed, an_ErrorMessage := take 1000 m, an_UpdatedAt := pg_time at\<rparr>"
  have f: "an_key (?f a) = an_key a" for a by (simp add: an_key_def)
  have db1: "pg_db s1 = (pg_db s)\<lparr>t_analyses := update_where (\<lambda>a. an_key a = (r, v)) ?f (t_analyses (pg_db s))\<rparr>"
    using stmt_Inr [OF ok(1)] by simp
  then have "t_analyses (pg_db s1) = update_where (\<lambda>a. an_key a = (r, v) \<and> True) ?f (t_analyses (pg_db s))" by simp
  from pgai_an_update [where f = ?f and q = "\<lambda>_. True" and J = J, OF this f]
  have an: "(\<forall>k. k \<noteq> (r, v) \<longrightarrow> pgai_an J s1 k = pgai_an J s k)
      \<and> (pgai_an J s1 (r, v) = pgai_an J s (r, v) \<or> (\<exists>a. pgai_an J s1 (r, v) = Some a \<and> an_Status a = AnalysisFailed))"
    by (elim disjE exE conjE) (simp_all add: scan_analysis_def)
  have s1: "pgai_ok s1" "pgai_rp J s1 = pgai_rp J s" "pgai_ob s1 = pgai_ob s"
    using good db1 f by (simp_all add: pgai_ok_def pgai_rp_def [abs_def] pgai_ob_def)
  show ?thesis
  proof (cases x)
    case (Inl e)
    then have "pg_db s' = pg_db s1" using stmt_Inl ok(2) by blast
    then show ?thesis using pgai_same [of s' s1 J] an s1 by simp
  next
    case (Inr w)
    note R = pg_fail_report_Inr [OF stmt_Inr [OF ok(2) [unfolded Inr]]]
    then have "pgai_ok s'" "pgai_an J s' = pgai_an J s1" "pgai_ob s' = pgai_ob s1" "\<forall>q. q \<noteq> r \<longrightarrow> pgai_rp J s' q = pgai_rp J s1 q"
      using s1(1) by (simp_all add: pgai_ok_def pgai_an_def [abs_def] pgai_ob_def pgai_rp_def)
    then show ?thesis using an s1 by simp
  qed
qed

lemma pgai_contract:
  assumes that: "jsonb_stable J"
  shows "analysis_contract (pgai_store J L C) pgai_ok (pgai_an J) (pgai_rp J) pgai_ob (jsonb_text J)"
proof (unfold_locales, unfold pgai_store_def analysis_store.simps, goal_cases)
  case (1 r p v at before)
  show ?case by (rule preservesI) (metis pgai_TryClaim_cases pgai_same prod.collapse)
next
  case (2 r v at)
  show ?case by (rule preservesI) (metis pgai_touch prod.collapse)
next
  case (3 r p c at)
  show ?case by (rule preservesI) (metis pgai_Mark_cases pgai_same prod.collapse)
next
  case (4 a rep evs at)
  show ?case by (rule preservesI) (metis pgai_Complete_cases pgai_same prod.collapse)
next
  case (5 r v m at)
  show ?case by (rule preservesI) (metis pgai_fail prod.collapse)
next
  case (6 r v)
  show ?case by (rule pgai_reads [OF pgai_db(1)])
next
  case (7 r)
  show ?case by (rule pgai_reads [OF pgai_db(2)])
next
  case (8 r)
  show ?case by (rule pgai_reads [OF pgai_db(3)])
next
  case (9 s r p v at before e s')
  then show ?case by (metis pgai_TryClaim_cases pgai_same sum.distinct(1))
next
  case (10 s r p c at e s')
  then show ?case by (metis pgai_Mark_cases pgai_same sum.distinct(1))
next
  case (11 s a rep evs at e s')
  then show ?case by (metis pgai_Complete_cases pgai_same sum.distinct(1))
next
  case (12 s r v a s')
  then show ?case unfolding pgai_GetAnalysis_def pgai_an_def by (auto dest!: query_row_Inr)
next
  case (13 s r v s')
  then show ?case unfolding pgai_GetAnalysis_def pgai_an_def by (auto dest!: query_row_Inl)
next
  case (14 s r v a)
  then obtain b where "lookup an_key (t_analyses (pg_db s)) (r, v) = Some b" "a = scan_analysis J b" by (auto simp: pgai_an_def)
  then show ?case by (auto simp: scan_analysis_def an_key_def dest!: lookup_SomeD)
next
  case (15 s r rep s')
  then obtain q where q: "lookup rp_RecordingID (t_reports (pg_db s)) r = Some q" "rep = scan_ai_report J q"
    unfolding pgai_GetReportByRecording_def by (auto dest!: query_row_Inr)
  then have "rp_RecordingID q = r" by (auto dest: lookup_SomeD)
  then show ?case using q by (simp add: pgai_rp_def scan_ai_report_def)
next
  case (16 s r p v at before a s')
  show ?case using 16(2,1) by (cases rule: pgai_TryClaim_cases [where J = J]) auto
next
  case (17 s r v at x s')
  then show ?case using pgai_touch by blast
next
  case (18 s r p c at rep s')
  show ?case using 18(2,1) by (cases rule: pgai_Mark_cases) auto
next
  case (19 s a rep evs at s')
  show ?case using 19(2,1) by (cases rule: pgai_Complete_cases) auto
next
  case (20 s r v m at x s')
  then show ?case using pgai_fail [OF 20(2,1), of J] by blast
next
  case (21 b)
  then show ?case using jsonb_text_again that by blast
qed

end
