(* ===== verification/Postgres_Media.thy ===== *)
theory Postgres_Media
  imports Postgres_Uploads
begin

text \<open>
  \<open>internal/media/adapter/postgres\<close>: the leases, artifacts and events of the extraction worker in the database, and the
  interpretation of \<open>claim_store\<close>.
\<close>

section \<open>Claims\<close>

definition pgme_Get :: "jsonb \<Rightarrow> uuid \<Rightarrow> (pg, recording) op" where
  "pgme_Get J i = query_row (ErrNotFound Media) (\<lambda>db. map_option (scan_recording J) (lookup rec_ID (t_recordings db) i))"

text \<open>\<open>NULL\<close> in the comparison of the deadlines is no match.\<close>

definition pg_claim_open :: "uuid \<Rightarrow> string \<Rightarrow> go_time \<Rightarrow> db_recording \<Rightarrow> bool" where
  "pg_claim_open i owner at r \<longleftrightarrow>
     rec_ID r = i \<and> rec_Status r \<in> {UPLOADED, FAILED, PROCESSING}
     \<and> (rec_Status r \<noteq> PROCESSING \<or> dbr_owner r = None \<or> dbr_owner r = Some owner
        \<or> (case dbr_expires r of None \<Rightarrow> False | Some e \<Rightarrow> e \<le> pg_time at))"

definition pg_set_recordings :: "(db_recording \<Rightarrow> bool) \<Rightarrow> (db_recording \<Rightarrow> db_recording) \<Rightarrow> database \<Rightarrow> database" where
  "pg_set_recordings p f db = db\<lparr>t_recordings := update_where p f (t_recordings db)\<rparr>"

definition pgme_claimRejection :: "uuid \<Rightarrow> go_time \<Rightarrow> (pg, unit) op" where
  "pgme_claimRejection i at =
     andthen (query_row (ErrNotFound Media) (\<lambda>db. lookup rec_ID (t_recordings db) i)) (\<lambda>r.
     if rec_Status r = PROCESSING \<and> (case dbr_expires r of None \<Rightarrow> False | Some e \<Rightarrow> e > at) then fail ErrClaimHeld
     else fail ErrConflict)"

definition pgme_ClaimProcessing :: "uuid \<Rightarrow> string \<Rightarrow> go_time \<Rightarrow> go_time \<Rightarrow> (pg, unit) op" where
  "pgme_ClaimProcessing i owner at expiresAt =
     andthen (changes t_recordings (pg_claim_open i owner at)
        (pg_set_recordings (pg_claim_open i owner at)
           (\<lambda>r. r\<lparr>rec_Status := PROCESSING, rec_UpdatedAt := pg_time at, dbr_owner := Some owner, dbr_expires := Some (pg_time expiresAt)\<rparr>)))
       (\<lambda>n. if n = 0 then pgme_claimRejection i at else ret ())"

definition pgme_RenewClaim :: "uuid \<Rightarrow> string \<Rightarrow> go_time \<Rightarrow> (pg, unit) op" where
  "pgme_RenewClaim i owner expiresAt =
     (let p = (\<lambda>r. rec_ID r = i \<and> rec_Status r = PROCESSING \<and> dbr_owner r = Some owner)
      in changed_row ErrClaimLost (changes t_recordings p (pg_set_recordings p (\<lambda>r. r\<lparr>dbr_expires := Some (pg_time expiresAt)\<rparr>))))"

text \<open>\<open>SET status = st, processing_owner = NULL, processing_expires_at = NULL WHERE id = i AND processing_owner = owner\<close>.\<close>

definition pg_release :: "rec_status \<Rightarrow> uuid \<Rightarrow> string \<Rightarrow> go_time \<Rightarrow> (pg, unit) op" where
  "pg_release st i owner at =
     (let p = (\<lambda>r. rec_ID r = i \<and> dbr_owner r = Some owner)
      in changed_row ErrClaimLost (changes t_recordings p
           (pg_set_recordings p (\<lambda>r. r\<lparr>rec_Status := st, rec_UpdatedAt := pg_time at, dbr_owner := None, dbr_expires := None\<rparr>))))"

definition pgme_MarkFailed :: "uuid \<Rightarrow> string \<Rightarrow> go_time \<Rightarrow> (pg, unit) op" where
  "pgme_MarkFailed i owner at = pg_release FAILED i owner at"

section \<open>Artifacts\<close>

definition art_key :: "artifact \<Rightarrow> uuid \<times> artifact_kind \<times> int" where
  "art_key a = (art_RecordingID a, art_Kind a, art_Ordinal a)"

text \<open>\<open>INSERT .. ON CONFLICT (recording_id, kind, ordinal) DO UPDATE\<close>; the column \<open>ordinal\<close> has 32 bits.\<close>

definition int4_range :: "int \<Rightarrow> bool" where
  "int4_range n \<longleftrightarrow> - (2 ^ 31) \<le> n \<and> n < 2 ^ 31"

definition pg_upsert_artifact :: "artifact \<Rightarrow> database \<Rightarrow> err + unit \<times> database" where
  "pg_upsert_artifact a db =
     (if \<not> int4_range (art_Ordinal a) then Inl (ErrOther ''22003'')
      else if art_key a \<in> art_key ` set (t_artifacts db) then
        Inr ((), db\<lparr>t_artifacts := update_where (\<lambda>r. art_key r = art_key a)
          (\<lambda>r. r\<lparr>art_StorageKey := art_StorageKey a, art_ContentType := art_ContentType a, art_ByteSize := art_ByteSize a\<rparr>) (t_artifacts db)\<rparr>)
      else if art_ID a \<in> art_ID ` set (t_artifacts db) then Inl unique_violation
      else if art_RecordingID a \<notin> rec_ID ` set (t_recordings db) then Inl foreign_key_violation
      else Inr ((), db\<lparr>t_artifacts := t_artifacts db @ [a\<lparr>art_CreatedAt := pg_time (art_CreatedAt a)\<rparr>]\<rparr>))"

definition pgme_FinalizeReady ::
    "jsonb \<Rightarrow> uuid \<Rightarrow> string \<Rightarrow> go_time \<Rightarrow> artifact list \<Rightarrow> string \<Rightarrow> string \<Rightarrow> bytes \<Rightarrow> string \<Rightarrow> (pg, unit) op" where
  "pgme_FinalizeReady J i owner at arts topic key payload corr =
     transaction
       (andthen (pg_release READY i owner at) (\<lambda>_.
        andthen (foreach (\<lambda>_ a. stmt (\<lambda>n t. pg_upsert_artifact a)) () arts) (\<lambda>_.
        stmt (pg_insert_outbox J topic key payload corr))))"

definition pgme_ListArtifacts :: "uuid \<Rightarrow> (pg, artifact list) op" where
  "pgme_ListArtifacts i = query (pg_artifacts_of i)"

definition pgme_store :: "jsonb \<Rightarrow> pg media_store" where
  "pgme_store J =
     \<lparr>st_Get = pgme_Get J, st_ClaimProcessing = pgme_ClaimProcessing, st_RenewClaim = pgme_RenewClaim, st_MarkFailed = pgme_MarkFailed,
      st_FinalizeReady = pgme_FinalizeReady J, st_InsertOutbox = pgup_InsertOutbox J, st_ListArtifacts = pgme_ListArtifacts\<rparr>"

section \<open>The contract\<close>

text \<open>Rows with an owner are being processed and have a deadline.\<close>

definition claim_ok_row :: "db_recording \<Rightarrow> bool" where
  "claim_ok_row r \<longleftrightarrow> (dbr_owner r = None \<longleftrightarrow> dbr_expires r = None) \<and> (dbr_owner r \<noteq> None \<longrightarrow> rec_Status r = PROCESSING)"

definition claims_ok :: "db_recording list \<Rightarrow> bool" where
  "claims_ok rows \<longleftrightarrow> distinct (map rec_ID rows) \<and> (\<forall>r\<in>set rows. claim_ok_row r)"

definition lease_of :: "db_recording \<Rightarrow> lease option" where
  "lease_of r = (case (dbr_owner r, dbr_expires r) of (Some w, Some e) \<Rightarrow> Some (w, e) | _ \<Rightarrow> None)"

definition lease_row :: "db_recording \<Rightarrow> rec_status \<times> lease option" where
  "lease_row r = (rec_Status r, lease_of r)"

definition pgme_ok :: "pg \<Rightarrow> bool" where "pgme_ok s \<longleftrightarrow> claims_ok (t_recordings (pg_db s))"

definition pgme_row :: "pg \<Rightarrow> uuid \<Rightarrow> (rec_status \<times> lease option) option" where
  "pgme_row s i = map_option lease_row (lookup rec_ID (t_recordings (pg_db s)) i)"

definition pgme_arts :: "pg \<Rightarrow> uuid \<Rightarrow> artifact list" where "pgme_arts s i = pg_artifacts_of i (pg_db s)"

definition pgme_ob :: "pg \<Rightarrow> event_row list" where
  "pgme_ob s = map (\<lambda>b. (ob_topic b, ob_partition_key b, ob_payload b, ob_correlation_id b)) (t_outbox (pg_db s))"

lemma pgme_same: "pg_db s' = pg_db s \<Longrightarrow> pgme_ok s' = pgme_ok s \<and> pgme_row s' = pgme_row s \<and> pgme_arts s' = pgme_arts s \<and> pgme_ob s' = pgme_ob s"
  by (simp add: pgme_ok_def pgme_row_def [abs_def] pgme_arts_def [abs_def] pgme_ob_def)

lemma pgme_reads:
  assumes "keeps pg_db m"
  shows "keeps (\<lambda>s. (pgme_ok s, pgme_row s, pgme_arts s, pgme_ob s)) m"
proof (rule keepsI)
  fix s
  have "pg_db (snd (m s)) = pg_db s" using assms by (simp add: keeps_def)
  note same = pgme_same [OF this]
  show "(pgme_ok (snd (m s)), pgme_row (snd (m s)), pgme_arts (snd (m s)), pgme_ob (snd (m s))) = (pgme_ok s, pgme_row s, pgme_arts s, pgme_ob s)"
    using same by (simp only:)
qed

text \<open>One update of the rows of a recording, as the contract sees it.\<close>

lemma pg_set_one:
  assumes "claims_ok (t_recordings db)" "r \<in> set (t_recordings db)" "p r" "\<And>q. p q \<Longrightarrow> rec_ID q = rec_ID r"
    and f: "\<And>q. rec_ID (f q) = rec_ID q"
    and good: "claim_ok_row (f r)"
  shows "claims_ok (t_recordings (pg_set_recordings p f db))
     \<and> lookup rec_ID (t_recordings (pg_set_recordings p f db)) = (lookup rec_ID (t_recordings db))(rec_ID r \<mapsto> f r)"
proof -
  have d: "distinct (map rec_ID (t_recordings db))" using assms(1) by (simp add: claims_ok_def)
  have here: "lookup rec_ID (t_recordings db) (rec_ID r) = Some r" using d assms(2) by (simp add: lookup_eq)
  have only: "q = r" if "q \<in> set (t_recordings db)" "p q" for q using key_unique [OF d that(1) assms(2) assms(4) [OF that(2)]] .
  have "lookup rec_ID (update_where p f (t_recordings db)) j = ((lookup rec_ID (t_recordings db))(rec_ID r \<mapsto> f r)) j" for j
  proof (cases "lookup rec_ID (t_recordings db) j")
    case None
    then show ?thesis using here by (cases "j = rec_ID r") (simp_all add: lookup_update_where f)
  next
    case (Some q)
    then have q: "q \<in> set (t_recordings db)" "rec_ID q = j" by (auto dest: lookup_SomeD)
    show ?thesis
    proof (cases "j = rec_ID r")
      case True
      then have "q = r" using Some here by simp
      then show ?thesis using True Some assms(3) by (simp add: lookup_update_where f)
    next
      case False
      then have "\<not> p q" using q assms(4) by blast
      then show ?thesis using False Some by (simp add: lookup_update_where f)
    qed
  qed
  then have "lookup rec_ID (update_where p f (t_recordings db)) = (lookup rec_ID (t_recordings db))(rec_ID r \<mapsto> f r)" by (rule ext)
  moreover have "claim_ok_row x"
    if mem: "x \<in> set (update_where p f (t_recordings db))" for x
  proof -
    obtain q where q: "q \<in> set (t_recordings db)" "x = (if p q then f q else q)"
      using imageE [OF mem [unfolded update_where_def set_map]] by metis
    show ?thesis
    proof (cases "p q")
      case True
      have x: "x = f r" using q(2) True only [OF q(1) True] by simp
      show ?thesis unfolding x by (rule good)
    next
      case False
      then show ?thesis using assms(1) q by (simp add: claims_ok_def)
    qed
  qed
  moreover have "map rec_ID (update_where p f (t_recordings db)) = map rec_ID (t_recordings db)" by (rule update_where_keys) (rule f)
  ultimately show ?thesis using d by (simp add: pg_set_recordings_def claims_ok_def)
qed

lemma pg_set_others [simp]: "t_artifacts (pg_set_recordings p f db) = t_artifacts db" "t_outbox (pg_set_recordings p f db) = t_outbox db"
  by (simp_all add: pg_set_recordings_def)

lemma pgme_set_view:
  assumes "pg_db s' = pg_set_recordings p f (pg_db s)"
  shows "pgme_arts s' = pgme_arts s \<and> pgme_ob s' = pgme_ob s"
  using assms by (simp add: pgme_arts_def [abs_def] pgme_ob_def pg_artifacts_of_def)

text \<open>The recordings as the contract sees them, after one row was written.\<close>

lemma pgme_row_upd:
  assumes "lookup rec_ID (t_recordings (pg_db s')) = (lookup rec_ID (t_recordings (pg_db s)))(i \<mapsto> r)"
  shows "pgme_row s' = (pgme_row s)(i \<mapsto> lease_row r)"
  by (rule ext) (simp add: pgme_row_def assms)

lemma claimed_lease:
  assumes "claims_ok rows" "r \<in> set rows" "dbr_owner r = Some w"
  shows "\<exists>e. dbr_expires r = Some e \<and> lease_row r = (PROCESSING, Some (w, e))"
proof -
  have "dbr_expires r \<noteq> None" "rec_Status r = PROCESSING" using assms by (auto simp: claims_ok_def claim_ok_row_def)
  then show ?thesis using assms(3) by (auto simp: lease_row_def lease_of_def)
qed

lemma pgme_row_at:
  assumes "pgme_ok s" "r \<in> set (t_recordings (pg_db s))"
  shows "pgme_row s (rec_ID r) = Some (lease_row r)"
proof -
  have "distinct (map rec_ID (t_recordings (pg_db s)))" using assms(1) by (simp add: pgme_ok_def claims_ok_def)
  then have "lookup rec_ID (t_recordings (pg_db s)) (rec_ID r) = Some r" using assms(2) by (simp add: lookup_eq)
  then show ?thesis by (simp add: pgme_row_def)
qed

text \<open>A counted update that hit a row of recording \<open>i\<close>.\<close>

lemma pgme_changed:
  assumes ok: "pgme_ok s" and r: "r \<in> set (t_recordings (pg_db s))" "p r" and p: "\<And>q. p q \<Longrightarrow> rec_ID q = i"
    and f: "\<And>q. rec_ID (f q) = rec_ID q"
    and good: "claim_ok_row (f r)"
    and db: "pg_db s' = pg_set_recordings p f (pg_db s)"
  shows "pgme_ok s' \<and> pgme_row s' = (pgme_row s)(i \<mapsto> lease_row (f r)) \<and> pgme_arts s' = pgme_arts s \<and> pgme_ob s' = pgme_ob s"
proof -
  have i: "rec_ID r = i" by (rule p [OF r(2)])
  have pr: "p q \<Longrightarrow> rec_ID q = rec_ID r" for q using p i by simp
  have rows: "claims_ok (t_recordings (pg_db s))" using ok by (simp add: pgme_ok_def)
  note S = pg_set_one [where p = p and f = f and r = r and db = "pg_db s", OF rows r pr f good]
  have "pgme_ok s'" using S db by (simp add: pgme_ok_def)
  moreover have "pgme_row s' = (pgme_row s)(i \<mapsto> lease_row (f r))"
    by (rule pgme_row_upd) (use S db i in simp)
  ultimately show ?thesis using pgme_set_view [OF db] by simp
qed

lemma pgme_Claim_cases:
  assumes run: "pgme_ClaimProcessing i w at e s = (x, s')" and ok: "pgme_ok s"
  obtains (err) m where "x = Inl m" "pg_db s' = pg_db s"
      "m = ErrClaimHeld \<Longrightarrow> \<exists>w' e'. pgme_row s i = Some (PROCESSING, Some (w', e')) \<and> w' \<noteq> w \<and> at < e'"
  | (ok) r where "x = Inr ()" "r \<in> set (t_recordings (pg_db s))" "pg_claim_open i w at r" "pgme_ok s'"
      "pgme_row s' = (pgme_row s)(i \<mapsto> (PROCESSING, Some (w, pg_time e)))" "pgme_arts s' = pgme_arts s" "pgme_ob s' = pgme_ob s"
proof -
  let ?p = "pg_claim_open i w at"
  let ?f = "\<lambda>r. r\<lparr>rec_Status := PROCESSING, rec_UpdatedAt := pg_time at, dbr_owner := Some w, dbr_expires := Some (pg_time e)\<rparr>"
  show ?thesis using run unfolding pgme_ClaimProcessing_def
  proof (cases rule: andthen_cases)
    case (err m)
    have "m \<noteq> ErrClaimHeld" "pg_db s' = pg_db s" using stmt_Inl [OF err(1) [unfolded changes_def]] by auto
    then show ?thesis using that(1) err(2) by simp
  next
    case (ok n s1)
    note c = stmt_Inr [OF ok(1) [unfolded changes_def]]
    show ?thesis
    proof (cases "n = 0")
      case True
      then have db1: "pg_db s1 = pg_db s" and closed: "\<forall>r\<in>set (t_recordings (pg_db s)). \<not> ?p r"
        using c count_where_0 [of ?p "t_recordings (pg_db s)"] by auto
      have "pgme_claimRejection i at s1 = (x, s')" using ok(2) True by simp
      then show ?thesis unfolding pgme_claimRejection_def
      proof (cases rule: andthen_cases)
        case (err m)
        then have "m \<noteq> ErrClaimHeld" "pg_db s' = pg_db s1" by (auto dest!: query_row_Inl)
        then show ?thesis using that(1) err(2) db1 by simp
      next
        case (ok r s2)
        have r: "lookup rec_ID (t_recordings (pg_db s)) i = Some r" "pg_db s2 = pg_db s"
          using query_row_Inr [OF ok(1)] db1 by simp_all
        then have mem: "r \<in> set (t_recordings (pg_db s))" "rec_ID r = i" by (auto dest: lookup_SomeD)
        show ?thesis
        proof (cases "rec_Status r = PROCESSING \<and> (case dbr_expires r of None \<Rightarrow> False | Some e \<Rightarrow> e > at)")
          case True
          then obtain e' where e': "dbr_expires r = Some e'" "at < e'" by (cases "dbr_expires r") auto
          have rows: "claims_ok (t_recordings (pg_db s))" using assms(2) by (simp add: pgme_ok_def)
          have "dbr_owner r \<noteq> None" using rows mem(1) e'(1) unfolding claims_ok_def claim_ok_row_def by force
          then obtain w' where w': "dbr_owner r = Some w'" by blast
          have "w' \<noteq> w" using closed mem True w' by (auto simp: pg_claim_open_def)
          moreover have "pgme_row s i = Some (PROCESSING, Some (w', e'))"
            using pgme_row_at [OF assms(2) mem(1)] claimed_lease [OF rows mem(1) w'] e'(1) mem(2) by auto
          ultimately show ?thesis using that(1) [of ErrClaimHeld] ok(2) True e'(2) r(2) by simp
        next
          case False
          have "(x, s') = (Inl ErrConflict, s2)" using ok(2) unfolding if_not_P [OF False] by simp
          then show ?thesis using that(1) [of ErrConflict] r(2) by simp
        qed
      qed
    next
      case False
      then obtain r where r: "r \<in> set (t_recordings (pg_db s))" "?p r" using c count_where_0 [of ?p "t_recordings (pg_db s)"] by auto
      have db: "pg_db s' = pg_set_recordings ?p ?f (pg_db s)" using c ok(2) False by auto
      have "pgme_ok s' \<and> pgme_row s' = (pgme_row s)(i \<mapsto> lease_row (?f r)) \<and> pgme_arts s' = pgme_arts s \<and> pgme_ob s' = pgme_ob s"
        by (rule pgme_changed [OF assms(2) r _ _ _ db]) (simp_all add: pg_claim_open_def claim_ok_row_def)
      then show ?thesis using that(2) [OF _ r] ok(2) False by (simp add: lease_row_def lease_of_def)
    qed
  qed
qed

lemma pgme_Renew_cases:
  assumes run: "pgme_RenewClaim i w e s = (x, s')" and good: "pgme_ok s"
  obtains (err) m where "x = Inl m" "pg_db s' = pg_db s"
  | (ok) e' where "x = Inr ()" "pgme_ok s'" "pgme_row s i = Some (PROCESSING, Some (w, e'))"
      "pgme_row s' = (pgme_row s)(i \<mapsto> (PROCESSING, Some (w, pg_time e)))" "pgme_arts s' = pgme_arts s" "pgme_ob s' = pgme_ob s"
proof (cases x)
  case (Inl m)
  then show ?thesis using run that(1) unfolding pgme_RenewClaim_def Let_def by (blast dest: changed_row_Inl)
next
  case (Inr u)
  let ?p = "\<lambda>r. rec_ID r = i \<and> rec_Status r = PROCESSING \<and> dbr_owner r = Some w"
  let ?f = "\<lambda>r. r\<lparr>dbr_expires := Some (pg_time e)\<rparr>"
  from run Inr obtain r where r: "r \<in> set (t_recordings (pg_db s))" "?p r" and db: "pg_db s' = pg_set_recordings ?p ?f (pg_db s)"
    unfolding pgme_RenewClaim_def Let_def by (blast dest: changed_row_Inr)
  have rows: "claims_ok (t_recordings (pg_db s))" using good by (simp add: pgme_ok_def)
  obtain e' where e': "lease_row r = (PROCESSING, Some (w, e'))" using claimed_lease [OF rows r(1)] r(2) by blast
  have "pgme_ok s' \<and> pgme_row s' = (pgme_row s)(i \<mapsto> lease_row (?f r)) \<and> pgme_arts s' = pgme_arts s \<and> pgme_ob s' = pgme_ob s"
    by (rule pgme_changed [OF good r _ _ _ db]) (use r(2) in \<open>simp_all add: claim_ok_row_def\<close>)
  then show ?thesis using that(2) [of e'] pgme_row_at [OF good r(1)] e' r(2) Inr by (simp add: lease_row_def lease_of_def)
qed

lemma pg_release_cases:
  assumes run: "pg_release st i w at s = (x, s')" and good: "pgme_ok s"
  obtains (err) m where "x = Inl m" "pg_db s' = pg_db s"
  | (ok) e' where "x = Inr ()" "pgme_ok s'" "pgme_row s i = Some (PROCESSING, Some (w, e'))"
      "pgme_row s' = (pgme_row s)(i \<mapsto> (st, None))" "pgme_arts s' = pgme_arts s" "pgme_ob s' = pgme_ob s"
proof (cases x)
  case (Inl m)
  then show ?thesis using run that(1) unfolding pg_release_def Let_def by (blast dest: changed_row_Inl)
next
  case (Inr u)
  let ?p = "\<lambda>r. rec_ID r = i \<and> dbr_owner r = Some w"
  let ?f = "\<lambda>r. r\<lparr>rec_Status := st, rec_UpdatedAt := pg_time at, dbr_owner := None, dbr_expires := None\<rparr>"
  have "\<exists>r\<in>set (t_recordings (pg_db s)). ?p r \<and> pg_db s' = pg_set_recordings ?p ?f (pg_db s)"
    by (rule changed_row_Inr [OF run [unfolded pg_release_def Let_def Inr]])
  then obtain r where r: "r \<in> set (t_recordings (pg_db s))" "?p r" and db: "pg_db s' = pg_set_recordings ?p ?f (pg_db s)" by blast
  have rows: "claims_ok (t_recordings (pg_db s))" using good by (simp add: pgme_ok_def)
  obtain e' where e': "lease_row r = (PROCESSING, Some (w, e'))" using claimed_lease [OF rows r(1)] r(2) by blast
  have "pgme_ok s' \<and> pgme_row s' = (pgme_row s)(i \<mapsto> lease_row (?f r)) \<and> pgme_arts s' = pgme_arts s \<and> pgme_ob s' = pgme_ob s"
    by (rule pgme_changed [OF good r _ _ _ db]) (simp_all add: claim_ok_row_def)
  then show ?thesis using that(2) [of e'] pgme_row_at [OF good r(1)] e' r(2) Inr by (simp add: lease_row_def lease_of_def)
qed

section \<open>Upserts\<close>

definition artifact_stored :: "artifact \<Rightarrow> database \<Rightarrow> bool" where
  "artifact_stored a db \<longleftrightarrow> (\<exists>b\<in>set (t_artifacts db). art_key b = art_key a \<and> art_StorageKey b = art_StorageKey a)"

lemma pg_upsert_cases:
  assumes "pg_upsert_artifact a db = Inr (u, db')"
  obtains (update) "art_key a \<in> art_key ` set (t_artifacts db)"
      "db' = db\<lparr>t_artifacts := update_where (\<lambda>r. art_key r = art_key a)
          (\<lambda>r. r\<lparr>art_StorageKey := art_StorageKey a, art_ContentType := art_ContentType a, art_ByteSize := art_ByteSize a\<rparr>) (t_artifacts db)\<rparr>"
  | (insert) "db' = db\<lparr>t_artifacts := t_artifacts db @ [a\<lparr>art_CreatedAt := pg_time (art_CreatedAt a)\<rparr>]\<rparr>"
  using assms by (auto simp: pg_upsert_artifact_def split: if_splits)

lemma update_where_changed: "r \<in> set rows \<Longrightarrow> p r \<Longrightarrow> f r \<in> set (update_where p f rows)"
  by (induction rows) (auto simp: update_where_def)

lemma update_where_unchanged: "r \<in> set rows \<Longrightarrow> \<not> p r \<Longrightarrow> r \<in> set (update_where p f rows)"
  by (induction rows) (auto simp: update_where_def)

lemma filter_update_other:
  "(\<And>r. p r \<Longrightarrow> \<not> q r \<and> \<not> q (f r)) \<Longrightarrow> filter q (update_where p f rows) = filter q rows"
  by (induction rows) (auto simp: update_where_def)

lemma pg_upsert_step:
  assumes "pg_upsert_artifact a db = Inr (u, db')"
  shows "t_recordings db' = t_recordings db \<and> t_outbox db' = t_outbox db \<and> artifact_stored a db'
    \<and> (\<forall>c. art_key c \<noteq> art_key a \<and> artifact_stored c db \<longrightarrow> artifact_stored c db')
    \<and> (\<forall>j. j \<noteq> art_RecordingID a \<longrightarrow> pg_artifacts_of j db' = pg_artifacts_of j db)"
  using assms
proof (cases rule: pg_upsert_cases)
  case update
  let ?f = "\<lambda>r. r\<lparr>art_StorageKey := art_StorageKey a, art_ContentType := art_ContentType a, art_ByteSize := art_ByteSize a\<rparr>"
  have rows: "t_artifacts db' = update_where (\<lambda>r. art_key r = art_key a) ?f (t_artifacts db)" using update(2) by simp
  obtain r where r: "r \<in> set (t_artifacts db)" "art_key r = art_key a" using update(1) by auto
  have "?f r \<in> set (t_artifacts db')" unfolding rows by (rule update_where_changed [OF r(1)]) (rule r(2))
  moreover have "art_key (?f r) = art_key a \<and> art_StorageKey (?f r) = art_StorageKey a" using r(2) by (simp add: art_key_def)
  ultimately have here: "artifact_stored a db'" unfolding artifact_stored_def by blast
  have others: "artifact_stored c db'" if c: "art_key c \<noteq> art_key a" "artifact_stored c db" for c
  proof -
    obtain b where b: "b \<in> set (t_artifacts db)" "art_key b = art_key c" "art_StorageKey b = art_StorageKey c"
      using c(2) unfolding artifact_stored_def by blast
    have "b \<in> set (t_artifacts db')" unfolding rows by (rule update_where_unchanged [OF b(1)]) (use b(2) c(1) in simp)
    then show ?thesis using b unfolding artifact_stored_def by blast
  qed
  have "pg_artifacts_of j db' = pg_artifacts_of j db" if "j \<noteq> art_RecordingID a" for j
  proof -
    have "filter (\<lambda>r. art_RecordingID r = j) (t_artifacts db') = filter (\<lambda>r. art_RecordingID r = j) (t_artifacts db)"
      unfolding rows by (rule filter_update_other) (use that in \<open>auto simp: art_key_def\<close>)
    then show ?thesis by (simp add: pg_artifacts_of_def)
  qed
  then show ?thesis using update(2) here others by simp
next
  case insert
  then show ?thesis by (auto simp: artifact_stored_def art_key_def pg_artifacts_of_def)
qed

lemma pg_upserts:
  "foreach (\<lambda>_ a. stmt (\<lambda>n t. pg_upsert_artifact a)) v as s = (Inr u, s') \<Longrightarrow>
     t_recordings (pg_db s') = t_recordings (pg_db s) \<and> t_outbox (pg_db s') = t_outbox (pg_db s)
     \<and> (\<forall>j. (\<forall>a\<in>set as. art_RecordingID a \<noteq> j) \<longrightarrow> pg_artifacts_of j (pg_db s') = pg_artifacts_of j (pg_db s))
     \<and> (\<forall>c. artifact_stored c (pg_db s) \<and> art_key c \<notin> art_key ` set as \<longrightarrow> artifact_stored c (pg_db s'))
     \<and> (distinct (map art_key as) \<longrightarrow> (\<forall>a\<in>set as. artifact_stored a (pg_db s')))"
proof (induction as arbitrary: v s)
  case (Cons a as)
  from Cons.prems obtain w s1 where a: "stmt (\<lambda>n t. pg_upsert_artifact a) s = (Inr w, s1)"
      and rest: "foreach (\<lambda>_ a. stmt (\<lambda>n t. pg_upsert_artifact a)) w as s1 = (Inr u, s')"
    by (auto elim: andthen_InrE)
  note one = pg_upsert_step [OF stmt_Inr [OF a]]
  note IH = Cons.IH [OF rest]
  have "artifact_stored a (pg_db s')" if "distinct (map art_key (a # as))" using IH one that by simp
  moreover have "artifact_stored c (pg_db s')" if "artifact_stored c (pg_db s)" "art_key c \<notin> art_key ` set (a # as)" for c
    using IH one that by simp
  moreover have "pg_artifacts_of j (pg_db s') = pg_artifacts_of j (pg_db s)" if "\<forall>b\<in>set (a # as). art_RecordingID b \<noteq> j" for j
    using IH one that by auto
  ultimately show ?case using IH one by auto
qed simp

lemma pgme_Finalize_cases:
  assumes run: "pgme_FinalizeReady J i w at as t k pl c s = (x, s')" and good: "pgme_ok s"
  obtains (err) m where "x = Inl m" "pg_db s' = pg_db s"
  | (ok) e' where "x = Inr ()" "pgme_ok s'" "pgme_row s i = Some (PROCESSING, Some (w, e'))"
      "pgme_row s' = (pgme_row s)(i \<mapsto> (READY, None))" "pgme_ob s' = pgme_ob s @ [(t, k, pl, c)]"
      "Media.artifacts_of i as \<Longrightarrow> (\<forall>j. j \<noteq> i \<longrightarrow> pgme_arts s' j = pgme_arts s j)
         \<and> (\<forall>a\<in>set as. \<exists>b\<in>set (pgme_arts s' i). art_Kind b = art_Kind a \<and> art_StorageKey b = art_StorageKey a)"
  using run unfolding pgme_FinalizeReady_def
proof (cases rule: transaction_cases)
  case (err e)
  then show ?thesis by (rule that(1))
next
  case (ok a s0 s1)
  have good0: "pgme_ok s0" and same: "pgme_row s0 = pgme_row s" "pgme_arts s0 = pgme_arts s" "pgme_ob s0 = pgme_ob s"
    using pgme_same [OF ok(2)] good by simp_all
  from ok(3) obtain s2 s3 where rel: "pg_release READY i w at s0 = (Inr (), s2)"
      and ups: "foreach (\<lambda>_ a. stmt (\<lambda>n t. pg_upsert_artifact a)) () as s2 = (Inr (), s3)"
      and ins: "stmt (pg_insert_outbox J t k pl c) s3 = (Inr (), s1)"
    by (auto elim!: andthen_InrE)
  from rel good0 obtain e' where r: "pgme_ok s2" "pgme_row s i = Some (PROCESSING, Some (w, e'))"
      "pgme_row s2 = (pgme_row s)(i \<mapsto> (READY, None))" "pgme_arts s2 = pgme_arts s" "pgme_ob s2 = pgme_ob s"
    by (cases rule: pg_release_cases) (auto simp: same)
  note u = pg_upserts [OF ups] and o = pg_insert_outbox_Inr [OF ins]
  have recs: "t_recordings (pg_db s') = t_recordings (pg_db s2)" and arts: "t_artifacts (pg_db s') = t_artifacts (pg_db s3)"
    using u o ok(4) by simp_all
  have row: "pgme_row s' = pgme_row s2" by (rule ext) (simp add: pgme_row_def recs)
  have "pgme_ok s'" using r(1) by (simp add: pgme_ok_def recs)
  moreover have "pgme_ob s' = pgme_ob s @ [(t, k, pl, c)]" using u o ok(4) r(5) by (simp add: pgme_ob_def outbox_row_def)
  moreover have "(\<forall>j. j \<noteq> i \<longrightarrow> pgme_arts s' j = pgme_arts s j)
       \<and> (\<forall>a\<in>set as. \<exists>b\<in>set (pgme_arts s' i). art_Kind b = art_Kind a \<and> art_StorageKey b = art_StorageKey a)"
    if as: "Media.artifacts_of i as"
  proof (intro conjI allI impI ballI)
    fix j assume "j \<noteq> i"
    then have "pg_artifacts_of j (pg_db s3) = pg_artifacts_of j (pg_db s2)" using u as by (auto simp: Media.artifacts_of_def)
    then show "pgme_arts s' j = pgme_arts s j" using r(4) arts by (simp add: pgme_arts_def [abs_def] pg_artifacts_of_def fun_eq_iff)
  next
    fix a assume a: "a \<in> set as"
    have "distinct (map art_key as)" using as unfolding Media.artifacts_of_def art_key_def
      by (auto simp: distinct_map inj_on_def)
    then have "artifact_stored a (pg_db s3)" using u a by blast
    then obtain b where "b \<in> set (t_artifacts (pg_db s'))" "art_key b = art_key a" "art_StorageKey b = art_StorageKey a"
      unfolding artifact_stored_def arts by blast
    then show "\<exists>b\<in>set (pgme_arts s' i). art_Kind b = art_Kind a \<and> art_StorageKey b = art_StorageKey a"
      using as a by (auto simp: pgme_arts_def set_artifacts_of art_key_def Media.artifacts_of_def)
  qed
  ultimately show ?thesis using that(2) [OF _ _ r(2)] ok(1) r(3) row by simp
qed

lemma pgme_Insert_cases:
  assumes run: "pgup_InsertOutbox J t k pl c s = (x, s')"
  obtains (err) m where "x = Inl m" "pg_db s' = pg_db s"
  | (ok) "x = Inr ()" "pgme_ok s' = pgme_ok s" "pgme_row s' = pgme_row s" "pgme_arts s' = pgme_arts s" "pgme_ob s' = pgme_ob s @ [(t, k, pl, c)]"
proof (cases x)
  case (Inl m)
  then show ?thesis using run that(1) unfolding pgup_InsertOutbox_def by (blast dest: stmt_Inl)
next
  case (Inr u)
  note o = pg_insert_outbox_Inr [OF run [unfolded pgup_InsertOutbox_def Inr]]
  then have "pgme_row s' = pgme_row s" "pgme_arts s' = pgme_arts s"
    by (simp_all add: pgme_row_def [abs_def] pgme_arts_def [abs_def] pg_artifacts_of_def)
  then show ?thesis using that(2) o Inr by (simp add: pgme_ok_def pgme_ob_def outbox_row_def)
qed

section \<open>The claim store\<close>

lemma pgme_db: "keeps pg_db (pgme_Get J i)" "keeps pg_db (pgme_ListArtifacts i)"
  by (simp_all add: pgme_Get_def pgme_ListArtifacts_def query_row_keeps query_keeps_db)

lemma pgme_Get_status: "pgme_Get J i s = (Inr rec, s') \<Longrightarrow> \<exists>cl. pgme_row s i = Some (rec_Status rec, cl) \<and> rec_ID rec = i"
proof -
  assume "pgme_Get J i s = (Inr rec, s')"
  then obtain r where r: "lookup rec_ID (t_recordings (pg_db s)) i = Some r" "rec = scan_recording J r"
    unfolding pgme_Get_def by (auto dest!: query_row_Inr)
  then have "rec_ID r = i" by (auto dest: lookup_SomeD)
  then show ?thesis using r by (simp add: pgme_row_def lease_row_def scan_recording_def recording.truncate_def)
qed

lemma pgme_failed:
  assumes "pg_db s' = pg_db s"
  shows "pgme_row s' = pgme_row s \<and> pgme_arts s' = pgme_arts s \<and> pgme_ob s' = pgme_ob s"
  using pgme_same [OF assms] by simp

lemma pgme_claim_result:
  assumes "pgme_ok s" "pgme_ClaimProcessing i w at e s = (Inr (), s')"
  shows "\<exists>st cl e2. pgme_row s i = Some (st, cl) \<and> st \<in> {UPLOADED, FAILED, PROCESSING}
     \<and> (\<forall>w' e'. st = PROCESSING \<and> cl = Some (w', e') \<longrightarrow> w' = w \<or> e' \<le> at) \<and> e2 \<le> e
     \<and> pgme_row s' = (pgme_row s)(i \<mapsto> (PROCESSING, Some (w, e2))) \<and> pgme_arts s' = pgme_arts s \<and> pgme_ob s' = pgme_ob s"
  using assms(2,1)
proof (cases rule: pgme_Claim_cases)
  case (ok r)
  have i: "rec_ID r = i" and st: "rec_Status r \<in> {UPLOADED, FAILED, PROCESSING}" using ok(3) by (auto simp: pg_claim_open_def)
  have row: "pgme_row s i = Some (rec_Status r, lease_of r)" using pgme_row_at [OF assms(1) ok(2)] i by (simp add: lease_row_def)
  have "w' = w \<or> e' \<le> at" if "rec_Status r = PROCESSING" "lease_of r = Some (w', e')" for w' e'
    using ok(3) that pg_time_le [of at] by (auto simp: pg_claim_open_def lease_of_def split: option.splits)
  then show ?thesis using row st pg_time_le [of e] ok(5,6,7) by blast
qed simp

interpretation pgme: claim_store "pgme_store J" pgme_ok pgme_row pgme_arts pgme_ob for J
proof (unfold_locales, unfold pgme_store_def media_store.simps, goal_cases)
  case (1 i w at e)
  show ?case by (rule preservesI) (metis pgme_Claim_cases pgme_same prod.collapse)
next
  case (2 i w e)
  show ?case by (rule preservesI) (metis pgme_Renew_cases pgme_same prod.collapse)
next
  case (3 i w at)
  show ?case unfolding pgme_MarkFailed_def by (rule preservesI) (metis pg_release_cases pgme_same prod.collapse)
next
  case (4 i w at as t k pl c)
  show ?case by (rule preservesI) (metis pgme_Finalize_cases pgme_same prod.collapse)
next
  case (5 t k pl c)
  show ?case by (rule preservesI) (metis pgme_Insert_cases pgme_same prod.collapse)
next
  case (6 s i st l)
  then obtain r where "lookup rec_ID (t_recordings (pg_db s)) i = Some r" "rec_Status r = st" "lease_of r = Some l"
    by (auto simp: pgme_row_def lease_row_def)
  then show ?case using 6(1) by (auto simp: pgme_ok_def claims_ok_def claim_ok_row_def lease_of_def split: option.splits dest!: lookup_SomeD)
next
  case (7 i)
  show ?case by (rule pgme_reads [OF pgme_db(1)])
next
  case (8 i)
  show ?case by (rule pgme_reads [OF pgme_db(2)])
next
  case (9 s i w at e x s')
  then show ?case by (metis pgme_Claim_cases pgme_failed sum.distinct(1))
next
  case (10 s i w e x s')
  then show ?case by (metis pgme_Renew_cases pgme_failed sum.distinct(1))
next
  case (11 s i w at x s')
  then show ?case unfolding pgme_MarkFailed_def by (metis pg_release_cases pgme_failed sum.distinct(1))
next
  case (12 s i w at as t k pl c x s')
  then show ?case by (metis pgme_Finalize_cases pgme_failed sum.distinct(1))
next
  case (13 s t k pl c x s')
  then show ?case by (metis pgme_Insert_cases pgme_failed sum.distinct(1))
next
  case (14 s i rec s')
  then show ?case using pgme_Get_status by blast
next
  case (15 s i w at e s')
  then show ?case by (rule pgme_claim_result)
next
  case (16 s i w at e s')
  show ?case using 16(2,1) by (cases rule: pgme_Claim_cases) auto
next
  case (17 s i w e s')
  show ?case using 17(2,1) by (cases rule: pgme_Renew_cases) (use pg_time_le [of e] in blast)+
next
  case (18 s i w at s')
  show ?case using 18(2,1) unfolding pgme_MarkFailed_def by (cases rule: pg_release_cases) auto
next
  case (19 s i w at as t k pl c s')
  show ?case using 19(2,1) by (cases rule: pgme_Finalize_cases) blast+
next
  case (20 s t k pl c s')
  show ?case using 20(2) by (cases rule: pgme_Insert_cases) auto
qed

end
