(* ===== verification/Postgres_Jobs.thy ===== *)
theory Postgres_Jobs
  imports Postgres_AI Postgres_Media Postgres_Outbox AI_Memory
begin

text \<open>
  The extraction and the analysis worker on the database: several workers call the stores in any order, statements fail anywhere,
  and while a job waits the others go on.
\<close>

section \<open>Analyses\<close>

text \<open>What another analysis worker does with the database in one step.\<close>

fun pgai_step :: "jsonb \<Rightarrow> 'z golib_scheme \<Rightarrow> ai_codec \<Rightarrow> ai_step \<Rightarrow> pg \<Rightarrow> pg" where
  "pgai_step J L C (StepClaim r p at cut_off) s = snd (pgai_TryClaimRunning J r p PromptVersion at cut_off s)"
| "pgai_step J L C (StepTouch r at) s = snd (pgai_TouchRunning r PromptVersion at s)"
| "pgai_step J L C (StepMark r p c at) s = snd (pgai_MarkGenerating J L C r p c at s)"
| "pgai_step J L C (StepPublish r p raw at) s =
     (case checked_result raw of
        Inl e \<Rightarrow> s
      | Inr res \<Rightarrow>
          (case cd_steps C (res_Steps res) of
             Inl e \<Rightarrow> s
           | Inr st \<Rightarrow>
               let u = tk_uuid (pg_ticks s (pg_step s)); rep = ready_report u r p res st at
               in snd (pgai_CompleteAnalysis J (completed_analysis u r p res st at) rep
                    (build_outbox_events L C rep (uuid_string L r) (uuid_string L p) [] at) at s)))"
| "pgai_step J L C (StepFail r m at) s = snd (pgai_FailAnalysis r PromptVersion m at s)"

text \<open>\<open>others n\<close> is what they do while the job waits at tick \<open>n\<close>; clock and identifiers come from the ticks.\<close>

definition pgai_env :: "jsonb \<Rightarrow> 'z golib_scheme \<Rightarrow> ai_codec \<Rightarrow> (nat \<Rightarrow> ai_step list) \<Rightarrow> pg ai_env" where
  "pgai_env J L C others =
     \<lparr>ae_now = (\<lambda>s. (tk_now (pg_ticks s (pg_step s)), s\<lparr>pg_step := Suc (pg_step s)\<rparr>)),
      ae_uuid = (\<lambda>s. (tk_uuid (pg_ticks s (pg_step s)), s\<lparr>pg_step := Suc (pg_step s)\<rparr>)),
      ae_pause = (\<lambda>s. fold (pgai_step J L C) (others (pg_step s)) s)\<rparr>"

definition pgai_service ::
    "jsonb \<Rightarrow> 'z golib_scheme \<Rightarrow> ai_codec \<Rightarrow> (analysis_input \<Rightarrow> err + analysis_result) \<Rightarrow> (string \<Rightarrow> int \<Rightarrow> err + frame_input) option
       \<Rightarrow> int \<Rightarrow> duration \<Rightarrow> duration \<Rightarrow> pg ai_service" where
  "pgai_service J L C analyze read maxFrames lease renew =
     with_frame_reader (map_option (\<lambda>g key n. lift_sum (g key n)) read) 0
       (ai_service_new (pgai_store J L C) (\<lambda>inp. lift_sum (analyze inp)) maxFrames lease renew)"

lemma pgai_service_simps [simp]:
  "as_store (pgai_service J L C an rd m lease renew) = pgai_store J L C"
  "as_analyzer (pgai_service J L C an rd m lease renew) = (\<lambda>inp. lift_sum (an inp))"
  "as_frames (pgai_service J L C an rd m lease renew) = map_option (\<lambda>g key n. lift_sum (g key n)) rd"
  "as_cache (pgai_service J L C an rd m lease renew) = None"
  by (simp_all add: pgai_service_def with_frame_reader_def ai_service_new_def Let_def)

lemma pgai_tick: "pgai_ok (s\<lparr>pg_step := n\<rparr>) = pgai_ok s" "pgai_an J (s\<lparr>pg_step := n\<rparr>) = pgai_an J s"
  "pgai_rp J (s\<lparr>pg_step := n\<rparr>) = pgai_rp J s" "pgai_ob (s\<lparr>pg_step := n\<rparr>) = pgai_ob s"
  using pgai_same [of "s\<lparr>pg_step := n\<rparr>" s J] by simp_all

lemma pgai_job:
  assumes J: "jsonb_stable J"
  shows "ai_job (pgai_store J L C) pgai_ok (pgai_an J) (pgai_rp J) pgai_ob (jsonb_text J)
     (pgai_service J L C an rd m lease renew) (pgai_env J L C others)"
proof (intro ai_job.intro ai_job_axioms.intro pgai_contract [OF J])
  fix u
  show "keeps (\<lambda>s. (pgai_ok s, pgai_an J s, pgai_rp J s, pgai_ob s)) (ai_now (pgai_env J L C others))"
    "keeps (\<lambda>s. (pgai_ok s, pgai_an J s, pgai_rp J s, pgai_ob s)) (ai_uuid (pgai_env J L C others))"
    "keeps (\<lambda>s. (pgai_ok s, pgai_an J s, pgai_rp J s, pgai_ob s)) (ai_invalidateID (pgai_service J L C an rd m lease renew) u)"
    by (simp_all add: keeps_def pgai_env_def ai_now_def ai_uuid_def ai_invalidateID_def pgai_tick)
qed (auto simp: keeps_def)

lemma pgai_step_valid:
  assumes J: "jsonb_stable J" and ok: "pgai_ok s" and valid: "stored_as (jsonb_text J) C (pgai_an J s)"
  shows "pgai_ok (pgai_step J L C p s) \<and> stored_as (jsonb_text J) C (pgai_an J (pgai_step J L C p s))"
proof -
  note ops = analysis_contract.ok_steps [OF pgai_contract [where L = L and C = C, OF J]]
  note steps = analysis_contract.valid_steps [OF pgai_contract [where L = L and C = C, OF J] ok valid]
  note complete = analysis_contract.valid_complete [OF pgai_contract [where L = L and C = C, OF J] ok valid]
  show ?thesis
  proof (cases p)
    case (StepClaim r q at before)
    then show ?thesis using ops(1) [OF prod.collapse [symmetric] ok] steps(1) [OF prod.collapse [symmetric]] by (simp add: pgai_store_def)
  next
    case (StepTouch r at)
    then show ?thesis using ops(2) [OF prod.collapse [symmetric] ok] steps(2) [OF prod.collapse [symmetric]] by (simp add: pgai_store_def)
  next
    case (StepMark r q c at)
    then show ?thesis using ops(3) [OF prod.collapse [symmetric] ok] steps(3) [OF prod.collapse [symmetric]] by (simp add: pgai_store_def)
  next
    case (StepFail r m at)
    then show ?thesis using ops(5) [OF prod.collapse [symmetric] ok] steps(4) [OF prod.collapse [symmetric]] by (simp add: pgai_store_def)
  next
    case (StepPublish r q raw at)
    show ?thesis
    proof (cases "\<exists>res st. checked_result raw = Inr res \<and> cd_steps C (res_Steps res) = Inr st")
      case True
      then obtain res st where res: "checked_result raw = Inr res" "cd_steps C (res_Steps res) = Inr st" by blast
      have "result_as (jsonb_text J) C (completed_analysis u r q res st at)" for u
        using checked_result_valid [OF res(1)] res(2) by (auto simp: result_as_def completed_analysis_def)
      from complete [OF prod.collapse [symmetric] this] ops(4) [OF prod.collapse [symmetric] ok]
      show ?thesis using StepPublish res by (simp add: pgai_store_def Let_def)
    next
      case False
      then show ?thesis using StepPublish ok valid by (auto split: sum.splits)
    qed
  qed
qed

lemma pgai_pause_valid:
  assumes J: "jsonb_stable J" and ok: "pgai_ok s" and valid: "stored_as (jsonb_text J) C (pgai_an J s)"
  shows "pgai_ok (fold (pgai_step J L C) ps s) \<and> stored_as (jsonb_text J) C (pgai_an J (fold (pgai_step J L C) ps s))"
  using ok valid
proof (induction ps arbitrary: s)
  case (Cons p ps)
  then show ?case using pgai_step_valid [where L = L and p = p, OF J Cons.prems] by simp
qed simp

section \<open>Properties\<close>

text \<open>
  C14: only valid results are stored. Over the database, with statements that fail anywhere and other workers stepping in
  while each job waits, after any deliveries every completed analysis has a title, a summary and at least one step, none of them
  blank or padded, whatever the analyzer answered; its steps are what the column makes of their JSON.
\<close>

theorem stored_results_are_valid:
  assumes "jsonb_stable J" "pgai_ok s0" "t_analyses (pg_db s0) = []"
  shows "stored_as (jsonb_text J) C (pgai_an J (fold (\<lambda>evt s. snd (ai_HandleFramesExtracted L C
     (pgai_service J L C an rd m lease renew) (pgai_env J L C others) evt s)) evts s0))"
proof -
  let ?h = "\<lambda>evt s. ai_HandleFramesExtracted L C (pgai_service J L C an rd m lease renew) (pgai_env J L C others) evt s"
  let ?P = "\<lambda>s. pgai_ok s \<and> stored_as (jsonb_text J) C (pgai_an J s)"
  have pause: "pgai_ok s \<Longrightarrow> stored_as (jsonb_text J) C (pgai_an J s) \<Longrightarrow> ?P (ae_pause (pgai_env J L C others) s)" for s
    using pgai_pause_valid [OF assms(1)] by (simp add: pgai_env_def)
  have step: "?P (snd (?h evt s))" if s: "pgai_ok s" "stored_as (jsonb_text J) C (pgai_an J s)" for evt s
  proof (cases "uuid_parse L (fe_RecordingID evt)")
    case (Inl e)
    then show ?thesis using s by (simp add: handle_bad_id)
  next
    case (Inr r)
    obtain x s' where run: "?h evt s = (x, s')" by fastforce
    show ?thesis using ai_job.handled_valid [OF pgai_job [OF assms(1)] pause s Inr run] run by simp
  qed
  have "?P (fold (\<lambda>evt s. snd (?h evt s)) evts s)" if "?P s" for s
    using that by (induction evts arbitrary: s) (auto simp: step)
  moreover have "stored_as (jsonb_text J) C (pgai_an J s0)" using assms(3) by (simp add: stored_as_def pgai_an_def lookup_def)
  ultimately show ?thesis using assms(2) by blast
qed

definition calm_tick :: "nat \<Rightarrow> tick" where
  "calm_tick n = \<lparr>tk_fault = None, tk_now = 1000 * int n, tk_uuid = word_of_nat (100 + n), tk_locked = (\<lambda>_. False)\<rparr>"

definition analysis_db :: pg where
  "analysis_db = \<lparr>pg_db = empty_database\<lparr>
       t_projects := [\<lparr>prj_ID = 7, prj_Name = ''p'', prj_CreatedBy = 1, prj_CreatedAt = 0, prj_UpdatedAt = 0\<rparr>],
       t_recordings := [recording_row \<lparr>rec_ID = 9, rec_ProjectID = 7, rec_CreatedBy = 1, rec_Status = READY, rec_StorageKey = ''k'',
         rec_ContentType = ''video/webm'', rec_ByteSize = None, rec_Checksum = [], rec_Metadata = ''{}'', rec_CorrelationID = [],
         rec_CreatedAt = 0, rec_UpdatedAt = 0\<rparr>]\<rparr>, pg_step = 0, pg_ticks = calm_tick\<rparr>"

definition analyzed_db :: pg where
  "analyzed_db = fold (\<lambda>evt s. snd (ai_HandleFramesExtracted sample_lib sample_codec
     (pgai_service sample_jsonb sample_lib sample_codec (\<lambda>inp. Inr sample_answer) None 5 1000 100)
     (pgai_env sample_jsonb sample_lib sample_codec (\<lambda>n. if n = 12 then [StepTouch 9 12000] else [])) evt s)) [sample_frames] analysis_db"

lemma analyzed_db_rows: "map an_Status (t_analyses (pg_db analyzed_db)) = [AnalysisCompleted]"
  by code_simp

theorem stored_results_are_valid_witness:
  "map an_Status (t_analyses (pg_db analyzed_db)) = [AnalysisCompleted]
   \<and> stored_as (jsonb_text sample_jsonb) sample_codec (pgai_an sample_jsonb analyzed_db)"
proof -
  have "jsonb_stable sample_jsonb" by (simp add: jsonb_stable_def sample_jsonb_def)
  moreover have "pgai_ok analysis_db" "t_analyses (pg_db analysis_db) = []" by (simp_all add: pgai_ok_def analysis_db_def empty_database_def)
  ultimately have "stored_as (jsonb_text sample_jsonb) sample_codec (pgai_an sample_jsonb analyzed_db)"
    unfolding analyzed_db_def by (rule stored_results_are_valid)
  then show ?thesis using analyzed_db_rows by blast
qed

section \<open>Extraction\<close>

text \<open>
  C11: frames are announced once. Whatever calls whatever workers make of the claims in the database, in whatever order and
  with statements failing anywhere, at most one of them makes a recording ready and announces its frames, and no worker claims or
  finalizes it after that.
\<close>

theorem stored_frames_announced_once:
  assumes "pgme_ok s" "run_claim_calls (pgme_store J) cs s = (rs, s')"
  shows "length (filter (\<lambda>(c, ok). ok \<and> finalizes i c) rs) \<le> 1
     \<and> (\<forall>before c after. rs = before @ (c, True) # after \<and> finalizes i c \<longrightarrow>
          (\<forall>(d, ok)\<in>set after. finalizes i d \<or> claims i d \<longrightarrow> \<not> ok))"
  using pgme.finalized_once [OF assms] pgme.final_after [OF assms] by blast

definition uploaded_db :: pg where
  "uploaded_db = analysis_db\<lparr>pg_db := (pg_db analysis_db)\<lparr>t_recordings :=
     map (\<lambda>r. r\<lparr>rec_Status := UPLOADED\<rparr>) (t_recordings (pg_db analysis_db))\<rparr>\<rparr>"

theorem stored_frames_announced_once_witness:
  "\<exists>rs s'. run_claim_calls (pgme_store sample_jsonb) [CallClaim 9 ''w1'' 0 10000, CallClaim 9 ''w2'' 5000 15000,
       CallFinalize 9 ''w1'' 5000 [] ''t'' ''k'' ''{}'' [], CallClaim 9 ''w2'' 20000 30000] uploaded_db = (rs, s')
     \<and> map snd rs = [True, False, True, False] \<and> length (filter (\<lambda>(c, ok). ok \<and> finalizes 9 c) rs) \<le> 1"
proof -
  let ?run = "run_claim_calls (pgme_store sample_jsonb) [CallClaim 9 ''w1'' 0 10000, CallClaim 9 ''w2'' 5000 15000,
       CallFinalize 9 ''w1'' 5000 [] ''t'' ''k'' ''{}'' [], CallClaim 9 ''w2'' 20000 30000] uploaded_db"
  have "map snd (fst ?run) = [True, False, True, False]" by code_simp
  moreover obtain rs s' where run: "?run = (rs, s')" by fastforce
  moreover have "pgme_ok uploaded_db"
    by (simp add: pgme_ok_def uploaded_db_def analysis_db_def claims_ok_def claim_ok_row_def recording_row_def recording.defs db_recording.defs)
  ultimately show ?thesis using stored_frames_announced_once [OF _ run, of 9] by simp
qed

end
