(* ===== verification/Postgres_Sharing.thy ===== *)
theory Postgres_Sharing
  imports Postgres_Uploads Sharing_Memory
begin

text \<open>
  \<open>internal/sharing/adapter/postgres\<close>: share links in the database and the reader of public reports, and the interpretation of
  \<open>share_store\<close>.
\<close>

section \<open>Share links\<close>

definition share_row :: "share_link \<Rightarrow> share_link" where
  "share_row l =
     l\<lparr>sl_ExpiresAt := map_option pg_time (sl_ExpiresAt l), sl_RevokedAt := map_option pg_time (sl_RevokedAt l),
       sl_CreatedAt := pg_time (sl_CreatedAt l)\<rparr>"

definition pg_insert_share :: "share_link \<Rightarrow> database \<Rightarrow> err + share_link \<times> database" where
  "pg_insert_share l db =
     (if sl_ID l \<in> sl_ID ` set (t_shares db) \<or> sl_Token l \<in> sl_Token ` set (t_shares db) then Inl unique_violation
      else if sl_ReportID l \<notin> rp_ID ` set (t_reports db) \<or> sl_ProjectID l \<notin> prj_ID ` set (t_projects db)
          \<or> sl_CreatedBy l \<notin> usr_ID ` set (t_users db) then Inl foreign_key_violation
      else Inr (share_row l, db\<lparr>t_shares := t_shares db @ [share_row l]\<rparr>))"

definition pgsh_Create :: "jsonb \<Rightarrow> share_link \<Rightarrow> string \<Rightarrow> string \<Rightarrow> bytes \<Rightarrow> string \<Rightarrow> (pg, share_link) op" where
  "pgsh_Create J l topic key payload corr =
     transaction
       (andthen (stmt (\<lambda>n t. pg_insert_share l)) (\<lambda>out.
        andthen (stmt (pg_insert_outbox J topic key payload corr)) (\<lambda>_. ret out)))"

definition pgsh_ListByReport :: "'z golib_scheme \<Rightarrow> uuid \<Rightarrow> uuid \<Rightarrow> page \<Rightarrow> (pg, share_link page_result) op" where
  "pgsh_ListByReport L projectID reportID p =
     pg_page_desc L sl_key p (\<lambda>db. filter (\<lambda>l. sl_ProjectID l = projectID \<and> sl_ReportID l = reportID) (t_shares db))"

definition pgsh_GetByID :: "uuid \<Rightarrow> uuid \<Rightarrow> (pg, share_link) op" where
  "pgsh_GetByID projectID shareID =
     query_row (ErrNotFound Sharing) (\<lambda>db. find (\<lambda>l. sl_ID l = shareID \<and> sl_ProjectID l = projectID) (t_shares db))"

definition pgsh_Revoke :: "uuid \<Rightarrow> uuid \<Rightarrow> go_time \<Rightarrow> (pg, unit) op" where
  "pgsh_Revoke projectID shareID at =
     (let p = (\<lambda>l. sl_ID l = shareID \<and> sl_ProjectID l = projectID \<and> sl_RevokedAt l = None)
      in changed_row (ErrNotFound Sharing) (changes t_shares p
           (\<lambda>db. db\<lparr>t_shares := update_where p (\<lambda>l. l\<lparr>sl_RevokedAt := Some (pg_time at)\<rparr>) (t_shares db)\<rparr>)))"

definition pgsh_GetByToken :: "string \<Rightarrow> (pg, share_link) op" where
  "pgsh_GetByToken token = query_row (ErrNotFound Sharing) (\<lambda>db. lookup sl_Token (t_shares db) token)"

definition pgsh_repo :: "jsonb \<Rightarrow> 'z golib_scheme \<Rightarrow> pg share_repository" where
  "pgsh_repo J L =
     \<lparr>sr_Create = pgsh_Create J, sr_ListByReport = pgsh_ListByReport L, sr_GetByID = pgsh_GetByID,
      sr_Revoke = pgsh_Revoke, sr_GetByToken = pgsh_GetByToken\<rparr>"

section \<open>The public report\<close>

definition pgsh_GetPublicPayload :: "jsonb \<Rightarrow> uuid \<Rightarrow> uuid \<Rightarrow> (pg, public_report) op" where
  "pgsh_GetPublicPayload J projectID reportID =
     andthen (query_row (ErrNotFound Sharing)
        (\<lambda>db. find (\<lambda>r. rp_ID r = reportID \<and> rp_ProjectID r = projectID) (t_reports db))) (\<lambda>r.
     if rp_Status r \<noteq> ''READY'' then fail ErrReportNotReady
     else
     andthen (query (\<lambda>db. case lookup rp_ID (t_reports db) reportID of None \<Rightarrow> [] | Some q \<Rightarrow> pg_artifacts_of (rp_RecordingID q) db)) (\<lambda>rows.
     ret \<lparr>pub_ReportID = rp_ID r, pub_ProjectID = rp_ProjectID r, pub_Status = rp_Status r, pub_Title = rp_Title r,
          pub_Summary = rp_Summary r, pub_Steps = jsonb_text J (rp_Steps r),
          pub_Frames = map (\<lambda>a. \<lparr>pf_Ordinal = art_Ordinal a, pf_StorageKey = art_StorageKey a, pf_ContentType = art_ContentType a\<rparr>)
            (filter (\<lambda>a. art_Kind a \<noteq> KindThumb) rows),
          pub_ThumbKey = pg_thumb_key rows\<rparr>))"

section \<open>The contract\<close>

definition pgsh_rows_ok :: "database \<Rightarrow> bool" where
  "pgsh_rows_ok db \<longleftrightarrow> distinct (map sl_ID (t_shares db)) \<and> distinct (map sl_Token (t_shares db))"

definition pgsh_ok :: "pg \<Rightarrow> bool" where "pgsh_ok s \<longleftrightarrow> pgsh_rows_ok (pg_db s)"
definition pgsh_links :: "pg \<Rightarrow> links" where "pgsh_links s = lookup sl_ID (t_shares (pg_db s))"

lemma pgsh_same: "pg_db s' = pg_db s \<Longrightarrow> pgsh_ok s' = pgsh_ok s \<and> pgsh_links s' = pgsh_links s"
  by (simp add: pgsh_ok_def pgsh_links_def)

lemma pgsh_reads: "keeps pg_db m \<Longrightarrow> keeps (\<lambda>s. (pgsh_ok s, pgsh_links s)) m"
  by (simp add: keeps_def pgsh_ok_def pgsh_links_def)

lemma share_row_fields [simp]: "sl_ID (share_row l) = sl_ID l" "sl_Token (share_row l) = sl_Token l"
  by (simp_all add: share_row_def)

lemma share_row_unrevoked:
  "sl_RevokedAt l = None \<Longrightarrow>
     share_row l = l\<lparr>sl_ExpiresAt := map_option pg_time (sl_ExpiresAt l), sl_CreatedAt := pg_time (sl_CreatedAt l)\<rparr>"
  by (cases l) (simp add: share_row_def)

lemma pg_insert_share_Inr:
  assumes "pg_insert_share l db = Inr (v, db')" "pgsh_rows_ok db"
  shows "v = share_row l \<and> pgsh_rows_ok db' \<and> lookup sl_ID (t_shares db') = (lookup sl_ID (t_shares db))(sl_ID l \<mapsto> v)"
proof -
  have new: "sl_ID l \<notin> sl_ID ` set (t_shares db)" "sl_Token l \<notin> sl_Token ` set (t_shares db)"
    and r: "v = share_row l" "db' = db\<lparr>t_shares := t_shares db @ [share_row l]\<rparr>"
    using assms(1) by (auto simp: pg_insert_share_def split: if_splits)
  then show ?thesis using assms(2) lookup_insert [of sl_ID "share_row l" "t_shares db"] by (simp add: pgsh_rows_ok_def)
qed

lemma pgsh_Create_cases:
  assumes "pgsh_Create J l topic key payload corr s = (x, s')" "pgsh_ok s"
  shows "pgsh_ok s' \<and> (case x of Inl e \<Rightarrow> pgsh_links s' = pgsh_links s
     | Inr v \<Rightarrow> v = share_row l \<and> pgsh_links s' = (pgsh_links s)(sl_ID l \<mapsto> v))"
  using assms(1) unfolding pgsh_Create_def
proof (cases rule: transaction_cases)
  case (err e)
  then show ?thesis using pgsh_same [of s' s] assms(2) by simp
next
  case (ok a s0 s1)
  then obtain s2 u where ins: "stmt (\<lambda>n t. pg_insert_share l) s0 = (Inr a, s2)"
    and ev: "stmt (pg_insert_outbox J topic key payload corr) s2 = (Inr u, s1)"
    by (auto elim!: andthen_InrE)
  have rows: "pgsh_rows_ok (pg_db s0)" using assms(2) ok(2) by (simp add: pgsh_ok_def)
  from pg_insert_share_Inr [OF stmt_Inr [OF ins] rows] pg_insert_outbox_Inr [OF ev] ok
  show ?thesis by (simp add: pgsh_ok_def pgsh_links_def pgsh_rows_ok_def)
qed

lemma pgsh_Revoke_cases:
  assumes "pgsh_Revoke p i at s = (y, s')" "pgsh_ok s"
  shows "pgsh_ok s' \<and> (case y of Inl e \<Rightarrow> pgsh_links s' = pgsh_links s
     | Inr _ \<Rightarrow> \<exists>l. pgsh_links s i = Some l \<and> sl_ProjectID l = p
         \<and> pgsh_links s' = (pgsh_links s)(i \<mapsto> l\<lparr>sl_RevokedAt := Some (pg_time at)\<rparr>))"
proof (cases y)
  case (Inl e)
  then show ?thesis using assms pgsh_same [of s' s] by (auto simp: pgsh_Revoke_def Let_def dest!: changed_row_Inl)
next
  case (Inr u)
  let ?p = "\<lambda>l. sl_ID l = i \<and> sl_ProjectID l = p \<and> sl_RevokedAt l = None"
  let ?f = "\<lambda>l. l\<lparr>sl_RevokedAt := Some (pg_time at)\<rparr>"
  have d: "distinct (map sl_ID (t_shares (pg_db s)))" using assms(2) by (simp add: pgsh_ok_def pgsh_rows_ok_def)
  obtain l where l: "l \<in> set (t_shares (pg_db s))" "?p l"
    and s': "pg_db s' = (pg_db s)\<lparr>t_shares := update_where ?p ?f (t_shares (pg_db s))\<rparr>"
    using assms(1) Inr by (auto simp: pgsh_Revoke_def Let_def dest!: changed_row_Inr)
  have here: "lookup sl_ID (t_shares (pg_db s)) i = Some l" using l d by (simp add: lookup_eq)
  have "lookup sl_ID (update_where ?p ?f (t_shares (pg_db s))) = (lookup sl_ID (t_shares (pg_db s)))(i \<mapsto> ?f l)"
    using lookup_update_key [of sl_ID ?f i "\<lambda>l. sl_ProjectID l = p \<and> sl_RevokedAt l = None" "t_shares (pg_db s)"] here l(2) by simp
  then show ?thesis using Inr s' here l(2) assms(2) by (simp add: pgsh_ok_def pgsh_rows_ok_def pgsh_links_def)
qed

interpretation pgsh: share_store "pgsh_repo J L" pgsh_ok pgsh_links pg_time
proof (unfold_locales, goal_cases)
  case (1 s i l j k)
  have d: "distinct (map sl_Token (t_shares (pg_db s)))" using 1(1) by (simp add: pgsh_ok_def pgsh_rows_ok_def)
  have l: "l \<in> set (t_shares (pg_db s))" "sl_ID l = i" and k: "k \<in> set (t_shares (pg_db s))" "sl_ID k = j"
    using 1(2,3) by (auto simp: pgsh_links_def dest!: lookup_SomeD)
  have "l = k" by (rule key_unique [OF d l(1) k(1) 1(4)])
  then show ?case using l k by simp
next
  case (2 s l topic key payload corr x s')
  then show ?case using pgsh_Create_cases [of J l topic key payload corr s x s'] share_row_unrevoked
    by (cases x) (simp_all add: pgsh_repo_def)
next
  case (3 s p i at y s')
  then show ?case using pgsh_Revoke_cases by (simp add: pgsh_repo_def)
next
  case (4 p r pg)
  show ?case by (simp add: pgsh_repo_def pgsh_ListByReport_def pgsh_reads page_keeps_db)
next
  case (5 tok)
  show ?case by (simp add: pgsh_repo_def pgsh_GetByToken_def pgsh_reads query_row_keeps)
next
  case (6 s tok l s')
  have d: "distinct (map sl_ID (t_shares (pg_db s)))" using 6(1) by (simp add: pgsh_ok_def pgsh_rows_ok_def)
  have "lookup sl_Token (t_shares (pg_db s)) tok = Some l"
    using 6(2) by (auto simp: pgsh_repo_def pgsh_GetByToken_def dest!: query_row_Inr)
  then have "l \<in> set (t_shares (pg_db s)) \<and> sl_Token l = tok" by (rule lookup_SomeD)
  then show ?case using d by (simp add: pgsh_links_def lookup_eq)
qed

end
