(* ===== verification/Postgres_Collab.thy ===== *)
theory Postgres_Collab
  imports Postgres_Uploads Collab_Memory
begin

text \<open>
  \<open>internal/collab/adapter/postgres\<close>: comments in the database, the check that a report is in its project, and names of authors.
  The service on the database and the process-local hub interprets \<open>collab_client\<close>.
\<close>

section \<open>Comments\<close>

definition pg_insert_comment :: "comment \<Rightarrow> database \<Rightarrow> err + comment \<times> database" where
  "pg_insert_comment c db =
     (if rune_count (cm_Body c) = 0 \<or> rune_count (cm_Body c) > 4000 then Inl check_violation
      else if cm_ID c \<in> cm_ID ` set (t_comments db) then Inl unique_violation
      else if cm_ReportID c \<notin> rp_ID ` set (t_reports db) \<or> cm_ProjectID c \<notin> prj_ID ` set (t_projects db)
          \<or> cm_AuthorID c \<notin> usr_ID ` set (t_users db) then Inl foreign_key_violation
      else let r = c\<lparr>cm_CreatedAt := pg_time (cm_CreatedAt c)\<rparr> in Inr (r, db\<lparr>t_comments := t_comments db @ [r]\<rparr>))"

definition pgco_Create :: "jsonb \<Rightarrow> comment \<Rightarrow> string \<Rightarrow> string \<Rightarrow> bytes \<Rightarrow> string \<Rightarrow> (pg, comment) op" where
  "pgco_Create J c topic key payload corr =
     transaction
       (andthen (stmt (\<lambda>n t. pg_insert_comment c)) (\<lambda>out.
        andthen (stmt (pg_insert_outbox J topic key payload corr)) (\<lambda>_. ret out)))"

definition pgco_ListByReport :: "'z golib_scheme \<Rightarrow> uuid \<Rightarrow> uuid \<Rightarrow> page \<Rightarrow> (pg, comment page_result) op" where
  "pgco_ListByReport L projectID reportID p =
     pg_page_asc L cm_key p (\<lambda>db. filter (\<lambda>c. cm_ProjectID c = projectID \<and> cm_ReportID c = reportID) (t_comments db))"

definition pgco_repo :: "jsonb \<Rightarrow> 'z golib_scheme \<Rightarrow> pg comment_repository" where
  "pgco_repo J L = \<lparr>cr_Create = pgco_Create J, cr_ListByReport = pgco_ListByReport L\<rparr>"

definition pgco_EnsureInProject :: "uuid \<Rightarrow> uuid \<Rightarrow> (pg, unit) op" where
  "pgco_EnsureInProject projectID reportID =
     andthen (query (\<lambda>db. \<exists>r\<in>set (t_reports db). rp_ID r = reportID \<and> rp_ProjectID r = projectID))
       (\<lambda>found. if found then ret () else fail (ErrNotFound Collab))"

definition pgco_DisplayName :: "uuid \<Rightarrow> (pg, string) op" where
  "pgco_DisplayName u = query_row (ErrNotFound Collab) (\<lambda>db. map_option usr_Name (lookup usr_ID (t_users db) u))"

section \<open>The database and the hub together\<close>

type_synonym pg_hub = "pg \<times> hub_state"

definition in_db :: "(pg, 'a) op \<Rightarrow> (pg_hub, 'a) op" where
  "in_db = on_part fst (\<lambda>d w. (d, snd w))"

definition in_hub :: "(hub_state, 'a) op \<Rightarrow> (pg_hub, 'a) op" where
  "in_hub = on_part snd (\<lambda>h w. (fst w, h))"

definition pg_hub_repo :: "jsonb \<Rightarrow> 'z golib_scheme \<Rightarrow> pg_hub comment_repository" where
  "pg_hub_repo J L =
     \<lparr>cr_Create = \<lambda>c t k pl corr. in_db (pgco_Create J c t k pl corr), cr_ListByReport = \<lambda>p r pg. in_db (pgco_ListByReport L p r pg)\<rparr>"

definition pg_hub_events :: "pg_hub event_hub" where
  "pg_hub_events = \<lparr>eh_Subscribe = \<lambda>r u n. in_hub (mhub_Subscribe r u n), eh_Unsubscribe = \<lambda>r c. in_hub (mhub_Unsubscribe r c),
     eh_Publish = \<lambda>r ev. in_hub (mhub_Publish r ev), eh_Presence = \<lambda>r. in_hub (mhub_Presence r)\<rparr>"

definition pg_hub_service :: "jsonb \<Rightarrow> 'z golib_scheme \<Rightarrow> list_config \<Rightarrow> pg_hub collab_service" where
  "pg_hub_service J L cfg =
     \<lparr>co_repo = pg_hub_repo J L, co_EnsureMember = \<lambda>u p. in_db (access_EnsureMember (pgpr_svc L cfg) u p),
      co_EnsureInProject = \<lambda>p r. in_db (pgco_EnsureInProject p r), co_DisplayName = \<lambda>u. in_db (pgco_DisplayName u),
      co_hub = pg_hub_events, co_listCfg = cfg\<rparr>"

abbreviation ph_ok :: "pg_hub \<Rightarrow> bool" where "ph_ok w \<equiv> hub_ok (snd w)"
abbreviation ph_comments :: "pg_hub \<Rightarrow> comment list" where "ph_comments w \<equiv> t_comments (pg_db (fst w))"
abbreviation ph_feed :: "pg_hub \<Rightarrow> streams" where "ph_feed w \<equiv> hub_feed (snd w)"

lemma in_db_keeps: "keeps pg_db m \<Longrightarrow> keeps (\<lambda>w. (ph_ok w, ph_comments w, ph_feed w)) (in_db m)"
  by (simp add: keeps_def in_db_def on_part_def)

lemma pg_insert_comment_Inr:
  "pg_insert_comment c db = Inr (v, db') \<Longrightarrow>
     v = c\<lparr>cm_CreatedAt := pg_time (cm_CreatedAt c)\<rparr> \<and> db' = db\<lparr>t_comments := t_comments db @ [v]\<rparr>"
  by (auto simp: pg_insert_comment_def Let_def split: if_splits)

lemma pgco_Create_cases:
  assumes "pgco_Create J c topic key payload corr s = (x, s')"
  shows "case x of Inl e \<Rightarrow> pg_db s' = pg_db s
     | Inr v \<Rightarrow> v = c\<lparr>cm_CreatedAt := pg_time (cm_CreatedAt c)\<rparr> \<and> t_comments (pg_db s') = t_comments (pg_db s) @ [v]"
  using assms unfolding pgco_Create_def
proof (cases rule: transaction_cases)
  case (err e)
  then show ?thesis by simp
next
  case (ok a s0 s1)
  then obtain s2 u where ins: "stmt (\<lambda>n t. pg_insert_comment c) s0 = (Inr a, s2)"
    and ev: "stmt (pg_insert_outbox J topic key payload corr) s2 = (Inr u, s1)"
    by (auto elim!: andthen_InrE)
  from pg_insert_comment_Inr [OF stmt_Inr [OF ins]] pg_insert_outbox_Inr [OF ev] ok show ?thesis by simp
qed

lemma pg_access_keeps: "keeps pg_db (access_EnsureMember (pgpr_svc L cfg) u p)"
  by (simp add: access_EnsureMember_def prs_EnsureMember_def prs_requireMember_def pgpr_svc_def pgpr_repo_def pgpr_GetMembership_def
      keeps_map_err keeps_andthen keeps_ret query_row_keeps)

interpretation ph: comment_store "pg_hub_repo J L" ph_ok ph_comments ph_feed pg_time
proof (unfold_locales, goal_cases)
  case (1 s c topic key payload corr c' s')
  then show ?case using pgco_Create_cases [of J c topic key payload corr "fst s" "Inr c'"]
    by (auto simp: pg_hub_repo_def in_db_def on_part_def prod_eq_iff)
next
  case (2 s c topic key payload corr e s')
  then show ?case using pgco_Create_cases [of J c topic key payload corr "fst s" "Inl e"]
    by (auto simp: pg_hub_repo_def in_db_def on_part_def prod_eq_iff)
qed

interpretation ph_fan: event_fanout pg_hub_events ph_ok ph_comments ph_feed hub_cap
proof unfold_locales
  fix s :: pg_hub and r ev assume s: "hub_ok (snd s)"
  obtain x h' where p: "mhub_Publish r ev (snd s) = (x, h')" by fastforce
  then show "\<exists>s'. eh_Publish pg_hub_events r ev s = (Inr (), s') \<and> hub_ok (snd s') \<and> ph_comments s' = ph_comments s
      \<and> ph_feed s' = offered hub_cap r ev (ph_feed s)"
    using hub_feed_publish [OF s p] by (simp add: pg_hub_events_def in_hub_def on_part_def)
qed

interpretation ph_svc: collab_client "pg_hub_repo J L" ph_ok ph_comments ph_feed pg_time pg_hub_events hub_cap "pg_hub_service J L cfg"
proof (unfold_locales, goal_cases)
  case (5 u)
  show ?case by (simp add: pg_hub_service_def pgco_DisplayName_def in_db_keeps query_row_keeps)
next
  case (4 p r)
  show ?case
    by (simp add: pg_hub_service_def pgco_EnsureInProject_def in_db_keeps keeps_andthen query_keeps_db keeps_if keeps_ret keeps_fail)
qed (simp_all add: pg_hub_service_def in_db_keeps pg_access_keeps)

end
