(* ===== verification/Postgres_Schema.thy ===== *)
theory Postgres_Schema
  imports Postgres_Auth Postgres_Jobs Postgres_Sharing Postgres_Collab
begin

text \<open>
  The schema of \<open>migrations/\<close>: keys, references and checks hold of the tables whatever the stores of all components do, in any
  order and with statements failing anywhere, and what deleting a project leaves behind.
\<close>

section \<open>Constraints\<close>

text \<open>\<open>REFERENCES\<close>: every row's \<open>f\<close> is the key of a row of the other table.\<close>

definition refs :: "('a \<Rightarrow> 'k) \<Rightarrow> 'a list \<Rightarrow> ('b \<Rightarrow> 'k) \<Rightarrow> 'b list \<Rightarrow> bool" where
  "refs f rows key targets \<longleftrightarrow> f ` set rows \<subseteq> key ` set targets"

definition keys_ok :: "database \<Rightarrow> bool" where
  "keys_ok db \<longleftrightarrow>
     distinct (map usr_ID (t_users db)) \<and> distinct (map usr_Email (t_users db))
     \<and> distinct (map rft_ID (t_refresh_tokens db)) \<and> distinct (map rft_TokenHash (t_refresh_tokens db))
     \<and> distinct (map prj_ID (t_projects db)) \<and> distinct (map mb_id (t_members db))
     \<and> distinct (map rec_ID (t_recordings db))
     \<and> distinct (map art_ID (t_artifacts db)) \<and> distinct (map art_key (t_artifacts db))
     \<and> distinct (map an_ID (t_analyses db)) \<and> distinct (map an_key (t_analyses db))
     \<and> distinct (map rp_ID (t_reports db)) \<and> distinct (map rp_RecordingID (t_reports db))
     \<and> distinct (map sl_ID (t_shares db)) \<and> distinct (map sl_Token (t_shares db))
     \<and> distinct (map cm_ID (t_comments db))"

definition refs_ok :: "database \<Rightarrow> bool" where
  "refs_ok db \<longleftrightarrow>
     refs rft_UserID (t_refresh_tokens db) usr_ID (t_users db)
     \<and> refs prj_CreatedBy (t_projects db) usr_ID (t_users db)
     \<and> refs mb_ProjectID (t_members db) prj_ID (t_projects db) \<and> refs mb_UserID (t_members db) usr_ID (t_users db)
     \<and> refs rec_ProjectID (t_recordings db) prj_ID (t_projects db) \<and> refs rec_CreatedBy (t_recordings db) usr_ID (t_users db)
     \<and> refs art_RecordingID (t_artifacts db) rec_ID (t_recordings db)
     \<and> refs an_RecordingID (t_analyses db) rec_ID (t_recordings db) \<and> refs an_ProjectID (t_analyses db) prj_ID (t_projects db)
     \<and> refs rp_RecordingID (t_reports db) rec_ID (t_recordings db) \<and> refs rp_ProjectID (t_reports db) prj_ID (t_projects db)
     \<and> refs sl_ReportID (t_shares db) rp_ID (t_reports db) \<and> refs sl_ProjectID (t_shares db) prj_ID (t_projects db)
     \<and> refs sl_CreatedBy (t_shares db) usr_ID (t_users db)
     \<and> refs cm_ReportID (t_comments db) rp_ID (t_reports db) \<and> refs cm_ProjectID (t_comments db) prj_ID (t_projects db)
     \<and> refs cm_AuthorID (t_comments db) usr_ID (t_users db)"

definition report_status_ok :: "string \<Rightarrow> bool" where
  "report_status_ok t \<longleftrightarrow> t \<in> {''PENDING'', ''GENERATING'', ''READY'', ''FAILED''}"

definition checks_ok :: "database \<Rightarrow> bool" where
  "checks_ok db \<longleftrightarrow>
     (\<forall>a\<in>set (t_artifacts db). int4_range (art_Ordinal a))
     \<and> (\<forall>r\<in>set (t_reports db). report_status_ok (rp_Status r))
     \<and> (\<forall>c\<in>set (t_comments db). 0 < rune_count (cm_Body c) \<and> rune_count (cm_Body c) \<le> 4000)"

definition db_ok :: "database \<Rightarrow> bool" where
  "db_ok db \<longleftrightarrow> keys_ok db \<and> refs_ok db \<and> checks_ok db"

lemmas db_ok_defs = db_ok_def keys_ok_def refs_ok_def checks_ok_def

section \<open>Rules for references\<close>

lemma refs_Nil [simp]: "refs f [] key targets"
  by (simp add: refs_def)

lemma refsD: "refs f rows key targets \<Longrightarrow> r \<in> set rows \<Longrightarrow> \<exists>t\<in>set targets. key t = f r"
  by (force simp: refs_def)

lemma refs_insert [simp]: "refs f (rows @ [r]) key targets \<longleftrightarrow> refs f rows key targets \<and> f r \<in> key ` set targets"
  by (auto simp: refs_def)

lemma refs_target [simp]: "refs f rows key targets \<Longrightarrow> refs f rows key (targets @ [t])"
  by (auto simp: refs_def)

lemma update_where_image: "(\<And>r. f (h r) = f r) \<Longrightarrow> f ` set (update_where p h rows) = f ` set rows"
  by (metis list.set_map update_where_keys)

lemma refs_update [simp]: "(\<And>r. f (h r) = f r) \<Longrightarrow> refs f (update_where p h rows) key targets = refs f rows key targets"
  by (simp add: refs_def update_where_image)

lemma refs_update_target [simp]: "(\<And>r. key (h r) = key r) \<Longrightarrow> refs f rows key (update_where p h targets) = refs f rows key targets"
  by (simp add: refs_def update_where_image)

text \<open>Rows are kept only where what they refer to is kept.\<close>

lemma refs_filter:
  assumes "refs f rows key targets" "\<And>r t. r \<in> set rows \<Longrightarrow> t \<in> set targets \<Longrightarrow> keep r \<Longrightarrow> key t = f r \<Longrightarrow> keep' t"
  shows "refs f (filter keep rows) key (filter keep' targets)"
  unfolding refs_def
proof (rule image_subsetI)
  fix r assume r: "r \<in> set (filter keep rows)"
  then obtain t where t: "t \<in> set targets" "key t = f r" using assms(1) by (force simp: refs_def)
  then have "keep' t" using assms(2) [of r t] r by simp
  then show "f r \<in> key ` set (filter keep' targets)" using t by force
qed

lemma refs_filter_rows: "refs f rows key targets \<Longrightarrow> refs f (filter keep rows) key targets"
  by (auto simp: refs_def)

lemma update_where_all: "(\<And>r. P r \<Longrightarrow> P (h r)) \<Longrightarrow> \<forall>r\<in>set rows. P r \<Longrightarrow> \<forall>r\<in>set (update_where p h rows). P r"
  by (auto simp: update_where_def)

section \<open>Statements\<close>

lemma insert_user_ok: "db_ok db \<Longrightarrow> pg_insert_user u db = Inr (x, db') \<Longrightarrow> db_ok db'"
  by (clarsimp simp: pg_insert_user_def Let_def split: if_splits) (simp add: db_ok_defs)

lemma insert_token_ok: "db_ok db \<Longrightarrow> pg_insert_token t db = Inr (x, db') \<Longrightarrow> db_ok db'"
  by (clarsimp simp: pg_insert_token_def token_row_def split: if_splits) (simp add: db_ok_defs)

lemma revoke_tokens_ok: "db_ok db \<Longrightarrow> db_ok (pg_revoke_tokens p at db)"
  by (simp add: pg_revoke_tokens_def db_ok_defs)

lemma insert_project_ok: "db_ok db \<Longrightarrow> pg_insert_project p db = Inr (x, db') \<Longrightarrow> db_ok db'"
  by (clarsimp simp: pg_insert_project_def project_row_def split: if_splits) (simp add: db_ok_defs)

lemma insert_member_ok: "db_ok db \<Longrightarrow> pg_insert_member m db = Inr (x, db') \<Longrightarrow> db_ok db'"
  by (clarsimp simp: pg_insert_member_def split: if_splits) (simp add: db_ok_defs mb_id_def)

lemma recording_row_keys:
  "rec_ID (recording_row r) = rec_ID r" "rec_ProjectID (recording_row r) = rec_ProjectID r" "rec_CreatedBy (recording_row r) = rec_CreatedBy r"
  by (simp_all add: recording_row_def recording.extend_def)

lemma insert_recording_ok:
  assumes "db_ok db" "pg_insert_recording J r db = Inr (x, db')"
  shows "db_ok db'"
proof -
  from assms(2) have db': "db' = db\<lparr>t_recordings := t_recordings db @ [recording_row r]\<rparr>"
    and new: "rec_ID r \<notin> rec_ID ` set (t_recordings db)" "rec_ProjectID r \<in> prj_ID ` set (t_projects db)" "rec_CreatedBy r \<in> usr_ID ` set (t_users db)"
    by (auto simp: pg_insert_recording_def split: if_splits)
  have db: "keys_ok db" "refs_ok db" "checks_ok db" using assms(1) by (simp_all add: db_ok_def)
  have "keys_ok db'" unfolding db' using db(1) new(1) by (simp add: keys_ok_def)
  moreover have "refs_ok db'" unfolding db' using db(2) new(2,3) by (simp add: refs_ok_def recording_row_keys)
  moreover have "checks_ok db'" unfolding db' using db(3) by (simp add: checks_ok_def)
  ultimately show ?thesis by (simp add: db_ok_def)
qed

lemma update_recordings_ok:
  assumes "db_ok db" "\<And>r. rec_ID (f r) = rec_ID r \<and> rec_ProjectID (f r) = rec_ProjectID r \<and> rec_CreatedBy (f r) = rec_CreatedBy r"
  shows "db_ok (db\<lparr>t_recordings := update_where p f (t_recordings db)\<rparr>)"
  using assms by (simp add: db_ok_defs)

lemma outbox_ok [simp]: "db_ok (db\<lparr>t_outbox := rows\<rparr>) = db_ok db"
  by (simp add: db_ok_defs)

lemma insert_outbox_ok: "db_ok db \<Longrightarrow> pg_insert_outbox J topic key payload corr n t db = Inr (x, db') \<Longrightarrow> db_ok db'"
  by (auto simp: pg_insert_outbox_def split: if_splits)

lemma db_okD: "db_ok db \<Longrightarrow> keys_ok db \<and> refs_ok db \<and> checks_ok db"
  by (simp add: db_ok_def)

lemma upsert_artifact_ok:
  assumes "db_ok db" "pg_upsert_artifact a db = Inr (x, db')"
  shows "db_ok db'"
proof -
  note db = db_okD [OF assms(1)]
  have range: "int4_range (art_Ordinal a)" using assms(2) by (simp add: pg_upsert_artifact_def split: if_splits)
  show ?thesis
  proof (cases "art_key a \<in> art_key ` set (t_artifacts db)")
    case True
    let ?f = "\<lambda>r. r\<lparr>art_StorageKey := art_StorageKey a, art_ContentType := art_ContentType a, art_ByteSize := art_ByteSize a\<rparr>"
    have db': "db' = db\<lparr>t_artifacts := update_where (\<lambda>r. art_key r = art_key a) ?f (t_artifacts db)\<rparr>"
      using assms(2) range True by (simp add: pg_upsert_artifact_def)
    have key: "art_key (?f r) = art_key r" for r by (simp add: art_key_def)
    have "\<forall>r\<in>set (update_where (\<lambda>r. art_key r = art_key a) ?f (t_artifacts db)). int4_range (art_Ordinal r)"
      by (rule update_where_all) (use db in \<open>simp_all add: checks_ok_def\<close>)
    then have "checks_ok db'" unfolding db' using db by (simp add: checks_ok_def)
    moreover have "keys_ok db'" unfolding db' using db key by (simp add: keys_ok_def)
    moreover have "refs_ok db'" unfolding db' using db by (simp add: refs_ok_def)
    ultimately show ?thesis by (simp add: db_ok_def)
  next
    case False
    then have db': "db' = db\<lparr>t_artifacts := t_artifacts db @ [a\<lparr>art_CreatedAt := pg_time (art_CreatedAt a)\<rparr>]\<rparr>"
      and new: "art_ID a \<notin> art_ID ` set (t_artifacts db)" "art_RecordingID a \<in> rec_ID ` set (t_recordings db)"
      using assms(2) range by (auto simp: pg_upsert_artifact_def split: if_splits)
    have "checks_ok db'" unfolding db' using db range by (simp add: checks_ok_def)
    moreover have "keys_ok db'" unfolding db' using db new(1) False by (simp add: keys_ok_def art_key_def)
    moreover have "refs_ok db'" unfolding db' using db new(2) by (simp add: refs_ok_def)
    ultimately show ?thesis by (simp add: db_ok_def)
  qed
qed

lemma insert_share_ok: "db_ok db \<Longrightarrow> pg_insert_share l db = Inr (x, db') \<Longrightarrow> db_ok db'"
  by (clarsimp simp: pg_insert_share_def share_row_def split: if_splits) (simp add: db_ok_defs)

lemma revoke_share_ok:
  assumes "db_ok db"
  shows "db_ok (db\<lparr>t_shares := update_where p (\<lambda>l. l\<lparr>sl_RevokedAt := x\<rparr>) (t_shares db)\<rparr>)"
  using assms by (simp add: db_ok_defs)

lemma insert_comment_ok: "db_ok db \<Longrightarrow> pg_insert_comment c db = Inr (x, db') \<Longrightarrow> db_ok db'"
  by (clarsimp simp: pg_insert_comment_def Let_def split: if_splits) (simp add: db_ok_defs)

lemma upsert_analysis_ok:
  assumes "db_ok db" "pg_upsert_analysis new f db = Inr (x, db')"
    and f: "\<And>a. an_ID (f a) = an_ID a \<and> an_RecordingID (f a) = an_RecordingID a \<and> an_ProjectID (f a) = an_ProjectID a
      \<and> an_PromptVersion (f a) = an_PromptVersion a"
  shows "db_ok db'"
  using assms(1,2) f
  by (clarsimp simp: pg_upsert_analysis_def pg_analysis_refused_def upserted_def split: if_splits option.splits)
    (simp_all add: db_ok_defs an_key_def)

lemma upsert_report_ok:
  assumes "db_ok db" "pg_upsert_report new f db = Inr (x, db')"
    and f: "\<And>a. rp_ID (f a) = rp_ID a" "\<And>a. rp_RecordingID (f a) = rp_RecordingID a" "\<And>a. rp_ProjectID (f a) = rp_ProjectID a"
    and st: "report_status_ok (rp_Status new)" "\<And>a. report_status_ok (rp_Status (f a))"
  shows "db_ok db'"
proof (cases "rp_RecordingID new \<in> rp_RecordingID ` set (t_reports db)")
  case True
  then have db': "db' = db\<lparr>t_reports := update_where (\<lambda>r. rp_RecordingID r = rp_RecordingID new) f (t_reports db)\<rparr>"
    using assms(2) by (simp add: pg_upsert_report_def pg_report_refused_def upserted_def)
  note db = db_okD [OF assms(1)]
  have "\<forall>r\<in>set (update_where (\<lambda>r. rp_RecordingID r = rp_RecordingID new) f (t_reports db)). report_status_ok (rp_Status r)"
    by (rule update_where_all) (use db st(2) in \<open>simp_all add: checks_ok_def\<close>)
  then have "checks_ok db'" unfolding db' using db by (simp add: checks_ok_def)
  moreover have "keys_ok db'" unfolding db' using db f by (simp add: keys_ok_def)
  moreover have "refs_ok db'" unfolding db' using db f by (simp add: refs_ok_def)
  ultimately show ?thesis by (simp add: db_ok_def)
next
  case False
  then have db': "db' = db\<lparr>t_reports := t_reports db @ [new]\<rparr>"
    and new: "rp_ID new \<notin> rp_ID ` set (t_reports db)"
      "rp_RecordingID new \<in> rec_ID ` set (t_recordings db)" "rp_ProjectID new \<in> prj_ID ` set (t_projects db)"
    using assms(2) by (auto simp: pg_upsert_report_def pg_report_refused_def upserted_def split: if_splits)
  have db: "keys_ok db" "refs_ok db" "checks_ok db" using assms(1) by (simp_all add: db_ok_def)
  have "keys_ok db'" unfolding db' using db(1) new(1) False by (simp add: keys_ok_def)
  moreover have "refs_ok db'" unfolding db' using db(2) new(2,3) by (simp add: refs_ok_def)
  moreover have "checks_ok db'" unfolding db' using db(3) st(1) by (simp add: checks_ok_def)
  ultimately show ?thesis by (simp add: db_ok_def)
qed

lemma update_analyses_ok:
  assumes "db_ok db" "\<And>a. an_ID (f a) = an_ID a \<and> an_RecordingID (f a) = an_RecordingID a \<and> an_ProjectID (f a) = an_ProjectID a
      \<and> an_PromptVersion (f a) = an_PromptVersion a"
  shows "db_ok (db\<lparr>t_analyses := update_where p f (t_analyses db)\<rparr>)"
  using assms by (simp add: db_ok_defs an_key_def)

section \<open>Cascades\<close>

lemma filter_keys: "distinct (map key rows) \<Longrightarrow> distinct (map key (filter p rows))"
  by (rule filter_distinct_key)

lemma delete_recordings_tables:
  "t_artifacts (delete_recordings p db) = filter (\<lambda>a. art_RecordingID a \<notin> rec_ID ` set (filter p (t_recordings db))) (t_artifacts db)"
  "t_analyses (delete_recordings p db) = filter (\<lambda>a. an_RecordingID a \<notin> rec_ID ` set (filter p (t_recordings db))) (t_analyses db)"
  "t_reports (delete_recordings p db) = filter (\<lambda>r. rp_RecordingID r \<notin> rec_ID ` set (filter p (t_recordings db))) (t_reports db)"
  "t_shares (delete_recordings p db) = filter (\<lambda>l. sl_ReportID l \<notin>
     rp_ID ` set (filter (\<lambda>r. rp_RecordingID r \<in> rec_ID ` set (filter p (t_recordings db))) (t_reports db))) (t_shares db)"
  "t_comments (delete_recordings p db) = filter (\<lambda>c. cm_ReportID c \<notin>
     rp_ID ` set (filter (\<lambda>r. rp_RecordingID r \<in> rec_ID ` set (filter p (t_recordings db))) (t_reports db))) (t_comments db)"
  by (simp_all add: delete_recordings_def delete_reports_def Let_def)

lemma delete_recordings_ok:
  assumes "db_ok db"
  shows "db_ok (delete_recordings p db)"
proof -
  note db = db_okD [OF assms]
  have "keys_ok (delete_recordings p db)" using db by (simp add: keys_ok_def delete_recordings_tables filter_distinct_key)
  moreover have "checks_ok (delete_recordings p db)" using db by (simp add: checks_ok_def delete_recordings_tables)
  moreover have "refs_ok (delete_recordings p db)"
    unfolding refs_ok_def delete_recordings_tables delete_recordings_other
    using db unfolding refs_ok_def
    by (elim conjE) (intro conjI; (assumption | (erule refs_filter, force) | (erule refs_filter_rows)))
  ultimately show ?thesis by (simp add: db_ok_def)
qed

lemma delete_project_tables:
  "t_recordings (delete_project i db) = filter (\<lambda>r. rec_ProjectID r \<noteq> i) (t_recordings db)"
  "t_artifacts (delete_project i db) = filter (\<lambda>a. art_RecordingID a \<notin> rec_ID ` set (filter (\<lambda>r. rec_ProjectID r = i) (t_recordings db))) (t_artifacts db)"
  "t_analyses (delete_project i db) = filter (\<lambda>a. an_RecordingID a \<notin> rec_ID ` set (filter (\<lambda>r. rec_ProjectID r = i) (t_recordings db))
     \<and> an_ProjectID a \<noteq> i) (t_analyses db)"
  "t_reports (delete_project i db) = filter (\<lambda>r. rp_RecordingID r \<notin> rec_ID ` set (filter (\<lambda>r. rec_ProjectID r = i) (t_recordings db))
     \<and> rp_ProjectID r \<noteq> i) (t_reports db)"
  "t_shares (delete_project i db) = filter (\<lambda>l. sl_ReportID l \<notin>
     rp_ID ` set (filter (\<lambda>r. rp_ProjectID r = i \<or> rp_RecordingID r \<in> rec_ID ` set (filter (\<lambda>r. rec_ProjectID r = i) (t_recordings db))) (t_reports db))
     \<and> sl_ProjectID l \<noteq> i) (t_shares db)"
  "t_comments (delete_project i db) = filter (\<lambda>c. cm_ReportID c \<notin>
     rp_ID ` set (filter (\<lambda>r. rp_ProjectID r = i \<or> rp_RecordingID r \<in> rec_ID ` set (filter (\<lambda>r. rec_ProjectID r = i) (t_recordings db))) (t_reports db))
     \<and> cm_ProjectID c \<noteq> i) (t_comments db)"
  by (auto simp: delete_project_def delete_recordings_def delete_reports_def Let_def intro!: filter_cong)

lemma delete_project_ok:
  assumes "db_ok db"
  shows "db_ok (delete_project i db)"
proof -
  note db = db_okD [OF assms]
  have "keys_ok (delete_project i db)" using db by (simp add: keys_ok_def delete_project_tables filter_distinct_key)
  moreover have "checks_ok (delete_project i db)" using db by (simp add: checks_ok_def delete_project_tables)
  moreover have "refs_ok (delete_project i db)"
    unfolding refs_ok_def delete_project_tables delete_project_other
    using db unfolding refs_ok_def
    by (elim conjE) (intro conjI; (assumption | (erule refs_filter, force) | (erule refs_filter_rows)))
  ultimately show ?thesis by (simp add: db_ok_def)
qed

lemma remove_member_ok: "db_ok db \<Longrightarrow> db_ok (db\<lparr>t_members := filter p (t_members db)\<rparr>)"
  by (simp add: db_ok_defs filter_distinct_key refs_filter_rows)

lemma update_projects_ok:
  assumes "db_ok db" "\<And>q. prj_ID (f q) = prj_ID q \<and> prj_CreatedBy (f q) = prj_CreatedBy q"
  shows "db_ok (db\<lparr>t_projects := update_where p f (t_projects db)\<rparr>)"
  using assms by (simp add: db_ok_defs)

section \<open>Operations\<close>

definition pg_ok :: "pg \<Rightarrow> bool" where "pg_ok s \<longleftrightarrow> db_ok (pg_db s)"

lemma pg_ok_stmt:
  assumes "\<And>n t db a db'. db_ok db \<Longrightarrow> f n t db = Inr (a, db') \<Longrightarrow> db_ok db'"
  shows "preserves pg_ok (stmt f)"
proof (rule preservesI)
  fix s assume ok: "pg_ok s"
  obtain x s' where run: "stmt f s = (x, s')" by fastforce
  have "db_ok (pg_db s')"
  proof (cases x)
    case (Inl e)
    then show ?thesis using stmt_Inl [OF run [unfolded Inl]] ok by (simp add: pg_ok_def)
  next
    case (Inr a)
    show ?thesis by (rule assms [OF _ stmt_Inr [OF run [unfolded Inr]]]) (use ok in \<open>simp add: pg_ok_def\<close>)
  qed
  then show "pg_ok (snd (stmt f s))" using run by (simp add: pg_ok_def)
qed

lemma pg_ok_reads: "keeps pg_db m \<Longrightarrow> preserves pg_ok m"
  by (simp add: keeps_def preserves_def pg_ok_def)

lemma pg_ok_transaction:
  assumes "preserves pg_ok m"
  shows "preserves pg_ok (transaction m)"
proof (rule preservesI)
  fix s assume ok: "pg_ok s"
  obtain x s' where run: "transaction m s = (x, s')" by fastforce
  then have "pg_ok s'"
  proof (cases rule: transaction_cases)
    case (err e)
    then show ?thesis using ok by (simp add: pg_ok_def)
  next
    case (ok a s0 s1)
    have "pg_ok s0" using ok(2) \<open>pg_ok s\<close> by (simp add: pg_ok_def)
    then show ?thesis using preservesD [OF assms ok(3)] ok(4) by (simp add: pg_ok_def)
  qed
  then show "pg_ok (snd (transaction m s))" using run by simp
qed

lemma pg_ok_transaction_else:
  assumes "preserves pg_ok m" "preserves pg_ok other"
  shows "preserves pg_ok (transaction_else m other)"
proof (rule preservesI)
  fix s assume good: "pg_ok s"
  obtain x s' where run: "transaction_else m other s = (x, s')" by fastforce
  then have "pg_ok s'"
  proof (cases rule: transaction_else_cases)
    case (err e)
    then show ?thesis using good by (simp add: pg_ok_def)
  next
    case (other s0 s1 s2)
    have "pg_ok s2" using other(3) good by (simp add: pg_ok_def)
    then show ?thesis using preservesD [OF assms(2) other(4)] by simp
  next
    case (ok a s0 s1)
    have "pg_ok s0" using ok(2) good by (simp add: pg_ok_def)
    then show ?thesis using preservesD [OF assms(1) ok(3)] ok(4) by (simp add: pg_ok_def)
  qed
  then show "pg_ok (snd (transaction_else m other s))" using run by simp
qed

lemma pg_ok_changes:
  assumes "\<And>db. db_ok db \<Longrightarrow> db_ok (upd db)"
  shows "preserves pg_ok (changes rows p upd)"
  unfolding changes_def by (rule pg_ok_stmt) (use assms in \<open>auto split: if_splits\<close>)

lemma pg_ok_changed_row: "preserves pg_ok m \<Longrightarrow> preserves pg_ok (changed_row none m)"
  unfolding changed_row_def by (intro preserves_intros)

lemma pg_ok_query: "preserves pg_ok (query f)" "preserves pg_ok (query_row none g)"
  by (intro pg_ok_reads query_keeps_db query_row_keeps)+

lemmas pg_ok_intros = pg_ok_transaction pg_ok_transaction_else pg_ok_changed_row pg_ok_changes pg_ok_query pg_ok_stmt preserves_intros

lemma pg_ok_outbox [preserves_intros]: "preserves pg_ok (stmt (pg_insert_outbox J t k pl c))"
  by (rule pg_ok_stmt) (rule insert_outbox_ok)

lemma pg_ok_users [preserves_intros]:
  "preserves pg_ok (pgau_Create u)" "preserves pg_ok (pgau_CreateToken t)" "preserves pg_ok (pgau_Rotate h at t)"
  "preserves pg_ok (pgau_Revoke i at)" "preserves pg_ok (pgau_RevokeAllForUser i at)"
proof -
  show "preserves pg_ok (pgau_Create u)" unfolding pgau_Create_def by (intro preserves_map_err pg_ok_stmt) (rule insert_user_ok)
  have token: "preserves pg_ok (stmt (\<lambda>n tk. pg_insert_token t))" for t by (rule pg_ok_stmt) (rule insert_token_ok)
  then show "preserves pg_ok (pgau_CreateToken t)" by (simp add: pgau_CreateToken_def)
  have spend: "preserves pg_ok (stmt (\<lambda>n t db. Inr (pg_spend_token h at db)))"
    by (rule pg_ok_stmt) (auto simp: pg_spend_token_def Let_def revoke_tokens_ok)
  show "preserves pg_ok (pgau_Rotate h at t)" unfolding pgau_Rotate_def
    by (intro pg_ok_transaction preserves_andthen spend) (auto intro!: preserves_andthen token split: option.split)
  show "preserves pg_ok (pgau_Revoke i at)" unfolding pgau_Revoke_def by (intro pg_ok_changed_row pg_ok_changes revoke_tokens_ok)
  show "preserves pg_ok (pgau_RevokeAllForUser i at)" unfolding pgau_RevokeAllForUser_def
    by (rule pg_ok_stmt) (auto simp: revoke_tokens_ok)
qed

lemma pg_ok_projects [preserves_intros]:
  "preserves pg_ok (pgpr_CreateWithOwner p m)" "preserves pg_ok (pgpr_Update p)" "preserves pg_ok (pgpr_Delete i)"
  "preserves pg_ok (pgpr_AddMember m)" "preserves pg_ok (pgpr_RemoveMember i u)"
proof -
  have project: "preserves pg_ok (stmt (\<lambda>n t. pg_insert_project p))" by (rule pg_ok_stmt) (rule insert_project_ok)
  have member: "preserves pg_ok (stmt (\<lambda>n t. pg_insert_member m))" by (rule pg_ok_stmt) (rule insert_member_ok)
  show "preserves pg_ok (pgpr_CreateWithOwner p m)" unfolding pgpr_CreateWithOwner_def
    by (intro pg_ok_transaction preserves_andthen project member preserves_ret)
  have "preserves pg_ok (stmt (\<lambda>n t db.
         let rows = update_where (\<lambda>r. prj_ID r = prj_ID p) (\<lambda>r. r\<lparr>prj_Name := prj_Name p, prj_UpdatedAt := pg_time (prj_UpdatedAt p)\<rparr>) (t_projects db)
         in Inr (lookup prj_ID rows (prj_ID p), db\<lparr>t_projects := rows\<rparr>)))"
    by (rule pg_ok_stmt) (auto simp: Let_def intro!: update_projects_ok)
  then show "preserves pg_ok (pgpr_Update p)" unfolding pgpr_Update_def
    by (rule preserves_andthen) (auto split: option.split)
  show "preserves pg_ok (pgpr_Delete i)" unfolding pgpr_Delete_def by (intro pg_ok_changed_row pg_ok_changes delete_project_ok)
  show "preserves pg_ok (pgpr_AddMember m)" unfolding pgpr_AddMember_def by (intro preserves_map_err member)
  show "preserves pg_ok (pgpr_RemoveMember i u)" unfolding pgpr_RemoveMember_def
    by (intro pg_ok_changed_row pg_ok_changes remove_member_ok)
qed

lemma update_recording_ok:
  assumes "db_ok db" "pg_update_recording J i p f db = (x, db')"
    "\<And>r. rec_ID (f r) = rec_ID r \<and> rec_ProjectID (f r) = rec_ProjectID r \<and> rec_CreatedBy (f r) = rec_CreatedBy r"
  shows "db_ok db'"
  using assms update_recordings_ok [OF assms(1), of f] by (auto simp: pg_update_recording_def split: option.splits)

lemma pg_ok_recordings [preserves_intros]:
  "preserves pg_ok (pgup_Create J r)" "preserves pg_ok (pgup_Update J r)" "preserves pg_ok (pgup_CompleteWithOutbox J r t k pl c)"
  "preserves pg_ok (pgup_InsertOutbox J t k pl c)" "preserves pg_ok (pgup_DeleteIfStatus i st)" "preserves pg_ok (pgup_Delete i)"
proof -
  show "preserves pg_ok (pgup_Create J r)" unfolding pgup_Create_def by (rule pg_ok_stmt) (rule insert_recording_ok)
  show "preserves pg_ok (pgup_Update J r)" unfolding pgup_Update_def
    by (rule preserves_andthen [OF pg_ok_stmt])
      (auto split: if_splits option.split elim!: update_recording_ok)
  have "preserves pg_ok (stmt (\<lambda>n t db. Inr (pg_update_recording J (rec_ID r) (\<lambda>r. rec_Status r = UPLOADING)
           (\<lambda>q. q\<lparr>rec_Status := rec_Status r, rec_ByteSize := rec_ByteSize r, rec_Checksum := rec_Checksum r,
                  rec_UpdatedAt := pg_time (rec_UpdatedAt r)\<rparr>) db)))"
    by (rule pg_ok_stmt) (auto elim!: update_recording_ok)
  then show "preserves pg_ok (pgup_CompleteWithOutbox J r t k pl c)" unfolding pgup_CompleteWithOutbox_def pgup_Get_def
    by (intro pg_ok_transaction_else preserves_andthen pg_ok_query) (auto split: option.split intro!: preserves_andthen pg_ok_outbox)
  show "preserves pg_ok (pgup_InsertOutbox J t k pl c)" unfolding pgup_InsertOutbox_def by (rule pg_ok_outbox)
  show "preserves pg_ok (pgup_DeleteIfStatus i st)" unfolding pgup_DeleteIfStatus_def
    by (intro pg_ok_changed_row pg_ok_changes delete_recordings_ok)
  show "preserves pg_ok (pgup_Delete i)" unfolding pgup_Delete_def by (intro pg_ok_changed_row pg_ok_changes delete_recordings_ok)
qed

lemma pg_ok_claims [preserves_intros]:
  "preserves pg_ok (pgme_ClaimProcessing i w at e)" "preserves pg_ok (pgme_RenewClaim i w e)" "preserves pg_ok (pgme_MarkFailed i w at)"
  "preserves pg_ok (pgme_FinalizeReady J i w at as t k pl c)"
proof -
  have rows: "db_ok db \<Longrightarrow> (\<And>r. rec_ID (f r) = rec_ID r \<and> rec_ProjectID (f r) = rec_ProjectID r \<and> rec_CreatedBy (f r) = rec_CreatedBy r) \<Longrightarrow>
      db_ok (pg_set_recordings p f db)" for p f db
    unfolding pg_set_recordings_def by (rule update_recordings_ok)
  have rejected: "preserves pg_ok (pgme_claimRejection i at)" unfolding pgme_claimRejection_def
    by (intro preserves_andthen pg_ok_query preserves_if preserves_fail)
  show "preserves pg_ok (pgme_ClaimProcessing i w at e)" unfolding pgme_ClaimProcessing_def
    by (intro preserves_andthen preserves_if rejected preserves_ret pg_ok_changes rows) simp_all
  show "preserves pg_ok (pgme_RenewClaim i w e)" unfolding pgme_RenewClaim_def Let_def
    by (intro pg_ok_changed_row pg_ok_changes rows) simp_all
  have release: "preserves pg_ok (pg_release st i w at)" for st unfolding pg_release_def Let_def
    by (intro pg_ok_changed_row pg_ok_changes rows) simp_all
  then show "preserves pg_ok (pgme_MarkFailed i w at)" by (simp add: pgme_MarkFailed_def)
  have "preserves pg_ok (stmt (\<lambda>n t. pg_upsert_artifact a))" for a by (rule pg_ok_stmt) (rule upsert_artifact_ok)
  then show "preserves pg_ok (pgme_FinalizeReady J i w at as t k pl c)" unfolding pgme_FinalizeReady_def
    by (intro pg_ok_transaction preserves_andthen release preserves_foreach pg_ok_outbox)
qed

lemma report_status_known [simp]:
  "report_status_ok ''GENERATING''" "report_status_ok ''READY''" "report_status_ok ''FAILED''"
  by (simp_all add: report_status_ok_def)

lemma pg_ok_analyses [preserves_intros]:
  "preserves pg_ok (pgai_TryClaimRunning J r p v at before)" "preserves pg_ok (pgai_TouchRunning r v at)"
  "preserves pg_ok (pgai_MarkGenerating J L C r p corr at)" "preserves pg_ok (pgai_CompleteAnalysis J a q evs at)"
  "preserves pg_ok (pgai_FailAnalysis r v msg at)"
proof -
  have claim: "preserves pg_ok (stmt (\<lambda>n t. pg_claim_analysis (pg_claimed (tk_uuid t) r p v at) at before))"
  proof (rule pg_ok_stmt)
    fix n t db x db' assume ok: "db_ok db" and c: "pg_claim_analysis (pg_claimed (tk_uuid t) r p v at) at before db = Inr (x, db')"
    from c show "db_ok db'"
    proof (cases rule: pg_claim_cases)
      case busy
      then show ?thesis using ok by simp
    next
      case (free a)
      from upsert_analysis_ok [OF ok free(3)] show ?thesis by simp
    qed
  qed
  show "preserves pg_ok (pgai_TryClaimRunning J r p v at before)" unfolding pgai_TryClaimRunning_def
  proof (rule preserves_andthen [OF claim])
    fix out :: "analysis option"
    have "preserves pg_ok (pgai_GetAnalysis J r v)" by (rule pg_ok_reads [OF pgai_db(1)])
    then show "preserves pg_ok (case out of Some a \<Rightarrow> ret (scan_analysis J a)
        | None \<Rightarrow> andthen (pgai_GetAnalysis J r v) (\<lambda>existing.
            if an_Status existing = AnalysisCompleted then fail (ErrNotFound AI) else fail ErrAnalysisInFlight))"
      by (cases out) (auto intro!: preserves_andthen)
  qed
  show "preserves pg_ok (pgai_TouchRunning r v at)" unfolding pgai_TouchRunning_def
    by (rule pg_ok_stmt) (auto intro!: update_analyses_ok)
  have generating: "preserves pg_ok (stmt (\<lambda>n t. pg_upsert_report (generating_report (tk_uuid t) r p at)
          (\<lambda>q. q\<lparr>rp_Status := ''GENERATING'', rp_AIStatus := ''running'', rp_PromptVersion := PromptVersion, rp_UpdatedAt := pg_time at\<rparr>)))"
    by (rule pg_ok_stmt) (erule (1) upsert_report_ok; simp add: generating_report_def)
  then show "preserves pg_ok (pgai_MarkGenerating J L C r p corr at)" unfolding pgai_MarkGenerating_def
    by (intro pg_ok_transaction preserves_andthen preserves_lift_sum pg_ok_outbox preserves_ret)
  have a: "preserves pg_ok (stmt (\<lambda>n t. pg_complete_analysis J a at))"
    by (rule pg_ok_stmt) (simp add: pg_complete_analysis_def split: if_splits; erule (1) upsert_analysis_ok; simp)
  have q: "preserves pg_ok (stmt (\<lambda>n t. pg_complete_report J q at))"
    by (rule pg_ok_stmt) (simp add: pg_complete_report_def split: if_splits; erule (1) upsert_report_ok; simp add: ready_report_row_def)
  show "preserves pg_ok (pgai_CompleteAnalysis J a q evs at)" unfolding pgai_CompleteAnalysis_def
    by (intro pg_ok_transaction preserves_andthen a q preserves_foreach pg_ok_outbox)
  have failed: "preserves pg_ok (stmt (pg_fail_report r v at))"
  proof (rule pg_ok_stmt)
    fix n t db x db' assume ok: "db_ok db" and run: "pg_fail_report r v at n t db = Inr (x, db')"
    show "db_ok db'"
    proof (cases "lookup rec_ID (t_recordings db) r")
      case None
      then show ?thesis using run ok by (simp add: pg_fail_report_def)
    next
      case (Some rec)
      let ?f = "\<lambda>q. q\<lparr>rp_Status := ''FAILED'', rp_AIStatus := ''failed'', rp_UpdatedAt := pg_time at\<rparr>"
      from run Some obtain q where up: "pg_upsert_report (failed_report (tk_uuid t) rec v at) ?f db = Inr (q, db')"
        by (cases "pg_upsert_report (failed_report (tk_uuid t) rec v at) ?f db") (auto simp: pg_fail_report_def)
      show ?thesis by (rule upsert_report_ok [OF ok up]) (simp_all add: failed_report_def)
    qed
  qed
  have mark: "preserves pg_ok (stmt (\<lambda>n t db. Inr ((), db\<lparr>t_analyses := update_where (\<lambda>a. an_key a = (r, v))
       (\<lambda>a. a\<lparr>an_Status := AnalysisFailed, an_ErrorMessage := take 1000 msg, an_UpdatedAt := pg_time at\<rparr>) (t_analyses db)\<rparr>)))"
    by (rule pg_ok_stmt) (auto intro!: update_analyses_ok)
  show "preserves pg_ok (pgai_FailAnalysis r v msg at)" unfolding pgai_FailAnalysis_def
    by (intro preserves_andthen mark failed)
qed

lemma pg_ok_links [preserves_intros]:
  "preserves pg_ok (pgsh_Create J l t k pl c)" "preserves pg_ok (pgsh_Revoke p i at)" "preserves pg_ok (pgco_Create J m t k pl c)"
proof -
  have share: "preserves pg_ok (stmt (\<lambda>n t. pg_insert_share l))" by (rule pg_ok_stmt) (rule insert_share_ok)
  show "preserves pg_ok (pgsh_Create J l t k pl c)" unfolding pgsh_Create_def
    by (intro pg_ok_transaction preserves_andthen share pg_ok_outbox preserves_ret)
  show "preserves pg_ok (pgsh_Revoke p i at)" unfolding pgsh_Revoke_def Let_def
    by (intro pg_ok_changed_row pg_ok_changes revoke_share_ok)
  have comment: "preserves pg_ok (stmt (\<lambda>n t. pg_insert_comment m))" by (rule pg_ok_stmt) (rule insert_comment_ok)
  show "preserves pg_ok (pgco_Create J m t k pl c)" unfolding pgco_Create_def
    by (intro pg_ok_transaction preserves_andthen comment pg_ok_outbox preserves_ret)
qed

lemma pg_ok_relay:
  assumes "pg_ok s"
  shows "pg_ok (fst (snd (pgup_WithClaimed J now n fn (s, k))))"
proof -
  have claimed: "preserves pg_ok (andthen (query (\<lambda>_. ())) (\<lambda>_. stmt (pg_claimable J n)))"
    by (intro preserves_andthen pg_ok_query pg_ok_stmt) (simp add: pg_claimable_def)
  have marked: "preserves pg_ok (andthen (foreach (pg_mark_published now) () msgs) (\<lambda>_. query (\<lambda>_. ())))" for msgs
    unfolding pg_mark_published_def
    by (intro preserves_andthen pg_ok_query preserves_foreach pg_ok_changes preserves_if preserves_fail preserves_ret) simp
  obtain x s1 where c: "andthen (query (\<lambda>_. ())) (\<lambda>_. stmt (pg_claimable J n)) s = (x, s1)" by fastforce
  have ok1: "pg_ok s1" using preservesD [OF claimed c assms] .
  have "pg_ok s2" if "andthen (foreach (pg_mark_published now) () msgs) (\<lambda>_. query (\<lambda>_. ())) s1 = (y, s2)" for msgs y s2
    using preservesD [OF marked that ok1] .
  then show ?thesis using assms ok1 c
    by (auto simp: pgup_WithClaimed_def pg_ok_def split: prod.splits sum.splits)
qed

section \<open>Everything the stores do\<close>

text \<open>
  From the empty database, any sequence of calls of the repositories by any component; \<open>db_read\<close> stands for the reads and for
  whatever else leaves the tables alone.
\<close>

inductive db_reach :: "jsonb \<Rightarrow> 'z golib_scheme \<Rightarrow> ai_codec \<Rightarrow> pg \<Rightarrow> bool" for J L C where
  db_start: "db_reach J L C (pg_new ticks)"
| db_read: "db_reach J L C s \<Longrightarrow> pg_db s' = pg_db s \<Longrightarrow> db_reach J L C s'"
| db_user: "db_reach J L C s \<Longrightarrow> db_reach J L C (snd (pgau_Create u s))"
| db_token: "db_reach J L C s \<Longrightarrow> db_reach J L C (snd (pgau_CreateToken t s))"
| db_rotate: "db_reach J L C s \<Longrightarrow> db_reach J L C (snd (pgau_Rotate h at t s))"
| db_revoke: "db_reach J L C s \<Longrightarrow> db_reach J L C (snd (pgau_Revoke i at s))"
| db_revoke_all: "db_reach J L C s \<Longrightarrow> db_reach J L C (snd (pgau_RevokeAllForUser i at s))"
| db_project: "db_reach J L C s \<Longrightarrow> db_reach J L C (snd (pgpr_CreateWithOwner p m s))"
| db_rename: "db_reach J L C s \<Longrightarrow> db_reach J L C (snd (pgpr_Update p s))"
| db_delete_project: "db_reach J L C s \<Longrightarrow> db_reach J L C (snd (pgpr_Delete i s))"
| db_add_member: "db_reach J L C s \<Longrightarrow> db_reach J L C (snd (pgpr_AddMember m s))"
| db_remove_member: "db_reach J L C s \<Longrightarrow> db_reach J L C (snd (pgpr_RemoveMember i u s))"
| db_recording: "db_reach J L C s \<Longrightarrow> db_reach J L C (snd (pgup_Create J r s))"
| db_update: "db_reach J L C s \<Longrightarrow> db_reach J L C (snd (pgup_Update J r s))"
| db_complete: "db_reach J L C s \<Longrightarrow> db_reach J L C (snd (pgup_CompleteWithOutbox J r t k pl c s))"
| db_event: "db_reach J L C s \<Longrightarrow> db_reach J L C (snd (pgup_InsertOutbox J t k pl c s))"
| db_delete_if: "db_reach J L C s \<Longrightarrow> db_reach J L C (snd (pgup_DeleteIfStatus i st s))"
| db_delete: "db_reach J L C s \<Longrightarrow> db_reach J L C (snd (pgup_Delete i s))"
| db_relay: "db_reach J L C s \<Longrightarrow> db_reach J L C (fst (snd (pgup_WithClaimed J now n fn (s, k :: broker))))"
| db_claim: "db_reach J L C s \<Longrightarrow> db_reach J L C (snd (pgme_ClaimProcessing i w at e s))"
| db_renew: "db_reach J L C s \<Longrightarrow> db_reach J L C (snd (pgme_RenewClaim i w e s))"
| db_fail: "db_reach J L C s \<Longrightarrow> db_reach J L C (snd (pgme_MarkFailed i w at s))"
| db_finalize: "db_reach J L C s \<Longrightarrow> db_reach J L C (snd (pgme_FinalizeReady J i w at as t k pl c s))"
| db_analyze: "db_reach J L C s \<Longrightarrow> db_reach J L C (snd (pgai_TryClaimRunning J i p v at before s))"
| db_touch: "db_reach J L C s \<Longrightarrow> db_reach J L C (snd (pgai_TouchRunning i v at s))"
| db_mark: "db_reach J L C s \<Longrightarrow> db_reach J L C (snd (pgai_MarkGenerating J L C i p corr at s))"
| db_analyzed: "db_reach J L C s \<Longrightarrow> db_reach J L C (snd (pgai_CompleteAnalysis J a q evs at s))"
| db_failed: "db_reach J L C s \<Longrightarrow> db_reach J L C (snd (pgai_FailAnalysis i v msg at s))"
| db_share: "db_reach J L C s \<Longrightarrow> db_reach J L C (snd (pgsh_Create J l t k pl c s))"
| db_unshare: "db_reach J L C s \<Longrightarrow> db_reach J L C (snd (pgsh_Revoke p i at s))"
| db_comment: "db_reach J L C s \<Longrightarrow> db_reach J L C (snd (pgco_Create J m t k pl c s))"

lemma pg_ok_snd: "preserves pg_ok m \<Longrightarrow> pg_ok s \<Longrightarrow> pg_ok (snd (m s))"
  by (simp add: preserves_def)

lemma db_reach_ok: "db_reach J L C s \<Longrightarrow> pg_ok s"
proof (induction rule: db_reach.induct)
  case (db_start ticks)
  show ?case by (simp add: pg_ok_def pg_new_def empty_database_def db_ok_defs)
next
  case (db_read s s')
  then show ?case by (simp add: pg_ok_def)
next
  case (db_relay s now n fn k)
  then show ?case by (simp add: pg_ok_relay)
qed (rule pg_ok_snd [rotated], assumption, intro preserves_intros)+

text \<open>So each store's own invariant holds in the database they share.\<close>

lemma pg_ok_stores: "pg_ok s \<Longrightarrow> pgau_ok s \<and> pgpr_ok s \<and> pgup_ok s \<and> pgai_ok s \<and> pgsh_ok s"
  by (auto simp: pg_ok_def db_ok_defs refs_def pgau_ok_def pgau_rows_ok_def pgpr_ok_def pgpr_rows_ok_def pgup_ok_def pgai_ok_def
      pgsh_ok_def pgsh_rows_ok_def)

section \<open>Properties\<close>


definition schema_owner :: user where
  "schema_owner = \<lparr>usr_ID = 1, usr_Email = ''a@x'', usr_PasswordHash = [], usr_Name = [], usr_CreatedAt = 0, usr_UpdatedAt = 0\<rparr>"

definition schema_recording :: recording where
  "schema_recording = \<lparr>rec_ID = 9, rec_ProjectID = 7, rec_CreatedBy = 1, rec_Status = UPLOADED, rec_StorageKey = ''k'', rec_ContentType = ''video/webm'',
     rec_ByteSize = None, rec_Checksum = [], rec_Metadata = ''{}'', rec_CorrelationID = [], rec_CreatedAt = 0, rec_UpdatedAt = 0\<rparr>"

definition schema_artifact :: artifact where
  "schema_artifact = \<lparr>art_ID = 4, art_RecordingID = 9, art_Kind = KindFrame, art_StorageKey = ''f'', art_Ordinal = 0, art_ContentType = [],
     art_ByteSize = None, art_CreatedAt = 0\<rparr>"

definition schema_link :: share_link where
  "schema_link = \<lparr>sl_ID = 5, sl_ReportID = 113, sl_ProjectID = 7, sl_Token = ''t'', sl_ExpiresAt = None, sl_RevokedAt = None, sl_CreatedBy = 1,
     sl_CreatedAt = 0\<rparr>"

definition sample_started :: ai_codec where
  "sample_started = \<lparr>cd_started = (\<lambda>_. Inr ''{}''), cd_completed = (\<lambda>_. Inr ''{}''), cd_report = (\<lambda>_. Inr ''{}''), cd_steps = (\<lambda>_. Inr ''[]''),
     cd_quote = (\<lambda>s. s)\<rparr>"

text \<open>A project with a recording, its frame, its report and a link to it.\<close>

definition schema_project :: pg where
  "schema_project = snd (pgpr_CreateWithOwner \<lparr>prj_ID = 7, prj_Name = ''p'', prj_CreatedBy = 1, prj_CreatedAt = 0, prj_UpdatedAt = 0\<rparr>
     \<lparr>mb_ProjectID = 7, mb_UserID = 1, mb_Role = RoleOwner, mb_CreatedAt = 0\<rparr> (snd (pgau_Create schema_owner (pg_new calm_tick))))"

definition schema_frames :: pg where
  "schema_frames = snd (pgme_FinalizeReady sample_jsonb 9 ''w'' 2000 [schema_artifact] ''t'' ''k'' ''{}'' []
     (snd (pgme_ClaimProcessing 9 ''w'' 1000 9000 (snd (pgup_Create sample_jsonb schema_recording schema_project)))))"

definition schema_shared :: pg where
  "schema_shared = snd (pgsh_Create sample_jsonb schema_link ''t'' ''k'' ''{}'' []
     (snd (pgai_MarkGenerating sample_jsonb sample_lib sample_started 9 7 [] 3000 schema_frames)))"

lemma schema_shared_reach: "db_reach sample_jsonb sample_lib sample_started schema_shared"
  unfolding schema_shared_def schema_frames_def schema_project_def
  by (intro db_share db_mark db_finalize db_claim db_recording db_project db_user db_start)

lemma schema_shared_rows:
  "map prj_ID (t_projects (pg_db schema_shared)) = [7] \<and> map sl_ID (t_shares (pg_db schema_shared)) = [5]
   \<and> map art_ID (t_artifacts (pg_db schema_shared)) = [4]"
  by code_simp


text \<open>
  C39: a deleted project leaves nothing behind but events. After \<open>Delete\<close> no row of any table names the project, no artifact,
  analysis, link or comment is left without its recording or report, no share token opens a report of the project, and the other
  projects and their members are as before.
\<close>

theorem deleted_project_leaves_nothing:
  assumes "db_reach J L C s" "pgpr_Delete i s = (Inr (), s')"
  shows "i \<notin> prj_ID ` set (t_projects (pg_db s')) \<and> i \<notin> mb_ProjectID ` set (t_members (pg_db s'))
    \<and> i \<notin> rec_ProjectID ` set (t_recordings (pg_db s')) \<and> i \<notin> an_ProjectID ` set (t_analyses (pg_db s'))
    \<and> i \<notin> rp_ProjectID ` set (t_reports (pg_db s')) \<and> i \<notin> sl_ProjectID ` set (t_shares (pg_db s'))
    \<and> i \<notin> cm_ProjectID ` set (t_comments (pg_db s'))
    \<and> refs_ok (pg_db s')
    \<and> (\<forall>token l s2. pgsh_GetByToken token s' = (Inr l, s2) \<longrightarrow> sl_ProjectID l \<noteq> i \<and> (\<exists>r\<in>set (t_reports (pg_db s')). rp_ID r = sl_ReportID l \<and> rp_ProjectID r \<noteq> i))
    \<and> t_projects (pg_db s') = filter (\<lambda>p. prj_ID p \<noteq> i) (t_projects (pg_db s))
    \<and> t_members (pg_db s') = filter (\<lambda>m. mb_ProjectID m \<noteq> i) (t_members (pg_db s))"
proof -
  have db: "pg_db s' = delete_project i (pg_db s)"
    using changed_row_Inr [OF assms(2) [unfolded pgpr_Delete_def]] by blast
  have refs: "refs_ok (pg_db s')" unfolding db using delete_project_ok db_reach_ok [OF assms(1)] by (simp add: pg_ok_def db_ok_def)
  have gone: "i \<notin> rp_ProjectID ` set (t_reports (pg_db s'))" "i \<notin> sl_ProjectID ` set (t_shares (pg_db s'))"
    "i \<notin> rec_ProjectID ` set (t_recordings (pg_db s'))" "i \<notin> an_ProjectID ` set (t_analyses (pg_db s'))"
    "i \<notin> cm_ProjectID ` set (t_comments (pg_db s'))"
    unfolding db delete_project_tables by auto
  have rows: "t_projects (pg_db s') = filter (\<lambda>p. prj_ID p \<noteq> i) (t_projects (pg_db s))"
    "t_members (pg_db s') = filter (\<lambda>m. mb_ProjectID m \<noteq> i) (t_members (pg_db s))"
    unfolding db by simp_all
  have none: "i \<notin> prj_ID ` set (t_projects (pg_db s'))" "i \<notin> mb_ProjectID ` set (t_members (pg_db s'))" unfolding rows by auto
  have "sl_ProjectID l \<noteq> i \<and> (\<exists>r\<in>set (t_reports (pg_db s')). rp_ID r = sl_ReportID l \<and> rp_ProjectID r \<noteq> i)"
    if "pgsh_GetByToken token s' = (Inr l, s2)" for token l s2
  proof -
    have l: "l \<in> set (t_shares (pg_db s'))"
      using query_row_Inr [OF that [unfolded pgsh_GetByToken_def]] by (auto dest: lookup_SomeD)
    then obtain r where "r \<in> set (t_reports (pg_db s'))" "rp_ID r = sl_ReportID l"
      using refsD [of sl_ReportID "t_shares (pg_db s')" rp_ID "t_reports (pg_db s')" l] refs by (auto simp: refs_ok_def)
    then show ?thesis using gone l by auto
  qed
  then have "\<forall>token l s2. pgsh_GetByToken token s' = (Inr l, s2) \<longrightarrow>
      sl_ProjectID l \<noteq> i \<and> (\<exists>r\<in>set (t_reports (pg_db s')). rp_ID r = sl_ReportID l \<and> rp_ProjectID r \<noteq> i)" by blast
  with gone none refs rows show ?thesis by - (intro conjI; assumption)
qed

theorem deleted_project_leaves_nothing_witness:
  "sl_ID ` set (t_shares (pg_db schema_shared)) = {5} \<and> t_shares (pg_db (snd (pgpr_Delete 7 schema_shared))) = []"
proof -
  have run: "fst (pgpr_Delete 7 schema_shared) = Inr ()" by code_simp
  obtain s' where s': "pgpr_Delete 7 schema_shared = (Inr (), s')" using run by (metis prod.collapse)
  have "set (map sl_ProjectID (t_shares (pg_db s'))) \<subseteq> {7}"
  proof -
    have "map sl_ProjectID (t_shares (pg_db (snd (pgpr_Delete 7 schema_shared)))) = []" by code_simp
    then show ?thesis using s' by simp
  qed
  then have "t_shares (pg_db s') = []"
    using deleted_project_leaves_nothing [OF schema_shared_reach s'] by (cases "t_shares (pg_db s')") auto
  moreover have "set (map sl_ID (t_shares (pg_db schema_shared))) = {5}" using schema_shared_rows by simp
  ultimately show ?thesis using s' by simp
qed

end
