(* ===== verification/Object_Storage.thy ===== *)
theory Object_Storage
  imports Media Config
begin

text \<open>
  \<open>internal/uploads/adapter/minio\<close>: the object store behind the uploads and media ports.

  The SDK's client is a parameter: a record of its calls, each of which may change the state \<open>'s\<close>. The
  body of an object is the list of what successive reads return, with the error that ends them, if it is
  not \<open>io.EOF\<close>. \<open>mn_response\<close> is \<open>ToErrorResponse\<close>: the code and the HTTP status of an error. The keys that
  \<open>ListObjects\<close> sends on its channel are one list, taken when the range over it begins.
\<close>

section \<open>The client\<close>

record object_info =
  oi_Size :: int
  oi_ContentType :: string
  oi_ETag :: string

record 's minio_client =
  mn_BucketExists :: "string \<Rightarrow> ('s, bool) op"
  mn_MakeBucket :: "string \<Rightarrow> ('s, unit) op"
  mn_PresignHeader :: "string \<Rightarrow> string \<Rightarrow> string \<Rightarrow> duration \<Rightarrow> (string \<times> string) list \<Rightarrow> ('s, string) op"
  mn_PresignedGetObject :: "string \<Rightarrow> string \<Rightarrow> duration \<Rightarrow> ('s, string) op"
  mn_StatObject :: "string \<Rightarrow> string \<Rightarrow> ('s, object_info) op"
  mn_PutObject :: "string \<Rightarrow> string \<Rightarrow> bytes \<Rightarrow> int \<Rightarrow> string \<Rightarrow> ('s, unit) op"
  mn_GetObject :: "string \<Rightarrow> string \<Rightarrow> ('s, bytes list \<times> err option) op"
  mn_RemoveObject :: "string \<Rightarrow> string \<Rightarrow> ('s, unit) op"
  mn_ListObjects :: "string \<Rightarrow> string \<Rightarrow> ('s, (err + string) list) op"
  mn_response :: "err \<Rightarrow> string \<times> int"

record 's storage =
  sto_client :: "'s minio_client"
  sto_signer :: "'s minio_client"
  sto_bucket :: string

text \<open>\<open>New\<close>; \<open>connect\<close> is \<open>miniosdk.New\<close> with static credentials: endpoint, keys and \<open>Secure\<close>.\<close>

definition storage_New ::
    "(string \<Rightarrow> string \<Rightarrow> string \<Rightarrow> bool \<Rightarrow> err + 's minio_client) \<Rightarrow> minio_config \<Rightarrow> err + 's storage" where
  "storage_New connect cfg =
     (case connect (mc_Endpoint cfg) (mc_AccessKey cfg) (mc_SecretKey cfg) (mc_UseSSL cfg) of
        Inl e \<Rightarrow> Inl (ErrWrap ''minio client: '' e)
      | Inr client \<Rightarrow>
          let (ep, useSSL) = PresignEndpoint cfg
          in if ep \<noteq> mc_Endpoint cfg \<or> useSSL \<noteq> mc_UseSSL cfg then
               (case connect ep (mc_AccessKey cfg) (mc_SecretKey cfg) useSSL of
                  Inl e \<Rightarrow> Inl (ErrWrap ''minio presign client: '' e)
                | Inr signer \<Rightarrow> Inr \<lparr>sto_client = client, sto_signer = signer, sto_bucket = mc_Bucket cfg\<rparr>)
             else Inr \<lparr>sto_client = client, sto_signer = client, sto_bucket = mc_Bucket cfg\<rparr>)"

section \<open>Operations\<close>

definition sto_EnsureBucket :: "'s storage \<Rightarrow> ('s, unit) op" where
  "sto_EnsureBucket S =
     andthen (mn_BucketExists (sto_client S) (sto_bucket S)) (\<lambda>exists.
     if exists then ret () else mn_MakeBucket (sto_client S) (sto_bucket S))"

definition sto_PresignPut :: "'s storage \<Rightarrow> string \<Rightarrow> string \<Rightarrow> duration \<Rightarrow> ('s, string) op" where
  "sto_PresignPut S key contentType expiry =
     (let ct = trim_space contentType
      in mn_PresignHeader (sto_signer S) ''PUT'' (sto_bucket S) key expiry
           (if ct \<noteq> [] then [(''Content-Type'', ct)] else []))"

definition sto_PresignGet :: "'s storage \<Rightarrow> string \<Rightarrow> duration \<Rightarrow> ('s, string) op" where
  "sto_PresignGet S key expiry = mn_PresignedGetObject (sto_signer S) (sto_bucket S) key expiry"

text \<open>\<open>errResp.Code == "NoSuchKey" || errResp.StatusCode == 404\<close>.\<close>

definition missing_object :: "'s minio_client \<Rightarrow> err \<Rightarrow> bool" where
  "missing_object C e = (let (code, status) = mn_response C e in code = ''NoSuchKey'' \<or> status = 404)"

definition sto_Stat :: "'s storage \<Rightarrow> string \<Rightarrow> ('s, object_meta) op" where
  "sto_Stat S key s =
     (case mn_StatObject (sto_client S) (sto_bucket S) key s of
        (Inl e, s') \<Rightarrow> (Inl (if missing_object (sto_client S) e then ErrObjectMissing else e), s')
      | (Inr info, s') \<Rightarrow>
          (Inr \<lparr>om_Size = oi_Size info, om_ContentType = oi_ContentType info, om_ETag = oi_ETag info\<rparr>, s'))"

definition sto_Put :: "'s storage \<Rightarrow> string \<Rightarrow> string \<Rightarrow> bytes \<Rightarrow> ('s, unit) op" where
  "sto_Put S key contentType body = mn_PutObject (sto_client S) (sto_bucket S) key body (int (length body)) contentType"

definition sto_Upload :: "'s storage \<Rightarrow> string \<Rightarrow> string \<Rightarrow> bytes \<Rightarrow> int \<Rightarrow> ('s, unit) op" where
  "sto_Upload S key contentType body n = mn_PutObject (sto_client S) (sto_bucket S) key body n contentType"

text \<open>
  \<open>io.Copy\<close>: each read that returned bytes is written, a short write or an error ends it. The writer acts
  on a state \<open>'w\<close> of its own.
\<close>

fun io_copy :: "(bytes \<Rightarrow> ('w, int) op) \<Rightarrow> bytes list \<Rightarrow> err option \<Rightarrow> ('w, unit) op" where
  "io_copy wr [] e = (case e of None \<Rightarrow> ret () | Some e \<Rightarrow> fail e)"
| "io_copy wr (p # ps) e =
     (if p = [] then io_copy wr ps e
      else andthen (wr p) (\<lambda>n. if n \<noteq> int (length p) then fail (ErrOther ''short write'') else io_copy wr ps e))"

definition sto_Download :: "'s storage \<Rightarrow> string \<Rightarrow> (bytes \<Rightarrow> ('b, int) op) \<Rightarrow> ('b \<times> 's, unit) op" where
  "sto_Download S key wr = (\<lambda>(b, s).
     case mn_GetObject (sto_client S) (sto_bucket S) key s of
       (Inl e, s') \<Rightarrow> (Inl e, (b, s'))
     | (Inr (ps, e), s') \<Rightarrow> (let (r, b') = io_copy wr ps e b in (r, (b', s'))))"

definition sto_Delete :: "'s storage \<Rightarrow> string \<Rightarrow> ('s, unit) op" where
  "sto_Delete S key s =
     (case mn_RemoveObject (sto_client S) (sto_bucket S) key s of
        (Inr _, s') \<Rightarrow> (Inr (), s')
      | (Inl e, s') \<Rightarrow> (if missing_object (sto_client S) e then Inr () else Inl e, s'))"

text \<open>The loop of \<open>DeletePrefix\<close>; an error of the listing ends it, the first error of a deletion is kept.\<close>

fun delete_listed :: "'s storage \<Rightarrow> err option \<Rightarrow> (err + string) list \<Rightarrow> ('s, unit) op" where
  "delete_listed S firstErr [] = (case firstErr of None \<Rightarrow> ret () | Some e \<Rightarrow> fail e)"
| "delete_listed S firstErr (Inl e # objs) = fail e"
| "delete_listed S firstErr (Inr key # objs) =
     andthen (attempt (sto_Delete S key)) (\<lambda>r.
       delete_listed S (case r of Inl e \<Rightarrow> (if firstErr = None then Some e else firstErr) | Inr _ \<Rightarrow> firstErr) objs)"

definition sto_DeletePrefix :: "'s storage \<Rightarrow> string \<Rightarrow> ('s, unit) op" where
  "sto_DeletePrefix S pre =
     (if pre = [] then fail (ErrOther ''refusing to delete with empty prefix'')
      else andthen (mn_ListObjects (sto_client S) (sto_bucket S) pre) (delete_listed S None))"

text \<open>The storage as the uploads' port.\<close>

definition storage_objects :: "'s storage \<Rightarrow> 's object_storage" where
  "storage_objects S =
     \<lparr>os_PresignPut = sto_PresignPut S, os_Stat = sto_Stat S, os_Delete = sto_Delete S,
      os_DeletePrefix = sto_DeletePrefix S\<rparr>"

section \<open>Facts\<close>

text \<open>\<open>io.Copy\<close> touches the writer's state by writing only.\<close>

lemma io_copy_keeps:
  assumes "\<And>p b. Q b \<Longrightarrow> Q (snd (wr p b))"
  shows "Q b \<Longrightarrow> Q (snd (io_copy wr ps e b))"
proof (induction ps arbitrary: b)
  case (Cons p ps)
  then show ?case using assms [OF Cons.prems, of p]
    by (cases "wr p b") (auto simp: andthen_def split: sum.splits)
qed (simp split: option.splits)

text \<open>A copy into a writer that appends, or refuses and fails, has appended all that was read.\<close>

lemma io_copy_appends:
  assumes "\<And>p b n b'. wr p b = (Inr n, b') \<Longrightarrow> data b' = data b @ p"
  shows "io_copy wr ps e b = (Inr (), b') \<Longrightarrow> e = None \<and> data b' = data b @ concat ps"
proof (induction ps arbitrary: b)
  case (Cons p ps)
  show ?case
  proof (cases "p = []")
    case False
    then obtain n b1 where w: "wr p b = (Inr n, b1)" "io_copy wr ps e b1 = (Inr (), b')"
      using Cons.prems by (auto elim!: andthen_InrE split: if_splits)
    then show ?thesis using Cons.IH [OF w(2)] assms [OF w(1)] by simp
  qed (use Cons in simp)
qed (simp split: option.splits)

text \<open>
  What the SDK documents of a bucket: \<open>keys\<close> are its keys. A listing that meets no error names every key
  with the prefix, a removal takes one key away, and an error that says a key is missing is true.
\<close>

definition bucket_client :: "'s minio_client \<Rightarrow> string \<Rightarrow> ('s \<Rightarrow> string set) \<Rightarrow> bool" where
  "bucket_client C b keys \<longleftrightarrow>
     (\<forall>p s xs s'. mn_ListObjects C b p s = (Inr xs, s') \<longrightarrow> keys s' = keys s
        \<and> ((\<forall>x\<in>set xs. \<not> isl x) \<longrightarrow> (\<forall>k\<in>keys s. has_prefix k p \<longrightarrow> Inr k \<in> set xs)))
   \<and> (\<forall>k s s'. mn_RemoveObject C b k s = (Inr (), s') \<longrightarrow> keys s' = keys s - {k})
   \<and> (\<forall>k s e s'. mn_RemoveObject C b k s = (Inl e, s') \<longrightarrow> keys s' \<subseteq> keys s \<and> (missing_object C e \<longrightarrow> k \<notin> keys s'))"

lemma sto_Delete_keys:
  assumes "bucket_client (sto_client S) (sto_bucket S) keys" "sto_Delete S k s = (r, s')"
  shows "keys s' \<subseteq> keys s \<and> (r = Inr () \<longrightarrow> k \<notin> keys s')"
proof (cases "mn_RemoveObject (sto_client S) (sto_bucket S) k s")
  case (Pair x s1)
  then show ?thesis using assms unfolding bucket_client_def sto_Delete_def
    by (cases x) (force split: if_splits)+
qed

lemma delete_listed_deletes:
  assumes "bucket_client (sto_client S) (sto_bucket S) keys"
  shows "delete_listed S first objs s = (Inr (), s') \<Longrightarrow>
    first = None \<and> keys s' \<subseteq> keys s \<and> (\<forall>x\<in>set objs. \<not> isl x) \<and> (\<forall>k. Inr k \<in> set objs \<longrightarrow> k \<notin> keys s')"
proof (induction objs arbitrary: first s)
  case (Cons x objs)
  then obtain key where x: "x = Inr key" by (cases x) auto
  obtain r s1 where d: "sto_Delete S key s = (r, s1)" by fastforce
  let ?first = "case r of Inl e \<Rightarrow> (if first = None then Some e else first) | Inr _ \<Rightarrow> first"
  have "delete_listed S ?first objs s1 = (Inr (), s')"
    using Cons.prems d by (simp add: x andthen_def attempt_def)
  from Cons.IH [OF this] sto_Delete_keys [OF assms d] show ?case
    by (cases r) (auto simp: x split: if_splits)
qed (auto split: option.splits)

text \<open>
  A prefix that was deleted without an error has no key left, nor does the deletion add any; the empty
  prefix, which every key has, is refused.
\<close>

theorem deleted_prefix_is_empty:
  assumes "bucket_client (sto_client S) (sto_bucket S) keys" "sto_DeletePrefix S pre s = (Inr (), s')"
  shows "pre \<noteq> [] \<and> keys s' \<subseteq> keys s \<and> (\<forall>k\<in>keys s'. \<not> has_prefix k pre)"
proof -
  from assms(2) obtain xs s1 where nonempty: "pre \<noteq> []"
    and list: "mn_ListObjects (sto_client S) (sto_bucket S) pre s = (Inr xs, s1)"
    and run: "delete_listed S None xs s1 = (Inr (), s')"
    unfolding sto_DeletePrefix_def by (auto elim!: andthen_InrE split: if_splits)
  have keys: "keys s1 = keys s" "(\<forall>x\<in>set xs. \<not> isl x) \<longrightarrow> (\<forall>k\<in>keys s. has_prefix k pre \<longrightarrow> Inr k \<in> set xs)"
    using assms(1) list unfolding bucket_client_def by blast+
  show ?thesis using delete_listed_deletes [OF assms(1) run] keys nonempty by auto
qed

text \<open>Deleting again is no error: a missing key counts as deleted.\<close>

lemma delete_missing_succeeds:
  "mn_RemoveObject (sto_client S) (sto_bucket S) k s = (Inl e, s') \<Longrightarrow> missing_object (sto_client S) e
     \<Longrightarrow> sto_Delete S k s = (Inr (), s')"
  by (simp add: sto_Delete_def)

end
