(* ===== verification/AI_Adapters.thy ===== *)
theory AI_Adapters
  imports AI Kafka Object_Storage Base64
begin

text \<open>
  The adapters of \<open>internal/ai\<close> (\<open>adapter/frames\<close>, \<open>adapter/mock\<close>, \<open>adapter/openai\<close>, \<open>adapter/kafka\<close>), the
  media consumer's own part (\<open>internal/media/adapter/kafka\<close>) and the ffmpeg extractor.

  Parameters are the HTTP client, \<open>http.NewRequestWithContext\<close>'s verdict on a URL, the JSON of requests and
  answers, and the programs the extractor runs. Lengths of slices are \<open>int\<close>: two of them never reach \<open>2 ^ 63\<close>.
\<close>

section \<open>Frame reader\<close>

record bounded_buffer =
  bb_buf :: bytes
  bb_max :: int

definition bounded_Write :: "bytes \<Rightarrow> (bounded_buffer, int) op" where
  "bounded_Write p b =
     (if int (length (bb_buf b)) + int (length p) > bb_max b then (Inl ErrFrameTooLarge, b)
      else (Inr (int (length p)), b\<lparr>bb_buf := bb_buf b @ p\<rparr>))"

record 's frame_objects =
  fo_Stat :: "string \<Rightarrow> ('s, object_meta) op"
  fo_Download :: "string \<Rightarrow> (bytes \<Rightarrow> (bounded_buffer, int) op) \<Rightarrow> (bounded_buffer \<times> 's, unit) op"

definition accepted_media_type :: "string \<Rightarrow> bool" where
  "accepted_media_type t \<longleftrightarrow> t = ''image/jpeg'' \<or> t = ''image/png'' \<or> t = ''image/webp''"

definition media_type_of :: "'z golib_scheme \<Rightarrow> string \<Rightarrow> string" where
  "media_type_of L ct = to_lower L (trim_space (takeWhile (\<lambda>c. c \<noteq> CHR '';'') ct))"

text \<open>The download into a fresh buffer, and the frame made of it.\<close>

definition download_frame :: "'s frame_objects \<Rightarrow> string \<Rightarrow> string \<Rightarrow> int \<Rightarrow> ('s, frame_input) op" where
  "download_frame B key mediaType maxBytes s =
     (case fo_Download B key bounded_Write (\<lparr>bb_buf = [], bb_max = maxBytes\<rparr>, s) of
        (Inl e, (_, s')) \<Rightarrow> (Inl (ErrWrap ''download frame: '' e), s')
      | (Inr _, (dst, s')) \<Rightarrow>
          (if bb_buf dst = [] then Inl ErrEmptyFrame
           else Inr \<lparr>fi_StorageKey = key, fi_MediaType = mediaType, fi_Data = bb_buf dst\<rparr>, s'))"

text \<open>\<open>ReadFrame\<close>, from the object's metadata on.\<close>

definition stated_frame ::
    "'z golib_scheme \<Rightarrow> (string \<Rightarrow> string) \<Rightarrow> 's frame_objects \<Rightarrow> string \<Rightarrow> int \<Rightarrow> object_meta \<Rightarrow> ('s, frame_input) op" where
  "stated_frame L quote B key maxBytes meta =
     (if om_Size meta \<le> 0 then fail ErrEmptyFrame
      else if om_Size meta > maxBytes then
        fail (ErrSuffix ErrFrameTooLarge ('': size='' @ show_int (om_Size meta) @ '' limit='' @ show_int maxBytes))
      else let mediaType = media_type_of L (om_ContentType meta)
           in if \<not> accepted_media_type mediaType then
                fail (ErrSuffix ErrUnsupportedMediaType ('': '' @ quote (om_ContentType meta)))
              else download_frame B key mediaType maxBytes)"

definition ReadFrame ::
    "'z golib_scheme \<Rightarrow> (string \<Rightarrow> string) \<Rightarrow> 's frame_objects option \<Rightarrow> string \<Rightarrow> int \<Rightarrow> ('s, frame_input) op" where
  "ReadFrame L quote objects key maxBytes =
     (case objects of
        None \<Rightarrow> fail (ErrOther ''frame object store is required'')
      | Some B \<Rightarrow>
          if maxBytes \<le> 0 then fail (ErrOther ''frame byte limit must be positive'')
          else andthen (map_err (ErrWrap ''stat frame: '') (fo_Stat B key)) (stated_frame L quote B key maxBytes))"

text \<open>
  The interface the reader needs: a download acts on the writer's state only by writing to it. The object
  storage has it, whatever its client does.
\<close>

locale writing_download =
  fixes download :: "string \<Rightarrow> (bytes \<Rightarrow> ('b, int) op) \<Rightarrow> ('b \<times> 's, unit) op"
  assumes only_writes: "(\<And>p b. Q b \<Longrightarrow> Q (snd (wr p b))) \<Longrightarrow> Q b \<Longrightarrow> Q (fst (snd (download key wr (b, s))))"
begin

lemma keeps_writers_invariant:
  assumes "download key wr (b, s) = (r, (b', s'))" "\<And>p b. Q b \<Longrightarrow> Q (snd (wr p b))" "Q b"
  shows "Q b'"
  using only_writes [of Q wr b key s] assms by simp

end

interpretation storage_download: writing_download "sto_Download S" for S :: "'s storage"
proof
  fix Q :: "'b \<Rightarrow> bool" and wr :: "bytes \<Rightarrow> ('b, int) op" and b :: 'b and key s
  assume "\<And>p b. Q b \<Longrightarrow> Q (snd (wr p b))" "Q b"
  then show "Q (fst (snd (sto_Download S key wr (b, s))))"
    using io_copy_keeps [of Q wr b]
    by (auto simp: sto_Download_def Let_def split: sum.splits prod.splits) (metis snd_conv)
qed

definition storage_frames :: "'s storage \<Rightarrow> 's frame_objects" where
  "storage_frames S = \<lparr>fo_Stat = sto_Stat S, fo_Download = sto_Download S\<rparr>"

definition frame_ok :: "int \<Rightarrow> frame_input \<Rightarrow> bool" where
  "frame_ok n f \<longleftrightarrow> fi_Data f \<noteq> [] \<and> int (length (fi_Data f)) \<le> n \<and> accepted_media_type (fi_MediaType f)"

lemma download_frame_InrE:
  assumes "download_frame B key t n s = (Inr f, s')"
  obtains dst where "fo_Download B key bounded_Write (\<lparr>bb_buf = [], bb_max = n\<rparr>, s) = (Inr (), (dst, s'))"
    "bb_buf dst \<noteq> []" "f = \<lparr>fi_StorageKey = key, fi_MediaType = t, fi_Data = bb_buf dst\<rparr>"
  using assms unfolding download_frame_def by (auto split: sum.splits prod.splits if_splits)

lemma download_frame_ok:
  assumes "writing_download (fo_Download B :: _ \<Rightarrow> _ \<Rightarrow> (bounded_buffer \<times> 's, unit) op)"
    and "download_frame B key t n s = (Inr f, s')" "0 \<le> n" "accepted_media_type t"
  shows "frame_ok n f \<and> fi_StorageKey f = key"
proof -
  obtain dst where d: "fo_Download B key bounded_Write (\<lparr>bb_buf = [], bb_max = n\<rparr>, s) = (Inr (), (dst, s'))"
    and f: "bb_buf dst \<noteq> []" "f = \<lparr>fi_StorageKey = key, fi_MediaType = t, fi_Data = bb_buf dst\<rparr>"
    using download_frame_InrE [OF assms(2)] by blast
  have "int (length (bb_buf dst)) \<le> bb_max dst \<and> bb_max dst = n"
    by (rule writing_download.keeps_writers_invariant [OF assms(1) d, where Q = "\<lambda>b. int (length (bb_buf b)) \<le> bb_max b \<and> bb_max b = n"])
      (use assms(3) in \<open>auto simp: bounded_Write_def\<close>)
  then show ?thesis using f assms(4) by (simp add: frame_ok_def)
qed

lemma ReadFrame_download:
  assumes "ReadFrame L q (Some B) key n s = (Inr f, s')"
  obtains t s1 where "0 < n" "accepted_media_type t" "download_frame B key t n s1 = (Inr f, s')"
proof -
  from assms have n: "0 < n" by (simp add: ReadFrame_def split: if_splits)
  with assms obtain m s1 where "stated_frame L q B key n m s1 = (Inr f, s')"
    unfolding ReadFrame_def by (auto elim!: andthen_InrE)
  then show ?thesis using that n by (auto simp: stated_frame_def Let_def split: if_splits)
qed

lemma ReadFrame_ok:
  assumes "writing_download (fo_Download B :: _ \<Rightarrow> _ \<Rightarrow> (bounded_buffer \<times> 's, unit) op)"
    and "ReadFrame L q (Some B) key n s = (Inr f, s')"
  shows "frame_ok n f \<and> fi_StorageKey f = key"
proof -
  obtain t s1 where "0 < n" "accepted_media_type t" "download_frame B key t n s1 = (Inr f, s')"
    using ReadFrame_download [OF assms(2)] by blast
  then show ?thesis using download_frame_ok [OF assms(1)] by simp
qed

text \<open>From the object storage, the data are the object's bytes, all of them.\<close>

lemma sto_Download_appends:
  assumes "sto_Download S key bounded_Write (b, s) = (Inr (), (b', s'))"
  shows "\<exists>ps. mn_GetObject (sto_client S) (sto_bucket S) key s = (Inr (ps, None), s') \<and> bb_buf b' = bb_buf b @ concat ps"
proof -
  from assms obtain ps e where g: "mn_GetObject (sto_client S) (sto_bucket S) key s = (Inr (ps, e), s')"
    and c: "io_copy bounded_Write ps e b = (Inr (), b')"
    unfolding sto_Download_def by (auto simp: Let_def split: sum.splits prod.splits)
  have "bb_buf b2 = bb_buf b1 @ p" if "bounded_Write p b1 = (Inr n, b2)" for p b1 n b2
    using that by (auto simp: bounded_Write_def split: if_splits)
  then have "e = None \<and> bb_buf b' = bb_buf b @ concat ps" by (rule io_copy_appends [OF _ c])
  then show ?thesis using g by simp
qed

definition read_from :: "'s storage \<Rightarrow> frame_input \<Rightarrow> bool" where
  "read_from S f \<longleftrightarrow> (\<exists>s ps s'. mn_GetObject (sto_client S) (sto_bucket S) (fi_StorageKey f) s = (Inr (ps, None), s')
     \<and> fi_Data f = concat ps)"

lemma ReadFrame_reads:
  assumes "ReadFrame L q (Some (storage_frames S)) key n s = (Inr f, s')"
  shows "read_from S f \<and> frame_ok n f \<and> fi_StorageKey f = key"
proof -
  have ok: "frame_ok n f \<and> fi_StorageKey f = key"
    by (rule ReadFrame_ok [OF _ assms]) (simp add: storage_frames_def storage_download.writing_download_axioms)
  obtain t s1 where "0 < n" "accepted_media_type t" and d: "download_frame (storage_frames S) key t n s1 = (Inr f, s')"
    using ReadFrame_download [OF assms] by blast
  obtain dst where w: "fo_Download (storage_frames S) key bounded_Write (\<lparr>bb_buf = [], bb_max = n\<rparr>, s1) = (Inr (), (dst, s'))"
    and f: "f = \<lparr>fi_StorageKey = key, fi_MediaType = t, fi_Data = bb_buf dst\<rparr>"
    using download_frame_InrE [OF d] by metis
  obtain ps where "mn_GetObject (sto_client S) (sto_bucket S) key s1 = (Inr (ps, None), s')" "bb_buf dst = concat ps"
    using sto_Download_appends [of S key "\<lparr>bb_buf = [], bb_max = n\<rparr>" s1 dst s'] w by (auto simp: storage_frames_def)
  then show ?thesis using f ok unfolding read_from_def by auto
qed

section \<open>Mock analyzer\<close>

definition mock_Analyze :: "analysis_input \<Rightarrow> ('s, analysis_result) op" where
  "mock_Analyze inp = ret
     \<lparr>res_Title = ''UI issue reproduced from recording'',
      res_Summary = ''Mock analysis of recording '' @ ai_RecordingID inp @ '' using '' @ show_nat (length (ai_FrameKeys inp))
        @ '' frame(s). The user encountered unexpected behavior while interacting with the app.'',
      res_Steps = [''Open the application and navigate to the affected screen'',
        ''Perform the same actions shown in the recording'',
        ''Observe the unexpected result compared to the expected behavior''],
      res_Provider = ''mock'', res_Model = ''mock-v1''\<rparr>"

section \<open>OpenAI analyzer\<close>

record openai_config =
  oa_BaseURL :: string
  oa_APIKey :: string
  oa_Model :: string
  oa_Timeout :: duration

text \<open>\<open>New\<close>'s defaults.\<close>

definition openai_New :: "openai_config \<Rightarrow> openai_config" where
  "openai_New cfg =
     \<lparr>oa_BaseURL = (if oa_BaseURL cfg = [] then ''https://api.openai.com/v1'' else oa_BaseURL cfg),
      oa_APIKey = oa_APIKey cfg,
      oa_Model = (if oa_Model cfg = [] then ''gpt-4o-mini'' else oa_Model cfg),
      oa_Timeout = (if oa_Timeout cfg \<le> 0 then 60 * second else oa_Timeout cfg)\<rparr>"

record image_content =
  ic_URL :: string
  ic_Detail :: string

record content_part =
  cp_Type :: string
  cp_Text :: string
  cp_ImageURL :: "image_content option"

datatype message_content = TextContent string | PartsContent "content_part list"

record chat_req =
  cq_Model :: string
  cq_Messages :: "(string \<times> message_content) list"
  cq_ResponseFormat :: "string option"

text \<open>The contents of the choices, and the message of the error when there is one.\<close>

record chat_resp =
  cr_Choices :: "string list"
  cr_Error :: "string option"

record llm_json =
  lj_Title :: string
  lj_Summary :: string
  lj_Steps :: "string list"

definition data_url :: "frame_input \<Rightarrow> string" where
  "data_url f = ''data:'' @ fi_MediaType f @ '';base64,'' @ b64_encode_padded (fi_Data f)"

definition frame_parts :: "nat \<Rightarrow> nat \<Rightarrow> frame_input \<Rightarrow> content_part list" where
  "frame_parts n i f =
     [\<lparr>cp_Type = ''text'',
       cp_Text = ''Frame '' @ show_nat (i + 1) @ '' of '' @ show_nat n @ '' ('' @ fi_StorageKey f @ '' in chronological order):'',
       cp_ImageURL = None\<rparr>,
      \<lparr>cp_Type = ''image_url'', cp_Text = [], cp_ImageURL = Some \<lparr>ic_URL = data_url f, ic_Detail = ''high''\<rparr>\<rparr>]"

text \<open>The loop of \<open>buildContent\<close> from the frame at \<open>i\<close> on.\<close>

fun build_frames :: "(string \<Rightarrow> string) \<Rightarrow> nat \<Rightarrow> nat \<Rightarrow> frame_input list \<Rightarrow> err + content_part list" where
  "build_frames quote n i [] = Inr []"
| "build_frames quote n i (f # fs) =
     (if fi_Data f = [] then Inl (ErrOther (''frame '' @ show_nat i @ '' is empty''))
      else if \<not> accepted_media_type (fi_MediaType f) then
        Inl (ErrOther (''frame '' @ show_nat i @ '' has unsupported media type '' @ quote (fi_MediaType f)))
      else case build_frames quote n (i + 1) fs of Inl e \<Rightarrow> Inl e | Inr ps \<Rightarrow> Inr (frame_parts n i f @ ps))"

definition buildContent :: "(string \<Rightarrow> string) \<Rightarrow> analysis_input \<Rightarrow> err + content_part list" where
  "buildContent quote inp =
     (if ai_Frames inp = [] then Inl (ErrOther ''openai visual analysis requires at least one loaded frame'')
      else build_frames quote (length (ai_Frames inp)) 0 (ai_Frames inp))"

definition text_lines :: "string list \<Rightarrow> string" where
  "text_lines ls = concat (map (\<lambda>l. l @ [CHR 0x0A]) ls)"

definition buildPrompt :: "analysis_input \<Rightarrow> string" where \<open>
  buildPrompt inp =
     text_lines
       [''Create a bug report from the attached chronological screen-recording frames.'',
        ''recording_id: '' @ ai_RecordingID inp,
        ''project_id: '' @ ai_ProjectID inp,
        ''prompt_version: '' @ ai_PromptVersion inp,
        ''frame_count: '' @ show_nat (length (ai_Frames inp)),
        ''client_metadata_json: '' @ (if ai_MetadataJSON inp = [] then ''{}'' else ai_MetadataJSON inp),
        [],
        ''Ground every claim in visible frame evidence or supplied metadata. Do not invent'',
        ''clicks, text, errors, expected behavior, or intermediate actions that are not'',
        ''supported by the inputs.'',
        [],
        ''Quote decisive visible error messages, status text, paths, identifiers, and'',
        ''numeric values verbatim. Reproduction steps may include only actions directly'',
        ''visible in the frames. When the triggering action is not visible, state'',
        ''"Trigger unknown from provided frames" and describe only what can be observed.'',
        []]
     @ ''Return JSON: {"title":"...","summary":"...","steps":["..."]}''\<close>

definition truncate_text :: "string \<Rightarrow> nat \<Rightarrow> string" where
  "truncate_text s n = (if length s \<le> n then s else take n s @ ''...'')"

text \<open>
  What the analyzer calls: \<open>json.Marshal\<close> and \<open>json.Unmarshal\<close> on its types, the verdict of
  \<open>http.NewRequestWithContext\<close> on the URL, and the client's \<open>Do\<close> with the status and the bytes that could be read.
\<close>

record 's openai_deps =
  od_marshal :: "chat_req \<Rightarrow> err + bytes"
  od_resp :: "bytes \<Rightarrow> err + chat_resp"
  od_llm :: "bytes \<Rightarrow> err + llm_json"
  od_bad_url :: "string \<Rightarrow> err option"
  od_Do :: "string \<Rightarrow> (string \<times> string) list \<Rightarrow> bytes \<Rightarrow> ('s, int \<times> bytes) op"
  od_quote :: "string \<Rightarrow> string"

definition openai_request :: "openai_config \<Rightarrow> analysis_input \<Rightarrow> content_part list \<Rightarrow> chat_req" where
  "openai_request cfg inp content =
     \<lparr>cq_Model = oa_Model cfg,
      cq_Messages =
        [(''system'', TextContent ''You are a QA engineer writing concise bug reports. Respond with JSON only.''),
         (''user'', PartsContent (\<lparr>cp_Type = ''text'', cp_Text = buildPrompt inp, cp_ImageURL = None\<rparr> # content))],
      cq_ResponseFormat = Some ''json_object''\<rparr>"

text \<open>From the answer's status and body to the result.\<close>

definition openai_result :: "'s openai_deps \<Rightarrow> openai_config \<Rightarrow> int \<Rightarrow> bytes \<Rightarrow> err + analysis_result" where
  "openai_result D cfg status raw =
     (if status \<ge> 300 then Inl (ErrOther (''openai status '' @ show_int status @ '': '' @ truncate_text raw 300))
      else case od_resp D raw of
        Inl e \<Rightarrow> Inl e
      | Inr parsed \<Rightarrow>
          (case cr_Error parsed of
             Some m \<Rightarrow> Inl (ErrOther (''openai: '' @ m))
           | None \<Rightarrow>
               (case cr_Choices parsed of
                  [] \<Rightarrow> Inl (ErrOther ''openai: empty choices'')
                | c # _ \<Rightarrow>
                    (case od_llm D c of
                       Inl e \<Rightarrow> Inl (ErrWrap ''parse llm json: '' e)
                     | Inr out \<Rightarrow>
                         Inr \<lparr>res_Title = lj_Title out, res_Summary = lj_Summary out, res_Steps = lj_Steps out,
                              res_Provider = ''openai'', res_Model = oa_Model cfg\<rparr>))))"

definition openai_Analyze :: "'s openai_deps \<Rightarrow> openai_config \<Rightarrow> analysis_input \<Rightarrow> ('s, analysis_result) op" where
  "openai_Analyze D cfg inp =
     (if oa_APIKey cfg = [] then fail (ErrOther ''AI_API_KEY is required for openai provider'')
      else andthen (lift_sum (buildContent (od_quote D) inp)) (\<lambda>content.
           andthen (map_err (ErrWrap ''encode openai request: '') (lift_sum (od_marshal D (openai_request cfg inp content)))) (\<lambda>body.
           let url = trim_right_byte (CHR ''/'') (oa_BaseURL cfg) @ ''/chat/completions''
           in case od_bad_url D url of
                Some e \<Rightarrow> fail e
              | None \<Rightarrow>
                  andthen (od_Do D url [(''Authorization'', ''Bearer '' @ oa_APIKey cfg), (''Content-Type'', ''application/json'')] body)
                    (\<lambda>(status, raw). lift_sum (openai_result D cfg status raw)))))"

section \<open>Consumers\<close>

datatype start_offset = FirstOffset | LastOffset

record reader_config =
  rk_Brokers :: "string list"
  rk_GroupID :: string
  rk_Topic :: string
  rk_MinBytes :: int
  rk_MaxBytes :: int
  rk_MaxWait :: duration
  rk_CommitInterval :: duration
  rk_StartOffset :: start_offset
  rk_ClientID :: string

text \<open>The readers of the three consumers: a group each, and no commit but those the code asks for.\<close>

definition group_reader :: "kafka_config \<Rightarrow> string \<Rightarrow> string \<Rightarrow> reader_config" where
  "group_reader cfg gid topic =
     \<lparr>rk_Brokers = kc_Brokers cfg, rk_GroupID = gid, rk_Topic = topic, rk_MinBytes = 1, rk_MaxBytes = 10000000,
      rk_MaxWait = second, rk_CommitInterval = 0, rk_StartOffset = FirstOffset, rk_ClientID = dialer_client_id (kc_ClientID cfg)\<rparr>"

text \<open>
  \<open>NewConsumer\<close>; \<open>connect\<close> is \<open>kafkago.NewReader\<close>, the fetch and the commit of a reader, and \<open>tracker\<close> the counter
  \<open>NewAttemptTracker\<close> gives when there is none.
\<close>

definition new_consumer ::
    "(reader_config \<Rightarrow> ('w, kafka_message) op \<times> (kafka_message \<Rightarrow> ('w, unit) op)) \<Rightarrow> reader_config \<Rightarrow> kafka_retry
       \<Rightarrow> (kafka_message \<Rightarrow> ('w, unit) op) option \<Rightarrow> 'w attempt_counter option \<Rightarrow> 'w attempt_counter \<Rightarrow> 'w runtime \<Rightarrow> 'w consumer" where
  "new_consumer connect cfg retry pub attempts tracker T =
     (let (fetch, commit) = connect cfg
      in \<lparr>cs_fetch = fetch, cs_commit = commit, cs_pub = pub, cs_retry = retry,
          cs_attempts = (case attempts of None \<Rightarrow> tracker | Some a \<Rightarrow> a), cs_rt = T\<rparr>)"

definition media_reader :: "kafka_config \<Rightarrow> reader_config" where
  "media_reader cfg = group_reader cfg ''bugsathi-media'' TopicRecordingUploaded"

definition ai_reader :: "kafka_config \<Rightarrow> reader_config" where
  "ai_reader cfg = group_reader cfg ''bugsathi-ai'' TopicFramesExtracted"

definition started_reader :: "kafka_config \<Rightarrow> reader_config" where
  "started_reader cfg = group_reader cfg ''bugsathi-ai-started'' TopicAnalysisStarted"

text \<open>What the two pipeline consumers put into the shared loop: \<open>dec\<close> is \<open>json.Unmarshal\<close> on the event.\<close>

definition media_pipeline ::
    "'z golib_scheme \<Rightarrow> (frames_event \<Rightarrow> err + bytes) \<Rightarrow> (bytes \<Rightarrow> err + uploaded_event) \<Rightarrow> 'w media_service \<Rightarrow> 'w job_env
       \<Rightarrow> ('w, uploaded_event) pipeline" where
  "media_pipeline L enc dec S E =
     \<lparr>pl_decode = dec, pl_recording = ue_RecordingID, pl_corr = ue_CorrelationID,
      pl_set_corr = (\<lambda>c e. e\<lparr>ue_CorrelationID := c\<rparr>), pl_handle = (\<lambda>_. ms_HandleUploaded L enc S E),
      pl_skip = is_claim_conflict\<rparr>"

definition ai_pipeline ::
    "'z golib_scheme \<Rightarrow> ai_codec \<Rightarrow> (bytes \<Rightarrow> err + frames_event) \<Rightarrow> 'w ai_service \<Rightarrow> 'w ai_env \<Rightarrow> ('w, frames_event) pipeline" where
  "ai_pipeline L J dec S E =
     \<lparr>pl_decode = dec, pl_recording = fe_RecordingID, pl_corr = fe_CorrelationID,
      pl_set_corr = (\<lambda>c e. e\<lparr>fe_CorrelationID := c\<rparr>), pl_handle = (\<lambda>_. ai_HandleFramesExtracted L J S E),
      pl_skip = is_in_flight\<rparr>"

definition claim_skip_reason :: "err \<Rightarrow> string" where
  "claim_skip_reason e = (if errors_is e ErrClaimLost then ''lost'' else ''held'')"

text \<open>One turn of the AI consumer's \<open>Run\<close>.\<close>

definition ai_consumer_turn ::
    "nat \<Rightarrow> (dead_letter \<Rightarrow> bytes) \<Rightarrow> 'w consumer \<Rightarrow> 'z golib_scheme \<Rightarrow> ai_codec \<Rightarrow> (bytes \<Rightarrow> err + frames_event)
       \<Rightarrow> 'w ai_service \<Rightarrow> 'w ai_env \<Rightarrow> 'w \<Rightarrow> (outcome \<times> 'w) option" where
  "ai_consumer_turn f text_of C L J dec S E = consumer_turn f text_of C (ai_pipeline L J dec S E)"

text \<open>
  \<open>StartedConsumer\<close>: it only observes. A message that does not decode is committed too, and the result of
  that commit is dropped; \<open>sn_metrics\<close> is \<open>IncAnalysisStarted\<close>, when there are metrics.
\<close>

record 'w started_consumer =
  sn_fetch :: "('w, kafka_message) op"
  sn_commit :: "kafka_message \<Rightarrow> ('w, unit) op"
  sn_retry :: kafka_retry
  sn_rt :: "'w runtime"
  sn_metrics :: "('w \<Rightarrow> 'w) option"

definition started_turn ::
    "nat \<Rightarrow> (bytes \<Rightarrow> err + started_event) \<Rightarrow> 'w started_consumer \<Rightarrow> 'w \<Rightarrow> (outcome \<times> 'w) option" where
  "started_turn f dec C w =
     (case fetch_with_retry f (sn_rt C) (sn_fetch C) (sn_retry C) 0 w of
        None \<Rightarrow> None
      | Some (Inl e, w1) \<Rightarrow> Some (Stop (Some e), w1)
      | Some (Inr msg, w1) \<Rightarrow>
          (case dec (km_Value msg) of
             Inl e \<Rightarrow> Some (Continue, snd (sn_commit C msg w1))
           | Inr evt \<Rightarrow>
               (case sn_commit C msg (case sn_metrics C of None \<Rightarrow> w1 | Some inc \<Rightarrow> inc w1) of
                  (Inl e, w2) \<Rightarrow> Some (Stop (Some e), w2)
                | (Inr _, w2) \<Rightarrow> Some (Continue, w2))))"

fun started_run ::
    "nat \<Rightarrow> nat \<Rightarrow> (bytes \<Rightarrow> err + started_event) \<Rightarrow> 'w started_consumer \<Rightarrow> 'w \<Rightarrow> (err option \<times> 'w) option" where
  "started_run 0 f dec C w = None"
| "started_run (Suc k) f dec C w =
     (case started_turn f dec C w of
        None \<Rightarrow> None
      | Some (Stop r, w') \<Rightarrow> Some (r, w')
      | Some (Continue, w') \<Rightarrow> started_run k f dec C w')"

section \<open>What the model sees\<close>

lemma b64_char_no_pad: "v < 64 \<Longrightarrow> b64_char url v \<noteq> CHR ''=''"
proof -
  assume "v < 64"
  then have "(of_char (b64_char url v) :: nat) \<noteq> of_char (CHR ''='')" by (auto simp: b64_char_def)
  then show ?thesis by metis
qed

lemma b64_encode_no_pad: "c \<in> set (b64_encode False s) \<Longrightarrow> c \<noteq> CHR ''=''"
  using to_sextets_range [of "map of_char s :: nat list"] nat_of_char_less_256 b64_char_no_pad
  by (fastforce simp: b64_encode_def)

lemma dropWhile_pad: "\<forall>c\<in>set s. c \<noteq> x \<Longrightarrow> dropWhile (\<lambda>c. c = x) (replicate n x @ s) = s"
  by (induction n) (cases s, auto)

text \<open>Without its padding, the encoded text is read back as the data.\<close>

lemma b64_padded_roundtrip: "b64_decode False (trim_right_byte (CHR ''='') (b64_encode_padded s)) = Some s"
proof -
  have "dropWhile (\<lambda>c. c = CHR ''='') (rev (b64_encode_padded s)) = rev (b64_encode False s)"
    unfolding b64_encode_padded_def rev_append rev_replicate
    by (rule dropWhile_pad) (use b64_encode_no_pad [of _ s] in auto)
  then show ?thesis by (simp add: trim_right_byte_def b64_roundtrip)
qed

text \<open>The media type and the bytes a data URL carries.\<close>

definition shows_frame :: "string \<Rightarrow> frame_input \<Rightarrow> bool" where
  "shows_frame url f \<longleftrightarrow> (\<exists>b. url = ''data:'' @ fi_MediaType f @ '';base64,'' @ b
     \<and> b64_decode False (trim_right_byte (CHR ''='') b) = Some (fi_Data f))"

lemma data_url_shows: "shows_frame (data_url f) f"
  by (simp add: shows_frame_def data_url_def b64_padded_roundtrip)

definition image_urls :: "content_part list \<Rightarrow> string list" where
  "image_urls ps = map ic_URL (List.map_filter cp_ImageURL ps)"

lemma build_frames_ok:
  "\<forall>f\<in>set fs. fi_Data f \<noteq> [] \<and> accepted_media_type (fi_MediaType f) \<Longrightarrow>
     \<exists>ps. build_frames q n i fs = Inr ps \<and> image_urls ps = map data_url fs \<and> length ps = 2 * length fs"
proof (induction fs arbitrary: i)
  case (Cons f fs)
  then obtain ps where "build_frames q n (Suc i) fs = Inr ps" "image_urls ps = map data_url fs" "length ps = 2 * length fs"
    by fastforce
  then show ?case using Cons.prems by (auto simp: frame_parts_def image_urls_def map_filter_simps)
qed (simp add: image_urls_def map_filter_simps)

lemma load_each_read:
  assumes "\<And>key s f s'. rd key n s = (Inr f, s') \<Longrightarrow> P key f"
  shows "load_each J E rd n keys s = (Inr fs, s') \<Longrightarrow> list_all2 P keys fs"
proof (induction keys arbitrary: s s' fs)
  case (Cons key keys)
  then obtain f s1 fs' s2 where f: "map_err (ErrWrap (''load frame '' @ cd_quote J key @ '': '')) (while_working E (rd key n)) s = (Inr f, s1)"
    and fs': "load_each J E rd n keys s1 = (Inr fs', s2)" and "fs = f # fs'"
    by (auto elim!: andthen_InrE)
  moreover have "P key f" using map_err_InrD [OF f] assms unfolding while_working_def by blast
  ultimately show ?case using Cons.IH [OF fs'] by simp
qed simp

text \<open>
  What the model sees is what was stored. When the service loads key frames through the object
  storage, every frame is the whole object under its key, not empty and at most \<open>frameBytes\<close> long, and of an
  accepted type; the analyzer then refuses none of them, and sends, in the order of the keys, one data URL
  per frame that decodes to that frame's type and bytes.
\<close>

lemma model_sees_the_stored_frames:
  assumes "as_frames S = Some (ReadFrame L q (Some (storage_frames M)))"
    and "ai_loadFrames J S E keys s = (Inr fs, s')" "keys \<noteq> []" "ai_Frames inp = fs"
  shows "list_all2 (\<lambda>key f. fi_StorageKey f = key \<and> read_from M f \<and> frame_ok (as_frameBytes S) f) keys fs
    \<and> (\<exists>ps. buildContent q' inp = Inr ps \<and> length ps = 2 * length keys
          \<and> list_all2 shows_frame (image_urls ps) fs)"
proof -
  have all: "list_all2 (\<lambda>key f. fi_StorageKey f = key \<and> read_from M f \<and> frame_ok (as_frameBytes S) f) keys fs"
    using assms(1,2) by (intro load_each_read [of "ReadFrame L q (Some (storage_frames M))" "as_frameBytes S"])
      (auto simp: ai_loadFrames_def dest: ReadFrame_reads)
  then have len: "length fs = length keys" and ok: "\<forall>f\<in>set fs. fi_Data f \<noteq> [] \<and> accepted_media_type (fi_MediaType f)"
    by (auto simp: list_all2_conv_all_nth in_set_conv_nth frame_ok_def)
  obtain ps where "build_frames q' (length fs) 0 fs = Inr ps" "image_urls ps = map data_url fs" "length ps = 2 * length fs"
    using build_frames_ok [OF ok] by blast
  moreover have "fs \<noteq> []" using len assms(3) by auto
  ultimately show ?thesis using all len assms(4)
    by (auto simp: buildContent_def list_all2_map1 data_url_shows intro!: list.rel_refl)
qed

end
