(* ===== verification/Platform.thy ===== *)
theory Platform
  imports Config "HOL-Library.List_Lexorder" "HOL-Library.Char_ord"
begin

text \<open>
  \<open>internal/platform\<close>: migrations (\<open>migrate\<close>), the Postgres pool (\<open>db\<close>), the Redis client (\<open>redis\<close>) and the
  creation of topics (\<open>kafka/publisher.go\<close>). Drivers are records of the calls the code makes.

  A migration runs against a schema \<open>'d\<close>, which \<open>exec\<close> says how SQL changes; any statement may fail (\<open>mg_faults\<close>),
  and what was done in a transaction that did not commit is undone.
\<close>

section \<open>Migrations\<close>

record 'd mig =
  mg_versions :: "string list"
  mg_schema :: 'd
  mg_step :: nat
  mg_faults :: "nat \<Rightarrow> string option"

definition mig_call :: "('d mig \<Rightarrow> err + 'a \<times> 'd mig) \<Rightarrow> ('d mig, 'a) op" where
  "mig_call f s =
     (let s1 = s\<lparr>mg_step := Suc (mg_step s)\<rparr>
      in case mg_faults s (mg_step s) of
           Some m \<Rightarrow> (Inl (ErrOther m), s1)
         | None \<Rightarrow> (case f s1 of Inl e \<Rightarrow> (Inl e, s1) | Inr (a, s2) \<Rightarrow> (Inr a, s2)))"

text \<open>\<open>strings.Index\<close>.\<close>

fun str_index :: "string \<Rightarrow> string \<Rightarrow> nat option" where
  "str_index [] t = (if t = [] then Some 0 else None)"
| "str_index (c # cs) t = (if has_prefix (c # cs) t then Some 0 else map_option Suc (str_index cs t))"

definition extractUp :: "string \<Rightarrow> string" where
  "extractUp sql =
     (let markerUp = ''-- +goose Up''; markerDown = ''-- +goose Down''
      in case str_index sql markerUp of
           None \<Rightarrow> sql
         | Some i \<Rightarrow>
             (let rest = drop (i + length markerUp) sql
              in case str_index rest markerDown of
                   None \<Rightarrow> trim_space rest
                 | Some j \<Rightarrow> trim_space (take j rest)))"

text \<open>Begin, the section, the version, commit; every error rolls back.\<close>

definition apply_migration :: "(string \<Rightarrow> 'd \<Rightarrow> err + 'd) \<Rightarrow> string \<Rightarrow> string \<Rightarrow> ('d mig, unit) op" where
  "apply_migration exec name up =
     andthen (mig_call (\<lambda>s. Inr ((), s))) (\<lambda>_ s.
       case andthen (map_err (ErrWrap (''migration '' @ name @ '': ''))
                (mig_call (\<lambda>s. case exec up (mg_schema s) of Inl e \<Rightarrow> Inl e | Inr d \<Rightarrow> Inr ((), s\<lparr>mg_schema := d\<rparr>)))) (\<lambda>_.
              andthen (mig_call (\<lambda>s. if name \<in> set (mg_versions s) then Inl (ErrOther ''23505'')
                                     else Inr ((), s\<lparr>mg_versions := mg_versions s @ [name]\<rparr>))) (\<lambda>_.
              mig_call (\<lambda>s. Inr ((), s)))) s of
         (Inl e, s') \<Rightarrow> (Inl e, s'\<lparr>mg_schema := mg_schema s, mg_versions := mg_versions s\<rparr>)
       | (Inr _, s') \<Rightarrow> (Inr (), s'))"

definition migrate_file ::
    "(string \<Rightarrow> 'd \<Rightarrow> err + 'd) \<Rightarrow> (string \<Rightarrow> err + bytes) \<Rightarrow> string \<Rightarrow> ('d mig, unit) op" where
  "migrate_file exec read name =
     andthen (mig_call (\<lambda>s. Inr (name \<in> set (mg_versions s), s))) (\<lambda>present.
     if present then ret ()
     else andthen (lift_sum (read name)) (\<lambda>body.
          let upSQL = extractUp body
          in if trim_space upSQL = [] then fail (ErrOther (''migration '' @ name @ '': empty up section''))
             else apply_migration exec name upSQL))"

fun migrate_files ::
    "(string \<Rightarrow> 'd \<Rightarrow> err + 'd) \<Rightarrow> (string \<Rightarrow> err + bytes) \<Rightarrow> string list \<Rightarrow> ('d mig, unit) op" where
  "migrate_files exec read [] = ret ()"
| "migrate_files exec read (name # names) = andthen (migrate_file exec read name) (\<lambda>_. migrate_files exec read names)"

definition migration_names :: "(string \<times> bool) list \<Rightarrow> string list" where
  "migration_names entries = sort (map fst (filter (\<lambda>(name, isDir). \<not> (isDir \<or> \<not> has_suffix name ''.sql'')) entries))"

text \<open>\<open>Up\<close>; the first statement creates \<open>schema_migrations\<close> unless it exists.\<close>

definition migrate_Up ::
    "(string \<Rightarrow> 'd \<Rightarrow> err + 'd) \<Rightarrow> err + (string \<times> bool) list \<Rightarrow> (string \<Rightarrow> err + bytes) \<Rightarrow> ('d mig, unit) op" where
  "migrate_Up exec dir read =
     andthen (mig_call (\<lambda>s. Inr ((), s))) (\<lambda>_.
     andthen (lift_sum dir) (\<lambda>entries. migrate_files exec read (migration_names entries)))"

section \<open>Connections\<close>

record pool_settings =
  ps_MaxConns :: int
  ps_MinConns :: int
  ps_MaxConnLifetime :: duration

definition pool_settings_of :: "postgres_config \<Rightarrow> pool_settings" where
  "pool_settings_of cfg =
     \<lparr>ps_MaxConns = (if pc_MaxConns cfg > 0 then pc_MaxConns cfg else 10),
      ps_MinConns = (if pc_MinConns cfg > 0 then pc_MinConns cfg else 1),
      ps_MaxConnLifetime = (if pc_MaxConnLifetime cfg > 0 then pc_MaxConnLifetime cfg else hour)\<rparr>"

record ('s, 'p) pgx_driver =
  px_ParseConfig :: "string \<Rightarrow> err option"
  px_NewWithConfig :: "string \<Rightarrow> pool_settings \<Rightarrow> ('s, 'p) op"
  px_Ping :: "'p \<Rightarrow> ('s, unit) op"
  px_Close :: "'p \<Rightarrow> 's \<Rightarrow> 's"

definition ConnectWithPool :: "('s, 'p) pgx_driver \<Rightarrow> string \<Rightarrow> postgres_config \<Rightarrow> ('s, 'p) op" where
  "ConnectWithPool X dsn cfg =
     (case px_ParseConfig X dsn of
        Some e \<Rightarrow> fail (ErrWrap ''parse dsn: '' e)
      | None \<Rightarrow>
          andthen (map_err (ErrWrap ''connect: '') (px_NewWithConfig X dsn (pool_settings_of cfg))) (\<lambda>pool s.
            case px_Ping X pool s of
              (Inl e, s') \<Rightarrow> (Inl (ErrWrap ''ping: '' e), px_Close X pool s')
            | (Inr _, s') \<Rightarrow> (Inr pool, s')))"

record ('s, 'c) redis_driver =
  rx_ParseURL :: "string \<Rightarrow> err option"
  rx_NewClient :: "string \<Rightarrow> 's \<Rightarrow> 'c \<times> 's"
  rx_Ping :: "'c \<Rightarrow> ('s, unit) op"
  rx_Close :: "'c \<Rightarrow> ('s, unit) op"

definition redis_New :: "('s, 'c) redis_driver \<Rightarrow> string \<Rightarrow> ('s, 'c) op" where
  "redis_New X url s =
     (if url = [] then (Inl (ErrOther ''redis url is empty''), s)
      else case rx_ParseURL X url of
        Some e \<Rightarrow> (Inl (ErrWrap ''redis url: '' e), s)
      | None \<Rightarrow>
          let (c, s1) = rx_NewClient X url s
          in case rx_Ping X c s1 of
               (Inl e, s2) \<Rightarrow> (Inl (ErrWrap ''redis ping: '' e), snd (rx_Close X c s2))
             | (Inr _, s2) \<Rightarrow> (Inr c, s2))"

text \<open>A client that is not there pings with an error and closes without one.\<close>

definition redis_Ping :: "('s, 'c) redis_driver \<Rightarrow> 'c option \<Rightarrow> ('s, unit) op" where
  "redis_Ping X c = (case c of None \<Rightarrow> fail (ErrOther ''redis not configured'') | Some c \<Rightarrow> rx_Ping X c)"

definition redis_Close :: "('s, 'c) redis_driver \<Rightarrow> 'c option \<Rightarrow> ('s, unit) op" where
  "redis_Close X c = (case c of None \<Rightarrow> ret () | Some c \<Rightarrow> rx_Close X c)"

section \<open>Topics\<close>

record ('s, 'c) kafka_admin =
  ka_Dial :: "string \<Rightarrow> ('s, 'c) op"
  ka_Controller :: "'c \<Rightarrow> ('s, string \<times> int) op"
  ka_CreateTopics :: "'c \<Rightarrow> string \<Rightarrow> int \<Rightarrow> int \<Rightarrow> ('s, unit) op"
  ka_Close :: "'c \<Rightarrow> 's \<Rightarrow> 's"

text \<open>\<open>defer conn.Close()\<close>.\<close>

definition closing :: "('s, 'c) kafka_admin \<Rightarrow> 'c \<Rightarrow> ('s, 'a) op \<Rightarrow> ('s, 'a) op" where
  "closing K c m s = (let (r, s') = m s in (r, ka_Close K c s'))"

definition create_topic :: "('s, 'c) kafka_admin \<Rightarrow> 'c \<Rightarrow> string \<Rightarrow> int \<Rightarrow> ('s, unit) op" where
  "create_topic K c topic partitions s =
     (case ka_CreateTopics K c topic partitions 1 s of
        (Inl e, s') \<Rightarrow> (if str_contains (err_msg e) ''already exists'' then Inr () else Inl e, s')
      | (Inr _, s') \<Rightarrow> (Inr (), s'))"

definition EnsureTopic :: "('s, 'c) kafka_admin \<Rightarrow> string list \<Rightarrow> string \<Rightarrow> int \<Rightarrow> ('s, unit) op" where
  "EnsureTopic K brokers topic partitions0 =
     (let partitions = (if partitions0 \<le> 0 then 3 else partitions0)
      in case brokers of
           [] \<Rightarrow> fail (ErrPanic ''index out of range'')
         | broker # _ \<Rightarrow>
             andthen (ka_Dial K broker) (\<lambda>conn. closing K conn
               (andthen (ka_Controller K conn) (\<lambda>(host, port).
                andthen (ka_Dial K (host @ '':'' @ show_int port)) (\<lambda>ctl. closing K ctl (create_topic K ctl topic partitions))))))"

section \<open>Migrations run once and in order\<close>

text \<open>What the files do to a schema, one after the other.\<close>

fun apply_all :: "(string \<Rightarrow> 'd \<Rightarrow> err + 'd) \<Rightarrow> (string \<Rightarrow> err + bytes) \<Rightarrow> string list \<Rightarrow> 'd \<Rightarrow> 'd option" where
  "apply_all exec read [] d = Some d"
| "apply_all exec read (name # names) d =
     (case read name of
        Inl _ \<Rightarrow> None
      | Inr body \<Rightarrow> (case exec (extractUp body) d of Inl _ \<Rightarrow> None | Inr d' \<Rightarrow> apply_all exec read names d'))"

definition mig_pending :: "'d mig \<Rightarrow> string list \<Rightarrow> string list" where
  "mig_pending s names = filter (\<lambda>n. n \<notin> set (mg_versions s)) names"

lemma mig_call_Inr:
  "mig_call f s = (Inr a, s') \<Longrightarrow> f (s\<lparr>mg_step := Suc (mg_step s)\<rparr>) = Inr (a, s')"
  by (auto simp: mig_call_def Let_def split: option.splits sum.splits)

lemma mig_call_Inl: "mig_call f s = (Inl e, s') \<Longrightarrow> s' = s\<lparr>mg_step := Suc (mg_step s)\<rparr>"
  by (auto simp: mig_call_def Let_def split: option.splits sum.splits)

lemma mig_call_read:
  "mig_call (\<lambda>s. Inr (f s, s)) s = (r, s') \<Longrightarrow> mg_versions s' = mg_versions s \<and> mg_schema s' = mg_schema s"
  by (auto simp: mig_call_def Let_def split: option.splits)

text \<open>A file is applied whole and recorded, or nothing happened.\<close>

lemma apply_migration_cases:
  assumes "apply_migration exec name up s = (r, s')"
  obtains (failed) e where "r = Inl e" "mg_versions s' = mg_versions s" "mg_schema s' = mg_schema s"
  | (applied) d where "r = Inr ()" "mg_versions s' = mg_versions s @ [name]" "exec up (mg_schema s) = Inr d" "mg_schema s' = d"
proof -
  from assms [unfolded apply_migration_def] show ?thesis
  proof (cases rule: andthen_cases)
    case (err e)
    then show ?thesis using failed mig_call_Inl [OF err(1)] by simp
  next
    case (ok a s1)
    have s1: "mg_versions s1 = mg_versions s" "mg_schema s1 = mg_schema s" using mig_call_read [OF ok(1)] by auto
    show ?thesis
    proof (cases r)
      case (Inl e)
      then show ?thesis using ok(2) s1 failed by (auto split: sum.splits prod.splits)
    next
      case (Inr u)
      then show ?thesis using ok(2) s1 applied
        by (auto split: sum.splits prod.splits if_splits elim!: andthen_InrE dest!: map_err_InrD mig_call_Inr)
    qed
  qed
qed

lemma migrate_file_cases:
  assumes "migrate_file exec read name s = (r, s')"
  obtains (unchanged) "mg_versions s' = mg_versions s" "mg_schema s' = mg_schema s" "r = Inr () \<Longrightarrow> name \<in> set (mg_versions s)"
  | (applied) "r = Inr ()" "name \<notin> set (mg_versions s)" "mg_versions s' = mg_versions s @ [name]"
      "apply_all exec read [name] (mg_schema s) = Some (mg_schema s')"
proof -
  from assms [unfolded migrate_file_def] show ?thesis
  proof (cases rule: andthen_cases)
    case (err e)
    then show ?thesis using unchanged mig_call_Inl [OF err(1)] by simp
  next
    case (ok present s1)
    have s1: "mg_versions s1 = mg_versions s" "mg_schema s1 = mg_schema s" using mig_call_read [OF ok(1)] by auto
    have p: "present \<longleftrightarrow> name \<in> set (mg_versions s)" using mig_call_Inr [OF ok(1)] by auto
    show ?thesis
    proof (cases "present \<or> isl (read name)")
      case True
      then show ?thesis using ok(2) s1 p unchanged by (auto simp: andthen_def split: sum.splits)
    next
      case False
      then obtain body where body: "read name = Inr body" "\<not> present" by (cases "read name") auto
      show ?thesis
      proof (cases "trim_space (extractUp body) = []")
        case True
        then show ?thesis using ok(2) body s1 unchanged by (auto simp: andthen_def)
      next
        case False
        then have "apply_migration exec name (extractUp body) s1 = (r, s')" using ok(2) body by (simp add: andthen_def Let_def)
        then show ?thesis
          by (cases rule: apply_migration_cases) (use s1 p body unchanged applied in auto)
      qed
    qed
  qed
qed

definition ran :: "(string \<Rightarrow> 'd \<Rightarrow> err + 'd) \<Rightarrow> (string \<Rightarrow> err + bytes) \<Rightarrow> string list \<Rightarrow> 'd mig \<Rightarrow> nat \<Rightarrow> 'd mig \<Rightarrow> bool" where
  "ran exec read names s k s' \<longleftrightarrow>
     mg_versions s' = mg_versions s @ take k (mig_pending s names)
     \<and> apply_all exec read (take k (mig_pending s names)) (mg_schema s) = Some (mg_schema s')"

lemma migrate_files_ran:
  "migrate_files exec read names s = (r, s') \<Longrightarrow> distinct names \<Longrightarrow>
     \<exists>k \<le> length (mig_pending s names). ran exec read names s k s' \<and> (r = Inr () \<longrightarrow> k = length (mig_pending s names))"
proof (induction names arbitrary: s)
  case (Cons name names)
  from Cons.prems(1) obtain r1 s1 where run1: "migrate_file exec read name s = (r1, s1)" by (metis prod.collapse)
  have rest: "migrate_files exec read names s1 = (r, s')" if "r1 = Inr ()"
    using Cons.prems(1) run1 that by (simp add: andthen_def)
  have stop: "r \<noteq> Inr () \<and> s' = s1" if "r1 \<noteq> Inr ()"
    using Cons.prems(1) run1 that by (cases r1) (auto simp: andthen_def)
  from run1 show ?case
  proof (cases rule: migrate_file_cases)
    case unchanged
    show ?thesis
    proof (cases "r1 = Inr ()")
      case True
      then have "mig_pending s (name # names) = mig_pending s1 names"
        using unchanged by (simp add: mig_pending_def)
      then show ?thesis using Cons.IH [OF rest [OF True]] Cons.prems(2) unchanged(1,2) by (simp add: ran_def)
    next
      case False
      then show ?thesis using stop unchanged by (intro exI [of _ 0]) (simp add: ran_def)
    qed
  next
    case applied
    then have p: "mig_pending s (name # names) = name # mig_pending s1 names"
      using Cons.prems(2) by (auto simp: mig_pending_def intro!: filter_cong)
    from Cons.IH [OF rest [OF applied(1)]] Cons.prems(2) obtain k where k: "k \<le> length (mig_pending s1 names)"
      "ran exec read names s1 k s'" "r = Inr () \<longrightarrow> k = length (mig_pending s1 names)" by auto
    have "ran exec read (name # names) s (Suc k) s'"
      using k(2) applied by (auto simp: ran_def p split: sum.splits)
    then show ?thesis using k p by (intro exI [of _ "Suc k"]) simp
  qed
qed (simp add: ran_def mig_pending_def)

lemma migration_names_distinct: "distinct (map fst entries) \<Longrightarrow> distinct (migration_names entries)"
  by (simp add: migration_names_def distinct_map_filter)

lemma migrate_Up_ran:
  assumes "migrate_Up exec (Inr entries) read s = (r, s')" "distinct (map fst entries)"
  shows "\<exists>k \<le> length (mig_pending s (migration_names entries)). ran exec read (migration_names entries) s k s'
    \<and> (r = Inr () \<longrightarrow> k = length (mig_pending s (migration_names entries)))"
  using assms(1) [unfolded migrate_Up_def]
proof (cases rule: andthen_cases)
  case (err e)
  then show ?thesis using mig_call_Inl [OF err(1)] by (intro exI [of _ 0]) (simp add: ran_def)
next
  case (ok u s1)
  have s1: "mg_versions s1 = mg_versions s" "mg_schema s1 = mg_schema s" using mig_call_read [OF ok(1)] by auto
  have "migrate_files exec read (migration_names entries) s1 = (r, s')" using ok(2) by (simp add: andthen_def)
  from migrate_files_ran [OF this migration_names_distinct [OF assms(2)]] show ?thesis
    by (simp add: ran_def mig_pending_def s1)
qed

lemma apply_all_append:
  "apply_all exec read (xs @ ys) d = Option.bind (apply_all exec read xs d) (apply_all exec read ys)"
  by (induction xs arbitrary: d) (auto split: sum.splits)

text \<open>What is pending after the first \<open>k\<close>.\<close>

lemma ran_pending:
  assumes "ran exec read names s k s'" "distinct names"
  shows "mig_pending s' names = drop k (mig_pending s names)"
proof -
  let ?p = "mig_pending s names"
  have "mig_pending s' names = filter (\<lambda>n. n \<notin> set (take k ?p)) ?p"
    using assms(1) by (simp add: ran_def mig_pending_def conj_commute)
  also have "\<dots> = filter (\<lambda>n. n \<notin> set (take k ?p)) (take k ?p @ drop k ?p)" by simp
  also have "\<dots> = filter (\<lambda>n. n \<notin> set (take k ?p)) (drop k ?p)" by (simp only: filter_append) simp
  also have "\<dots> = drop k ?p"
  proof (rule filter_True)
    have "distinct (take k ?p @ drop k ?p)" using assms(2) by (simp add: mig_pending_def)
    then show "\<forall>n\<in>set (drop k ?p). n \<notin> set (take k ?p)" unfolding distinct_append by blast
  qed
  finally show ?thesis .
qed

lemma ran_twice:
  assumes "ran exec read names s k s1" "ran exec read names s1 j s2" "distinct names"
  shows "ran exec read names s (k + j) s2"
  using assms(1,2) unfolding ran_def ran_pending [OF assms(1,3)] take_add by (auto simp: apply_all_append)

text \<open>
  C40: migrations run once, in the order of their names, and a run that failed can be repeated. Whatever
  statement fails, a run has applied the first \<open>k\<close> of the pending files, each whole and each recorded, and
  nothing else; a run that succeeds has applied them all. The next run goes on with file \<open>k + 1\<close>; after a
  success it changes nothing.
\<close>

theorem migrations_run_once_in_order:
  assumes "migrate_Up exec (Inr entries) read s = (r1, s1)" "migrate_Up exec (Inr entries) read s1 = (r2, s2)"
    and "distinct (map fst entries)" "pending = mig_pending s (migration_names entries)"
  shows "sorted pending \<and> (\<exists>k k'. k \<le> k' \<and> k' \<le> length pending
    \<and> mg_versions s1 = mg_versions s @ take k pending \<and> apply_all exec read (take k pending) (mg_schema s) = Some (mg_schema s1)
    \<and> mg_versions s2 = mg_versions s @ take k' pending \<and> apply_all exec read (take k' pending) (mg_schema s) = Some (mg_schema s2)
    \<and> (r1 = Inr () \<longrightarrow> k = length pending) \<and> (r2 = Inr () \<longrightarrow> k' = length pending))"
proof -
  let ?names = "migration_names entries"
  obtain k where k: "k \<le> length pending" "ran exec read ?names s k s1" "r1 = Inr () \<longrightarrow> k = length pending"
    using migrate_Up_ran [OF assms(1,3)] assms(4) by auto
  have left: "length (mig_pending s1 ?names) = length pending - k"
    using ran_pending [OF k(2) migration_names_distinct [OF assms(3)]] assms(4) by simp
  obtain j where j: "j \<le> length pending - k" "ran exec read ?names s1 j s2" "r2 = Inr () \<longrightarrow> j = length pending - k"
    using migrate_Up_ran [OF assms(2,3)] left by auto
  have "sorted pending" by (simp add: assms(4) mig_pending_def migration_names_def sorted_filter [where f = "\<lambda>x. x", simplified])
  moreover have "ran exec read ?names s (k + j) s2"
    by (rule ran_twice [OF k(2) j(2) migration_names_distinct [OF assms(3)]])
  ultimately show ?thesis using k j unfolding ran_def assms(4)
    by (intro conjI exI [of _ k] exI [of _ "k + j"]) auto
qed

text \<open>Two files; the second one's section fails the first time.\<close>

definition sample_mig :: "string mig" where
  "sample_mig = \<lparr>mg_versions = [], mg_schema = [], mg_step = 0, mg_faults = (\<lambda>n. if n = 8 then Some ''down'' else None)\<rparr>"

definition sample_up :: "(string mig, unit) op" where
  "sample_up = migrate_Up (\<lambda>sql d. Inr (d @ sql)) (Inr [(''2.sql'', False), (''1.sql'', False), (''old'', True)])
     (\<lambda>n. Inr ''up'')"

theorem migrations_run_once_in_order_witness:
  "fst (sample_up sample_mig) \<noteq> Inr () \<and> mg_versions (snd (sample_up (snd (sample_up sample_mig)))) = [''1.sql'', ''2.sql'']"
proof -
  obtain r1 s1 where one: "sample_up sample_mig = (r1, s1)" by fastforce
  obtain r2 s2 where two: "sample_up s1 = (r2, s2)" by fastforce
  have failed: "fst (sample_up sample_mig) \<noteq> Inr ()" by code_simp
  have "fst (sample_up (snd (sample_up sample_mig))) = Inr ()" by code_simp
  then have "r2 = Inr ()" using one two by simp
  moreover have "mig_pending sample_mig (migration_names [(''2.sql'', False), (''1.sql'', False), (''old'', True)]) = [''1.sql'', ''2.sql'']"
    by code_simp
  ultimately have "mg_versions s2 = [''1.sql'', ''2.sql'']"
    using migrations_run_once_in_order [OF one [unfolded sample_up_def] two [unfolded sample_up_def] _ refl]
    by (auto simp: sample_mig_def)
  then show ?thesis using failed one two by simp
qed

end
