(* ===== verification/Observability.thy ===== *)
theory Observability
  imports Httpx Database
begin

text \<open>
  \<open>internal/platform/observability\<close>: the instruments, the middleware that counts requests, the analyzer with
  latency metrics, and the sampling of the outbox.

  A counter vector is a function from the values of its labels, in the order of their declaration, to a
  count; a histogram vector to the durations observed, the latest first. Prometheus and OpenTelemetry themselves
  are not part of the repository, nor are spans, which nothing in the program reads.
\<close>

section \<open>Instruments\<close>

record metrics =
  mt_HTTPRequests :: "string list \<Rightarrow> nat"
  mt_HTTPDuration :: "string list \<Rightarrow> duration list"
  mt_PipelineJobs :: "string list \<Rightarrow> nat"
  mt_PipelineDuration :: "string list \<Rightarrow> duration list"
  mt_AIDuration :: "string list \<Rightarrow> duration list"
  mt_OutboxPending :: int
  mt_RateLimitRejected :: "string list \<Rightarrow> nat"
  mt_DLQPublished :: "string list \<Rightarrow> nat"
  mt_ClaimSkipped :: "string list \<Rightarrow> nat"
  mt_AnalysisStarted :: nat

definition NewMetrics :: metrics where
  "NewMetrics =
     \<lparr>mt_HTTPRequests = (\<lambda>_. 0), mt_HTTPDuration = (\<lambda>_. []), mt_PipelineJobs = (\<lambda>_. 0), mt_PipelineDuration = (\<lambda>_. []),
      mt_AIDuration = (\<lambda>_. []), mt_OutboxPending = 0, mt_RateLimitRejected = (\<lambda>_. 0), mt_DLQPublished = (\<lambda>_. 0),
      mt_ClaimSkipped = (\<lambda>_. 0), mt_AnalysisStarted = 0\<rparr>"

text \<open>\<open>WithLabelValues(..).Inc()\<close> and \<open>WithLabelValues(..).Observe(d)\<close>.\<close>

definition counted :: "string list \<Rightarrow> (string list \<Rightarrow> nat) \<Rightarrow> string list \<Rightarrow> nat" where
  "counted labels c = c(labels := Suc (c labels))"

definition observed :: "string list \<Rightarrow> duration \<Rightarrow> (string list \<Rightarrow> duration list) \<Rightarrow> string list \<Rightarrow> duration list" where
  "observed labels d h = h(labels := d # h labels)"

definition statusClass :: "int \<Rightarrow> string" where
  "statusClass code =
     (if code \<ge> 500 then ''5xx'' else if code \<ge> 400 then ''4xx'' else if code \<ge> 300 then ''3xx''
      else if code \<ge> 200 then ''2xx'' else ''1xx'')"

definition ObserveHTTP :: "string \<Rightarrow> string \<Rightarrow> string \<Rightarrow> int \<Rightarrow> duration \<Rightarrow> metrics \<Rightarrow> metrics" where
  "ObserveHTTP service meth route status d m =
     (let labels = [service, meth, route, statusClass status]
      in m\<lparr>mt_HTTPRequests := counted labels (mt_HTTPRequests m), mt_HTTPDuration := observed labels d (mt_HTTPDuration m)\<rparr>)"

definition result_label :: "err option \<Rightarrow> string" where
  "result_label e = (if e \<noteq> None then ''error'' else ''ok'')"

definition ObservePipeline :: "string \<Rightarrow> err option \<Rightarrow> duration \<Rightarrow> metrics \<Rightarrow> metrics" where
  "ObservePipeline stage e d m =
     m\<lparr>mt_PipelineJobs := counted [stage, result_label e] (mt_PipelineJobs m),
       mt_PipelineDuration := observed [stage] d (mt_PipelineDuration m)\<rparr>"

definition ObserveAI :: "string \<Rightarrow> err option \<Rightarrow> duration \<Rightarrow> metrics \<Rightarrow> metrics" where
  "ObserveAI provider e d m = m\<lparr>mt_AIDuration := observed [provider, result_label e] d (mt_AIDuration m)\<rparr>"

text \<open>These may be called on no metrics at all.\<close>

definition IncRateLimited :: "string \<Rightarrow> metrics option \<Rightarrow> metrics option" where
  "IncRateLimited route = map_option (\<lambda>m. m\<lparr>mt_RateLimitRejected := counted [route] (mt_RateLimitRejected m)\<rparr>)"

definition IncClaimSkipped :: "string \<Rightarrow> string \<Rightarrow> metrics option \<Rightarrow> metrics option" where
  "IncClaimSkipped stage reason = map_option (\<lambda>m. m\<lparr>mt_ClaimSkipped := counted [stage, reason] (mt_ClaimSkipped m)\<rparr>)"

definition IncDLQ :: "string \<Rightarrow> metrics option \<Rightarrow> metrics option" where
  "IncDLQ topic = map_option (\<lambda>m. m\<lparr>mt_DLQPublished := counted [topic] (mt_DLQPublished m)\<rparr>)"

definition IncAnalysisStarted :: "metrics option \<Rightarrow> metrics option" where
  "IncAnalysisStarted = map_option (\<lambda>m. m\<lparr>mt_AnalysisStarted := Suc (mt_AnalysisStarted m)\<rparr>)"

text \<open>The attributes of a span: the values of the context that are not empty.\<close>

definition SpanAttrsFromContext :: "log_ctx \<Rightarrow> (string \<times> string) list" where
  "SpanAttrsFromContext c =
     filter (\<lambda>(_, v). v \<noteq> [])
       [(''correlation_id'', correlation_id_from_ctx c), (''request_id'', request_id_from_ctx c),
        (''recording_id'', case lx_recording_id c of Some v \<Rightarrow> v | None \<Rightarrow> [])]"

section \<open>Middleware\<close>

text \<open>
  \<open>metered w s = (w', s')\<close> is the handler behind it. The status is the one its \<open>statusWriter\<close> saw: 200 until a header is
  written. A panic passes through the middleware, and the request is not counted. The pattern of the request is read before the multiplexer sets it (and the multiplexer sets it on
  a copy), so that for a server's own requests the route is the raw path.
\<close>

definition seen_status :: "response \<Rightarrow> int" where
  "seen_status w = (case rw_Status w of None \<Rightarrow> 200 | Some c \<Rightarrow> c)"

definition metric_route :: "request \<Rightarrow> string" where
  "metric_route r = (if rq_Pattern r = [] then rq_Path r else rq_Pattern r)"

definition Middleware :: "('s \<Rightarrow> go_time \<times> 's) \<Rightarrow> string \<Rightarrow> 's handler \<Rightarrow> request \<Rightarrow> response \<Rightarrow> 's \<times> metrics \<Rightarrow> response \<times> 's \<times> metrics" where
  "Middleware clock service nxt r w = (\<lambda>(s, m).
     let (start, s1) = clock s; (w', s2) = nxt r w s1; (fin, s3) = clock s2
     in if rw_Aborted w' then (w', s2, m)
        else (w', s3, ObserveHTTP service (rq_Method r) (metric_route r) (seen_status w') (time_sub fin start) m))"

section \<open>Analyzer\<close>

definition observed_Analyze ::
    "('s \<Rightarrow> go_time \<times> 's) \<Rightarrow> string \<Rightarrow> (analysis_input \<Rightarrow> ('s, analysis_result) op) \<Rightarrow> analysis_input
       \<Rightarrow> ('s \<times> metrics option, analysis_result) op" where
  "observed_Analyze clock name analyze inp = (\<lambda>(s, m).
     let (start, s1) = clock s; (r, s2) = analyze inp s1; (fin, s3) = clock s2;
         provider = (case r of Inr out \<Rightarrow> (if res_Provider out \<noteq> [] then res_Provider out else name) | Inl _ \<Rightarrow> name)
     in (r, (s3, map_option (ObserveAI provider (case r of Inl e \<Rightarrow> Some e | Inr _ \<Rightarrow> None) (time_sub fin start)) m)))"

section \<open>Outbox lag\<close>

text \<open>\<open>sample\<close>: the gauge becomes the number of unpublished events, and keeps its value when the query fails.\<close>

definition lag_sample :: "pg \<times> metrics \<Rightarrow> pg \<times> metrics" where
  "lag_sample = (\<lambda>(s, m).
     case query (\<lambda>db. int (length (filter (\<lambda>b. ob_published_at b = None) (t_outbox db)))) s of
       (Inl _, s') \<Rightarrow> (s', m)
     | (Inr n, s') \<Rightarrow> (s', m\<lparr>mt_OutboxPending := n\<rparr>))"

text \<open>\<open>Run\<close> samples once, then at each tick until the context is done; what happens between two ticks is \<open>others\<close>.\<close>

fun lag_run :: "(pg \<Rightarrow> pg) list \<Rightarrow> pg \<times> metrics \<Rightarrow> pg \<times> metrics" where
  "lag_run [] w = lag_sample w"
| "lag_run (others # later) w = (let (s, m) = lag_sample w in lag_run later (others s, m))"

section \<open>Facts\<close>

text \<open>The analyzer's answer passes unchanged.\<close>

lemma observed_Analyze_answer: "fst (observed_Analyze clock name analyze inp (s, m)) = fst (analyze inp (snd (clock s)))"
  by (simp add: observed_Analyze_def split: prod.splits)

text \<open>A server takes requests one after the other.\<close>

fun serve_all :: "'s handler \<Rightarrow> request list \<Rightarrow> 's \<Rightarrow> response list \<times> 's" where
  "serve_all h [] s = ([], s)"
| "serve_all h (r # rs) s =
     (let (w, s1) = h r new_response s; (ws, s2) = serve_all h rs s1 in (w # ws, s2))"

definition answered_as :: "string \<Rightarrow> string \<Rightarrow> string \<Rightarrow> request \<times> response \<Rightarrow> bool" where
  "answered_as meth route cls = (\<lambda>(r, w). rq_Method r = meth \<and> metric_route r = route
     \<and> statusClass (seen_status w) = cls \<and> \<not> rw_Aborted w)"

lemma Middleware_counts:
  assumes "Middleware clock service nxt r w (s, m) = (w', (s', m'))"
  shows "mt_HTTPRequests m' [service, meth, route, cls] =
    mt_HTTPRequests m [service, meth, route, cls] + (if answered_as meth route cls (r, w') then 1 else 0)"
  using assms by (auto simp: Middleware_def ObserveHTTP_def counted_def answered_as_def Let_def split: prod.splits if_splits)

text \<open>Every request that was answered is counted once, under its method, route and class.\<close>

theorem requests_are_counted_once:
  "serve_all (Middleware clock service nxt) rs (s, m) = (ws, (s', m')) \<Longrightarrow>
     mt_HTTPRequests m' [service, meth, route, cls] =
     mt_HTTPRequests m [service, meth, route, cls] + length (filter (answered_as meth route cls) (zip rs ws))"
proof (induction rs arbitrary: s m ws)
  case (Cons r rs)
  obtain w s1 m1 where w: "Middleware clock service nxt r new_response (s, m) = (w, (s1, m1))"
    by (metis prod.collapse)
  then obtain ws' where ws: "serve_all (Middleware clock service nxt) rs (s1, m1) = (ws', (s', m'))" "ws = w # ws'"
    using Cons.prems by (auto split: prod.splits)
  show ?case using Cons.IH [OF ws(1)] Middleware_counts [OF w, of meth route cls] ws(2) by simp
qed simp

end
