(* ===== verification/Extractor.thy ===== *)
theory Extractor
  imports Media "HOL-Library.List_Lexorder" "HOL-Library.Char_ord"
begin

text \<open>
  \<open>internal/media/adapter/ffmpeg\<close>: still frames of a recording, taken by a program the adapter runs. The
  programs and the file system are parameters; \<open>sort.Strings\<close> orders by bytes, as \<open>sort\<close> does on strings here.
\<close>

record extractor =
  ex_Bin :: string
  ex_FPS :: string
  ex_MaxFrames :: int

definition extractor_New :: extractor where
  "extractor_New = \<lparr>ex_Bin = ''ffmpeg'', ex_FPS = ''0.5'', ex_MaxFrames = 20\<rparr>"

text \<open>
  \<open>CombinedOutput\<close> and \<open>Output\<close> of \<open>exec.Cmd\<close>, with the error if there was one; the files; and
  \<open>strconv.ParseFloat\<close> with the conversion \<open>int64(sec * 1000)\<close>.
\<close>

record ('s, 'f) programs =
  xe_CombinedOutput :: "string \<Rightarrow> string list \<Rightarrow> 's \<Rightarrow> (bytes \<times> err option) \<times> 's"
  xe_Output :: "string \<Rightarrow> string list \<Rightarrow> ('s, bytes) op"
  xe_ReadDir :: "string \<Rightarrow> ('s, (string \<times> bool) list) op"
  xe_ReadFile :: "string \<Rightarrow> ('s, bytes) op"
  xe_WriteFile :: "string \<Rightarrow> bytes \<Rightarrow> ('s, unit) op"
  xe_ParseFloat :: "string \<Rightarrow> err + 'f"
  xe_millis :: "'f \<Rightarrow> int"

definition cut_text :: "string \<Rightarrow> nat \<Rightarrow> string" where
  "cut_text s n = (if length s \<le> n then s else take n s @ ''...'')"

text \<open>\<open>strings.Replace(s, old, new, 1)\<close> for a non-empty \<open>old\<close>.\<close>

fun replace_first :: "string \<Rightarrow> string \<Rightarrow> string \<Rightarrow> string" where
  "replace_first [] old new = []"
| "replace_first (c # cs) old new =
     (if has_prefix (c # cs) old then new @ drop (length old) (c # cs) else c # replace_first cs old new)"

definition copyFile :: "('s, 'f) programs \<Rightarrow> string \<Rightarrow> string \<Rightarrow> ('s, unit) op" where
  "copyFile X src dst = andthen (xe_ReadFile X src) (xe_WriteFile X dst)"

definition probeDurationMS :: "('s, 'f) programs \<Rightarrow> string \<Rightarrow> string \<Rightarrow> 's \<Rightarrow> int \<times> 's" where
  "probeDurationMS X ffmpegBin input s =
     (case xe_Output X (replace_first ffmpegBin ''ffmpeg'' ''ffprobe'')
             [''-v'', ''error'', ''-show_entries'', ''format=duration'',
              ''-of'', ''default=noprint_wrappers=1:nokey=1'', input] s of
        (Inl e, s') \<Rightarrow> (0, s')
      | (Inr out, s') \<Rightarrow>
          (case xe_ParseFloat X (trim_space out) of Inl e \<Rightarrow> 0 | Inr sec \<Rightarrow> xe_millis X sec, s'))"

definition ffmpeg_args :: "extractor \<Rightarrow> string \<Rightarrow> string \<Rightarrow> string list" where
  "ffmpeg_args e inputPath outputDir =
     [''-y'', ''-i'', inputPath, ''-vf'', ''fps='' @ ex_FPS e, ''-q:v'', ''3'', path_join outputDir ''%05d.jpg'']"

text \<open>The frames among the entries of the output directory.\<close>

definition frame_paths :: "'z golib_scheme \<Rightarrow> extractor \<Rightarrow> string \<Rightarrow> (string \<times> bool) list \<Rightarrow> string list" where
  "frame_paths L e outputDir entries =
     (let frames = sort (map (\<lambda>(name, _). path_join outputDir name)
            (filter (\<lambda>(name, isDir). \<not> (isDir \<or> \<not> has_suffix (to_lower L name) ''.jpg'')) entries))
      in if ex_MaxFrames e > 0 \<and> int (length frames) > ex_MaxFrames e then take (nat (ex_MaxFrames e)) frames else frames)"

definition thumb_of :: "('s, 'f) programs \<Rightarrow> string \<Rightarrow> string \<Rightarrow> 's \<Rightarrow> string \<times> 's" where
  "thumb_of X outputDir first s =
     (let thumb = path_join outputDir ''thumb.jpg''
      in case copyFile X first thumb s of (Inl e, s') \<Rightarrow> (first, s') | (Inr _, s') \<Rightarrow> (thumb, s'))"

definition ffmpeg_Extract ::
    "'z golib_scheme \<Rightarrow> ('s, 'f) programs \<Rightarrow> extractor \<Rightarrow> string \<Rightarrow> string \<Rightarrow> ('s, extract_result) op" where
  "ffmpeg_Extract L X e inputPath outputDir s =
     (case xe_CombinedOutput X (ex_Bin e) (ffmpeg_args e inputPath outputDir) s of
        ((out, Some err), s1) \<Rightarrow> (Inl (ErrWrap ''ffmpeg: '' (ErrSuffix err ('': '' @ cut_text out 500))), s1)
      | ((out, None), s1) \<Rightarrow>
          (case xe_ReadDir X outputDir s1 of
             (Inl err, s2) \<Rightarrow> (Inl err, s2)
           | (Inr entries, s2) \<Rightarrow>
               (case frame_paths L e outputDir entries of
                  [] \<Rightarrow> (Inl (ErrOther ''ffmpeg produced no frames''), s2)
                | first # rest \<Rightarrow>
                    (let (thumb, s3) = thumb_of X outputDir first s2;
                         (durationMS, s4) = probeDurationMS X (ex_Bin e) inputPath s3
                     in (Inr \<lparr>xr_FramePaths = first # rest, xr_ThumbPath = thumb, xr_DurationMS = durationMS\<rparr>, s4)))))"

section \<open>Facts\<close>

lemma frame_paths_sorted: "sorted (frame_paths L e dir entries)"
  unfolding frame_paths_def by (simp add: Let_def)

lemma frame_paths_bounded: "0 < ex_MaxFrames e \<Longrightarrow> int (length (frame_paths L e dir entries)) \<le> ex_MaxFrames e"
  by (simp add: frame_paths_def Let_def)

lemma frame_paths_from:
  "p \<in> set (frame_paths L e dir entries) \<Longrightarrow> \<exists>name. (name, False) \<in> set entries \<and> p = path_join dir name"
  by (fastforce simp: frame_paths_def Let_def split: if_splits dest!: in_set_takeD)

text \<open>An extraction that succeeds has at least one frame, at most \<open>MaxFrames\<close>, in the order of their names.\<close>

theorem extracted_frames_are_ordered:
  assumes "ffmpeg_Extract L X e i dir s = (Inr r, s')"
  shows "xr_FramePaths r \<noteq> [] \<and> sorted (xr_FramePaths r)
    \<and> (0 < ex_MaxFrames e \<longrightarrow> int (length (xr_FramePaths r)) \<le> ex_MaxFrames e)
    \<and> xr_ThumbPath r \<in> {hd (xr_FramePaths r), path_join dir ''thumb.jpg''}"
proof -
  obtain out er s1 where c: "xe_CombinedOutput X (ex_Bin e) (ffmpeg_args e i dir) s = ((out, er), s1)"
    by (metis prod.collapse)
  with assms obtain entries s2 where d: "er = None" "xe_ReadDir X dir s1 = (Inr entries, s2)"
    by (auto simp: ffmpeg_Extract_def split: option.splits sum.splits prod.splits)
  with assms c obtain first rest where f: "frame_paths L e dir entries = first # rest"
    by (cases "frame_paths L e dir entries") (auto simp: ffmpeg_Extract_def)
  obtain thumb s3 where t: "thumb_of X dir first s2 = (thumb, s3)" by fastforce
  have "thumb \<in> {first, path_join dir ''thumb.jpg''}"
    using t by (auto simp: thumb_of_def Let_def split: sum.splits prod.splits)
  moreover have "xr_FramePaths r = frame_paths L e dir entries" "xr_ThumbPath r = thumb"
    using assms by (auto simp: ffmpeg_Extract_def c d f t split: prod.splits)
  ultimately show ?thesis
    using f frame_paths_sorted [of L e dir entries] frame_paths_bounded [of e L dir entries] by auto
qed

end
