(* ===== verification/Worker.thy ===== *)
theory Worker
  imports AI_Adapters AI_Memory Platform Observability Extractor
begin

text \<open>
  \<open>cmd/worker/main.go\<close>: what the worker builds out of its configuration. The goroutines it starts are the loops of
  \<open>Outbox\<close>, \<open>Kafka\<close> (with the pipelines of \<open>AI_Adapters\<close>) and \<open>Observability\<close>.
\<close>

section \<open>Services\<close>

definition openai_config_of :: "ai_config \<Rightarrow> openai_config" where
  "openai_config_of a =
     openai_New \<lparr>oa_BaseURL = aic_BaseURL a, oa_APIKey = aic_APIKey a, oa_Model = aic_Model a, oa_Timeout = aic_Timeout a\<rparr>"

definition worker_analyzer ::
    "'z golib_scheme \<Rightarrow> 's openai_deps \<Rightarrow> 'f config \<Rightarrow> analysis_input \<Rightarrow> ('s, analysis_result) op" where
  "worker_analyzer L D cfg =
     (case newAnalyzer L cfg of OpenAIAnalyzer a \<Rightarrow> openai_Analyze D (openai_config_of a) | MockAnalyzer \<Rightarrow> mock_Analyze)"

text \<open>The latency metrics around the analyzer do not change its answers (\<open>observed_Analyze_answer\<close>), and are left out.\<close>

definition worker_ai_service ::
    "'z golib_scheme \<Rightarrow> (string \<Rightarrow> string) \<Rightarrow> 's openai_deps \<Rightarrow> 's storage \<Rightarrow> 's analysis_store \<Rightarrow> (uuid \<Rightarrow> 's \<Rightarrow> 's) \<Rightarrow> 'f config
       \<Rightarrow> 's ai_service" where
  "worker_ai_service L quote D M st invalidate cfg =
     (let S = ai_service_new st (worker_analyzer L D cfg) (aic_MaxFrames (cfg_AI cfg)) (worker_claim_lease cfg) (aic_ClaimRenew (cfg_AI cfg));
          S = (if equal_fold_ascii (aic_Provider (cfg_AI cfg)) ''openai''
               then with_frame_reader (Some (ReadFrame L quote (Some (storage_frames M)))) (aic_FrameMaxBytes (cfg_AI cfg)) S
               else S)
      in if redis_enabled cfg then with_cache_invalidator (Some invalidate) S else S)"

definition worker_media_service ::
    "'z golib_scheme \<Rightarrow> ('s, 'f) programs \<Rightarrow> 's media_store \<Rightarrow> 's media_objects \<Rightarrow> 's job_files \<Rightarrow> string \<Rightarrow> string option \<Rightarrow> int
       \<Rightarrow> 'g config \<Rightarrow> 's media_service" where
  "worker_media_service L X st objects files tempDir host pid cfg =
     \<lparr>ms_store = st, ms_objects = objects, ms_extract = ffmpeg_Extract L X extractor_New, ms_files = files,
      ms_workdir = tempDir,
      ms_claim = claim_with_defaults host pid
        \<lparr>cc_Owner = mdc_WorkerID (cfg_Media cfg), cc_Lease = mdc_ClaimLease (cfg_Media cfg), cc_RenewInterval = mdc_ClaimRenew (cfg_Media cfg)\<rparr>\<rparr>"

section \<open>Topics\<close>

definition worker_topics :: "string list" where
  "worker_topics =
     [TopicRecordingUploaded, TopicFramesExtracted, TopicAnalysisStarted, TopicAnalysisCompleted, TopicReportGenerated,
      TopicShareCreated, TopicCommentCreated, dlq_topic TopicRecordingUploaded, dlq_topic TopicFramesExtracted]"

definition api_topics :: "string list" where
  "api_topics = [TopicRecordingUploaded, TopicShareCreated, TopicCommentCreated]"

text \<open>A topic that cannot be created is logged and passed over; without a broker the program panics.\<close>

fun ensure_topics :: "('s, 'c) kafka_admin \<Rightarrow> string list \<Rightarrow> string list \<Rightarrow> ('s, unit) op" where
  "ensure_topics K brokers [] = ret ()"
| "ensure_topics K brokers (topic # topics) =
     andthen (attempt (EnsureTopic K brokers topic 3)) (\<lambda>r.
       case r of Inl (ErrPanic m) \<Rightarrow> fail (ErrPanic m) | _ \<Rightarrow> ensure_topics K brokers topics)"

section \<open>The sweep of abandoned uploads\<close>

text \<open>
  \<open>run()\<close> at once and at every tick: the list holds what others do before each tick. The error of
  a sweep is logged.
\<close>

fun worker_sweeps ::
    "'s upload_service \<Rightarrow> duration \<Rightarrow> int \<Rightarrow> ('s \<Rightarrow> go_time \<times> 's) list \<Rightarrow> 's \<Rightarrow> 's" where
  "worker_sweeps S ttl batch [] s = s"
| "worker_sweeps S ttl batch (others # ticks) s =
     (let (now, s1) = others s in worker_sweeps S ttl batch ticks (snd (ups_SweepAbandonedUploads S ttl batch now s1)))"

definition worker_gc_run ::
    "'f config \<Rightarrow> 's recording_repository \<Rightarrow> 's object_storage \<Rightarrow> ('s \<Rightarrow> go_time \<times> 's) list \<Rightarrow> 's \<Rightarrow> 's" where
  "worker_gc_run cfg recordings objects ticks s =
     (case worker_gc cfg of
        None \<Rightarrow> s
      | Some (ttl, interval, batch) \<Rightarrow>
          worker_sweeps (upload_service_new recordings (Some objects) access_ok (15 * minute)) ttl batch ticks s)"

section \<open>Properties\<close>

lemma fold_openai_lower: "equal_fold_ascii p ''openai'' \<Longrightarrow> to_lower L p = ''openai''"
proof -
  assume "equal_fold_ascii p ''openai''"
  then have low: "map lower_char p = ''openai''" by (simp add: equal_fold_ascii_def lower_char_def)
  have "(of_char c :: nat) < 128" if "c \<in> set p" for c
  proof -
    have "lower_char c \<in> set ''openai''" using that low by (metis image_eqI list.set_map)
    then have "(of_char (lower_char c) :: nat) < 128" by auto
    then show ?thesis by (auto simp: lower_char_def split: if_splits)
  qed
  then have "is_ascii p" by (simp add: is_ascii_def list_all_iff)
  then show ?thesis using low by (simp add: to_lower_def)
qed

text \<open>
  C18: the worker's model sees what was stored. With a configuration that \<open>Load\<close> accepted and the provider
  \<open>openai\<close>, the worker analyses with that provider, and every key frame it hands over is the whole object under its
  key, not empty, of an accepted image type and within the configured limit (at most 20 MiB). The analyzer then
  refuses none of them and sends, in the order of the keys, one data URL per frame that decodes to that
  frame's type and bytes.
\<close>

theorem worker_model_sees_the_stored_frames:
  assumes "Load L F env = Inr cfg" "equal_fold_ascii (aic_Provider (cfg_AI cfg)) ''openai''"
    and "S = worker_ai_service L q D M st invalidate cfg"
    and "ai_loadFrames J S E keys s = (Inr fs, s')" "keys \<noteq> []" "ai_Frames inp = fs"
  shows "as_analyzer S = openai_Analyze D (openai_config_of (cfg_AI cfg))
    \<and> list_all2 (\<lambda>key f. fi_StorageKey f = key \<and> read_from M f \<and> frame_ok (aic_FrameMaxBytes (cfg_AI cfg)) f
         \<and> length (fi_Data f) \<le> 20971520) keys fs
    \<and> (\<exists>ps. buildContent q' inp = Inr ps \<and> length ps = 2 * length keys \<and> list_all2 shows_frame (image_urls ps) fs)"
proof -
  have limit: "1 \<le> aic_FrameMaxBytes (cfg_AI cfg)" "aic_FrameMaxBytes (cfg_AI cfg) \<le> 20971520"
    using assms(1) unfolding Load_Inr by blast+
  then have S: "as_frames S = Some (ReadFrame L q (Some (storage_frames M)))" "as_frameBytes S = aic_FrameMaxBytes (cfg_AI cfg)"
    "as_analyzer S = worker_analyzer L D cfg"
    using assms(2) unfolding assms(3)
    by (simp_all add: worker_ai_service_def Let_def with_frame_reader_def with_cache_invalidator_def ai_service_new_def)
  have "worker_analyzer L D cfg = openai_Analyze D (openai_config_of (cfg_AI cfg))"
    by (simp add: worker_analyzer_def newAnalyzer_def fold_openai_lower [OF assms(2)])
  moreover have "list_all2 (\<lambda>key f. fi_StorageKey f = key \<and> read_from M f \<and> frame_ok (aic_FrameMaxBytes (cfg_AI cfg)) f) keys fs"
    "\<exists>ps. buildContent q' inp = Inr ps \<and> length ps = 2 * length keys \<and> list_all2 shows_frame (image_urls ps) fs"
    using model_sees_the_stored_frames [OF S(1) assms(4-6)] unfolding S(2) by blast+
  ultimately show ?thesis using S(3) limit by (auto simp: frame_ok_def elim!: list.rel_mono_strong)
qed

text \<open>A bucket that holds the same picture under every key.\<close>

definition sample_client :: "ai_world minio_client" where
  "sample_client =
     \<lparr>mn_BucketExists = (\<lambda>_. ret True), mn_MakeBucket = (\<lambda>_. ret ()), mn_PresignHeader = (\<lambda>_ _ key _ _. ret key),
      mn_PresignedGetObject = (\<lambda>_ key _. ret key),
      mn_StatObject = (\<lambda>_ _. ret \<lparr>oi_Size = 4, oi_ContentType = ''Image/PNG ; q=1'', oi_ETag = ''e''\<rparr>),
      mn_PutObject = (\<lambda>_ _ _ _ _. ret ()), mn_GetObject = (\<lambda>_ _. ret ([''abc'', [], ''d''], None)),
      mn_RemoveObject = (\<lambda>_ _. ret ()), mn_ListObjects = (\<lambda>_ _. ret []), mn_response = (\<lambda>_. (''NoSuchKey'', 404))\<rparr>"

definition sample_storage :: "ai_world storage" where
  "sample_storage = \<lparr>sto_client = sample_client, sto_signer = sample_client, sto_bucket = ''b''\<rparr>"

definition sample_deps :: "ai_world openai_deps" where
  "sample_deps =
     \<lparr>od_marshal = (\<lambda>_. Inr ''{}''), od_resp = (\<lambda>_. Inl (ErrOther ''json'')), od_llm = (\<lambda>_. Inl (ErrOther ''json'')),
      od_bad_url = (\<lambda>_. None), od_Do = (\<lambda>_ _ _. fail (ErrOther ''down'')), od_quote = (\<lambda>s. s)\<rparr>"

definition sample_worker_service :: "ai_world ai_service" where
  "sample_worker_service =
     worker_ai_service sample_lib (\<lambda>s. s) sample_deps sample_storage (amem_store sample_lib sample_codec) (\<lambda>_ w. w)
       (env_config sample_floats (production_env ''openai'' ''sk''))"

definition sample_loaded :: "frame_input list" where
  "sample_loaded = map (\<lambda>k. \<lparr>fi_StorageKey = k, fi_MediaType = ''image/png'', fi_Data = ''abcd''\<rparr>) [''f0'', ''f1'']"

lemma sample_frames_read:
  assumes "4 \<le> n"
  shows "ReadFrame sample_lib (\<lambda>s. s) (Some (storage_frames sample_storage)) k n s =
     (Inr \<lparr>fi_StorageKey = k, fi_MediaType = ''image/png'', fi_Data = ''abcd''\<rparr>, s)"
proof -
  have "media_type_of sample_lib ''Image/PNG ; q=1'' = ''image/png''" by code_simp
  then show ?thesis using assms
    by (simp add: ReadFrame_def stated_frame_def download_frame_def storage_frames_def sto_Stat_def sto_Download_def
        sample_storage_def sample_client_def bounded_Write_def andthen_def map_err_def accepted_media_type_def Let_def)
qed

definition quiet_env :: "ai_world ai_env" where
  "quiet_env = \<lparr>ae_now = (\<lambda>w. (0, w)), ae_uuid = (\<lambda>w. (0, w)), ae_pause = (\<lambda>w. w)\<rparr>"

lemma sample_worker_loads:
  "ai_loadFrames sample_codec sample_worker_service quiet_env [''f0'', ''f1''] amem_new = (Inr sample_loaded, amem_new)"
proof -
  have "as_frames sample_worker_service = Some (ReadFrame sample_lib (\<lambda>s. s) (Some (storage_frames sample_storage)))"
    "as_frameBytes sample_worker_service = 5 * 2 ^ 20"
    by (simp_all add: sample_worker_service_def worker_ai_service_def Let_def with_frame_reader_def with_cache_invalidator_def
        production_fields equal_fold_ascii_def)
  then show ?thesis
    by (simp add: ai_loadFrames_def sample_frames_read sample_loaded_def quiet_env_def while_working_def andthen_def map_err_def)
qed

theorem worker_model_sees_the_stored_frames_witness:
  "\<exists>ps. buildContent (\<lambda>s. s) \<lparr>ai_RecordingID = ''9'', ai_ProjectID = ''7'', ai_FrameKeys = [''f0'', ''f1''],
        ai_Frames = sample_loaded, ai_MetadataJSON = [], ai_PromptVersion = PromptVersion\<rparr> = Inr ps
     \<and> length ps = 4 \<and> list_all2 shows_frame (image_urls ps) sample_loaded"
proof -
  let ?cfg = "env_config sample_floats (production_env ''openai'' ''sk'')"
  have load: "Load sample_lib sample_floats (production_env ''openai'' ''sk'') = Inr ?cfg"
    by (rule production_loads) (simp_all add: sample_trims)
  have openai: "equal_fold_ascii (aic_Provider (cfg_AI ?cfg)) ''openai''"
    by (simp add: production_fields equal_fold_ascii_def)
  show ?thesis
    using worker_model_sees_the_stored_frames [OF load openai sample_worker_service_def sample_worker_loads, of
        "\<lparr>ai_RecordingID = ''9'', ai_ProjectID = ''7'', ai_FrameKeys = [''f0'', ''f1''],
          ai_Frames = sample_loaded, ai_MetadataJSON = [], ai_PromptVersion = PromptVersion\<rparr>" "\<lambda>s. s"]
    by simp
qed

end
